(* ===== verification/Prelude.thy ===== *)
theory Prelude
  imports Main "HOL-Library.Word" "HOL-Library.Monad_Syntax"
begin

unbundle bit_operations_syntax

text \<open>
  Shared vocabulary of the development: the machine integers of the driver, the
  convention for undefined behaviour and divergence, the rounding macro of
  \<^verbatim>\<open>src/src/direct/nv-driver.h\<close>, and the generic facts on lists, options and words
  that the component theories use.

  Convention.  A C function that can leave the defined part of the language (an access
  outside a block, a NULL or dangling dereference) or that can loop forever is modelled by
  a function into \<open>'a option\<close>: \<open>None\<close> is "stuck", \<open>Some r\<close> is "returned
  \<open>r\<close>".  Error codes of the driver are ordinary values inside \<open>Some\<close>.  A theorem
  that an operation is safe therefore says that its result is \<open>Some\<close> of something.
\<close>

type_synonym u8 = "8 word"
type_synonym u16 = "16 word"
type_synonym u32 = "32 word"
type_synonym u64 = "64 word"

text \<open>Addresses of heap blocks. Address 0 is NULL; no block is ever reused.\<close>

type_synonym addr = nat

abbreviation (input) NULL :: addr where
  "NULL \<equiv> 0"

named_theorems bytes_len
  \<open>lengths of emitted byte segments\<close>
named_theorems state_defs
  \<open>definitions of the small state updates of the driver\<close>

section \<open>Stuck computations\<close>

definition guard :: "bool \<Rightarrow> unit option" where
  "guard b = (if b then Some () else None)"

lemma guard_simps [simp]:
  "guard True = Some ()" "guard False = None"
  "(guard b = Some u) = b" "(guard b = None) = (\<not> b)"
  by (auto simp: guard_def)

lemma bind_guard [simp]: "guard b \<bind> f = (if b then f () else None)"
  by (simp add: guard_def)

lemma bind_Some_iff:
  "(m \<bind> f = Some y) = (\<exists>x. m = Some x \<and> f x = Some y)"
  by (cases m) auto

section \<open>Rounding\<close>

text \<open>\<^verbatim>\<open>ROUND_UP(N, S)\<close> on 32-bit unsigned operands; the addition wraps.\<close>

definition ROUND_UP :: "u32 \<Rightarrow> u32 \<Rightarrow> u32" where
  "ROUND_UP N S = ((N + S - 1) div S) * S"

lemma nat_round_up_bounds:
  fixes n s :: nat
  assumes "0 < s"
  shows "n \<le> (n + s - 1) div s * s" "(n + s - 1) div s * s \<le> n + s - 1"
proof -
  have "(n + s - 1) div s * s + (n + s - 1) mod s = n + s - 1"
    by simp
  moreover have "(n + s - 1) mod s < s" using assms by simp
  ultimately show "n \<le> (n + s - 1) div s * s" by linarith
  show "(n + s - 1) div s * s \<le> n + s - 1" by simp
qed

lemma unat_ROUND_UP:
  assumes "0 < unat S" "unat N + unat S - 1 < 2 ^ 32"
  shows "unat (ROUND_UP N S) = (unat N + unat S - 1) div unat S * unat S"
proof -
  have s: "N + S - 1 = word_of_nat (unat N + unat S - 1)"
    using assms(1) by (simp add: of_nat_diff)
  have a: "unat (N + S - 1) = unat N + unat S - 1"
    using assms(2) by (simp add: s take_bit_nat_eq_self unat_of_nat)
  have "(unat N + unat S - 1) div unat S * unat S < 2 ^ 32"
    using assms nat_round_up_bounds(2)[of "unat S" "unat N"] by linarith
  then show ?thesis
    by (simp add: ROUND_UP_def unat_mult_lem [THEN iffD1] a unat_div)
qed

section \<open>Words\<close>

lemma unat_add_bounded:
  fixes a b :: "'a::len word"
  assumes "unat a + unat b < 2 ^ LENGTH('a)"
  shows "unat (a + b) = unat a + unat b"
  using assms by (simp add: unat_add_lem [THEN iffD1])

lemma unat_half [simp]:
  fixes a :: "'a::len word"
  shows "unat (drop_bit (Suc 0) a) = unat a div 2"
  by (simp add: unat_drop_bit_eq drop_bit_eq_div [of "Suc 0" "unat a"])

lemma ucast_of_unat: "(ucast (w :: 'a::len word) :: 'b::len word) = of_nat (unat w)"
  by (simp add: word_unat_eq_iff unat_of_nat unsigned_ucast_eq)

lemma unat_ucast_wide [simp]:
  fixes w :: "'a::len word"
  assumes "LENGTH('a) \<le> LENGTH('b::len)"
  shows "unat (ucast w :: 'b word) = unat w"
proof -
  have "unat w < 2 ^ LENGTH('a)" by (rule unsigned_less)
  also have "(2::nat) ^ LENGTH('a) \<le> 2 ^ LENGTH('b)" using assms by simp
  finally show ?thesis by (simp add: unsigned_ucast_eq take_bit_nat_eq_self)
qed

lemma unat_le_1_cases:
  fixes w :: "'a::len word"
  assumes "unat w \<le> 1"
  shows "w = 0 \<or> w = 1"
proof (cases "unat w = 0")
  case True
  then show ?thesis by (simp add: unat_eq_0)
next
  case False
  then have "unat w = unat (1 :: 'a word)" using assms by simp
  then show ?thesis by (metis word_unat_eq_iff)
qed

section \<open>Growing a capacity by half\<close>

text \<open>
  The growth loop \<^verbatim>\<open>while (need > cap) cap += cap >> 1\<close>, which the pointer array runs on
  32-bit and the bitstream buffer on 64-bit counters.  It does not return when the capacity
  is 0 or 1 and too small.
\<close>

partial_function (option) grow_by_half :: "'a::len word \<Rightarrow> 'a word \<Rightarrow> 'a word option" where
  "grow_by_half cap need =
     (if cap < need then grow_by_half (cap + drop_bit 1 cap) need else Some cap)"

lemma grow_by_half_returns:
  fixes cap need :: "'a::len word"
  assumes "2 \<le> unat cap" "2 * unat need \<le> 2 ^ LENGTH('a)"
  shows "\<exists>cap'. grow_by_half cap need = Some cap' \<and> need \<le> cap' \<and> cap \<le> cap'"
  using assms(1)
proof (induction "unat need - unat cap" arbitrary: cap rule: less_induct)
  case less
  show ?case
  proof (cases "cap < need")
    case False
    then show ?thesis by (simp add: grow_by_half.simps)
  next
    case True
    let ?c = "cap + drop_bit 1 cap"
    from True have lt: "unat cap < unat need" by (simp add: word_less_nat_alt)
    have c: "unat ?c = unat cap + unat cap div 2"
      using lt assms(2) by (subst unat_add_bounded) simp_all
    obtain cap' where "grow_by_half ?c need = Some cap'" "need \<le> cap'" "?c \<le> cap'"
      using less.hyps[of ?c] c less.prems lt by fastforce
    moreover have "cap \<le> ?c" using c by (simp add: word_le_nat_alt)
    ultimately show ?thesis
      using True by (subst grow_by_half.simps) auto
  qed
qed

lemma grow_by_half_stuck:
  assumes "unat cap \<le> 1" "cap < need"
  shows "grow_by_half cap need = None"
proof (cases "grow_by_half cap need")
  case (Some r)
  have "unat cap \<le> 1 \<longrightarrow> \<not> cap < need"
  proof (rule grow_by_half.raw_induct [where P = "\<lambda>cap need r. unat cap \<le> 1 \<longrightarrow> \<not> cap < need", OF _ Some])
    fix f and cap need r :: "'a word"
    assume IH: "\<And>cap need r. f cap need = Some r \<Longrightarrow> unat cap \<le> 1 \<longrightarrow> \<not> cap < need"
      and eq: "(if cap < need then f (cap + drop_bit 1 cap) need else Some cap) = Some r"
    show "unat cap \<le> 1 \<longrightarrow> \<not> cap < need"
    proof (intro impI notI)
      assume le: "unat cap \<le> 1" and lt: "cap < need"
      have "drop_bit 1 cap = 0" using le by (auto simp: word_unat_eq_iff)
      with IH [of cap need r] eq lt le show False by simp
    qed
  qed
  with assms show ?thesis by blast
qed simp

section \<open>Lists\<close>

lemma list_all_take: "list_all P xs \<Longrightarrow> list_all P (take n xs)"
  by (auto simp: list_all_iff dest: in_set_takeD)

lemma take_update_same_length:
  "n \<le> length xs \<Longrightarrow> take (Suc n) (xs @ [y]) = (if n < length xs then take (Suc n) xs else xs @ [y])"
  by auto

lemma delete_nth_length [simp]:
  "i < length xs \<Longrightarrow> length (take i xs @ drop (Suc i) xs) = length xs - 1"
  by simp

end
