(* ===== verification/AppendBuffer.thy ===== *)
theory AppendBuffer
  imports Prelude
begin

text \<open>
  The append-only byte buffer of \<^verbatim>\<open>src/src/vabackend.c\<close> (\<open>appendBuffer\<close>,
  \<open>freeBuffer\<close>) that collects a picture's bitstream and its slice offsets.  A block is
  a list of bytes in which \<open>None\<close> is a byte never written; a NULL \<^verbatim>\<open>buf\<close> is
  \<open>None\<close>.  The allocator is taken to succeed, as the code does not test it.
\<close>

record AppendableBuffer =
  ab_buf :: "u8 option list option"
  ab_size :: u64
  ab_allocated :: u64

definition empty_AppendableBuffer :: AppendableBuffer where
  "empty_AppendableBuffer = \<lparr>ab_buf = None, ab_size = 0, ab_allocated = 0\<rparr>"

section \<open>Operations\<close>

text \<open>\<^verbatim>\<open>memcpy\<close> of initialised bytes into a block.\<close>

definition write_block :: "u8 option list \<Rightarrow> nat \<Rightarrow> u8 list \<Rightarrow> u8 option list option" where
  "write_block blk off bytes = do {
     guard (off + length bytes \<le> length blk);
     Some (take off blk @ map Some bytes @ drop (off + length bytes) blk)
   }"

definition reserve :: "AppendableBuffer \<Rightarrow> u64 \<Rightarrow> AppendableBuffer option" where
  "reserve ab n =
     (case ab_buf ab of
        None \<Rightarrow> Some (ab\<lparr>ab_allocated := n * 2,
                          ab_buf := Some (replicate (unat (n * 2)) None), ab_size := 0\<rparr>)
      | Some blk \<Rightarrow>
          if ab_allocated ab < ab_size ab + n then do {
            a \<leftarrow> grow_by_half (ab_allocated ab) (ab_size ab + n);
            guard (unat (ab_size ab) \<le> unat a \<and> unat (ab_size ab) \<le> length blk);
            Some (ab\<lparr>ab_allocated := a,
                      ab_buf := Some (take (unat (ab_size ab)) blk @
                                      replicate (unat a - unat (ab_size ab)) None)\<rparr>)
          }
          else Some ab)"

definition appendBuffer :: "AppendableBuffer \<Rightarrow> u8 list \<Rightarrow> AppendableBuffer option" where
  "appendBuffer ab bytes = do {
     ab \<leftarrow> reserve ab (of_nat (length bytes));
     blk \<leftarrow> ab_buf ab;
     blk \<leftarrow> write_block blk (unat (ab_size ab)) bytes;
     Some (ab\<lparr>ab_buf := Some blk, ab_size := ab_size ab + of_nat (length bytes)\<rparr>)
   }"

definition freeBuffer :: "AppendableBuffer \<Rightarrow> AppendableBuffer" where
  "freeBuffer ab =
     (case ab_buf ab of
        None \<Rightarrow> ab
      | Some _ \<Rightarrow> ab\<lparr>ab_buf := None, ab_size := 0, ab_allocated := 0\<rparr>)"

section \<open>Invariant and contents\<close>

definition ab_wf :: "AppendableBuffer \<Rightarrow> bool" where
  "ab_wf ab \<longleftrightarrow>
     (case ab_buf ab of
        None \<Rightarrow> ab_size ab = 0
      | Some blk \<Rightarrow> length blk = unat (ab_allocated ab) \<and> 2 \<le> unat (ab_allocated ab) \<and>
          ab_size ab \<le> ab_allocated ab \<and>
          list_all (\<lambda>b. b \<noteq> None) (take (unat (ab_size ab)) blk))"

definition ab_bytes :: "AppendableBuffer \<Rightarrow> u8 list" where
  "ab_bytes ab = (case ab_buf ab of None \<Rightarrow> [] | Some blk \<Rightarrow> map the (take (unat (ab_size ab)) blk))"

lemma ab_wf_empty [simp]: "ab_wf empty_AppendableBuffer" "ab_bytes empty_AppendableBuffer = []"
  by (simp_all add: ab_wf_def empty_AppendableBuffer_def ab_bytes_def)

lemma length_ab_bytes: "ab_wf ab \<Longrightarrow> length (ab_bytes ab) = unat (ab_size ab)"
  by (auto simp: ab_wf_def ab_bytes_def word_le_nat_alt split: option.splits)

lemma ab_wf_freeBuffer [simp]: "ab_wf ab \<Longrightarrow> ab_wf (freeBuffer ab)" "ab_bytes (freeBuffer ab) = []"
  by (auto simp: ab_wf_def freeBuffer_def ab_bytes_def split: option.splits)

lemma reserve_spec:
  assumes wf: "ab_wf ab" and ne: "0 < n \<or> ab_buf ab \<noteq> None"
    and b: "length (ab_bytes ab) + n < 2 ^ 62"
  shows "\<exists>ab' blk. reserve ab (of_nat n) = Some ab' \<and> ab_wf ab' \<and> ab_buf ab' = Some blk \<and>
           ab_bytes ab' = ab_bytes ab \<and> unat (ab_size ab') + n \<le> length blk"
proof (cases "ab_buf ab")
  case None
  have n: "unat (of_nat n * 2 :: u64) = n * 2"
    using b by (subst of_nat_numeral [symmetric], subst of_nat_mult [symmetric])
      (simp only: unat_of_nat, simp add: take_bit_nat_eq_self)
  show ?thesis
    using None ne n by (auto simp: reserve_def ab_wf_def ab_bytes_def)
next
  case (Some blk)
  note wf' = wf [unfolded ab_wf_def, simplified Some option.case]
  have sz: "unat (ab_size ab) + n < 2 ^ 62"
    using b length_ab_bytes[OF wf] by simp
  have s: "unat (ab_size ab + of_nat n) = unat (ab_size ab) + n"
    using sz by (subst unat_add_bounded) (simp_all add: unat_of_nat take_bit_nat_eq_self)
  show ?thesis
  proof (cases "ab_allocated ab < ab_size ab + of_nat n")
    case False
    then show ?thesis
      using Some wf' wf s by (auto simp: reserve_def word_less_nat_alt not_less)
  next
    case True
    obtain a where a: "grow_by_half (ab_allocated ab) (ab_size ab + of_nat n) = Some a"
        "ab_size ab + of_nat n \<le> a" "ab_allocated ab \<le> a"
      using grow_by_half_returns[of "ab_allocated ab" "ab_size ab + of_nat n"] wf' s sz by auto
    have "unat (ab_size ab) + n \<le> unat a" "unat (ab_allocated ab) \<le> unat a"
         "unat (ab_size ab) \<le> unat (ab_allocated ab)"
      using a s wf' by (simp_all add: word_le_nat_alt)
    then show ?thesis
      using Some a wf' True
      by (auto simp: reserve_def ab_wf_def ab_bytes_def word_le_nat_alt)
  qed
qed

lemma appendBuffer_spec:
  assumes "ab_wf ab" "bytes \<noteq> [] \<or> ab_buf ab \<noteq> None"
    and "length (ab_bytes ab) + length bytes < 2 ^ 62"
  shows "\<exists>ab'. appendBuffer ab bytes = Some ab' \<and> ab_wf ab' \<and> ab_buf ab' \<noteq> None \<and>
           ab_bytes ab' = ab_bytes ab @ bytes"
proof -
  obtain r blk where r: "reserve ab (of_nat (length bytes)) = Some r" "ab_wf r" "ab_buf r = Some blk"
      "ab_bytes r = ab_bytes ab" "unat (ab_size r) + length bytes \<le> length blk"
    using reserve_spec[OF assms(1), of "length bytes"] assms(2,3) by auto
  have s: "unat (ab_size r + of_nat (length bytes)) = unat (ab_size r) + length bytes"
    using assms(3) r(4) length_ab_bytes[OF r(2)]
    by (subst unat_add_bounded) (simp_all add: unat_of_nat take_bit_nat_eq_self)
  have t: "take (unat (ab_size r) + length bytes)
      (take (unat (ab_size r)) blk @ map Some bytes @ drop (unat (ab_size r) + length bytes) blk) =
      take (unat (ab_size r)) blk @ map Some bytes"
    using r(5) by simp
  have "ab_bytes r = map the (take (unat (ab_size r)) blk)" using r(3) by (simp add: ab_bytes_def)
  then show ?thesis
    using r s t
    by (auto simp: appendBuffer_def write_block_def ab_wf_def ab_bytes_def word_le_nat_alt list_all_iff)
qed

section \<open>The interface of a byte sink\<close>

text \<open>
  What the codecs rely on when they collect slices: appending a non-empty run of bytes
  returns and extends the contents.  The bound keeps the 64-bit counters from wrapping.
\<close>

locale byte_sink =
  fixes append :: "'s \<Rightarrow> u8 list \<Rightarrow> 's option"
    and contents :: "'s \<Rightarrow> u8 list"
    and invar :: "'s \<Rightarrow> bool"
  assumes append_law: "invar s \<Longrightarrow> bs \<noteq> [] \<Longrightarrow> length (contents s) + length bs < 2 ^ 62 \<Longrightarrow>
      \<exists>s'. append s bs = Some s' \<and> invar s' \<and> contents s' = contents s @ bs"
begin

primrec append_all :: "'s \<Rightarrow> u8 list list \<Rightarrow> 's option" where
  "append_all s [] = Some s"
| "append_all s (b # bs) = append s b \<bind> (\<lambda>s'. append_all s' bs)"

lemma append_all_contents:
  assumes "invar s" "list_all (\<lambda>b. b \<noteq> []) bs"
    "length (contents s) + length (concat bs) < 2 ^ 62"
  shows "\<exists>s'. append_all s bs = Some s' \<and> invar s' \<and> contents s' = contents s @ concat bs"
  using assms
proof (induction bs arbitrary: s)
  case Nil
  then show ?case by simp
next
  case (Cons b bs)
  obtain s1 where "append s b = Some s1" "invar s1" "contents s1 = contents s @ b"
    using append_law[of s b] Cons.prems by auto
  with Cons.IH[of s1] Cons.prems show ?case by auto
qed

end

interpretation bits: byte_sink appendBuffer ab_bytes ab_wf
  by unfold_locales (meson appendBuffer_spec)

section \<open>Properties\<close>

text \<open>
  Appending to a well-formed buffer returns and the contents are the old contents
  followed by the new bytes, provided the bytes are not the empty first append and the total
  stays below \<open>2\<^sup>6\<^sup>2\<close>.
\<close>

theorem appendBuffer_appends:
  assumes "ab_wf ab" "bytes \<noteq> [] \<or> ab_buf ab \<noteq> None"
    and "length (ab_bytes ab) + length bytes < 2 ^ 62"
  shows "\<exists>ab'. appendBuffer ab bytes = Some ab' \<and> ab_wf ab' \<and> ab_bytes ab' = ab_bytes ab @ bytes"
  using appendBuffer_spec[OF assms] by blast

theorem appendBuffer_appends_witness:
  "\<exists>ab'. appendBuffer empty_AppendableBuffer [0, 0, 1] = Some ab' \<and> ab_wf ab' \<and>
     ab_bytes ab' = [0, 0, 1]"
  using appendBuffer_appends[of empty_AppendableBuffer "[0, 0, 1]"] by simp

text \<open>
  When the first append is empty, the buffer is left with a block of capacity 0, and
  the next append of at least one byte never returns: the growth loop adds half of 0.
\<close>

theorem appendBuffer_after_empty_append_diverges:
  assumes "bytes \<noteq> []" "length bytes < 2 ^ 62"
  shows "\<exists>ab. appendBuffer empty_AppendableBuffer [] = Some ab \<and> appendBuffer ab bytes = None"
proof -
  let ?ab = "\<lparr>ab_buf = Some [], ab_size = 0, ab_allocated = 0\<rparr>"
  have e: "appendBuffer empty_AppendableBuffer [] = Some ?ab"
    by (simp add: appendBuffer_def reserve_def empty_AppendableBuffer_def write_block_def)
  have "(0 :: u64) < of_nat (length bytes)"
    using assms by (simp add: word_less_nat_alt unat_of_nat take_bit_nat_eq_self)
  then have "appendBuffer ?ab bytes = None"
    by (simp add: appendBuffer_def reserve_def grow_by_half_stuck)
  with e show ?thesis by blast
qed

theorem appendBuffer_after_empty_append_diverges_witness:
  "\<exists>ab. appendBuffer empty_AppendableBuffer [] = Some ab \<and> appendBuffer ab [1, 2] = None"
  using appendBuffer_after_empty_append_diverges[of "[1, 2]"] by simp

end
