(* ===== verification/CodecCtx.thy ===== *)
theory CodecCtx
  imports AppendBuffer
begin

text \<open>
  The part of a decode context that the codec handlers work on, and the collection of slice
  data: the fields \<^verbatim>\<open>codecData\<close> to \<^verbatim>\<open>sliceOffsets\<close> of \<^verbatim>\<open>NVContext\<close>
  (\<^verbatim>\<open>src/src/vabackend.h\<close>), the codec-independent fields of \<^verbatim>\<open>CUVIDPICPARAMS\<close>
  that the handlers set, and the slice-parameter and slice-data handlers of the H.264, HEVC,
  MPEG-2, MPEG-4, VC-1, VP8 and AV1 codecs.

  A parameter buffer is the list of structs its pointer designates; slice data is a block of
  bytes.  Reading outside either is stuck.
\<close>

record ('c, 's) CodecState =
  codecData :: "'c option"
  lastSliceParams :: "'s list option"
  lastSliceParamsCount :: u32
  bitstreamBuffer :: AppendableBuffer
  sliceOffsets :: AppendableBuffer
  firstKeyframeValid :: bool

record CUVIDPICPARAMS =
  PicWidthInMbs :: int
  FrameHeightInMbs :: int
  CurrPicIdx :: int
  field_pic_flag :: int
  bottom_field_flag :: int
  second_field :: int
  nBitstreamDataLen :: u32
  nNumSlices :: u32
  ref_pic_flag :: int
  intra_pic_flag :: int

text \<open>The fields of the VA slice parameter structs that every slice-data handler reads.\<close>

record slice_param =
  slice_data_size :: u32
  slice_data_offset :: u32

section \<open>Reading blocks\<close>

definition read_bytes :: "'b list \<Rightarrow> nat \<Rightarrow> nat \<Rightarrow> 'b list option" where
  "read_bytes blk off n = do {
     guard (off + n \<le> length blk);
     Some (take n (drop off blk))
   }"

lemma length_read_bytes: "read_bytes blk off n = Some bs \<Longrightarrow> length bs = n"
  by (auto simp: read_bytes_def split: if_splits)

definition nth_c :: "'b list \<Rightarrow> nat \<Rightarrow> 'b option" where
  "nth_c xs i = (if i < length xs then Some (xs ! i) else None)"

lemma nth_c_Some [simp]: "i < length xs \<Longrightarrow> nth_c xs i = Some (xs ! i)"
  by (simp add: nth_c_def)

text \<open>The object representation of a \<^verbatim>\<open>uint32_t\<close> on the little-endian targets of the driver.\<close>

definition le32 :: "u32 \<Rightarrow> u8 list" where
  "le32 w = map (\<lambda>i. ucast (drop_bit (8 * i) w)) [0, 1, 2, 3]"

lemma length_le32 [simp]: "length (le32 w) = 4"
  by (simp add: le32_def)

lemma le32_nonempty [simp]: "le32 w \<noteq> []"
  by (simp add: le32_def)

section \<open>Slice parameters\<close>

definition setSliceParams :: "('c, 's, 'z) CodecState_scheme \<Rightarrow> 's list \<Rightarrow> u32 \<Rightarrow> ('c, 's, 'z) CodecState_scheme" where
  "setSliceParams ctx ptr elements = ctx\<lparr>lastSliceParams := Some ptr, lastSliceParamsCount := elements\<rparr>"

definition copySliceParam ::
  "('c, 's, 'z) CodecState_scheme \<Rightarrow> 's list \<Rightarrow> u32 \<Rightarrow> 'y CUVIDPICPARAMS_scheme \<Rightarrow>
   ('c, 's, 'z) CodecState_scheme \<times> 'y CUVIDPICPARAMS_scheme" where
  "copySliceParam ctx ptr elements picParams =
     (setSliceParams ctx ptr elements,
      picParams\<lparr>nNumSlices := nNumSlices picParams + elements\<rparr>)"

section \<open>Slice data\<close>

text \<open>
  One iteration of the slice-data loops: the offset of the slice, then the start code
  \<open>header\<close> (empty for most codecs), then the slice itself.
\<close>

definition append_if_any :: "AppendableBuffer \<Rightarrow> u8 list \<Rightarrow> AppendableBuffer option" where
  "append_if_any ab header = (if header = [] then Some ab else appendBuffer ab header)"

definition copySlice ::
  "u8 list \<Rightarrow> ('c, 's, 'z) CodecState_scheme \<Rightarrow> u8 list \<Rightarrow> slice_param \<Rightarrow> 'y CUVIDPICPARAMS_scheme \<Rightarrow>
   (('c, 's, 'z) CodecState_scheme \<times> 'y CUVIDPICPARAMS_scheme) option" where
  "copySlice header ctx data sp picParams = do {
     offs \<leftarrow> appendBuffer (sliceOffsets ctx) (le32 (ucast (ab_size (bitstreamBuffer ctx))));
     bits \<leftarrow> append_if_any (bitstreamBuffer ctx) header;
     slice \<leftarrow> read_bytes data (unat (slice_data_offset sp)) (unat (slice_data_size sp));
     bits \<leftarrow> appendBuffer bits slice;
     Some (ctx\<lparr>sliceOffsets := offs, bitstreamBuffer := bits\<rparr>,
           picParams\<lparr>nBitstreamDataLen :=
             nBitstreamDataLen picParams + slice_data_size sp + of_nat (length header)\<rparr>)
   }"

text \<open>
  The loop runs \<open>lastSliceParamsCount\<close> times over the remembered array; running past
  its end is stuck.
\<close>

fun copySlices ::
  "u8 list \<Rightarrow> nat \<Rightarrow> slice_param list \<Rightarrow> ('c, 's, 'z) CodecState_scheme \<Rightarrow> u8 list \<Rightarrow> 'y CUVIDPICPARAMS_scheme \<Rightarrow>
   (('c, 's, 'z) CodecState_scheme \<times> 'y CUVIDPICPARAMS_scheme) option" where
  "copySlices header 0 sps ctx data picParams = Some (ctx, picParams)"
| "copySlices header (Suc n) [] ctx data picParams = None"
| "copySlices header (Suc n) (sp # sps) ctx data picParams = do {
     (ctx, picParams) \<leftarrow> copySlice header ctx data sp picParams;
     copySlices header n sps ctx data picParams
   }"

definition copySliceData ::
  "u8 list \<Rightarrow> ('c, slice_param, 'z) CodecState_scheme \<Rightarrow> u8 list \<Rightarrow> 'y CUVIDPICPARAMS_scheme \<Rightarrow>
   (('c, slice_param, 'z) CodecState_scheme \<times> 'y CUVIDPICPARAMS_scheme) option" where
  "copySliceData header ctx data picParams =
     copySlices header (unat (lastSliceParamsCount ctx))
       (case lastSliceParams ctx of None \<Rightarrow> [] | Some sps \<Rightarrow> sps) ctx data picParams"

definition copyH264SliceData ::
  "('c, slice_param, 'z) CodecState_scheme \<Rightarrow> u8 list \<Rightarrow> 'y CUVIDPICPARAMS_scheme \<Rightarrow>
   (('c, slice_param, 'z) CodecState_scheme \<times> 'y CUVIDPICPARAMS_scheme) option" where
  "copyH264SliceData = copySliceData [0, 0, 1]"

definition copyHEVCSliceData ::
  "('c, slice_param, 'z) CodecState_scheme \<Rightarrow> u8 list \<Rightarrow> 'y CUVIDPICPARAMS_scheme \<Rightarrow>
   (('c, slice_param, 'z) CodecState_scheme \<times> 'y CUVIDPICPARAMS_scheme) option" where
  "copyHEVCSliceData = copySliceData [0, 0, 1]"

definition copyMPEG2SliceData ::
  "('c, slice_param, 'z) CodecState_scheme \<Rightarrow> u8 list \<Rightarrow> 'y CUVIDPICPARAMS_scheme \<Rightarrow>
   (('c, slice_param, 'z) CodecState_scheme \<times> 'y CUVIDPICPARAMS_scheme) option" where
  "copyMPEG2SliceData = copySliceData []"

definition copyMPEG4SliceData ::
  "('c, slice_param, 'z) CodecState_scheme \<Rightarrow> u8 list \<Rightarrow> 'y CUVIDPICPARAMS_scheme \<Rightarrow>
   (('c, slice_param, 'z) CodecState_scheme \<times> 'y CUVIDPICPARAMS_scheme) option" where
  "copyMPEG4SliceData = copySliceData []"

definition copyVC1SliceData ::
  "('c, slice_param, 'z) CodecState_scheme \<Rightarrow> u8 list \<Rightarrow> 'y CUVIDPICPARAMS_scheme \<Rightarrow>
   (('c, slice_param, 'z) CodecState_scheme \<times> 'y CUVIDPICPARAMS_scheme) option" where
  "copyVC1SliceData = copySliceData []"

text \<open>
  AV1 writes a start and an end offset per slice; the running offset is advanced by the
  slice sizes and the total length is read off the buffer.
\<close>

fun copyAV1Slices ::
  "nat \<Rightarrow> slice_param list \<Rightarrow> u32 \<Rightarrow> ('c, 's, 'z) CodecState_scheme \<Rightarrow> u8 list \<Rightarrow>
   ('c, 's, 'z) CodecState_scheme option" where
  "copyAV1Slices 0 sps offset ctx data = Some ctx"
| "copyAV1Slices (Suc n) [] offset ctx data = None"
| "copyAV1Slices (Suc n) (sp # sps) offset ctx data = do {
     slice \<leftarrow> read_bytes data (unat (slice_data_offset sp)) (unat (slice_data_size sp));
     bits \<leftarrow> appendBuffer (bitstreamBuffer ctx) slice;
     offs \<leftarrow> appendBuffer (sliceOffsets ctx) (le32 offset);
     let offset = offset + slice_data_size sp;
     offs \<leftarrow> appendBuffer offs (le32 offset);
     copyAV1Slices n sps offset (ctx\<lparr>sliceOffsets := offs, bitstreamBuffer := bits\<rparr>) data
   }"

definition copyAV1SliceData ::
  "('c, slice_param, 'z) CodecState_scheme \<Rightarrow> u8 list \<Rightarrow> 'y CUVIDPICPARAMS_scheme \<Rightarrow>
   (('c, slice_param, 'z) CodecState_scheme \<times> 'y CUVIDPICPARAMS_scheme) option" where
  "copyAV1SliceData ctx data picParams = do {
     ctx \<leftarrow> copyAV1Slices (unat (lastSliceParamsCount ctx))
       (case lastSliceParams ctx of None \<Rightarrow> [] | Some sps \<Rightarrow> sps)
       (ucast (ab_size (bitstreamBuffer ctx))) ctx data;
     Some (ctx, picParams\<lparr>nBitstreamDataLen := ucast (ab_size (bitstreamBuffer ctx))\<rparr>)
   }"


section \<open>What the loops collect\<close>

text \<open>The bytes a slice contributes, and the positions at which the chunks of a list start.\<close>

definition slice_chunk :: "u8 list \<Rightarrow> u8 list \<Rightarrow> slice_param \<Rightarrow> u8 list" where
  "slice_chunk header data sp =
     header @ take (unat (slice_data_size sp)) (drop (unat (slice_data_offset sp)) data)"

fun starts :: "nat \<Rightarrow> 'b list list \<Rightarrow> nat list" where
  "starts n [] = []"
| "starts n (c # cs) = n # starts (n + length c) cs"

definition slice_in_range :: "u8 list \<Rightarrow> slice_param \<Rightarrow> bool" where
  "slice_in_range data sp \<longleftrightarrow>
     unat (slice_data_offset sp) + unat (slice_data_size sp) \<le> length data \<and> 0 < slice_data_size sp"

definition collector_wf :: "('c, 's, 'z) CodecState_scheme \<Rightarrow> bool" where
  "collector_wf ctx \<longleftrightarrow> ab_wf (bitstreamBuffer ctx) \<and> ab_wf (sliceOffsets ctx)"

definition encoded_offsets :: "nat list \<Rightarrow> u8 list" where
  "encoded_offsets ns = concat (map (\<lambda>n. le32 (of_nat n)) ns)"

lemma length_starts [simp]: "length (starts n cs) = length cs"
  by (induction cs arbitrary: n) auto

lemma length_encoded_offsets [simp]: "length (encoded_offsets ns) = 4 * length ns"
  by (induction ns) (simp_all add: encoded_offsets_def)

lemma encoded_offsets_Cons [simp]: "encoded_offsets (n # ns) = le32 (of_nat n) @ encoded_offsets ns"
  "encoded_offsets [] = []"
  by (simp_all add: encoded_offsets_def)

lemma slice_chunk_nonempty:
  assumes "slice_in_range data sp"
  shows "take (unat (slice_data_size sp)) (drop (unat (slice_data_offset sp)) data) \<noteq> []"
    "length (slice_chunk header data sp) = length header + unat (slice_data_size sp)"
    "read_bytes data (unat (slice_data_offset sp)) (unat (slice_data_size sp)) =
       Some (take (unat (slice_data_size sp)) (drop (unat (slice_data_offset sp)) data))"
  using assms by (auto simp: slice_in_range_def slice_chunk_def read_bytes_def word_less_nat_alt)

lemma append_if_any_spec:
  assumes "ab_wf ab" "length (ab_bytes ab) + length h < 2 ^ 62"
  shows "\<exists>ab'. append_if_any ab h = Some ab' \<and> ab_wf ab' \<and> ab_bytes ab' = ab_bytes ab @ h"
  using assms bits.append_law[of ab h] by (cases "h = []") (auto simp: append_if_any_def)

lemma copySlice_spec:
  assumes "collector_wf ctx" "slice_in_range data sp"
    and "length (ab_bytes (bitstreamBuffer ctx)) + length (slice_chunk header data sp) < 2 ^ 62"
    and "length (ab_bytes (sliceOffsets ctx)) + 4 < 2 ^ 62"
  shows "\<exists>ctx' pp'. copySlice header ctx data sp pp = Some (ctx', pp') \<and> collector_wf ctx' \<and>
     ab_bytes (bitstreamBuffer ctx') = ab_bytes (bitstreamBuffer ctx) @ slice_chunk header data sp \<and>
     ab_bytes (sliceOffsets ctx') = ab_bytes (sliceOffsets ctx) @
       le32 (of_nat (length (ab_bytes (bitstreamBuffer ctx)))) \<and>
     nBitstreamDataLen pp' = nBitstreamDataLen pp + of_nat (length (slice_chunk header data sp))"
proof -
  note sl = slice_chunk_nonempty[OF assms(2)]
  have off: "ucast (ab_size (bitstreamBuffer ctx)) = (of_nat (length (ab_bytes (bitstreamBuffer ctx))) :: u32)"
    using length_ab_bytes[of "bitstreamBuffer ctx"] assms(1) ucast_of_unat
    by (metis collector_wf_def)
  obtain offs where offs: "appendBuffer (sliceOffsets ctx) (le32 (ucast (ab_size (bitstreamBuffer ctx)))) = Some offs"
      "ab_wf offs" "ab_bytes offs = ab_bytes (sliceOffsets ctx) @ le32 (ucast (ab_size (bitstreamBuffer ctx)))"
    using bits.append_law[of "sliceOffsets ctx" "le32 (ucast (ab_size (bitstreamBuffer ctx)))"] assms(1,4) by (auto simp: collector_wf_def)
  obtain b1 where b1: "append_if_any (bitstreamBuffer ctx) header = Some b1" "ab_wf b1"
      "ab_bytes b1 = ab_bytes (bitstreamBuffer ctx) @ header"
    using append_if_any_spec[of "bitstreamBuffer ctx" header] assms(1,3) sl(2) by (auto simp: collector_wf_def)
  obtain b2 where b2: "appendBuffer b1 (take (unat (slice_data_size sp)) (drop (unat (slice_data_offset sp)) data)) = Some b2"
      "ab_wf b2" "ab_bytes b2 = ab_bytes b1 @ take (unat (slice_data_size sp)) (drop (unat (slice_data_offset sp)) data)"
    using bits.append_law[OF b1(2) sl(1)] b1(3) assms(3) by (auto simp: slice_chunk_def)
  show ?thesis
    using offs b1 b2 sl off by (simp add: copySlice_def collector_wf_def) (simp add: slice_chunk_def)
qed

lemma copySlices_spec:
  assumes "collector_wf ctx" "list_all (slice_in_range data) sps" "n = length sps"
    and "length (ab_bytes (bitstreamBuffer ctx)) + length (concat (map (slice_chunk header data) sps)) < 2 ^ 62"
    and "length (ab_bytes (sliceOffsets ctx)) + 4 * length sps < 2 ^ 62"
  shows "\<exists>ctx' pp'. copySlices header n sps ctx data pp = Some (ctx', pp') \<and> collector_wf ctx' \<and>
     ab_bytes (bitstreamBuffer ctx') = ab_bytes (bitstreamBuffer ctx) @ concat (map (slice_chunk header data) sps) \<and>
     ab_bytes (sliceOffsets ctx') = ab_bytes (sliceOffsets ctx) @
       encoded_offsets (starts (length (ab_bytes (bitstreamBuffer ctx))) (map (slice_chunk header data) sps)) \<and>
     nBitstreamDataLen pp' = nBitstreamDataLen pp + of_nat (length (concat (map (slice_chunk header data) sps)))"
  using assms
proof (induction sps arbitrary: ctx pp n)
  case (Cons sp sps)
  obtain ctx1 pp1 where c1: "copySlice header ctx data sp pp = Some (ctx1, pp1)" "collector_wf ctx1"
     "ab_bytes (bitstreamBuffer ctx1) = ab_bytes (bitstreamBuffer ctx) @ slice_chunk header data sp"
     "ab_bytes (sliceOffsets ctx1) = ab_bytes (sliceOffsets ctx) @
       le32 (of_nat (length (ab_bytes (bitstreamBuffer ctx))))"
     "nBitstreamDataLen pp1 = nBitstreamDataLen pp + of_nat (length (slice_chunk header data sp))"
    using copySlice_spec[of ctx data sp header pp] Cons.prems by auto
  obtain ctx' pp' where "copySlices header (length sps) sps ctx1 data pp1 = Some (ctx', pp')" "collector_wf ctx'"
     "ab_bytes (bitstreamBuffer ctx') = ab_bytes (bitstreamBuffer ctx1) @ concat (map (slice_chunk header data) sps)"
     "ab_bytes (sliceOffsets ctx') = ab_bytes (sliceOffsets ctx1) @
       encoded_offsets (starts (length (ab_bytes (bitstreamBuffer ctx1))) (map (slice_chunk header data) sps))"
     "nBitstreamDataLen pp' = nBitstreamDataLen pp1 + of_nat (length (concat (map (slice_chunk header data) sps)))"
    using Cons.IH[of ctx1 "length sps" pp1] Cons.prems c1 by auto
  then show ?case
    using c1 Cons.prems(3) by simp
qed simp

section \<open>Properties\<close>

text \<open>
  C29: handling a slice-data buffer returns when every remembered slice lies inside it, and
  it extends the bitstream by each slice behind its start code, records for each slice the
  32-bit position at which its start code begins, and adds the number of bytes to the
  length handed to the decoder.
\<close>

theorem copySliceData_collects:
  assumes "collector_wf ctx" "lastSliceParams ctx = Some sps"
    and "unat (lastSliceParamsCount ctx) = length sps" "list_all (slice_in_range data) sps"
    and "length (ab_bytes (bitstreamBuffer ctx)) + length (concat (map (slice_chunk header data) sps)) < 2 ^ 62"
    and "length (ab_bytes (sliceOffsets ctx)) + 4 * length sps < 2 ^ 62"
  shows "\<exists>ctx' pp'. copySliceData header ctx data pp = Some (ctx', pp') \<and> collector_wf ctx' \<and>
     ab_bytes (bitstreamBuffer ctx') = ab_bytes (bitstreamBuffer ctx) @ concat (map (slice_chunk header data) sps) \<and>
     ab_bytes (sliceOffsets ctx') = ab_bytes (sliceOffsets ctx) @
       encoded_offsets (starts (length (ab_bytes (bitstreamBuffer ctx))) (map (slice_chunk header data) sps)) \<and>
     nBitstreamDataLen pp' = nBitstreamDataLen pp + of_nat (length (concat (map (slice_chunk header data) sps)))"
  using copySlices_spec[OF assms(1,4,3,5,6)] assms(2) by (simp add: copySliceData_def)

definition example_codec :: "(unit, slice_param) CodecState" where
  "example_codec = \<lparr>codecData = None,
     lastSliceParams = Some [\<lparr>slice_data_size = 2, slice_data_offset = 1\<rparr>, \<lparr>slice_data_size = 1, slice_data_offset = 0\<rparr>],
     lastSliceParamsCount = 2, bitstreamBuffer = empty_AppendableBuffer, sliceOffsets = empty_AppendableBuffer,
     firstKeyframeValid = False\<rparr>"

definition zero_pic :: CUVIDPICPARAMS where
  "zero_pic = \<lparr>PicWidthInMbs = 0, FrameHeightInMbs = 0, CurrPicIdx = 0, field_pic_flag = 0, bottom_field_flag = 0,
     second_field = 0, nBitstreamDataLen = 0, nNumSlices = 0, ref_pic_flag = 0, intra_pic_flag = 0\<rparr>"

theorem copySliceData_collects_witness:
  "\<exists>ctx' pp'. copySliceData [0, 0, 1] example_codec [7, 8, 9] zero_pic = Some (ctx', pp') \<and>
     ab_bytes (bitstreamBuffer ctx') = [0, 0, 1, 8, 9, 0, 0, 1, 7] \<and> nBitstreamDataLen pp' = 9"
proof -
  let ?sps = "[\<lparr>slice_data_size = 2, slice_data_offset = 1\<rparr>, \<lparr>slice_data_size = 1, slice_data_offset = 0\<rparr>] :: slice_param list"
  have h: "collector_wf example_codec" "lastSliceParams example_codec = Some ?sps"
    "unat (lastSliceParamsCount example_codec) = length ?sps"
    "list_all (slice_in_range [7, 8, 9]) ?sps"
    "ab_bytes (bitstreamBuffer example_codec) = []" "ab_bytes (sliceOffsets example_codec) = []"
    by (simp_all add: collector_wf_def example_codec_def slice_in_range_def)
  have c: "map (slice_chunk [0, 0, 1] [7, 8, 9]) ?sps = [[0, 0, 1, 8, 9], [0, 0, 1, 7]]"
    by (simp add: slice_chunk_def)
  have z: "nBitstreamDataLen zero_pic = 0" by (simp add: zero_pic_def)
  show ?thesis
    using copySliceData_collects[OF h(1-4), of "[0, 0, 1]" zero_pic, unfolded h(5,6) c z]
    by auto
qed

end
