(* ===== verification/Jpeg.thy ===== *)
theory Jpeg
  imports CodecCtx
begin

text \<open>
  The JPEG decoder front end (\<^verbatim>\<open>src/src/jpeg.c\<close>).  VA-API hands over picture
  parameters, quantisation tables, Huffman tables and entropy-coded slices in separate
  buffers; \<open>reconstructJPEG\<close> builds one complete JPEG stream from them in a block whose
  size it computes beforehand, writing through a bare pointer.  The block is a cursor with a
  capacity: a write past the capacity is stuck, so "the result is \<open>Some\<close>" means that the
  precomputed size was enough.
\<close>

section \<open>Data\<close>

definition JPEG_SOI :: u8 where "JPEG_SOI = 0xD8"
definition JPEG_EOI :: u8 where "JPEG_EOI = 0xD9"
definition JPEG_APP0 :: u8 where "JPEG_APP0 = 0xE0"
definition JPEG_DQT :: u8 where "JPEG_DQT = 0xDB"
definition JPEG_SOF0 :: u8 where "JPEG_SOF0 = 0xC0"
definition JPEG_DHT :: u8 where "JPEG_DHT = 0xC4"
definition JPEG_DRI :: u8 where "JPEG_DRI = 0xDD"
definition JPEG_SOS :: u8 where "JPEG_SOS = 0xDA"
definition JPEG_MARKER :: u8 where "JPEG_MARKER = 0xFF"

lemmas jpeg_markers = JPEG_SOI_def JPEG_EOI_def JPEG_APP0_def JPEG_DQT_def JPEG_SOF0_def
  JPEG_DHT_def JPEG_DRI_def JPEG_SOS_def JPEG_MARKER_def

definition JPEG_MAX_COMPONENTS :: u8 where "JPEG_MAX_COMPONENTS = 4"

record frame_component =
  component_id :: u8
  h_sampling_factor :: u8
  v_sampling_factor :: u8
  quantiser_table_selector :: u8

record VAPictureParameterBufferJPEGBaseline =
  picture_width :: u16
  picture_height :: u16
  frame_components :: "frame_component list"
  num_frame_components :: u8

record VAIQMatrixBufferJPEGBaseline =
  load_quantiser_table :: "u8 list"
  quantiser_table :: "u8 list list"

record huffman_table =
  num_dc_codes :: "u8 list"
  dc_values :: "u8 list"
  num_ac_codes :: "u8 list"
  ac_values :: "u8 list"

record VAHuffmanTableBufferJPEGBaseline =
  load_huffman_table :: "u8 list"
  huffman_tables :: "huffman_table list"

record scan_component =
  component_selector :: u8
  dc_table_selector :: u8
  ac_table_selector :: u8

datatype slice_data_flag = VA_SLICE_DATA_FLAG_ALL | VA_SLICE_DATA_FLAG_BEGIN
  | VA_SLICE_DATA_FLAG_MIDDLE | VA_SLICE_DATA_FLAG_END | other_slice_data_flag u32

record VASliceParameterBufferJPEGBaseline = slice_param +
  slice_data_flag :: slice_data_flag
  scan_components :: "scan_component list"
  num_scan_components :: u8
  restart_interval :: u16

record JPEGContext =
  picParams :: VAPictureParameterBufferJPEGBaseline
  iqMatrix :: "u8 list list"
  huffmanTable :: "huffman_table list"
  hasPicParams :: bool
  hasIQMatrix :: bool
  hasHuffmanTable :: bool
  validQuantTablesMask :: u8
  validHuffmanDcMask :: u8
  validHuffmanAcMask :: u8

definition zero_picture :: VAPictureParameterBufferJPEGBaseline where
  "zero_picture = \<lparr>picture_width = 0, picture_height = 0,
     frame_components = replicate 255 \<lparr>component_id = 0, h_sampling_factor = 0, v_sampling_factor = 0,
       quantiser_table_selector = 0\<rparr>,
     num_frame_components = 0\<rparr>"

definition zero_huffman :: huffman_table where
  "zero_huffman = \<lparr>num_dc_codes = replicate 16 0, dc_values = replicate 12 0,
     num_ac_codes = replicate 16 0, ac_values = replicate 162 0\<rparr>"

text \<open>The zeroed block of \<^verbatim>\<open>calloc(1, sizeof(JPEGContext))\<close>.\<close>

definition zero_JPEGContext :: JPEGContext where
  "zero_JPEGContext = \<lparr>picParams = zero_picture, iqMatrix = replicate 4 (replicate 64 0),
     huffmanTable = replicate 2 zero_huffman, hasPicParams = False, hasIQMatrix = False,
     hasHuffmanTable = False, validQuantTablesMask = 0, validHuffmanDcMask = 0, validHuffmanAcMask = 0\<rparr>"

definition jfifHeader :: "u8 list" where
  "jfifHeader = [JPEG_MARKER, JPEG_SOI, JPEG_MARKER, JPEG_APP0, 0x00, 0x10,
     0x4A, 0x46, 0x49, 0x46, 0x00, 0x01, 0x01, 0x00, 0x00, 0x01, 0x00, 0x01, 0x00, 0x00]"

definition dcLuminanceBits :: "u8 list" where
  "dcLuminanceBits = [0, 1, 5, 1, 1, 1, 1, 1, 1, 0, 0, 0, 0, 0, 0, 0]"

definition dcLuminanceVals :: "u8 list" where
  "dcLuminanceVals = [0, 1, 2, 3, 4, 5, 6, 7, 8, 9, 10, 11]"

definition dcChrominanceBits :: "u8 list" where
  "dcChrominanceBits = [0, 3, 1, 1, 1, 1, 1, 1, 1, 1, 1, 0, 0, 0, 0, 0]"

definition dcChrominanceVals :: "u8 list" where
  "dcChrominanceVals = [0, 1, 2, 3, 4, 5, 6, 7, 8, 9, 10, 11]"

definition acLuminanceBits :: "u8 list" where
  "acLuminanceBits = [0, 2, 1, 3, 3, 2, 4, 3, 5, 5, 4, 4, 0, 0, 1, 0x7d]"

definition acLuminanceVals :: "u8 list" where
  "acLuminanceVals = [0x01, 0x02, 0x03, 0x00, 0x04, 0x11, 0x05, 0x12, 0x21, 0x31, 0x41, 0x06, 0x13, 0x51, 0x61, 0x07,
     0x22, 0x71, 0x14, 0x32, 0x81, 0x91, 0xa1, 0x08, 0x23, 0x42, 0xb1, 0xc1, 0x15, 0x52, 0xd1, 0xf0,
     0x24, 0x33, 0x62, 0x72, 0x82, 0x09, 0x0a, 0x16, 0x17, 0x18, 0x19, 0x1a, 0x25, 0x26, 0x27, 0x28,
     0x29, 0x2a, 0x34, 0x35, 0x36, 0x37, 0x38, 0x39, 0x3a, 0x43, 0x44, 0x45, 0x46, 0x47, 0x48, 0x49,
     0x4a, 0x53, 0x54, 0x55, 0x56, 0x57, 0x58, 0x59, 0x5a, 0x63, 0x64, 0x65, 0x66, 0x67, 0x68, 0x69,
     0x6a, 0x73, 0x74, 0x75, 0x76, 0x77, 0x78, 0x79, 0x7a, 0x83, 0x84, 0x85, 0x86, 0x87, 0x88, 0x89,
     0x8a, 0x92, 0x93, 0x94, 0x95, 0x96, 0x97, 0x98, 0x99, 0x9a, 0xa2, 0xa3, 0xa4, 0xa5, 0xa6, 0xa7,
     0xa8, 0xa9, 0xaa, 0xb2, 0xb3, 0xb4, 0xb5, 0xb6, 0xb7, 0xb8, 0xb9, 0xba, 0xc2, 0xc3, 0xc4, 0xc5,
     0xc6, 0xc7, 0xc8, 0xc9, 0xca, 0xd2, 0xd3, 0xd4, 0xd5, 0xd6, 0xd7, 0xd8, 0xd9, 0xda, 0xe1, 0xe2,
     0xe3, 0xe4, 0xe5, 0xe6, 0xe7, 0xe8, 0xe9, 0xea, 0xf1, 0xf2, 0xf3, 0xf4, 0xf5, 0xf6, 0xf7, 0xf8,
     0xf9, 0xfa]"

definition acChrominanceBits :: "u8 list" where
  "acChrominanceBits = [0, 2, 1, 2, 4, 4, 3, 4, 7, 5, 4, 4, 0, 1, 2, 0x77]"

definition acChrominanceVals :: "u8 list" where
  "acChrominanceVals = [0x00, 0x01, 0x02, 0x03, 0x11, 0x04, 0x05, 0x21, 0x31, 0x06, 0x12, 0x41, 0x51, 0x07, 0x61, 0x71,
     0x13, 0x22, 0x32, 0x81, 0x08, 0x14, 0x42, 0x91, 0xa1, 0xb1, 0xc1, 0x09, 0x23, 0x33, 0x52, 0xf0,
     0x15, 0x62, 0x72, 0xd1, 0x0a, 0x16, 0x24, 0x34, 0xe1, 0x25, 0xf1, 0x17, 0x18, 0x19, 0x1a, 0x26,
     0x27, 0x28, 0x29, 0x2a, 0x35, 0x36, 0x37, 0x38, 0x39, 0x3a, 0x43, 0x44, 0x45, 0x46, 0x47, 0x48,
     0x49, 0x4a, 0x53, 0x54, 0x55, 0x56, 0x57, 0x58, 0x59, 0x5a, 0x63, 0x64, 0x65, 0x66, 0x67, 0x68,
     0x69, 0x6a, 0x73, 0x74, 0x75, 0x76, 0x77, 0x78, 0x79, 0x7a, 0x82, 0x83, 0x84, 0x85, 0x86, 0x87,
     0x88, 0x89, 0x8a, 0x92, 0x93, 0x94, 0x95, 0x96, 0x97, 0x98, 0x99, 0x9a, 0xa2, 0xa3, 0xa4, 0xa5,
     0xa6, 0xa7, 0xa8, 0xa9, 0xaa, 0xb2, 0xb3, 0xb4, 0xb5, 0xb6, 0xb7, 0xb8, 0xb9, 0xba, 0xc2, 0xc3,
     0xc4, 0xc5, 0xc6, 0xc7, 0xc8, 0xc9, 0xca, 0xd2, 0xd3, 0xd4, 0xd5, 0xd6, 0xd7, 0xd8, 0xd9, 0xda,
     0xe2, 0xe3, 0xe4, 0xe5, 0xe6, 0xe7, 0xe8, 0xe9, 0xea, 0xf2, 0xf3, 0xf4, 0xf5, 0xf6, 0xf7, 0xf8,
     0xf9, 0xfa]"

section \<open>Writing through a pointer\<close>

text \<open>\<open>cur_cap\<close> is the size of the block, \<open>cur_out\<close> the bytes between its start and \<^verbatim>\<open>ptr\<close>.\<close>

record cursor =
  cur_cap :: nat
  cur_out :: "u8 list"

definition put :: "u8 list \<Rightarrow> cursor \<Rightarrow> cursor option" where
  "put bs c = do {
     guard (length (cur_out c) + length bs \<le> cur_cap c);
     Some (c\<lparr>cur_out := cur_out c @ bs\<rparr>)
   }"

definition write16be :: "u16 \<Rightarrow> u8 list" where
  "write16be value = [ucast ((drop_bit 8 value) AND 0xFF), ucast (value AND 0xFF)]"

section \<open>Segment writers\<close>

fun componentInFrame_loop :: "nat \<Rightarrow> frame_component list \<Rightarrow> u8 \<Rightarrow> bool option" where
  "componentInFrame_loop 0 cs cid = Some False"
| "componentInFrame_loop (Suc n) [] cid = None"
| "componentInFrame_loop (Suc n) (c # cs) cid =
     (if component_id c = cid then Some True else componentInFrame_loop n cs cid)"

definition componentInFrame :: "VAPictureParameterBufferJPEGBaseline \<Rightarrow> u8 \<Rightarrow> bool option" where
  "componentInFrame pic cid =
     componentInFrame_loop (unat (num_frame_components pic)) (frame_components pic) cid"

definition table_bit :: "nat \<Rightarrow> u8" where
  "table_bit n = push_bit n 1"

text \<open>The inner \<open>None\<close> is the return value \<^verbatim>\<open>false\<close>.\<close>

fun usedQuantTables_loop :: "nat \<Rightarrow> frame_component list \<Rightarrow> u8 \<Rightarrow> u8 option option" where
  "usedQuantTables_loop 0 cs usedMask = Some (Some usedMask)"
| "usedQuantTables_loop (Suc n) [] usedMask = None"
| "usedQuantTables_loop (Suc n) (c # cs) usedMask =
     (if 4 \<le> quantiser_table_selector c then Some None
      else usedQuantTables_loop n cs (usedMask OR table_bit (unat (quantiser_table_selector c))))"

definition getUsedQuantTablesMask :: "VAPictureParameterBufferJPEGBaseline \<Rightarrow> u8 option option" where
  "getUsedQuantTablesMask pic = usedQuantTables_loop (unat (num_frame_components pic)) (frame_components pic) 0"

text \<open>The loop over the four tables, \<open>table\<close> counting up.\<close>

fun writeDQT_loop :: "nat \<Rightarrow> nat \<Rightarrow> u8 list list \<Rightarrow> u8 \<Rightarrow> cursor \<Rightarrow> cursor option option" where
  "writeDQT_loop 0 tab iq usedMask c = Some (Some c)"
| "writeDQT_loop (Suc n) tab iq usedMask c =
     (if usedMask AND table_bit tab = 0 then writeDQT_loop n (Suc tab) iq usedMask c
      else do {
        q \<leftarrow> nth_c iq tab;
        q \<leftarrow> read_bytes q 0 64;
        if (sum_list (map ucast q) :: u32) = 0 then Some None
        else do {
          c \<leftarrow> put [JPEG_MARKER, JPEG_DQT] c;
          c \<leftarrow> put (write16be 67) c;
          c \<leftarrow> put [of_nat tab] c;
          c \<leftarrow> put q c;
          writeDQT_loop n (Suc tab) iq usedMask c
        }
      })"

definition writeDQT ::
  "cursor \<Rightarrow> u8 list list \<Rightarrow> VAPictureParameterBufferJPEGBaseline \<Rightarrow> u8 \<Rightarrow> cursor option option" where
  "writeDQT c iq pic validMask = do {
     used \<leftarrow> getUsedQuantTablesMask pic;
     case used of
       None \<Rightarrow> Some None
     | Some usedMask \<Rightarrow>
         if validMask AND usedMask \<noteq> usedMask then Some None
         else writeDQT_loop 4 0 iq usedMask c
   }"

definition writeDRI :: "cursor \<Rightarrow> u16 \<Rightarrow> cursor option" where
  "writeDRI c restartInterval = do {
     c \<leftarrow> put [JPEG_MARKER, JPEG_DRI] c;
     c \<leftarrow> put (write16be 4) c;
     put (write16be restartInterval) c
   }"

fun writeSOF0_loop :: "nat \<Rightarrow> frame_component list \<Rightarrow> cursor \<Rightarrow> cursor option" where
  "writeSOF0_loop 0 cs c = Some c"
| "writeSOF0_loop (Suc n) [] c = None"
| "writeSOF0_loop (Suc n) (k # cs) c = do {
     c \<leftarrow> put [component_id k] c;
     c \<leftarrow> put [push_bit 4 (h_sampling_factor k) OR v_sampling_factor k] c;
     c \<leftarrow> put [quantiser_table_selector k] c;
     writeSOF0_loop n cs c
   }"

definition writeSOF0 :: "cursor \<Rightarrow> VAPictureParameterBufferJPEGBaseline \<Rightarrow> cursor option" where
  "writeSOF0 c pic = do {
     c \<leftarrow> put [JPEG_MARKER, JPEG_SOF0] c;
     c \<leftarrow> put (write16be (2 + 1 + 2 + 2 + 1 + ucast (num_frame_components pic) * 3)) c;
     c \<leftarrow> put [8] c;
     c \<leftarrow> put (write16be (picture_height pic)) c;
     c \<leftarrow> put (write16be (picture_width pic)) c;
     c \<leftarrow> put [num_frame_components pic] c;
     writeSOF0_loop (unat (num_frame_components pic)) (frame_components pic) c
   }"

definition writeDHT :: "cursor \<Rightarrow> u8 list \<Rightarrow> u8 list \<Rightarrow> u8 \<Rightarrow> u8 \<Rightarrow> u32 \<Rightarrow> cursor option" where
  "writeDHT c bits vals tableClass tableId numVals = do {
     c \<leftarrow> put [JPEG_MARKER, JPEG_DHT] c;
     c \<leftarrow> put (write16be (ucast (2 + 1 + 16 + numVals))) c;
     c \<leftarrow> put [push_bit 4 tableClass OR tableId] c;
     bits \<leftarrow> read_bytes bits 0 16;
     c \<leftarrow> put bits c;
     vals \<leftarrow> read_bytes vals 0 (unat numVals);
     put vals c
   }"

definition writeStandardHuffmanTables :: "cursor \<Rightarrow> cursor option" where
  "writeStandardHuffmanTables c = do {
     c \<leftarrow> writeDHT c dcLuminanceBits dcLuminanceVals 0 0 12;
     c \<leftarrow> writeDHT c dcChrominanceBits dcChrominanceVals 0 1 12;
     c \<leftarrow> writeDHT c acLuminanceBits acLuminanceVals 1 0 162;
     writeDHT c acChrominanceBits acChrominanceVals 1 1 162
   }"

text \<open>The running sum cannot wrap: it stays at most \<open>maxVals\<close> plus one byte.\<close>

fun countHuffValues_loop :: "nat \<Rightarrow> u8 list \<Rightarrow> u32 \<Rightarrow> u32 \<Rightarrow> u32 option option" where
  "countHuffValues_loop 0 codes maxVals acc = Some (Some acc)"
| "countHuffValues_loop (Suc n) [] maxVals acc = None"
| "countHuffValues_loop (Suc n) (x # codes) maxVals acc =
     (let acc = acc + ucast x in
      if maxVals < acc then Some None else countHuffValues_loop n codes maxVals acc)"

definition countHuffValues :: "u8 list \<Rightarrow> u32 \<Rightarrow> u32 option option" where
  "countHuffValues codes maxVals = countHuffValues_loop 16 codes maxVals 0"

text \<open>One table of one class: skipped when not required, refused when not valid or empty.\<close>

definition writeVAHuffmanTable ::
  "u8 \<Rightarrow> u8 \<Rightarrow> u8 list \<Rightarrow> u8 list \<Rightarrow> u32 \<Rightarrow> u8 \<Rightarrow> nat \<Rightarrow> cursor \<Rightarrow> cursor option option" where
  "writeVAHuffmanTable required valid codes vals maxVals tableClass tableIdx c =
     (if required AND table_bit tableIdx = 0 then Some (Some c)
      else if valid AND table_bit tableIdx = 0 then Some None
      else do {
        count \<leftarrow> countHuffValues codes maxVals;
        case count of
          None \<Rightarrow> Some None
        | Some n \<Rightarrow>
            if n = 0 then Some None
            else do {
              c \<leftarrow> writeDHT c codes vals tableClass (of_nat tableIdx) n;
              Some (Some c)
            }
      })"

fun writeVAHuffmanTables_loop ::
  "nat \<Rightarrow> nat \<Rightarrow> huffman_table list \<Rightarrow> u8 \<Rightarrow> u8 \<Rightarrow> u8 \<Rightarrow> u8 \<Rightarrow> cursor \<Rightarrow> cursor option option" where
  "writeVAHuffmanTables_loop 0 tableIdx huffman reqDc reqAc validDc validAc c = Some (Some c)"
| "writeVAHuffmanTables_loop (Suc n) tableIdx huffman reqDc reqAc validDc validAc c = do {
     h \<leftarrow> nth_c huffman tableIdx;
     r \<leftarrow> writeVAHuffmanTable reqDc validDc (num_dc_codes h) (dc_values h) 12 0 tableIdx c;
     case r of
       None \<Rightarrow> Some None
     | Some c \<Rightarrow> do {
         r \<leftarrow> writeVAHuffmanTable reqAc validAc (num_ac_codes h) (ac_values h) 162 1 tableIdx c;
         case r of
           None \<Rightarrow> Some None
         | Some c \<Rightarrow> writeVAHuffmanTables_loop n (Suc tableIdx) huffman reqDc reqAc validDc validAc c
       }
   }"

definition writeVAHuffmanTables ::
  "cursor \<Rightarrow> huffman_table list \<Rightarrow> u8 \<Rightarrow> u8 \<Rightarrow> u8 \<Rightarrow> u8 \<Rightarrow> cursor option option" where
  "writeVAHuffmanTables c huffman requiredDcMask requiredAcMask validDcMask validAcMask =
     writeVAHuffmanTables_loop 2 0 huffman requiredDcMask requiredAcMask validDcMask validAcMask c"

fun validateSlice_loop ::
  "nat \<Rightarrow> scan_component list \<Rightarrow> VAPictureParameterBufferJPEGBaseline \<Rightarrow> u8 \<Rightarrow> u8 \<Rightarrow> (u8 \<times> u8) option option" where
  "validateSlice_loop 0 cs pic dc ac = Some (Some (dc, ac))"
| "validateSlice_loop (Suc n) [] pic dc ac = None"
| "validateSlice_loop (Suc n) (k # cs) pic dc ac = do {
     known \<leftarrow> componentInFrame pic (component_selector k);
     if \<not> known then Some None
     else if 1 < dc_table_selector k \<or> 1 < ac_table_selector k then Some None
     else validateSlice_loop n cs pic
            (dc OR table_bit (unat (dc_table_selector k))) (ac OR table_bit (unat (ac_table_selector k)))
   }"

definition validateSliceAndCollectHuffmanUsage ::
  "VAPictureParameterBufferJPEGBaseline \<Rightarrow> VASliceParameterBufferJPEGBaseline \<Rightarrow> u8 \<Rightarrow> u8 \<Rightarrow>
   (u8 \<times> u8) option option" where
  "validateSliceAndCollectHuffmanUsage pic sl requiredDcMask requiredAcMask =
     (if num_scan_components sl = 0 \<or> JPEG_MAX_COMPONENTS < num_scan_components sl then Some None
      else validateSlice_loop (unat (num_scan_components sl)) (scan_components sl) pic
             requiredDcMask requiredAcMask)"

fun writeSOS_loop :: "nat \<Rightarrow> scan_component list \<Rightarrow> cursor \<Rightarrow> cursor option" where
  "writeSOS_loop 0 cs c = Some c"
| "writeSOS_loop (Suc n) [] c = None"
| "writeSOS_loop (Suc n) (k # cs) c = do {
     c \<leftarrow> put [component_selector k] c;
     c \<leftarrow> put [push_bit 4 (dc_table_selector k) OR ac_table_selector k] c;
     writeSOS_loop n cs c
   }"

definition writeSOS :: "cursor \<Rightarrow> VASliceParameterBufferJPEGBaseline \<Rightarrow> cursor option" where
  "writeSOS c sl = do {
     c \<leftarrow> put [JPEG_MARKER, JPEG_SOS] c;
     c \<leftarrow> put (write16be (2 + 1 + ucast (num_scan_components sl) * 2 + 3)) c;
     c \<leftarrow> put [num_scan_components sl] c;
     c \<leftarrow> writeSOS_loop (unat (num_scan_components sl)) (scan_components sl) c;
     put [0, 63, 0] c
   }"

section \<open>Reconstruction of the frame\<close>

text \<open>The validation loop; it returns the total slice size and the masks of required Huffman tables.\<close>

fun checkSlices ::
  "nat \<Rightarrow> VASliceParameterBufferJPEGBaseline list \<Rightarrow> VAPictureParameterBufferJPEGBaseline \<Rightarrow> u32 \<Rightarrow>
   u64 \<Rightarrow> u8 \<Rightarrow> u8 \<Rightarrow> (u64 \<times> u8 \<times> u8) option option" where
  "checkSlices 0 sls pic sliceDataSize ecsSize dc ac = Some (Some (ecsSize, dc, ac))"
| "checkSlices (Suc n) [] pic sliceDataSize ecsSize dc ac = None"
| "checkSlices (Suc n) (sl # sls) pic sliceDataSize ecsSize dc ac =
     (if slice_data_flag sl \<noteq> VA_SLICE_DATA_FLAG_ALL then Some None
      else do {
        r \<leftarrow> validateSliceAndCollectHuffmanUsage pic sl dc ac;
        case r of
          None \<Rightarrow> Some None
        | Some (dc, ac) \<Rightarrow>
            if sliceDataSize < slice_data_offset sl then Some None
            else if sliceDataSize - slice_data_offset sl < slice_data_size sl then Some None
            else if - 1 - ecsSize < ucast (slice_data_size sl) then Some None
            else checkSlices n sls pic sliceDataSize (ecsSize + ucast (slice_data_size sl)) dc ac
      })"

fun sameComponents :: "nat \<Rightarrow> scan_component list \<Rightarrow> scan_component list \<Rightarrow> bool option" where
  "sameComponents 0 cs ds = Some True"
| "sameComponents (Suc n) (c # cs) (d # ds) =
     (if component_selector c \<noteq> component_selector d \<or> dc_table_selector c \<noteq> dc_table_selector d \<or>
         ac_table_selector c \<noteq> ac_table_selector d
      then Some False else sameComponents n cs ds)"
| "sameComponents (Suc n) cs ds = None"

text \<open>The comparison of the later slices with the first: same scan header, same restart interval.\<close>

fun compareSlices ::
  "nat \<Rightarrow> VASliceParameterBufferJPEGBaseline list \<Rightarrow> VASliceParameterBufferJPEGBaseline \<Rightarrow> bool \<Rightarrow> bool \<Rightarrow>
   (bool \<times> bool) option" where
  "compareSlices 0 sls slice0 sameSOS sameRI = Some (sameSOS, sameRI)"
| "compareSlices (Suc n) [] slice0 sameSOS sameRI = None"
| "compareSlices (Suc n) (sl # sls) slice0 sameSOS sameRI =
     (let sameRI = (if restart_interval sl \<noteq> restart_interval slice0 then False else sameRI) in
      if num_scan_components sl \<noteq> num_scan_components slice0
      then compareSlices n sls slice0 False sameRI
      else do {
        same \<leftarrow> sameComponents (unat (num_scan_components sl)) (scan_components sl) (scan_components slice0);
        compareSlices n sls slice0 (if same then sameSOS else False) sameRI
      })"

definition maxFrameSize :: "u8 \<Rightarrow> u32 \<Rightarrow> u64 \<Rightarrow> u64" where
  "maxFrameSize numComponents sliceCount totalEcsSize =
     (let dqtSize = 4 * (2 + 2 + 1 + 64);
          sof0Size = 2 + 2 + 1 + 2 + 2 + 1 + ucast numComponents * 3;
          dhtSize = 2 * ((2 + 2 + 1 + 16 + 12) + (2 + 2 + 1 + 16 + 162));
          driSize = ucast sliceCount * (2 + 2 + 2);
          sosSize = ucast sliceCount * (2 + 2 + 1 + 4 * 2 + 3)
      in of_nat (length jfifHeader) + dqtSize + sof0Size + dhtSize + driSize + sosSize + totalEcsSize + 2)"

definition writeHuffman :: "JPEGContext \<Rightarrow> u8 \<Rightarrow> u8 \<Rightarrow> cursor \<Rightarrow> cursor option" where
  "writeHuffman jpegCtx requiredDcMask requiredAcMask c =
     (if hasHuffmanTable jpegCtx \<and>
         validHuffmanDcMask jpegCtx AND requiredDcMask = requiredDcMask \<and>
         validHuffmanAcMask jpegCtx AND requiredAcMask = requiredAcMask
      then do {
        tmp \<leftarrow> writeVAHuffmanTables c (huffmanTable jpegCtx) requiredDcMask requiredAcMask
                 (validHuffmanDcMask jpegCtx) (validHuffmanAcMask jpegCtx);
        case tmp of
          Some c \<Rightarrow> Some c
        | None \<Rightarrow> writeStandardHuffmanTables c
      }
      else writeStandardHuffmanTables c)"

definition copyEcs :: "u8 list \<Rightarrow> VASliceParameterBufferJPEGBaseline \<Rightarrow> cursor \<Rightarrow> cursor option" where
  "copyEcs sliceData sl c = do {
     ecs \<leftarrow> read_bytes sliceData (unat (slice_data_offset sl)) (unat (slice_data_size sl));
     put ecs c
   }"

fun writeEcs :: "nat \<Rightarrow> VASliceParameterBufferJPEGBaseline list \<Rightarrow> u8 list \<Rightarrow> cursor \<Rightarrow> cursor option" where
  "writeEcs 0 sls sliceData c = Some c"
| "writeEcs (Suc n) [] sliceData c = None"
| "writeEcs (Suc n) (sl # sls) sliceData c = do {
     c \<leftarrow> copyEcs sliceData sl c;
     writeEcs n sls sliceData c
   }"

fun writeScans :: "nat \<Rightarrow> VASliceParameterBufferJPEGBaseline list \<Rightarrow> bool \<Rightarrow> u8 list \<Rightarrow> cursor \<Rightarrow> cursor option" where
  "writeScans 0 sls allSameRestartInterval sliceData c = Some c"
| "writeScans (Suc n) [] allSameRestartInterval sliceData c = None"
| "writeScans (Suc n) (sl # sls) allSameRestartInterval sliceData c = do {
     c \<leftarrow> (if \<not> allSameRestartInterval \<and> restart_interval sl \<noteq> 0
           then writeDRI c (restart_interval sl) else Some c);
     c \<leftarrow> writeSOS c sl;
     c \<leftarrow> copyEcs sliceData sl c;
     writeScans n sls allSameRestartInterval sliceData c
   }"

definition ends_with_EOI :: "u8 list \<Rightarrow> bool" where
  "ends_with_EOI bs \<longleftrightarrow> 2 \<le> length bs \<and> bs ! (length bs - 2) = JPEG_MARKER \<and> bs ! (length bs - 1) = JPEG_EOI"

text \<open>Everything that is written after the block was allocated; \<open>None\<close> inside: the block is freed again.\<close>

definition writeFrame ::
  "JPEGContext \<Rightarrow> VASliceParameterBufferJPEGBaseline list \<Rightarrow> u32 \<Rightarrow> u8 list \<Rightarrow> u8 \<Rightarrow> u8 \<Rightarrow> bool \<Rightarrow> bool \<Rightarrow>
   VASliceParameterBufferJPEGBaseline \<Rightarrow> cursor \<Rightarrow> cursor option option" where
  "writeFrame jpegCtx slices sliceCount sliceData requiredDcMask requiredAcMask
     allSameSOSHeader allSameRestartInterval slice0 c = do {
     c \<leftarrow> put jfifHeader c;
     r \<leftarrow> writeDQT c (iqMatrix jpegCtx) (picParams jpegCtx) (validQuantTablesMask jpegCtx);
     case r of
       None \<Rightarrow> Some None
     | Some c \<Rightarrow> do {
         c \<leftarrow> writeSOF0 c (picParams jpegCtx);
         c \<leftarrow> writeHuffman jpegCtx requiredDcMask requiredAcMask c;
         c \<leftarrow> (if allSameRestartInterval \<and> restart_interval slice0 \<noteq> 0
               then writeDRI c (restart_interval slice0) else Some c);
         c \<leftarrow> (if allSameSOSHeader
               then do {
                 c \<leftarrow> writeSOS c slice0;
                 writeEcs (unat sliceCount) slices sliceData c
               }
               else writeScans (unat sliceCount) slices allSameRestartInterval sliceData c);
         c \<leftarrow> (if \<not> ends_with_EOI (cur_out c) then put [JPEG_MARKER, JPEG_EOI] c else Some c);
         Some (Some c)
       }
   }"

text \<open>
  \<open>malloc_ok\<close> tells for which sizes the allocator succeeds.  The inner \<open>None\<close> is
  the NULL the function returns; otherwise the result is the contents of the returned block
  up to \<^verbatim>\<open>*outSize\<close>.
\<close>

definition reconstructJPEG ::
  "(u64 \<Rightarrow> bool) \<Rightarrow> JPEGContext \<Rightarrow> VASliceParameterBufferJPEGBaseline list \<Rightarrow> u32 \<Rightarrow> u8 list \<Rightarrow> u32 \<Rightarrow>
   u8 list option option" where
  "reconstructJPEG malloc_ok jpegCtx slices sliceCount sliceData sliceDataSize =
     (let pic = picParams jpegCtx in
      if \<not> hasPicParams jpegCtx \<or> \<not> hasIQMatrix jpegCtx then Some None
      else if picture_width pic = 0 \<or> picture_height pic = 0 then Some None
      else if num_frame_components pic = 0 \<or> JPEG_MAX_COMPONENTS < num_frame_components pic then Some None
      else do {
        used \<leftarrow> getUsedQuantTablesMask pic;
        case used of
          None \<Rightarrow> Some None
        | Some usedQuantMask \<Rightarrow>
          if validQuantTablesMask jpegCtx AND usedQuantMask \<noteq> usedQuantMask then Some None
          else if sliceCount = 0 then Some None
          else do {
            checked \<leftarrow> checkSlices (unat sliceCount) slices pic sliceDataSize 0 0 0;
            case checked of
              None \<Rightarrow> Some None
            | Some (totalEcsSize, requiredDcMask, requiredAcMask) \<Rightarrow> do {
                slice0 \<leftarrow> nth_c slices 0;
                (allSameSOSHeader, allSameRestartInterval) \<leftarrow>
                  compareSlices (unat sliceCount - 1) (tl slices) slice0 True True;
                let maxSize64 = maxFrameSize (num_frame_components pic) sliceCount totalEcsSize;
                if - 1 < maxSize64 then Some None
                else if \<not> malloc_ok maxSize64 then Some None
                else do {
                  frame \<leftarrow> writeFrame jpegCtx slices sliceCount sliceData requiredDcMask requiredAcMask
                    allSameSOSHeader allSameRestartInterval slice0
                    \<lparr>cur_cap = unat maxSize64, cur_out = []\<rparr>;
                  Some (case frame of
                    None \<Rightarrow> None
                  | Some c \<Rightarrow> if 2 ^ 32 - 1 < length (cur_out c) then None else Some (cur_out c))
                }
              }
          }
      })"

section \<open>Handlers\<close>

definition getJPEGContext ::
  "bool \<Rightarrow> (JPEGContext, 's, 'z) CodecState_scheme \<Rightarrow> bool \<Rightarrow>
   JPEGContext option \<times> (JPEGContext, 's, 'z) CodecState_scheme" where
  "getJPEGContext calloc_ok ctx createIfMissing =
     (case codecData ctx of
        Some j \<Rightarrow> (Some j, ctx)
      | None \<Rightarrow>
          if \<not> createIfMissing then (None, ctx)
          else if \<not> calloc_ok then (None, ctx)
          else (Some zero_JPEGContext, ctx\<lparr>codecData := Some zero_JPEGContext\<rparr>))"

definition resetJPEGPictureState ::
  "(JPEGContext, 's, 'z) CodecState_scheme \<Rightarrow> (JPEGContext, 's, 'z) CodecState_scheme" where
  "resetJPEGPictureState ctx =
     (let (j, ctx) = getJPEGContext True ctx False;
          ctx = (case j of None \<Rightarrow> ctx
                 | Some j \<Rightarrow> ctx\<lparr>codecData := Some (j\<lparr>picParams := zero_picture, hasPicParams := False\<rparr>)\<rparr>)
      in ctx\<lparr>lastSliceParams := None, lastSliceParamsCount := 0\<rparr>)"

definition jpegBeginPicture ::
  "(JPEGContext, 's, 'z) CodecState_scheme \<Rightarrow> (JPEGContext, 's, 'z) CodecState_scheme" where
  "jpegBeginPicture ctx = resetJPEGPictureState ctx"

definition copyJPEGPicParam ::
  "bool \<Rightarrow> (JPEGContext, 's, 'z) CodecState_scheme \<Rightarrow> VAPictureParameterBufferJPEGBaseline \<Rightarrow>
   'y CUVIDPICPARAMS_scheme \<Rightarrow> (JPEGContext, 's, 'z) CodecState_scheme \<times> 'y CUVIDPICPARAMS_scheme" where
  "copyJPEGPicParam calloc_ok ctx buf pp =
     (let (j, ctx) = getJPEGContext calloc_ok ctx True;
          ctx = (case j of None \<Rightarrow> ctx
                 | Some j \<Rightarrow> ctx\<lparr>codecData := Some (j\<lparr>picParams := buf,
                     hasPicParams := picture_width buf \<noteq> 0 \<and> picture_height buf \<noteq> 0 \<and>
                       0 < num_frame_components buf \<and> num_frame_components buf \<le> JPEG_MAX_COMPONENTS\<rparr>)\<rparr>)
      in (ctx, pp\<lparr>PicWidthInMbs := uint ((ucast (picture_width buf) + 15 :: u32) div 16),
                  FrameHeightInMbs := uint ((ucast (picture_height buf) + 15 :: u32) div 16),
                  field_pic_flag := 0, bottom_field_flag := 0, second_field := 0,
                  intra_pic_flag := 1, ref_pic_flag := 0\<rparr>))"

fun loadQuantTables :: "nat \<Rightarrow> nat \<Rightarrow> VAIQMatrixBufferJPEGBaseline \<Rightarrow> JPEGContext \<Rightarrow> JPEGContext option" where
  "loadQuantTables 0 tab buf j = Some j"
| "loadQuantTables (Suc n) tab buf j = do {
     load \<leftarrow> nth_c (load_quantiser_table buf) tab;
     if load = 0 then loadQuantTables n (Suc tab) buf j
     else do {
       q \<leftarrow> nth_c (quantiser_table buf) tab;
       q \<leftarrow> read_bytes q 0 64;
       loadQuantTables n (Suc tab) buf
         (j\<lparr>iqMatrix := (iqMatrix j)[tab := q],
            validQuantTablesMask := validQuantTablesMask j OR table_bit tab\<rparr>)
     }
   }"

definition copyJPEGIQMatrix ::
  "bool \<Rightarrow> (JPEGContext, 's, 'z) CodecState_scheme \<Rightarrow> VAIQMatrixBufferJPEGBaseline \<Rightarrow>
   (JPEGContext, 's, 'z) CodecState_scheme option" where
  "copyJPEGIQMatrix calloc_ok ctx buf =
     (let (j, ctx) = getJPEGContext calloc_ok ctx True in
      case j of
        None \<Rightarrow> Some ctx
      | Some j \<Rightarrow> do {
          j \<leftarrow> loadQuantTables 4 0 buf j;
          Some (ctx\<lparr>codecData := Some (j\<lparr>hasIQMatrix := validQuantTablesMask j \<noteq> 0\<rparr>)\<rparr>)
        })"

fun loadHuffmanTables :: "nat \<Rightarrow> nat \<Rightarrow> VAHuffmanTableBufferJPEGBaseline \<Rightarrow> JPEGContext \<Rightarrow> JPEGContext option" where
  "loadHuffmanTables 0 tab buf j = Some j"
| "loadHuffmanTables (Suc n) tab buf j = do {
     load \<leftarrow> nth_c (load_huffman_table buf) tab;
     if load = 0 then loadHuffmanTables n (Suc tab) buf j
     else do {
       h \<leftarrow> nth_c (huffman_tables buf) tab;
       loadHuffmanTables n (Suc tab) buf
         (j\<lparr>huffmanTable := (huffmanTable j)[tab := h],
            validHuffmanDcMask := validHuffmanDcMask j OR table_bit tab,
            validHuffmanAcMask := validHuffmanAcMask j OR table_bit tab\<rparr>)
     }
   }"

definition copyJPEGHuffmanTable ::
  "bool \<Rightarrow> (JPEGContext, 's, 'z) CodecState_scheme \<Rightarrow> VAHuffmanTableBufferJPEGBaseline \<Rightarrow>
   (JPEGContext, 's, 'z) CodecState_scheme option" where
  "copyJPEGHuffmanTable calloc_ok ctx buf =
     (let (j, ctx) = getJPEGContext calloc_ok ctx True in
      case j of
        None \<Rightarrow> Some ctx
      | Some j \<Rightarrow> do {
          j \<leftarrow> loadHuffmanTables 2 0 buf j;
          Some (ctx\<lparr>codecData := Some (j\<lparr>hasHuffmanTable :=
            validHuffmanDcMask j OR validHuffmanAcMask j \<noteq> 0\<rparr>)\<rparr>)
        })"

definition copyJPEGSliceParam ::
  "(JPEGContext, 's, 'z) CodecState_scheme \<Rightarrow> 's list \<Rightarrow> u32 \<Rightarrow> (JPEGContext, 's, 'z) CodecState_scheme" where
  "copyJPEGSliceParam ctx ptr elements = setSliceParams ctx ptr elements"

text \<open>The slice data handler; \<open>size\<close> is \<^verbatim>\<open>buf->size\<close>, \<open>data\<close> the block.\<close>

definition copyJPEGSliceData ::
  "(u64 \<Rightarrow> bool) \<Rightarrow> (JPEGContext, VASliceParameterBufferJPEGBaseline, 'z) CodecState_scheme \<Rightarrow> u8 list \<Rightarrow> u64 \<Rightarrow>
   'y CUVIDPICPARAMS_scheme \<Rightarrow>
   ((JPEGContext, VASliceParameterBufferJPEGBaseline, 'z) CodecState_scheme \<times> 'y CUVIDPICPARAMS_scheme) option" where
  "copyJPEGSliceData malloc_ok ctx data sz pp =
     (case fst (getJPEGContext True ctx False) of
        None \<Rightarrow> Some (ctx, pp)
      | Some j \<Rightarrow>
        (case lastSliceParams ctx of
           None \<Rightarrow> Some (ctx, pp)
         | Some slices \<Rightarrow>
           if lastSliceParamsCount ctx = 0 then Some (ctx, pp)
           else if 2 ^ 32 - 1 < sz then Some (ctx, pp)
           else do {
             r \<leftarrow> reconstructJPEG malloc_ok j slices (lastSliceParamsCount ctx) data (ucast sz);
             case r of
               None \<Rightarrow> Some (ctx, pp)
             | Some frame \<Rightarrow>
               if ucast ((2 ^ 32 - 1 :: u32) - of_nat (length frame)) < ab_size (bitstreamBuffer ctx)
               then Some (ctx, pp)
               else do {
                 offs \<leftarrow> appendBuffer (sliceOffsets ctx) (le32 (ucast (ab_size (bitstreamBuffer ctx))));
                 bits \<leftarrow> appendBuffer (bitstreamBuffer ctx) frame;
                 Some (ctx\<lparr>sliceOffsets := offs, bitstreamBuffer := bits\<rparr>,
                       pp\<lparr>nNumSlices := 1, nBitstreamDataLen := ucast (ab_size bits)\<rparr>)
               }
           }))"

section \<open>Well-formed inputs\<close>

text \<open>The array lengths of the C types, and the sharing of one component array bound.\<close>

definition picture_ok :: "VAPictureParameterBufferJPEGBaseline \<Rightarrow> bool" where
  "picture_ok pic \<longleftrightarrow> length (frame_components pic) = 255"

definition huffman_ok :: "huffman_table \<Rightarrow> bool" where
  "huffman_ok h \<longleftrightarrow> length (num_dc_codes h) = 16 \<and> length (dc_values h) = 12 \<and>
     length (num_ac_codes h) = 16 \<and> length (ac_values h) = 162"

definition jpeg_ok :: "JPEGContext \<Rightarrow> bool" where
  "jpeg_ok j \<longleftrightarrow> picture_ok (picParams j) \<and> length (iqMatrix j) = 4 \<and>
     list_all (\<lambda>q. length q = 64) (iqMatrix j) \<and>
     length (huffmanTable j) = 2 \<and> list_all huffman_ok (huffmanTable j)"

definition slice_ok :: "VASliceParameterBufferJPEGBaseline \<Rightarrow> bool" where
  "slice_ok sl \<longleftrightarrow> length (scan_components sl) = 4"

lemma jpeg_ok_zero [simp]: "jpeg_ok zero_JPEGContext"
  by (simp add: jpeg_ok_def zero_JPEGContext_def picture_ok_def zero_picture_def huffman_ok_def
      zero_huffman_def list_all_length nth_replicate)

section \<open>Emitting bytes\<close>

definition appended :: "u8 list \<Rightarrow> cursor \<Rightarrow> cursor" where
  "appended bs c = c\<lparr>cur_out := cur_out c @ bs\<rparr>"

lemma appended_simps [simp]:
  "appended [] c = c" "appended b (appended a c) = appended (a @ b) c"
  "cur_out (appended a c) = cur_out c @ a" "cur_cap (appended a c) = cur_cap c"
  by (simp_all add: appended_def)

text \<open>
  \<open>emits f n r\<close>: with \<open>n\<close> bytes of room, writer \<open>f\<close> returns; it either
  refuses (\<open>r = None\<close>) or has written exactly \<open>the r\<close>, at most \<open>n\<close> bytes.
\<close>

definition room_for :: "nat \<Rightarrow> cursor \<Rightarrow> bool" where
  "room_for n c \<longleftrightarrow> length (cur_out c) + n \<le> cur_cap c"

definition emits :: "(cursor \<Rightarrow> cursor option option) \<Rightarrow> nat \<Rightarrow> u8 list option \<Rightarrow> bool" where
  "emits f n r \<longleftrightarrow> (\<forall>bs. r = Some bs \<longrightarrow> length bs \<le> n) \<and>
     (\<forall>c. room_for n c \<longrightarrow> f c = Some (map_option (\<lambda>bs. appended bs c) r))"

definition emit :: "(cursor \<Rightarrow> cursor option) \<Rightarrow> u8 list \<Rightarrow> bool" where
  "emit f bs \<longleftrightarrow> (\<forall>c. room_for (length bs) c \<longrightarrow> f c = Some (appended bs c))"

lemma emitD: "emit f bs \<Longrightarrow> room_for n c \<Longrightarrow> length bs \<le> n \<Longrightarrow> f c = Some (appended bs c)"
  by (simp add: emit_def room_for_def)

lemma room_for_appended [simp]:
  "room_for n (appended bs c) = (length (cur_out c) + length bs + n \<le> cur_cap c)"
  by (simp add: room_for_def)

lemma put_room [simp]: "length (cur_out c) + length bs \<le> cur_cap c \<Longrightarrow> put bs c = Some (appended bs c)"
  by (simp add: put_def appended_def)

lemma emit_put [simp]: "emit (put bs) bs"
  by (simp add: emit_def room_for_def)

lemma emit_id [simp]: "emit Some []"
  by (simp add: emit_def)

section \<open>Segments\<close>

definition segment :: "u8 \<Rightarrow> u8 list \<Rightarrow> u8 list" where
  "segment m payload = [JPEG_MARKER, m] @ write16be (of_nat (2 + length payload)) @ payload"

lemma length_write16be [simp]: "length (write16be v) = 2"
  by (simp add: write16be_def)

lemma length_segment [simp, bytes_len]: "length (segment m p) = 4 + length p"
  by (simp add: segment_def)

definition sof0_payload :: "VAPictureParameterBufferJPEGBaseline \<Rightarrow> u8 list" where
  "sof0_payload pic = [8] @ write16be (picture_height pic) @ write16be (picture_width pic) @
     [num_frame_components pic] @
     concat (map (\<lambda>k. [component_id k, push_bit 4 (h_sampling_factor k) OR v_sampling_factor k,
                       quantiser_table_selector k])
       (take (unat (num_frame_components pic)) (frame_components pic)))"

definition sos_payload :: "VASliceParameterBufferJPEGBaseline \<Rightarrow> u8 list" where
  "sos_payload sl = [num_scan_components sl] @
     concat (map (\<lambda>k. [component_selector k, push_bit 4 (dc_table_selector k) OR ac_table_selector k])
       (take (unat (num_scan_components sl)) (scan_components sl))) @ [0, 63, 0]"

definition dht_payload :: "u8 \<Rightarrow> u8 \<Rightarrow> u8 list \<Rightarrow> u8 list \<Rightarrow> u8 list" where
  "dht_payload tableClass tableId bits vals = [push_bit 4 tableClass OR tableId] @ bits @ vals"

lemma length_concat_const: "(\<And>x. length (f x) = k) \<Longrightarrow> length (concat (map f xs)) = k * length xs"
  by (induction xs) auto

lemma length_sof0_payload:
  assumes "picture_ok pic"
  shows "length (sof0_payload pic) = 6 + 3 * unat (num_frame_components pic)"
  using assms unsigned_less[where w = "num_frame_components pic" and ?'a = nat]
  by (simp add: sof0_payload_def picture_ok_def length_concat_const min_def)

lemma length_sos_payload:
  assumes "slice_ok sl" "unat (num_scan_components sl) \<le> 4"
  shows "length (sos_payload sl) = 4 + 2 * unat (num_scan_components sl)"
  using assms by (simp add: sos_payload_def slice_ok_def length_concat_const min_def)

lemma emit_writeDRI: "emit (\<lambda>c. writeDRI c ri) (segment JPEG_DRI (write16be ri))"
  by (simp add: emit_def room_for_def writeDRI_def segment_def)

lemma emit_writeSOF0_loop:
  "n \<le> length cs \<Longrightarrow> emit (writeSOF0_loop n cs)
     (concat (map (\<lambda>k. [component_id k, push_bit 4 (h_sampling_factor k) OR v_sampling_factor k,
                       quantiser_table_selector k]) (take n cs)))"
proof (induction n arbitrary: cs)
  case (Suc n)
  then obtain k cs' where "cs = k # cs'" by (cases cs) auto
  with Suc.prems Suc.IH[of cs'] show ?case
    by (simp add: emit_def room_for_def)
qed (simp add: emit_def)

lemma emit_writeSOS_loop:
  "n \<le> length cs \<Longrightarrow> emit (writeSOS_loop n cs)
     (concat (map (\<lambda>k. [component_selector k, push_bit 4 (dc_table_selector k) OR ac_table_selector k])
       (take n cs)))"
proof (induction n arbitrary: cs)
  case (Suc n)
  then obtain k cs' where "cs = k # cs'" by (cases cs) auto
  with Suc.prems Suc.IH[of cs'] show ?case
    by (simp add: emit_def room_for_def)
qed (simp add: emit_def)

lemma emit_writeSOF0:
  assumes "picture_ok pic"
  shows "emit (\<lambda>c. writeSOF0 c pic) (segment JPEG_SOF0 (sof0_payload pic))"
proof -
  have n: "unat (num_frame_components pic) \<le> length (frame_components pic)"
    using assms unsigned_less[where w = "num_frame_components pic" and ?'a = nat] by (simp add: picture_ok_def)
  have l: "8 + ucast (num_frame_components pic) * 3 = (of_nat (2 + length (sof0_payload pic)) :: u16)"
    by (simp add: length_sof0_payload[OF assms] mult.commute)
  show ?thesis
    using emit_writeSOF0_loop[OF n] l length_sof0_payload[OF assms]
    by (simp add: emit_def room_for_def writeSOF0_def segment_def) (simp add: sof0_payload_def mult.commute)
qed

lemma emit_writeSOS:
  assumes "slice_ok sl" "unat (num_scan_components sl) \<le> 4"
  shows "emit (\<lambda>c. writeSOS c sl) (segment JPEG_SOS (sos_payload sl))"
proof -
  have n: "unat (num_scan_components sl) \<le> length (scan_components sl)"
    using assms by (simp add: slice_ok_def)
  have l: "6 + ucast (num_scan_components sl) * 2 = (of_nat (2 + length (sos_payload sl)) :: u16)"
    by (simp add: length_sos_payload[OF assms] mult.commute)
  show ?thesis
    using emit_writeSOS_loop[OF n] l length_sos_payload[OF assms]
    by (simp add: emit_def room_for_def writeSOS_def segment_def) (simp add: sos_payload_def mult.commute)
qed

lemma emit_writeDHT:
  assumes "length bits = 16" "unat n \<le> length vals" "unat n \<le> 162"
  shows "emit (\<lambda>c. writeDHT c bits vals cls tid n)
           (segment JPEG_DHT (dht_payload cls tid bits (take (unat n) vals)))"
proof -
  have "unat (19 + n) = 19 + unat n"
    using assms(3) by (subst unat_add_bounded) simp_all
  then have "ucast (19 + n) = (of_nat (2 + length (dht_payload cls tid bits (take (unat n) vals))) :: u16)"
    using assms ucast_of_unat[of "19 + n"] by (simp add: dht_payload_def)
  then show ?thesis
    using assms
    by (simp add: emit_def room_for_def writeDHT_def segment_def read_bytes_def dht_payload_def)
qed

section \<open>Tables\<close>

type_synonym seg = "u8 \<times> u8 list"

definition segs_bytes :: "seg list \<Rightarrow> u8 list" where
  "segs_bytes ss = concat (map (\<lambda>(m, p). segment m p) ss)"

lemma segs_bytes_simps [simp]:
  "segs_bytes [] = []" "segs_bytes ((m, p) # ss) = segment m p @ segs_bytes ss"
  "segs_bytes (ss @ ts) = segs_bytes ss @ segs_bytes ts"
  by (simp_all add: segs_bytes_def)

definition std_segs :: "seg list" where
  "std_segs = [(JPEG_DHT, dht_payload 0 0 dcLuminanceBits dcLuminanceVals),
     (JPEG_DHT, dht_payload 0 1 dcChrominanceBits dcChrominanceVals),
     (JPEG_DHT, dht_payload 1 0 acLuminanceBits acLuminanceVals),
     (JPEG_DHT, dht_payload 1 1 acChrominanceBits acChrominanceVals)]"

lemma std_lengths [simp]:
  "length dcLuminanceBits = 16" "length dcLuminanceVals = 12"
  "length dcChrominanceBits = 16" "length dcChrominanceVals = 12"
  "length acLuminanceBits = 16" "length acLuminanceVals = 162"
  "length acChrominanceBits = 16" "length acChrominanceVals = 162"
  by (simp_all add: dcLuminanceBits_def dcLuminanceVals_def dcChrominanceBits_def dcChrominanceVals_def
      acLuminanceBits_def acLuminanceVals_def acChrominanceBits_def acChrominanceVals_def)

lemma length_dht_payload [simp]: "length (dht_payload cls tid bits vals) = 1 + length bits + length vals"
  by (simp add: dht_payload_def)

lemma emit_standard:
  "emit writeStandardHuffmanTables (segs_bytes std_segs)" "length (segs_bytes std_segs) = 432"
proof -
  note d = emit_writeDHT[where bits = dcLuminanceBits and vals = dcLuminanceVals and n = 12]
    emit_writeDHT[where bits = dcChrominanceBits and vals = dcChrominanceVals and n = 12]
    emit_writeDHT[where bits = acLuminanceBits and vals = acLuminanceVals and n = 162]
    emit_writeDHT[where bits = acChrominanceBits and vals = acChrominanceVals and n = 162]
  show "emit writeStandardHuffmanTables (segs_bytes std_segs)"
    using d by (simp add: emit_def room_for_def writeStandardHuffmanTables_def std_segs_def)
  show "length (segs_bytes std_segs) = 432" by (simp add: std_segs_def)
qed

definition va_seg :: "u8 \<Rightarrow> u8 \<Rightarrow> u8 list \<Rightarrow> u8 list \<Rightarrow> u32 \<Rightarrow> u8 \<Rightarrow> nat \<Rightarrow> seg list option" where
  "va_seg required valid codes vals maxVals cls idx =
     (if required AND table_bit idx = 0 then Some []
      else if valid AND table_bit idx = 0 then None
      else case countHuffValues codes maxVals of
        Some (Some n) \<Rightarrow> if n = 0 then None
          else Some [(JPEG_DHT, dht_payload cls (of_nat idx) codes (take (unat n) vals))]
      | _ \<Rightarrow> None)"

lemma countHuffValues_loop_returns:
  "n \<le> length codes \<Longrightarrow> acc \<le> maxVals \<Longrightarrow>
     \<exists>r. countHuffValues_loop n codes maxVals acc = Some r \<and> (\<forall>v. r = Some v \<longrightarrow> v \<le> maxVals)"
proof (induction n arbitrary: codes acc)
  case (Suc n)
  then obtain x codes' where "codes = x # codes'" by (cases codes) auto
  with Suc.prems Suc.IH[of codes' "acc + ucast x"] show ?case by (auto simp: Let_def not_less)
qed simp

lemma emits_writeVAHuffmanTable:
  assumes "length codes = 16" "length vals = unat maxVals" "maxVals \<le> 162"
  shows "emits (writeVAHuffmanTable required valid codes vals maxVals cls idx) (21 + unat maxVals)
           (map_option segs_bytes (va_seg required valid codes vals maxVals cls idx))"
proof -
  obtain r where r: "countHuffValues codes maxVals = Some r" "\<forall>v. r = Some v \<longrightarrow> v \<le> maxVals"
    using countHuffValues_loop_returns[of 16 codes 0 maxVals] assms(1) by (auto simp: countHuffValues_def)
  show ?thesis
  proof (cases r)
    case None
    then show ?thesis using r(1) by (auto simp: emits_def writeVAHuffmanTable_def va_seg_def)
  next
    case (Some n)
    have n: "unat n \<le> length vals" "unat n \<le> 162"
      using Some r(2) assms(2,3) by (auto simp: word_le_nat_alt)
    have "writeDHT c codes vals cls (of_nat idx) n =
        Some (appended (segment JPEG_DHT (dht_payload cls (of_nat idx) codes (take (unat n) vals))) c)"
      if "room_for (21 + unat maxVals) c" for c
      using emitD[OF emit_writeDHT[OF assms(1) n], of "21 + unat maxVals" c cls "of_nat idx"] that n assms(1,2)
      by simp
    then show ?thesis
      using Some r(1) n assms(1,2) by (auto simp: emits_def writeVAHuffmanTable_def va_seg_def)
  qed
qed

lemma emits_bind:
  assumes "emits f n r" "emits g m r'"
  shows "emits (\<lambda>c. f c \<bind> (\<lambda>x. case x of None \<Rightarrow> Some None | Some c \<Rightarrow> g c)) (n + m)
           (r \<bind> (\<lambda>a. r' \<bind> (\<lambda>b. Some (a @ b))))"
proof -
  have len: "length bs \<le> n" if "r = Some bs" for bs using assms(1) that by (simp add: emits_def)
  have len': "length bs \<le> m" if "r' = Some bs" for bs using assms(2) that by (simp add: emits_def)
  have f: "f c = Some (map_option (\<lambda>bs. appended bs c) r)" if "room_for (n + m) c" for c
    using assms(1) that by (simp add: emits_def room_for_def)
  have g: "g (appended a c) = Some (map_option (\<lambda>bs. appended (a @ bs) c) r')"
    if "room_for (n + m) c" "length a \<le> n" for a c
    using assms(2) that by (simp add: emits_def room_for_def)
  show ?thesis
    using len len' f g
    by (cases r; cases r') (auto simp: emits_def intro: add_mono)
qed

lemma emits_cong:
  "emits f n r \<Longrightarrow> (\<And>c. f' c = f c) \<Longrightarrow> n' = n \<Longrightarrow> r' = r \<Longrightarrow> emits f' n' r'"
  by (simp add: emits_def)

fun va_segs :: "nat \<Rightarrow> nat \<Rightarrow> huffman_table list \<Rightarrow> u8 \<Rightarrow> u8 \<Rightarrow> u8 \<Rightarrow> u8 \<Rightarrow> seg list option" where
  "va_segs 0 idx hs reqDc reqAc validDc validAc = Some []"
| "va_segs (Suc n) idx hs reqDc reqAc validDc validAc = do {
     a \<leftarrow> va_seg reqDc validDc (num_dc_codes (hs ! idx)) (dc_values (hs ! idx)) 12 0 idx;
     b \<leftarrow> va_seg reqAc validAc (num_ac_codes (hs ! idx)) (ac_values (hs ! idx)) 162 1 idx;
     rest \<leftarrow> va_segs n (Suc idx) hs reqDc reqAc validDc validAc;
     Some (a @ b @ rest)
   }"

lemma emits_writeVAHuffmanTables_loop:
  assumes "idx + n \<le> length hs" "list_all huffman_ok hs"
  shows "emits (writeVAHuffmanTables_loop n idx hs reqDc reqAc validDc validAc) (216 * n)
           (map_option segs_bytes (va_segs n idx hs reqDc reqAc validDc validAc))"
  using assms
proof (induction n arbitrary: idx)
  case 0
  then show ?case by (simp add: emits_def)
next
  case (Suc n)
  let ?h = "hs ! idx"
  have h: "huffman_ok ?h" using Suc.prems by (simp add: list_all_length)
  let ?dc = "va_seg reqDc validDc (num_dc_codes ?h) (dc_values ?h) 12 0 idx"
  let ?ac = "va_seg reqAc validAc (num_ac_codes ?h) (ac_values ?h) 162 1 idx"
  have dc: "emits (writeVAHuffmanTable reqDc validDc (num_dc_codes ?h) (dc_values ?h) 12 0 idx) 33
      (map_option segs_bytes ?dc)"
    using emits_writeVAHuffmanTable[of "num_dc_codes ?h" "dc_values ?h" 12] h by (simp add: huffman_ok_def)
  have ac: "emits (writeVAHuffmanTable reqAc validAc (num_ac_codes ?h) (ac_values ?h) 162 1 idx) 183
      (map_option segs_bytes ?ac)"
    using emits_writeVAHuffmanTable[of "num_ac_codes ?h" "ac_values ?h" 162] h by (simp add: huffman_ok_def)
  have rest: "emits (writeVAHuffmanTables_loop n (Suc idx) hs reqDc reqAc validDc validAc) (216 * n)
      (map_option segs_bytes (va_segs n (Suc idx) hs reqDc reqAc validDc validAc))"
    using Suc.IH[of "Suc idx"] Suc.prems by simp
  show ?case
  proof (rule emits_cong [OF emits_bind [OF dc emits_bind [OF ac rest]]])
    show "map_option segs_bytes (va_segs (Suc n) idx hs reqDc reqAc validDc validAc) =
      map_option segs_bytes ?dc \<bind> (\<lambda>a. (map_option segs_bytes ?ac \<bind>
         (\<lambda>a. map_option segs_bytes (va_segs n (Suc idx) hs reqDc reqAc validDc validAc) \<bind>
           (\<lambda>b. Some (a @ b)))) \<bind> (\<lambda>b. Some (a @ b)))"
      by (auto split: bind_splits)
  qed (use Suc.prems in simp_all)
qed

definition huff_segs :: "JPEGContext \<Rightarrow> u8 \<Rightarrow> u8 \<Rightarrow> seg list" where
  "huff_segs j dc ac =
     (if hasHuffmanTable j \<and> validHuffmanDcMask j AND dc = dc \<and> validHuffmanAcMask j AND ac = ac
      then case va_segs 2 0 (huffmanTable j) dc ac (validHuffmanDcMask j) (validHuffmanAcMask j) of
             Some ss \<Rightarrow> ss | None \<Rightarrow> std_segs
      else std_segs)"

lemma emit_writeHuffman:
  assumes "jpeg_ok j" "room_for 432 c"
  shows "writeHuffman j dc ac c = Some (appended (segs_bytes (huff_segs j dc ac)) c)"
    and "length (segs_bytes (huff_segs j dc ac)) \<le> 432"
proof -
  have va: "emits (writeVAHuffmanTables_loop 2 0 (huffmanTable j) dc ac (validHuffmanDcMask j) (validHuffmanAcMask j)) 432
      (map_option segs_bytes (va_segs 2 0 (huffmanTable j) dc ac (validHuffmanDcMask j) (validHuffmanAcMask j)))"
    using emits_writeVAHuffmanTables_loop[of 0 2 "huffmanTable j"] assms(1) by (simp add: jpeg_ok_def)
  have std: "writeStandardHuffmanTables c = Some (appended (segs_bytes std_segs) c)"
    using emitD[OF emit_standard(1) assms(2)] emit_standard(2) by simp
  show "writeHuffman j dc ac c = Some (appended (segs_bytes (huff_segs j dc ac)) c)"
    using va assms(2) std
    by (cases "va_segs 2 0 (huffmanTable j) dc ac (validHuffmanDcMask j) (validHuffmanAcMask j)")
      (simp_all add: writeHuffman_def writeVAHuffmanTables_def huff_segs_def emits_def)
  show "length (segs_bytes (huff_segs j dc ac)) \<le> 432"
    using va emit_standard(2)
    by (cases "va_segs 2 0 (huffmanTable j) dc ac (validHuffmanDcMask j) (validHuffmanAcMask j)")
      (simp_all add: huff_segs_def emits_def)
qed

fun dqt_segs :: "nat \<Rightarrow> nat \<Rightarrow> u8 list list \<Rightarrow> u8 \<Rightarrow> seg list option" where
  "dqt_segs 0 tab iq usedMask = Some []"
| "dqt_segs (Suc n) tab iq usedMask =
     (if usedMask AND table_bit tab = 0 then dqt_segs n (Suc tab) iq usedMask
      else if (sum_list (map ucast (iq ! tab)) :: u32) = 0 then None
      else map_option (\<lambda>rest. (JPEG_DQT, of_nat tab # iq ! tab) # rest) (dqt_segs n (Suc tab) iq usedMask))"

lemma emits_writeDQT_loop:
  assumes "tab + n \<le> length iq" "list_all (\<lambda>q. length q = 64) iq"
  shows "emits (writeDQT_loop n tab iq usedMask) (69 * n)
           (map_option segs_bytes (dqt_segs n tab iq usedMask))"
  using assms
proof (induction n arbitrary: tab)
  case 0
  then show ?case by (simp add: emits_def)
next
  case (Suc n)
  have q: "tab < length iq" "length (iq ! tab) = 64" "read_bytes (iq ! tab) 0 64 = Some (iq ! tab)"
    using Suc.prems by (simp_all add: list_all_length read_bytes_def)
  note IH = Suc.IH[of "Suc tab"]
  have step: "writeDQT_loop (Suc n) tab iq usedMask c =
      writeDQT_loop n (Suc tab) iq usedMask (appended (segment JPEG_DQT (of_nat tab # iq ! tab)) c)"
    if "room_for (69 * Suc n) c" "usedMask AND table_bit tab \<noteq> 0"
      "(sum_list (map ucast (iq ! tab)) :: u32) \<noteq> 0" for c
    using that q by (simp add: room_for_def segment_def)
  have rec: "writeDQT_loop n (Suc tab) iq usedMask (appended (segment JPEG_DQT (of_nat tab # iq ! tab)) c) =
      Some (map_option (\<lambda>bs. appended (segment JPEG_DQT (of_nat tab # iq ! tab) @ bs) c)
        (map_option segs_bytes (dqt_segs n (Suc tab) iq usedMask)))"
    if "room_for (69 * Suc n) c" for c
    using IH Suc.prems that q(2) by (simp add: emits_def room_for_def)
  show ?case
  proof (cases "usedMask AND table_bit tab = 0")
    case True
    then show ?thesis using IH Suc.prems by (auto simp: emits_def room_for_def)
  next
    case False
    show ?thesis
    proof (cases "(sum_list (map ucast (iq ! tab)) :: u32) = 0")
      case True
      then show ?thesis using \<open>usedMask AND table_bit tab \<noteq> 0\<close> q by (simp add: emits_def)
    next
      case False
      then show ?thesis
        using \<open>usedMask AND table_bit tab \<noteq> 0\<close> step rec IH Suc.prems q(2)
        by (auto simp: emits_def option.map_comp comp_def simp del: writeDQT_loop.simps)
    qed
  qed
qed

section \<open>Scans\<close>

definition ecs :: "u8 list \<Rightarrow> VASliceParameterBufferJPEGBaseline \<Rightarrow> u8 list" where
  "ecs sliceData sl = take (unat (slice_data_size sl)) (drop (unat (slice_data_offset sl)) sliceData)"

definition scan_ok :: "u8 list \<Rightarrow> VASliceParameterBufferJPEGBaseline \<Rightarrow> bool" where
  "scan_ok sliceData sl \<longleftrightarrow> slice_ok sl \<and> unat (num_scan_components sl) \<le> 4 \<and>
     unat (slice_data_offset sl) + unat (slice_data_size sl) \<le> length sliceData"

definition dri_bytes :: "bool \<Rightarrow> u16 \<Rightarrow> u8 list" where
  "dri_bytes wanted ri = (if wanted \<and> ri \<noteq> 0 then segment JPEG_DRI (write16be ri) else [])"

definition scan_bytes :: "bool \<Rightarrow> u8 list \<Rightarrow> VASliceParameterBufferJPEGBaseline \<Rightarrow> u8 list" where
  "scan_bytes sameRI sliceData sl =
     dri_bytes (\<not> sameRI) (restart_interval sl) @ segment JPEG_SOS (sos_payload sl) @ ecs sliceData sl"

lemma length_ecs: "scan_ok sliceData sl \<Longrightarrow> length (ecs sliceData sl) = unat (slice_data_size sl)"
  by (auto simp: scan_ok_def ecs_def min_def)

lemma emit_copyEcs: "scan_ok sliceData sl \<Longrightarrow> emit (copyEcs sliceData sl) (ecs sliceData sl)"
  by (simp add: emit_def room_for_def copyEcs_def read_bytes_def ecs_def scan_ok_def)

lemma length_dri_bytes: "length (dri_bytes wanted ri) \<le> (if wanted then 6 else 0)"
  by (simp add: dri_bytes_def)

lemma emit_dri_bytes: "emit (\<lambda>c. if wanted \<and> ri \<noteq> 0 then writeDRI c ri else Some c) (dri_bytes wanted ri)"
  using emit_writeDRI[of ri] by (auto simp: emit_def dri_bytes_def)

lemma length_sos_segment: "scan_ok sliceData sl \<Longrightarrow> length (segment JPEG_SOS (sos_payload sl)) \<le> 16"
  using length_sos_payload[of sl] by (simp add: scan_ok_def)

lemma length_scan_bytes:
  assumes "scan_ok sliceData sl"
  shows "length (scan_bytes sameRI sliceData sl) \<le> (if sameRI then 16 else 22) + unat (slice_data_size sl)"
  using length_sos_segment[OF assms] length_dri_bytes[of "\<not> sameRI" "restart_interval sl"] length_ecs[OF assms]
  by (auto simp: scan_bytes_def)

lemma emit_writeEcs:
  "list_all (scan_ok sliceData) sls \<Longrightarrow>
     emit (writeEcs (length sls) sls sliceData) (concat (map (ecs sliceData) sls))"
proof (induction sls)
  case (Cons sl sls)
  then show ?case
    using emit_copyEcs[of sliceData sl] by (simp add: emit_def room_for_def)
qed (simp add: emit_def)

lemma emit_writeScans:
  "list_all (scan_ok sliceData) sls \<Longrightarrow>
     emit (writeScans (length sls) sls sameRI sliceData) (concat (map (scan_bytes sameRI sliceData) sls))"
proof (induction sls)
  case (Cons sl sls)
  then have ok: "scan_ok sliceData sl" by simp
  then have "emit (\<lambda>c. writeSOS c sl) (segment JPEG_SOS (sos_payload sl))"
    by (intro emit_writeSOS) (simp_all add: scan_ok_def)
  with Cons emit_copyEcs[OF ok] emit_dri_bytes[of "\<not> sameRI" "restart_interval sl"] show ?case
    by (simp add: emit_def room_for_def scan_bytes_def [of _ _ sl])
qed (simp add: emit_def)

section \<open>Validation of the slices\<close>

lemma bit_table_bit [simp]: "bit (table_bit n) i \<longleftrightarrow> i = n \<and> n < 8"
  by (auto simp: table_bit_def bit_exp_iff)

lemma table_bit_test: "t < 8 \<Longrightarrow> (m AND table_bit t = 0) = (\<not> bit m t)"
  by (auto simp: bit_eq_iff [of "m AND table_bit t" 0] bit_and_iff)

definition frame_ids :: "VAPictureParameterBufferJPEGBaseline \<Rightarrow> u8 set" where
  "frame_ids pic = component_id ` set (take (unat (num_frame_components pic)) (frame_components pic))"

lemma componentInFrame_loop_eq:
  "n \<le> length cs \<Longrightarrow> componentInFrame_loop n cs cid = Some (cid \<in> component_id ` set (take n cs))"
proof (induction n arbitrary: cs)
  case (Suc n)
  then obtain k cs' where "cs = k # cs'" by (cases cs) auto
  with Suc show ?case by auto
qed simp

lemma num_components_in_range: "picture_ok pic \<Longrightarrow> unat (num_frame_components pic) \<le> length (frame_components pic)"
  using unsigned_less[where w = "num_frame_components pic" and ?'a = nat] by (simp add: picture_ok_def)

lemma componentInFrame_eq: "picture_ok pic \<Longrightarrow> componentInFrame pic cid = Some (cid \<in> frame_ids pic)"
  by (simp add: componentInFrame_def componentInFrame_loop_eq num_components_in_range frame_ids_def)

text \<open>A scan component that may be used: it names a frame component and its selectors are marked.\<close>

definition component_covered ::
  "VAPictureParameterBufferJPEGBaseline \<Rightarrow> u8 \<Rightarrow> u8 \<Rightarrow> scan_component \<Rightarrow> bool" where
  "component_covered pic dc ac k \<longleftrightarrow> component_selector k \<in> frame_ids pic \<and>
     unat (dc_table_selector k) \<le> 1 \<and> unat (ac_table_selector k) \<le> 1 \<and>
     bit dc (unat (dc_table_selector k)) \<and> bit ac (unat (ac_table_selector k))"

definition mask_le :: "u8 \<Rightarrow> u8 \<Rightarrow> bool" where
  "mask_le m m' \<longleftrightarrow> (\<forall>i. bit m i \<longrightarrow> bit m' i)"

lemma mask_le_simps [simp]: "mask_le m m" "mask_le m (m OR b)"
  by (simp_all add: mask_le_def bit_or_iff)

lemma mask_le_trans: "mask_le a b \<Longrightarrow> mask_le b c \<Longrightarrow> mask_le a c"
  by (simp add: mask_le_def)

lemma component_covered_mono:
  "component_covered pic dc ac k \<Longrightarrow> mask_le dc dc' \<Longrightarrow> mask_le ac ac' \<Longrightarrow> component_covered pic dc' ac' k"
  by (simp add: component_covered_def mask_le_def)

lemma validateSlice_loop_spec:
  assumes "picture_ok pic" "n \<le> length cs"
  shows "\<exists>r. validateSlice_loop n cs pic dc ac = Some r \<and>
           (\<forall>dc' ac'. r = Some (dc', ac') \<longrightarrow> mask_le dc dc' \<and> mask_le ac ac' \<and>
              list_all (component_covered pic dc' ac') (take n cs))"
  using assms(2)
proof (induction n arbitrary: cs dc ac)
  case (Suc n)
  then obtain k cs' where cs: "cs = k # cs'" by (cases cs) auto
  let ?dc = "dc OR table_bit (unat (dc_table_selector k))"
  let ?ac = "ac OR table_bit (unat (ac_table_selector k))"
  show ?case
  proof (cases "component_selector k \<in> frame_ids pic \<and>
      \<not> (1 < dc_table_selector k \<or> 1 < ac_table_selector k)")
    case False
    then show ?thesis using cs assms(1) by (auto simp: componentInFrame_eq)
  next
    case True
    then have here: "component_covered pic ?dc ?ac k"
      by (auto simp: component_covered_def bit_or_iff word_less_nat_alt not_less)
    obtain r where r: "validateSlice_loop n cs' pic ?dc ?ac = Some r"
        "\<forall>dc' ac'. r = Some (dc', ac') \<longrightarrow> mask_le ?dc dc' \<and> mask_le ?ac ac' \<and>
           list_all (component_covered pic dc' ac') (take n cs')"
      using Suc.IH[of cs' ?dc ?ac] Suc.prems cs by auto
    have "validateSlice_loop (Suc n) cs pic dc ac = Some r"
      using True cs r(1) assms(1) by (simp add: componentInFrame_eq)
    then show ?thesis
      using r(2) here cs
      by (auto intro: mask_le_trans [OF mask_le_simps(2)] component_covered_mono)
  qed
qed simp

lemma checkSlices_spec:
  assumes "picture_ok pic" "list_all slice_ok sls" "unat sz = length sliceData"
  shows "\<exists>r. checkSlices (length sls) sls pic sz tot dc ac = Some r \<and>
           (\<forall>tot' dc' ac'. r = Some (tot', dc', ac') \<longrightarrow> mask_le dc dc' \<and> mask_le ac ac' \<and>
              list_all (scan_ok sliceData) sls \<and>
              list_all (\<lambda>sl. slice_data_flag sl = VA_SLICE_DATA_FLAG_ALL \<and> num_scan_components sl \<noteq> 0 \<and>
                list_all (component_covered pic dc' ac')
                  (take (unat (num_scan_components sl)) (scan_components sl))) sls \<and>
              unat tot' = unat tot + sum_list (map (\<lambda>sl. unat (slice_data_size sl)) sls))"
  using assms(2)
proof (induction sls arbitrary: tot dc ac)
  case (Cons sl sls)
  show ?case
  proof (cases "slice_data_flag sl = VA_SLICE_DATA_FLAG_ALL \<and>
      \<not> (num_scan_components sl = 0 \<or> JPEG_MAX_COMPONENTS < num_scan_components sl)")
    case False
    then show ?thesis by (auto simp: validateSliceAndCollectHuffmanUsage_def)
  next
    case True
    then have n: "unat (num_scan_components sl) \<le> 4"
      by (simp add: JPEG_MAX_COMPONENTS_def word_less_nat_alt not_less)
    obtain r where r: "validateSliceAndCollectHuffmanUsage pic sl dc ac = Some r"
        "\<forall>dc' ac'. r = Some (dc', ac') \<longrightarrow> mask_le dc dc' \<and> mask_le ac ac' \<and>
           list_all (component_covered pic dc' ac') (take (unat (num_scan_components sl)) (scan_components sl))"
      using validateSlice_loop_spec[OF assms(1), of "unat (num_scan_components sl)" "scan_components sl" dc ac]
        True n Cons.prems by (auto simp: validateSliceAndCollectHuffmanUsage_def slice_ok_def)
    show ?thesis
    proof (cases "r = None \<or> sz < slice_data_offset sl \<or> sz - slice_data_offset sl < slice_data_size sl \<or>
        - 1 - tot < ucast (slice_data_size sl)")
      case True
      then show ?thesis
        using r(1) \<open>slice_data_flag sl = _ \<and> _\<close> by (auto split: option.splits)
    next
      case False
      then obtain dc1 ac1 where ok: "r = Some (dc1, ac1)" by auto
      let ?t = "tot + ucast (slice_data_size sl)"
      have "unat (- 1 - tot) = 2 ^ 64 - 1 - unat tot"
        using unsigned_less[where w = tot and ?'a = nat]
        by (subst unat_sub) (simp_all add: word_le_nat_alt unsigned_minus_1_eq_mask mask_eq_exp_minus_1)
      then have t: "unat ?t = unat tot + unat (slice_data_size sl)"
        using False unsigned_less[where w = tot and ?'a = nat]
        by (subst unat_add_bounded) (auto simp: word_less_nat_alt not_less)
      have sc: "scan_ok sliceData sl"
        using False n Cons.prems assms(3)
        by (auto simp: scan_ok_def word_less_nat_alt not_less unat_sub word_le_nat_alt)
      obtain r' where r': "checkSlices (length sls) sls pic sz ?t dc1 ac1 = Some r'"
         "\<forall>tot' dc' ac'. r' = Some (tot', dc', ac') \<longrightarrow> mask_le dc1 dc' \<and> mask_le ac1 ac' \<and>
              list_all (scan_ok sliceData) sls \<and>
              list_all (\<lambda>sl. slice_data_flag sl = VA_SLICE_DATA_FLAG_ALL \<and> num_scan_components sl \<noteq> 0 \<and>
                list_all (component_covered pic dc' ac')
                  (take (unat (num_scan_components sl)) (scan_components sl))) sls \<and>
              unat tot' = unat ?t + sum_list (map (\<lambda>sl. unat (slice_data_size sl)) sls)"
        using Cons.IH[of ?t dc1 ac1] Cons.prems by auto
      have "checkSlices (length (sl # sls)) (sl # sls) pic sz tot dc ac = Some r'"
        using True r(1) ok False r'(1) by simp
      then show ?thesis
        using r(2) ok r'(2) sc t True
        by (fastforce intro: mask_le_trans list.pred_mono_strong component_covered_mono)
    qed
  qed
qed simp

lemma usedQuantTables_loop_spec:
  "n \<le> length cs \<Longrightarrow>
     \<exists>r. usedQuantTables_loop n cs m = Some r \<and>
       (\<forall>m'. r = Some m' \<longrightarrow> mask_le m m' \<and>
          list_all (\<lambda>k. unat (quantiser_table_selector k) < 4 \<and> bit m' (unat (quantiser_table_selector k))) (take n cs))"
proof (induction n arbitrary: cs m)
  case (Suc n)
  then obtain k cs' where cs: "cs = k # cs'" by (cases cs) auto
  show ?case
  proof (cases "4 \<le> quantiser_table_selector k")
    case True
    then show ?thesis using cs by simp
  next
    case False
    then have lt: "unat (quantiser_table_selector k) < 4" by (simp add: word_le_nat_alt not_le)
    let ?m = "m OR table_bit (unat (quantiser_table_selector k))"
    have "bit ?m (unat (quantiser_table_selector k))" using lt by (simp add: bit_or_iff)
    moreover obtain r where "usedQuantTables_loop n cs' ?m = Some r"
      "\<forall>m'. r = Some m' \<longrightarrow> mask_le ?m m' \<and>
          list_all (\<lambda>k. unat (quantiser_table_selector k) < 4 \<and> bit m' (unat (quantiser_table_selector k))) (take n cs')"
      using Suc.IH[of cs' ?m] Suc.prems cs by auto
    ultimately show ?thesis
      using False cs lt by (auto simp: mask_le_def bit_or_iff)
  qed
qed simp

lemma dqt_segs_filter:
  "tab + n \<le> 8 \<Longrightarrow> dqt_segs n tab iq m = Some ss \<Longrightarrow>
     ss = map (\<lambda>t. (JPEG_DQT, of_nat t # iq ! t)) (filter (bit m) [tab..<tab + n])"
proof (induction n arbitrary: tab ss)
  case (Suc n)
  then show ?case
    using Suc.IH[of "Suc tab"]
    by (auto simp: table_bit_test upt_conv_Cons simp del: upt_Suc split: if_splits)
qed simp

lemma sameComponents_returns:
  "n \<le> length cs \<Longrightarrow> n \<le> length ds \<Longrightarrow> \<exists>b. sameComponents n cs ds = Some b"
proof (induction n arbitrary: cs ds)
  case (Suc n)
  then obtain c cs' d ds' where "cs = c # cs'" "ds = d # ds'"
    by (metis Suc_le_length_iff)
  with Suc show ?case by auto
qed auto

lemma compareSlices_returns:
  "list_all (scan_ok sliceData) sls \<Longrightarrow> scan_ok sliceData slice0 \<Longrightarrow>
     \<exists>a b. compareSlices (length sls) sls slice0 sameSOS sameRI = Some (a, b)"
proof (induction sls arbitrary: sameSOS sameRI)
  case (Cons sl sls)
  then have "\<exists>b. sameComponents (unat (num_scan_components sl)) (scan_components sl) (scan_components slice0) = Some b"
    by (intro sameComponents_returns) (auto simp: scan_ok_def slice_ok_def)
  with Cons show ?case by (auto simp: Let_def)
qed simp

section \<open>The frame\<close>

definition scans_bytes :: "bool \<Rightarrow> bool \<Rightarrow> VASliceParameterBufferJPEGBaseline list \<Rightarrow> u8 list \<Rightarrow> u8 list" where
  "scans_bytes sameSOS sameRI slices sliceData =
     (if sameSOS then segment JPEG_SOS (sos_payload (hd slices)) @ concat (map (ecs sliceData) slices)
      else concat (map (scan_bytes sameRI sliceData) slices))"

definition frame_body ::
  "JPEGContext \<Rightarrow> seg list \<Rightarrow> seg list \<Rightarrow> bool \<Rightarrow> bool \<Rightarrow> VASliceParameterBufferJPEGBaseline list \<Rightarrow> u8 list \<Rightarrow> u8 list" where
  "frame_body j quant huff sameSOS sameRI slices sliceData =
     jfifHeader @ segs_bytes quant @ segment JPEG_SOF0 (sof0_payload (picParams j)) @ segs_bytes huff @
     dri_bytes sameRI (restart_interval (hd slices)) @ scans_bytes sameSOS sameRI slices sliceData"

definition with_EOI :: "u8 list \<Rightarrow> u8 list" where
  "with_EOI bs = bs @ (if ends_with_EOI bs then [] else [JPEG_MARKER, JPEG_EOI])"

definition ecs_total :: "VASliceParameterBufferJPEGBaseline list \<Rightarrow> nat" where
  "ecs_total slices = sum_list (map (\<lambda>sl. unat (slice_data_size sl)) slices)"

lemma length_concat_ecs:
  "list_all (scan_ok sliceData) sls \<Longrightarrow> length (concat (map (ecs sliceData) sls)) = ecs_total sls"
  by (induction sls) (simp_all add: ecs_total_def length_ecs)

lemma length_concat_scans:
  "list_all (scan_ok sliceData) sls \<Longrightarrow>
     length (concat (map (scan_bytes sameRI sliceData) sls)) \<le>
       (if sameRI then 16 else 22) * length sls + ecs_total sls"
proof (induction sls)
  case (Cons sl sls)
  then show ?case using length_scan_bytes[of sliceData sl sameRI] by (simp add: ecs_total_def)
qed (simp add: ecs_total_def)

lemma ecs_total_bound: "ecs_total sls \<le> (2 ^ 32 - 1) * length sls"
proof (induction sls)
  case (Cons sl sls)
  then show ?case
    using unsigned_less[where w = "slice_data_size sl" and ?'a = nat] by (simp add: ecs_total_def)
qed (simp add: ecs_total_def)

lemma length_jfifHeader [simp]: "length jfifHeader = 20"
  by (simp add: jfifHeader_def)

lemma unat_maxFrameSize:
  assumes "unat cnt = n" "n \<le> 2 ^ 31" "unat tot = ecs_total sls" "length sls = n"
  shows "unat (maxFrameSize comps cnt tot) = 740 + 3 * unat comps + 22 * n + ecs_total sls"
proof -
  have b: "ecs_total sls \<le> (2 ^ 32 - 1) * 2 ^ 31"
    using ecs_total_bound[of sls] assms(2,4) by (meson le_trans mult_le_mono2)
  have c: "unat comps < 2 ^ 8" using unsigned_less[where w = comps and ?'a = nat] by simp
  have "maxFrameSize comps cnt tot = of_nat (740 + 3 * unat comps + 22 * n + ecs_total sls)"
    by (simp add: maxFrameSize_def Let_def assms(1,3) [symmetric] algebra_simps)
  then show ?thesis
    using b c assms(2) by (simp only: unat_of_nat) (simp add: take_bit_nat_eq_self)
qed

lemma emits_writeDQT:
  assumes "jpeg_ok j" "getUsedQuantTablesMask (picParams j) = Some (Some used)"
    "validQuantTablesMask j AND used = used"
  shows "emits (\<lambda>c. writeDQT c (iqMatrix j) (picParams j) (validQuantTablesMask j)) 276
           (map_option segs_bytes (dqt_segs 4 0 (iqMatrix j) used))"
  using emits_writeDQT_loop[of 0 4 "iqMatrix j" used] assms
  by (simp add: writeDQT_def jpeg_ok_def)

lemma length_scans_bytes:
  assumes "list_all (scan_ok sliceData) slices" "slices \<noteq> []"
  shows "length (dri_bytes sameRI ri) + length (scans_bytes sameSOS sameRI slices sliceData) \<le>
           22 * length slices + ecs_total slices"
proof -
  have s0: "scan_ok sliceData (hd slices)" and pos: "1 \<le> length slices"
    using assms by (cases slices; simp)+
  have mono: "(16::nat) + 6 * length slices \<le> 22 * length slices" using pos by simp
  show ?thesis
    using length_sos_segment[OF s0] length_concat_ecs[OF assms(1)] length_dri_bytes[of sameRI ri] pos
      length_concat_scans[OF assms(1), of sameRI]
    by (cases sameSOS; cases sameRI) (auto simp: scans_bytes_def)
qed

lemma emit_scans:
  assumes "list_all (scan_ok sliceData) slices" "slices \<noteq> []" "unat cnt = length slices"
  shows "emit (\<lambda>c. if sameSOS then writeSOS c (hd slices) \<bind> writeEcs (unat cnt) slices sliceData
                   else writeScans (unat cnt) slices sameRI sliceData c)
           (scans_bytes sameSOS sameRI slices sliceData)"
proof -
  have "scan_ok sliceData (hd slices)" using assms by (cases slices) auto
  then have "emit (\<lambda>c. writeSOS c (hd slices)) (segment JPEG_SOS (sos_payload (hd slices)))"
    by (intro emit_writeSOS) (simp_all add: scan_ok_def)
  then show ?thesis
    using emit_writeEcs[OF assms(1)] emit_writeScans[OF assms(1), of sameRI] assms(3)
    by (auto simp: emit_def room_for_def scans_bytes_def)
qed

lemma writeFrame_spec:
  assumes j: "jpeg_ok j" and used: "getUsedQuantTablesMask (picParams j) = Some (Some used)"
    "validQuantTablesMask j AND used = used"
    and sl: "list_all (scan_ok sliceData) slices" "slices \<noteq> []" "unat cnt = length slices"
    and cap: "740 + 3 * unat (num_frame_components (picParams j)) + 22 * length slices + ecs_total slices \<le> cap"
  shows "writeFrame j slices cnt sliceData dc ac sameSOS sameRI (hd slices) \<lparr>cur_cap = cap, cur_out = []\<rparr> =
           Some (map_option (\<lambda>quant. appended
             (with_EOI (frame_body j quant (huff_segs j dc ac) sameSOS sameRI slices sliceData))
             \<lparr>cur_cap = cap, cur_out = []\<rparr>)
             (dqt_segs 4 0 (iqMatrix j) used))"
proof (cases "dqt_segs 4 0 (iqMatrix j) used")
  case None
  have "room_for 276 (appended jfifHeader \<lparr>cur_cap = cap, cur_out = []\<rparr>)" using cap by simp
  then show ?thesis
    using emits_writeDQT[OF j used] None cap by (simp add: writeFrame_def emits_def)
next
  case (Some quant)
  let ?c = "\<lparr>cur_cap = cap, cur_out = []\<rparr>"
  let ?sof = "segment JPEG_SOF0 (sof0_payload (picParams j))"
  let ?huff = "segs_bytes (huff_segs j dc ac)"
  let ?ri = "restart_interval (hd slices)"
  let ?scans = "scans_bytes sameSOS sameRI slices sliceData"
  note e = emits_writeDQT[OF j used, unfolded Some]
  have ql: "length (segs_bytes quant) \<le> 276" using e by (simp add: emits_def)
  have sof_len: "length ?sof = 10 + 3 * unat (num_frame_components (picParams j))"
    using j by (simp add: length_sof0_payload jpeg_ok_def)
  have huff_len: "length ?huff \<le> 432"
    using emit_writeHuffman(2)[OF j, of "\<lparr>cur_cap = 432, cur_out = []\<rparr>"] by (simp add: room_for_def)
  note tail_len = length_scans_bytes[OF sl(1,2), of sameRI ?ri sameSOS]
  have w1: "writeDQT (appended jfifHeader ?c) (iqMatrix j) (picParams j) (validQuantTablesMask j) =
      Some (Some (appended (jfifHeader @ segs_bytes quant) ?c))"
    using e cap by (simp add: emits_def)
  have w2: "writeSOF0 (appended (jfifHeader @ segs_bytes quant) ?c) (picParams j) =
      Some (appended (jfifHeader @ segs_bytes quant @ ?sof) ?c)"
    using emitD[OF emit_writeSOF0, of "picParams j" "length ?sof"] j cap ql sof_len by (simp add: jpeg_ok_def)
  have w3: "writeHuffman j dc ac (appended (jfifHeader @ segs_bytes quant @ ?sof) ?c) =
      Some (appended (jfifHeader @ segs_bytes quant @ ?sof @ ?huff) ?c)"
    using emit_writeHuffman(1)[OF j] cap ql sof_len by simp
  have w4: "(if sameRI \<and> ?ri \<noteq> 0 then writeDRI (appended bs ?c) ?ri else Some (appended bs ?c)) =
      Some (appended (bs @ dri_bytes sameRI ?ri) ?c)" if "length bs + length (dri_bytes sameRI ?ri) \<le> cap" for bs
    using emitD[OF emit_dri_bytes[of sameRI ?ri], of _ "appended bs ?c"] that by simp
  have w5: "(if sameSOS then writeSOS (appended bs ?c) (hd slices) \<bind> writeEcs (unat cnt) slices sliceData
             else writeScans (unat cnt) slices sameRI sliceData (appended bs ?c)) =
      Some (appended (bs @ ?scans) ?c)" if "length bs + length ?scans \<le> cap" for bs
    using emitD[OF emit_scans[OF sl, of sameSOS sameRI], of _ "appended bs ?c"] that by simp
  show ?thesis
    using cap ql sof_len huff_len tail_len Some
    by (simp add: writeFrame_def w1 w2 w3 w4 w5 frame_body_def with_EOI_def)
qed

text \<open>What holds of the inputs when a frame is returned, and which frame it is.\<close>

definition accepted ::
  "JPEGContext \<Rightarrow> VASliceParameterBufferJPEGBaseline list \<Rightarrow> u8 list \<Rightarrow> u8 \<Rightarrow> u8 \<Rightarrow> u8 \<Rightarrow> bool" where
  "accepted j slices sliceData used dc ac \<longleftrightarrow>
     hasPicParams j \<and> hasIQMatrix j \<and> picture_width (picParams j) \<noteq> 0 \<and> picture_height (picParams j) \<noteq> 0 \<and>
     num_frame_components (picParams j) \<noteq> 0 \<and> num_frame_components (picParams j) \<le> JPEG_MAX_COMPONENTS \<and>
     slices \<noteq> [] \<and> validQuantTablesMask j AND used = used \<and>
     list_all (\<lambda>k. unat (quantiser_table_selector k) < 4 \<and> bit used (unat (quantiser_table_selector k)))
       (take (unat (num_frame_components (picParams j))) (frame_components (picParams j))) \<and>
     list_all (scan_ok sliceData) slices \<and>
     list_all (\<lambda>sl. slice_data_flag sl = VA_SLICE_DATA_FLAG_ALL \<and> num_scan_components sl \<noteq> 0 \<and>
       list_all (component_covered (picParams j) dc ac)
         (take (unat (num_scan_components sl)) (scan_components sl))) slices"

text \<open>The frame, once every check has passed; only the allocator and the 32-bit size can refuse it.\<close>

lemma reconstructJPEG_passed:
  assumes j: "jpeg_ok j" and sl: "unat cnt = length slices" "length slices \<le> 2 ^ 31" "slices \<noteq> []"
    and flags: "hasPicParams j" "hasIQMatrix j" "picture_width (picParams j) \<noteq> 0" "picture_height (picParams j) \<noteq> 0"
      "num_frame_components (picParams j) \<noteq> 0" "\<not> JPEG_MAX_COMPONENTS < num_frame_components (picParams j)"
    and used: "getUsedQuantTablesMask (picParams j) = Some (Some used)" "validQuantTablesMask j AND used = used"
    and ck: "checkSlices (length slices) slices (picParams j) sz 0 0 0 = Some (Some (tot, dc, ac))"
      "list_all (scan_ok sliceData) slices" "unat tot = ecs_total slices"
  shows "\<exists>sameSOS sameRI. compareSlices (length slices - 1) (tl slices) (hd slices) True True = Some (sameSOS, sameRI) \<and>
     reconstructJPEG malloc_ok j slices cnt sliceData sz =
       (if \<not> malloc_ok (maxFrameSize (num_frame_components (picParams j)) cnt tot) then Some None
        else Some (case dqt_segs 4 0 (iqMatrix j) used of
          None \<Rightarrow> None
        | Some quant \<Rightarrow>
            let fr = with_EOI (frame_body j quant (huff_segs j dc ac) sameSOS sameRI slices sliceData)
            in if 2 ^ 32 - 1 < length fr then None else Some fr))"
proof -
  have c0: "cnt \<noteq> 0" using sl(1,3) by auto
  have h: "nth_c slices 0 = Some (hd slices)" using sl(3) by (cases slices) auto
  have "\<exists>a b. compareSlices (length (tl slices)) (tl slices) (hd slices) True True = Some (a, b)"
    using ck(2) sl(3) by (intro compareSlices_returns[of sliceData]) (cases slices; simp)+
  then obtain sameSOS sameRI where cmp:
      "compareSlices (length slices - 1) (tl slices) (hd slices) True True = Some (sameSOS, sameRI)"
    by auto
  let ?max = "maxFrameSize (num_frame_components (picParams j)) cnt tot"
  have mx: "unat ?max = 740 + 3 * unat (num_frame_components (picParams j)) + 22 * length slices + ecs_total slices"
    using unat_maxFrameSize[OF sl(1,2)] ck(3) by blast
  note w = writeFrame_spec[OF j used ck(2) sl(3,1) eq_imp_le[OF mx[symmetric]], of dc ac sameSOS sameRI]
  show ?thesis
    using used ck(1) flags h cmp w c0 sl(1)
    by (simp add: reconstructJPEG_def Let_def split: option.splits)
qed

lemma reconstructJPEG_spec:
  assumes j: "jpeg_ok j" and sl: "list_all slice_ok slices" "unat cnt = length slices" "length slices \<le> 2 ^ 31"
    and sz: "unat sz = length sliceData"
  shows "\<exists>r. reconstructJPEG malloc_ok j slices cnt sliceData sz = Some r \<and>
     (\<forall>frame. r = Some frame \<longrightarrow> (\<exists>used dc ac quant sameSOS sameRI.
        accepted j slices sliceData used dc ac \<and> dqt_segs 4 0 (iqMatrix j) used = Some quant \<and>
        compareSlices (length slices - 1) (tl slices) (hd slices) True True = Some (sameSOS, sameRI) \<and>
        frame = with_EOI (frame_body j quant (huff_segs j dc ac) sameSOS sameRI slices sliceData) \<and>
        length frame < 2 ^ 32))"
    (is "\<exists>r. ?rec = Some r \<and> ?post r")
proof -
  have pic: "picture_ok (picParams j)" using j by (simp add: jpeg_ok_def)
  obtain u where u: "getUsedQuantTablesMask (picParams j) = Some u"
      "\<forall>m'. u = Some m' \<longrightarrow> list_all (\<lambda>k. unat (quantiser_table_selector k) < 4 \<and>
          bit m' (unat (quantiser_table_selector k)))
        (take (unat (num_frame_components (picParams j))) (frame_components (picParams j)))"
    using usedQuantTables_loop_spec[OF num_components_in_range[OF pic], of 0]
    by (auto simp: getUsedQuantTablesMask_def)
  obtain ck where ck: "checkSlices (length slices) slices (picParams j) sz 0 0 0 = Some ck"
     "\<forall>tot dc ac. ck = Some (tot, dc, ac) \<longrightarrow> list_all (scan_ok sliceData) slices \<and>
        list_all (\<lambda>sl. slice_data_flag sl = VA_SLICE_DATA_FLAG_ALL \<and> num_scan_components sl \<noteq> 0 \<and>
          list_all (component_covered (picParams j) dc ac)
            (take (unat (num_scan_components sl)) (scan_components sl))) slices \<and>
        unat tot = ecs_total slices"
    using checkSlices_spec[OF pic sl(1) sz, of 0 0 0] by (auto simp: ecs_total_def)
  show ?thesis
  proof (cases "?rec = Some None")
    case True
    then show ?thesis by blast
  next
    case False
    have c0: "(cnt = 0) = (slices = [])" using sl(2) by (cases slices) (auto simp: unat_eq_0)
    from False obtain used tot dc ac where ok: "u = Some used" "ck = Some (tot, dc, ac)"
        "hasPicParams j" "hasIQMatrix j" "picture_width (picParams j) \<noteq> 0" "picture_height (picParams j) \<noteq> 0"
        "num_frame_components (picParams j) \<noteq> 0" "\<not> JPEG_MAX_COMPONENTS < num_frame_components (picParams j)"
        "validQuantTablesMask j AND used = used" "slices \<noteq> []"
      using u(1) ck(1) sl(2) c0 by (auto simp: reconstructJPEG_def Let_def split: if_splits option.splits)
    have acc: "accepted j slices sliceData used dc ac"
      using ok u(2) ck(2) by (simp add: accepted_def not_less)
    have "list_all (scan_ok sliceData) slices" "unat tot = ecs_total slices" using ck(2) ok(2) by blast+
    from reconstructJPEG_passed[OF j sl(2,3) ok(10) ok(3-8) u(1)[unfolded ok(1)] ok(9) ck(1)[unfolded ok(2)] this]
    obtain sameSOS sameRI where
        cmp: "compareSlices (length slices - 1) (tl slices) (hd slices) True True = Some (sameSOS, sameRI)"
        and eq: "?rec = (if \<not> malloc_ok (maxFrameSize (num_frame_components (picParams j)) cnt tot) then Some None
          else Some (case dqt_segs 4 0 (iqMatrix j) used of None \<Rightarrow> None
          | Some quant \<Rightarrow>
            let fr = with_EOI (frame_body j quant (huff_segs j dc ac) sameSOS sameRI slices sliceData)
            in if 2 ^ 32 - 1 < length fr then None else Some fr))"
      by blast
    with False obtain quant where q: "dqt_segs 4 0 (iqMatrix j) used = Some quant"
      by (auto split: option.splits if_splits)
    let ?fr = "with_EOI (frame_body j quant (huff_segs j dc ac) sameSOS sameRI slices sliceData)"
    from eq q False have "?rec = Some (Some ?fr)" "length ?fr < 2 ^ 32"
      by (auto simp: Let_def split: if_splits)
    then show ?thesis using acc q cmp by blast
  qed
qed

section \<open>Reading a stream back\<close>

text \<open>
  A reference reader of the marker segments of a JPEG stream, independent of the writer:
  after the start marker it reads segments by their length fields up to and including the
  first scan header and returns them with the remaining bytes.
\<close>

function read_segments :: "u8 list \<Rightarrow> (seg list \<times> u8 list) option" where
  "read_segments bs =
     (if length bs < 4 \<or> bs ! 0 \<noteq> 0xFF then None
      else let n = unat (bs ! 2) * 256 + unat (bs ! 3) - 2; rest = drop 4 bs in
        if length rest < n then None
        else if bs ! 1 = 0xDA then Some ([(bs ! 1, take n rest)], drop n rest)
        else do {
          (segs, r) \<leftarrow> read_segments (drop n rest);
          Some ((bs ! 1, take n rest) # segs, r)
        })"
  by pat_completeness auto
termination
  by (relation "measure length") auto

declare read_segments.simps [simp del]

definition read_jpeg :: "u8 list \<Rightarrow> (seg list \<times> u8 list) option" where
  "read_jpeg bs =
     (if length bs < 2 \<or> bs ! 0 \<noteq> 0xFF \<or> bs ! 1 \<noteq> 0xD8 then None else read_segments (drop 2 bs))"

lemma write16be_value:
  "unat (write16be v ! 0) * 256 + unat (write16be v ! 1) = unat v"
proof -
  have v: "unat v < 65536" using unsigned_less[where w = v and ?'a = nat] by simp
  have m: "x AND 255 = x mod 256" for x :: u16
    using take_bit_eq_mask[of 8 x] take_bit_eq_mod[of 8 x] by (simp add: mask_numeral)
  have "unat (write16be v ! 0) = unat v div 256"
    using v less_mult_imp_div_less[of "unat v" 256 256]
    by (simp add: write16be_def unsigned_ucast_eq m unat_mod unat_div drop_bit_eq_div take_bit_nat_eq_self)
  moreover have "unat (write16be v ! 1) = unat v mod 256"
    by (simp add: write16be_def unsigned_ucast_eq m unat_mod take_bit_nat_eq_self)
  ultimately show ?thesis by simp
qed

lemma read_segment:
  assumes "length p \<le> 65533"
  shows "read_segments (segment m p @ rest) =
     (if m = JPEG_SOS then Some ([(m, p)], rest)
      else map_option (\<lambda>(segs, r). ((m, p) # segs, r)) (read_segments rest))"
proof -
  let ?l = "of_nat (2 + length p) :: u16"
  have l: "unat ?l = 2 + length p" using assms by (simp only: unat_of_nat) (simp add: take_bit_nat_eq_self)
  obtain hi lo where w: "write16be ?l = [hi, lo]" by (simp add: write16be_def)
  have n: "unat hi * 256 + unat lo - 2 = length p" using write16be_value[of ?l] l w by simp
  have "segment m p @ rest = JPEG_MARKER # m # hi # lo # p @ rest"
    using w by (simp add: segment_def)
  then show ?thesis
    using n by (subst read_segments.simps)
      (auto simp: JPEG_MARKER_def JPEG_SOS_def numeral_2_eq_2 numeral_3_eq_3 split: bind_splits option.splits)
qed

lemma read_segs:
  assumes "list_all (\<lambda>(m, p). m \<noteq> JPEG_SOS \<and> length p \<le> 65533) ss"
  shows "read_segments (segs_bytes ss @ rest) = map_option (\<lambda>(segs, r). (ss @ segs, r)) (read_segments rest)"
  using assms
proof (induction ss)
  case (Cons a ss)
  then show ?case
    by (cases a) (auto simp: read_segment option.map_comp comp_def split: prod.splits intro: option.map_cong)
qed (simp add: option.map_ident case_prod_unfold)

definition jfif_seg :: seg where
  "jfif_seg = (JPEG_APP0, [0x4A, 0x46, 0x49, 0x46, 0x00, 0x01, 0x01, 0x00, 0x00, 0x01, 0x00, 0x01, 0x00, 0x00])"

lemma jfifHeader_segment: "jfifHeader = [JPEG_MARKER, JPEG_SOI] @ segs_bytes [jfif_seg]"
  by (simp add: jfifHeader_def jfif_seg_def segment_def write16be_def)

text \<open>Which tables the written segments define.\<close>

definition defines_huffman :: "seg list \<Rightarrow> u8 \<Rightarrow> u8 \<Rightarrow> bool" where
  "defines_huffman segs cls sel \<longleftrightarrow> (\<exists>p. (JPEG_DHT, (16 * cls + sel) # p) \<in> set segs)"

definition defines_quant :: "seg list \<Rightarrow> u8 \<Rightarrow> bool" where
  "defines_quant segs sel \<longleftrightarrow> (\<exists>q. (JPEG_DQT, sel # q) \<in> set segs \<and> length q = 64)"

lemma va_seg_cases:
  assumes "va_seg req valid codes vals mx cls idx = Some ss" "idx < 8"
  shows "(\<not> bit req idx \<and> ss = []) \<or> (bit req idx \<and>
           (\<exists>v. ss = [(JPEG_DHT, dht_payload cls (of_nat idx) codes v)] \<and> length v \<le> length vals))"
  using assms by (auto simp: va_seg_def table_bit_test split: if_splits option.splits)

lemma dht_payload_head:
  "dht_payload 0 t b v = t # b @ v" "dht_payload 1 0 b v = 16 # b @ v" "dht_payload 1 1 b v = 17 # b @ v"
  by (simp_all add: dht_payload_def)

lemma std_segs_define: "unat sel \<le> 1 \<Longrightarrow> defines_huffman std_segs 0 sel \<and> defines_huffman std_segs 1 sel"
proof -
  assume "unat sel \<le> 1"
  then have "sel = 0 \<or> sel = 1" by (rule unat_le_1_cases)
  then show ?thesis by (auto simp: defines_huffman_def std_segs_def dht_payload_head)
qed

lemma va_segs_define:
  assumes "va_segs 2 0 hs dc ac vd va = Some ss" "unat sel \<le> 1"
  shows "bit dc (unat sel) \<Longrightarrow> defines_huffman ss 0 sel" "bit ac (unat sel) \<Longrightarrow> defines_huffman ss 1 sel"
proof -
  have sel: "sel = 0 \<or> sel = 1" using assms(2) by (rule unat_le_1_cases)
  obtain d0 a0 d1 a1 where v: "ss = d0 @ a0 @ d1 @ a1"
      "va_seg dc vd (num_dc_codes (hs ! 0)) (dc_values (hs ! 0)) 12 0 0 = Some d0"
      "va_seg ac va (num_ac_codes (hs ! 0)) (ac_values (hs ! 0)) 162 1 0 = Some a0"
      "va_seg dc vd (num_dc_codes (hs ! 1)) (dc_values (hs ! 1)) 12 0 1 = Some d1"
      "va_seg ac va (num_ac_codes (hs ! 1)) (ac_values (hs ! 1)) 162 1 1 = Some a1"
    using assms(1) by (auto simp: numeral_2_eq_2 bind_Some_iff)
  note c = v(2-5)[THEN va_seg_cases]
  show "bit dc (unat sel) \<Longrightarrow> defines_huffman ss 0 sel"
    using sel c(1,3) v(1) by (auto simp: defines_huffman_def dht_payload_head)
  show "bit ac (unat sel) \<Longrightarrow> defines_huffman ss 1 sel"
    using sel c(2,4) v(1) by (auto simp: defines_huffman_def dht_payload_head)
qed

lemma huff_segs_define:
  assumes "unat sel \<le> 1"
  shows "bit dc (unat sel) \<Longrightarrow> defines_huffman (huff_segs j dc ac) 0 sel"
    "bit ac (unat sel) \<Longrightarrow> defines_huffman (huff_segs j dc ac) 1 sel"
  using std_segs_define[OF assms] va_segs_define[OF _ assms]
  by (auto simp: huff_segs_def split: option.splits)

definition short_segs :: "seg list \<Rightarrow> bool" where
  "short_segs ss \<longleftrightarrow> list_all (\<lambda>(m, p). m \<noteq> JPEG_SOS \<and> length p \<le> 65533) ss"

lemma short_segs_simps [simp]:
  "short_segs []" "short_segs ((m, p) # ss) \<longleftrightarrow> m \<noteq> JPEG_SOS \<and> length p \<le> 65533 \<and> short_segs ss"
  "short_segs (ss @ ts) \<longleftrightarrow> short_segs ss \<and> short_segs ts"
  by (simp_all add: short_segs_def)

lemma length_payload_in_segs: "(m, p) \<in> set ss \<Longrightarrow> length p \<le> length (segs_bytes ss)"
  by (induction ss) auto

lemma huff_segs_DHT: "(m, p) \<in> set (huff_segs j dc ac) \<Longrightarrow> m = JPEG_DHT"
proof -
  have "m = JPEG_DHT" if "va_segs n i hs dc ac vd va = Some ss" "(m, p) \<in> set ss" for n i hs vd va ss
    using that
  proof (induction n arbitrary: i ss)
    case (Suc n)
    then show ?case by (auto simp: bind_Some_iff va_seg_def split: if_splits option.splits)
  qed simp
  moreover assume "(m, p) \<in> set (huff_segs j dc ac)"
  ultimately show ?thesis by (auto simp: huff_segs_def std_segs_def split: if_splits option.splits)
qed

lemma short_segs_huff: "jpeg_ok j \<Longrightarrow> short_segs (huff_segs j dc ac)"
  using emit_writeHuffman(2)[of j "\<lparr>cur_cap = 432, cur_out = []\<rparr>" dc ac]
  by (fastforce simp: short_segs_def list_all_iff room_for_def jpeg_markers
      dest: huff_segs_DHT length_payload_in_segs)

lemma short_segs_quant:
  assumes "jpeg_ok j" "dqt_segs 4 0 (iqMatrix j) used = Some quant"
  shows "short_segs quant"
  using assms dqt_segs_filter[OF _ assms(2)]
  by (auto simp: short_segs_def list_all_iff jpeg_ok_def jpeg_markers)

section \<open>The stream that is read back\<close>

lemma ends_with_EOI_append: "ends_with_EOI (bs @ [JPEG_MARKER, JPEG_EOI])"
  by (simp add: ends_with_EOI_def nth_append)

lemma with_EOI_ends: "ends_with_EOI (with_EOI bs)"
  by (simp add: with_EOI_def ends_with_EOI_append)

definition dri_segs :: "bool \<Rightarrow> u16 \<Rightarrow> seg list" where
  "dri_segs wanted ri = (if wanted \<and> ri \<noteq> 0 then [(JPEG_DRI, write16be ri)] else [])"

lemma dri_segs_bytes: "dri_bytes wanted ri = segs_bytes (dri_segs wanted ri)" "short_segs (dri_segs wanted ri)"
  by (simp_all add: dri_bytes_def dri_segs_def jpeg_markers)

text \<open>The segments in front of the entropy-coded data of the first scan.\<close>

definition header_segs ::
  "JPEGContext \<Rightarrow> seg list \<Rightarrow> seg list \<Rightarrow> bool \<Rightarrow> bool \<Rightarrow> VASliceParameterBufferJPEGBaseline \<Rightarrow> seg list" where
  "header_segs j quant huff sameSOS sameRI slice0 =
     jfif_seg # quant @ [(JPEG_SOF0, sof0_payload (picParams j))] @ huff @
     dri_segs (sameRI \<or> \<not> sameSOS) (restart_interval slice0)"

lemma frame_body_header:
  assumes "slices = sl # sls"
  shows "\<exists>rest. frame_body j quant huff sameSOS sameRI slices sliceData =
     [JPEG_MARKER, JPEG_SOI] @ segs_bytes (header_segs j quant huff sameSOS sameRI sl) @
     segment JPEG_SOS (sos_payload sl) @ ecs sliceData sl @ rest"
  using assms
  by (auto simp: frame_body_def header_segs_def jfifHeader_segment dri_segs_bytes scans_bytes_def
      scan_bytes_def dri_segs_def jfif_seg_def)

lemma short_header:
  assumes "jpeg_ok j" "dqt_segs 4 0 (iqMatrix j) used = Some quant"
  shows "short_segs (header_segs j quant (huff_segs j dc ac) sameSOS sameRI sl)"
proof -
  have "length (sof0_payload (picParams j)) \<le> 65533"
    using assms(1) unsigned_less[where w = "num_frame_components (picParams j)" and ?'a = nat]
    by (simp add: jpeg_ok_def length_sof0_payload)
  then show ?thesis
    using short_segs_quant[OF assms] short_segs_huff[OF assms(1)] dri_segs_bytes(2)
    by (simp add: header_segs_def jfif_seg_def jpeg_markers)
qed

lemma read_frame:
  assumes "jpeg_ok j" "dqt_segs 4 0 (iqMatrix j) used = Some quant" "slices = sl # sls" "scan_ok sliceData sl"
  shows "\<exists>rest. read_jpeg (with_EOI (frame_body j quant (huff_segs j dc ac) sameSOS sameRI slices sliceData)) =
     Some (header_segs j quant (huff_segs j dc ac) sameSOS sameRI sl @ [(JPEG_SOS, sos_payload sl)],
           ecs sliceData sl @ rest)"
proof -
  have short: "length (sos_payload sl) \<le> 65533" using length_sos_segment[OF assms(4)] by simp
  obtain rest where b: "with_EOI (frame_body j quant (huff_segs j dc ac) sameSOS sameRI slices sliceData) =
      [JPEG_MARKER, JPEG_SOI] @ segs_bytes (header_segs j quant (huff_segs j dc ac) sameSOS sameRI sl) @
      segment JPEG_SOS (sos_payload sl) @ ecs sliceData sl @ rest"
    using frame_body_header[OF assms(3)] unfolding with_EOI_def by (metis append.assoc)
  show ?thesis
    using read_segs[OF short_header[OF assms(1,2), unfolded short_segs_def]] read_segment[OF short]
    by (simp add: read_jpeg_def b jpeg_markers)
qed

lemma reconstructJPEG_frame:
  assumes "jpeg_ok j" "list_all slice_ok slices" "unat cnt = length slices" "length slices \<le> 2 ^ 31"
    and "unat sz = length sliceData"
    and "reconstructJPEG malloc_ok j slices cnt sliceData sz = Some (Some frame)"
  obtains used dc ac quant sameSOS sameRI sl sls where
    "accepted j slices sliceData used dc ac" "dqt_segs 4 0 (iqMatrix j) used = Some quant"
    "slices = sl # sls" "scan_ok sliceData sl"
    "compareSlices (length sls) sls sl True True = Some (sameSOS, sameRI)"
    "frame = with_EOI (frame_body j quant (huff_segs j dc ac) sameSOS sameRI slices sliceData)"
    "length frame < 2 ^ 32"
proof -
  obtain used dc ac quant sameSOS sameRI where f: "accepted j slices sliceData used dc ac"
     "dqt_segs 4 0 (iqMatrix j) used = Some quant"
     "compareSlices (length slices - 1) (tl slices) (hd slices) True True = Some (sameSOS, sameRI)"
     "frame = with_EOI (frame_body j quant (huff_segs j dc ac) sameSOS sameRI slices sliceData)"
     "length frame < 2 ^ 32"
    using reconstructJPEG_spec[OF assms(1-5), of malloc_ok] assms(6) by auto
  moreover obtain sl sls where "slices = sl # sls" using f(1) by (cases slices) (auto simp: accepted_def)
  moreover from this have "scan_ok sliceData sl" using f(1) by (simp add: accepted_def)
  ultimately show ?thesis using that by simp
qed

section \<open>The context invariant\<close>

definition codec_ok :: "(JPEGContext, 's, 'z) CodecState_scheme \<Rightarrow> bool" where
  "codec_ok ctx \<longleftrightarrow> (\<forall>j. codecData ctx = Some j \<longrightarrow> jpeg_ok j)"

definition iq_ok :: "VAIQMatrixBufferJPEGBaseline \<Rightarrow> bool" where
  "iq_ok buf \<longleftrightarrow> length (load_quantiser_table buf) = 4 \<and> length (quantiser_table buf) = 4 \<and>
     list_all (\<lambda>q. length q = 64) (quantiser_table buf)"

definition hf_ok :: "VAHuffmanTableBufferJPEGBaseline \<Rightarrow> bool" where
  "hf_ok buf \<longleftrightarrow> length (load_huffman_table buf) = 2 \<and> length (huffman_tables buf) = 2 \<and>
     list_all huffman_ok (huffman_tables buf)"

lemma list_all_update: "list_all P xs \<Longrightarrow> P x \<Longrightarrow> list_all P (xs[i := x])"
  by (auto simp: list_all_iff dest: set_update_subset_insert [THEN subsetD])

text \<open>Loading replaces exactly the flagged tables.\<close>

definition quant_after :: "VAIQMatrixBufferJPEGBaseline \<Rightarrow> JPEGContext \<Rightarrow> nat \<Rightarrow> u8 list" where
  "quant_after buf j t = (if load_quantiser_table buf ! t \<noteq> 0 then quantiser_table buf ! t else iqMatrix j ! t)"

lemma loadQuantTables_spec:
  assumes "iq_ok buf" "jpeg_ok j" "tab + n \<le> 4"
  shows "\<exists>j'. loadQuantTables n tab buf j = Some j' \<and> jpeg_ok j' \<and>
     (\<forall>t<4. iqMatrix j' ! t = (if tab \<le> t \<and> t < tab + n then quant_after buf j t else iqMatrix j ! t)) \<and>
     (\<forall>t<8. bit (validQuantTablesMask j') t =
        (bit (validQuantTablesMask j) t \<or> (tab \<le> t \<and> t < tab + n \<and> load_quantiser_table buf ! t \<noteq> 0))) \<and>
     (\<exists>iq m. j' = j\<lparr>iqMatrix := iq, validQuantTablesMask := m\<rparr>)"
  using assms(2,3)
proof (induction n arbitrary: tab j)
  case 0
  then show ?case by (auto intro!: exI[of _ "iqMatrix j"] exI[of _ "validQuantTablesMask j"])
next
  case (Suc n)
  have l: "nth_c (load_quantiser_table buf) tab = Some (load_quantiser_table buf ! tab)"
    "nth_c (quantiser_table buf) tab = Some (quantiser_table buf ! tab)"
    "read_bytes (quantiser_table buf ! tab) 0 64 = Some (quantiser_table buf ! tab)"
    "length (quantiser_table buf ! tab) = 64"
    using assms(1) Suc.prems(2) by (simp_all add: iq_ok_def list_all_length read_bytes_def)
  show ?case
  proof (cases "load_quantiser_table buf ! tab = 0")
    case True
    obtain j' where j': "loadQuantTables n (Suc tab) buf j = Some j'" "jpeg_ok j'"
      "\<forall>t<4. iqMatrix j' ! t = (if Suc tab \<le> t \<and> t < Suc tab + n then quant_after buf j t else iqMatrix j ! t)"
      "\<forall>t<8. bit (validQuantTablesMask j') t =
        (bit (validQuantTablesMask j) t \<or> (Suc tab \<le> t \<and> t < Suc tab + n \<and> load_quantiser_table buf ! t \<noteq> 0))"
      "\<exists>iq m. j' = j\<lparr>iqMatrix := iq, validQuantTablesMask := m\<rparr>"
      using Suc.IH[of j "Suc tab"] Suc.prems by auto
    have "iqMatrix j' ! t = (if tab \<le> t \<and> t < tab + Suc n then quant_after buf j t else iqMatrix j ! t)"
      if "t < 4" for t using j'(3) that True by (cases "t = tab") (auto simp: quant_after_def)
    moreover have "bit (validQuantTablesMask j') t =
        (bit (validQuantTablesMask j) t \<or> (tab \<le> t \<and> t < tab + Suc n \<and> load_quantiser_table buf ! t \<noteq> 0))"
      if "t < 8" for t using j'(4) that True by (cases "t = tab") auto
    ultimately show ?thesis using True l(1) j'(1,2,5) by simp
  next
    case False
    let ?j = "j\<lparr>iqMatrix := (iqMatrix j)[tab := quantiser_table buf ! tab],
        validQuantTablesMask := validQuantTablesMask j OR table_bit tab\<rparr>"
    have len: "length (iqMatrix j) = 4" using Suc.prems(1) by (simp add: jpeg_ok_def)
    have ok: "jpeg_ok ?j"
      using Suc.prems(1) l(4) by (simp add: jpeg_ok_def list_all_update)
    obtain j' where j': "loadQuantTables n (Suc tab) buf ?j = Some j'" "jpeg_ok j'"
      "\<forall>t<4. iqMatrix j' ! t = (if Suc tab \<le> t \<and> t < Suc tab + n then quant_after buf ?j t else iqMatrix ?j ! t)"
      "\<forall>t<8. bit (validQuantTablesMask j') t =
        (bit (validQuantTablesMask ?j) t \<or> (Suc tab \<le> t \<and> t < Suc tab + n \<and> load_quantiser_table buf ! t \<noteq> 0))"
      "\<exists>iq m. j' = ?j\<lparr>iqMatrix := iq, validQuantTablesMask := m\<rparr>"
      using Suc.IH[OF ok, of "Suc tab"] Suc.prems by auto
    have "iqMatrix j' ! t = (if tab \<le> t \<and> t < tab + Suc n then quant_after buf j t else iqMatrix j ! t)"
      if "t < 4" for t using j'(3) that False len Suc.prems(2) by (cases "t = tab") (auto simp: quant_after_def)
    moreover have "bit (validQuantTablesMask j') t =
        (bit (validQuantTablesMask j) t \<or> (tab \<le> t \<and> t < tab + Suc n \<and> load_quantiser_table buf ! t \<noteq> 0))"
      if "t < 8" for t using j'(4) that False by (cases "t = tab") (auto simp: bit_or_iff)
    ultimately show ?thesis using False l j'(1,2,5) by (auto simp: bit_or_iff)
  qed
qed

lemma loadHuffmanTables_ok:
  assumes "hf_ok buf" "jpeg_ok j" "tab + n \<le> 2"
  shows "\<exists>j'. loadHuffmanTables n tab buf j = Some j' \<and> jpeg_ok j'"
  using assms(2,3)
proof (induction n arbitrary: tab j)
  case (Suc n)
  have l: "nth_c (load_huffman_table buf) tab = Some (load_huffman_table buf ! tab)"
    "nth_c (huffman_tables buf) tab = Some (huffman_tables buf ! tab)" "huffman_ok (huffman_tables buf ! tab)"
    using assms(1) Suc.prems(2) by (simp_all add: hf_ok_def list_all_length)
  let ?j = "j\<lparr>huffmanTable := (huffmanTable j)[tab := huffman_tables buf ! tab],
      validHuffmanDcMask := validHuffmanDcMask j OR table_bit tab,
      validHuffmanAcMask := validHuffmanAcMask j OR table_bit tab\<rparr>"
  have "jpeg_ok ?j" using Suc.prems(1) l(3) by (simp add: jpeg_ok_def list_all_update)
  then show ?case
    using Suc.IH[of j "Suc tab"] Suc.IH[of ?j "Suc tab"] Suc.prems l
    by (cases "load_huffman_table buf ! tab = 0") auto
qed auto

section \<open>Properties\<close>

definition example_component :: frame_component where
  "example_component = \<lparr>component_id = 1, h_sampling_factor = 1, v_sampling_factor = 1, quantiser_table_selector = 0\<rparr>"

definition example_jpeg :: JPEGContext where
  "example_jpeg = zero_JPEGContext\<lparr>picParams := \<lparr>picture_width = 16, picture_height = 8,
     frame_components = example_component # replicate 254 example_component, num_frame_components = 1\<rparr>,
     iqMatrix := replicate 4 (replicate 64 1), hasPicParams := True, hasIQMatrix := True, validQuantTablesMask := 1\<rparr>"

definition example_slice :: VASliceParameterBufferJPEGBaseline where
  "example_slice = \<lparr>slice_data_size = 2, slice_data_offset = 1, slice_data_flag = VA_SLICE_DATA_FLAG_ALL,
     scan_components = replicate 4 \<lparr>component_selector = 1, dc_table_selector = 0, ac_table_selector = 1\<rparr>,
     num_scan_components = 1, restart_interval = 3\<rparr>"

definition example_slice' :: VASliceParameterBufferJPEGBaseline where
  "example_slice' = example_slice\<lparr>restart_interval := 0\<rparr>"

lemma example_ok:
  "jpeg_ok example_jpeg" "slice_ok example_slice" "slice_ok example_slice'"
  by (simp_all add: jpeg_ok_def example_jpeg_def zero_JPEGContext_def picture_ok_def huffman_ok_def zero_huffman_def
      list_all_length nth_replicate slice_ok_def example_slice_def example_slice'_def)

lemma example_used: "getUsedQuantTablesMask (picParams example_jpeg) = Some (Some 1)"
  by (simp add: getUsedQuantTablesMask_def example_jpeg_def example_component_def table_bit_def)

lemma example_quant: "\<exists>quant. dqt_segs 4 0 (iqMatrix example_jpeg) 1 = Some quant"
proof -
  have four: "dqt_segs 4 = dqt_segs (Suc (Suc (Suc (Suc 0))))" by (simp add: eval_nat_numeral)
  show ?thesis
    by (simp add: four table_bit_def example_jpeg_def sum_list_replicate del: replicate.simps)
qed

lemma example_check:
  "checkSlices (length [example_slice, example_slice']) [example_slice, example_slice'] (picParams example_jpeg) 3 0 0 0 =
     Some (Some (4, 1, 2))"
proof -
  have four: "replicate 4 x = [x, x, x, x]" for x :: scan_component by (simp add: eval_nat_numeral)
  show ?thesis
    by (simp add: example_slice_def example_slice'_def example_jpeg_def validateSliceAndCollectHuffmanUsage_def
        JPEG_MAX_COMPONENTS_def componentInFrame_def example_component_def table_bit_def four)
qed

text \<open>
  A frame that passes every check is returned: valid inputs, an allocator that succeeds and
  a total size that fits 32 bits.
\<close>

lemma reconstructJPEG_total:
  assumes "jpeg_ok j" "unat cnt = length slices" "length slices \<le> 2 ^ 31" "slices \<noteq> []"
    and "hasPicParams j" "hasIQMatrix j" "picture_width (picParams j) \<noteq> 0" "picture_height (picParams j) \<noteq> 0"
      "num_frame_components (picParams j) \<noteq> 0" "\<not> JPEG_MAX_COMPONENTS < num_frame_components (picParams j)"
    and "getUsedQuantTablesMask (picParams j) = Some (Some used)" "validQuantTablesMask j AND used = used"
    and "checkSlices (length slices) slices (picParams j) sz 0 0 0 = Some (Some (tot, dc, ac))"
      "list_all (scan_ok sliceData) slices" "unat tot = ecs_total slices"
    and "dqt_segs 4 0 (iqMatrix j) used = Some quant" "\<And>n. malloc_ok n"
    and "22 * length slices + ecs_total slices + 752 < 2 ^ 32"
  shows "\<exists>frame. reconstructJPEG malloc_ok j slices cnt sliceData sz = Some (Some frame)"
proof -
  obtain sameSOS sameRI where r: "reconstructJPEG malloc_ok j slices cnt sliceData sz =
       Some (let fr = with_EOI (frame_body j quant (huff_segs j dc ac) sameSOS sameRI slices sliceData)
            in if 2 ^ 32 - 1 < length fr then None else Some fr)"
    using reconstructJPEG_passed[OF assms(1-15), of malloc_ok] assms(16,17) by auto
  have comps: "unat (num_frame_components (picParams j)) \<le> 4"
    using assms(10) by (simp add: JPEG_MAX_COMPONENTS_def word_less_nat_alt not_less)
  have q: "length (segs_bytes quant) \<le> 276"
    using emits_writeDQT[OF assms(1,11,12)] assms(16) by (simp add: emits_def)
  have h: "length (segs_bytes (huff_segs j dc ac)) \<le> 432"
    using emit_writeHuffman(2)[OF assms(1), of "\<lparr>cur_cap = 432, cur_out = []\<rparr>"] by (simp add: room_for_def)
  have s: "length (sof0_payload (picParams j)) \<le> 18"
    using assms(1) comps by (simp add: jpeg_ok_def length_sof0_payload)
  have "length (with_EOI (frame_body j quant (huff_segs j dc ac) sameSOS sameRI slices sliceData)) < 2 ^ 32"
    using q h s length_scans_bytes[OF assms(14,4), of sameRI "restart_interval (hd slices)" sameSOS] assms(18)
    by (simp add: with_EOI_def frame_body_def)
  then show ?thesis using r by (simp add: Let_def)
qed

lemma example_frame:
  "\<exists>frame. reconstructJPEG (\<lambda>_. True) example_jpeg [example_slice, example_slice'] 2 [5, 6, 7] 3 = Some (Some frame)"
proof -
  obtain quant where q: "dqt_segs 4 0 (iqMatrix example_jpeg) 1 = Some quant" using example_quant by blast
  show ?thesis
    by (rule reconstructJPEG_total[OF example_ok(1) _ _ _ _ _ _ _ _ _ example_used _ example_check _ _ q])
      (simp_all add: example_jpeg_def JPEG_MAX_COMPONENTS_def scan_ok_def slice_ok_def example_slice_def
        example_slice'_def ecs_total_def)
qed

text \<open>The hypotheses of the properties below at the example, which has two slices.\<close>

lemmas example_inputs = example_ok(1)

lemma example_inputs':
  "list_all slice_ok [example_slice, example_slice']" "unat (2 :: u32) = length [example_slice, example_slice']"
  "length [example_slice, example_slice'] \<le> 2 ^ 31" "unat (3 :: u32) = length ([5, 6, 7] :: u8 list)"
  using example_ok by simp_all

text \<open>
  C6: for any context and any slices of the C types, the reconstruction returns (with a frame
  or NULL): no write leaves the block of the precomputed size, no table, component or slice
  is read out of range, and a returned frame fits 32 bits.
\<close>

theorem reconstructJPEG_in_bounds:
  assumes "jpeg_ok j" "list_all slice_ok slices" "unat cnt = length slices" "length slices \<le> 2 ^ 31"
    and "unat sz = length sliceData"
  shows "\<exists>r. reconstructJPEG malloc_ok j slices cnt sliceData sz = Some r \<and>
           (\<forall>frame. r = Some frame \<longrightarrow> length frame < 2 ^ 32)"
  using reconstructJPEG_spec[OF assms, of malloc_ok] by blast

theorem reconstructJPEG_in_bounds_witness:
  "\<exists>r. reconstructJPEG (\<lambda>_. True) example_jpeg [example_slice, example_slice'] 2 [5, 6, 7] 3 = Some r"
  using reconstructJPEG_in_bounds[OF example_inputs example_inputs', of "\<lambda>_. True"] by blast

text \<open>
  C5: a returned frame is a JPEG stream that an independent segment reader understands: it
  starts with the start marker and the JFIF header, holds the frame header with the picture
  size and components of the picture parameters, the first scan header is that of the first
  slice and is followed by the bytes of the first slice, and the stream ends with the end
  marker.
\<close>

theorem reconstructJPEG_reads_back:
  assumes "jpeg_ok j" "list_all slice_ok slices" "unat cnt = length slices" "length slices \<le> 2 ^ 31"
    and "unat sz = length sliceData"
    and "reconstructJPEG malloc_ok j slices cnt sliceData sz = Some (Some frame)"
  shows "\<exists>segs rest. read_jpeg frame =
             Some (jfif_seg # segs @ [(JPEG_SOS, sos_payload (hd slices))], ecs sliceData (hd slices) @ rest) \<and>
           filter (\<lambda>(m, p). m = JPEG_SOF0) segs = [(JPEG_SOF0, sof0_payload (picParams j))] \<and>
           ends_with_EOI frame"
proof -
  obtain used dc ac quant sameSOS sameRI sl sls where f: "dqt_segs 4 0 (iqMatrix j) used = Some quant"
    "slices = sl # sls" "scan_ok sliceData sl"
    "frame = with_EOI (frame_body j quant (huff_segs j dc ac) sameSOS sameRI slices sliceData)"
    by (rule reconstructJPEG_frame[OF assms])
  let ?h = "header_segs j quant (huff_segs j dc ac) sameSOS sameRI sl"
  obtain rest where r: "read_jpeg frame = Some (?h @ [(JPEG_SOS, sos_payload sl)], ecs sliceData sl @ rest)"
    using read_frame[OF assms(1) f(1-3)] f(4) by blast
  have no: "filter (\<lambda>(m, p). m = JPEG_SOF0) quant = []"
    "filter (\<lambda>(m, p). m = JPEG_SOF0) (huff_segs j dc ac) = []"
    "filter (\<lambda>(m, p). m = JPEG_SOF0) (dri_segs (sameRI \<or> \<not> sameSOS) (restart_interval sl)) = []"
    using dqt_segs_filter[OF _ f(1)]
    by (auto simp: filter_empty_conv jpeg_markers dri_segs_def dest!: huff_segs_DHT)
  show ?thesis
    using r no f(2,4) with_EOI_ends by (auto simp: header_segs_def)
qed

theorem reconstructJPEG_reads_back_witness:
  "\<exists>frame segs rest. reconstructJPEG (\<lambda>_. True) example_jpeg [example_slice, example_slice'] 2 [5, 6, 7] 3 = Some (Some frame) \<and>
     read_jpeg frame = Some (jfif_seg # segs @ [(JPEG_SOS, sos_payload example_slice)], ecs [5, 6, 7] example_slice @ rest) \<and>
     ends_with_EOI frame"
proof -
  obtain frame where fr: "reconstructJPEG (\<lambda>_. True) example_jpeg [example_slice, example_slice'] 2 [5, 6, 7] 3 = Some (Some frame)"
    using example_frame by blast
  show ?thesis using reconstructJPEG_reads_back[OF example_inputs example_inputs' fr] fr by auto
qed

text \<open>
  C30: in a returned frame every table that is referred to is defined in front of the scan:
  the quantisation table of each frame component (with its 64 entries), and the DC and AC
  Huffman table of every component of every slice.
\<close>

theorem reconstructJPEG_defines_tables:
  assumes "jpeg_ok j" "list_all slice_ok slices" "unat cnt = length slices" "length slices \<le> 2 ^ 31"
    and "unat sz = length sliceData"
    and "reconstructJPEG malloc_ok j slices cnt sliceData sz = Some (Some frame)"
  shows "\<exists>segs rest. read_jpeg frame = Some (segs, rest) \<and>
     (\<forall>k \<in> set (take (unat (num_frame_components (picParams j))) (frame_components (picParams j))).
        defines_quant segs (quantiser_table_selector k)) \<and>
     (\<forall>sl \<in> set slices. \<forall>k \<in> set (take (unat (num_scan_components sl)) (scan_components sl)).
        component_selector k \<in> frame_ids (picParams j) \<and>
        defines_huffman segs 0 (dc_table_selector k) \<and> defines_huffman segs 1 (ac_table_selector k))"
proof -
  obtain used dc ac quant sameSOS sameRI sl sls where f: "accepted j slices sliceData used dc ac"
    "dqt_segs 4 0 (iqMatrix j) used = Some quant"
    "slices = sl # sls" "scan_ok sliceData sl"
    "frame = with_EOI (frame_body j quant (huff_segs j dc ac) sameSOS sameRI slices sliceData)"
    by (rule reconstructJPEG_frame[OF assms])
  let ?segs = "header_segs j quant (huff_segs j dc ac) sameSOS sameRI sl @ [(JPEG_SOS, sos_payload sl)]"
  obtain rest where r: "read_jpeg frame = Some (?segs, ecs sliceData sl @ rest)"
    using read_frame[OF assms(1) f(2-4)] f(5) by blast
  have huff: "defines_huffman ?segs c s" if "defines_huffman (huff_segs j dc ac) c s" for c s
    using that by (auto simp: defines_huffman_def header_segs_def)
  have q: "defines_quant ?segs s" if "unat s < 4" "bit used (unat s)" for s
  proof -
    have "(JPEG_DQT, s # iqMatrix j ! unat s) \<in> set quant"
      using dqt_segs_filter[OF _ f(2)] that by (auto simp: image_iff intro!: bexI[of _ "unat s"])
    then show ?thesis
      using assms(1) that(1) by (auto simp: defines_quant_def header_segs_def jpeg_ok_def list_all_length)
  qed
  show ?thesis
    using r f(1) q huff huff_segs_define
    by (intro exI[of _ ?segs] exI[of _ "ecs sliceData sl @ rest"])
       (auto simp: accepted_def list_all_iff component_covered_def)
qed

theorem reconstructJPEG_defines_tables_witness:
  "\<exists>frame segs rest. reconstructJPEG (\<lambda>_. True) example_jpeg [example_slice, example_slice'] 2 [5, 6, 7] 3 = Some (Some frame) \<and>
     read_jpeg frame = Some (segs, rest) \<and> defines_quant segs 0"
proof -
  obtain frame where fr: "reconstructJPEG (\<lambda>_. True) example_jpeg [example_slice, example_slice'] 2 [5, 6, 7] 3 = Some (Some frame)"
    using example_frame by blast
  show ?thesis using reconstructJPEG_defines_tables[OF example_inputs example_inputs' fr] fr
    by (auto simp: example_jpeg_def example_component_def)
qed

text \<open>
  A frame is only returned for complete and consistent inputs, whatever the buffers
  contain: picture parameters and a quantisation table were received, the picture is not
  empty and has one to four components, every component's quantiser table is one of the four
  and was loaded, and every slice is a whole slice inside the slice data whose components
  occur in the frame.
\<close>

theorem reconstructJPEG_rejects:
  assumes "jpeg_ok j" "list_all slice_ok slices" "unat cnt = length slices" "length slices \<le> 2 ^ 31"
    and "unat sz = length sliceData"
    and "reconstructJPEG malloc_ok j slices cnt sliceData sz = Some (Some frame)"
  shows "hasPicParams j \<and> hasIQMatrix j \<and> picture_width (picParams j) \<noteq> 0 \<and> picture_height (picParams j) \<noteq> 0 \<and>
     unat (num_frame_components (picParams j)) \<in> {1..4} \<and> slices \<noteq> [] \<and>
     (\<forall>k \<in> set (take (unat (num_frame_components (picParams j))) (frame_components (picParams j))).
        unat (quantiser_table_selector k) < 4 \<and> bit (validQuantTablesMask j) (unat (quantiser_table_selector k))) \<and>
     (\<forall>sl \<in> set slices. slice_data_flag sl = VA_SLICE_DATA_FLAG_ALL \<and>
        unat (num_scan_components sl) \<in> {1..4} \<and>
        unat (slice_data_offset sl) + unat (slice_data_size sl) \<le> length sliceData)"
proof -
  obtain used dc ac where a: "accepted j slices sliceData used dc ac"
    by (rule reconstructJPEG_frame[OF assms])
  have sub: "bit used i \<Longrightarrow> bit (validQuantTablesMask j) i" for i
    using a by (metis accepted_def bit_and_iff)
  have nz: "w \<noteq> 0 \<Longrightarrow> Suc 0 \<le> unat w" for w :: u8 by (simp add: Suc_le_eq unat_gt_0)
  show ?thesis
    using a sub nz
    by (auto simp: accepted_def list_all_iff scan_ok_def JPEG_MAX_COMPONENTS_def word_le_nat_alt)
qed

theorem reconstructJPEG_rejects_witness:
  "\<exists>frame. reconstructJPEG (\<lambda>_. True) example_jpeg [example_slice, example_slice'] 2 [5, 6, 7] 3 = Some (Some frame) \<and>
     hasPicParams example_jpeg \<and> bit (validQuantTablesMask example_jpeg) 0"
proof -
  obtain frame where fr: "reconstructJPEG (\<lambda>_. True) example_jpeg [example_slice, example_slice'] 2 [5, 6, 7] 3 = Some (Some frame)"
    using example_frame by blast
  show ?thesis using reconstructJPEG_rejects[OF example_inputs example_inputs' fr] fr
    by (auto simp: example_jpeg_def example_component_def)
qed

text \<open>
  When all slices share the scan header but not the restart interval, the stream
  defines no restart interval at all: the header has no DRI segment and one scan header
  covers the concatenated slices.
\<close>

theorem reconstructJPEG_drops_restart_intervals:
  assumes "jpeg_ok j" "list_all slice_ok slices" "unat cnt = length slices" "length slices \<le> 2 ^ 31"
    and "unat sz = length sliceData"
    and "reconstructJPEG malloc_ok j slices cnt sliceData sz = Some (Some frame)"
    and "compareSlices (length slices - 1) (tl slices) (hd slices) True True = Some (True, False)"
  shows "\<exists>segs rest. read_jpeg frame = Some (segs, concat (map (ecs sliceData) slices) @ rest) \<and>
           (\<forall>p. (JPEG_DRI, p) \<notin> set segs) \<and> (rest = [] \<or> rest = [JPEG_MARKER, JPEG_EOI])"
proof -
  obtain used dc ac quant sameSOS sameRI sl sls where f: "dqt_segs 4 0 (iqMatrix j) used = Some quant"
    "slices = sl # sls" "scan_ok sliceData sl"
    "compareSlices (length sls) sls sl True True = Some (sameSOS, sameRI)"
    "frame = with_EOI (frame_body j quant (huff_segs j dc ac) sameSOS sameRI slices sliceData)"
    by (rule reconstructJPEG_frame[OF assms(1-6)])
  have same: "sameSOS" "\<not> sameRI" using f(2,4) assms(7) by auto
  let ?h = "header_segs j quant (huff_segs j dc ac) sameSOS sameRI sl"
  let ?eoi = "if ends_with_EOI (frame_body j quant (huff_segs j dc ac) sameSOS sameRI slices sliceData) then []
    else [JPEG_MARKER, JPEG_EOI]"
  have "frame = [JPEG_MARKER, JPEG_SOI] @ segs_bytes ?h @ segment JPEG_SOS (sos_payload sl) @
      concat (map (ecs sliceData) slices) @ ?eoi"
    using same f(2,5)
    by (simp add: with_EOI_def frame_body_def header_segs_def jfifHeader_segment dri_segs_bytes
        scans_bytes_def dri_segs_def jfif_seg_def)
  then have "read_jpeg frame = Some (?h @ [(JPEG_SOS, sos_payload sl)], concat (map (ecs sliceData) slices) @ ?eoi)"
    using read_segs[OF short_header[OF assms(1) f(1), unfolded short_segs_def]]
      read_segment[of "sos_payload sl"] length_sos_segment[OF f(3)]
    by (simp add: read_jpeg_def jpeg_markers)
  moreover have "(JPEG_DRI, p) \<notin> set (?h @ [(JPEG_SOS, sos_payload sl)])" for p
    using dqt_segs_filter[OF _ f(1)] same
    by (auto simp: header_segs_def dri_segs_def jfif_seg_def jpeg_markers dest!: huff_segs_DHT)
  ultimately show ?thesis
    by (intro exI[of _ "?h @ [(JPEG_SOS, sos_payload sl)]"] exI[of _ ?eoi]) (auto split: if_splits)
qed

theorem reconstructJPEG_drops_restart_intervals_witness:
  "\<exists>frame segs rest. reconstructJPEG (\<lambda>_. True) example_jpeg [example_slice, example_slice'] 2 [5, 6, 7] 3 = Some (Some frame) \<and>
     restart_interval example_slice = 3 \<and> read_jpeg frame = Some (segs, rest) \<and> (\<forall>p. (JPEG_DRI, p) \<notin> set segs)"
proof -
  obtain frame where fr: "reconstructJPEG (\<lambda>_. True) example_jpeg [example_slice, example_slice'] 2 [5, 6, 7] 3 = Some (Some frame)"
    using example_frame by blast
  have four: "replicate 4 x = [x, x, x, x]" for x :: scan_component by (simp add: eval_nat_numeral)
  have "compareSlices (length [example_slice, example_slice'] - 1) (tl [example_slice, example_slice'])
      (hd [example_slice, example_slice']) True True = Some (True, False)"
    by (simp add: example_slice_def example_slice'_def four)
  from reconstructJPEG_drops_restart_intervals[OF example_inputs example_inputs' fr this]
  have "\<exists>segs rest. read_jpeg frame = Some (segs, rest) \<and> (\<forall>p. (JPEG_DRI, p) \<notin> set segs)" by blast
  then show ?thesis using fr by (auto simp: example_slice_def)
qed

lemma append_frame:
  assumes "collector_wf ctx" "length (ab_bytes (sliceOffsets ctx)) < 2 ^ 61" "frame \<noteq> []"
    and fits: "length (ab_bytes (bitstreamBuffer ctx)) + length frame < 2 ^ 32"
  shows "\<exists>offs bits. appendBuffer (sliceOffsets ctx) (le32 (ucast (ab_size (bitstreamBuffer ctx)))) = Some offs \<and>
     appendBuffer (bitstreamBuffer ctx) frame = Some bits \<and> ab_wf offs \<and> ab_wf bits \<and>
     ab_bytes offs = ab_bytes (sliceOffsets ctx) @ le32 (of_nat (length (ab_bytes (bitstreamBuffer ctx)))) \<and>
     ab_bytes bits = ab_bytes (bitstreamBuffer ctx) @ frame \<and> unat (ucast (ab_size bits) :: u32) = length (ab_bytes bits)"
proof -
  let ?B = "bitstreamBuffer ctx"
  have sizes: "length (ab_bytes ?B) = unat (ab_size ?B)" using assms(1) by (simp add: length_ab_bytes collector_wf_def)
  obtain offs where o: "appendBuffer (sliceOffsets ctx) (le32 (ucast (ab_size ?B))) = Some offs" "ab_wf offs"
      "ab_bytes offs = ab_bytes (sliceOffsets ctx) @ le32 (ucast (ab_size ?B))"
    using bits.append_law[of "sliceOffsets ctx" "le32 (ucast (ab_size ?B))"] assms(1,2) by (auto simp: collector_wf_def)
  obtain b where b: "appendBuffer ?B frame = Some b" "ab_wf b" "ab_bytes b = ab_bytes ?B @ frame"
    using bits.append_law[of ?B frame] assms(1,3) fits by (auto simp: collector_wf_def)
  have off: "le32 (ucast (ab_size ?B)) = le32 (of_nat (length (ab_bytes ?B)))"
    using sizes ucast_of_unat by metis
  have bl: "unat (ucast (ab_size b) :: u32) = length (ab_bytes b)"
    using length_ab_bytes[OF b(2)] b(3) fits by (simp add: unsigned_ucast_eq take_bit_nat_eq_self)
  show ?thesis using o b off bl by auto
qed

lemma frame_fits:
  assumes "collector_wf ctx" "length frame < 2 ^ 32"
  shows "ucast ((2 ^ 32 - 1 :: u32) - of_nat (length frame)) < ab_size (bitstreamBuffer ctx) \<longleftrightarrow>
     2 ^ 32 \<le> length (ab_bytes (bitstreamBuffer ctx)) + length frame"
proof -
  have sizes: "length (ab_bytes (bitstreamBuffer ctx)) = unat (ab_size (bitstreamBuffer ctx))"
    using assms(1) by (simp add: length_ab_bytes collector_wf_def)
  have u: "unat (of_nat (length frame) :: u32) = length frame"
    using assms(2) by (simp only: unat_of_nat) (simp add: take_bit_nat_eq_self)
  have "unat ((2 ^ 32 - 1 :: u32) - of_nat (length frame)) = 2 ^ 32 - 1 - length frame"
    using assms(2) u by (subst unat_sub) (simp_all add: word_le_nat_alt unsigned_minus_1_eq_mask mask_eq_exp_minus_1)
  then show ?thesis using assms(2) sizes by (auto simp: word_less_nat_alt)
qed

text \<open>
  C31: with slices collected, the slice-data handler returns.  When a stream can be rebuilt from the collected
  tables and slices and there is room for it below 4 GiB, the whole stream is appended as a single slice: its
  offset is the old length of the bitstream, and the new length is handed to the decoder.  Otherwise
  nothing changes.
\<close>

theorem copyJPEGSliceData_appends_frame:
  assumes "collector_wf ctx" "codec_ok ctx" "codecData ctx = Some j" "lastSliceParams ctx = Some slices" "list_all slice_ok slices"
    and "unat (lastSliceParamsCount ctx) = length slices" "slices \<noteq> []" "length slices \<le> 2 ^ 31"
    and "unat sz = length data" "length data < 2 ^ 32" "length (ab_bytes (sliceOffsets ctx)) < 2 ^ 61"
  shows "\<exists>r ctx' pp'. reconstructJPEG malloc_ok j slices (lastSliceParamsCount ctx) data (ucast sz) = Some r \<and>
     copyJPEGSliceData malloc_ok ctx data sz pp = Some (ctx', pp') \<and>
     (if \<exists>frame. r = Some frame \<and> length (ab_bytes (bitstreamBuffer ctx)) + length frame < 2 ^ 32
      then collector_wf ctx' \<and> the r \<noteq> [] \<and>
         ab_bytes (bitstreamBuffer ctx') = ab_bytes (bitstreamBuffer ctx) @ the r \<and>
         ab_bytes (sliceOffsets ctx') = ab_bytes (sliceOffsets ctx) @
           le32 (of_nat (length (ab_bytes (bitstreamBuffer ctx)))) \<and>
         unat (nBitstreamDataLen pp') = length (ab_bytes (bitstreamBuffer ctx')) \<and> nNumSlices pp' = 1
      else ctx' = ctx \<and> pp' = pp)"
proof -
  let ?n = "lastSliceParamsCount ctx" and ?B = "bitstreamBuffer ctx"
  have jok: "jpeg_ok j" using assms(2,3) by (simp add: codec_ok_def)
  have small: "\<not> 4294967295 < sz" using assms(9,10) by (simp add: word_less_nat_alt)
  have n0: "?n \<noteq> 0" using assms(6,7) by auto
  have sz: "unat (ucast sz :: u32) = length data"
    using assms(9,10) by (simp add: unsigned_ucast_eq take_bit_nat_eq_self)
  obtain r where r: "reconstructJPEG malloc_ok j slices ?n data (ucast sz) = Some r"
      "\<forall>frame. r = Some frame \<longrightarrow> ends_with_EOI frame \<and> length frame < 2 ^ 32"
    using reconstructJPEG_spec[OF jok assms(5,6,8) sz, of malloc_ok] with_EOI_ends by blast
  note run = copyJPEGSliceData_def getJPEGContext_def assms(3,4) n0 small r(1)
  show ?thesis
  proof (cases "\<exists>frame. r = Some frame \<and> length (ab_bytes ?B) + length frame < 2 ^ 32")
    case True
    then obtain frame where f: "r = Some frame" "length (ab_bytes ?B) + length frame < 2 ^ 32" by blast
    then have fl: "frame \<noteq> []" "length frame < 2 ^ 32" using r(2) by (auto simp: ends_with_EOI_def)
    obtain offs bits where a: "appendBuffer (sliceOffsets ctx) (le32 (ucast (ab_size ?B))) = Some offs" "appendBuffer ?B frame = Some bits"
        "ab_wf offs" "ab_wf bits" "ab_bytes offs = ab_bytes (sliceOffsets ctx) @ le32 (of_nat (length (ab_bytes ?B)))"
        "ab_bytes bits = ab_bytes ?B @ frame" "unat (ucast (ab_size bits) :: u32) = length (ab_bytes bits)"
      using append_frame[OF assms(1,11) fl(1) f(2)] by blast
    have "copyJPEGSliceData malloc_ok ctx data sz pp =
        Some (ctx\<lparr>sliceOffsets := offs, bitstreamBuffer := bits\<rparr>, pp\<lparr>nNumSlices := 1, nBitstreamDataLen := ucast (ab_size bits)\<rparr>)"
      using f(2) a(1,2) frame_fits[OF assms(1) fl(2)] by (simp add: run f(1))
    then show ?thesis using r(1) f fl(1) a by (simp add: collector_wf_def)
  next
    case False
    have "copyJPEGSliceData malloc_ok ctx data sz pp = Some (ctx, pp)"
    proof (cases r)
      case (Some frame)
      then have "ucast ((2 ^ 32 - 1 :: u32) - of_nat (length frame)) < ab_size ?B"
        using frame_fits[OF assms(1), of frame] r(2) False by (simp add: not_less)
      then show ?thesis by (simp add: run Some)
    qed (simp add: run)
    then show ?thesis using r(1) False by simp
  qed
qed

definition example_jpeg_codec :: "(JPEGContext, VASliceParameterBufferJPEGBaseline) CodecState" where
  "example_jpeg_codec = \<lparr>codecData = Some example_jpeg, lastSliceParams = Some [example_slice, example_slice'],
     lastSliceParamsCount = 2, bitstreamBuffer = empty_AppendableBuffer, sliceOffsets = empty_AppendableBuffer,
     firstKeyframeValid = False\<rparr>"

lemma example_jpeg_codec_ok:
  "collector_wf example_jpeg_codec" "codec_ok example_jpeg_codec"
  "lastSliceParams example_jpeg_codec = Some [example_slice, example_slice']"
  "unat (lastSliceParamsCount example_jpeg_codec) = length [example_slice, example_slice']"
  "length (ab_bytes (sliceOffsets example_jpeg_codec)) < 2 ^ 61"
  using example_ok(1) by (simp_all add: collector_wf_def example_jpeg_codec_def codec_ok_def)

theorem copyJPEGSliceData_appends_frame_witness:
  "\<exists>ctx' pp'. copyJPEGSliceData (\<lambda>_. True) example_jpeg_codec [5, 6, 7] 3 zero_pic = Some (ctx', pp') \<and>
     ab_bytes (bitstreamBuffer ctx') \<noteq> [] \<and> ab_bytes (sliceOffsets ctx') = le32 0 \<and> nNumSlices pp' = 1"
proof -
  obtain frame where fr: "reconstructJPEG (\<lambda>_. True) example_jpeg [example_slice, example_slice'] 2 [5, 6, 7] 3 = Some (Some frame)"
    using example_frame by blast
  then have short: "length frame < 2 ^ 32"
    using reconstructJPEG_spec[OF example_inputs example_inputs', of "\<lambda>_. True"] by auto
  have e: "codecData example_jpeg_codec = Some example_jpeg" "lastSliceParamsCount example_jpeg_codec = 2"
    "ab_bytes (bitstreamBuffer example_jpeg_codec) = []" "ab_bytes (sliceOffsets example_jpeg_codec) = []"
    by (simp_all add: example_jpeg_codec_def)
  show ?thesis
    using copyJPEGSliceData_appends_frame[OF example_jpeg_codec_ok(1,2) e(1) example_jpeg_codec_ok(3) example_inputs'(1)
        example_jpeg_codec_ok(4) _ example_inputs'(3) _ _ example_jpeg_codec_ok(5), of 3 "[5, 6, 7]" "\<lambda>_. True" zero_pic] fr short
    by (auto simp: e)
qed

definition current_jpeg :: "(JPEGContext, 's, 'z) CodecState_scheme \<Rightarrow> JPEGContext" where
  "current_jpeg ctx = (case codecData ctx of None \<Rightarrow> zero_JPEGContext | Some j \<Rightarrow> j)"

text \<open>
  Quantisation tables are kept across pictures: a table buffer replaces exactly the
  tables it flags and marks them valid, the others stay, and starting the next picture
  forgets the picture parameters and the slices but none of the tables.
\<close>

theorem copyJPEGIQMatrix_kept:
  assumes "codec_ok ctx" "iq_ok buf"
  shows "\<exists>ctx' j' j''. copyJPEGIQMatrix True ctx buf = Some ctx' \<and> codec_ok ctx' \<and>
     codecData ctx' = Some j' \<and> codecData (jpegBeginPicture ctx') = Some j'' \<and>
     (\<forall>t<4. iqMatrix j' ! t = quant_after buf (current_jpeg ctx) t \<and>
            bit (validQuantTablesMask j') t =
              (bit (validQuantTablesMask (current_jpeg ctx)) t \<or> load_quantiser_table buf ! t \<noteq> 0)) \<and>
     j'' = j'\<lparr>picParams := zero_picture, hasPicParams := False\<rparr> \<and>
     lastSliceParams (jpegBeginPicture ctx') = None \<and> codec_ok (jpegBeginPicture ctx')"
proof -
  have ok: "jpeg_ok (current_jpeg ctx)"
    using assms(1) by (auto simp: current_jpeg_def codec_ok_def split: option.splits)
  obtain j where j: "loadQuantTables 4 0 buf (current_jpeg ctx) = Some j" "jpeg_ok j"
     "\<forall>t<4. iqMatrix j ! t = quant_after buf (current_jpeg ctx) t"
     "\<forall>t<8. bit (validQuantTablesMask j) t =
        (bit (validQuantTablesMask (current_jpeg ctx)) t \<or> (t < 4 \<and> load_quantiser_table buf ! t \<noteq> 0))"
    using loadQuantTables_spec[OF assms(2) ok, of 0 4] by auto
  let ?j = "j\<lparr>hasIQMatrix := validQuantTablesMask j \<noteq> 0\<rparr>"
  have c: "copyJPEGIQMatrix True ctx buf = Some (ctx\<lparr>codecData := Some ?j\<rparr>)"
    using j(1) by (auto simp: copyJPEGIQMatrix_def getJPEGContext_def current_jpeg_def split: option.splits)
  have zp: "picture_ok zero_picture" by (simp add: picture_ok_def zero_picture_def)
  show ?thesis
    using c j zp
    by (simp add: jpegBeginPicture_def resetJPEGPictureState_def getJPEGContext_def codec_ok_def jpeg_ok_def)
qed

definition example_iq :: VAIQMatrixBufferJPEGBaseline where
  "example_iq = \<lparr>load_quantiser_table = [0, 1, 0, 0], quantiser_table = replicate 4 (replicate 64 9)\<rparr>"

theorem copyJPEGIQMatrix_kept_witness:
  "\<exists>ctx' j'. copyJPEGIQMatrix True example_jpeg_codec example_iq = Some ctx' \<and> codecData ctx' = Some j' \<and>
     iqMatrix j' ! 1 = replicate 64 9 \<and> iqMatrix j' ! 0 = replicate 64 1"
proof -
  have "iq_ok example_iq" by (simp add: iq_ok_def example_iq_def list_all_length nth_replicate)
  moreover have "quant_after example_iq (current_jpeg example_jpeg_codec) 1 = replicate 64 9"
    "quant_after example_iq (current_jpeg example_jpeg_codec) 0 = replicate 64 1"
    by (simp_all add: quant_after_def example_iq_def current_jpeg_def example_jpeg_codec_def example_jpeg_def nth_replicate)
  ultimately show ?thesis
    using copyJPEGIQMatrix_kept[OF example_jpeg_codec_ok(2), of example_iq] by force
qed

end
