(* ===== verification/CArray.thy ===== *)
theory CArray
  imports Prelude
begin

text \<open>
  The growable pointer array of \<^verbatim>\<open>src/src/list.c\<close>.  A slot holds a pointer: \<open>None\<close>
  is NULL, \<open>Some x\<close> a pointer to \<open>x\<close>.  The block \<open>arr_buf\<close> is the
  allocated block (empty for a NULL \<^verbatim>\<open>buf\<close>), \<open>arr_size\<close> and \<open>arr_capacity\<close> are
  the 32-bit counters of the struct.  The growth loop is a partial function: it does not
  return when the capacity cannot grow.
\<close>

record 'a Array =
  arr_buf :: "'a option list"
  arr_size :: u32
  arr_capacity :: u32

definition empty_Array :: "'a Array" where
  "empty_Array = \<lparr>arr_buf = [], arr_size = 0, arr_capacity = 0\<rparr>"

section \<open>Operations\<close>

definition ensure_capacity :: "'a Array \<Rightarrow> u32 \<Rightarrow> 'a Array option" where
  "ensure_capacity arr new_capacity =
     (if new_capacity \<le> arr_capacity arr then Some arr
      else do {
        cap \<leftarrow> (if arr_capacity arr = 0 then Some 16
                else grow_by_half (arr_capacity arr) new_capacity);
        guard (arr_capacity arr \<le> cap);
        Some (arr\<lparr>arr_capacity := cap,
                  arr_buf := arr_buf arr @ replicate (unat cap - unat (arr_capacity arr)) None\<rparr>)
      })"

definition store_last :: "'a Array \<Rightarrow> 'a option \<Rightarrow> 'a Array option" where
  "store_last arr p = do {
     guard (unat (arr_size arr) < length (arr_buf arr));
     Some (arr\<lparr>arr_buf := (arr_buf arr)[unat (arr_size arr) := p],
               arr_size := arr_size arr + 1\<rparr>)
   }"

definition add_element :: "'a Array \<Rightarrow> 'a \<Rightarrow> 'a Array option" where
  "add_element arr element = do {
     arr \<leftarrow> ensure_capacity arr (arr_size arr + 1);
     store_last arr (Some element)
   }"

text \<open>The second argument is what \<^verbatim>\<open>calloc\<close> returned.\<close>

definition alloc_and_add_element ::
  "'a Array \<Rightarrow> 'a option \<Rightarrow> ('a option \<times> 'a Array) option" where
  "alloc_and_add_element arr element = do {
     arr \<leftarrow> ensure_capacity arr (arr_size arr + 1);
     arr \<leftarrow> store_last arr element;
     Some (element, arr)
   }"

function shift_down :: "nat \<Rightarrow> nat \<Rightarrow> 'a list \<Rightarrow> 'a list option" where
  "shift_down i n buf =
     (if i < n
      then (if i + 1 < length buf then shift_down (i + 1) n (buf[i := buf ! (i + 1)]) else None)
      else Some buf)"
  by pat_completeness auto
termination
  by (relation "measure (\<lambda>(i, n, buf). n - i)") auto

declare shift_down.simps [simp del]

definition remove_element_at :: "'a Array \<Rightarrow> u32 \<Rightarrow> 'a Array option" where
  "remove_element_at arr index =
     (if arr_size arr \<le> index then Some arr
      else let n = arr_size arr - 1 in do {
        buf \<leftarrow> (if index < n then shift_down (unat index) (unat n) (arr_buf arr)
                else Some (arr_buf arr));
        guard (unat n < length buf);
        Some (arr\<lparr>arr_buf := buf[unat n := None], arr_size := n\<rparr>)
      })"

definition get_size :: "'a Array \<Rightarrow> u32" where
  "get_size arr = arr_size arr"

definition get_element_at :: "'a Array \<Rightarrow> u32 \<Rightarrow> 'a option option" where
  "get_element_at arr index =
     (if arr_buf arr = [] \<or> arr_size arr \<le> index then Some None
      else do {
        guard (unat index < length (arr_buf arr));
        Some (arr_buf arr ! unat index)
      })"

text \<open>The first component of the result is the pointer handed to \<^verbatim>\<open>free\<close>.\<close>

definition remove_and_free_element_at ::
  "'a Array \<Rightarrow> u32 \<Rightarrow> ('a option \<times> 'a Array) option" where
  "remove_and_free_element_at arr index = do {
     element \<leftarrow> get_element_at arr index;
     arr \<leftarrow> remove_element_at arr index;
     Some (element, arr)
   }"

section \<open>Well-formed arrays and their contents\<close>

definition arr_wf :: "'a Array \<Rightarrow> bool" where
  "arr_wf arr \<longleftrightarrow>
     length (arr_buf arr) = unat (arr_capacity arr) \<and>
     arr_size arr \<le> arr_capacity arr \<and>
     (arr_capacity arr = 0 \<or> 16 \<le> arr_capacity arr)"

definition arr_elems :: "'a Array \<Rightarrow> 'a option list" where
  "arr_elems arr = take (unat (arr_size arr)) (arr_buf arr)"

lemma arr_wf_empty [simp]: "arr_wf empty_Array" "arr_elems empty_Array = []"
  by (simp_all add: arr_wf_def empty_Array_def arr_elems_def)

lemma arr_wf_sizes:
  assumes "arr_wf arr"
  shows "unat (arr_size arr) \<le> length (arr_buf arr)"
    and "length (arr_elems arr) = unat (arr_size arr)"
  using assms by (auto simp: arr_wf_def arr_elems_def word_le_nat_alt)

section \<open>Growth terminates\<close>

lemma ensure_capacity_returns:
  assumes "arr_wf arr" "unat need \<le> 2 ^ 31" "arr_capacity arr = 0 \<Longrightarrow> need \<le> 16"
  shows "\<exists>arr'. ensure_capacity arr need = Some arr' \<and> arr_wf arr' \<and>
           need \<le> arr_capacity arr' \<and> arr_size arr' = arr_size arr \<and> arr_elems arr' = arr_elems arr"
proof -
  have grows: "\<exists>cap. (if arr_capacity arr = 0 then Some 16
                     else grow_by_half (arr_capacity arr) need) = Some cap \<and>
                need \<le> cap \<and> arr_capacity arr \<le> cap \<and> 16 \<le> cap"
  proof (cases "arr_capacity arr = 0")
    case True
    then show ?thesis using assms(3) by simp
  next
    case False
    then have "16 \<le> arr_capacity arr" using assms(1) by (simp add: arr_wf_def)
    moreover from this have "2 \<le> unat (arr_capacity arr)"
      by (simp add: word_le_nat_alt)
    ultimately show ?thesis
      using grow_by_half_returns[of "arr_capacity arr" need] assms(2) False by (auto intro: order_trans)
  qed
  show ?thesis
  proof (cases "need \<le> arr_capacity arr")
    case True
    then show ?thesis using assms(1) by (simp add: ensure_capacity_def)
  next
    case False
    with grows obtain cap where cap: "ensure_capacity arr need =
        Some (arr\<lparr>arr_capacity := cap,
          arr_buf := arr_buf arr @ replicate (unat cap - unat (arr_capacity arr)) None\<rparr>)"
      "need \<le> cap" "arr_capacity arr \<le> cap" "16 \<le> cap"
      by (auto simp: ensure_capacity_def)
    then show ?thesis
      using assms(1) arr_wf_sizes[OF assms(1)]
      by (auto simp: arr_wf_def arr_elems_def word_le_nat_alt)
  qed
qed

section \<open>Adding and removing\<close>

lemma shift_down_eq:
  assumes "i \<le> n" "n < length buf"
  shows "shift_down i n buf = Some (take i buf @ take (n - i) (drop (Suc i) buf) @ drop n buf)"
  using assms
proof (induction i n buf rule: shift_down.induct)
  case (1 i n buf)
  show ?case
  proof (cases "i < n")
    case False
    with 1 show ?thesis by (simp add: shift_down.simps)
  next
    case True
    let ?b = "buf[i := buf ! (i + 1)]"
    have il: "i < length buf" using True "1.prems" by linarith
    have tk: "take (i + 1) ?b = take i buf @ [buf ! (i + 1)]"
      using il by (simp add: take_Suc_conv_app_nth)
    have tk2: "take (n - i) (drop (Suc i) buf) = buf ! (i + 1) # take (n - (i + 1)) (drop (Suc (i + 1)) buf)"
      using True 1 by (simp add: Cons_nth_drop_Suc [symmetric] Suc_diff_Suc [symmetric] take_Suc_Cons)
    have "shift_down i n buf = shift_down (i + 1) n ?b"
      using True 1 by (simp add: shift_down.simps [of i n buf])
    also have "\<dots> = Some (take (i + 1) ?b @ take (n - (i + 1)) (drop (Suc (i + 1)) ?b) @ drop n ?b)"
      using True 1 by (intro "1.IH") auto
    also have "\<dots> = Some (take i buf @ take (n - i) (drop (Suc i) buf) @ drop n buf)"
      using True tk tk2 by simp
    finally show ?thesis .
  qed
qed

lemma store_last_spec:
  assumes "arr_wf arr" "arr_size arr + 1 \<le> arr_capacity arr" "unat (arr_size arr) < 2 ^ 31"
  shows "\<exists>arr'. store_last arr p = Some arr' \<and> arr_wf arr' \<and> arr_elems arr' = arr_elems arr @ [p]"
proof -
  have s: "unat (arr_size arr + 1) = Suc (unat (arr_size arr))"
    using assms(3) by (subst unat_add_bounded) simp_all
  have lt: "unat (arr_size arr) < length (arr_buf arr)"
    using assms(1,2) s by (simp add: arr_wf_def word_le_nat_alt)
  then show ?thesis
    using assms(1,2) s
    by (auto simp: store_last_def arr_wf_def arr_elems_def take_Suc_conv_app_nth)
qed

lemma add_element_spec:
  assumes "arr_wf arr" "length (arr_elems arr) < 2 ^ 31"
  shows "\<exists>arr'. add_element arr x = Some arr' \<and> arr_wf arr' \<and>
           arr_elems arr' = arr_elems arr @ [Some x]"
proof -
  have sz: "unat (arr_size arr) < 2 ^ 31" using assms arr_wf_sizes by metis
  then have s: "unat (arr_size arr + 1) = Suc (unat (arr_size arr))"
    by (subst unat_add_bounded) simp_all
  have z: "arr_capacity arr = 0 \<Longrightarrow> arr_size arr + 1 \<le> 16"
    using assms(1) by (simp add: arr_wf_def)
  obtain arr1 where a1: "ensure_capacity arr (arr_size arr + 1) = Some arr1" "arr_wf arr1"
      "arr_size arr + 1 \<le> arr_capacity arr1" "arr_size arr1 = arr_size arr"
      "arr_elems arr1 = arr_elems arr"
    using ensure_capacity_returns[OF assms(1) _ z] s sz by auto
  then show ?thesis
    using store_last_spec[of arr1 "Some x"] sz by (simp add: add_element_def)
qed

lemma remove_element_at_spec:
  assumes "arr_wf arr"
  shows "\<exists>arr'. remove_element_at arr i = Some arr' \<and> arr_wf arr' \<and>
           arr_elems arr' = (if unat i < length (arr_elems arr)
             then take (unat i) (arr_elems arr) @ drop (Suc (unat i)) (arr_elems arr)
             else arr_elems arr)"
proof (cases "arr_size arr \<le> i")
  case True
  then show ?thesis
    using assms arr_wf_sizes[OF assms] by (simp add: remove_element_at_def word_le_nat_alt)
next
  case False
  let ?n = "arr_size arr - 1"
  let ?b = "arr_buf arr"
  from False have i: "unat i < unat (arr_size arr)" by (simp add: word_le_nat_alt)
  have n: "unat ?n = unat (arr_size arr) - 1" using i by (intro unat_minus_one) auto
  have len: "unat ?n < length ?b" using i n arr_wf_sizes[OF assms] by simp
  let ?new = "take (unat i) ?b @ take (unat ?n - unat i) (drop (Suc (unat i)) ?b) @ drop (unat ?n) ?b"
  have "(if i < ?n then shift_down (unat i) (unat ?n) ?b else Some ?b) = Some ?new"
  proof (cases "i < ?n")
    case True
    then show ?thesis using len by (simp add: shift_down_eq word_less_nat_alt)
  next
    case False
    then have "unat i = unat ?n" using i n by (simp add: word_less_nat_alt)
    then show ?thesis using False by simp
  qed
  then have r: "remove_element_at arr i =
      Some (arr\<lparr>arr_buf := ?new[unat ?n := None], arr_size := ?n\<rparr>)"
    using False len i n by (simp add: remove_element_at_def Let_def)
  have ln: "length (take (unat i) ?b @ take (unat ?n - unat i) (drop (Suc (unat i)) ?b)) = unat ?n"
    using i n len by simp
  have "take (length (xs @ ys)) (xs @ ys @ zs) = xs @ ys" for xs ys zs :: "'a option list"
    by simp
  from this [of "take (unat i) ?b" "take (unat ?n - unat i) (drop (Suc (unat i)) ?b)" "drop (unat ?n) ?b"]
  have "take (unat ?n) ?new = take (unat i) ?b @ take (unat ?n - unat i) (drop (Suc (unat i)) ?b)"
    unfolding ln .
  also have "\<dots> = take (unat i) (arr_elems arr) @ drop (Suc (unat i)) (arr_elems arr)"
    using i n by (simp add: arr_elems_def drop_take min_def)
  finally have e: "take (unat ?n) ?new =
      take (unat i) (arr_elems arr) @ drop (Suc (unat i)) (arr_elems arr)" .
  have "unat ?n \<le> unat (arr_capacity arr)"
    using assms n by (simp add: arr_wf_def word_le_nat_alt) linarith
  then show ?thesis
    using r e assms i n len ln arr_wf_sizes[OF assms]
    by (auto simp: arr_wf_def arr_elems_def word_le_nat_alt)
qed

lemma get_element_at_spec:
  assumes "arr_wf arr"
  shows "get_element_at arr i =
           Some (if unat i < length (arr_elems arr) then arr_elems arr ! unat i else None)"
  using assms arr_wf_sizes[OF assms]
  by (auto simp: get_element_at_def word_le_nat_alt arr_elems_def)

section \<open>The interface of the pointer array\<close>

text \<open>
  What the object table, the profile of backing images and the drain loops rely on: the
  array is a list of pointers, adding appends, removing deletes one position, and no
  operation gets stuck.  The bound is the one under which growth is known to return.
\<close>

locale pointer_array =
  fixes elems :: "'arr \<Rightarrow> 'a option list"
    and invar :: "'arr \<Rightarrow> bool"
    and add :: "'arr \<Rightarrow> 'a \<Rightarrow> 'arr option"
    and remove :: "'arr \<Rightarrow> u32 \<Rightarrow> 'arr option"
    and get :: "'arr \<Rightarrow> u32 \<Rightarrow> 'a option option"
  assumes add_law: "invar a \<Longrightarrow> length (elems a) < 2 ^ 31 \<Longrightarrow>
      \<exists>a'. add a x = Some a' \<and> invar a' \<and> elems a' = elems a @ [Some x]"
    and remove_law: "invar a \<Longrightarrow>
      \<exists>a'. remove a i = Some a' \<and> invar a' \<and>
        elems a' = (if unat i < length (elems a)
          then take (unat i) (elems a) @ drop (Suc (unat i)) (elems a) else elems a)"
    and get_law: "invar a \<Longrightarrow>
      get a i = Some (if unat i < length (elems a) then elems a ! unat i else None)"
begin

lemma add_inv:
  assumes "invar a" "length (elems a) < 2 ^ 31" "add a x = Some a'"
  shows "invar a'" "elems a' = elems a @ [Some x]"
  using add_law[OF assms(1,2), of x] assms(3) by auto

lemma remove_inv:
  assumes "invar a" "remove a i = Some a'" "unat i < length (elems a)"
  shows "invar a'" "elems a' = take (unat i) (elems a) @ drop (Suc (unat i)) (elems a)"
  using remove_law[OF assms(1), of i] assms(2,3) by auto

lemma get_after_add:
  assumes "invar a" "length (elems a) < 2 ^ 31"
  shows "\<exists>a'. add a x = Some a' \<and> get a' (of_nat (length (elems a))) = Some (Some x)"
proof -
  obtain a' where a': "add a x = Some a'" "invar a'" "elems a' = elems a @ [Some x]"
    using add_law[OF assms] by blast
  have "unat (of_nat (length (elems a)) :: u32) = length (elems a)"
    using assms(2) by (simp add: unat_of_nat take_bit_nat_eq_self)
  then show ?thesis using a' get_law[OF a'(2)] by simp
qed

lemma add_then_remove:
  assumes "invar a" "length (elems a) < 2 ^ 31"
  shows "\<exists>a' a''. add a x = Some a' \<and> remove a' (of_nat (length (elems a))) = Some a'' \<and>
           elems a'' = elems a"
proof -
  obtain a' where a': "add a x = Some a'" "invar a'" "elems a' = elems a @ [Some x]"
    using add_law[OF assms] by blast
  have "unat (of_nat (length (elems a)) :: u32) = length (elems a)"
    using assms(2) by (simp add: unat_of_nat take_bit_nat_eq_self)
  then show ?thesis using a' remove_law[OF a'(2), of "of_nat (length (elems a))"] by auto
qed

end

interpretation arr: pointer_array arr_elems arr_wf add_element remove_element_at get_element_at
  by unfold_locales (simp_all add: add_element_spec remove_element_at_spec get_element_at_spec)

section \<open>Properties\<close>

text \<open>
  Adding to a well-formed array of fewer than \<open>2\<^sup>3\<^sup>1\<close> elements returns (the
  growth loop ends and no access leaves the block) and appends the element; the array stays
  well formed.
\<close>

theorem add_element_appends:
  assumes "arr_wf arr" "length (arr_elems arr) < 2 ^ 31"
  shows "\<exists>arr'. add_element arr x = Some arr' \<and> arr_wf arr' \<and>
           arr_elems arr' = arr_elems arr @ [Some x]"
  using assms by (rule arr.add_law)

theorem add_element_appends_witness:
  "\<exists>arr'. add_element (empty_Array :: nat Array) 7 = Some arr' \<and> arr_wf arr' \<and>
     arr_elems arr' = [Some 7]"
  using add_element_appends[of "empty_Array :: nat Array" 7] by simp

text \<open>
  Removing index \<open>i\<close> from a well-formed array returns, deletes exactly that
  position and closes the gap, and does nothing when \<open>i\<close> is out of range.
\<close>

theorem remove_element_at_deletes:
  assumes "arr_wf arr"
  shows "\<exists>arr'. remove_element_at arr i = Some arr' \<and> arr_wf arr' \<and>
           arr_elems arr' = (if unat i < length (arr_elems arr)
             then take (unat i) (arr_elems arr) @ drop (Suc (unat i)) (arr_elems arr)
             else arr_elems arr)"
  using assms by (rule arr.remove_law)

definition three_elements :: "nat Array" where
  "three_elements = \<lparr>arr_buf = [Some 1, Some 2, Some 3] @ replicate 13 None,
                     arr_size = 3, arr_capacity = 16\<rparr>"

theorem remove_element_at_deletes_witness:
  "\<exists>arr'. remove_element_at three_elements 1 = Some arr' \<and> arr_wf arr' \<and>
     arr_elems arr' = [Some 1, Some 3]"
  using remove_element_at_deletes[of three_elements 1]
  by (simp add: three_elements_def arr_wf_def arr_elems_def)

end
