(* ===== verification/Objects.thy ===== *)
theory Objects
  imports CArray
begin

text \<open>
  The object table of the driver (\<^verbatim>\<open>src/src/vabackend.c\<close>, \<open>allocateObject\<close> to
  \<open>deleteObject\<close> and the loop of \<open>deleteAllObjects\<close>).  VA-API identifiers name
  entries of a pointer array; an entry points to a heap block that holds the object itself
  (a config, context, surface, buffer or image), so two names of one block alias it.  The
  table is polymorphic in the block contents: the driver extends the record with its own
  fields.  Locks are not modelled: every operation runs under the object mutex.
\<close>

datatype ObjectType =
  OBJECT_TYPE_CONFIG | OBJECT_TYPE_CONTEXT | OBJECT_TYPE_SURFACE | OBJECT_TYPE_BUFFER | OBJECT_TYPE_IMAGE

record Object_t =
  o_type :: ObjectType
  o_id :: u32
  o_obj :: addr

text \<open>\<open>heap\<close> is the store of object blocks, \<open>nextAddr\<close> the allocator's next address.\<close>

record 'p objtab =
  objects :: "Object_t Array"
  nextObjId :: u32
  heap :: "addr \<rightharpoonup> 'p"
  nextAddr :: addr

text \<open>The reserved identifier of VA-API (\<^verbatim>\<open>va.h\<close>).\<close>

definition VA_INVALID_ID :: u32 where
  "VA_INVALID_ID = 0xFFFFFFFF"

section \<open>Operations\<close>

definition calloc_block :: "'p \<Rightarrow> ('p, 'z) objtab_scheme \<Rightarrow> addr \<times> ('p, 'z) objtab_scheme" where
  "calloc_block v d =
     (nextAddr d, d\<lparr>heap := (heap d)(nextAddr d \<mapsto> v), nextAddr := Suc (nextAddr d)\<rparr>)"

definition free_block :: "addr \<Rightarrow> ('p, 'z) objtab_scheme \<Rightarrow> ('p, 'z) objtab_scheme option" where
  "free_block a d =
     (if a = NULL then Some d
      else do {
        guard (heap d a \<noteq> None);
        Some (d\<lparr>heap := (heap d)(a := None)\<rparr>)
      })"

text \<open>The block argument is \<open>None\<close> for \<^verbatim>\<open>allocatePtrSize == 0\<close>, else the zeroed object.\<close>

definition allocateObject ::
  "('p, 'z) objtab_scheme \<Rightarrow> ObjectType \<Rightarrow> 'p option \<Rightarrow> (Object_t \<times> ('p, 'z) objtab_scheme) option" where
  "allocateObject drv ty blk = (
     let (p, drv) = (case blk of None \<Rightarrow> (NULL, drv) | Some v \<Rightarrow> calloc_block v drv);
         newId = nextObjId drv + 1;
         newObj = \<lparr>o_type = ty, o_id = newId, o_obj = p\<rparr>
     in do {
       arr \<leftarrow> add_element (objects drv) newObj;
       Some (newObj, drv\<lparr>objects := arr, nextObjId := newId\<rparr>)
     })"

text \<open>The search loops; a NULL entry would be dereferenced.\<close>

fun find_object :: "(Object_t \<Rightarrow> bool) \<Rightarrow> Object_t option list \<Rightarrow> Object_t option option" where
  "find_object P [] = Some None"
| "find_object P (None # os) = None"
| "find_object P (Some ob # os) = (if P ob then Some (Some ob) else find_object P os)"

fun find_index :: "(Object_t \<Rightarrow> bool) \<Rightarrow> nat \<Rightarrow> Object_t option list \<Rightarrow> (nat \<times> Object_t) option option" where
  "find_index P i [] = Some None"
| "find_index P i (None # os) = None"
| "find_index P i (Some ob # os) = (if P ob then Some (Some (i, ob)) else find_index P (Suc i) os)"

definition getObject :: "('p, 'z) objtab_scheme \<Rightarrow> ObjectType \<Rightarrow> u32 \<Rightarrow> Object_t option option" where
  "getObject drv ty i =
     (if i \<noteq> VA_INVALID_ID
      then find_object (\<lambda>ob. o_id ob = i \<and> o_type ob = ty) (arr_elems (objects drv))
      else Some None)"

definition getObjectPtr :: "('p, 'z) objtab_scheme \<Rightarrow> ObjectType \<Rightarrow> u32 \<Rightarrow> addr option" where
  "getObjectPtr drv ty i =
     (if i \<noteq> VA_INVALID_ID
      then do {
        ob \<leftarrow> getObject drv ty i;
        Some (case ob of None \<Rightarrow> NULL | Some ob \<Rightarrow> o_obj ob)
      }
      else Some NULL)"

definition getObjectByPtr :: "('p, 'z) objtab_scheme \<Rightarrow> ObjectType \<Rightarrow> addr \<Rightarrow> Object_t option option" where
  "getObjectByPtr drv ty p =
     (if p \<noteq> NULL
      then find_object (\<lambda>ob. o_obj ob = p \<and> o_type ob = ty) (arr_elems (objects drv))
      else Some None)"

definition deleteObject :: "('p, 'z) objtab_scheme \<Rightarrow> u32 \<Rightarrow> ('p, 'z) objtab_scheme option" where
  "deleteObject drv i =
     (if i = VA_INVALID_ID then Some drv
      else do {
        hit \<leftarrow> find_index (\<lambda>ob. o_id ob = i) 0 (arr_elems (objects drv));
        case hit of
          None \<Rightarrow> Some drv
        | Some (ix, ob) \<Rightarrow> do {
            arr \<leftarrow> remove_element_at (objects drv) (of_nat ix);
            free_block (o_obj ob) (drv\<lparr>objects := arr\<rparr>)
          }
      })"

text \<open>
  The loop of \<open>deleteAllObjects\<close>: index \<open>idx\<close> runs upwards while the array is
  shortened under it.  \<open>release\<close> is the body's per-type clean-up, which calls libraries with a state
  \<open>w\<close> of their own.
\<close>

partial_function (option) deleteAllObjects_loop ::
  "(Object_t \<Rightarrow> ('p, 'z) objtab_scheme \<Rightarrow> 'w \<Rightarrow> (('p, 'z) objtab_scheme \<times> 'w) option) \<Rightarrow> nat \<Rightarrow>
   ('p, 'z) objtab_scheme \<Rightarrow> 'w \<Rightarrow> (('p, 'z) objtab_scheme \<times> 'w) option" where
  "deleteAllObjects_loop release idx drv w =
     (if idx < unat (arr_size (objects drv))
      then do {
        slot \<leftarrow> get_element_at (objects drv) (of_nat idx);
        ob \<leftarrow> slot;
        (drv, w) \<leftarrow> release ob drv w;
        drv \<leftarrow> deleteObject drv (o_id ob);
        deleteAllObjects_loop release (Suc idx) drv w
      }
      else Some (drv, w))"

section \<open>Invariant and view\<close>

definition table :: "('p, 'z) objtab_scheme \<Rightarrow> Object_t list" where
  "table d = map the (arr_elems (objects d))"

text \<open>
  Identifiers are distinct and were handed out by the counter; blocks are distinct, live and
  below the allocator's next address.
\<close>

definition objtab_wf :: "('p, 'z) objtab_scheme \<Rightarrow> bool" where
  "objtab_wf d \<longleftrightarrow>
     arr_wf (objects d) \<and> list_all (\<lambda>p. p \<noteq> None) (arr_elems (objects d)) \<and>
     distinct (map o_id (table d)) \<and> distinct (map o_obj (table d)) \<and>
     list_all (\<lambda>ob. 0 < o_id ob \<and> o_id ob \<le> nextObjId d \<and> o_id ob \<noteq> VA_INVALID_ID \<and>
                    0 < o_obj ob \<and> o_obj ob < nextAddr d \<and> heap d (o_obj ob) \<noteq> None) (table d) \<and>
     0 < nextAddr d"

text \<open>Room for one more object: neither the array nor the 32-bit counter is exhausted.\<close>

definition objtab_room :: "('p, 'z) objtab_scheme \<Rightarrow> bool" where
  "objtab_room d \<longleftrightarrow> length (table d) < 2 ^ 31 \<and> unat (nextObjId d) + 2 < 2 ^ 32"

definition view :: "('p, 'z) objtab_scheme \<Rightarrow> u32 \<rightharpoonup> ObjectType \<times> addr" where
  "view d = map_of (map (\<lambda>ob. (o_id ob, (o_type ob, o_obj ob))) (table d))"

lemma elems_table: "objtab_wf d \<Longrightarrow> arr_elems (objects d) = map Some (table d)"
  by (auto simp: objtab_wf_def table_def list_all_iff intro!: map_idI [symmetric])

lemma find_object_map: "find_object P (map Some obs) = Some (find P obs)"
  by (induction obs) auto

lemma find_index_map:
  "find_index P i (map Some obs) =
     Some (case find P obs of None \<Rightarrow> None
           | Some ob \<Rightarrow> Some (i + length (takeWhile (\<lambda>x. \<not> P x) obs), ob))"
  by (induction obs arbitrary: i) (auto split: option.splits)

lemma find_Some_split:
  "find P xs = Some x \<Longrightarrow>
     P x \<and> xs = takeWhile (\<lambda>y. \<not> P y) xs @ x # drop (Suc (length (takeWhile (\<lambda>y. \<not> P y) xs))) xs"
  by (induction xs) (auto split: if_splits)

lemma find_takeWhile_less:
  "find P xs = Some x \<Longrightarrow> length (takeWhile (\<lambda>y. \<not> P y) xs) < length xs"
  by (induction xs) (auto split: if_splits)

lemma map_of_find:
  "map_of (map (\<lambda>x. (f x, g x)) xs) k = map_option g (find (\<lambda>x. f x = k) xs)"
  by (induction xs) auto

lemma find_absent:
  assumes "k \<notin> f ` set xs"
  shows "find (\<lambda>x. f x = k \<and> Q x) xs = None" "find (\<lambda>x. f x = k) xs = None"
  using assms by (force simp: find_None_iff)+

lemma map_of_snoc: "k \<notin> fst ` set xs \<Longrightarrow> map_of (xs @ [(k, v)]) = (map_of xs)(k \<mapsto> v)"
  by (induction xs) (auto simp: fun_upd_twist)

lemma find_conj_distinct:
  assumes "distinct (map f xs)"
  shows "find (\<lambda>x. f x = k \<and> Q x) xs = (case find (\<lambda>x. f x = k) xs of
           None \<Rightarrow> None | Some x \<Rightarrow> if Q x then Some x else None)"
  using assms
proof (induction xs)
  case (Cons x xs)
  then show ?case
    by (cases "f x = k") (auto simp: find_absent)
qed simp

section \<open>The three operations refine the view\<close>

lemma getObjectPtr_view:
  assumes "objtab_wf d"
  shows "getObjectPtr d ty i =
           Some (case view d i of None \<Rightarrow> NULL | Some (t, a) \<Rightarrow> if t = ty then a else NULL)"
proof (cases "i = VA_INVALID_ID")
  case True
  then have "view d i = None"
    using assms by (auto simp: view_def map_of_find find_None_iff objtab_wf_def list_all_iff)
  then show ?thesis using True by (simp add: getObjectPtr_def)
next
  case False
  have "getObject d ty i = Some (find (\<lambda>ob. o_id ob = i \<and> o_type ob = ty) (table d))"
    using False assms by (simp add: getObject_def elems_table find_object_map)
  then show ?thesis
    using False assms
    by (auto simp: getObjectPtr_def view_def map_of_find find_conj_distinct objtab_wf_def
        split: option.splits)
qed

lemma allocateObject_view:
  assumes "objtab_wf d" "objtab_room d"
  shows "\<exists>ob d'. allocateObject d ty (Some v) = Some (ob, d') \<and> objtab_wf d' \<and>
           view d (o_id ob) = None \<and> view d' = (view d)(o_id ob \<mapsto> (ty, o_obj ob)) \<and>
           heap d (o_obj ob) = heap d (nextAddr d) \<and> o_obj ob = nextAddr d \<and>
           heap d' = (heap d)(o_obj ob \<mapsto> v) \<and> nextAddr d' = Suc (nextAddr d) \<and>
           o_id ob = nextObjId d + 1 \<and> nextObjId d' = nextObjId d + 1 \<and>
           table d' = table d @ [ob] \<and> o_type ob = ty \<and>
           (\<exists>arr. d' = d\<lparr>heap := heap d', nextAddr := nextAddr d',
                          objects := arr, nextObjId := nextObjId d'\<rparr>)"
proof -
  let ?ob = "\<lparr>o_type = ty, o_id = nextObjId d + 1, o_obj = nextAddr d\<rparr>"
  have idn: "unat (nextObjId d + 1) = Suc (unat (nextObjId d))"
    using assms(2) by (subst unat_add_bounded) (simp_all add: objtab_room_def)
  obtain arr where arr: "add_element (objects d) ?ob = Some arr" "arr_wf arr"
      "arr_elems arr = arr_elems (objects d) @ [Some ?ob]"
    using arr.add_law[of "objects d" ?ob] assms
    by (auto simp: objtab_wf_def objtab_room_def table_def)
  let ?d' = "d\<lparr>heap := (heap d)(nextAddr d \<mapsto> v), nextAddr := Suc (nextAddr d),
                objects := arr, nextObjId := nextObjId d + 1\<rparr>"
  have al: "allocateObject d ty (Some v) = Some (?ob, ?d')"
    using arr(1) by (simp add: allocateObject_def calloc_block_def Let_def)
  have tab: "table ?d' = table d @ [?ob]" using arr(3) by (simp add: table_def)
  have new: "nextObjId d + 1 \<noteq> VA_INVALID_ID" "0 < nextObjId d + 1"
    using idn assms(2)
    by (auto simp: VA_INVALID_ID_def objtab_room_def word_less_nat_alt word_unat_eq_iff)
  have fresh: "nextObjId d + 1 \<notin> o_id ` set (table d)"
    using assms(1) idn by (auto simp: objtab_wf_def list_all_iff word_le_nat_alt)
  have le: "x \<le> nextObjId d + 1" if "x \<le> nextObjId d" for x
    using that idn by (simp add: word_le_nat_alt)
  have wf: "objtab_wf ?d'"
    using assms(1) arr new fresh tab le
    by (auto simp: objtab_wf_def list_all_iff)
  have vw: "view d (nextObjId d + 1) = None"
    using fresh by (force simp: view_def map_of_find find_None_iff)
  have "view ?d' = (view d)(nextObjId d + 1 \<mapsto> (ty, nextAddr d))"
    using fresh tab by (simp add: view_def map_of_snoc image_image del: map_of_append)
  with al wf vw tab show ?thesis by (intro exI[of _ ?ob] exI[of _ ?d']) auto
qed

lemma filter_id_delete:
  assumes "distinct (map f xs)" "find (\<lambda>x. f x = k) xs = Some y"
  shows "take (length (takeWhile (\<lambda>x. f x \<noteq> k) xs)) xs @
           drop (Suc (length (takeWhile (\<lambda>x. f x \<noteq> k) xs))) xs = filter (\<lambda>x. f x \<noteq> k) xs"
  using assms
proof (induction xs)
  case (Cons x xs)
  have "filter (\<lambda>z. f z \<noteq> f x) xs = xs" if "f x \<notin> f ` set xs"
    using that by (auto simp: filter_id_conv image_iff)
  with Cons show ?case by (cases "f x = k") auto
qed simp

lemma find_filter_neq:
  "find (\<lambda>x. f x = k') (filter (\<lambda>x. f x \<noteq> k) xs) = (if k' = k then None else find (\<lambda>x. f x = k') xs)"
  by (induction xs) auto

lemma deleteObject_view:
  assumes "objtab_wf d"
  shows "\<exists>d'. deleteObject d i = Some d' \<and> objtab_wf d' \<and> view d' = (view d)(i := None) \<and>
           table d' = filter (\<lambda>ob. o_id ob \<noteq> i) (table d) \<and>
           heap d' = (case view d i of None \<Rightarrow> heap d | Some (t, a) \<Rightarrow> (heap d)(a := None)) \<and>
           (\<exists>arr. d' = d\<lparr>objects := arr, heap := heap d'\<rparr>)"
proof (cases "find (\<lambda>ob. o_id ob = i) (table d)")
  case None
  then have "filter (\<lambda>ob. o_id ob \<noteq> i) (table d) = table d"
    by (auto simp: find_None_iff filter_id_conv)
  then show ?thesis
    using None assms
    by (auto simp: deleteObject_def elems_table find_index_map view_def map_of_find
        intro!: exI[of _ d] exI[of _ "objects d"])
next
  case (Some ob)
  let ?k = "length (takeWhile (\<lambda>ob. o_id ob \<noteq> i) (table d))"
  note sp = find_Some_split[OF Some]
  have obin: "ob \<in> set (table d)" using Some by (auto simp: find_Some_iff)
  then have ob: "i \<noteq> VA_INVALID_ID" "o_obj ob \<noteq> NULL" "heap d (o_obj ob) \<noteq> None"
    using assms sp by (auto simp: objtab_wf_def list_all_iff)
  have klt: "?k < length (table d)" using find_takeWhile_less[OF Some] by simp
  have len: "length (table d) < 2 ^ 32"
    using assms arr_wf_sizes(2)[of "objects d"] unsigned_less[where w = "arr_size (objects d)"]
    by (simp add: objtab_wf_def table_def)
  have k: "unat (of_nat ?k :: u32) = ?k"
    using klt len by (simp add: unat_of_nat take_bit_nat_eq_self)
  obtain arr where arr: "remove_element_at (objects d) (of_nat ?k) = Some arr" "arr_wf arr"
      "arr_elems arr = take ?k (arr_elems (objects d)) @ drop (Suc ?k) (arr_elems (objects d))"
    using arr.remove_law[of "objects d" "of_nat ?k"] assms klt k
    by (auto simp: objtab_wf_def table_def)
  let ?d' = "d\<lparr>objects := arr, heap := (heap d)(o_obj ob := None)\<rparr>"
  have del: "deleteObject d i = Some ?d'"
    using Some assms arr ob
    by (simp add: deleteObject_def elems_table find_index_map free_block_def)
  have tab: "table ?d' = filter (\<lambda>ob. o_id ob \<noteq> i) (table d)"
    using filter_id_delete[OF _ Some] arr(3) assms
    by (simp add: table_def objtab_wf_def take_map [symmetric] drop_map [symmetric])
  have nn: "list_all (\<lambda>p. p \<noteq> None) (arr_elems arr)"
    using arr(3) assms by (auto simp: objtab_wf_def list_all_iff dest: in_set_takeD in_set_dropD)
  have other: "o_obj ob' \<noteq> o_obj ob" if "ob' \<in> set (table d)" "o_id ob' \<noteq> i" for ob'
  proof
    assume "o_obj ob' = o_obj ob"
    moreover have "inj_on o_obj (set (table d))" using assms by (simp add: objtab_wf_def distinct_map)
    ultimately have "ob' = ob" using that(1) obin by (auto dest: inj_onD)
    with that(2) sp show False by simp
  qed
  have wf: "objtab_wf ?d'"
    using assms arr(2) nn tab other by (auto simp: objtab_wf_def list_all_iff distinct_map_filter)
  have "view ?d' = (view d)(i := None)"
    using tab by (auto simp: view_def map_of_find find_filter_neq fun_eq_iff)
  moreover have "view d i = Some (o_type ob, o_obj ob)"
    using Some by (simp add: view_def map_of_find)
  ultimately show ?thesis using del wf tab by (intro exI[of _ ?d']) auto
qed

section \<open>The interface of the object table\<close>

text \<open>
  What the VA-API entry points rely on: identifiers map to typed blocks, a new identifier
  is fresh, deleting removes one binding, and none of the operations gets stuck.
\<close>

locale object_table =
  fixes bindings :: "'d \<Rightarrow> u32 \<rightharpoonup> ObjectType \<times> addr"
    and invar :: "'d \<Rightarrow> bool"
    and room :: "'d \<Rightarrow> bool"
    and get :: "'d \<Rightarrow> ObjectType \<Rightarrow> u32 \<Rightarrow> addr option"
    and alloc :: "'d \<Rightarrow> ObjectType \<Rightarrow> 'p option \<Rightarrow> (Object_t \<times> 'd) option"
    and del :: "'d \<Rightarrow> u32 \<Rightarrow> 'd option"
  assumes get_law: "invar d \<Longrightarrow>
      get d ty i = Some (case bindings d i of None \<Rightarrow> NULL | Some (t, a) \<Rightarrow> if t = ty then a else NULL)"
    and alloc_law: "invar d \<Longrightarrow> room d \<Longrightarrow>
      \<exists>ob d'. alloc d ty (Some v) = Some (ob, d') \<and> invar d' \<and> bindings d (o_id ob) = None \<and>
        bindings d' = (bindings d)(o_id ob \<mapsto> (ty, o_obj ob))"
    and del_law: "invar d \<Longrightarrow> \<exists>d'. del d i = Some d' \<and> invar d' \<and> bindings d' = (bindings d)(i := None)"
begin

lemma get_new:
  assumes "invar d" "room d"
  shows "\<exists>ob d'. alloc d ty (Some v) = Some (ob, d') \<and> invar d' \<and> get d' ty (o_id ob) = Some (o_obj ob) \<and>
           get d ty' (o_id ob) = Some NULL \<and>
           (\<forall>ty' i. i \<noteq> o_id ob \<longrightarrow> get d' ty' i = get d ty' i)"
proof -
  obtain ob d' where a: "alloc d ty (Some v) = Some (ob, d')" "invar d'" "bindings d (o_id ob) = None"
      "bindings d' = (bindings d)(o_id ob \<mapsto> (ty, o_obj ob))"
    using alloc_law[OF assms] by blast
  then show ?thesis using get_law[OF assms(1)] get_law[OF a(2)] by auto
qed

lemma get_deleted:
  assumes "invar d"
  shows "\<exists>d'. del d i = Some d' \<and> invar d' \<and> get d' ty i = Some NULL \<and>
           (\<forall>ty' j. j \<noteq> i \<longrightarrow> get d' ty' j = get d ty' j)"
proof -
  obtain d' where d: "del d i = Some d'" "invar d'" "bindings d' = (bindings d)(i := None)"
    using del_law[OF assms] by blast
  then show ?thesis using get_law[OF assms] get_law[OF d(2)] by auto
qed

lemma alloc_then_del:
  assumes "invar d" "room d"
  shows "\<exists>ob d' d''. alloc d ty (Some v) = Some (ob, d') \<and> del d' (o_id ob) = Some d'' \<and> invar d'' \<and>
           bindings d'' = bindings d"
proof -
  obtain ob d' where a: "alloc d ty (Some v) = Some (ob, d')" "invar d'" "bindings d (o_id ob) = None"
      "bindings d' = (bindings d)(o_id ob \<mapsto> (ty, o_obj ob))"
    using alloc_law[OF assms] by blast
  obtain d'' where "del d' (o_id ob) = Some d''" "invar d''" "bindings d'' = (bindings d')(o_id ob := None)"
    using del_law[OF a(2)] by blast
  with a show ?thesis by (auto simp: fun_upd_idem)
qed

end

interpretation ot: object_table view objtab_wf objtab_room getObjectPtr allocateObject deleteObject
proof unfold_locales
  fix d :: "('p, 'z) objtab_scheme" and ty i
  assume "objtab_wf d"
  then show "getObjectPtr d ty i =
      Some (case view d i of None \<Rightarrow> NULL | Some (t, a) \<Rightarrow> if t = ty then a else NULL)"
    by (rule getObjectPtr_view)
next
  fix d :: "('p, 'z) objtab_scheme" and ty v
  assume "objtab_wf d" "objtab_room d"
  then show "\<exists>ob d'. allocateObject d ty (Some v) = Some (ob, d') \<and> objtab_wf d' \<and>
      view d (o_id ob) = None \<and> view d' = (view d)(o_id ob \<mapsto> (ty, o_obj ob))"
    using allocateObject_view[of d ty v] by blast
next
  fix d :: "('p, 'z) objtab_scheme" and i
  assume "objtab_wf d"
  then show "\<exists>d'. deleteObject d i = Some d' \<and> objtab_wf d' \<and> view d' = (view d)(i := None)"
    using deleteObject_view[of d i] by blast
qed

section \<open>Deleting while iterating\<close>

fun odd_positions :: "'a list \<Rightarrow> 'a list" where
  "odd_positions [] = []"
| "odd_positions [x] = []"
| "odd_positions (x # y # zs) = y # odd_positions zs"

lemma filter_nth_distinct:
  assumes "distinct (map f xs)" "i < length xs"
  shows "filter (\<lambda>x. f x \<noteq> f (xs ! i)) xs = take i xs @ drop (Suc i) xs"
  using assms
proof (induction xs arbitrary: i)
  case (Cons x xs)
  have "filter (\<lambda>y. f y \<noteq> f x) xs = xs"
    using Cons.prems(1) by (auto simp: filter_id_conv image_iff)
  moreover have "f x \<noteq> f (xs ! j)" if "j < length xs" for j
    using Cons.prems(1) that by (auto simp: image_iff)
  ultimately show ?case
    using Cons by (cases i) auto
qed simp

lemma table_slot:
  assumes "objtab_wf d" "idx < length (table d)"
  shows "idx < unat (arr_size (objects d))"
    and "get_element_at (objects d) (of_nat idx) = Some (Some (table d ! idx))"
proof -
  have sz: "length (table d) = unat (arr_size (objects d))"
    using assms arr_wf_sizes(2)[of "objects d"] by (simp add: objtab_wf_def table_def)
  then show "idx < unat (arr_size (objects d))" using assms(2) by simp
  then have "unat (of_nat idx :: u32) = idx"
    using unsigned_less[where w = "arr_size (objects d)" and ?'a = nat]
    by (simp add: unat_of_nat take_bit_nat_eq_self)
  then show "get_element_at (objects d) (of_nat idx) = Some (Some (table d ! idx))"
    using elems_table[OF assms(1)] assms arr.get_law[of "objects d" "of_nat idx"]
    by (simp add: objtab_wf_def)
qed

lemma deleteAllObjects_loop_alternates:
  assumes step: "\<And>d ob w. P d \<Longrightarrow> ob \<in> set (table d) \<Longrightarrow> \<exists>d1 w1 d2. release ob d w = Some (d1, w1) \<and>
      deleteObject d1 (o_id ob) = Some d2 \<and> P d2 \<and> table d2 = filter (\<lambda>x. o_id x \<noteq> o_id ob) (table d)"
    and wf: "\<And>d. P d \<Longrightarrow> objtab_wf d" and "P d"
  shows "\<exists>d' w'. deleteAllObjects_loop release idx d w = Some (d', w') \<and> P d' \<and>
           table d' = take idx (table d) @ odd_positions (drop idx (table d))"
  using assms(3)
proof (induction "length (table d) - idx" arbitrary: idx d w rule: less_induct)
  case less
  note owf = wf[OF less.prems]
  have sz: "length (table d) = unat (arr_size (objects d))"
    using owf arr_wf_sizes(2)[of "objects d"] by (simp add: objtab_wf_def table_def)
  show ?case
  proof (cases "idx < length (table d)")
    case False
    then show ?thesis
      using less.prems sz by (subst deleteAllObjects_loop.simps) simp
  next
    case True
    let ?ob = "table d ! idx"
    have "?ob \<in> set (table d)" using True by simp
    then obtain d1 w1 d2 where d: "release ?ob d w = Some (d1, w1)" "deleteObject d1 (o_id ?ob) = Some d2" "P d2"
        "table d2 = filter (\<lambda>x. o_id x \<noteq> o_id ?ob) (table d)"
      using step[OF less.prems] by blast
    have t2: "table d2 = take idx (table d) @ drop (Suc idx) (table d)"
      using filter_nth_distinct[of o_id "table d" idx] d(4) owf True by (simp add: objtab_wf_def)
    have step': "deleteAllObjects_loop release idx d w = deleteAllObjects_loop release (Suc idx) d2 w1"
      using table_slot[OF owf True] d(1,2) by (subst deleteAllObjects_loop.simps) simp
    have "length (table d2) - Suc idx < length (table d) - idx" using t2 True by simp
    then obtain d' w' where d': "deleteAllObjects_loop release (Suc idx) d2 w1 = Some (d', w')" "P d'"
        "table d' = take (Suc idx) (table d2) @ odd_positions (drop (Suc idx) (table d2))"
      using less.hyps[OF _ d(3)] by blast
    have "take (Suc idx) (table d2) @ odd_positions (drop (Suc idx) (table d2)) =
        take idx (table d) @ odd_positions (drop idx (table d))"
    proof (cases "Suc idx < length (table d)")
      case True
      then have "drop idx (table d) = table d ! idx # table d ! Suc idx # drop (Suc (Suc idx)) (table d)"
        by (simp add: Cons_nth_drop_Suc)
      then show ?thesis using t2 True by (simp add: take_Suc_conv_app_nth Cons_nth_drop_Suc [symmetric])
    next
      case False
      with True have "Suc idx = length (table d)" by simp
      then show ?thesis using t2 True by (simp add: Cons_nth_drop_Suc [symmetric])
    qed
    with step' d' show ?thesis by simp
  qed
qed

section \<open>Properties\<close>

text \<open>
  Allocating an object in a well-formed table with room returns; the new identifier was
  unused, it resolves under its own type to a fresh block holding the given contents, and
  every other identifier resolves as before.
\<close>

theorem allocateObject_lookup:
  assumes "objtab_wf d" "objtab_room d"
  shows "\<exists>ob d'. allocateObject d ty (Some v) = Some (ob, d') \<and> objtab_wf d' \<and>
           getObjectPtr d' ty (o_id ob) = Some (o_obj ob) \<and> o_obj ob \<noteq> NULL \<and>
           heap d' (o_obj ob) = Some v \<and>
           (\<forall>ty'. getObjectPtr d ty' (o_id ob) = Some NULL) \<and>
           (\<forall>ty' i. i \<noteq> o_id ob \<longrightarrow> getObjectPtr d' ty' i = getObjectPtr d ty' i)"
proof -
  obtain ob d' where a: "allocateObject d ty (Some v) = Some (ob, d')" "objtab_wf d'"
      "view d (o_id ob) = None" "view d' = (view d)(o_id ob \<mapsto> (ty, o_obj ob))"
      "o_obj ob = nextAddr d" "heap d' = (heap d)(o_obj ob \<mapsto> v)"
    using allocateObject_view[OF assms, of ty v] by blast
  moreover have "0 < nextAddr d" using assms(1) by (simp add: objtab_wf_def)
  ultimately show ?thesis
    using ot.get_law[OF assms(1)] ot.get_law[OF a(2)] by auto
qed

definition empty_objtab :: "nat objtab" where
  "empty_objtab = \<lparr>objects = empty_Array, nextObjId = 0, heap = Map.empty, nextAddr = 1\<rparr>"

lemma empty_objtab_wf: "objtab_wf empty_objtab" "objtab_room empty_objtab"
  by (simp_all add: objtab_wf_def objtab_room_def empty_objtab_def table_def)

theorem allocateObject_lookup_witness:
  "\<exists>ob d'. allocateObject empty_objtab OBJECT_TYPE_CONFIG (Some 5) = Some (ob, d') \<and> objtab_wf d' \<and>
     heap d' (o_obj ob) = Some 5 \<and> getObjectPtr d' OBJECT_TYPE_CONFIG (o_id ob) = Some (o_obj ob)"
  using allocateObject_lookup[OF empty_objtab_wf, of OBJECT_TYPE_CONFIG 5] by blast

text \<open>
  C28: deleting an identifier returns, afterwards the identifier resolves to nothing, its
  block is gone, and every other identifier resolves as before; deleting an unknown
  identifier changes nothing that can be looked up.
\<close>

theorem deleteObject_forgets:
  assumes "objtab_wf d"
  shows "\<exists>d'. deleteObject d i = Some d' \<and> objtab_wf d' \<and>
           (\<forall>ty. getObjectPtr d' ty i = Some NULL) \<and>
           (\<forall>ty j. j \<noteq> i \<longrightarrow> getObjectPtr d' ty j = getObjectPtr d ty j) \<and>
           (\<forall>t a. view d i = Some (t, a) \<longrightarrow> heap d' a = None)"
proof -
  obtain d' where d: "deleteObject d i = Some d'" "objtab_wf d'" "view d' = (view d)(i := None)"
      "heap d' = (case view d i of None \<Rightarrow> heap d | Some (t, a) \<Rightarrow> (heap d)(a := None))"
    using deleteObject_view[OF assms] by blast
  then show ?thesis using ot.get_law[OF assms] ot.get_law[OF d(2)] by auto
qed

theorem deleteObject_forgets_witness:
  "\<exists>d'. deleteObject empty_objtab 3 = Some d' \<and> (\<forall>ty. getObjectPtr d' ty 3 = Some NULL)"
  using deleteObject_forgets[OF empty_objtab_wf(1), of 3] by blast

end
