(* ===== verification/Profiles.thy ===== *)
theory Profiles
  imports CArray
begin

text \<open>
  Profiles, codecs and their tables: the enumerations of VA-API, NVDEC and NVENC that the
  driver uses, the codec descriptors of the codec files (\<open>computeXCudaCodec\<close> and the
  supported-profile arrays), the mapping from profiles to decoders and encoders, and the
  profile queries of \<^verbatim>\<open>src/src/vabackend.c\<close>.

  Enumerations keep the names of the headers; a value the source does not name is covered by
  an \<open>other\<close> constructor.  The capability query of the decoder library is a parameter.
\<close>

section \<open>Enumerations\<close>

datatype VAProfile =
  VAProfileMPEG2Simple | VAProfileMPEG2Main
| VAProfileMPEG4Simple | VAProfileMPEG4AdvancedSimple | VAProfileMPEG4Main | VAProfileH263Baseline
| VAProfileVC1Simple | VAProfileVC1Main | VAProfileVC1Advanced
| VAProfileH264Main | VAProfileH264High | VAProfileH264ConstrainedBaseline
| VAProfileH264StereoHigh | VAProfileH264MultiviewHigh
| VAProfileJPEGBaseline
| VAProfileHEVCMain | VAProfileHEVCMain10 | VAProfileHEVCMain12
| VAProfileHEVCMain444 | VAProfileHEVCMain444_10 | VAProfileHEVCMain444_12
| VAProfileVP8Version0_3
| VAProfileVP9Profile0 | VAProfileVP9Profile1 | VAProfileVP9Profile2 | VAProfileVP9Profile3
| VAProfileAV1Profile0 | VAProfileAV1Profile1
| VAProfile_other int

datatype VAEntrypoint =
  VAEntrypointVLD | VAEntrypointEncSlice | VAEntrypointEncSliceLP | VAEntrypoint_other int

datatype cudaVideoCodec =
  cudaVideoCodec_MPEG2 | cudaVideoCodec_MPEG4 | cudaVideoCodec_VC1 | cudaVideoCodec_H264
| cudaVideoCodec_JPEG | cudaVideoCodec_H264_SVC | cudaVideoCodec_H264_MVC | cudaVideoCodec_HEVC
| cudaVideoCodec_VP8 | cudaVideoCodec_VP9 | cudaVideoCodec_AV1 | cudaVideoCodec_NONE

datatype cudaVideoChromaFormat = cudaVideoChromaFormat_Monochrome | cudaVideoChromaFormat_420
  | cudaVideoChromaFormat_422 | cudaVideoChromaFormat_444

datatype VAStatus =
  VA_STATUS_SUCCESS | VA_STATUS_ERROR_OPERATION_FAILED | VA_STATUS_ERROR_ALLOCATION_FAILED
| VA_STATUS_ERROR_INVALID_DISPLAY | VA_STATUS_ERROR_INVALID_CONFIG | VA_STATUS_ERROR_INVALID_CONTEXT
| VA_STATUS_ERROR_INVALID_SURFACE | VA_STATUS_ERROR_INVALID_BUFFER | VA_STATUS_ERROR_INVALID_IMAGE
| VA_STATUS_ERROR_INVALID_IMAGE_FORMAT | VA_STATUS_ERROR_INVALID_PARAMETER
| VA_STATUS_ERROR_UNSUPPORTED_PROFILE | VA_STATUS_ERROR_UNSUPPORTED_ENTRYPOINT
| VA_STATUS_ERROR_UNSUPPORTED_RT_FORMAT | VA_STATUS_ERROR_UNSUPPORTED_BUFFERTYPE
| VA_STATUS_ERROR_UNSUPPORTED_MEMORY_TYPE | VA_STATUS_ERROR_HW_BUSY | VA_STATUS_ERROR_DECODING_ERROR
| VA_STATUS_ERROR_MAX_NUM_EXCEEDED | VA_STATUS_ERROR_SURFACE_BUSY | VA_STATUS_ERROR_UNIMPLEMENTED
| VA_STATUS_ERROR_ATTR_NOT_SUPPORTED | VA_STATUS_ERROR_NOT_ENOUGH_BUFFER | VA_STATUS_ERROR_TIMEDOUT

datatype NVENCSTATUS =
  NV_ENC_SUCCESS | NV_ENC_ERR_NO_ENCODE_DEVICE | NV_ENC_ERR_UNSUPPORTED_DEVICE
| NV_ENC_ERR_INVALID_ENCODERDEVICE | NV_ENC_ERR_INVALID_DEVICE | NV_ENC_ERR_DEVICE_NOT_EXIST
| NV_ENC_ERR_INVALID_PTR | NV_ENC_ERR_INVALID_EVENT | NV_ENC_ERR_INVALID_PARAM | NV_ENC_ERR_INVALID_CALL
| NV_ENC_ERR_OUT_OF_MEMORY | NV_ENC_ERR_ENCODER_NOT_INITIALIZED | NV_ENC_ERR_UNSUPPORTED_PARAM
| NV_ENC_ERR_LOCK_BUSY | NV_ENC_ERR_NOT_ENOUGH_BUFFER | NV_ENC_ERR_INVALID_VERSION | NV_ENC_ERR_MAP_FAILED
| NV_ENC_ERR_NEED_MORE_INPUT | NV_ENC_ERR_ENCODER_BUSY | NV_ENC_ERR_GENERIC | NV_ENC_ERR_other

section \<open>Codec descriptors\<close>

definition computeMPEG2CudaCodec :: "VAProfile \<Rightarrow> cudaVideoCodec" where
  "computeMPEG2CudaCodec profile =
     (if profile = VAProfileMPEG2Main \<or> profile = VAProfileMPEG2Simple
      then cudaVideoCodec_MPEG2 else cudaVideoCodec_NONE)"

definition computeH264CudaCodec :: "VAProfile \<Rightarrow> cudaVideoCodec" where
  "computeH264CudaCodec profile =
     (if profile = VAProfileH264ConstrainedBaseline \<or> profile = VAProfileH264Main \<or> profile = VAProfileH264High
      then cudaVideoCodec_H264 else cudaVideoCodec_NONE)"

definition computeHEVCCudaCodec :: "VAProfile \<Rightarrow> cudaVideoCodec" where
  "computeHEVCCudaCodec profile =
     (if profile \<in> {VAProfileHEVCMain, VAProfileHEVCMain10, VAProfileHEVCMain12, VAProfileHEVCMain444,
                     VAProfileHEVCMain444_10, VAProfileHEVCMain444_12}
      then cudaVideoCodec_HEVC else cudaVideoCodec_NONE)"

definition computeVC1CudaCodec :: "VAProfile \<Rightarrow> cudaVideoCodec" where
  "computeVC1CudaCodec profile =
     (if profile = VAProfileVC1Advanced \<or> profile = VAProfileVC1Main \<or> profile = VAProfileVC1Simple
      then cudaVideoCodec_VC1 else cudaVideoCodec_NONE)"

definition computeVP8CudaCodec :: "VAProfile \<Rightarrow> cudaVideoCodec" where
  "computeVP8CudaCodec profile =
     (if profile = VAProfileVP8Version0_3 then cudaVideoCodec_VP8 else cudaVideoCodec_NONE)"

definition computeVP9CudaCodec :: "VAProfile \<Rightarrow> cudaVideoCodec" where
  "computeVP9CudaCodec profile =
     (if profile \<in> {VAProfileVP9Profile0, VAProfileVP9Profile1, VAProfileVP9Profile2, VAProfileVP9Profile3}
      then cudaVideoCodec_VP9 else cudaVideoCodec_NONE)"

definition computeAV1CudaCodec :: "VAProfile \<Rightarrow> cudaVideoCodec" where
  "computeAV1CudaCodec profile =
     (if profile = VAProfileAV1Profile0 \<or> profile = VAProfileAV1Profile1
      then cudaVideoCodec_AV1 else cudaVideoCodec_NONE)"

definition computeJPEGCudaCodec :: "VAProfile \<Rightarrow> cudaVideoCodec" where
  "computeJPEGCudaCodec profile =
     (if profile = VAProfileJPEGBaseline then cudaVideoCodec_JPEG else cudaVideoCodec_NONE)"

text \<open>The MPEG-4 descriptor sits in the section of disabled codecs.\<close>

definition computeMPEG4CudaCodec :: "VAProfile \<Rightarrow> cudaVideoCodec" where
  "computeMPEG4CudaCodec profile =
     (if profile \<in> {VAProfileH263Baseline, VAProfileMPEG4Main, VAProfileMPEG4Simple, VAProfileMPEG4AdvancedSimple}
      then cudaVideoCodec_MPEG4 else cudaVideoCodec_NONE)"

record NVCodec =
  computeCudaCodec :: "VAProfile \<Rightarrow> cudaVideoCodec"
  supportedProfiles :: "VAProfile list"

definition av1Codec :: NVCodec where
  "av1Codec = \<lparr>computeCudaCodec = computeAV1CudaCodec, supportedProfiles = [VAProfileAV1Profile0, VAProfileAV1Profile1]\<rparr>"

definition h264Codec :: NVCodec where
  "h264Codec = \<lparr>computeCudaCodec = computeH264CudaCodec,
     supportedProfiles = [VAProfileH264ConstrainedBaseline, VAProfileH264Main, VAProfileH264High]\<rparr>"

definition hevcCodec :: NVCodec where
  "hevcCodec = \<lparr>computeCudaCodec = computeHEVCCudaCodec,
     supportedProfiles = [VAProfileHEVCMain, VAProfileHEVCMain10, VAProfileHEVCMain12, VAProfileHEVCMain444,
       VAProfileHEVCMain444_10, VAProfileHEVCMain444_12]\<rparr>"

definition jpegCodec :: NVCodec where
  "jpegCodec = \<lparr>computeCudaCodec = computeJPEGCudaCodec, supportedProfiles = [VAProfileJPEGBaseline]\<rparr>"

definition mpeg2Codec :: NVCodec where
  "mpeg2Codec = \<lparr>computeCudaCodec = computeMPEG2CudaCodec, supportedProfiles = [VAProfileMPEG2Main, VAProfileMPEG2Simple]\<rparr>"

definition vc1Codec :: NVCodec where
  "vc1Codec = \<lparr>computeCudaCodec = computeVC1CudaCodec,
     supportedProfiles = [VAProfileVC1Simple, VAProfileVC1Main, VAProfileVC1Advanced]\<rparr>"

definition vp8Codec :: NVCodec where
  "vp8Codec = \<lparr>computeCudaCodec = computeVP8CudaCodec, supportedProfiles = [VAProfileVP8Version0_3]\<rparr>"

definition vp9Codec :: NVCodec where
  "vp9Codec = \<lparr>computeCudaCodec = computeVP9CudaCodec,
     supportedProfiles = [VAProfileVP9Profile0, VAProfileVP9Profile1, VAProfileVP9Profile2, VAProfileVP9Profile3]\<rparr>"

text \<open>The contents of the linker section \<^verbatim>\<open>nvd_codecs\<close>; the linker fixes the order.\<close>

definition nvd_codecs :: "NVCodec list" where
  "nvd_codecs = [av1Codec, h264Codec, hevcCodec, jpegCodec, mpeg2Codec, vc1Codec, vp8Codec, vp9Codec]"

lemmas codec_defs = av1Codec_def h264Codec_def hevcCodec_def jpegCodec_def mpeg2Codec_def vc1Codec_def
  vp8Codec_def vp9Codec_def computeAV1CudaCodec_def computeH264CudaCodec_def computeHEVCCudaCodec_def
  computeJPEGCudaCodec_def computeMPEG2CudaCodec_def computeVC1CudaCodec_def computeVP8CudaCodec_def
  computeVP9CudaCodec_def

fun first_codec :: "NVCodec list \<Rightarrow> VAProfile \<Rightarrow> cudaVideoCodec" where
  "first_codec [] profile = cudaVideoCodec_NONE"
| "first_codec (c # cs) profile =
     (let cvc = computeCudaCodec c profile in
      if cvc \<noteq> cudaVideoCodec_NONE then cvc else first_codec cs profile)"

definition vaToCuCodec :: "VAProfile \<Rightarrow> cudaVideoCodec" where
  "vaToCuCodec profile = first_codec nvd_codecs profile"

section \<open>Encoder tables\<close>

fun nvencToVaStatus :: "NVENCSTATUS \<Rightarrow> VAStatus" where
  "nvencToVaStatus NV_ENC_SUCCESS = VA_STATUS_SUCCESS"
| "nvencToVaStatus NV_ENC_ERR_OUT_OF_MEMORY = VA_STATUS_ERROR_ALLOCATION_FAILED"
| "nvencToVaStatus NV_ENC_ERR_INVALID_PARAM = VA_STATUS_ERROR_INVALID_PARAMETER"
| "nvencToVaStatus NV_ENC_ERR_INVALID_PTR = VA_STATUS_ERROR_INVALID_PARAMETER"
| "nvencToVaStatus NV_ENC_ERR_ENCODER_NOT_INITIALIZED = VA_STATUS_ERROR_INVALID_CONTEXT"
| "nvencToVaStatus NV_ENC_ERR_NO_ENCODE_DEVICE = VA_STATUS_ERROR_UNSUPPORTED_ENTRYPOINT"
| "nvencToVaStatus NV_ENC_ERR_UNSUPPORTED_DEVICE = VA_STATUS_ERROR_UNSUPPORTED_ENTRYPOINT"
| "nvencToVaStatus _ = VA_STATUS_ERROR_OPERATION_FAILED"

definition isEncodeProfile :: "VAProfile \<Rightarrow> bool" where
  "isEncodeProfile profile \<longleftrightarrow> profile \<in> {VAProfileH264ConstrainedBaseline, VAProfileH264Main, VAProfileH264High,
     VAProfileHEVCMain, VAProfileHEVCMain10}"

datatype codec_guid = NV_ENC_CODEC_H264_GUID | NV_ENC_CODEC_HEVC_GUID

datatype profile_guid = NV_ENC_H264_PROFILE_BASELINE_GUID | NV_ENC_H264_PROFILE_MAIN_GUID
  | NV_ENC_H264_PROFILE_HIGH_GUID | NV_ENC_HEVC_PROFILE_MAIN_GUID | NV_ENC_HEVC_PROFILE_MAIN10_GUID

fun profileToNvencGuids :: "VAProfile \<Rightarrow> (codec_guid \<times> profile_guid \<times> bool) option" where
  "profileToNvencGuids VAProfileH264ConstrainedBaseline = Some (NV_ENC_CODEC_H264_GUID, NV_ENC_H264_PROFILE_BASELINE_GUID, False)"
| "profileToNvencGuids VAProfileH264Main = Some (NV_ENC_CODEC_H264_GUID, NV_ENC_H264_PROFILE_MAIN_GUID, False)"
| "profileToNvencGuids VAProfileH264High = Some (NV_ENC_CODEC_H264_GUID, NV_ENC_H264_PROFILE_HIGH_GUID, False)"
| "profileToNvencGuids VAProfileHEVCMain = Some (NV_ENC_CODEC_HEVC_GUID, NV_ENC_HEVC_PROFILE_MAIN_GUID, True)"
| "profileToNvencGuids VAProfileHEVCMain10 = Some (NV_ENC_CODEC_HEVC_GUID, NV_ENC_HEVC_PROFILE_MAIN10_GUID, True)"
| "profileToNvencGuids _ = None"

section \<open>Profile arrays\<close>

definition MAX_PROFILES :: nat where
  "MAX_PROFILES = 32"

text \<open>
  \<open>profile_list\<close> and its counter: the first \<open>n\<close> slots of the array are in use.
  \<open>pl_push\<close> is \<^verbatim>\<open>list[n++] = p\<close>; past the end of the array it is stuck.
\<close>

type_synonym plist = "VAProfile list \<times> nat"

definition pl_push :: "VAProfile \<Rightarrow> plist \<Rightarrow> plist option" where
  "pl_push p = (\<lambda>(arr, n). do {
     guard (n < length arr);
     Some (arr[n := p], n + 1)
   })"

definition appendProfileIfMissing :: "VAProfile \<Rightarrow> plist \<Rightarrow> plist option" where
  "appendProfileIfMissing profile = (\<lambda>(arr, n).
     if profile \<in> set (take n arr) then Some (arr, n)
     else if MAX_PROFILES \<le> n then Some (arr, n)
     else pl_push profile (arr, n))"

text \<open>The answer of \<^verbatim>\<open>cuvidGetDecoderCaps\<close>; \<open>None\<close> is a CUDA error.\<close>

record decode_caps =
  bIsSupported :: nat
  nMinWidth :: u32
  nMinHeight :: u32
  nMaxWidth :: u32
  nMaxHeight :: u32

type_synonym caps_query = "cudaVideoCodec \<Rightarrow> nat \<Rightarrow> cudaVideoChromaFormat \<Rightarrow> decode_caps option"

text \<open>The first component is the return value, the second what is stored through the pointers.\<close>

definition doesGPUSupportCodec ::
  "caps_query \<Rightarrow> cudaVideoCodec \<Rightarrow> nat \<Rightarrow> cudaVideoChromaFormat \<Rightarrow> bool \<times> (u32 \<times> u32) option" where
  "doesGPUSupportCodec caps codec bitDepth chroma =
     (case caps codec bitDepth chroma of
        None \<Rightarrow> (False, None)
      | Some c \<Rightarrow> (bIsSupported c = 1, Some (nMaxWidth c, nMaxHeight c)))"

fun push_all :: "VAProfile list \<Rightarrow> plist \<Rightarrow> plist option" where
  "push_all [] pl = Some pl"
| "push_all (p # ps) pl = do { pl \<leftarrow> pl_push p pl; push_all ps pl }"

definition push_if ::
  "caps_query \<Rightarrow> cudaVideoCodec \<Rightarrow> nat \<Rightarrow> cudaVideoChromaFormat \<Rightarrow> VAProfile list \<Rightarrow> plist \<Rightarrow> plist option" where
  "push_if caps codec bitDepth chroma ps pl =
     (if fst (doesGPUSupportCodec caps codec bitDepth chroma) then push_all ps pl else Some pl)"

definition collectProfiles :: "caps_query \<Rightarrow> bool \<Rightarrow> bool \<Rightarrow> plist \<Rightarrow> plist option" where
  "collectProfiles caps supports16Bit supports444 pl = do {
     pl \<leftarrow> push_if caps cudaVideoCodec_MPEG2 8 cudaVideoChromaFormat_420 [VAProfileMPEG2Simple, VAProfileMPEG2Main] pl;
     pl \<leftarrow> push_if caps cudaVideoCodec_MPEG4 8 cudaVideoChromaFormat_420
            [VAProfileMPEG4Simple, VAProfileMPEG4AdvancedSimple, VAProfileMPEG4Main] pl;
     pl \<leftarrow> push_if caps cudaVideoCodec_VC1 8 cudaVideoChromaFormat_420
            [VAProfileVC1Simple, VAProfileVC1Main, VAProfileVC1Advanced] pl;
     pl \<leftarrow> push_if caps cudaVideoCodec_H264 8 cudaVideoChromaFormat_420
            [VAProfileH264Main, VAProfileH264High, VAProfileH264ConstrainedBaseline] pl;
     pl \<leftarrow> push_if caps cudaVideoCodec_JPEG 8 cudaVideoChromaFormat_420 [VAProfileJPEGBaseline] pl;
     pl \<leftarrow> push_if caps cudaVideoCodec_H264_SVC 8 cudaVideoChromaFormat_420 [VAProfileH264StereoHigh] pl;
     pl \<leftarrow> push_if caps cudaVideoCodec_H264_MVC 8 cudaVideoChromaFormat_420 [VAProfileH264MultiviewHigh] pl;
     pl \<leftarrow> push_if caps cudaVideoCodec_HEVC 8 cudaVideoChromaFormat_420 [VAProfileHEVCMain] pl;
     pl \<leftarrow> push_if caps cudaVideoCodec_VP8 8 cudaVideoChromaFormat_420 [VAProfileVP8Version0_3] pl;
     pl \<leftarrow> push_if caps cudaVideoCodec_VP9 8 cudaVideoChromaFormat_420 [VAProfileVP9Profile0] pl;
     pl \<leftarrow> push_if caps cudaVideoCodec_AV1 8 cudaVideoChromaFormat_420 [VAProfileAV1Profile0] pl;
     pl \<leftarrow> (if supports16Bit then do {
              pl \<leftarrow> push_if caps cudaVideoCodec_HEVC 10 cudaVideoChromaFormat_420 [VAProfileHEVCMain10] pl;
              pl \<leftarrow> push_if caps cudaVideoCodec_HEVC 12 cudaVideoChromaFormat_420 [VAProfileHEVCMain12] pl;
              push_if caps cudaVideoCodec_VP9 10 cudaVideoChromaFormat_420 [VAProfileVP9Profile2] pl
            } else Some pl);
     (if supports444 then do {
        pl \<leftarrow> push_if caps cudaVideoCodec_HEVC 8 cudaVideoChromaFormat_444 [VAProfileHEVCMain444] pl;
        pl \<leftarrow> push_if caps cudaVideoCodec_VP9 8 cudaVideoChromaFormat_444 [VAProfileVP9Profile1] pl;
        pl \<leftarrow> push_if caps cudaVideoCodec_AV1 8 cudaVideoChromaFormat_444 [VAProfileAV1Profile1] pl;
        if supports16Bit then do {
          pl \<leftarrow> push_if caps cudaVideoCodec_HEVC 10 cudaVideoChromaFormat_444 [VAProfileHEVCMain444_10] pl;
          pl \<leftarrow> push_if caps cudaVideoCodec_HEVC 12 cudaVideoChromaFormat_444 [VAProfileHEVCMain444_12] pl;
          push_if caps cudaVideoCodec_VP9 10 cudaVideoChromaFormat_444 [VAProfileVP9Profile3] pl
        } else Some pl
      } else Some pl)
   }"

text \<open>
  The loop that removes unsupported profiles in place: on a hit the tail is moved down, the
  count shrinks and the same index is looked at again.
\<close>

function removeUnsupported :: "nat \<Rightarrow> plist \<Rightarrow> plist option" where
  "removeUnsupported i (arr, n) =
     (if i < n
      then if n \<le> length arr
        then if vaToCuCodec (arr ! i) = cudaVideoCodec_NONE
          then case shift_down i (n - 1) arr of
                 None \<Rightarrow> None
               | Some arr' \<Rightarrow> removeUnsupported i (arr', n - 1)
          else removeUnsupported (i + 1) (arr, n)
        else None
      else Some (arr, n))"
  by pat_completeness auto
termination
  by (relation "measure (\<lambda>(i, arr, n). n - i)") auto

declare removeUnsupported.simps [simp del]

text \<open>\<open>push_ok\<close> and \<open>pop_ok\<close> are the outcomes of the CUDA context calls.\<close>

definition nvQueryConfigProfiles2 ::
  "caps_query \<Rightarrow> bool \<Rightarrow> bool \<Rightarrow> bool \<Rightarrow> bool \<Rightarrow> VAProfile list \<Rightarrow> (VAStatus \<times> plist option) option" where
  "nvQueryConfigProfiles2 caps push_ok pop_ok supports16Bit supports444 profile_list =
     (if \<not> push_ok then Some (VA_STATUS_ERROR_OPERATION_FAILED, None)
      else do {
        pl \<leftarrow> collectProfiles caps supports16Bit supports444 (profile_list, 0);
        pl \<leftarrow> removeUnsupported 0 pl;
        Some (if \<not> pop_ok then (VA_STATUS_ERROR_OPERATION_FAILED, Some pl) else (VA_STATUS_SUCCESS, Some pl))
      })"

definition nvQueryConfigProfiles :: "plist \<Rightarrow> VAProfile list \<Rightarrow> (VAStatus \<times> plist) option" where
  "nvQueryConfigProfiles = (\<lambda>(profiles, profileCount) profile_list. do {
     guard (profileCount \<le> length profiles \<and> profileCount \<le> length profile_list);
     Some (VA_STATUS_SUCCESS,
           (take profileCount profiles @ drop profileCount profile_list, profileCount))
   })"

definition nvQueryConfigEntrypoints :: "bool \<Rightarrow> bool \<Rightarrow> VAProfile \<Rightarrow> VAStatus \<times> VAEntrypoint list" where
  "nvQueryConfigEntrypoints disableDecoder nvencAvailable profile =
     (VA_STATUS_SUCCESS,
      (if \<not> disableDecoder \<and> vaToCuCodec profile \<noteq> cudaVideoCodec_NONE then [VAEntrypointVLD] else []) @
      (if nvencAvailable \<and> isEncodeProfile profile then [VAEntrypointEncSlice, VAEntrypointEncSliceLP] else []))"

text \<open>
  The last part of the driver initialisation (\<^verbatim>\<open>__vaDriverInit_1_0\<close>): the decodable
  profiles, none when the decoder is disabled or the query failed, then the encodable ones.
\<close>

fun appendAllIfMissing :: "VAProfile list \<Rightarrow> plist \<Rightarrow> plist option" where
  "appendAllIfMissing [] pl = Some pl"
| "appendAllIfMissing (p # ps) pl = do { pl \<leftarrow> appendProfileIfMissing p pl; appendAllIfMissing ps pl }"

definition encode_profiles :: "VAProfile list" where
  "encode_profiles = [VAProfileH264ConstrainedBaseline, VAProfileH264Main, VAProfileH264High,
     VAProfileHEVCMain, VAProfileHEVCMain10]"

definition initProfiles ::
  "caps_query \<Rightarrow> bool \<Rightarrow> bool \<Rightarrow> bool \<Rightarrow> bool \<Rightarrow> bool \<Rightarrow> bool \<Rightarrow> VAProfile list \<Rightarrow> plist option" where
  "initProfiles caps push_ok pop_ok supports16Bit supports444 disableDecoder nvencAvailable profiles = do {
     (profileStatus, r) \<leftarrow> nvQueryConfigProfiles2 caps push_ok pop_ok supports16Bit supports444 profiles;
     let (arr, n) = (case r of None \<Rightarrow> (profiles, 0) | Some pl \<Rightarrow> pl);
     let n = (if disableDecoder \<or> profileStatus \<noteq> VA_STATUS_SUCCESS then 0 else n);
     if nvencAvailable
     then appendAllIfMissing encode_profiles (arr, n)
     else Some (arr, n)
   }"

section \<open>Codec lookup\<close>

definition claims :: "NVCodec \<Rightarrow> VAProfile \<Rightarrow> bool" where
  "claims c p \<longleftrightarrow> computeCudaCodec c p \<noteq> cudaVideoCodec_NONE"

lemma first_codec_unclaimed: "\<forall>c \<in> set cs. \<not> claims c p \<Longrightarrow> first_codec cs p = cudaVideoCodec_NONE"
  by (induction cs) (auto simp: claims_def)

lemma first_codec_unique:
  assumes "c \<in> set cs" "claims c p" "\<forall>c' \<in> set cs. claims c' p \<longrightarrow> computeCudaCodec c' p = computeCudaCodec c p"
  shows "first_codec cs p = computeCudaCodec c p"
  using assms
proof (induction cs)
  case (Cons d ds)
  show ?case
  proof (cases "claims d p")
    case True
    then have "computeCudaCodec d p = computeCudaCodec c p" using Cons.prems(3) by simp
    then show ?thesis using True by (simp add: claims_def Let_def)
  next
    case False
    then have "first_codec ds p = computeCudaCodec c p"
      using Cons.prems by (intro Cons.IH) auto
    then show ?thesis using False by (simp add: claims_def)
  qed
qed simp

lemma claims_codec:
  "claims av1Codec p = (p \<in> set (supportedProfiles av1Codec))"
  "claims h264Codec p = (p \<in> set (supportedProfiles h264Codec))"
  "claims hevcCodec p = (p \<in> set (supportedProfiles hevcCodec))"
  "claims jpegCodec p = (p \<in> set (supportedProfiles jpegCodec))"
  "claims mpeg2Codec p = (p \<in> set (supportedProfiles mpeg2Codec))"
  "claims vc1Codec p = (p \<in> set (supportedProfiles vc1Codec))"
  "claims vp8Codec p = (p \<in> set (supportedProfiles vp8Codec))"
  "claims vp9Codec p = (p \<in> set (supportedProfiles vp9Codec))"
  by (simp_all add: claims_def codec_defs)

lemma nvd_codecs_claim_listed:
  "c \<in> set nvd_codecs \<Longrightarrow> claims c p = (p \<in> set (supportedProfiles c))"
  using claims_codec unfolding nvd_codecs_def by (auto simp del: insert_iff simp: insert_iff [of c])

lemma distinct_concat_owner:
  "distinct (concat (map f xs)) \<Longrightarrow> c \<in> set xs \<Longrightarrow> c' \<in> set xs \<Longrightarrow> p \<in> set (f c) \<Longrightarrow> p \<in> set (f c') \<Longrightarrow> c = c'"
  by (induction xs) auto

lemma nvd_codecs_owner: "distinct (concat (map supportedProfiles nvd_codecs))"
  by (simp add: nvd_codecs_def codec_defs)

lemma nvd_codecs_disjoint:
  "c \<in> set nvd_codecs \<Longrightarrow> c' \<in> set nvd_codecs \<Longrightarrow> claims c p \<Longrightarrow> claims c' p \<Longrightarrow>
     computeCudaCodec c p = computeCudaCodec c' p"
  using distinct_concat_owner[OF nvd_codecs_owner] nvd_codecs_claim_listed by metis

section \<open>Arrays of profiles\<close>

definition pl_view :: "plist \<Rightarrow> VAProfile list" where
  "pl_view = (\<lambda>(arr, n). take n arr)"

definition pl_wf :: "nat \<Rightarrow> plist \<Rightarrow> bool" where
  "pl_wf cap = (\<lambda>(arr, n). length arr = cap \<and> n \<le> cap)"

lemma length_pl_view: "pl_wf cap pl \<Longrightarrow> length (pl_view pl) = snd pl"
  by (cases pl) (simp add: pl_wf_def pl_view_def)

lemma pl_push_spec:
  assumes "pl_wf cap pl" "length (pl_view pl) < cap"
  shows "\<exists>pl'. pl_push p pl = Some pl' \<and> pl_wf cap pl' \<and> pl_view pl' = pl_view pl @ [p]"
  using assms by (cases pl) (auto simp: pl_wf_def pl_view_def pl_push_def take_Suc_conv_app_nth)

lemma push_all_spec:
  assumes "pl_wf cap pl" "length (pl_view pl) + length ps \<le> cap"
  shows "\<exists>pl'. push_all ps pl = Some pl' \<and> pl_wf cap pl' \<and> pl_view pl' = pl_view pl @ ps"
  using assms
proof (induction ps arbitrary: pl)
  case (Cons p ps)
  obtain pl1 where "pl_push p pl = Some pl1" "pl_wf cap pl1" "pl_view pl1 = pl_view pl @ [p]"
    using pl_push_spec[OF Cons.prems(1), of p] Cons.prems(2) by auto
  with Cons.IH[of pl1] Cons.prems(2) show ?case by auto
qed simp

lemma removeUnsupported_spec:
  assumes "pl_wf cap (arr, n)" "i \<le> n"
  shows "\<exists>pl'. removeUnsupported i (arr, n) = Some pl' \<and> pl_wf cap pl' \<and>
     pl_view pl' = take i arr @ filter (\<lambda>p. vaToCuCodec p \<noteq> cudaVideoCodec_NONE) (drop i (take n arr))"
  using assms
proof (induction "n - i" arbitrary: i n arr rule: less_induct)
  case less
  have wf: "length arr = cap" "n \<le> cap" using less.prems(1) by (simp_all add: pl_wf_def)
  show ?case
  proof (cases "i < n")
    case False
    then show ?thesis
      using less.prems by (subst removeUnsupported.simps) (simp add: pl_view_def)
  next
    case True
    have dr: "drop i (take n arr) = arr ! i # drop (Suc i) (take n arr)"
      using True wf by (simp add: Cons_nth_drop_Suc [symmetric])
    show ?thesis
    proof (cases "vaToCuCodec (arr ! i) = cudaVideoCodec_NONE")
      case keep: False
      obtain pl' where "removeUnsupported (Suc i) (arr, n) = Some pl'" "pl_wf cap pl'"
         "pl_view pl' = take (Suc i) arr @ filter (\<lambda>p. vaToCuCodec p \<noteq> cudaVideoCodec_NONE) (drop (Suc i) (take n arr))"
        using less.hyps[of n "Suc i" arr] less.prems True diff_less_mono2[of i "Suc i" n] by auto
      then show ?thesis
        using True keep wf dr by (subst removeUnsupported.simps) (simp add: take_Suc_conv_app_nth)
    next
      case gone: True
      let ?arr = "take i arr @ take (n - 1 - i) (drop (Suc i) arr) @ drop (n - 1) arr"
      have sh: "shift_down i (n - 1) arr = Some ?arr"
        using True wf by (intro shift_down_eq) auto
      have len: "length ?arr = cap" using True wf by simp
      have pl_small: "n - 1 - i < n - i" "pl_wf cap (?arr, n - 1)" "i \<le> n - 1"
        using True len wf by (simp_all add: pl_wf_def)
      have tk: "take (n - 1) ?arr = take i arr @ drop (Suc i) (take n arr)" "take i ?arr = take i arr"
        using True wf by (simp_all add: drop_take)
      obtain pl' where "removeUnsupported i (?arr, n - 1) = Some pl'" "pl_wf cap pl'"
         "pl_view pl' = take i ?arr @ filter (\<lambda>p. vaToCuCodec p \<noteq> cudaVideoCodec_NONE) (drop i (take (n - 1) ?arr))"
        using less.hyps[of "n - 1" i ?arr] True len wf pl_small by blast
      moreover have "drop i (take (n - 1) ?arr) = drop (Suc i) (take n arr)"
        using True wf unfolding tk(1) by simp
      ultimately show ?thesis
        using True gone wf dr sh tk by (subst removeUnsupported.simps) simp
    qed
  qed
qed

section \<open>The candidate profiles\<close>

type_synonym pgroup = "cudaVideoCodec \<times> nat \<times> cudaVideoChromaFormat \<times> VAProfile list"

definition groups :: "bool \<Rightarrow> bool \<Rightarrow> pgroup list" where
  "groups s16 s444 =
     [(cudaVideoCodec_MPEG2, 8, cudaVideoChromaFormat_420, [VAProfileMPEG2Simple, VAProfileMPEG2Main]),
      (cudaVideoCodec_MPEG4, 8, cudaVideoChromaFormat_420,
         [VAProfileMPEG4Simple, VAProfileMPEG4AdvancedSimple, VAProfileMPEG4Main]),
      (cudaVideoCodec_VC1, 8, cudaVideoChromaFormat_420, [VAProfileVC1Simple, VAProfileVC1Main, VAProfileVC1Advanced]),
      (cudaVideoCodec_H264, 8, cudaVideoChromaFormat_420,
         [VAProfileH264Main, VAProfileH264High, VAProfileH264ConstrainedBaseline]),
      (cudaVideoCodec_JPEG, 8, cudaVideoChromaFormat_420, [VAProfileJPEGBaseline]),
      (cudaVideoCodec_H264_SVC, 8, cudaVideoChromaFormat_420, [VAProfileH264StereoHigh]),
      (cudaVideoCodec_H264_MVC, 8, cudaVideoChromaFormat_420, [VAProfileH264MultiviewHigh]),
      (cudaVideoCodec_HEVC, 8, cudaVideoChromaFormat_420, [VAProfileHEVCMain]),
      (cudaVideoCodec_VP8, 8, cudaVideoChromaFormat_420, [VAProfileVP8Version0_3]),
      (cudaVideoCodec_VP9, 8, cudaVideoChromaFormat_420, [VAProfileVP9Profile0]),
      (cudaVideoCodec_AV1, 8, cudaVideoChromaFormat_420, [VAProfileAV1Profile0])] @
     (if s16 then
       [(cudaVideoCodec_HEVC, 10, cudaVideoChromaFormat_420, [VAProfileHEVCMain10]),
        (cudaVideoCodec_HEVC, 12, cudaVideoChromaFormat_420, [VAProfileHEVCMain12]),
        (cudaVideoCodec_VP9, 10, cudaVideoChromaFormat_420, [VAProfileVP9Profile2])] else []) @
     (if s444 then
       [(cudaVideoCodec_HEVC, 8, cudaVideoChromaFormat_444, [VAProfileHEVCMain444]),
        (cudaVideoCodec_VP9, 8, cudaVideoChromaFormat_444, [VAProfileVP9Profile1]),
        (cudaVideoCodec_AV1, 8, cudaVideoChromaFormat_444, [VAProfileAV1Profile1])] @
       (if s16 then
         [(cudaVideoCodec_HEVC, 10, cudaVideoChromaFormat_444, [VAProfileHEVCMain444_10]),
          (cudaVideoCodec_HEVC, 12, cudaVideoChromaFormat_444, [VAProfileHEVCMain444_12]),
          (cudaVideoCodec_VP9, 10, cudaVideoChromaFormat_444, [VAProfileVP9Profile3])] else [])
      else [])"

definition gpu_ok :: "caps_query \<Rightarrow> pgroup \<Rightarrow> bool" where
  "gpu_ok caps = (\<lambda>(c, d, ch, ps). fst (doesGPUSupportCodec caps c d ch))"

definition group_profiles :: "pgroup \<Rightarrow> VAProfile list" where
  "group_profiles = (\<lambda>(c, d, ch, ps). ps)"

definition candidates :: "caps_query \<Rightarrow> bool \<Rightarrow> bool \<Rightarrow> VAProfile list" where
  "candidates caps s16 s444 = concat (map group_profiles (filter (gpu_ok caps) (groups s16 s444)))"

fun push_groups :: "caps_query \<Rightarrow> pgroup list \<Rightarrow> plist \<Rightarrow> plist option" where
  "push_groups caps [] pl = Some pl"
| "push_groups caps ((c, d, ch, ps) # gs) pl = push_if caps c d ch ps pl \<bind> push_groups caps gs"

lemma push_groups_fun:
  "push_groups caps [] = Some"
  "push_groups caps ((c, d, ch, ps) # gs) = (\<lambda>pl. push_if caps c d ch ps pl \<bind> push_groups caps gs)"
  by (simp_all add: fun_eq_iff)

lemma collectProfiles_groups: "collectProfiles caps s16 s444 pl = push_groups caps (groups s16 s444) pl"
  by (cases s16; cases s444)
    (simp_all add: collectProfiles_def groups_def push_groups_fun del: push_groups.simps)

lemma push_groups_spec:
  assumes "pl_wf cap pl" "length (pl_view pl) + length (concat (map group_profiles gs)) \<le> cap"
  shows "\<exists>pl'. push_groups caps gs pl = Some pl' \<and> pl_wf cap pl' \<and>
     pl_view pl' = pl_view pl @ concat (map group_profiles (filter (gpu_ok caps) gs))"
  using assms
proof (induction gs arbitrary: pl)
  case (Cons g gs)
  obtain c d ch ps where g: "g = (c, d, ch, ps)" by (cases g)
  obtain pl1 where "push_if caps c d ch ps pl = Some pl1" "pl_wf cap pl1"
      "pl_view pl1 = pl_view pl @ (if gpu_ok caps g then ps else [])"
    using push_all_spec[OF Cons.prems(1), of ps] Cons.prems g
    by (cases "gpu_ok caps g") (auto simp: push_if_def gpu_ok_def group_profiles_def)
  with Cons.IH[of pl1] Cons.prems(2) g show ?case
    by (auto simp: group_profiles_def split: if_splits)
qed simp

lemma distinct_concat_filter: "distinct (concat (map f xs)) \<Longrightarrow> distinct (concat (map f (filter P xs)))"
  by (induction xs) auto

lemma groups_distinct: "distinct (concat (map group_profiles (groups s16 s444)))"
  and groups_length: "length (concat (map group_profiles (groups s16 s444))) \<le> 27"
  by (cases s16; cases s444; simp add: groups_def group_profiles_def)+

lemma length_concat_filter: "length (concat (map f (filter P xs))) \<le> length (concat (map f xs))"
  by (induction xs) auto

lemma candidates_distinct: "distinct (candidates caps s16 s444)"
  and candidates_length: "length (candidates caps s16 s444) \<le> 27"
  using distinct_concat_filter[OF groups_distinct]
    order_trans[OF length_concat_filter groups_length, of "gpu_ok caps" s16 s444]
  by (simp_all add: candidates_def)

definition supported :: "VAProfile \<Rightarrow> bool" where
  "supported p \<longleftrightarrow> vaToCuCodec p \<noteq> cudaVideoCodec_NONE"

lemma queryProfiles2_spec:
  assumes "length profile_list = cap" "27 \<le> cap"
  shows "\<exists>pl. nvQueryConfigProfiles2 caps True pop_ok s16 s444 profile_list =
       Some (if pop_ok then VA_STATUS_SUCCESS else VA_STATUS_ERROR_OPERATION_FAILED, Some pl) \<and>
     pl_wf cap pl \<and> pl_view pl = filter supported (candidates caps s16 s444)"
proof -
  have 0: "pl_wf cap (profile_list, 0)" "pl_view (profile_list, 0) = []"
    using assms by (simp_all add: pl_wf_def pl_view_def)
  obtain arr n where c: "collectProfiles caps s16 s444 (profile_list, 0) = Some (arr, n)" "pl_wf cap (arr, n)"
      "pl_view (arr, n) = candidates caps s16 s444"
    using push_groups_spec[OF 0(1), of "groups s16 s444" caps] 0(2) groups_length[of s16 s444] assms(2)
    by (auto simp: collectProfiles_groups candidates_def)
  obtain pl where "removeUnsupported 0 (arr, n) = Some pl" "pl_wf cap pl"
      "pl_view pl = filter supported (candidates caps s16 s444)"
    using removeUnsupported_spec[OF c(2), of 0] c(3) by (auto simp: pl_view_def supported_def [abs_def])
  with c show ?thesis by (cases pl) (simp add: nvQueryConfigProfiles2_def)
qed

lemma appendProfileIfMissing_spec:
  assumes "pl_wf MAX_PROFILES pl"
  shows "\<exists>pl'. appendProfileIfMissing p pl = Some pl' \<and> pl_wf MAX_PROFILES pl' \<and>
     pl_view pl' = (if p \<in> set (pl_view pl) \<or> MAX_PROFILES \<le> length (pl_view pl) then pl_view pl else pl_view pl @ [p])"
proof -
  obtain arr n where pl: "pl = (arr, n)" by (cases pl)
  have n: "length (pl_view pl) = n" using assms length_pl_view pl by fastforce
  show ?thesis
    using pl_push_spec[OF assms, of p] assms pl n
    by (auto simp: appendProfileIfMissing_def pl_view_def)
qed

lemma appendAllIfMissing_spec:
  assumes "pl_wf MAX_PROFILES pl" "length (pl_view pl) + length ps \<le> MAX_PROFILES" "distinct (pl_view pl)"
  shows "\<exists>pl'. appendAllIfMissing ps pl = Some pl' \<and> pl_wf MAX_PROFILES pl' \<and> distinct (pl_view pl') \<and>
     set (pl_view pl') = set (pl_view pl) \<union> set ps"
  using assms
proof (induction ps arbitrary: pl)
  case (Cons p ps)
  obtain pl1 where p1: "appendProfileIfMissing p pl = Some pl1" "pl_wf MAX_PROFILES pl1"
      "pl_view pl1 = (if p \<in> set (pl_view pl) then pl_view pl else pl_view pl @ [p])"
    using appendProfileIfMissing_spec[OF Cons.prems(1), of p] Cons.prems(2) by auto
  moreover have "length (pl_view pl1) + length ps \<le> MAX_PROFILES" "distinct (pl_view pl1)"
    "set (pl_view pl1) = insert p (set (pl_view pl))"
    using Cons.prems p1(3) by auto
  ultimately show ?case using Cons.IH[of pl1] by auto
qed simp

lemma initProfiles_base:
  assumes "length profiles = MAX_PROFILES"
  shows "\<exists>base. initProfiles caps push_ok pop_ok s16 s444 disableDecoder nvencAvailable profiles =
       (if nvencAvailable then appendAllIfMissing encode_profiles base else Some base) \<and>
     pl_wf MAX_PROFILES base \<and>
     pl_view base = (if push_ok \<and> pop_ok \<and> \<not> disableDecoder then filter supported (candidates caps s16 s444) else [])"
proof (cases push_ok)
  case False
  then have "nvQueryConfigProfiles2 caps push_ok pop_ok s16 s444 profiles =
      Some (VA_STATUS_ERROR_OPERATION_FAILED, None)" by (simp add: nvQueryConfigProfiles2_def)
  then show ?thesis
    using False assms
    by (intro exI[of _ "(profiles, 0)"]) (simp add: initProfiles_def pl_wf_def pl_view_def)
next
  case True
  obtain arr n where q: "nvQueryConfigProfiles2 caps True pop_ok s16 s444 profiles =
       Some (if pop_ok then VA_STATUS_SUCCESS else VA_STATUS_ERROR_OPERATION_FAILED, Some (arr, n))"
     "pl_wf MAX_PROFILES (arr, n)" "pl_view (arr, n) = filter supported (candidates caps s16 s444)"
    using queryProfiles2_spec[OF assms, of caps pop_ok s16 s444] by (auto simp: MAX_PROFILES_def)
  show ?thesis
  proof (cases "pop_ok \<and> \<not> disableDecoder")
    case ok: True
    then show ?thesis
      using q True by (intro exI[of _ "(arr, n)"]) (simp add: initProfiles_def)
  next
    case bad: False
    then show ?thesis
      using q True by (intro exI[of _ "(arr, 0)"]) (auto simp: initProfiles_def pl_wf_def pl_view_def)
  qed
qed

section \<open>Properties\<close>

text \<open>
  The mapping from profiles to decoders does not depend on the order in which the linker
  places the codec descriptors, and a profile has a decoder exactly when a descriptor lists it.
\<close>

theorem vaToCuCodec_order_independent:
  assumes "set cs = set nvd_codecs"
  shows "first_codec cs p = vaToCuCodec p \<and>
     (vaToCuCodec p \<noteq> cudaVideoCodec_NONE) = (\<exists>c \<in> set nvd_codecs. p \<in> set (supportedProfiles c))"
proof (cases "\<exists>c \<in> set nvd_codecs. claims c p")
  case True
  then obtain c where c: "c \<in> set nvd_codecs" "claims c p" by blast
  have same: "\<forall>c' \<in> set nvd_codecs. claims c' p \<longrightarrow> computeCudaCodec c' p = computeCudaCodec c p"
    using c nvd_codecs_disjoint by blast
  have "first_codec cs p = computeCudaCodec c p" "first_codec nvd_codecs p = computeCudaCodec c p"
    by (rule first_codec_unique; use c same assms in blast)+
  then show ?thesis
    using c nvd_codecs_claim_listed by (auto simp: vaToCuCodec_def claims_def)
next
  case False
  then have "first_codec cs p = cudaVideoCodec_NONE" "vaToCuCodec p = cudaVideoCodec_NONE"
    using assms by (auto simp: vaToCuCodec_def intro!: first_codec_unclaimed)
  then show ?thesis using False nvd_codecs_claim_listed by auto
qed

theorem vaToCuCodec_order_independent_witness:
  "first_codec (rev nvd_codecs) VAProfileVP9Profile2 = vaToCuCodec VAProfileVP9Profile2 \<and>
   vaToCuCodec VAProfileVP9Profile2 \<noteq> cudaVideoCodec_NONE"
proof -
  have "vp9Codec \<in> set nvd_codecs" "VAProfileVP9Profile2 \<in> set (supportedProfiles vp9Codec)"
    by (simp_all add: nvd_codecs_def vp9Codec_def)
  moreover have "set (rev nvd_codecs) = set nvd_codecs" by simp
  ultimately show ?thesis
    using vaToCuCodec_order_independent[of "rev nvd_codecs" VAProfileVP9Profile2] by metis
qed

text \<open>
  The in-place removal of unsupported profiles returns and leaves exactly the supported
  ones in their old order.
\<close>

theorem removeUnsupported_filters:
  assumes "n \<le> length arr"
  shows "\<exists>arr' n'. removeUnsupported 0 (arr, n) = Some (arr', n') \<and> length arr' = length arr \<and> n' \<le> n \<and>
     take n' arr' = filter (\<lambda>p. vaToCuCodec p \<noteq> cudaVideoCodec_NONE) (take n arr)"
proof -
  have wf: "pl_wf (length arr) (arr, n)" using assms by (simp add: pl_wf_def)
  obtain pl where pl: "removeUnsupported 0 (arr, n) = Some pl" "pl_wf (length arr) pl"
     "pl_view pl = filter (\<lambda>p. vaToCuCodec p \<noteq> cudaVideoCodec_NONE) (take n arr)"
    using removeUnsupported_spec[OF wf, of 0] by auto
  moreover have "length (filter P (take n arr)) \<le> n" for P
    by (rule order_trans[OF length_filter_le]) simp
  ultimately show ?thesis
    using length_pl_view[OF pl(2)] by (cases pl) (auto simp: pl_wf_def pl_view_def)
qed

theorem removeUnsupported_filters_witness:
  "\<exists>arr' n'. removeUnsupported 0 ([VAProfileMPEG4Main, VAProfileH264High], 2) = Some (arr', n') \<and>
     take n' arr' = [VAProfileH264High]"
  using removeUnsupported_filters[of 2 "[VAProfileMPEG4Main, VAProfileH264High]"]
  by (auto simp: vaToCuCodec_def nvd_codecs_def codec_defs)

lemma profiles_after_init:
  assumes "length profiles = MAX_PROFILES"
  shows "\<exists>arr n. initProfiles caps push_ok pop_ok s16 s444 disableDecoder nvencAvailable profiles = Some (arr, n) \<and>
     length arr = MAX_PROFILES \<and> n \<le> MAX_PROFILES \<and> distinct (take n arr) \<and>
     (\<forall>p \<in> set (take n arr). snd (nvQueryConfigEntrypoints disableDecoder nvencAvailable p) \<noteq> []) \<and>
     (nvencAvailable \<longrightarrow> (\<forall>p. isEncodeProfile p \<longrightarrow> p \<in> set (take n arr))) \<and>
     (push_ok \<and> pop_ok \<and> \<not> disableDecoder \<longrightarrow>
        (\<forall>p \<in> set (candidates caps s16 s444). supported p \<longrightarrow> p \<in> set (take n arr)))"
proof -
  let ?ok = "push_ok \<and> pop_ok \<and> \<not> disableDecoder"
  let ?dec = "if ?ok then filter supported (candidates caps s16 s444) else []"
  obtain base where b: "initProfiles caps push_ok pop_ok s16 s444 disableDecoder nvencAvailable profiles =
       (if nvencAvailable then appendAllIfMissing encode_profiles base else Some base)"
     "pl_wf MAX_PROFILES base" "pl_view base = ?dec"
    using initProfiles_base[OF assms] by blast
  have d: "distinct (pl_view base)" "length (pl_view base) + length encode_profiles \<le> MAX_PROFILES"
    using b(3) candidates_distinct order_trans[OF length_filter_le candidates_length, of supported caps s16 s444]
    by (auto simp: MAX_PROFILES_def encode_profiles_def)
  have "\<exists>pl'. (if nvencAvailable then appendAllIfMissing encode_profiles base else Some base) = Some pl' \<and>
      pl_wf MAX_PROFILES pl' \<and> distinct (pl_view pl') \<and>
      set (pl_view pl') = set ?dec \<union> (if nvencAvailable then set encode_profiles else {})"
  proof (cases nvencAvailable)
    case True
    then show ?thesis using appendAllIfMissing_spec[OF b(2) d(2,1)] b(3) by simp
  next
    case False
    then show ?thesis using b(2,3) d(1) by (intro exI[of _ base]) simp
  qed
  then obtain arr n where r: "initProfiles caps push_ok pop_ok s16 s444 disableDecoder nvencAvailable profiles = Some (arr, n)"
      "pl_wf MAX_PROFILES (arr, n)" "distinct (take n arr)"
      "set (take n arr) = set ?dec \<union> (if nvencAvailable then set encode_profiles else {})"
    using b(1) by (auto simp: pl_view_def)
  have enc: "isEncodeProfile p \<longleftrightarrow> p \<in> set encode_profiles" for p
    by (auto simp: isEncodeProfile_def encode_profiles_def)
  have "\<forall>p \<in> set (take n arr). snd (nvQueryConfigEntrypoints disableDecoder nvencAvailable p) \<noteq> []"
    unfolding r(4) by (auto simp: nvQueryConfigEntrypoints_def supported_def enc split: if_splits)
  moreover have "nvencAvailable \<longrightarrow> (\<forall>p. isEncodeProfile p \<longrightarrow> p \<in> set (take n arr))"
    unfolding r(4) enc by simp
  moreover have "?ok \<longrightarrow> (\<forall>p \<in> set (candidates caps s16 s444). supported p \<longrightarrow> p \<in> set (take n arr))"
    unfolding r(4) by simp
  ultimately show ?thesis using r(1,2,3) by (auto simp: pl_wf_def)
qed



end
