(* ===== verification/Driver.thy ===== *)
theory Driver
  imports Objects Profiles CodecCtx
begin

text \<open>
  The driver state shared by the VA-API entry points: the structs of
  \<^verbatim>\<open>src/src/vabackend.h\<close> (config, context, surface, buffer, image), the format table of
  \<^verbatim>\<open>src/src/vabackend.c\<close>, and \<^verbatim>\<open>NVDriver\<close> as the object table extended by the
  store of raw byte blocks and the driver's flags.  Objects live in \<open>heap\<close>, raw memory
  (host copies of surfaces, buffer contents) in \<open>mem\<close>, so that two pointers to one block
  are two equal addresses.  A byte is \<open>None\<close> while it is uninitialised.

  A surface's mutex is a flag: locking a held mutex never returns, which is stuck.  The
  allocator is a parameter that tells which requests succeed.
\<close>

section \<open>Formats\<close>

datatype cudaVideoSurfaceFormat = cudaVideoSurfaceFormat_NV12 | cudaVideoSurfaceFormat_P016
  | cudaVideoSurfaceFormat_YUV444 | cudaVideoSurfaceFormat_YUV444_16Bit

datatype NVFormat = NV_FORMAT_NONE | NV_FORMAT_NV12 | NV_FORMAT_P010 | NV_FORMAT_P012 | NV_FORMAT_P016
  | NV_FORMAT_444P | NV_FORMAT_Q416

datatype va_fourcc = VA_FOURCC_none | VA_FOURCC_NV12 | VA_FOURCC_P010 | VA_FOURCC_P012 | VA_FOURCC_P016
  | VA_FOURCC_444P | VA_FOURCC_Q416 | VA_FOURCC_other u32

record NVSubSampling =
  ss_x :: nat
  ss_y :: nat

record NVFormatPlane =
  channelCount :: u32
  ss :: NVSubSampling

record NVFormatInfo =
  bppc :: u32
  fi_numPlanes :: nat
  is16bits :: bool
  isYuv444 :: bool
  planes :: "NVFormatPlane list"
  vaFourcc :: va_fourcc
  bitsPerPixel :: u32

definition no_plane :: NVFormatPlane where
  "no_plane = \<lparr>channelCount = 0, ss = \<lparr>ss_x = 0, ss_y = 0\<rparr>\<rparr>"

definition luma_plane :: NVFormatPlane where
  "luma_plane = \<lparr>channelCount = 1, ss = \<lparr>ss_x = 0, ss_y = 0\<rparr>\<rparr>"

definition chroma420_plane :: NVFormatPlane where
  "chroma420_plane = \<lparr>channelCount = 2, ss = \<lparr>ss_x = 1, ss_y = 1\<rparr>\<rparr>"

fun formatsInfo :: "NVFormat \<Rightarrow> NVFormatInfo" where
  "formatsInfo NV_FORMAT_NONE = \<lparr>bppc = 0, fi_numPlanes = 0, is16bits = False, isYuv444 = False,
     planes = [no_plane, no_plane, no_plane], vaFourcc = VA_FOURCC_none, bitsPerPixel = 0\<rparr>"
| "formatsInfo NV_FORMAT_NV12 = \<lparr>bppc = 1, fi_numPlanes = 2, is16bits = False, isYuv444 = False,
     planes = [luma_plane, chroma420_plane, no_plane], vaFourcc = VA_FOURCC_NV12, bitsPerPixel = 12\<rparr>"
| "formatsInfo NV_FORMAT_P010 = \<lparr>bppc = 2, fi_numPlanes = 2, is16bits = True, isYuv444 = False,
     planes = [luma_plane, chroma420_plane, no_plane], vaFourcc = VA_FOURCC_P010, bitsPerPixel = 24\<rparr>"
| "formatsInfo NV_FORMAT_P012 = \<lparr>bppc = 2, fi_numPlanes = 2, is16bits = True, isYuv444 = False,
     planes = [luma_plane, chroma420_plane, no_plane], vaFourcc = VA_FOURCC_P012, bitsPerPixel = 24\<rparr>"
| "formatsInfo NV_FORMAT_P016 = \<lparr>bppc = 2, fi_numPlanes = 2, is16bits = True, isYuv444 = False,
     planes = [luma_plane, chroma420_plane, no_plane], vaFourcc = VA_FOURCC_P016, bitsPerPixel = 24\<rparr>"
| "formatsInfo NV_FORMAT_444P = \<lparr>bppc = 1, fi_numPlanes = 3, is16bits = False, isYuv444 = True,
     planes = [luma_plane, luma_plane, luma_plane], vaFourcc = VA_FOURCC_444P, bitsPerPixel = 24\<rparr>"
| "formatsInfo NV_FORMAT_Q416 = \<lparr>bppc = 2, fi_numPlanes = 3, is16bits = True, isYuv444 = True,
     planes = [luma_plane, luma_plane, luma_plane], vaFourcc = VA_FOURCC_Q416, bitsPerPixel = 48\<rparr>"

definition all_formats :: "NVFormat list" where
  "all_formats = [NV_FORMAT_NV12, NV_FORMAT_P010, NV_FORMAT_P012, NV_FORMAT_P016, NV_FORMAT_444P, NV_FORMAT_Q416]"

definition nvFormatFromVaFormat :: "va_fourcc \<Rightarrow> NVFormat" where
  "nvFormatFromVaFormat fourcc =
     (case find (\<lambda>f. vaFourcc (formatsInfo f) = fourcc) all_formats of None \<Rightarrow> NV_FORMAT_NONE | Some f \<Rightarrow> f)"

section \<open>Structs\<close>

datatype VABufferType = VAPictureParameterBufferType | VAIQMatrixBufferType | VASliceParameterBufferType
  | VASliceDataBufferType | VAHuffmanTableBufferType | VAProbabilityBufferType | VABitPlaneBufferType
  | VAImageBufferType | VAEncCodedBufferType | VAEncSequenceParameterBufferType
  | VAEncPictureParameterBufferType | VAEncSliceParameterBufferType | VAEncMiscParameterBufferType
  | VAEncPackedHeaderParameterBufferType | VAEncPackedHeaderDataBufferType | VABufferType_other nat

datatype VASurfaceStatus = VASurfaceRendering | VASurfaceDisplaying | VASurfaceReady | VASurfaceSkipped

datatype NVContextMode = NV_CONTEXT_DECODE | NV_CONTEXT_ENCODE

record NVConfig =
  cfg_profile :: VAProfile
  cfg_entrypoint :: VAEntrypoint
  cfg_surfaceFormat :: cudaVideoSurfaceFormat
  cfg_chromaFormat :: cudaVideoChromaFormat
  cfg_bitDepth :: int
  cfg_cudaCodec :: cudaVideoCodec
  cfg_isEncode :: bool
  cfg_encodeRCMode :: u32

record NVBuffer =
  elements :: u32
  b_size :: u64
  bufferType :: VABufferType
  b_ptr :: addr
  b_offset :: u64
  ownsPtr :: bool
  codedData :: addr
  codedCapacity :: u64
  codedSegSize :: u64
  codedSegStatus :: u32
  surfaceId :: u32
  commitOnUnmap :: bool
  mappedSurfaceLock :: bool

record NVSurface =
  sf_width :: u32
  sf_height :: u32
  sf_format :: cudaVideoSurfaceFormat
  sf_chromaFormat :: cudaVideoChromaFormat
  sf_bitDepth :: int
  pictureIdx :: int
  sf_context :: addr
  progressiveFrame :: bool
  topFieldFirst :: bool
  secondField :: int
  order_hint :: int
  sf_resolving :: bool
  sf_locked :: bool
  decodeFailed :: bool
  hostData :: addr
  hostPitch :: u64
  hostYSize :: u64
  hostTotalSize :: u64
  contentX :: u32
  contentY :: u32
  contentWidth :: u32
  contentHeight :: u32
  contentValid :: bool
  sf_status :: VASurfaceStatus

record NVImage =
  im_width :: u32
  im_height :: u32
  im_format :: NVFormat
  im_numPlanes :: u32
  pitches :: "u32 list"
  offsets :: "u32 list"
  imageBuffer :: addr

text \<open>
  The parameter structs of the encoder library, with the fields the driver sets or reads.  The
  settings of the two codecs share a union in the source; a context only ever uses the member of its
  own codec.
\<close>

datatype NV_ENC_PARAMS_RC_MODE = NV_ENC_PARAMS_RC_CONSTQP | NV_ENC_PARAMS_RC_VBR | NV_ENC_PARAMS_RC_CBR

record NV_ENC_QP =
  qpInterP :: u32
  qpInterB :: u32
  qpIntra :: u32

record NV_ENC_RC_PARAMS =
  rateControlMode :: NV_ENC_PARAMS_RC_MODE
  constQP :: NV_ENC_QP
  averageBitRate :: u32
  maxBitRate :: u32
  minQP :: NV_ENC_QP
  maxQP :: NV_ENC_QP

record NV_ENC_CONFIG =
  gopLength :: u32
  frameIntervalP :: int
  rcParams :: NV_ENC_RC_PARAMS
  h264_idrPeriod :: u32
  hevc_idrPeriod :: u32
  repeatSPSPPS :: bool

record NV_ENC_INITIALIZE_PARAMS =
  encodeWidth :: u32
  encodeHeight :: u32
  darWidth :: u32
  darHeight :: u32
  frameRateNum :: u32
  frameRateDen :: u32
  maxEncodeWidth :: u32
  maxEncodeHeight :: u32

text \<open>
  A context: the codec state, the decode state and the encode state.  Handles of the decoder, of the
  encoder and of its buffers are opaque, 0 is none.  \<^verbatim>\<open>encConfig\<close> and
  \<^verbatim>\<open>encInitParams\<close> are what the driver asked the encoder for last.
\<close>

record ('c, 's) NVContext = "('c, 's) CodecState" +
  cx_mode :: NVContextMode
  cx_profile :: VAProfile
  cx_entrypoint :: VAEntrypoint
  cx_width :: u32
  cx_height :: u32
  cx_codec :: "NVCodec option"
  decoder :: addr
  renderTarget :: addr
  pPicParams :: CUVIDPICPARAMS
  currentPictureId :: int
  surfaceQueue :: "addr list"
  surfaceQueueReadIdx :: nat
  surfaceQueueWriteIdx :: nat
  exiting :: bool
  surfaceCount :: int
  nvencEncoder :: addr
  nvencInputBuffers :: "addr list"
  nvencOutputBuffers :: "addr list"
  nvencIoBufferCount :: u32
  nvencIoBufferIndex :: u32
  encIsHevc :: bool
  encConfig :: NV_ENC_CONFIG
  encInitParams :: NV_ENC_INITIALIZE_PARAMS
  encNeedsReconfigure :: bool
  encCurrentSurface :: u32
  encCodedBufId :: u32
  encHasCodedBuf :: bool
  encForceIdr :: bool
  encFrameNum :: u32
  encVisibleX :: u32
  encVisibleY :: u32
  encVisibleWidth :: u32
  encVisibleHeight :: u32
  encVisibleValid :: bool
  encLastFrameData :: addr
  encLastReconfigureNs :: u64
  encStartupIdrLeft :: u32
  encNeedMoreInputStreak :: u32
  encOutputFrameCount :: u32
  encLastHealthLogFrame :: u32

datatype ('c, 's) payload =
  PConfig NVConfig | PContext "('c, 's) NVContext" | PSurface NVSurface | PBuffer NVBuffer | PImage NVImage

text \<open>The type tag that belongs to a payload.\<close>

fun payload_type :: "('c, 's) payload \<Rightarrow> ObjectType" where
  "payload_type (PConfig _) = OBJECT_TYPE_CONFIG"
| "payload_type (PContext _) = OBJECT_TYPE_CONTEXT"
| "payload_type (PSurface _) = OBJECT_TYPE_SURFACE"
| "payload_type (PBuffer _) = OBJECT_TYPE_BUFFER"
| "payload_type (PImage _) = OBJECT_TYPE_IMAGE"

type_synonym block = "u8 option list"

record 'p NVDriver = "'p objtab" +
  mem :: "addr \<rightharpoonup> block"
  nextBlk :: addr
  nvencAvailable :: bool
  supports16BitSurface :: bool
  supports444Surface :: bool
  g_disableDecoder :: bool
  g_encStrictMode :: bool
  g_encForceIdrEvery :: u32
  g_encStartupIdrFrames :: u32
  g_encReconfigureMinMs :: u32
  g_encVisibleReconfigure :: bool

type_synonym ('c, 's, 'z) drv = "(('c, 's) payload, 'z) NVDriver_scheme"

section \<open>Blocks\<close>

text \<open>\<open>malloc_blk\<close> returns NULL when the request fails.\<close>

definition malloc_blk ::
  "(nat \<Rightarrow> bool) \<Rightarrow> nat \<Rightarrow> u8 option \<Rightarrow> ('p, 'z) NVDriver_scheme \<Rightarrow> addr \<times> ('p, 'z) NVDriver_scheme" where
  "malloc_blk alloc_ok n fill d =
     (if alloc_ok n
      then (nextBlk d, d\<lparr>mem := (mem d)(nextBlk d \<mapsto> replicate n fill), nextBlk := Suc (nextBlk d)\<rparr>)
      else (NULL, d))"

definition free_blk :: "addr \<Rightarrow> ('p, 'z) NVDriver_scheme \<Rightarrow> ('p, 'z) NVDriver_scheme option" where
  "free_blk a d =
     (if a = NULL then Some d
      else do {
        guard (mem d a \<noteq> None);
        Some (d\<lparr>mem := (mem d)(a := None)\<rparr>)
      })"

definition mem_read :: "('p, 'z) NVDriver_scheme \<Rightarrow> addr \<Rightarrow> nat \<Rightarrow> nat \<Rightarrow> block option" where
  "mem_read d a off n = do {
     blk \<leftarrow> mem d a;
     read_bytes blk off n
   }"

definition splice :: "block \<Rightarrow> nat \<Rightarrow> block \<Rightarrow> block" where
  "splice blk off bs = take off blk @ bs @ drop (off + length bs) blk"

definition mem_write ::
  "('p, 'z) NVDriver_scheme \<Rightarrow> addr \<Rightarrow> nat \<Rightarrow> block \<Rightarrow> ('p, 'z) NVDriver_scheme option" where
  "mem_write d a off bs = do {
     blk \<leftarrow> mem d a;
     guard (off + length bs \<le> length blk);
     Some (d\<lparr>mem := (mem d)(a \<mapsto> splice blk off bs)\<rparr>)
   }"

text \<open>\<^verbatim>\<open>memcpy\<close>: overlapping ranges are undefined.\<close>

definition mem_copy ::
  "('p, 'z) NVDriver_scheme \<Rightarrow> addr \<Rightarrow> nat \<Rightarrow> addr \<Rightarrow> nat \<Rightarrow> nat \<Rightarrow> ('p, 'z) NVDriver_scheme option" where
  "mem_copy d dst doff src soff n = do {
     guard (dst \<noteq> src \<or> doff + n \<le> soff \<or> soff + n \<le> doff);
     bs \<leftarrow> mem_read d src soff n;
     mem_write d dst doff bs
   }"

text \<open>
  \<^verbatim>\<open>realloc\<close>: a fresh block with the old prefix; a request for no bytes of an existing
  block releases it and returns NULL.
\<close>

definition realloc_blk ::
  "(nat \<Rightarrow> bool) \<Rightarrow> addr \<Rightarrow> nat \<Rightarrow> ('p, 'z) NVDriver_scheme \<Rightarrow> (addr \<times> ('p, 'z) NVDriver_scheme) option" where
  "realloc_blk alloc_ok p n d =
     (if p = NULL then Some (malloc_blk alloc_ok n None d)
      else if n = 0 then do { d \<leftarrow> free_blk p d; Some (NULL, d) }
      else do {
        old \<leftarrow> mem d p;
        if alloc_ok n
        then let (q, d') = malloc_blk alloc_ok n None d
             in Some (q, d'\<lparr>mem := (mem d')(p := None, q \<mapsto> take n old @ replicate (n - length old) None)\<rparr>)
        else Some (NULL, d)
      })"

lemma length_splice [simp]: "off + length bs \<le> length blk \<Longrightarrow> length (splice blk off bs) = length blk"
  by (simp add: splice_def)

section \<open>Typed access to objects\<close>

definition get_surface :: "('c, 's, 'z) drv \<Rightarrow> addr \<Rightarrow> NVSurface option" where
  "get_surface d a = (case heap d a of Some (PSurface s) \<Rightarrow> Some s | _ \<Rightarrow> None)"

definition get_buffer :: "('c, 's, 'z) drv \<Rightarrow> addr \<Rightarrow> NVBuffer option" where
  "get_buffer d a = (case heap d a of Some (PBuffer b) \<Rightarrow> Some b | _ \<Rightarrow> None)"

definition get_image :: "('c, 's, 'z) drv \<Rightarrow> addr \<Rightarrow> NVImage option" where
  "get_image d a = (case heap d a of Some (PImage i) \<Rightarrow> Some i | _ \<Rightarrow> None)"

definition get_config :: "('c, 's, 'z) drv \<Rightarrow> addr \<Rightarrow> NVConfig option" where
  "get_config d a = (case heap d a of Some (PConfig c) \<Rightarrow> Some c | _ \<Rightarrow> None)"

definition get_context :: "('c, 's, 'z) drv \<Rightarrow> addr \<Rightarrow> ('c, 's) NVContext option" where
  "get_context d a = (case heap d a of Some (PContext c) \<Rightarrow> Some c | _ \<Rightarrow> None)"

definition put_obj :: "addr \<Rightarrow> 'p \<Rightarrow> ('p, 'z) NVDriver_scheme \<Rightarrow> ('p, 'z) NVDriver_scheme" where
  "put_obj a v d = d\<lparr>heap := (heap d)(a \<mapsto> v)\<rparr>"

text \<open>A surface's mutex: locking it while it is held never returns, releasing it while it is free is undefined.\<close>

definition lock_surface :: "addr \<Rightarrow> ('c, 's, 'z) drv \<Rightarrow> ('c, 's, 'z) drv option" where
  "lock_surface a d = do {
     s \<leftarrow> get_surface d a;
     guard (\<not> sf_locked s);
     Some (put_obj a (PSurface (s\<lparr>sf_locked := True\<rparr>)) d)
   }"

definition unlock_surface :: "addr \<Rightarrow> ('c, 's, 'z) drv \<Rightarrow> ('c, 's, 'z) drv option" where
  "unlock_surface a d = do {
     s \<leftarrow> get_surface d a;
     guard (sf_locked s);
     Some (put_obj a (PSurface (s\<lparr>sf_locked := False\<rparr>)) d)
   }"

lemma getObjectPtr_put_obj [simp]: "getObjectPtr (put_obj a v d) ty i = getObjectPtr d ty i"
  by (simp add: getObjectPtr_def getObject_def put_obj_def)

lemma getObjectPtr_mem [simp]: "getObjectPtr (d\<lparr>mem := m\<rparr>) ty i = getObjectPtr d ty i"
  "getObjectPtr (d\<lparr>nextBlk := n\<rparr>) ty i = getObjectPtr d ty i"
  by (simp_all add: getObjectPtr_def getObject_def)

text \<open>The tag of every object is that of its payload.\<close>

definition typed :: "('c, 's, 'z) drv \<Rightarrow> bool" where
  "typed d \<longleftrightarrow> objtab_wf d \<and> (\<forall>ob \<in> set (table d). \<forall>v. heap d (o_obj ob) = Some v \<longrightarrow> payload_type v = o_type ob)"

lemma typed_view:
  assumes "typed d" "view d i = Some (t, a)"
  shows "\<exists>v. heap d a = Some v \<and> payload_type v = t \<and> a \<noteq> NULL"
proof -
  obtain ob where ob: "ob \<in> set (table d)" "o_id ob = i" "o_type ob = t" "o_obj ob = a"
    using assms(2) by (fastforce simp: view_def map_of_find find_Some_iff in_set_conv_nth)
  then show ?thesis using assms(1) by (fastforce simp: typed_def objtab_wf_def list_all_iff)
qed

lemma typed_get:
  assumes "typed d"
  shows "getObjectPtr d ty i = Some (case view d i of None \<Rightarrow> NULL | Some (t, a) \<Rightarrow> if t = ty then a else NULL)"
  by (rule ot.get_law) (use assms in \<open>simp add: typed_def\<close>)

lemma payload_type_cases:
  "payload_type v = OBJECT_TYPE_CONFIG \<longleftrightarrow> (\<exists>c. v = PConfig c)"
  "payload_type v = OBJECT_TYPE_CONTEXT \<longleftrightarrow> (\<exists>c. v = PContext c)"
  "payload_type v = OBJECT_TYPE_SURFACE \<longleftrightarrow> (\<exists>s. v = PSurface s)"
  "payload_type v = OBJECT_TYPE_BUFFER \<longleftrightarrow> (\<exists>b. v = PBuffer b)"
  "payload_type v = OBJECT_TYPE_IMAGE \<longleftrightarrow> (\<exists>i. v = PImage i)"
  by (cases v; simp)+

section \<open>Frame lemmas\<close>

lemma get_put_obj [simp]:
  "get_surface (put_obj a v d) b = (if b = a then (case v of PSurface s \<Rightarrow> Some s | _ \<Rightarrow> None) else get_surface d b)"
  "get_buffer (put_obj a v d) b = (if b = a then (case v of PBuffer x \<Rightarrow> Some x | _ \<Rightarrow> None) else get_buffer d b)"
  "get_image (put_obj a v d) b = (if b = a then (case v of PImage x \<Rightarrow> Some x | _ \<Rightarrow> None) else get_image d b)"
  "get_context (put_obj a v d) b = (if b = a then (case v of PContext x \<Rightarrow> Some x | _ \<Rightarrow> None) else get_context d b)"
  by (auto simp: get_surface_def get_buffer_def get_image_def get_context_def put_obj_def)

lemma get_mem_update [simp]:
  "get_surface (d\<lparr>mem := m\<rparr>) a = get_surface d a" "get_surface (d\<lparr>nextBlk := n\<rparr>) a = get_surface d a"
  "get_buffer (d\<lparr>mem := m\<rparr>) a = get_buffer d a" "get_buffer (d\<lparr>nextBlk := n\<rparr>) a = get_buffer d a"
  "get_image (d\<lparr>mem := m\<rparr>) a = get_image d a" "get_image (d\<lparr>nextBlk := n\<rparr>) a = get_image d a"
  "get_context (d\<lparr>mem := m\<rparr>) a = get_context d a" "get_context (d\<lparr>nextBlk := n\<rparr>) a = get_context d a"
  by (simp_all add: get_surface_def get_buffer_def get_image_def get_context_def)

lemma get_iff_heap:
  "get_surface d a = Some s \<longleftrightarrow> heap d a = Some (PSurface s)"
  "get_buffer d a = Some b \<longleftrightarrow> heap d a = Some (PBuffer b)"
  "get_image d a = Some i \<longleftrightarrow> heap d a = Some (PImage i)"
  "get_context d a = Some c \<longleftrightarrow> heap d a = Some (PContext c)"
  by (auto simp: get_surface_def get_buffer_def get_image_def get_context_def split: option.splits payload.splits)

lemma table_put_obj [simp]: "table (put_obj a v d) = table d" "view (put_obj a v d) = view d"
  by (simp_all add: put_obj_def table_def view_def)

lemma table_mem_update [simp]:
  "table (d\<lparr>mem := m\<rparr>) = table d" "table (d\<lparr>nextBlk := n\<rparr>) = table d"
  "view (d\<lparr>mem := m\<rparr>) = view d" "view (d\<lparr>nextBlk := n\<rparr>) = view d"
  by (simp_all add: table_def view_def)

lemma put_obj_simps [simp]:
  "heap (put_obj a v d) = (heap d)(a \<mapsto> v)" "mem (put_obj a v d) = mem d" "nextBlk (put_obj a v d) = nextBlk d"
  "objects (put_obj a v d) = objects d" "NVDriver.more (put_obj a v d) = NVDriver.more d" "nextObjId (put_obj a v d) = nextObjId d" "nextAddr (put_obj a v d) = nextAddr d"
  "g_encStrictMode (put_obj a v d) = g_encStrictMode d"
  "supports16BitSurface (put_obj a v d) = supports16BitSurface d" "supports444Surface (put_obj a v d) = supports444Surface d"
  by (simp_all add: put_obj_def)

lemma objtab_wf_put_obj: "objtab_wf d \<Longrightarrow> objtab_wf (put_obj a v d)"
  by (auto simp: objtab_wf_def list_all_iff)

lemma objtab_wf_mem [simp]:
  "objtab_wf (d\<lparr>mem := m\<rparr>) = objtab_wf d" "objtab_wf (d\<lparr>nextBlk := n\<rparr>) = objtab_wf d"
  by (simp_all add: objtab_wf_def)

lemma typed_mem [simp]: "typed (d\<lparr>mem := m\<rparr>) = typed d" "typed (d\<lparr>nextBlk := n\<rparr>) = typed d"
  by (simp_all add: typed_def)

lemma typed_put_obj:
  assumes "typed d" "heap d a = Some v" "payload_type v' = payload_type v"
  shows "typed (put_obj a v' d)"
  using assms objtab_wf_put_obj[of d a v'] by (auto simp: typed_def)

text \<open>A new object of a given payload: the table grows by one entry, everything else stays.\<close>

lemma allocate_typed:
  assumes "typed d" "objtab_room d" "payload_type v = ty"
  shows "\<exists>ob d'. allocateObject d ty (Some v) = Some (ob, d') \<and> typed d' \<and> view d (o_id ob) = None \<and>
     view d' = (view d)(o_id ob \<mapsto> (ty, o_obj ob)) \<and> table d' = table d @ [ob] \<and>
     heap d' = (heap d)(o_obj ob \<mapsto> v) \<and> o_obj ob \<noteq> NULL \<and> (\<forall>ob' \<in> set (table d). o_obj ob' \<noteq> o_obj ob) \<and>
     o_type ob = ty \<and> o_id ob = nextObjId d + 1 \<and> nextObjId d' = nextObjId d + 1 \<and>
     mem d' = mem d \<and> nextBlk d' = nextBlk d \<and> g_encStrictMode d' = g_encStrictMode d \<and>
     supports16BitSurface d' = supports16BitSurface d \<and> supports444Surface d' = supports444Surface d"
proof -
  have wf: "objtab_wf d" using assms(1) by (simp add: typed_def)
  obtain ob d' arr where a: "allocateObject d ty (Some v) = Some (ob, d')" "objtab_wf d'"
      "view d (o_id ob) = None" "view d' = (view d)(o_id ob \<mapsto> (ty, o_obj ob))"
      "o_obj ob = nextAddr d" "heap d' = (heap d)(o_obj ob \<mapsto> v)" "o_id ob = nextObjId d + 1"
      "nextObjId d' = nextObjId d + 1" "table d' = table d @ [ob]" "o_type ob = ty"
      "d' = d\<lparr>heap := heap d', nextAddr := nextAddr d', objects := arr, nextObjId := nextObjId d'\<rparr>"
    using allocateObject_view[OF wf assms(2), of ty v] by blast
  have fresh: "o_obj ob' \<noteq> o_obj ob" if "ob' \<in> set (table d)" for ob'
    using that wf a(5) by (auto simp: objtab_wf_def list_all_iff)
  have "typed d'"
    using assms(1,3) a(2,6,9,10) fresh by (auto simp: typed_def)
  moreover have "mem d' = mem d" "nextBlk d' = nextBlk d" "g_encStrictMode d' = g_encStrictMode d"
    "supports16BitSurface d' = supports16BitSurface d" "supports444Surface d' = supports444Surface d"
    by (subst a(11), simp)+
  moreover have "o_obj ob \<noteq> NULL" using a(5) wf by (simp add: objtab_wf_def)
  ultimately show ?thesis using a fresh by blast
qed

text \<open>Deleting an object keeps the tags and touches no block of raw memory.\<close>

lemma delete_typed:
  assumes "typed d"
  shows "\<exists>d'. deleteObject d i = Some d' \<and> typed d' \<and> view d' = (view d)(i := None) \<and>
     table d' = filter (\<lambda>ob. o_id ob \<noteq> i) (table d) \<and>
     heap d' = (case view d i of None \<Rightarrow> heap d | Some (t, a) \<Rightarrow> (heap d)(a := None)) \<and>
     mem d' = mem d \<and> nextBlk d' = nextBlk d \<and> nextObjId d' = nextObjId d \<and> g_encStrictMode d' = g_encStrictMode d"
proof -
  obtain d' arr where a: "deleteObject d i = Some d'" "objtab_wf d'" "view d' = (view d)(i := None)"
      "table d' = filter (\<lambda>ob. o_id ob \<noteq> i) (table d)"
      "heap d' = (case view d i of None \<Rightarrow> heap d | Some (t, a) \<Rightarrow> (heap d)(a := None))"
      "d' = d\<lparr>objects := arr, heap := heap d'\<rparr>"
    using deleteObject_view[of d i] assms unfolding typed_def by blast
  have "typed d'"
    using assms a(2,4,5) by (auto simp: typed_def split: option.splits if_splits)
  moreover have "mem d' = mem d" "nextBlk d' = nextBlk d" "nextObjId d' = nextObjId d" "g_encStrictMode d' = g_encStrictMode d"
    by (subst a(6), simp)+
  ultimately show ?thesis using a by blast
qed

lemma free_blk_more: "free_blk a d = Some d' \<Longrightarrow> NVDriver.more d' = NVDriver.more d"
  by (auto simp: free_blk_def split: if_splits)

lemma deleteObject_more: "deleteObject d i = Some d' \<Longrightarrow> NVDriver.more d' = NVDriver.more d"
  by (auto simp: deleteObject_def free_block_def bind_Some_iff split: if_splits option.splits prod.splits)

text \<open>Two identifiers never name one block.\<close>

lemma typed_view_inj:
  assumes "typed d" "view d i = Some (t, a)" "view d j = Some (t', a)"
  shows "i = j"
proof -
  have "\<exists>ob \<in> set (table d). o_id ob = k \<and> o_obj ob = a" if "view d k = Some (u, a)" for k u
    using that by (fastforce simp: view_def map_of_find find_Some_iff in_set_conv_nth)
  moreover have "inj_on o_obj (set (table d))" using assms(1) by (simp add: typed_def objtab_wf_def distinct_map)
  ultimately show ?thesis using assms(2,3) by (metis inj_onD)
qed

text \<open>
  A backend call that leaves the driver's own state alone; it may change the state of the backend, which
  extends the driver's, as long as it keeps the backend's invariant \<open>I\<close>.
\<close>

definition keeps_driver :: "('z \<Rightarrow> bool) \<Rightarrow> (('p, 'z) NVDriver_scheme \<Rightarrow> ('p, 'z) NVDriver_scheme option) \<Rightarrow> bool" where
  "keeps_driver I f \<longleftrightarrow> (\<forall>d. I (NVDriver.more d) \<longrightarrow>
     (\<exists>d'. f d = Some d' \<and> NVDriver.truncate d' = NVDriver.truncate d \<and> I (NVDriver.more d')))"

lemma truncate_fields:
  assumes "NVDriver.truncate d' = NVDriver.truncate d"
  shows "heap d' = heap d" "mem d' = mem d" "nextBlk d' = nextBlk d" "objects d' = objects d" "nextObjId d' = nextObjId d"
    "nextAddr d' = nextAddr d" "table d' = table d" "view d' = view d" "g_encStrictMode d' = g_encStrictMode d"
  using assms by (auto simp: NVDriver.truncate_def table_def view_def)

end
