(* ===== verification/Config.thy ===== *)
theory Config
  imports Driver
begin

text \<open>
  Configurations (\<^verbatim>\<open>src/src/vabackend.c\<close>, \<open>nvGetConfigAttributes\<close> to
  \<open>nvQueryConfigAttributes\<close>, and \<open>nvQuerySurfaceAttributes\<close>).  Attribute lists are
  lists of type and value pairs; out-parameters are results.  The attribute constants have the
  values published in \<^verbatim>\<open>va.h\<close>.
\<close>

section \<open>Attributes\<close>

datatype VAConfigAttribType = VAConfigAttribRTFormat | VAConfigAttribRateControl | VAConfigAttribEncMaxRefFrames
  | VAConfigAttribMaxPictureWidth | VAConfigAttribMaxPictureHeight | VAConfigAttribEncPackedHeaders
  | VAConfigAttrib_other nat

type_synonym VAConfigAttrib = "VAConfigAttribType \<times> u32"

definition VA_RT_FORMAT_YUV420 :: u32 where "VA_RT_FORMAT_YUV420 = 0x1"
definition VA_RT_FORMAT_YUV444 :: u32 where "VA_RT_FORMAT_YUV444 = 0x4"
definition VA_RT_FORMAT_YUV420_10 :: u32 where "VA_RT_FORMAT_YUV420_10 = 0x100"
definition VA_RT_FORMAT_YUV444_10 :: u32 where "VA_RT_FORMAT_YUV444_10 = 0x400"
definition VA_RT_FORMAT_YUV420_12 :: u32 where "VA_RT_FORMAT_YUV420_12 = 0x1000"
definition VA_RT_FORMAT_YUV444_12 :: u32 where "VA_RT_FORMAT_YUV444_12 = 0x4000"
definition VA_RC_CBR :: u32 where "VA_RC_CBR = 0x2"
definition VA_RC_VBR :: u32 where "VA_RC_VBR = 0x4"
definition VA_RC_CQP :: u32 where "VA_RC_CQP = 0x10"
definition VA_ENC_PACKED_HEADER_ALL :: u32 where "VA_ENC_PACKED_HEADER_ALL = 0x1 OR 0x2 OR 0x4"
definition VA_ATTRIB_NOT_SUPPORTED :: u32 where "VA_ATTRIB_NOT_SUPPORTED = 0x80000000"

lemmas rt_defs = VA_RT_FORMAT_YUV420_def VA_RT_FORMAT_YUV444_def VA_RT_FORMAT_YUV420_10_def
  VA_RT_FORMAT_YUV444_10_def VA_RT_FORMAT_YUV420_12_def VA_RT_FORMAT_YUV444_12_def

section \<open>Render target formats of a profile\<close>

text \<open>
  The switch over the profile with its fall-through cases, written as what each case adds;
  \<open>nvGetConfigAttributes\<close> and \<open>nvQueryConfigAttributes\<close> both contain it.
\<close>

definition profile_rt_format :: "VAProfile \<Rightarrow> u32" where
  "profile_rt_format profile =
     (let v = VA_RT_FORMAT_YUV420 in
      if profile = VAProfileHEVCMain12 \<or> profile = VAProfileVP9Profile2
      then v OR VA_RT_FORMAT_YUV420_12 OR VA_RT_FORMAT_YUV420_10
      else if profile = VAProfileHEVCMain10 \<or> profile = VAProfileAV1Profile0
      then v OR VA_RT_FORMAT_YUV420_10
      else if profile = VAProfileHEVCMain444_12 \<or> profile = VAProfileVP9Profile3
      then v OR (VA_RT_FORMAT_YUV444_12 OR VA_RT_FORMAT_YUV420_12) OR
           (VA_RT_FORMAT_YUV444_10 OR VA_RT_FORMAT_YUV420_10) OR VA_RT_FORMAT_YUV444
      else if profile = VAProfileHEVCMain444_10 \<or> profile = VAProfileAV1Profile1
      then v OR (VA_RT_FORMAT_YUV444_10 OR VA_RT_FORMAT_YUV420_10) OR VA_RT_FORMAT_YUV444
      else if profile = VAProfileHEVCMain444 \<or> profile = VAProfileVP9Profile1
      then v OR VA_RT_FORMAT_YUV444
      else v)"

definition rt_format :: "('p, 'z) NVDriver_scheme \<Rightarrow> VAProfile \<Rightarrow> u32" where
  "rt_format drv profile =
     (let v = profile_rt_format profile;
          v = (if \<not> supports16BitSurface drv
               then v AND NOT (VA_RT_FORMAT_YUV420_10 OR VA_RT_FORMAT_YUV420_12 OR
                               VA_RT_FORMAT_YUV444_10 OR VA_RT_FORMAT_YUV444_12) else v)
      in if \<not> supports444Surface drv
         then v AND NOT (VA_RT_FORMAT_YUV444 OR VA_RT_FORMAT_YUV444_10 OR VA_RT_FORMAT_YUV444_12) else v)"

definition is_enc_entrypoint :: "VAEntrypoint \<Rightarrow> bool" where
  "is_enc_entrypoint e \<longleftrightarrow> e = VAEntrypointEncSlice \<or> e = VAEntrypointEncSliceLP"

section \<open>Attribute queries\<close>

definition enc_attrib_value :: "VAConfigAttribType \<Rightarrow> u32" where
  "enc_attrib_value t =
     (case t of
        VAConfigAttribRTFormat \<Rightarrow> VA_RT_FORMAT_YUV420
      | VAConfigAttribRateControl \<Rightarrow> VA_RC_CBR OR VA_RC_VBR OR VA_RC_CQP
      | VAConfigAttribEncMaxRefFrames \<Rightarrow> 4
      | VAConfigAttribMaxPictureWidth \<Rightarrow> 8192
      | VAConfigAttribMaxPictureHeight \<Rightarrow> 8192
      | VAConfigAttribEncPackedHeaders \<Rightarrow> VA_ENC_PACKED_HEADER_ALL
      | _ \<Rightarrow> VA_ATTRIB_NOT_SUPPORTED)"

definition limit_or_default :: "bool \<times> u32 \<Rightarrow> u32" where
  "limit_or_default = (\<lambda>(ok, v). if \<not> ok \<or> v = 0 then 8192 else v)"

definition dec_attrib_value ::
  "caps_query \<Rightarrow> ('p, 'z) NVDriver_scheme \<Rightarrow> VAProfile \<Rightarrow> VAConfigAttribType \<Rightarrow> u32" where
  "dec_attrib_value caps drv profile t =
     (let (ok, wh) = doesGPUSupportCodec caps (vaToCuCodec profile) 8 cudaVideoChromaFormat_420;
          (w, h) = (case wh of None \<Rightarrow> (0, 0) | Some p \<Rightarrow> p)
      in case t of
        VAConfigAttribRTFormat \<Rightarrow> rt_format drv profile
      | VAConfigAttribMaxPictureWidth \<Rightarrow> limit_or_default (ok, w)
      | VAConfigAttribMaxPictureHeight \<Rightarrow> limit_or_default (ok, h)
      | _ \<Rightarrow> VA_ATTRIB_NOT_SUPPORTED)"

definition nvGetConfigAttributes ::
  "caps_query \<Rightarrow> ('p, 'z) NVDriver_scheme \<Rightarrow> VAProfile \<Rightarrow> VAEntrypoint \<Rightarrow> VAConfigAttrib list \<Rightarrow>
   VAStatus \<times> VAConfigAttrib list" where
  "nvGetConfigAttributes caps drv profile entrypoint attrib_list =
     (if entrypoint \<noteq> VAEntrypointVLD then (VA_STATUS_ERROR_UNSUPPORTED_ENTRYPOINT, attrib_list)
      else if g_disableDecoder drv \<and> entrypoint = VAEntrypointVLD
      then (VA_STATUS_ERROR_UNSUPPORTED_ENTRYPOINT, attrib_list)
      else if is_enc_entrypoint entrypoint \<and> nvencAvailable drv
      then if \<not> isEncodeProfile profile then (VA_STATUS_ERROR_UNSUPPORTED_PROFILE, attrib_list)
           else (VA_STATUS_SUCCESS, map (\<lambda>(t, v). (t, enc_attrib_value t)) attrib_list)
      else if vaToCuCodec profile = cudaVideoCodec_NONE then (VA_STATUS_ERROR_UNSUPPORTED_PROFILE, attrib_list)
      else (VA_STATUS_SUCCESS, map (\<lambda>(t, v). (t, dec_attrib_value caps drv profile t)) attrib_list))"

section \<open>Creating configurations\<close>

definition zero_config :: NVConfig where
  "zero_config = \<lparr>cfg_profile = VAProfile_other 0, cfg_entrypoint = VAEntrypoint_other 0,
     cfg_surfaceFormat = cudaVideoSurfaceFormat_NV12, cfg_chromaFormat = cudaVideoChromaFormat_Monochrome,
     cfg_bitDepth = 0, cfg_cudaCodec = cudaVideoCodec_MPEG2, cfg_isEncode = False, cfg_encodeRCMode = 0\<rparr>"

fun last_rate_control :: "u32 \<Rightarrow> VAConfigAttrib list \<Rightarrow> u32" where
  "last_rate_control rc [] = rc"
| "last_rate_control rc ((t, v) # as) =
     last_rate_control (if t = VAConfigAttribRateControl then v else rc) as"

definition encode_config :: "VAProfile \<Rightarrow> VAEntrypoint \<Rightarrow> VAConfigAttrib list \<Rightarrow> NVConfig" where
  "encode_config profile entrypoint attrib_list =
     \<lparr>cfg_profile = profile, cfg_entrypoint = entrypoint,
      cfg_surfaceFormat = cudaVideoSurfaceFormat_NV12, cfg_chromaFormat = cudaVideoChromaFormat_420,
      cfg_bitDepth = (if profile = VAProfileHEVCMain10 then 10 else 8),
      cfg_cudaCodec = (if profile = VAProfileHEVCMain \<or> profile = VAProfileHEVCMain10
                       then cudaVideoCodec_HEVC else cudaVideoCodec_H264),
      cfg_isEncode = True, cfg_encodeRCMode = last_rate_control VA_RC_CBR attrib_list\<rparr>"

type_synonym surf_choice = "cudaVideoSurfaceFormat \<times> cudaVideoChromaFormat \<times> int"

text \<open>The three switches that refine the surface format, in the order of the source.\<close>

definition choose_16bit :: "VAProfile \<Rightarrow> VAConfigAttrib list \<Rightarrow> surf_choice \<Rightarrow> surf_choice" where
  "choose_16bit profile attrib_list = (\<lambda>(sf, cf, bd).
     (case profile of
        VAProfileHEVCMain10 \<Rightarrow> (cudaVideoSurfaceFormat_P016, cf, 10)
      | VAProfileHEVCMain12 \<Rightarrow> (cudaVideoSurfaceFormat_P016, cf, 12)
      | _ \<Rightarrow>
        if profile = VAProfileVP9Profile2 \<or> profile = VAProfileAV1Profile0 then
          if attrib_list \<noteq> [] \<and> fst (hd attrib_list) = VAConfigAttribRTFormat then
            if snd (hd attrib_list) = VA_RT_FORMAT_YUV420_12 then (cudaVideoSurfaceFormat_P016, cf, 12)
            else if snd (hd attrib_list) = VA_RT_FORMAT_YUV420_10 then (cudaVideoSurfaceFormat_P016, cf, 10)
            else (sf, cf, bd)
          else if profile = VAProfileVP9Profile2 then (cudaVideoSurfaceFormat_P016, cf, 10)
          else (sf, cf, bd)
        else (sf, cf, bd)))"

definition choose_444 :: "VAProfile \<Rightarrow> surf_choice \<Rightarrow> surf_choice" where
  "choose_444 profile c =
     (if profile = VAProfileHEVCMain444 \<or> profile = VAProfileVP9Profile1 \<or> profile = VAProfileAV1Profile1
      then (cudaVideoSurfaceFormat_YUV444, cudaVideoChromaFormat_444, 8) else c)"

definition choose_444_16bit :: "VAProfile \<Rightarrow> VAConfigAttrib list \<Rightarrow> surf_choice \<Rightarrow> surf_choice" where
  "choose_444_16bit profile attrib_list c =
     (case profile of
        VAProfileHEVCMain444_10 \<Rightarrow> (cudaVideoSurfaceFormat_YUV444_16Bit, cudaVideoChromaFormat_444, 10)
      | VAProfileHEVCMain444_12 \<Rightarrow> (cudaVideoSurfaceFormat_YUV444_16Bit, cudaVideoChromaFormat_444, 12)
      | _ \<Rightarrow>
        if profile = VAProfileVP9Profile3 \<or> profile = VAProfileAV1Profile1 then
          if attrib_list \<noteq> [] \<and> fst (hd attrib_list) = VAConfigAttribRTFormat then
            if snd (hd attrib_list) = VA_RT_FORMAT_YUV444_12
            then (cudaVideoSurfaceFormat_YUV444_16Bit, cudaVideoChromaFormat_444, 12)
            else if snd (hd attrib_list) = VA_RT_FORMAT_YUV444_10
            then (cudaVideoSurfaceFormat_YUV444_16Bit, cudaVideoChromaFormat_444, 10)
            else if snd (hd attrib_list) = VA_RT_FORMAT_YUV444
            then (cudaVideoSurfaceFormat_YUV444, cudaVideoChromaFormat_444, 8)
            else c
          else if profile = VAProfileVP9Profile3
          then (cudaVideoSurfaceFormat_YUV444_16Bit, cudaVideoChromaFormat_444, 10)
          else c
        else c)"

definition decode_choice :: "('p, 'z) NVDriver_scheme \<Rightarrow> VAProfile \<Rightarrow> VAConfigAttrib list \<Rightarrow> surf_choice" where
  "decode_choice drv profile attrib_list =
     (let c = (cudaVideoSurfaceFormat_NV12, cudaVideoChromaFormat_420, 8);
          c = (if supports16BitSurface drv then choose_16bit profile attrib_list c else c);
          c = (if supports444Surface drv then choose_444 profile c else c)
      in if supports444Surface drv \<and> supports16BitSurface drv then choose_444_16bit profile attrib_list c else c)"

definition decode_config ::
  "('p, 'z) NVDriver_scheme \<Rightarrow> VAProfile \<Rightarrow> VAEntrypoint \<Rightarrow> VAConfigAttrib list \<Rightarrow> NVConfig" where
  "decode_config drv profile entrypoint attrib_list =
     (let (sf, cf, bd) = decode_choice drv profile attrib_list in
      \<lparr>cfg_profile = profile, cfg_entrypoint = entrypoint, cfg_surfaceFormat = sf, cfg_chromaFormat = cf,
       cfg_bitDepth = bd, cfg_cudaCodec = vaToCuCodec profile, cfg_isEncode = False, cfg_encodeRCMode = 0\<rparr>)"

text \<open>Allocating the object and filling in its fields; the id is the result.\<close>

definition new_config :: "('c, 's, 'z) drv \<Rightarrow> NVConfig \<Rightarrow> (u32 \<times> ('c, 's, 'z) drv) option" where
  "new_config drv cfg = do {
     (ob, drv) \<leftarrow> allocateObject drv OBJECT_TYPE_CONFIG (Some (PConfig zero_config));
     Some (o_id ob, put_obj (o_obj ob) (PConfig cfg) drv)
   }"

definition nvCreateConfig ::
  "('c, 's, 'z) drv \<Rightarrow> VAProfile \<Rightarrow> VAEntrypoint \<Rightarrow> VAConfigAttrib list \<Rightarrow>
   ((VAStatus \<times> u32 option) \<times> ('c, 's, 'z) drv) option" where
  "nvCreateConfig drv profile entrypoint attrib_list =
     (if is_enc_entrypoint entrypoint then
        if \<not> nvencAvailable drv then Some ((VA_STATUS_ERROR_UNSUPPORTED_ENTRYPOINT, None), drv)
        else if \<not> isEncodeProfile profile then Some ((VA_STATUS_ERROR_UNSUPPORTED_PROFILE, None), drv)
        else do {
          (i, drv) \<leftarrow> new_config drv (encode_config profile entrypoint attrib_list);
          Some ((VA_STATUS_SUCCESS, Some i), drv)
        }
      else if vaToCuCodec profile = cudaVideoCodec_NONE
      then Some ((VA_STATUS_ERROR_UNSUPPORTED_PROFILE, None), drv)
      else if entrypoint \<noteq> VAEntrypointVLD then Some ((VA_STATUS_ERROR_UNSUPPORTED_ENTRYPOINT, None), drv)
      else if g_disableDecoder drv then Some ((VA_STATUS_ERROR_UNSUPPORTED_ENTRYPOINT, None), drv)
      else do {
        (i, drv') \<leftarrow> new_config drv (decode_config drv profile entrypoint attrib_list);
        Some ((VA_STATUS_SUCCESS, Some i), drv')
      })"

definition nvDestroyConfig :: "('c, 's, 'z) drv \<Rightarrow> u32 \<Rightarrow> (VAStatus \<times> ('c, 's, 'z) drv) option" where
  "nvDestroyConfig drv config_id = do {
     drv \<leftarrow> deleteObject drv config_id;
     Some (VA_STATUS_SUCCESS, drv)
   }"

text \<open>
  \<open>has_num\<close> and \<open>has_list\<close>: the caller passed the counter and an array.  The result
  is the profile, the entry point, the attributes written and the count.
\<close>

definition nvQueryConfigAttributes ::
  "('c, 's, 'z) drv \<Rightarrow> u32 \<Rightarrow> bool \<Rightarrow> bool \<Rightarrow>
   (VAStatus \<times> (VAProfile \<times> VAEntrypoint \<times> VAConfigAttrib list \<times> nat) option) option" where
  "nvQueryConfigAttributes drv config_id has_num has_list = do {
     a \<leftarrow> getObjectPtr drv OBJECT_TYPE_CONFIG config_id;
     if a = NULL then Some (VA_STATUS_ERROR_INVALID_CONFIG, None)
     else if \<not> has_num then Some (VA_STATUS_ERROR_INVALID_PARAMETER, None)
     else do {
       cfg \<leftarrow> get_config drv a;
       Some (VA_STATUS_SUCCESS, Some (cfg_profile cfg, cfg_entrypoint cfg,
         if cfg_isEncode cfg then
           if \<not> has_list then ([], 2)
           else ([(VAConfigAttribRTFormat, VA_RT_FORMAT_YUV420), (VAConfigAttribRateControl, cfg_encodeRCMode cfg)], 2)
         else
           if \<not> has_list then ([], 1)
           else ([(VAConfigAttribRTFormat, rt_format drv (cfg_profile cfg))], 1)))
     }
   }"

section \<open>Surface attributes\<close>

datatype VASurfaceAttribType = VASurfaceAttribPixelFormat | VASurfaceAttribMemoryType | VASurfaceAttribMinWidth
  | VASurfaceAttribMaxWidth | VASurfaceAttribMinHeight | VASurfaceAttribMaxHeight

datatype surf_attr_value = VFourcc va_fourcc | VInt u32 | VMemTypeVA

record VASurfaceAttrib =
  sa_type :: VASurfaceAttribType
  sa_settable :: bool
  sa_gettable :: bool
  sa_value :: surf_attr_value

definition attr :: "VASurfaceAttribType \<Rightarrow> bool \<Rightarrow> bool \<Rightarrow> surf_attr_value \<Rightarrow> VASurfaceAttrib" where
  "attr t g s v = \<lparr>sa_type = t, sa_settable = s, sa_gettable = g, sa_value = v\<rparr>"

text \<open>One guarded store: nothing is written once \<open>maxAttribs\<close> entries are filled.\<close>

definition write_attr :: "nat \<Rightarrow> VASurfaceAttrib \<Rightarrow> VASurfaceAttrib list \<Rightarrow> VASurfaceAttrib list" where
  "write_attr maxAttribs a out = (if length out < maxAttribs then out @ [a] else out)"

fun write_attrs :: "nat \<Rightarrow> VASurfaceAttrib list \<Rightarrow> VASurfaceAttrib list \<Rightarrow> VASurfaceAttrib list" where
  "write_attrs maxAttribs [] out = out"
| "write_attrs maxAttribs (a # as) out = write_attrs maxAttribs as (write_attr maxAttribs a out)"

definition encode_attrs :: "VASurfaceAttrib list" where
  "encode_attrs =
     [attr VASurfaceAttribPixelFormat True True (VFourcc VA_FOURCC_NV12),
      attr VASurfaceAttribMemoryType True True VMemTypeVA,
      attr VASurfaceAttribMinWidth True False (VInt 64),
      attr VASurfaceAttribMaxWidth True False (VInt 8192),
      attr VASurfaceAttribMinHeight True False (VInt 64),
      attr VASurfaceAttribMaxHeight True False (VInt 8192)]"

definition pixel_formats :: "('p, 'z) NVDriver_scheme \<Rightarrow> NVConfig \<Rightarrow> va_fourcc list" where
  "pixel_formats drv cfg =
     (if cfg_chromaFormat cfg = cudaVideoChromaFormat_444 then [VA_FOURCC_444P, VA_FOURCC_Q416]
      else [VA_FOURCC_NV12] @
           (if supports16BitSurface drv then [VA_FOURCC_P010, VA_FOURCC_P012, VA_FOURCC_P016] else []))"

definition availableAttribs :: "('p, 'z) NVDriver_scheme \<Rightarrow> NVConfig \<Rightarrow> nat" where
  "availableAttribs drv cfg =
     4 + (if cfg_chromaFormat cfg = cudaVideoChromaFormat_444 then 1 + 1
          else 1 + (if supports16BitSurface drv then 3 else 0))"

text \<open>The decoder limits: the queried ones if every call succeeded and they are not zero, else defaults.\<close>

definition decode_limits ::
  "caps_query \<Rightarrow> bool \<Rightarrow> bool \<Rightarrow> NVConfig \<Rightarrow> u32 \<times> u32 \<times> u32 \<times> u32" where
  "decode_limits caps push_ok pop_ok cfg =
     (let c = caps (cfg_cudaCodec cfg) (nat (cfg_bitDepth cfg)) (cfg_chromaFormat cfg) in
      case c of
        Some k \<Rightarrow> if push_ok \<and> pop_ok \<and> nMaxWidth k \<noteq> 0 \<and> nMaxHeight k \<noteq> 0
                  then (nMinWidth k, nMinHeight k, nMaxWidth k, nMaxHeight k)
                  else (16, 16, 8192, 8192)
      | None \<Rightarrow> (16, 16, 8192, 8192))"

definition decode_attrs ::
  "caps_query \<Rightarrow> bool \<Rightarrow> bool \<Rightarrow> ('p, 'z) NVDriver_scheme \<Rightarrow> NVConfig \<Rightarrow> VASurfaceAttrib list" where
  "decode_attrs caps push_ok pop_ok drv cfg =
     (let (minW, minH, maxW, maxH) = decode_limits caps push_ok pop_ok cfg in
      [attr VASurfaceAttribMinWidth False False (VInt minW), attr VASurfaceAttribMinHeight False False (VInt minH),
       attr VASurfaceAttribMaxWidth False False (VInt maxW), attr VASurfaceAttribMaxHeight False False (VInt maxH)] @
      map (\<lambda>f. attr VASurfaceAttribPixelFormat False False (VFourcc f)) (pixel_formats drv cfg))"

text \<open>
  \<open>num_attribs\<close>: the counter, \<open>None\<close> for a NULL pointer; \<open>has_list\<close>: an array was
  passed.  The result is the status, the entries written and the new counter.
\<close>

definition nvQuerySurfaceAttributes ::
  "caps_query \<Rightarrow> bool \<Rightarrow> bool \<Rightarrow> ('c, 's, 'z) drv \<Rightarrow> u32 \<Rightarrow> bool \<Rightarrow> nat option \<Rightarrow>
   (VAStatus \<times> (VASurfaceAttrib list \<times> nat) option) option" where
  "nvQuerySurfaceAttributes caps push_ok pop_ok drv config has_list num_attribs = do {
     a \<leftarrow> getObjectPtr drv OBJECT_TYPE_CONFIG config;
     if a = NULL then Some (VA_STATUS_ERROR_INVALID_CONFIG, None)
     else do {
       cfg \<leftarrow> get_config drv a;
       if cfg_isEncode cfg then
         (case num_attribs of
            None \<Rightarrow> Some (VA_STATUS_ERROR_INVALID_PARAMETER, None)
          | Some maxAttribs \<Rightarrow>
              if \<not> has_list then Some (VA_STATUS_SUCCESS, Some ([], 6))
              else let out = write_attrs maxAttribs encode_attrs []
                   in Some (VA_STATUS_SUCCESS, Some (out, length out)))
       else if cfg_chromaFormat cfg \<noteq> cudaVideoChromaFormat_420 \<and> cfg_chromaFormat cfg \<noteq> cudaVideoChromaFormat_444
       then Some (VA_STATUS_ERROR_INVALID_CONFIG, None)
       else if (cfg_chromaFormat cfg = cudaVideoChromaFormat_444 \<or>
                cfg_surfaceFormat cfg = cudaVideoSurfaceFormat_YUV444_16Bit) \<and> \<not> supports444Surface drv
       then Some (VA_STATUS_ERROR_INVALID_CONFIG, None)
       else if cfg_surfaceFormat cfg = cudaVideoSurfaceFormat_P016 \<and> \<not> supports16BitSurface drv
       then Some (VA_STATUS_ERROR_INVALID_CONFIG, None)
       else
         (case num_attribs of
            None \<Rightarrow> Some (VA_STATUS_ERROR_INVALID_PARAMETER, None)
          | Some maxAttribs \<Rightarrow>
              if \<not> has_list then Some (VA_STATUS_SUCCESS, Some ([], availableAttribs drv cfg))
              else let out = write_attrs maxAttribs (decode_attrs caps push_ok pop_ok drv cfg) []
                   in Some (VA_STATUS_SUCCESS, Some (out, length out)))
     }
   }"

section \<open>Lemmas\<close>

lemma write_attrs_take: "write_attrs m as out = out @ take (m - length out) as"
proof (induction as arbitrary: out)
  case (Cons a as)
  show ?case
  proof (cases "length out < m")
    case True
    then have "m - length out = Suc (m - Suc (length out))" by simp
    then show ?thesis using Cons True by (simp add: write_attr_def)
  next
    case False
    then show ?thesis using Cons by (simp add: write_attr_def)
  qed
qed simp

lemma new_config_spec:
  assumes "typed d" "objtab_room d"
  shows "\<exists>i d' a. new_config d cfg = Some (i, d') \<and> typed d' \<and>
     view d' = (view d)(i \<mapsto> (OBJECT_TYPE_CONFIG, a)) \<and> heap d' = (heap d)(a \<mapsto> PConfig cfg) \<and> a \<noteq> NULL \<and>
     supports16BitSurface d' = supports16BitSurface d \<and> supports444Surface d' = supports444Surface d"
proof -
  obtain ob d1 where a: "allocateObject d OBJECT_TYPE_CONFIG (Some (PConfig zero_config)) = Some (ob, d1)" "typed d1"
      "view d1 = (view d)(o_id ob \<mapsto> (OBJECT_TYPE_CONFIG, o_obj ob))"
      "heap d1 = (heap d)(o_obj ob \<mapsto> PConfig zero_config)" "o_obj ob \<noteq> NULL"
      "supports16BitSurface d1 = supports16BitSurface d" "supports444Surface d1 = supports444Surface d"
    using allocate_typed[OF assms, of "PConfig zero_config" OBJECT_TYPE_CONFIG] by auto
  have "typed (put_obj (o_obj ob) (PConfig cfg) d1)" using a(2,4) by (auto intro: typed_put_obj)
  then show ?thesis using a by (auto simp: new_config_def)
qed

text \<open>What the format choice can be, given the driver's capabilities.\<close>

definition choice_ok :: "('p, 'z) NVDriver_scheme \<Rightarrow> surf_choice \<Rightarrow> bool" where
  "choice_ok drv = (\<lambda>(sf, cf, bd).
     (sf, cf) \<in> {(cudaVideoSurfaceFormat_NV12, cudaVideoChromaFormat_420),
                 (cudaVideoSurfaceFormat_P016, cudaVideoChromaFormat_420),
                 (cudaVideoSurfaceFormat_YUV444, cudaVideoChromaFormat_444),
                 (cudaVideoSurfaceFormat_YUV444_16Bit, cudaVideoChromaFormat_444)} \<and>
     (bd = 8 \<longleftrightarrow> sf = cudaVideoSurfaceFormat_NV12 \<or> sf = cudaVideoSurfaceFormat_YUV444) \<and>
     bd \<in> {8, 10, 12} \<and>
     (sf = cudaVideoSurfaceFormat_P016 \<or> sf = cudaVideoSurfaceFormat_YUV444_16Bit \<longrightarrow> supports16BitSurface drv) \<and>
     (cf = cudaVideoChromaFormat_444 \<longrightarrow> supports444Surface drv))"

lemma decode_choice_ok: "choice_ok drv (decode_choice drv profile attrib_list)"
proof -
  have 16: "choice_ok drv (choose_16bit profile attrib_list c)"
    if "supports16BitSurface drv" "c = (cudaVideoSurfaceFormat_NV12, cudaVideoChromaFormat_420, 8)" for c
    using that by (simp add: choose_16bit_def choice_ok_def split: VAProfile.split)
  have 0: "choice_ok drv (cudaVideoSurfaceFormat_NV12, cudaVideoChromaFormat_420, 8)"
    by (simp add: choice_ok_def)
  have 444: "choice_ok drv (choose_444 profile c)" if "supports444Surface drv" "choice_ok drv c" for c
    using that by (auto simp: choose_444_def choice_ok_def)
  have b: "choice_ok drv (choose_444_16bit profile attrib_list c)"
    if "supports444Surface drv" "supports16BitSurface drv" "choice_ok drv c" for c
    using that by (auto simp: choose_444_16bit_def choice_ok_def split: VAProfile.splits)
  show ?thesis
    using 0 16 444 b unfolding decode_choice_def Let_def by (simp split: if_split)
qed

lemma decode_config_ok:
  assumes "cfg = decode_config drv p e attrs"
  shows "\<not> cfg_isEncode cfg" "cfg_profile cfg = p" "cfg_entrypoint cfg = e" "cfg_cudaCodec cfg = vaToCuCodec p"
    "choice_ok drv (cfg_surfaceFormat cfg, cfg_chromaFormat cfg, cfg_bitDepth cfg)"
    "(cfg_surfaceFormat cfg, cfg_chromaFormat cfg, cfg_bitDepth cfg) = decode_choice drv p attrs"
  using assms decode_choice_ok[of drv p attrs] by (auto simp: decode_config_def split: prod.splits)

lemma query_new_config:
  assumes "typed d" "objtab_room d"
  shows "\<exists>i d' a. new_config d cfg = Some (i, d') \<and> typed d' \<and> getObjectPtr d' OBJECT_TYPE_CONFIG i = Some a \<and> a \<noteq> NULL \<and>
     get_config d' a = Some cfg \<and> rt_format d' = rt_format d \<and>
     supports16BitSurface d' = supports16BitSurface d \<and> supports444Surface d' = supports444Surface d"
proof -
  obtain i d' a where n: "new_config d cfg = Some (i, d')" "typed d'"
     "view d' = (view d)(i \<mapsto> (OBJECT_TYPE_CONFIG, a))" "heap d' = (heap d)(a \<mapsto> PConfig cfg)" "a \<noteq> NULL"
     "supports16BitSurface d' = supports16BitSurface d" "supports444Surface d' = supports444Surface d"
    using new_config_spec[OF assms, of cfg] by blast
  have "getObjectPtr d' OBJECT_TYPE_CONFIG i = Some a" using typed_get[OF n(2)] n(3) by simp
  moreover have "rt_format d' = rt_format d" using n(6,7) by (simp add: rt_format_def fun_eq_iff)
  ultimately show ?thesis using n by (auto simp: get_config_def)
qed

text \<open>The render target format that a choice of surface format stands for.\<close>

definition rt_of_choice :: "surf_choice \<Rightarrow> u32" where
  "rt_of_choice = (\<lambda>(sf, cf, bd).
     case sf of
       cudaVideoSurfaceFormat_NV12 \<Rightarrow> VA_RT_FORMAT_YUV420
     | cudaVideoSurfaceFormat_P016 \<Rightarrow> if bd = 12 then VA_RT_FORMAT_YUV420_12 else VA_RT_FORMAT_YUV420_10
     | cudaVideoSurfaceFormat_YUV444 \<Rightarrow> VA_RT_FORMAT_YUV444
     | cudaVideoSurfaceFormat_YUV444_16Bit \<Rightarrow> if bd = 12 then VA_RT_FORMAT_YUV444_12 else VA_RT_FORMAT_YUV444_10)"

section \<open>Properties\<close>

definition empty_drv :: "((unit, slice_param) payload) NVDriver" where
  "empty_drv = \<lparr>objects = empty_Array, nextObjId = 0, heap = Map.empty, nextAddr = 1, mem = Map.empty, nextBlk = 1,
     nvencAvailable = True, supports16BitSurface = True, supports444Surface = False, g_disableDecoder = False,
     g_encStrictMode = False, g_encForceIdrEvery = 0,
     g_encStartupIdrFrames = 16, g_encReconfigureMinMs = 800, g_encVisibleReconfigure = False\<rparr>"

lemma empty_drv_ok: "typed empty_drv" "objtab_room empty_drv"
  by (simp_all add: typed_def objtab_wf_def objtab_room_def empty_drv_def table_def)

text \<open>
  C33: a configuration can be created exactly for the entry points that are advertised for a
  profile: then a new object is made whose query returns the same profile and entry point,
  and for any other pair an error is returned and the driver is unchanged.
\<close>

theorem nvCreateConfig_matches_entrypoints:
  assumes "typed d" "objtab_room d"
  shows "\<exists>st r d'. nvCreateConfig d p e attrs = Some ((st, r), d') \<and>
     (st = VA_STATUS_SUCCESS \<longleftrightarrow> e \<in> set (snd (nvQueryConfigEntrypoints (g_disableDecoder d) (nvencAvailable d) p))) \<and>
     (st \<noteq> VA_STATUS_SUCCESS \<longrightarrow> r = None \<and> d' = d) \<and>
     (st = VA_STATUS_SUCCESS \<longrightarrow> typed d' \<and> (\<exists>i as n. r = Some i \<and>
        nvQueryConfigAttributes d' i True True = Some (VA_STATUS_SUCCESS, Some (p, e, as, n)) \<and> n = length as))"
proof (cases "is_enc_entrypoint e")
  case True
  show ?thesis
  proof (cases "nvencAvailable d \<and> isEncodeProfile p")
    case ok: True
    obtain i d' a where n: "new_config d (encode_config p e attrs) = Some (i, d')" "typed d'"
       "getObjectPtr d' OBJECT_TYPE_CONFIG i = Some a" "a \<noteq> NULL" "get_config d' a = Some (encode_config p e attrs)"
      using query_new_config[OF assms] by blast
    then show ?thesis
      using True ok
      by (auto simp: nvCreateConfig_def nvQueryConfigEntrypoints_def is_enc_entrypoint_def
          nvQueryConfigAttributes_def encode_config_def)
  next
    case False
    then show ?thesis
      using True by (auto simp: nvCreateConfig_def nvQueryConfigEntrypoints_def is_enc_entrypoint_def)
  qed
next
  case False
  show ?thesis
  proof (cases "vaToCuCodec p \<noteq> cudaVideoCodec_NONE \<and> e = VAEntrypointVLD \<and> \<not> g_disableDecoder d")
    case ok: True
    obtain i d' a where n: "new_config d (decode_config d p e attrs) = Some (i, d')" "typed d'"
       "getObjectPtr d' OBJECT_TYPE_CONFIG i = Some a" "a \<noteq> NULL" "get_config d' a = Some (decode_config d p e attrs)"
      using query_new_config[OF assms] by blast
    then show ?thesis
      using False ok decode_config_ok[of "decode_config d p e attrs" d p e attrs]
      by (auto simp: nvCreateConfig_def nvQueryConfigEntrypoints_def nvQueryConfigAttributes_def)
  next
    case bad: False
    then show ?thesis
      using False by (auto simp: nvCreateConfig_def nvQueryConfigEntrypoints_def is_enc_entrypoint_def)
  qed
qed

theorem nvCreateConfig_matches_entrypoints_witness:
  "\<exists>st r d'. nvCreateConfig empty_drv VAProfileH264Main VAEntrypointEncSlice [] = Some ((st, r), d') \<and>
     st = VA_STATUS_SUCCESS"
  using nvCreateConfig_matches_entrypoints[OF empty_drv_ok, of VAProfileH264Main VAEntrypointEncSlice "[]"]
  by (auto simp: nvQueryConfigEntrypoints_def empty_drv_def isEncodeProfile_def)

text \<open>
  The surface format chosen for a decode configuration is one of the render target
  formats advertised for its profile, unless the client asked for a format that is not
  advertised; its bit depth and chroma layout belong to that surface format and the driver
  supports it.
\<close>

theorem decode_config_format_advertised:
  assumes "\<And>v. attrs \<noteq> [] \<Longrightarrow> hd attrs = (VAConfigAttribRTFormat, v) \<Longrightarrow> v AND rt_format d p \<noteq> 0"
  shows "rt_of_choice (decode_choice d p attrs) AND rt_format d p \<noteq> 0 \<and> choice_ok d (decode_choice d p attrs)"
proof -
  have "rt_of_choice (decode_choice d p attrs) AND rt_format d p \<noteq> 0"
    using assms
    by (cases p; cases "supports16BitSurface d"; cases "supports444Surface d"; cases attrs;
        cases "fst (hd attrs) = VAConfigAttribRTFormat")
      (auto simp: rt_format_def profile_rt_format_def decode_choice_def choose_16bit_def choose_444_def
        choose_444_16bit_def rt_of_choice_def rt_defs Let_def)
  then show ?thesis using decode_choice_ok by blast
qed

theorem decode_config_format_advertised_witness:
  "rt_of_choice (decode_choice empty_drv VAProfileVP9Profile2 [(VAConfigAttribRTFormat, VA_RT_FORMAT_YUV420_12)])
     AND rt_format empty_drv VAProfileVP9Profile2 \<noteq> 0"
  using decode_config_format_advertised[of "[(VAConfigAttribRTFormat, VA_RT_FORMAT_YUV420_12)]" empty_drv VAProfileVP9Profile2]
  by (simp add: rt_format_def profile_rt_format_def rt_defs empty_drv_def)

text \<open>
  On a decode configuration made by this driver, the surface attribute query succeeds;
  without an array it reports the number of attributes, and with an array it writes the first
  so many of them as fit, never more than the caller's count, and all of them when the
  reported number is passed.
\<close>

theorem nvQuerySurfaceAttributes_bounded:
  assumes "typed d" "objtab_room d"
  shows "\<exists>i d'. new_config d (decode_config d p e attrs) = Some (i, d') \<and>
     nvQuerySurfaceAttributes caps push_ok pop_ok d' i False (Some n) =
       Some (VA_STATUS_SUCCESS, Some ([], length (decode_attrs caps push_ok pop_ok d' (decode_config d p e attrs)))) \<and>
     nvQuerySurfaceAttributes caps push_ok pop_ok d' i True (Some n) =
       Some (VA_STATUS_SUCCESS, Some (take n (decode_attrs caps push_ok pop_ok d' (decode_config d p e attrs)),
         min n (length (decode_attrs caps push_ok pop_ok d' (decode_config d p e attrs)))))"
proof -
  let ?cfg = "decode_config d p e attrs"
  obtain i d' a where n: "new_config d ?cfg = Some (i, d')" "typed d'"
     "getObjectPtr d' OBJECT_TYPE_CONFIG i = Some a" "a \<noteq> NULL" "get_config d' a = Some ?cfg"
     "supports16BitSurface d' = supports16BitSurface d" "supports444Surface d' = supports444Surface d"
    using query_new_config[OF assms, of ?cfg] by blast
  have len: "length (decode_attrs caps push_ok pop_ok d' ?cfg) = availableAttribs d' ?cfg"
    by (simp add: decode_attrs_def availableAttribs_def pixel_formats_def split: prod.splits)
  have ok: "cfg_chromaFormat ?cfg = cudaVideoChromaFormat_420 \<or> cfg_chromaFormat ?cfg = cudaVideoChromaFormat_444"
    "cfg_chromaFormat ?cfg = cudaVideoChromaFormat_444 \<or> cfg_surfaceFormat ?cfg = cudaVideoSurfaceFormat_YUV444_16Bit \<Longrightarrow>
       supports444Surface d'"
    "cfg_surfaceFormat ?cfg = cudaVideoSurfaceFormat_P016 \<Longrightarrow> supports16BitSurface d'"
    using decode_config_ok(5)[OF refl, of d p e attrs] n(6,7) by (auto simp: choice_ok_def)
  show ?thesis
    using n ok decode_config_ok(1)[OF refl, of d p e attrs] len
    by (auto simp: nvQuerySurfaceAttributes_def write_attrs_take min.commute)
qed

theorem nvQuerySurfaceAttributes_bounded_witness:
  "\<exists>i d'. new_config empty_drv (decode_config empty_drv VAProfileHEVCMain10 VAEntrypointVLD []) = Some (i, d') \<and>
     (\<exists>as. nvQuerySurfaceAttributes (\<lambda>c b ch. None) True True d' i True (Some 3) = Some (VA_STATUS_SUCCESS, Some (as, 3)))"
proof -
  obtain i d' where n: "new_config empty_drv (decode_config empty_drv VAProfileHEVCMain10 VAEntrypointVLD []) = Some (i, d')"
     "nvQuerySurfaceAttributes (\<lambda>c b ch. None) True True d' i True (Some 3) =
       Some (VA_STATUS_SUCCESS, Some (take 3 (decode_attrs (\<lambda>c b ch. None) True True d'
           (decode_config empty_drv VAProfileHEVCMain10 VAEntrypointVLD [])),
         min 3 (length (decode_attrs (\<lambda>c b ch. None) True True d'
           (decode_config empty_drv VAProfileHEVCMain10 VAEntrypointVLD [])))))"
    using nvQuerySurfaceAttributes_bounded[OF empty_drv_ok, of VAProfileHEVCMain10 VAEntrypointVLD "[]"
        "\<lambda>c b ch. None" True True 3] by blast
  moreover have "3 \<le> length (decode_attrs (\<lambda>c b ch. None) True True d'
           (decode_config empty_drv VAProfileHEVCMain10 VAEntrypointVLD []))"
    by (simp add: decode_attrs_def split: prod.splits)
  ultimately show ?thesis by (auto simp: min_def)
qed

text \<open>
  The attribute query refuses every encode entry point although the entry point query
  advertises them: the branch that would describe the encoder is never reached.
\<close>

theorem nvGetConfigAttributes_refuses_encode:
  assumes "nvencAvailable d" "isEncodeProfile p"
  shows "VAEntrypointEncSlice \<in> set (snd (nvQueryConfigEntrypoints (g_disableDecoder d) (nvencAvailable d) p)) \<and>
     nvGetConfigAttributes caps d p VAEntrypointEncSlice attrs = (VA_STATUS_ERROR_UNSUPPORTED_ENTRYPOINT, attrs) \<and>
     nvGetConfigAttributes caps d p VAEntrypointEncSliceLP attrs = (VA_STATUS_ERROR_UNSUPPORTED_ENTRYPOINT, attrs)"
  using assms by (simp add: nvQueryConfigEntrypoints_def nvGetConfigAttributes_def)

theorem nvGetConfigAttributes_refuses_encode_witness:
  "nvGetConfigAttributes (\<lambda>c b ch. None) empty_drv VAProfileH264High VAEntrypointEncSlice [(VAConfigAttribRTFormat, 0)] =
     (VA_STATUS_ERROR_UNSUPPORTED_ENTRYPOINT, [(VAConfigAttribRTFormat, 0)])"
  using nvGetConfigAttributes_refuses_encode[of empty_drv VAProfileH264High "\<lambda>c b ch. None" "[(VAConfigAttribRTFormat, 0)]"]
  by (simp add: empty_drv_def isEncodeProfile_def)

end
