(* ===== verification/Surfaces.thy ===== *)
theory Surfaces
  imports Config
begin

text \<open>
  Surfaces and their host copies (\<^verbatim>\<open>src/src/vabackend.c\<close>: \<open>ensureSurfaceHostBuffer\<close>,
  \<open>nvCreateSurfaces2\<close>, \<open>nvDestroySurfaces\<close>, \<open>nvQuerySurfaceStatus\<close>,
  \<open>nvLockSurface\<close>, \<open>nvUnlockSurface\<close>).  The host copy is an NV12 image in a raw block
  whose pitch and height are rounded up; its layout is the invariant that the image operations
  rely on.
\<close>

definition NVENC_PITCH_ALIGN :: u32 where "NVENC_PITCH_ALIGN = 64"
definition NVENC_HEIGHT_ALIGN :: u32 where "NVENC_HEIGHT_ALIGN = 16"

section \<open>Operations\<close>

text \<open>The alignment computation of the host copy: pitch, size of the luma plane, total size.\<close>

definition host_layout :: "u32 \<Rightarrow> u32 \<Rightarrow> u64 \<times> u64 \<times> u64" where
  "host_layout w h =
     (let aw = ROUND_UP w NVENC_PITCH_ALIGN;
          ah = ROUND_UP h NVENC_HEIGHT_ALIGN;
          pitch = ucast aw :: u64;
          ySize = pitch * ucast ah
      in (pitch, ySize, ySize + pitch * ucast (ah div 2)))"

definition ensureSurfaceHostBuffer ::
  "(nat \<Rightarrow> bool) \<Rightarrow> addr \<Rightarrow> ('c, 's, 'z) drv \<Rightarrow> (bool \<times> ('c, 's, 'z) drv) option" where
  "ensureSurfaceHostBuffer alloc_ok a d =
     (if a = NULL then Some (False, d)
      else do {
        s \<leftarrow> get_surface d a;
        if hostData s \<noteq> NULL then Some (True, d)
        else let (pitch, ySize, tot) = host_layout (sf_width s) (sf_height s);
                 (p, d) = malloc_blk alloc_ok (unat tot) (Some 0) d
             in if p = NULL then Some (False, d)
                else Some (True, put_obj a (PSurface (s\<lparr>hostData := p, hostPitch := pitch, hostYSize := ySize,
                                                       hostTotalSize := tot, sf_status := VASurfaceReady\<rparr>)) d)
      })"

definition surface_format :: "u32 \<Rightarrow> surf_choice option" where
  "surface_format format =
     (if format = VA_RT_FORMAT_YUV420 then Some (cudaVideoSurfaceFormat_NV12, cudaVideoChromaFormat_420, 8)
      else if format = VA_RT_FORMAT_YUV420_10 then Some (cudaVideoSurfaceFormat_P016, cudaVideoChromaFormat_420, 10)
      else if format = VA_RT_FORMAT_YUV420_12 then Some (cudaVideoSurfaceFormat_P016, cudaVideoChromaFormat_420, 12)
      else if format = VA_RT_FORMAT_YUV444 then Some (cudaVideoSurfaceFormat_YUV444, cudaVideoChromaFormat_444, 8)
      else if format = VA_RT_FORMAT_YUV444_10 then Some (cudaVideoSurfaceFormat_YUV444_16Bit, cudaVideoChromaFormat_444, 10)
      else if format = VA_RT_FORMAT_YUV444_12 then Some (cudaVideoSurfaceFormat_YUV444_16Bit, cudaVideoChromaFormat_444, 12)
      else None)"

definition round_size :: "cudaVideoChromaFormat \<Rightarrow> u32 \<Rightarrow> u32 \<Rightarrow> u32 \<times> u32" where
  "round_size cf w h =
     (case cf of
        cudaVideoChromaFormat_422 \<Rightarrow> (ROUND_UP w 2, h)
      | cudaVideoChromaFormat_420 \<Rightarrow> (ROUND_UP w 2, ROUND_UP h 2)
      | _ \<Rightarrow> (w, h))"

text \<open>A freshly zeroed surface object.\<close>

definition zero_surface :: NVSurface where
  "zero_surface = \<lparr>sf_width = 0, sf_height = 0, sf_format = cudaVideoSurfaceFormat_NV12,
     sf_chromaFormat = cudaVideoChromaFormat_Monochrome, sf_bitDepth = 0, pictureIdx = 0, sf_context = NULL,
     progressiveFrame = False, topFieldFirst = False, secondField = 0, order_hint = 0,
     sf_resolving = False, sf_locked = False, decodeFailed = False, hostData = NULL, hostPitch = 0, hostYSize = 0,
     hostTotalSize = 0, contentX = 0, contentY = 0, contentWidth = 0, contentHeight = 0, contentValid = False,
     sf_status = VASurfaceRendering\<rparr>"

definition init_surface :: "surf_choice \<Rightarrow> u32 \<Rightarrow> u32 \<Rightarrow> NVSurface" where
  "init_surface = (\<lambda>(sf, cf, bd) w h. zero_surface\<lparr>sf_width := w, sf_height := h, sf_format := sf,
     pictureIdx := -1, sf_bitDepth := bd, sf_context := NULL, sf_chromaFormat := cf\<rparr>)"

text \<open>One iteration; the boolean tells whether the host copy could be allocated.\<close>

definition createSurface ::
  "(nat \<Rightarrow> bool) \<Rightarrow> surf_choice \<Rightarrow> u32 \<Rightarrow> u32 \<Rightarrow> ('c, 's, 'z) drv \<Rightarrow> (u32 \<times> bool \<times> ('c, 's, 'z) drv) option" where
  "createSurface alloc_ok fmt w h d = do {
     (ob, d) \<leftarrow> allocateObject d OBJECT_TYPE_SURFACE (Some (PSurface zero_surface));
     let d = put_obj (o_obj ob) (PSurface (init_surface fmt w h)) d;
     (ok, d) \<leftarrow> ensureSurfaceHostBuffer alloc_ok (o_obj ob) d;
     if \<not> ok then Some (o_id ob, False, d)
     else do {
       s \<leftarrow> get_surface d (o_obj ob);
       Some (o_id ob, True, put_obj (o_obj ob) (PSurface (s\<lparr>contentX := 0, contentY := 0, contentWidth := w,
         contentHeight := h, contentValid := False, sf_status := VASurfaceReady\<rparr>)) d)
     }
   }"

fun createSurfaces_loop ::
  "(nat \<Rightarrow> bool) \<Rightarrow> surf_choice \<Rightarrow> u32 \<Rightarrow> u32 \<Rightarrow> nat \<Rightarrow> ('c, 's, 'z) drv \<Rightarrow>
   (u32 list \<times> bool \<times> ('c, 's, 'z) drv) option" where
  "createSurfaces_loop alloc_ok fmt w h 0 d = Some ([], True, d)"
| "createSurfaces_loop alloc_ok fmt w h (Suc n) d = do {
     (i, ok, d) \<leftarrow> createSurface alloc_ok fmt w h d;
     if \<not> ok then Some ([i], False, d)
     else do {
       (ids, ok, d) \<leftarrow> createSurfaces_loop alloc_ok fmt w h n d;
       Some (i # ids, ok, d)
     }
   }"

definition nvCreateSurfaces2 ::
  "(nat \<Rightarrow> bool) \<Rightarrow> bool \<Rightarrow> bool \<Rightarrow> ('c, 's, 'z) drv \<Rightarrow> u32 \<Rightarrow> u32 \<Rightarrow> u32 \<Rightarrow> nat \<Rightarrow>
   ((VAStatus \<times> u32 list) \<times> ('c, 's, 'z) drv) option" where
  "nvCreateSurfaces2 alloc_ok push_ok pop_ok d format w h num_surfaces =
     (case surface_format format of
        None \<Rightarrow> Some ((VA_STATUS_ERROR_UNSUPPORTED_RT_FORMAT, []), d)
      | Some fmt \<Rightarrow>
          let (w, h) = round_size (fst (snd fmt)) w h in
          if \<not> push_ok then Some ((VA_STATUS_ERROR_OPERATION_FAILED, []), d)
          else do {
            (ids, ok, d) \<leftarrow> createSurfaces_loop alloc_ok fmt w h num_surfaces d;
            Some ((if \<not> pop_ok then VA_STATUS_ERROR_OPERATION_FAILED
                   else if \<not> ok then VA_STATUS_ERROR_ALLOCATION_FAILED
                   else VA_STATUS_SUCCESS, ids), d)
          })"

definition nvCreateSurfaces ::
  "(nat \<Rightarrow> bool) \<Rightarrow> bool \<Rightarrow> bool \<Rightarrow> ('c, 's, 'z) drv \<Rightarrow> u32 \<Rightarrow> u32 \<Rightarrow> u32 \<Rightarrow> nat \<Rightarrow>
   ((VAStatus \<times> u32 list) \<times> ('c, 's, 'z) drv) option" where
  "nvCreateSurfaces alloc_ok push_ok pop_ok d w h format num_surfaces =
     nvCreateSurfaces2 alloc_ok push_ok pop_ok d format w h num_surfaces"

text \<open>\<open>detach\<close> is the backend's \<open>detachBackingImageFromSurface\<close>.\<close>

fun nvDestroySurfaces ::
  "(addr \<Rightarrow> ('c, 's, 'z) drv \<Rightarrow> ('c, 's, 'z) drv option) \<Rightarrow> u32 list \<Rightarrow> ('c, 's, 'z) drv \<Rightarrow>
   (VAStatus \<times> ('c, 's, 'z) drv) option" where
  "nvDestroySurfaces detach [] d = Some (VA_STATUS_SUCCESS, d)"
| "nvDestroySurfaces detach (i # is) d = do {
     a \<leftarrow> getObjectPtr d OBJECT_TYPE_SURFACE i;
     if a = NULL then Some (VA_STATUS_ERROR_INVALID_SURFACE, d)
     else do {
       d \<leftarrow> detach a d;
       s \<leftarrow> get_surface d a;
       d \<leftarrow> free_blk (hostData s) d;
       let d = put_obj a (PSurface (s\<lparr>hostData := NULL\<rparr>)) d;
       d \<leftarrow> deleteObject d i;
       nvDestroySurfaces detach is d
     }
   }"

definition nvQuerySurfaceStatus :: "('c, 's, 'z) drv \<Rightarrow> u32 \<Rightarrow> (VAStatus \<times> VASurfaceStatus option) option" where
  "nvQuerySurfaceStatus d i = do {
     a \<leftarrow> getObjectPtr d OBJECT_TYPE_SURFACE i;
     if a = NULL then Some (VA_STATUS_ERROR_INVALID_SURFACE, None)
     else do { s \<leftarrow> get_surface d a; Some (VA_STATUS_SUCCESS, Some (sf_status s)) }
   }"

text \<open>
  Waiting for the resolve thread: with nobody else running, a surface that is still being
  resolved, or whose mutex the caller holds, is waited for forever.
\<close>

definition nvSyncSurface :: "('c, 's, 'z) drv \<Rightarrow> u32 \<Rightarrow> (VAStatus \<times> ('c, 's, 'z) drv) option" where
  "nvSyncSurface d i = do {
     a \<leftarrow> getObjectPtr d OBJECT_TYPE_SURFACE i;
     if a = NULL then Some (VA_STATUS_ERROR_INVALID_SURFACE, d)
     else do {
       d \<leftarrow> lock_surface a d;
       s \<leftarrow> get_surface d a;
       guard (\<not> sf_resolving s);
       d \<leftarrow> unlock_surface a d;
       Some (VA_STATUS_SUCCESS, d)
     }
   }"

text \<open>Strides, offsets and the block that \<open>nvLockSurface\<close> hands out; it takes no lock.\<close>

record locked_surface =
  ls_stride :: u32
  ls_chroma_u_offset :: u32
  ls_chroma_v_offset :: u32
  ls_buffer :: addr

definition nvLockSurface ::
  "(nat \<Rightarrow> bool) \<Rightarrow> ('c, 's, 'z) drv \<Rightarrow> u32 \<Rightarrow> ((VAStatus \<times> locked_surface option) \<times> ('c, 's, 'z) drv) option" where
  "nvLockSurface alloc_ok d i = do {
     a \<leftarrow> getObjectPtr d OBJECT_TYPE_SURFACE i;
     if a = NULL then Some ((VA_STATUS_ERROR_INVALID_SURFACE, None), d)
     else do {
       (ok, d) \<leftarrow> ensureSurfaceHostBuffer alloc_ok a d;
       if \<not> ok then Some ((VA_STATUS_ERROR_ALLOCATION_FAILED, None), d)
       else do {
         s \<leftarrow> get_surface d a;
         Some ((VA_STATUS_SUCCESS, Some \<lparr>ls_stride = ucast (hostPitch s), ls_chroma_u_offset = ucast (hostYSize s),
                  ls_chroma_v_offset = ucast (hostYSize s + 1), ls_buffer = hostData s\<rparr>), d)
       }
     }
   }"

definition nvUnlockSurface :: "('c, 's, 'z) drv \<Rightarrow> u32 \<Rightarrow> VAStatus option" where
  "nvUnlockSurface d i = do {
     a \<leftarrow> getObjectPtr d OBJECT_TYPE_SURFACE i;
     Some (if a = NULL then VA_STATUS_ERROR_INVALID_SURFACE else VA_STATUS_SUCCESS)
   }"

section \<open>The layout of a host copy\<close>

text \<open>
  Pitch and rows: the luma plane has \<open>rows\<close> lines, the chroma plane half as many, the
  pitch is at least the width, and the block has exactly the total size.
\<close>

definition layout_ok :: "NVSurface \<Rightarrow> bool" where
  "layout_ok s \<longleftrightarrow> (\<exists>rows. unat (sf_width s) \<le> unat (hostPitch s) \<and> even (unat (hostPitch s)) \<and>
     unat (sf_height s) \<le> rows \<and> even rows \<and>
     unat (hostYSize s) = rows * unat (hostPitch s) \<and>
     unat (hostTotalSize s) = rows * unat (hostPitch s) + rows div 2 * unat (hostPitch s))"

definition host_ok :: "('c, 's, 'z) drv \<Rightarrow> NVSurface \<Rightarrow> bool" where
  "host_ok d s \<longleftrightarrow> hostData s = NULL \<or>
     (layout_ok s \<and> (\<exists>blk. mem d (hostData s) = Some blk \<and> length blk = unat (hostTotalSize s)))"

lemma align_bounds:
  assumes "unat n \<le> 2 ^ 31" "0 < unat S" "unat S \<le> 64"
  shows "unat n \<le> unat (ROUND_UP n S)" "unat (ROUND_UP n S) \<le> 2 ^ 31 + 63" "unat S dvd unat (ROUND_UP n S)"
proof -
  have r: "unat (ROUND_UP n S) = (unat n + unat S - 1) div unat S * unat S"
    using assms by (intro unat_ROUND_UP) auto
  show "unat n \<le> unat (ROUND_UP n S)"
    using nat_round_up_bounds(1)[OF assms(2), of "unat n"] r by simp
  show "unat (ROUND_UP n S) \<le> 2 ^ 31 + 63"
    using nat_round_up_bounds(2)[OF assms(2), of "unat n"] r assms by linarith
  show "unat S dvd unat (ROUND_UP n S)" by (simp add: r)
qed

lemma unat_mult_bounded:
  fixes a b :: "'a::len word"
  assumes "unat a * unat b < 2 ^ LENGTH('a)"
  shows "unat (a * b) = unat a * unat b"
  using assms by (simp add: unat_mult_lem [THEN iffD1])

lemma host_layout_ok:
  assumes "unat w \<le> 2 ^ 31" "unat h \<le> 2 ^ 31" "host_layout w h = (pitch, ySize, tot)"
  shows "unat w \<le> unat pitch \<and> even (unat pitch) \<and> (\<exists>rows. unat h \<le> rows \<and> even rows \<and>
     unat ySize = rows * unat pitch \<and> unat tot = rows * unat pitch + rows div 2 * unat pitch)"
proof -
  let ?aw = "ROUND_UP w NVENC_PITCH_ALIGN" and ?ah = "ROUND_UP h NVENC_HEIGHT_ALIGN"
  note aw = align_bounds[OF assms(1), of NVENC_PITCH_ALIGN, unfolded NVENC_PITCH_ALIGN_def, simplified,
      folded NVENC_PITCH_ALIGN_def]
  note ah = align_bounds[OF assms(2), of NVENC_HEIGHT_ALIGN, unfolded NVENC_HEIGHT_ALIGN_def, simplified,
      folded NVENC_HEIGHT_ALIGN_def]
  have e: "even (unat ?aw)" "even (unat ?ah)"
    using dvd_trans[of 2 64 "unat ?aw"] dvd_trans[of 2 16 "unat ?ah"] aw(3) ah(3) by simp_all
  have p: "pitch = ucast ?aw" "ySize = ucast ?aw * ucast ?ah" "tot = ySize + pitch * ucast (?ah div 2)"
    using assms(3) by (auto simp: host_layout_def Let_def)
  have pu: "unat pitch = unat ?aw" using p(1) by simp
  have m: "unat ?aw * unat ?ah \<le> (2 ^ 31 + 63) * (2 ^ 31 + 63)"
    using aw(2) ah(2) by (intro mult_mono) simp_all
  have y: "unat ySize = unat ?ah * unat pitch"
    unfolding p(2) using m pu by (subst unat_mult_bounded) (simp_all add: mult.commute)
  have hm: "unat pitch * (unat ?ah div 2) \<le> (2 ^ 31 + 63) * (2 ^ 31 + 63)"
    using aw(2) ah(2) pu by (intro mult_mono) simp_all
  have hf: "unat (pitch * ucast (?ah div 2)) = unat ?ah div 2 * unat pitch"
    using hm by (subst unat_mult_bounded) (simp_all add: unat_div mult.commute)
  have "unat tot = unat ?ah * unat pitch + unat ?ah div 2 * unat pitch"
    unfolding p(3) using m hm y hf pu by (subst unat_add_bounded) (simp_all add: mult.commute)
  then show ?thesis using aw(1) ah(1) e pu y by auto
qed

section \<open>The invariant of the surfaces\<close>

definition live :: "('c, 's, 'z) drv \<Rightarrow> addr \<Rightarrow> NVSurface \<Rightarrow> bool" where
  "live d a s \<longleftrightarrow> (\<exists>ob \<in> set (table d). o_obj ob = a) \<and> heap d a = Some (PSurface s)"

definition surf_inv :: "('c, 's, 'z) drv \<Rightarrow> bool" where
  "surf_inv d \<longleftrightarrow> typed d \<and> 0 < nextBlk d \<and> (\<forall>b. mem d b \<noteq> None \<longrightarrow> b < nextBlk d) \<and>
     (\<forall>a s. live d a s \<longrightarrow> host_ok d s) \<and>
     (\<forall>a a' s s'. live d a s \<and> live d a' s' \<and> a \<noteq> a' \<and> hostData s = hostData s' \<longrightarrow> hostData s = NULL)"

lemma surf_inv_host_less: "surf_inv d \<Longrightarrow> live d a s \<Longrightarrow> hostData s < nextBlk d"
  by (cases "hostData s = NULL") (simp add: surf_inv_def, metis host_ok_def not_None_eq surf_inv_def)

lemma surf_inv_empty: "surf_inv empty_drv"
  using empty_drv_ok by (simp add: surf_inv_def live_def) (simp add: empty_drv_def table_def)

lemma live_surface:
  assumes "typed d" "getObjectPtr d OBJECT_TYPE_SURFACE i = Some a" "a \<noteq> NULL"
  shows "\<exists>s. get_surface d a = Some s \<and> live d a s \<and> view d i = Some (OBJECT_TYPE_SURFACE, a)"
proof -
  have v: "view d i = Some (OBJECT_TYPE_SURFACE, a)"
    using typed_get[OF assms(1), of OBJECT_TYPE_SURFACE i] assms(2,3) by (auto split: option.splits if_splits)
  obtain p where "heap d a = Some p" "payload_type p = OBJECT_TYPE_SURFACE"
    using typed_view[OF assms(1) v] by blast
  then obtain s where s: "heap d a = Some (PSurface s)" by (auto simp: payload_type_cases)
  obtain ob where "ob \<in> set (table d)" "o_obj ob = a"
    using v by (fastforce simp: view_def map_of_find find_Some_iff in_set_conv_nth)
  with s v show ?thesis by (auto simp: live_def get_surface_def)
qed

text \<open>Replacing a surface by one with the same host copy keeps the invariant.\<close>

lemma surf_inv_update:
  assumes "surf_inv d" "live d a s" "hostData s' = hostData s" "hostPitch s' = hostPitch s" "hostYSize s' = hostYSize s"
    "hostTotalSize s' = hostTotalSize s" "sf_width s' = sf_width s" "sf_height s' = sf_height s"
  shows "surf_inv (put_obj a (PSurface s') d)"
proof -
  let ?d = "put_obj a (PSurface s') d"
  have h: "heap d a = Some (PSurface s)" using assms(2) by (simp add: live_def)
  have lv: "live ?d b t \<longleftrightarrow> (if b = a then t = s' else live d b t)" for b t
    using assms(2) by (auto simp: live_def)
  have "typed ?d" using assms(1) h by (auto simp: surf_inv_def intro: typed_put_obj)
  moreover have "host_ok ?d s' = host_ok d s" using assms(3-8) by (simp add: host_ok_def layout_ok_def)
  moreover have "host_ok ?d t = host_ok d t" for t by (simp add: host_ok_def)
  ultimately show ?thesis
    using assms(1,2,3) unfolding surf_inv_def lv by (auto split: if_splits)
qed

text \<open>Making a host copy: on success the surface has a zeroed block of its own.\<close>

lemma ensureSurfaceHostBuffer_spec:
  assumes "surf_inv d" "live d a s" "a \<noteq> NULL" "unat (sf_width s) \<le> 2 ^ 31" "unat (sf_height s) \<le> 2 ^ 31"
  shows "\<exists>ok d' s'. ensureSurfaceHostBuffer alloc_ok a d = Some (ok, d') \<and> surf_inv d' \<and> live d' a s' \<and>
     (ok \<longrightarrow> hostData s' \<noteq> NULL) \<and> table d' = table d \<and> view d' = view d \<and>
     (\<not> ok \<longrightarrow> d' = d) \<and> heap d' = (heap d)(a \<mapsto> PSurface s') \<and> nextObjId d' = nextObjId d \<and>
     s' = s\<lparr>hostData := hostData s', hostPitch := hostPitch s', hostYSize := hostYSize s',
            hostTotalSize := hostTotalSize s', sf_status := sf_status s'\<rparr> \<and>
     g_encStrictMode d' = g_encStrictMode d \<and> (\<forall>b < nextBlk d. mem d' b = mem d b) \<and> nextBlk d \<le> nextBlk d' \<and>
     (hostData s \<noteq> NULL \<longrightarrow> d' = d \<and> s' = s \<and> ok)"
proof -
  have h: "heap d a = Some (PSurface s)" "get_surface d a = Some s"
    using assms(2) by (auto simp: live_def get_surface_def)
  have hid: "heap d = (heap d)(a \<mapsto> PSurface s)" using h(1) by (simp add: fun_upd_idem)
  show ?thesis
  proof (cases "hostData s = NULL")
    case False
    then show ?thesis using assms h hid by (auto simp: ensureSurfaceHostBuffer_def)
  next
    case True
    obtain pitch ySize tot where hl: "host_layout (sf_width s) (sf_height s) = (pitch, ySize, tot)"
      by (cases "host_layout (sf_width s) (sf_height s)") auto
    show ?thesis
    proof (cases "alloc_ok (unat tot)")
      case no: False
      then have "ensureSurfaceHostBuffer alloc_ok a d = Some (False, d)"
        using assms(3) h True hl by (simp add: ensureSurfaceHostBuffer_def malloc_blk_def)
      then show ?thesis using assms h hid True by (intro exI[of _ False] exI[of _ d] exI[of _ s]) simp
    next
      case yes: True
      let ?b = "nextBlk d"
      let ?s = "s\<lparr>hostData := ?b, hostPitch := pitch, hostYSize := ySize, hostTotalSize := tot, sf_status := VASurfaceReady\<rparr>"
      let ?d1 = "d\<lparr>mem := (mem d)(?b \<mapsto> replicate (unat tot) (Some 0)), nextBlk := Suc ?b\<rparr>"
      let ?d = "put_obj a (PSurface ?s) ?d1"
      have pos: "?b \<noteq> NULL" using assms(1) by (simp add: surf_inv_def)
      have e: "ensureSurfaceHostBuffer alloc_ok a d = Some (True, ?d)"
        using assms(3) h(2) True hl yes pos by (simp add: ensureSurfaceHostBuffer_def malloc_blk_def)
      have lv: "live ?d b t \<longleftrightarrow> (if b = a then t = ?s else live d b t)" for b t
        using assms(2) by (auto simp: live_def table_def)
      have ok: "host_ok ?d ?s"
        using host_layout_ok[OF assms(4,5) hl] by (auto simp: host_ok_def layout_ok_def)
      have old: "host_ok ?d t" if "live d b t" for b t
      proof (cases "hostData t = NULL")
        case False
        then show ?thesis
          using assms(1) that surf_inv_host_less[OF assms(1) that] unfolding surf_inv_def host_ok_def by fastforce
      qed (simp add: host_ok_def)
      have lt: "hostData t < ?b" if "live d b t" for b t using surf_inv_host_less[OF assms(1) that] .
      have ty: "typed ?d" using assms(1) h(1) by (auto simp: surf_inv_def intro: typed_put_obj)
      have "\<forall>b t b' t'. live ?d b t \<and> live ?d b' t' \<and> b \<noteq> b' \<and> hostData t = hostData t' \<longrightarrow> hostData t = NULL"
        using assms(1) lt unfolding surf_inv_def lv by (auto split: if_splits) (metis nat_neq_iff)+
      moreover have "\<forall>b t. live ?d b t \<longrightarrow> host_ok ?d t" using ok old unfolding lv by (auto split: if_splits)
      moreover have "\<forall>b. mem ?d b \<noteq> None \<longrightarrow> b < nextBlk ?d"
        using assms(1) by (auto simp: surf_inv_def less_SucI)
      ultimately have "surf_inv ?d" using ty unfolding surf_inv_def by simp
      then show ?thesis using e lv pos True by (intro exI[of _ True] exI[of _ ?d] exI[of _ ?s]) simp
    qed
  qed
qed

text \<open>A surface object is added with no host copy yet.\<close>

lemma surf_inv_add:
  assumes "surf_inv d" "allocateObject d OBJECT_TYPE_SURFACE (Some (PSurface s0)) = Some (ob, d1)" "typed d1"
    "table d1 = table d @ [ob]" "heap d1 = (heap d)(o_obj ob \<mapsto> PSurface s0)"
    "\<forall>ob' \<in> set (table d). o_obj ob' \<noteq> o_obj ob" "mem d1 = mem d" "nextBlk d1 = nextBlk d" "hostData s = NULL"
  shows "surf_inv (put_obj (o_obj ob) (PSurface s) d1)" "live (put_obj (o_obj ob) (PSurface s) d1) (o_obj ob) s"
proof -
  let ?d = "put_obj (o_obj ob) (PSurface s) d1"
  have lv: "live ?d b t \<longleftrightarrow> (if b = o_obj ob then t = s else live d b t)" for b t
    using assms(4,5,6) by (auto simp: live_def)
  have "typed ?d" using assms(3,5) by (auto intro: typed_put_obj)
  moreover have "host_ok ?d t = host_ok d t" for t using assms(7) by (simp add: host_ok_def)
  moreover have "host_ok d s" using assms(9) by (simp add: host_ok_def)
  ultimately show "surf_inv ?d"
    using assms(1,7,8,9) unfolding surf_inv_def lv by (auto split: if_splits)
  show "live ?d (o_obj ob) s" by (simp add: lv)
qed

definition fresh_surface :: "surf_choice \<Rightarrow> u32 \<Rightarrow> u32 \<Rightarrow> NVSurface \<Rightarrow> bool" where
  "fresh_surface fmt w h s \<longleftrightarrow> sf_width s = w \<and> sf_height s = h \<and>
     (sf_format s, sf_chromaFormat s, sf_bitDepth s) = fmt \<and> pictureIdx s = -1 \<and> sf_context s = NULL \<and>
     \<not> sf_locked s \<and> \<not> sf_resolving s \<and> sf_status s = VASurfaceReady \<and> \<not> contentValid s \<and> hostData s \<noteq> NULL"

definition room_for_objects :: "nat \<Rightarrow> ('c, 's, 'z) drv \<Rightarrow> bool" where
  "room_for_objects n d \<longleftrightarrow> length (table d) + n < 2 ^ 31 \<and> unat (nextObjId d) + n + 2 < 2 ^ 32"

lemma room_for_objects_room: "room_for_objects (Suc n) d \<Longrightarrow> objtab_room d"
  by (simp add: room_for_objects_def objtab_room_def)

lemma createSurface_spec:
  assumes "surf_inv d" "room_for_objects (Suc n) d" "unat w \<le> 2 ^ 31" "unat h \<le> 2 ^ 31"
  shows "\<exists>i ok d'. createSurface alloc_ok fmt w h d = Some (i, ok, d') \<and> surf_inv d' \<and> room_for_objects n d' \<and>
     i = nextObjId d + 1 \<and> nextObjId d' = nextObjId d + 1 \<and> view d i = None \<and>
     ((\<forall>m. alloc_ok m) \<longrightarrow> ok) \<and>
     (\<exists>a. view d' = (view d)(i \<mapsto> (OBJECT_TYPE_SURFACE, a)) \<and> (\<forall>j t b. view d j = Some (t, b) \<longrightarrow> b \<noteq> a) \<and>
        (\<exists>s. heap d' = (heap d)(a \<mapsto> PSurface s) \<and> (ok \<longrightarrow> fresh_surface fmt w h s)))"
proof -
  have ty: "typed d" using assms(1) by (simp add: surf_inv_def)
  obtain ob d1 where a: "allocateObject d OBJECT_TYPE_SURFACE (Some (PSurface zero_surface)) = Some (ob, d1)" "typed d1"
      "view d (o_id ob) = None" "view d1 = (view d)(o_id ob \<mapsto> (OBJECT_TYPE_SURFACE, o_obj ob))"
      "table d1 = table d @ [ob]" "heap d1 = (heap d)(o_obj ob \<mapsto> PSurface zero_surface)" "o_obj ob \<noteq> NULL"
      "\<forall>ob' \<in> set (table d). o_obj ob' \<noteq> o_obj ob" "o_id ob = nextObjId d + 1" "nextObjId d1 = nextObjId d + 1"
      "mem d1 = mem d" "nextBlk d1 = nextBlk d"
    using allocate_typed[OF ty room_for_objects_room[OF assms(2)], of "PSurface zero_surface" OBJECT_TYPE_SURFACE] by auto
  let ?s = "init_surface fmt w h"
  let ?d2 = "put_obj (o_obj ob) (PSurface ?s) d1"
  have init: "hostData ?s = NULL" "sf_width ?s = w" "sf_height ?s = h"
    by (cases fmt; simp add: init_surface_def zero_surface_def)+
  note inv2 = surf_inv_add[OF assms(1) a(1,2,5,6,8,11,12) init(1)]
  obtain ok d3 s3 where e: "ensureSurfaceHostBuffer alloc_ok (o_obj ob) ?d2 = Some (ok, d3)" "surf_inv d3"
      "live d3 (o_obj ob) s3" "ok \<longrightarrow> hostData s3 \<noteq> NULL" "table d3 = table ?d2" "view d3 = view ?d2"
      "heap d3 = (heap ?d2)(o_obj ob \<mapsto> PSurface s3)" "nextObjId d3 = nextObjId ?d2"
      "s3 = ?s\<lparr>hostData := hostData s3, hostPitch := hostPitch s3, hostYSize := hostYSize s3,
            hostTotalSize := hostTotalSize s3, sf_status := sf_status s3\<rparr>"
    using ensureSurfaceHostBuffer_spec[OF inv2 a(7), of alloc_ok] init assms(3,4) by auto
  let ?s4 = "s3\<lparr>contentX := 0, contentY := 0, contentWidth := w, contentHeight := h, contentValid := False,
      sf_status := VASurfaceReady\<rparr>"
  let ?d4 = "put_obj (o_obj ob) (PSurface ?s4) d3"
  have g: "get_surface d3 (o_obj ob) = Some s3" using e(7) by (simp add: get_surface_def)
  have inv4: "surf_inv ?d4" by (rule surf_inv_update[OF e(2,3)]) simp_all
  have c: "createSurface alloc_ok fmt w h d = Some (o_id ob, ok, if ok then ?d4 else d3)"
    using a(1) e(1) g by (simp add: createSurface_def)
  have always: "(\<forall>m. alloc_ok m) \<longrightarrow> ok"
    using e(1) init(1) a(7,12) assms(1)
    by (auto simp: ensureSurfaceHostBuffer_def get_surface_def malloc_blk_def surf_inv_def split: prod.splits if_splits)
  have fr: "fresh_surface fmt w h ?s4" if ok
    using that e(4,9) by (cases fmt) (simp add: fresh_surface_def init_surface_def zero_surface_def, metis NVSurface.simps)
  have room: "unat (nextObjId d + 1) = Suc (unat (nextObjId d))"
    using assms(2) by (subst unat_add_bounded) (simp_all add: room_for_objects_def)
  have other: "b \<noteq> o_obj ob" if "view d j = Some (t, b)" for j t b
    using that a(8) by (fastforce simp: view_def map_of_find find_Some_iff)
  let ?d' = "if ok then ?d4 else d3"
  have "room_for_objects n ?d'"
    using assms(2) room e(5,8) a(5,10) by (simp add: room_for_objects_def)
  moreover have "view ?d' = (view d)(o_id ob \<mapsto> (OBJECT_TYPE_SURFACE, o_obj ob))" using e(6) a(4) by simp
  moreover have "\<exists>s. heap ?d' = (heap d)(o_obj ob \<mapsto> PSurface s) \<and> (ok \<longrightarrow> fresh_surface fmt w h s)"
    using e(7) a(6) fr by (cases ok) auto
  ultimately have "room_for_objects n ?d' \<and> (\<exists>a. view ?d' = (view d)(o_id ob \<mapsto> (OBJECT_TYPE_SURFACE, a)) \<and>
      (\<forall>j t b. view d j = Some (t, b) \<longrightarrow> b \<noteq> a) \<and>
      (\<exists>s. heap ?d' = (heap d)(a \<mapsto> PSurface s) \<and> (ok \<longrightarrow> fresh_surface fmt w h s)))"
    using other by blast
  moreover have "surf_inv ?d'" "nextObjId ?d' = nextObjId d + 1" using inv4 e(2,8) a(10) by simp_all
  ultimately show ?thesis using c a(3,9) always by (intro exI[of _ "o_id ob"] exI[of _ ok] exI[of _ ?d']) simp
qed

section \<open>The surfaces of one call\<close>

text \<open>
  What a call that makes \<open>n\<close> surfaces promises: the new identifiers are the next \<open>n\<close>
  numbers, each of them names a surface of its own, and every older object is untouched.
\<close>

definition new_surfaces ::
  "surf_choice \<Rightarrow> u32 \<Rightarrow> u32 \<Rightarrow> ('c, 's, 'z) drv \<Rightarrow> u32 list \<Rightarrow> ('c, 's, 'z) drv \<Rightarrow> bool" where
  "new_surfaces fmt w h d ids d' \<longleftrightarrow> distinct ids \<and>
     (\<forall>i \<in> set ids. view d i = None \<and> (\<exists>a s. view d' i = Some (OBJECT_TYPE_SURFACE, a) \<and>
        heap d' a = Some (PSurface s) \<and> fresh_surface fmt w h s)) \<and>
     (\<forall>j t a. view d j = Some (t, a) \<longrightarrow> view d' j = Some (t, a) \<and> heap d' a = heap d a)"

lemma createSurfaces_loop_spec:
  assumes "surf_inv d" "room_for_objects n d" "unat w \<le> 2 ^ 31" "unat h \<le> 2 ^ 31" "\<forall>m. alloc_ok m"
  shows "\<exists>ids d'. createSurfaces_loop alloc_ok fmt w h n d = Some (ids, True, d') \<and> surf_inv d' \<and> length ids = n \<and>
     new_surfaces fmt w h d ids d'"
  using assms(1,2)
proof (induction n arbitrary: d)
  case 0
  then show ?case by (simp add: new_surfaces_def)
next
  case (Suc n)
  obtain i d1 a s where c: "createSurface alloc_ok fmt w h d = Some (i, True, d1)" "surf_inv d1" "room_for_objects n d1"
      "view d i = None" "view d1 = (view d)(i \<mapsto> (OBJECT_TYPE_SURFACE, a))" "\<forall>j t b. view d j = Some (t, b) \<longrightarrow> b \<noteq> a"
      "heap d1 = (heap d)(a \<mapsto> PSurface s)" "fresh_surface fmt w h s"
    using createSurface_spec[OF Suc.prems assms(3,4), of alloc_ok fmt] assms(5) by auto
  obtain ids d2 where l: "createSurfaces_loop alloc_ok fmt w h n d1 = Some (ids, True, d2)" "surf_inv d2" "length ids = n"
      "new_surfaces fmt w h d1 ids d2"
    using Suc.IH[OF c(2,3)] by blast
  have i: "i \<notin> set ids" using l(4) c(5) by (auto simp: new_surfaces_def)
  have "view d1 i = Some (OBJECT_TYPE_SURFACE, a)" "heap d1 a = Some (PSurface s)" using c(5,7) by simp_all
  then have own: "view d2 i = Some (OBJECT_TYPE_SURFACE, a)" "heap d2 a = Some (PSurface s)"
    using l(4) unfolding new_surfaces_def by metis+
  have old: "view d2 j = Some (t, b) \<and> heap d2 b = heap d b" if "view d j = Some (t, b)" for j t b
  proof -
    have "view d1 j = Some (t, b)" "b \<noteq> a" using that c(4,5,6) by auto
    then show ?thesis using l(4) c(7) by (fastforce simp: new_surfaces_def)
  qed
  have new: "view d j = None" if "j \<in> set ids" for j
  proof -
    have "view d1 j = None" "j \<noteq> i" using that i l(4) by (auto simp: new_surfaces_def)
    then show ?thesis using c(5) by simp
  qed
  have "new_surfaces fmt w h d (i # ids) d2"
    using l(4) i own old new c(4,8) unfolding new_surfaces_def by auto
  then show ?case using c(1) l by simp
qed

section \<open>Destroying surfaces\<close>

lemma surf_inv_delete:
  assumes "surf_inv d" "view d i = Some (OBJECT_TYPE_SURFACE, a)" "live d a s"
  shows "\<exists>d1 d2. free_blk (hostData s) d = Some d1 \<and>
     deleteObject (put_obj a (PSurface (s\<lparr>hostData := NULL\<rparr>)) d1) i = Some d2 \<and> surf_inv d2 \<and>
     view d2 = (view d)(i := None) \<and> heap d2 = (heap d)(a := None) \<and>
     mem d2 = (if hostData s = NULL then mem d else (mem d)(hostData s := None))"
proof -
  let ?m = "if hostData s = NULL then mem d else (mem d)(hostData s := None)"
  let ?d1 = "d\<lparr>mem := ?m\<rparr>"
  let ?d = "put_obj a (PSurface (s\<lparr>hostData := NULL\<rparr>)) ?d1"
  have h: "heap d a = Some (PSurface s)" using assms(3) by (simp add: live_def)
  have f: "free_blk (hostData s) d = Some ?d1"
    using assms(1,3) by (fastforce simp: free_blk_def surf_inv_def host_ok_def)
  have ty: "typed ?d" using assms(1) h by (auto simp: surf_inv_def intro: typed_put_obj)
  obtain d2 where d2: "deleteObject ?d i = Some d2" "typed d2" "view d2 = (view d)(i := None)"
      "table d2 = filter (\<lambda>ob. o_id ob \<noteq> i) (table d)" "heap d2 = (heap d)(a := None)"
      "mem d2 = ?m" "nextBlk d2 = nextBlk d"
    using delete_typed[OF ty, of i] assms(2) by auto
  have lv: "live d b t \<and> b \<noteq> a" if "live d2 b t" for b t
    using that d2(4,5) by (auto simp: live_def split: if_splits)
  have other: "hostData t \<noteq> hostData s" if "live d b t" "b \<noteq> a" "hostData s \<noteq> NULL" for b t
    using that assms(1,3) unfolding surf_inv_def by metis
  have ok: "host_ok d2 t" if "live d2 b t" for b t
  proof -
    have "host_ok d t" using lv[OF that] assms(1) unfolding surf_inv_def by blast
    then show ?thesis using lv[OF that] other[of b t] d2(6) by (auto simp: host_ok_def)
  qed
  have "\<forall>b. mem d2 b \<noteq> None \<longrightarrow> b < nextBlk d2"
    using assms(1) d2(6,7) unfolding surf_inv_def by (auto split: if_splits)
  moreover have "\<forall>b b' t t'. live d2 b t \<and> live d2 b' t' \<and> b \<noteq> b' \<and> hostData t = hostData t' \<longrightarrow> hostData t = NULL"
    using assms(1) lv unfolding surf_inv_def by blast
  ultimately have "surf_inv d2" using d2(2,7) ok assms(1) unfolding surf_inv_def by simp
  then show ?thesis using f d2 by blast
qed

lemma surf_inv_truncate:
  assumes "surf_inv d" "NVDriver.truncate d' = NVDriver.truncate d"
  shows "surf_inv d'" "live d' a s = live d a s"
proof -
  note t = truncate_fields[OF assms(2)]
  show lv: "live d' a s = live d a s" for a s by (simp add: live_def t)
  have "typed d' = typed d" by (simp add: typed_def objtab_wf_def t)
  moreover have "host_ok d' s = host_ok d s" for s by (simp add: host_ok_def t)
  ultimately show "surf_inv d'" using assms(1) by (simp add: surf_inv_def lv t)
qed

lemma destroy_loop:
  assumes "surf_inv d" "distinct ids" "\<forall>i \<in> set ids. \<exists>a. view d i = Some (OBJECT_TYPE_SURFACE, a)"
    "\<forall>a. keeps_driver I (detach a)" "I (NVDriver.more d)"
  shows "\<exists>d'. nvDestroySurfaces detach ids d = Some (VA_STATUS_SUCCESS, d') \<and> surf_inv d' \<and> I (NVDriver.more d') \<and>
     view d' = view d |` (- set ids) \<and>
     (\<forall>j t a. j \<notin> set ids \<longrightarrow> view d j = Some (t, a) \<longrightarrow> heap d' a = heap d a) \<and>
     (\<forall>b. mem d' b = (if b \<noteq> NULL \<and> (\<exists>i \<in> set ids. \<exists>a s. view d i = Some (OBJECT_TYPE_SURFACE, a) \<and>
        heap d a = Some (PSurface s) \<and> hostData s = b) then None else mem d b))"
  using assms(1-3,5)
proof (induction ids arbitrary: d)
  case Nil
  then show ?case by (auto simp: restrict_map_def)
next
  case (Cons i ids)
  obtain a where v: "view d i = Some (OBJECT_TYPE_SURFACE, a)" using Cons.prems(3) by auto
  have ty: "typed d" using Cons.prems(1) by (simp add: surf_inv_def)
  have an: "a \<noteq> NULL" using typed_view[OF ty v] by blast
  have g: "getObjectPtr d OBJECT_TYPE_SURFACE i = Some a" using typed_get[OF ty] v by simp
  obtain s where s: "live d a s" using live_surface[OF ty g an] by blast
  obtain d0 where d0: "detach a d = Some d0" "NVDriver.truncate d0 = NVDriver.truncate d" "I (NVDriver.more d0)"
    using assms(4) Cons.prems(4) unfolding keeps_driver_def by blast
  note t = truncate_fields[OF d0(2)]
  have inv0: "surf_inv d0" "live d0 a s" using surf_inv_truncate[OF Cons.prems(1) d0(2)] s by simp_all
  have v0: "view d0 i = Some (OBJECT_TYPE_SURFACE, a)" using v t by simp
  obtain d1 d2 where d2: "free_blk (hostData s) d0 = Some d1"
      "deleteObject (put_obj a (PSurface (s\<lparr>hostData := NULL\<rparr>)) d1) i = Some d2" "surf_inv d2"
      "view d2 = (view d)(i := None)" "heap d2 = (heap d)(a := None)"
      "mem d2 = (if hostData s = NULL then mem d else (mem d)(hostData s := None))"
    using surf_inv_delete[OF inv0(1) v0 inv0(2)] t by auto
  have gs: "get_surface d0 a = Some s" using inv0(2) by (simp add: live_def get_surface_def)
  have sp: "\<forall>j \<in> set ids. \<exists>a. view d2 j = Some (OBJECT_TYPE_SURFACE, a)"
    using Cons.prems(2,3) d2(4) by auto
  have m2: "I (NVDriver.more d2)"
    using d0(3) free_blk_more[OF d2(1)] deleteObject_more[OF d2(2)] by simp
  obtain d' where d': "nvDestroySurfaces detach ids d2 = Some (VA_STATUS_SUCCESS, d')" "surf_inv d'"
      "view d' = view d2 |` (- set ids)"
      "\<forall>j t a. j \<notin> set ids \<longrightarrow> view d2 j = Some (t, a) \<longrightarrow> heap d' a = heap d2 a"
      "\<forall>b. mem d' b = (if b \<noteq> NULL \<and> (\<exists>i \<in> set ids. \<exists>a s. view d2 i = Some (OBJECT_TYPE_SURFACE, a) \<and>
         heap d2 a = Some (PSurface s) \<and> hostData s = b) then None else mem d2 b)"
      "I (NVDriver.more d')"
    using Cons.IH[OF d2(3) _ sp m2] Cons.prems(2) by auto
  have e: "nvDestroySurfaces detach (i # ids) d = Some (VA_STATUS_SUCCESS, d')"
    using g an d0(1) gs d2(1,2) d'(1) by simp
  have other: "b \<noteq> a" if "view d j = Some (u, b)" "j \<noteq> i" for j u b
    using typed_view_inj[OF ty v, of j u] that by blast
  have vw: "view d' = view d |` (- set (i # ids))"
    using d'(3) d2(4) by (auto simp: restrict_map_def fun_eq_iff)
  have hp: "\<forall>j t b. j \<notin> set (i # ids) \<longrightarrow> view d j = Some (t, b) \<longrightarrow> heap d' b = heap d b"
  proof (intro allI impI)
    fix j t b
    assume j: "j \<notin> set (i # ids)" "view d j = Some (t, b)"
    then have "view d2 j = Some (t, b)" "b \<noteq> a" using d2(4) other by auto
    then show "heap d' b = heap d b" using d'(4) j(1) d2(5) by (metis fun_upd_other list.set_intros(2))
  qed
  have ids2: "(\<exists>j \<in> set ids. \<exists>x s'. view d2 j = Some (OBJECT_TYPE_SURFACE, x) \<and> heap d2 x = Some (PSurface s') \<and> hostData s' = b)
      = (\<exists>j \<in> set ids. \<exists>x s'. view d j = Some (OBJECT_TYPE_SURFACE, x) \<and> heap d x = Some (PSurface s') \<and> hostData s' = b)" for b
  proof (rule bex_cong[OF refl])
    fix j assume "j \<in> set ids"
    then have "j \<noteq> i" using Cons.prems(2) by auto
    then show "(\<exists>x s'. view d2 j = Some (OBJECT_TYPE_SURFACE, x) \<and> heap d2 x = Some (PSurface s') \<and> hostData s' = b)
      = (\<exists>x s'. view d j = Some (OBJECT_TYPE_SURFACE, x) \<and> heap d x = Some (PSurface s') \<and> hostData s' = b)"
      using other[of j] d2(4,5) by auto
  qed
  have hs: "heap d a = Some (PSurface s)" using s by (simp add: live_def)
  have mm: "\<forall>b. mem d' b = (if b \<noteq> NULL \<and> (\<exists>i \<in> set (i # ids). \<exists>a s. view d i = Some (OBJECT_TYPE_SURFACE, a) \<and>
        heap d a = Some (PSurface s) \<and> hostData s = b) then None else mem d b)"
    using d'(5) d2(6) v hs unfolding ids2 by auto
  show ?case using e d'(2,6) vw hp mm by blast
qed

section \<open>Properties\<close>

lemma round_size_bounded:
  assumes "unat w < 2 ^ 31" "unat h < 2 ^ 31" "round_size cf w h = (w', h')"
  shows "unat w' \<le> 2 ^ 31" "unat h' \<le> 2 ^ 31" "unat w \<le> unat w'" "unat h \<le> unat h'"
proof -
  have r: "unat n \<le> unat (ROUND_UP n 2) \<and> unat (ROUND_UP n 2) \<le> 2 ^ 31" if "unat n < 2 ^ 31" for n
    using nat_round_up_bounds[of 2 "unat n"] that by (subst (1 2) unat_ROUND_UP) auto
  show "unat w' \<le> 2 ^ 31" "unat h' \<le> 2 ^ 31" "unat w \<le> unat w'" "unat h \<le> unat h'"
    using assms r[OF assms(1)] r[OF assms(2)] by (auto simp: round_size_def split: cudaVideoChromaFormat.splits)
qed

text \<open>
  C34: creating surfaces in a supported format returns success and as many identifiers as asked
  for; they are distinct and new, each names a ready surface of its own with the rounded size (never
  smaller than the requested one) and a host copy, every older object is untouched, and the
  invariant (each host copy is a block of exactly the size its pitch and height imply,
  shared by no other surface) is kept.
\<close>

theorem nvCreateSurfaces2_fresh:
  assumes "surf_inv d" "room_for_objects n d" "unat w < 2 ^ 31" "unat h < 2 ^ 31"
    "surface_format format = Some fmt" "round_size (fst (snd fmt)) w h = (w', h')" "\<forall>m. alloc_ok m"
  shows "\<exists>ids d'. nvCreateSurfaces2 alloc_ok True True d format w h n = Some ((VA_STATUS_SUCCESS, ids), d') \<and>
     length ids = n \<and> new_surfaces fmt w' h' d ids d' \<and> surf_inv d' \<and> unat w \<le> unat w' \<and> unat h \<le> unat h'"
  using createSurfaces_loop_spec[OF assms(1,2) round_size_bounded(1,2)[OF assms(3,4,6)] assms(7), of fmt]
    round_size_bounded(3,4)[OF assms(3,4,6)] assms(5,6)
  by (auto simp: nvCreateSurfaces2_def)

theorem nvCreateSurfaces2_fresh_witness:
  "\<exists>ids d'. nvCreateSurfaces2 (\<lambda>_. True) True True empty_drv VA_RT_FORMAT_YUV420 5 3 2 =
     Some ((VA_STATUS_SUCCESS, ids), d') \<and> length ids = 2 \<and>
     new_surfaces (cudaVideoSurfaceFormat_NV12, cudaVideoChromaFormat_420, 8) 6 4 empty_drv ids d' \<and> surf_inv d'"
proof -
  have "room_for_objects 2 empty_drv"
    by (simp add: room_for_objects_def empty_drv_def table_def)
  moreover have "surface_format VA_RT_FORMAT_YUV420 = Some (cudaVideoSurfaceFormat_NV12, cudaVideoChromaFormat_420, 8)"
    by (simp add: surface_format_def)
  moreover have "round_size cudaVideoChromaFormat_420 5 3 = (6, 4)" by code_simp
  ultimately show ?thesis
    using nvCreateSurfaces2_fresh[OF surf_inv_empty, of 2 5 3 VA_RT_FORMAT_YUV420
        "(cudaVideoSurfaceFormat_NV12, cudaVideoChromaFormat_420, 8)" 6 4 "\<lambda>_. True"] by auto
qed

text \<open>
  C35: destroying distinct live surfaces succeeds whenever the backend's detach call leaves the
  driver's own state alone and keeps the backend's invariant: exactly the given identifiers are forgotten, exactly their host copies are
  released, all other objects and blocks are unchanged, and the invariant is kept.
\<close>

theorem nvDestroySurfaces_releases:
  assumes "surf_inv d" "distinct ids" "\<forall>i \<in> set ids. \<exists>a. view d i = Some (OBJECT_TYPE_SURFACE, a)"
    "\<forall>a. keeps_driver I (detach a)" "I (NVDriver.more d)"
  shows "\<exists>d'. nvDestroySurfaces detach ids d = Some (VA_STATUS_SUCCESS, d') \<and> surf_inv d' \<and> I (NVDriver.more d') \<and>
     view d' = view d |` (- set ids) \<and>
     (\<forall>j t a. j \<notin> set ids \<longrightarrow> view d j = Some (t, a) \<longrightarrow> heap d' a = heap d a) \<and>
     (\<forall>b. mem d' b = (if b \<noteq> NULL \<and> (\<exists>i \<in> set ids. \<exists>a s. view d i = Some (OBJECT_TYPE_SURFACE, a) \<and>
        heap d a = Some (PSurface s) \<and> hostData s = b) then None else mem d b))"
  by (rule destroy_loop[OF assms])

theorem nvDestroySurfaces_releases_witness:
  "\<exists>ids d d'. nvCreateSurfaces2 (\<lambda>_. True) True True empty_drv VA_RT_FORMAT_YUV420 16 16 3 =
     Some ((VA_STATUS_SUCCESS, ids), d) \<and> length ids = 3 \<and>
     nvDestroySurfaces (\<lambda>_. Some) ids d = Some (VA_STATUS_SUCCESS, d') \<and> surf_inv d' \<and> view d' = view d |` (- set ids)"
proof -
  let ?f = "(cudaVideoSurfaceFormat_NV12, cudaVideoChromaFormat_420, 8)"
  have r: "room_for_objects 3 empty_drv"
    by (simp add: room_for_objects_def empty_drv_def table_def)
  obtain ids d where l:
      "createSurfaces_loop (\<lambda>_. True) ?f 16 16 3 empty_drv = Some (ids, True, d)" "surf_inv d" "length ids = 3"
      "new_surfaces ?f 16 16 empty_drv ids d"
    using createSurfaces_loop_spec[OF surf_inv_empty r, of 16 16 "\<lambda>_. True" ?f] by auto
  have rs: "round_size cudaVideoChromaFormat_420 16 16 = (16, 16)" by code_simp
  have c: "nvCreateSurfaces2 (\<lambda>_. True) True True empty_drv VA_RT_FORMAT_YUV420 16 16 3 =
      Some ((VA_STATUS_SUCCESS, ids), d)"
    using l(1) rs by (simp add: nvCreateSurfaces2_def surface_format_def)
  have p: "distinct ids" "\<forall>i \<in> set ids. \<exists>a. view d i = Some (OBJECT_TYPE_SURFACE, a)"
    using l(4) unfolding new_surfaces_def by blast+
  have "\<forall>a :: addr. keeps_driver (\<lambda>_. True) ((\<lambda>_. Some) a)" by (simp add: keeps_driver_def)
  then show ?thesis using nvDestroySurfaces_releases[OF l(2) p] c l(3) by fastforce
qed

end
