(* ===== verification/Buffers.thy ===== *)
theory Buffers
  imports Surfaces
begin

text \<open>
  Data buffers (\<^verbatim>\<open>src/src/vabackend.c\<close>: \<open>nvCreateBuffer\<close>, \<open>nvBufferSetNumElements\<close>,
  \<open>nvMapBuffer\<close>, \<open>nvUnmapBuffer\<close>, \<open>nvDestroyBuffer\<close>, \<open>nvBufferInfo\<close>).  A
  buffer owns a raw block, or points into the host copy of a surface when it belongs to a derived
  image; mapping such a buffer holds the surface's mutex, or in the strict mode of the encoder works
  on a shadow copy.
\<close>

section \<open>Operations\<close>

definition NVENC_CODED_BUF_SIZE :: u64 where
  "NVENC_CODED_BUF_SIZE = 4 * 1024 * 1024"

text \<open>The reserved identifier is that of every object type (\<^verbatim>\<open>va.h\<close>).\<close>

abbreviation (input) VA_INVALID_SURFACE :: u32 where
  "VA_INVALID_SURFACE \<equiv> VA_INVALID_ID"

definition zero_buffer :: NVBuffer where
  "zero_buffer = \<lparr>elements = 0, b_size = 0, bufferType = VAPictureParameterBufferType, b_ptr = NULL, b_offset = 0,
     ownsPtr = False, codedData = NULL, codedCapacity = 0, codedSegSize = 0, codedSegStatus = 0, surfaceId = 0, commitOnUnmap = False,
     mappedSurfaceLock = False\<rparr>"

text \<open>
  The client's pointer: its numeric address, the memory region it points into and its position
  there.
\<close>

record client_ptr =
  cl_addr :: u64
  cl_bytes :: "u8 list"
  cl_pos :: nat

text \<open>Reading from \<open>off\<close> bytes before a client pointer.\<close>

definition client_read :: "client_ptr \<Rightarrow> nat \<Rightarrow> nat \<Rightarrow> u8 list option" where
  "client_read p off n = do {
     guard (off \<le> cl_pos p);
     read_bytes (cl_bytes p) (cl_pos p - off) n
   }"

text \<open>
  \<open>seg_size\<close> is \<^verbatim>\<open>sizeof(VACodedBufferSegment)\<close> of \<^verbatim>\<open>va.h\<close>.  The guard of
  \<open>vp8_hack\<close> is the one of the source; the pointer stays NULL when no data is given.
\<close>

definition vp8_hack :: "bool \<Rightarrow> ('c, 's) NVContext option \<Rightarrow> VABufferType \<Rightarrow> bool" where
  "vp8_hack isEncode nvCtx ty \<longleftrightarrow> \<not> isEncode \<and>
     (case nvCtx of None \<Rightarrow> False | Some c \<Rightarrow> cx_profile c = VAProfileVP8Version0_3) \<and> ty = VASliceDataBufferType"

definition create_coded ::
  "(nat \<Rightarrow> bool) \<Rightarrow> nat \<Rightarrow> Object_t \<Rightarrow> NVBuffer \<Rightarrow> ('c, 's, 'z) drv \<Rightarrow> ((VAStatus \<times> u32) \<times> ('c, 's, 'z) drv) option" where
  "create_coded alloc_ok seg_size ob buf d =
     (let cap = (if NVENC_CODED_BUF_SIZE < b_size buf then b_size buf else NVENC_CODED_BUF_SIZE);
          (p, d) = malloc_blk alloc_ok (seg_size + unat cap) (Some 0) d
      in if p = NULL then do {
           d \<leftarrow> deleteObject d (o_id ob);
           Some ((VA_STATUS_ERROR_ALLOCATION_FAILED, o_id ob), d)
         }
         else Some ((VA_STATUS_SUCCESS, o_id ob),
                put_obj (o_obj ob) (PBuffer (buf\<lparr>codedData := p, codedCapacity := cap, codedSegSize := 0, codedSegStatus := 0\<rparr>)) d))"

definition create_plain ::
  "(nat \<Rightarrow> bool) \<Rightarrow> Object_t \<Rightarrow> NVBuffer \<Rightarrow> nat \<Rightarrow> client_ptr option \<Rightarrow> ('c, 's, 'z) drv \<Rightarrow>
   ((VAStatus \<times> u32) \<times> ('c, 's, 'z) drv) option" where
  "create_plain alloc_ok ob buf off data d =
     (let (p, d) = malloc_blk alloc_ok (unat (b_size buf)) None d
      in if p = NULL then do {
           d \<leftarrow> deleteObject d (o_id ob);
           Some ((VA_STATUS_ERROR_ALLOCATION_FAILED, o_id ob), d)
         }
         else do {
           let d = put_obj (o_obj ob) (PBuffer (buf\<lparr>b_ptr := p\<rparr>)) d;
           d \<leftarrow> (case data of
                  None \<Rightarrow> Some d
                | Some q \<Rightarrow> do {
                    bs \<leftarrow> client_read q off (unat (b_size buf));
                    mem_write d p 0 (map Some bs)
                  });
           Some ((VA_STATUS_SUCCESS, o_id ob), d)
         })"

definition new_buffer :: "VABufferType \<Rightarrow> u32 \<Rightarrow> u32 \<Rightarrow> u64 \<Rightarrow> NVBuffer" where
  "new_buffer ty sz num_elements off =
     zero_buffer\<lparr>bufferType := ty, elements := num_elements, b_size := ucast (num_elements * sz),
       b_offset := off, ownsPtr := True, surfaceId := VA_INVALID_SURFACE, commitOnUnmap := False,
       mappedSurfaceLock := False\<rparr>"

definition nvCreateBuffer ::
  "(nat \<Rightarrow> bool) \<Rightarrow> nat \<Rightarrow> ('c, 's, 'z) drv \<Rightarrow> u32 \<Rightarrow> VABufferType \<Rightarrow> u32 \<Rightarrow> u32 \<Rightarrow> client_ptr option \<Rightarrow>
   ((VAStatus \<times> u32) \<times> ('c, 's, 'z) drv) option" where
  "nvCreateBuffer alloc_ok seg_size d cxid ty sz num_elements data = do {
     ca \<leftarrow> getObjectPtr d OBJECT_TYPE_CONTEXT cxid;
     if cxid \<noteq> 0 \<and> ca = NULL then Some ((VA_STATUS_ERROR_INVALID_CONTEXT, 0), d)
     else do {
       nvCtx \<leftarrow> (if ca = NULL then Some None else map_option Some (get_context d ca));
       let isEncode = (case nvCtx of None \<Rightarrow> False | Some c \<Rightarrow> cx_mode c = NV_CONTEXT_ENCODE);
       let off = (if vp8_hack isEncode nvCtx ty then (case data of None \<Rightarrow> 0 | Some q \<Rightarrow> cl_addr q AND 0xf) else 0);
       let sz = sz + ucast off;
       (ob, d) \<leftarrow> allocateObject d OBJECT_TYPE_BUFFER (Some (PBuffer zero_buffer));
       let buf = new_buffer ty sz num_elements off;
       let d = put_obj (o_obj ob) (PBuffer buf) d;
       if isEncode \<and> ty = VAEncCodedBufferType then create_coded alloc_ok seg_size ob buf d
       else create_plain alloc_ok ob buf (unat off) data d
     }
   }"

definition nvBufferSetNumElements :: "('c, 's, 'z) drv \<Rightarrow> u32 \<Rightarrow> u32 \<Rightarrow> (VAStatus \<times> ('c, 's, 'z) drv) option" where
  "nvBufferSetNumElements d i n = do {
     a \<leftarrow> getObjectPtr d OBJECT_TYPE_BUFFER i;
     if a = NULL then Some (VA_STATUS_ERROR_INVALID_BUFFER, d)
     else do {
       b \<leftarrow> get_buffer d a;
       Some (VA_STATUS_SUCCESS, put_obj a (PBuffer (b\<lparr>elements := n\<rparr>)) d)
     }
   }"

definition nvBufferInfo :: "('c, 's, 'z) drv \<Rightarrow> u32 \<Rightarrow> (VAStatus \<times> (VABufferType \<times> u32 \<times> u32) option) option" where
  "nvBufferInfo d i = do {
     a \<leftarrow> getObjectPtr d OBJECT_TYPE_BUFFER i;
     if a = NULL then Some (VA_STATUS_ERROR_INVALID_BUFFER, None)
     else do {
       b \<leftarrow> get_buffer d a;
       Some (VA_STATUS_SUCCESS, Some (bufferType b, ucast (b_size b), elements b))
     }
   }"

text \<open>The two guards on the surface of a derived image.\<close>

definition is_derived :: "NVBuffer \<Rightarrow> bool" where
  "is_derived b \<longleftrightarrow> bufferType b = VAImageBufferType \<and> surfaceId b \<noteq> VA_INVALID_SURFACE"

text \<open>The strict path of \<open>nvMapBuffer\<close>: a shadow block of the surface's size, filled under the mutex.\<close>

definition map_shadow ::
  "(nat \<Rightarrow> bool) \<Rightarrow> addr \<Rightarrow> addr \<Rightarrow> ('c, 's, 'z) drv \<Rightarrow> ((VAStatus \<times> addr option) \<times> ('c, 's, 'z) drv) option" where
  "map_shadow alloc_ok ba sa d = do {
     b \<leftarrow> get_buffer d ba;
     s \<leftarrow> get_surface d sa;
     let need = hostTotalSize s;
     (ok, d) \<leftarrow>
       (if \<not> ownsPtr b \<or> b_ptr b = hostData s \<or> b_size b \<noteq> need \<or> b_ptr b = NULL
        then do {
          (shadow, d) \<leftarrow> realloc_blk alloc_ok (if ownsPtr b \<and> b_ptr b \<noteq> NULL then b_ptr b else NULL) (unat need) d;
          if shadow = NULL then Some (False, d)
          else Some (True, put_obj ba (PBuffer (b\<lparr>b_ptr := shadow, b_size := need, ownsPtr := True\<rparr>)) d)
        }
        else Some (True, d));
     if \<not> ok then Some ((VA_STATUS_ERROR_ALLOCATION_FAILED, None), d)
     else do {
       b \<leftarrow> get_buffer d ba;
       d \<leftarrow> lock_surface sa d;
       d \<leftarrow> mem_copy d (b_ptr b) 0 (hostData s) 0 (unat need);
       d \<leftarrow> unlock_surface sa d;
       Some ((VA_STATUS_SUCCESS, Some (b_ptr b)), d)
     }
   }"

definition map_direct ::
  "addr \<Rightarrow> ('c, 's, 'z) drv \<Rightarrow> ((VAStatus \<times> addr option) \<times> ('c, 's, 'z) drv) option" where
  "map_direct ba d = do {
     b \<leftarrow> get_buffer d ba;
     let pbuf = (if codedData b \<noteq> NULL then codedData b else b_ptr b);
     if is_derived b \<and> \<not> mappedSurfaceLock b then do {
       sa \<leftarrow> getObjectPtr d OBJECT_TYPE_SURFACE (surfaceId b);
       if sa = NULL then Some ((VA_STATUS_SUCCESS, Some pbuf), d)
       else do {
         d \<leftarrow> lock_surface sa d;
         Some ((VA_STATUS_SUCCESS, Some pbuf), put_obj ba (PBuffer (b\<lparr>mappedSurfaceLock := True\<rparr>)) d)
       }
     }
     else Some ((VA_STATUS_SUCCESS, Some pbuf), d)
   }"

definition nvMapBuffer ::
  "(nat \<Rightarrow> bool) \<Rightarrow> ('c, 's, 'z) drv \<Rightarrow> u32 \<Rightarrow> ((VAStatus \<times> addr option) \<times> ('c, 's, 'z) drv) option" where
  "nvMapBuffer alloc_ok d i = do {
     ba \<leftarrow> getObjectPtr d OBJECT_TYPE_BUFFER i;
     if ba = NULL then Some ((VA_STATUS_ERROR_INVALID_BUFFER, None), d)
     else do {
       b \<leftarrow> get_buffer d ba;
       if is_derived b then do {
         sa \<leftarrow> getObjectPtr d OBJECT_TYPE_SURFACE (surfaceId b);
         (ok, d) \<leftarrow> ensureSurfaceHostBuffer alloc_ok sa d;
         if ok \<and> g_encStrictMode d then map_shadow alloc_ok ba sa d
         else map_direct ba d
       }
       else map_direct ba d
     }
   }"

definition set_full_content :: "addr \<Rightarrow> ('c, 's, 'z) drv \<Rightarrow> ('c, 's, 'z) drv option" where
  "set_full_content sa d = do {
     s \<leftarrow> get_surface d sa;
     Some (put_obj sa (PSurface (s\<lparr>contentX := 0, contentY := 0, contentWidth := sf_width s,
       contentHeight := sf_height s, contentValid := True, sf_status := VASurfaceReady\<rparr>)) d)
   }"

text \<open>\<open>copy\<close> of the source: the smaller of the buffer and the host copy.\<close>

definition copy_back :: "addr \<Rightarrow> addr \<Rightarrow> ('c, 's, 'z) drv \<Rightarrow> ('c, 's, 'z) drv option" where
  "copy_back ba sa d = do {
     b \<leftarrow> get_buffer d ba;
     s \<leftarrow> get_surface d sa;
     let n = (if hostTotalSize s < b_size b then hostTotalSize s else b_size b);
     d \<leftarrow> lock_surface sa d;
     mem_copy d (hostData s) 0 (b_ptr b) 0 (unat n)
   }"

definition unmap_derived :: "addr \<Rightarrow> addr \<Rightarrow> ('c, 's, 'z) drv \<Rightarrow> ('c, 's, 'z) drv option" where
  "unmap_derived ba sa d = do {
     b \<leftarrow> get_buffer d ba;
     let strict = (g_encStrictMode d \<and> b_ptr b \<noteq> NULL \<and> ownsPtr b);
     d \<leftarrow> (if strict then copy_back ba sa d
          else if \<not> mappedSurfaceLock b then lock_surface sa d
          else Some d);
     d \<leftarrow> set_full_content sa d;
     d \<leftarrow> unlock_surface sa d;
     Some (if strict \<or> \<not> mappedSurfaceLock b then d
           else put_obj ba (PBuffer (b\<lparr>mappedSurfaceLock := False\<rparr>)) d)
   }"

definition unmap_commit :: "addr \<Rightarrow> addr \<Rightarrow> ('c, 's, 'z) drv \<Rightarrow> ('c, 's, 'z) drv option" where
  "unmap_commit ba sa d = do {
     d \<leftarrow> copy_back ba sa d;
     d \<leftarrow> set_full_content sa d;
     unlock_surface sa d
   }"

text \<open>Both halves of \<open>nvUnmapBuffer\<close> look the surface up again.\<close>

definition with_surface ::
  "(nat \<Rightarrow> bool) \<Rightarrow> (addr \<Rightarrow> ('c, 's, 'z) drv \<Rightarrow> ('c, 's, 'z) drv option) \<Rightarrow> u32 \<Rightarrow> ('c, 's, 'z) drv \<Rightarrow>
   ('c, 's, 'z) drv option" where
  "with_surface alloc_ok f i d = do {
     sa \<leftarrow> getObjectPtr d OBJECT_TYPE_SURFACE i;
     (ok, d) \<leftarrow> ensureSurfaceHostBuffer alloc_ok sa d;
     if ok then f sa d else Some d
   }"

definition nvUnmapBuffer :: "(nat \<Rightarrow> bool) \<Rightarrow> ('c, 's, 'z) drv \<Rightarrow> u32 \<Rightarrow> (VAStatus \<times> ('c, 's, 'z) drv) option" where
  "nvUnmapBuffer alloc_ok d i = do {
     ba \<leftarrow> getObjectPtr d OBJECT_TYPE_BUFFER i;
     if ba = NULL then Some (VA_STATUS_ERROR_INVALID_BUFFER, d)
     else do {
       b \<leftarrow> get_buffer d ba;
       d \<leftarrow> (if is_derived b then with_surface alloc_ok (unmap_derived ba) (surfaceId b) d else Some d);
       b \<leftarrow> get_buffer d ba;
       d \<leftarrow> (if commitOnUnmap b \<and> surfaceId b \<noteq> VA_INVALID_SURFACE \<and> b_ptr b \<noteq> NULL
            then with_surface alloc_ok (unmap_commit ba) (surfaceId b) d else Some d);
       Some (VA_STATUS_SUCCESS, d)
     }
   }"

definition nvDestroyBuffer :: "('c, 's, 'z) drv \<Rightarrow> u32 \<Rightarrow> (VAStatus \<times> ('c, 's, 'z) drv) option" where
  "nvDestroyBuffer d i = do {
     ba \<leftarrow> getObjectPtr d OBJECT_TYPE_BUFFER i;
     if ba = NULL then Some (VA_STATUS_ERROR_INVALID_BUFFER, d)
     else do {
       b \<leftarrow> get_buffer d ba;
       d \<leftarrow> (if b_ptr b \<noteq> NULL \<and> ownsPtr b then free_blk (b_ptr b) d else Some d);
       d \<leftarrow> (if codedData b \<noteq> NULL then free_blk (codedData b) d else Some d);
       d \<leftarrow> (if mappedSurfaceLock b \<and> surfaceId b \<noteq> VA_INVALID_SURFACE then do {
               sa \<leftarrow> getObjectPtr d OBJECT_TYPE_SURFACE (surfaceId b);
               d \<leftarrow> (if sa = NULL then Some d else unlock_surface sa d);
               Some (put_obj ba (PBuffer (b\<lparr>mappedSurfaceLock := False\<rparr>)) d)
             } else Some d);
       d \<leftarrow> deleteObject d i;
       Some (VA_STATUS_SUCCESS, d)
     }
   }"

section \<open>Framing the surface invariant\<close>

text \<open>The surfaces are untouched, and their host copies keep their lengths.\<close>

lemma surf_inv_frame:
  assumes "surf_inv d" "typed d'" "nextBlk d \<le> nextBlk d'" "\<And>b. mem d' b \<noteq> None \<Longrightarrow> b < nextBlk d'"
    "\<And>a s. live d' a s \<longleftrightarrow> live d a s"
    "\<And>b blk. mem d b = Some blk \<Longrightarrow> (\<exists>a s. live d a s \<and> hostData s = b) \<Longrightarrow> \<exists>blk'. mem d' b = Some blk' \<and> length blk' = length blk"
  shows "surf_inv d'"
proof -
  have "host_ok d' s" if "live d a s" for a s
  proof (cases "hostData s = NULL")
    case False
    have "host_ok d s" using assms(1) that unfolding surf_inv_def by blast
    then show ?thesis using False assms(6) that unfolding host_ok_def by metis
  qed (simp add: host_ok_def)
  then show ?thesis using assms(1-5) unfolding surf_inv_def by auto
qed

lemma surf_inv_new_object:
  assumes "surf_inv d" "objtab_room d" "payload_type v = ty" "ty \<noteq> OBJECT_TYPE_SURFACE"
  shows "\<exists>ob d'. allocateObject d ty (Some v) = Some (ob, d') \<and> surf_inv d' \<and> view d (o_id ob) = None \<and>
     view d' = (view d)(o_id ob \<mapsto> (ty, o_obj ob)) \<and> heap d' = (heap d)(o_obj ob \<mapsto> v) \<and> mem d' = mem d \<and>
     nextBlk d' = nextBlk d \<and> (\<forall>j t c. view d j = Some (t, c) \<longrightarrow> c \<noteq> o_obj ob) \<and> o_obj ob \<noteq> NULL \<and>
     (\<forall>a s. live d' a s = live d a s) \<and> g_encStrictMode d' = g_encStrictMode d \<and> o_id ob = nextObjId d + 1 \<and>
     nextObjId d' = nextObjId d + 1 \<and> table d' = table d @ [ob]"
proof -
  have ty: "typed d" using assms(1) by (simp add: surf_inv_def)
  obtain ob d' where a: "allocateObject d ty (Some v) = Some (ob, d')" "typed d'"
      "view d (o_id ob) = None" "view d' = (view d)(o_id ob \<mapsto> (ty, o_obj ob))"
      "table d' = table d @ [ob]" "heap d' = (heap d)(o_obj ob \<mapsto> v)" "o_obj ob \<noteq> NULL"
      "\<forall>ob' \<in> set (table d). o_obj ob' \<noteq> o_obj ob" "o_id ob = nextObjId d + 1" "nextObjId d' = nextObjId d + 1"
      "mem d' = mem d" "nextBlk d' = nextBlk d" "g_encStrictMode d' = g_encStrictMode d"
    using allocate_typed[OF ty assms(2,3)] by auto
  have v: "v \<noteq> PSurface s" for s using assms(3,4) by auto
  have lv: "live d' a s = live d a s" for a s using a(5,6,8) v by (auto simp: live_def)
  have other: "c \<noteq> o_obj ob" if "view d j = Some (t, c)" for j t c
    using that a(8) by (fastforce simp: view_def map_of_find find_Some_iff)
  have "surf_inv d'"
    by (rule surf_inv_frame[OF assms(1) a(2)]) (use a lv assms(1) in \<open>auto simp: surf_inv_def\<close>)
  then show ?thesis using a other lv by blast
qed

lemma surf_inv_put_other:
  assumes "surf_inv d" "heap d a = Some v" "payload_type v' = payload_type v" "payload_type v \<noteq> OBJECT_TYPE_SURFACE"
  shows "surf_inv (put_obj a v' d)" "live (put_obj a v' d) b s = live d b s"
proof -
  have nv: "v \<noteq> PSurface t" "v' \<noteq> PSurface t" for t using assms(3,4) by auto
  show lv: "live (put_obj a v' d) b s = live d b s" for b s using assms(2) nv by (auto simp: live_def)
  show "surf_inv (put_obj a v' d)"
    by (rule surf_inv_frame[OF assms(1)])
      (use assms lv in \<open>auto simp: surf_inv_def intro: typed_put_obj\<close>)
qed

lemma surf_inv_malloc:
  assumes "surf_inv d"
  shows "surf_inv (d\<lparr>mem := (mem d)(nextBlk d \<mapsto> blk), nextBlk := Suc (nextBlk d)\<rparr>)"
    "mem d (nextBlk d) = None"
proof -
  let ?d = "d\<lparr>mem := (mem d)(nextBlk d \<mapsto> blk), nextBlk := Suc (nextBlk d)\<rparr>"
  show new: "mem d (nextBlk d) = None" using assms unfolding surf_inv_def by (metis less_irrefl)
  have m: "b < Suc (nextBlk d)" if "mem ?d b \<noteq> None" for b
    using that assms unfolding surf_inv_def by (cases "b = nextBlk d") (auto simp: less_SucI)
  show "surf_inv ?d"
    by (rule surf_inv_frame[OF assms]) (use assms m new in \<open>auto simp: surf_inv_def live_def table_def\<close>)
qed

lemma view_zero: "typed d \<Longrightarrow> view d 0 = None"
  by (auto simp: view_def map_of_find find_None_iff typed_def objtab_wf_def list_all_iff)

section \<open>Creating buffers\<close>

definition context_of :: "('c, 's, 'z) drv \<Rightarrow> u32 \<Rightarrow> ('c, 's) NVContext option" where
  "context_of d i = (case view d i of Some (OBJECT_TYPE_CONTEXT, a) \<Rightarrow> get_context d a | _ \<Rightarrow> None)"

lemma context_lookup:
  assumes "typed d" "i = 0 \<or> context_of d i \<noteq> None"
  shows "\<exists>ca. getObjectPtr d OBJECT_TYPE_CONTEXT i = Some ca \<and> \<not> (i \<noteq> 0 \<and> ca = NULL) \<and>
     (if ca = NULL then Some None else map_option Some (get_context d ca)) = Some (context_of d i)"
proof (cases "view d i")
  case None
  then show ?thesis using assms typed_get[OF assms(1), of OBJECT_TYPE_CONTEXT i] by (auto simp: context_of_def)
next
  case (Some ta)
  obtain t a where ta: "ta = (t, a)" by (cases ta)
  obtain v where v: "heap d a = Some v" "payload_type v = t" "a \<noteq> NULL" using typed_view[OF assms(1)] Some ta by blast
  have "0 < i" using Some view_zero[OF assms(1)] by (cases "i = 0") (auto simp: word_gt_0)
  with v Some ta assms(2) show ?thesis
    using typed_get[OF assms(1), of OBJECT_TYPE_CONTEXT i]
    by (cases t) (auto simp: context_of_def payload_type_cases get_context_def)
qed

lemma create_plain_spec:
  assumes "surf_inv d" "heap d (o_obj ob) = Some (PBuffer buf)" "alloc_ok (unat (b_size buf))"
    "client_read q off (unat (b_size buf)) = Some bs" "ownsPtr buf"
  shows "\<exists>d'. create_plain alloc_ok ob buf off (Some q) d = Some ((VA_STATUS_SUCCESS, o_id ob), d') \<and> surf_inv d' \<and>
     view d' = view d \<and> heap d' = (heap d)(o_obj ob \<mapsto> PBuffer (buf\<lparr>b_ptr := nextBlk d\<rparr>)) \<and>
     mem d' = (mem d)(nextBlk d \<mapsto> map Some bs)"
proof -
  let ?n = "unat (b_size buf)"
  let ?d1 = "d\<lparr>mem := (mem d)(nextBlk d \<mapsto> replicate ?n None), nextBlk := Suc (nextBlk d)\<rparr>"
  let ?b = "PBuffer (buf\<lparr>b_ptr := nextBlk d\<rparr>)"
  let ?d' = "put_obj (o_obj ob) ?b (d\<lparr>mem := (mem d)(nextBlk d \<mapsto> map Some bs), nextBlk := Suc (nextBlk d)\<rparr>)"
  have pos: "nextBlk d \<noteq> NULL" using assms(1) by (simp add: surf_inv_def)
  have len: "length bs = ?n" using assms(4) by (auto simp: client_read_def dest: length_read_bytes split: if_splits)
  have "create_plain alloc_ok ob buf off (Some q) d = Some ((VA_STATUS_SUCCESS, o_id ob), ?d')"
    using assms(3,4) pos len
    by (simp add: create_plain_def malloc_blk_def Let_def mem_write_def splice_def put_obj_def)
  moreover have "surf_inv ?d'"
    by (rule surf_inv_put_other(1)[OF surf_inv_malloc(1)[OF assms(1)], where a = "o_obj ob" and v = "PBuffer buf"])
      (use assms(2) in simp_all)
  ultimately show ?thesis by (intro exI[of _ ?d']) simp
qed

text \<open>The byte offset that the VP8 workaround adds in front of the data.\<close>

definition slice_lead :: "('c, 's, 'z) drv \<Rightarrow> u32 \<Rightarrow> VABufferType \<Rightarrow> client_ptr \<Rightarrow> nat" where
  "slice_lead d i ty q =
     (case context_of d i of
        None \<Rightarrow> 0
      | Some c \<Rightarrow> if cx_mode c \<noteq> NV_CONTEXT_ENCODE \<and> cx_profile c = VAProfileVP8Version0_3 \<and> ty = VASliceDataBufferType
                  then unat (cl_addr q) mod 16 else 0)"

lemma slice_lead_word:
  assumes "nvCtx = context_of d i" "enc = (case nvCtx of None \<Rightarrow> False | Some c \<Rightarrow> cx_mode c = NV_CONTEXT_ENCODE)"
  shows "unat (if vp8_hack enc nvCtx ty then cl_addr q AND 0xf else 0) = slice_lead d i ty q"
    "slice_lead d i ty q < 16"
proof -
  have m: "unat (w AND 0xf) = unat w mod 16" for w :: u64
  proof -
    have "w AND 0xf = take_bit 4 w" by (simp add: take_bit_eq_mask mask_eq_exp_minus_1)
    then show ?thesis by (simp add: take_bit_eq_mod unat_mod)
  qed
  show "unat (if vp8_hack enc nvCtx ty then cl_addr q AND 0xf else 0) = slice_lead d i ty q"
    using assms m[of "cl_addr q"] by (cases "context_of d i") (auto simp: vp8_hack_def slice_lead_def)
  show "slice_lead d i ty q < 16" by (simp add: slice_lead_def split: option.splits)
qed

text \<open>
  A data buffer created with client data holds exactly the client's bytes (for VP8 slice data also
  the up to 15 bytes in front of them, with the offset recorded), in a new block that
  it owns, as long as the total size fits 32 bits and the client's memory covers it; the identifier
  is new and no other object or block changes.
\<close>

theorem nvCreateBuffer_holds_data:
  assumes "surf_inv d" "objtab_room d" "cxid = 0 \<or> context_of d cxid \<noteq> None"
    "\<not> (\<exists>c. context_of d cxid = Some c \<and> cx_mode c = NV_CONTEXT_ENCODE \<and> ty = VAEncCodedBufferType)"
    "lead = slice_lead d cxid ty q" "n = unat num * (unat sz + lead)" "n < 2 ^ 32" "unat sz + lead < 2 ^ 32"
    "lead \<le> cl_pos q" "cl_pos q - lead + n \<le> length (cl_bytes q)" "alloc_ok n"
  shows "\<exists>i a b d'. nvCreateBuffer alloc_ok seg d cxid ty sz num (Some q) = Some ((VA_STATUS_SUCCESS, i), d') \<and>
     view d i = None \<and> view d' = (view d)(i \<mapsto> (OBJECT_TYPE_BUFFER, a)) \<and> heap d' a = Some (PBuffer b) \<and>
     bufferType b = ty \<and> elements b = num \<and> unat (b_size b) = n \<and> unat (b_offset b) = lead \<and> ownsPtr b \<and>
     mem d (b_ptr b) = None \<and>
     mem d' = (mem d)(b_ptr b \<mapsto> map Some (take n (drop (cl_pos q - lead) (cl_bytes q)))) \<and>
     (\<forall>j t c. view d j = Some (t, c) \<longrightarrow> heap d' c = heap d c) \<and> surf_inv d'"
proof -
  let ?c = "context_of d cxid"
  define enc where "enc = (case ?c of None \<Rightarrow> False | Some c \<Rightarrow> cx_mode c = NV_CONTEXT_ENCODE)"
  define off where "off = (if vp8_hack enc ?c ty then (case Some q of None \<Rightarrow> 0 | Some q \<Rightarrow> cl_addr q AND 0xf) else 0)"
  define buf where "buf = new_buffer ty (sz + ucast off) num off"
  have ty: "typed d" using assms(1) by (simp add: surf_inv_def)
  obtain ca where ca: "getObjectPtr d OBJECT_TYPE_CONTEXT cxid = Some ca" "\<not> (cxid \<noteq> 0 \<and> ca = NULL)"
      "(if ca = NULL then Some None else map_option Some (get_context d ca)) = Some ?c"
    using context_lookup[OF ty assms(3)] by blast
  have off: "unat off = lead" "lead < 16" unfolding assms(5) off_def option.case by (rule slice_lead_word[OF refl enc_def])+
  have sz: "unat (sz + ucast off) = unat sz + lead"
    using off assms(8) by (subst unat_add_bounded) (simp_all add: unsigned_ucast_eq take_bit_nat_eq_self)
  have n: "unat (b_size buf) = n"
    using assms(6,7) sz by (simp add: buf_def new_buffer_def unat_mult_bounded)
  obtain ob d1 where a: "allocateObject d OBJECT_TYPE_BUFFER (Some (PBuffer zero_buffer)) = Some (ob, d1)" "surf_inv d1"
      "view d (o_id ob) = None" "view d1 = (view d)(o_id ob \<mapsto> (OBJECT_TYPE_BUFFER, o_obj ob))"
      "heap d1 = (heap d)(o_obj ob \<mapsto> PBuffer zero_buffer)" "mem d1 = mem d" "nextBlk d1 = nextBlk d"
      "\<forall>j t c. view d j = Some (t, c) \<longrightarrow> c \<noteq> o_obj ob"
    using surf_inv_new_object[OF assms(1,2), of "PBuffer zero_buffer" OBJECT_TYPE_BUFFER] by auto
  let ?d2 = "put_obj (o_obj ob) (PBuffer buf) d1"
  have inv2: "surf_inv ?d2" by (rule surf_inv_put_other(1)[OF a(2), of _ "PBuffer zero_buffer"]) (simp_all add: a(5))
  have rd: "client_read q lead (unat (b_size buf)) = Some (take n (drop (cl_pos q - lead) (cl_bytes q)))"
    unfolding n using assms(9,10) by (simp add: client_read_def read_bytes_def)
  have own: "ownsPtr buf" and hp2: "heap ?d2 (o_obj ob) = Some (PBuffer buf)" by (simp_all add: buf_def new_buffer_def)
  obtain d' where d': "create_plain alloc_ok ob buf lead (Some q) ?d2 = Some ((VA_STATUS_SUCCESS, o_id ob), d')"
      "surf_inv d'" "view d' = view ?d2" "heap d' = (heap ?d2)(o_obj ob \<mapsto> PBuffer (buf\<lparr>b_ptr := nextBlk ?d2\<rparr>))"
      "mem d' = (mem ?d2)(nextBlk ?d2 \<mapsto> map Some (take n (drop (cl_pos q - lead) (cl_bytes q))))"
    using create_plain_spec[OF inv2 hp2 _ rd own] n assms(11) by metis
  have nc: "(enc \<and> ty = VAEncCodedBufferType) = False" using assms(4) by (auto simp: enc_def split: option.splits)
  have e: "nvCreateBuffer alloc_ok seg d cxid ty sz num (Some q) = Some ((VA_STATUS_SUCCESS, o_id ob), d')"
    unfolding nvCreateBuffer_def using ca(2) a(1) d'(1) off(1)
    by (simp add: ca(1,3) Let_def enc_def[symmetric] off_def[symmetric] buf_def[symmetric] nc if_not_P
        del: de_Morgan_conj split del: if_split)
  show ?thesis
    using e d' a n off(1) surf_inv_malloc(2)[OF assms(1)]
    by (intro exI[of _ "o_id ob"] exI[of _ "o_obj ob"] exI[of _ "buf\<lparr>b_ptr := nextBlk d\<rparr>"] exI[of _ d'])
      (simp add: buf_def new_buffer_def)
qed

definition example_client :: client_ptr where
  "example_client = \<lparr>cl_addr = 0x1000, cl_bytes = [10, 20, 30, 40, 50, 60], cl_pos = 0\<rparr>"

theorem nvCreateBuffer_holds_data_witness:
  "\<exists>i a b d'. nvCreateBuffer (\<lambda>_. True) 48 empty_drv 0 VASliceDataBufferType 2 3 (Some example_client) =
       Some ((VA_STATUS_SUCCESS, i), d') \<and> view d' i = Some (OBJECT_TYPE_BUFFER, a) \<and> heap d' a = Some (PBuffer b) \<and>
       mem d' (b_ptr b) = Some (map Some [10, 20, 30, 40, 50, 60])"
proof -
  have l: "slice_lead empty_drv 0 VASliceDataBufferType example_client = 0"
    by (simp add: slice_lead_def context_of_def empty_drv_def view_def table_def)
  have "\<exists>i a b d'. nvCreateBuffer (\<lambda>_. True) 48 empty_drv 0 VASliceDataBufferType 2 3 (Some example_client) =
       Some ((VA_STATUS_SUCCESS, i), d') \<and> view d' = (view empty_drv)(i \<mapsto> (OBJECT_TYPE_BUFFER, a)) \<and>
       heap d' a = Some (PBuffer b) \<and>
       mem d' = (mem empty_drv)(b_ptr b \<mapsto> map Some (take 6 (drop (cl_pos example_client - 0) (cl_bytes example_client))))"
    using nvCreateBuffer_holds_data[OF surf_inv_empty empty_drv_ok(2), of 0 VASliceDataBufferType 0 example_client 6 3 2
        "\<lambda>_. True" 48] l by (fastforce simp: example_client_def)
  then show ?thesis by (fastforce simp: example_client_def)
qed

text \<open>
  The size of a buffer is the product of element count and element size modulo \<open>2 ^ 32\<close>: when the
  product does not fit, the call succeeds and the block is smaller than the elements it is
  said to hold.
\<close>

theorem nvCreateBuffer_size_wraps:
  assumes "surf_inv d" "objtab_room d" "2 ^ 32 \<le> unat num * unat sz" "\<forall>m. alloc_ok m"
  shows "\<exists>i a b blk d'. nvCreateBuffer alloc_ok seg d 0 ty sz num None = Some ((VA_STATUS_SUCCESS, i), d') \<and>
     view d' i = Some (OBJECT_TYPE_BUFFER, a) \<and> heap d' a = Some (PBuffer b) \<and> elements b = num \<and>
     mem d' (b_ptr b) = Some blk \<and> length blk = unat num * unat sz mod 2 ^ 32 \<and> length blk < unat num * unat sz"
proof -
  have ty: "typed d" using assms(1) by (simp add: surf_inv_def)
  have c0: "context_of d 0 = None" using view_zero[OF ty] by (simp add: context_of_def)
  obtain ca where ca: "getObjectPtr d OBJECT_TYPE_CONTEXT 0 = Some ca"
      "(if ca = NULL then Some None else map_option Some (get_context d ca)) = Some None"
    using context_lookup[OF ty, of 0] c0 by auto
  obtain ob d1 where a: "allocateObject d OBJECT_TYPE_BUFFER (Some (PBuffer zero_buffer)) = Some (ob, d1)" "surf_inv d1"
      "view d1 = (view d)(o_id ob \<mapsto> (OBJECT_TYPE_BUFFER, o_obj ob))"
    using surf_inv_new_object[OF assms(1,2), of "PBuffer zero_buffer" OBJECT_TYPE_BUFFER] by auto
  let ?b = "new_buffer ty sz num 0"
  let ?n = "unat (b_size ?b)"
  have n: "?n = unat num * unat sz mod 2 ^ 32"
    by (simp add: new_buffer_def unat_word_ariths)
  have pos: "nextBlk d1 \<noteq> NULL" using a(2) by (simp add: surf_inv_def)
  let ?d' = "put_obj (o_obj ob) (PBuffer (?b\<lparr>b_ptr := nextBlk d1\<rparr>))
     ((put_obj (o_obj ob) (PBuffer ?b) d1)\<lparr>mem := (mem d1)(nextBlk d1 \<mapsto> replicate ?n None), nextBlk := Suc (nextBlk d1)\<rparr>)"
  have "nvCreateBuffer alloc_ok seg d 0 ty sz num None = Some ((VA_STATUS_SUCCESS, o_id ob), ?d')"
    using ca a(1) pos assms(4)
    by (simp add: nvCreateBuffer_def create_plain_def malloc_blk_def Let_def)
  moreover have "?n < unat num * unat sz" unfolding n using assms(3) by (simp add: order_less_le_trans)
  ultimately show ?thesis using a(3) n
    by (intro exI[of _ "o_id ob"] exI[of _ "o_obj ob"] exI[of _ "?b\<lparr>b_ptr := nextBlk d1\<rparr>"] exI[of _ "replicate ?n None"]
        exI[of _ ?d']) (simp add: new_buffer_def)
qed

theorem nvCreateBuffer_size_wraps_witness:
  "\<exists>i a b blk d'. nvCreateBuffer (\<lambda>_. True) 48 empty_drv 0 VASliceDataBufferType 0x10000 0x10001 None =
     Some ((VA_STATUS_SUCCESS, i), d') \<and> view d' i = Some (OBJECT_TYPE_BUFFER, a) \<and> heap d' a = Some (PBuffer b) \<and>
     elements b = 0x10001 \<and> mem d' (b_ptr b) = Some blk \<and> length blk = 0x10000"
  using nvCreateBuffer_size_wraps[OF surf_inv_empty empty_drv_ok(2), where num = 65537 and sz = 65536 and
      alloc_ok = "\<lambda>_. True" and seg = 48 and ty = VASliceDataBufferType]
  by fastforce

section \<open>Mapping derived images\<close>

lemma lock_unlock_simps:
  "get_surface d a = Some s \<Longrightarrow> \<not> sf_locked s \<Longrightarrow> lock_surface a d = Some (put_obj a (PSurface (s\<lparr>sf_locked := True\<rparr>)) d)"
  "get_surface d a = Some s \<Longrightarrow> sf_locked s \<Longrightarrow> unlock_surface a d = Some (put_obj a (PSurface (s\<lparr>sf_locked := False\<rparr>)) d)"
  "get_surface d a = Some s \<Longrightarrow> sf_locked s \<Longrightarrow> lock_surface a d = None"
  by (simp_all add: lock_surface_def unlock_surface_def)

lemma put_obj_put_obj [simp]: "put_obj a v (put_obj a w d) = put_obj a v d"
  by (simp add: put_obj_def)

lemma put_obj_mem:
  "put_obj a v (d\<lparr>mem := m\<rparr>) = (put_obj a v d)\<lparr>mem := m\<rparr>" "put_obj a v (d\<lparr>nextBlk := n\<rparr>) = (put_obj a v d)\<lparr>nextBlk := n\<rparr>"
  by (simp_all add: put_obj_def)

lemma put_obj_idem: "heap d a = Some v \<Longrightarrow> put_obj a v d = d"
  by (simp add: put_obj_def fun_upd_idem)

lemma put_obj_commute: "a \<noteq> b \<Longrightarrow> put_obj a v (put_obj b w d) = put_obj b w (put_obj a v d)"
  by (simp add: put_obj_def fun_upd_twist)

lemma mem_copy_whole:
  assumes "dst \<noteq> src" "mem d src = Some sb" "mem d dst = Some db" "length db = length sb" "n = length sb"
  shows "mem_copy d dst 0 src 0 n = Some (d\<lparr>mem := (mem d)(dst \<mapsto> sb)\<rparr>)"
  using assms by (simp add: mem_copy_def mem_read_def read_bytes_def mem_write_def splice_def)

text \<open>Identifier \<open>i\<close> names a buffer at \<open>ba\<close> that belongs to an image derived from the surface at \<open>sa\<close>.\<close>

definition derived_from ::
  "('c, 's, 'z) drv \<Rightarrow> u32 \<Rightarrow> addr \<Rightarrow> NVBuffer \<Rightarrow> addr \<Rightarrow> NVSurface \<Rightarrow> bool" where
  "derived_from d i ba b sa s \<longleftrightarrow> view d i = Some (OBJECT_TYPE_BUFFER, ba) \<and> heap d ba = Some (PBuffer b) \<and>
     is_derived b \<and> codedData b = NULL \<and> view d (surfaceId b) = Some (OBJECT_TYPE_SURFACE, sa) \<and>
     heap d sa = Some (PSurface s) \<and> hostData s \<noteq> NULL"

lemma derived_lookup:
  assumes "typed d" "derived_from d i ba b sa s"
  shows "getObjectPtr d OBJECT_TYPE_BUFFER i = Some ba" "ba \<noteq> NULL" "get_buffer d ba = Some b"
    "getObjectPtr d OBJECT_TYPE_SURFACE (surfaceId b) = Some sa" "sa \<noteq> NULL" "get_surface d sa = Some s" "ba \<noteq> sa"
    "ensureSurfaceHostBuffer alloc_ok sa d = Some (True, d)"
proof -
  show "getObjectPtr d OBJECT_TYPE_BUFFER i = Some ba" "getObjectPtr d OBJECT_TYPE_SURFACE (surfaceId b) = Some sa"
    using assms by (simp_all add: derived_from_def typed_get)
  show nn: "ba \<noteq> NULL" "sa \<noteq> NULL" using assms typed_view[OF assms(1)] by (auto simp: derived_from_def)
  show g: "get_buffer d ba = Some b" "get_surface d sa = Some s" "ba \<noteq> sa"
    using assms(2) by (auto simp: derived_from_def get_iff_heap)
  show "ensureSurfaceHostBuffer alloc_ok sa d = Some (True, d)"
    using nn g assms(2) by (simp add: ensureSurfaceHostBuffer_def derived_from_def)
qed

abbreviation (input) full_content :: "NVSurface \<Rightarrow> NVSurface" where
  "full_content s \<equiv> s\<lparr>contentX := 0, contentY := 0, contentWidth := sf_width s, contentHeight := sf_height s,
     contentValid := True, sf_status := VASurfaceReady\<rparr>"

text \<open>
  A small driver state: a 16x16 surface (1), two buffers of images derived from it (2, 3), and a 4x4
  image (5) with its own buffer (4).
\<close>

definition example_surface :: NVSurface where
  "example_surface = (init_surface (cudaVideoSurfaceFormat_NV12, cudaVideoChromaFormat_420, 8) 16 16)\<lparr>
     hostData := 1, hostPitch := 64, hostYSize := 1024, hostTotalSize := 1536, contentWidth := 16, contentHeight := 16,
     sf_status := VASurfaceReady\<rparr>"

definition example_derived :: NVBuffer where
  "example_derived = zero_buffer\<lparr>bufferType := VAImageBufferType, elements := 1, b_size := 1536, b_ptr := 1, surfaceId := 1\<rparr>"

definition example_image_buffer :: NVBuffer where
  "example_image_buffer = zero_buffer\<lparr>bufferType := VAImageBufferType, elements := 1, b_size := 24, b_ptr := 2, ownsPtr := True\<rparr>"

definition example_image :: NVImage where
  "example_image = \<lparr>im_width = 4, im_height = 4, im_format = NV_FORMAT_NV12, im_numPlanes = 2, pitches = [4, 4, 4],
     offsets = [0, 16, 24], imageBuffer = 4\<rparr>"

definition example_host :: block where
  "example_host = replicate 1536 (Some 16)"

definition example_pixels :: block where
  "example_pixels = map (\<lambda>k. Some (of_nat k)) [0..<24]"

definition example_objects :: "Object_t list" where
  "example_objects = [\<lparr>o_type = OBJECT_TYPE_SURFACE, o_id = 1, o_obj = 1\<rparr>, \<lparr>o_type = OBJECT_TYPE_BUFFER, o_id = 2, o_obj = 2\<rparr>,
     \<lparr>o_type = OBJECT_TYPE_BUFFER, o_id = 3, o_obj = 3\<rparr>, \<lparr>o_type = OBJECT_TYPE_BUFFER, o_id = 4, o_obj = 4\<rparr>,
     \<lparr>o_type = OBJECT_TYPE_IMAGE, o_id = 5, o_obj = 5\<rparr>]"

definition example_drv :: "bool \<Rightarrow> ((unit, slice_param) payload) NVDriver" where
  "example_drv strict = \<lparr>objects = \<lparr>arr_buf = map Some example_objects @ replicate 11 None, arr_size = 5, arr_capacity = 16\<rparr>,
     nextObjId = 5,
     heap = [1 \<mapsto> PSurface example_surface, 2 \<mapsto> PBuffer example_derived, 3 \<mapsto> PBuffer example_derived,
             4 \<mapsto> PBuffer example_image_buffer, 5 \<mapsto> PImage example_image],
     nextAddr = 6, mem = [1 \<mapsto> example_host, 2 \<mapsto> example_pixels], nextBlk = 3,
     nvencAvailable = True, supports16BitSurface = True, supports444Surface = False, g_disableDecoder = False,
     g_encStrictMode = strict, g_encForceIdrEvery = 0,
     g_encStartupIdrFrames = 16, g_encReconfigureMinMs = 800, g_encVisibleReconfigure = False\<rparr>"

lemma example_table: "table (example_drv strict) = example_objects"
  by (simp add: table_def arr_elems_def example_drv_def example_objects_def)

lemma example_view:
  "view (example_drv strict) = [1 \<mapsto> (OBJECT_TYPE_SURFACE, 1), 2 \<mapsto> (OBJECT_TYPE_BUFFER, 2), 3 \<mapsto> (OBJECT_TYPE_BUFFER, 3),
     4 \<mapsto> (OBJECT_TYPE_BUFFER, 4), 5 \<mapsto> (OBJECT_TYPE_IMAGE, 5)]"
  unfolding view_def example_table by (auto simp: example_objects_def fun_eq_iff)

lemma example_typed: "typed (example_drv strict)"
  unfolding typed_def objtab_wf_def example_table
  by (simp add: example_drv_def example_objects_def arr_wf_def arr_elems_def VA_INVALID_ID_def)

lemma example_live: "live (example_drv strict) a s \<longleftrightarrow> a = 1 \<and> s = example_surface"
  unfolding live_def example_table by (auto simp: example_drv_def example_objects_def split: if_splits)

lemma example_inv: "surf_inv (example_drv strict)"
proof -
  have "layout_ok example_surface"
    unfolding layout_ok_def by (rule exI[of _ 16]) (simp add: example_surface_def init_surface_def zero_surface_def)
  then have "host_ok (example_drv strict) example_surface"
    by (simp add: host_ok_def example_drv_def example_surface_def example_host_def)
  then show ?thesis unfolding surf_inv_def example_live by (auto simp: example_typed) (auto simp: example_drv_def split: if_splits)
qed

lemma example_derived_from:
  "derived_from (example_drv strict) 2 2 example_derived 1 example_surface"
  "derived_from (example_drv strict) 3 3 example_derived 1 example_surface"
  unfolding derived_from_def example_view
  by (simp_all add: example_drv_def example_derived_def zero_buffer_def is_derived_def VA_INVALID_ID_def example_surface_def)

lemmas example_simps = example_drv_def example_derived_def zero_buffer_def example_surface_def init_surface_def zero_surface_def



text \<open>
  While a derived image of a surface is mapped outside the strict mode, mapping another
  derived image of that surface, or synchronising on the surface, does not return when no other
  thread runs: the caller already holds the mutex it waits for.
\<close>

theorem nvMapBuffer_blocks_while_mapped:
  assumes "surf_inv d" "derived_from d i ba b sa s" "derived_from d j bb b' sa s" "i \<noteq> j" "\<not> g_encStrictMode d"
    "\<not> mappedSurfaceLock b" "\<not> mappedSurfaceLock b'" "\<not> sf_locked s"
  shows "\<exists>p d1. nvMapBuffer alloc_ok d i = Some ((VA_STATUS_SUCCESS, p), d1) \<and> nvMapBuffer alloc_ok d1 j = None \<and>
     nvSyncSurface d1 (surfaceId b) = None"
proof -
  have ty: "typed d" using assms(1) by (simp add: surf_inv_def)
  note l = derived_lookup[OF ty assms(2)] and l' = derived_lookup[OF ty assms(3)]
  have df: "is_derived b" "codedData b = NULL" "is_derived b'" "codedData b' = NULL" "hostData s \<noteq> NULL"
    using assms(2,3) by (auto simp: derived_from_def)
  have ne: "bb \<noteq> ba" using assms(2-4) typed_view_inj[OF ty] by (auto simp: derived_from_def)
  let ?d1 = "put_obj ba (PBuffer (b\<lparr>mappedSurfaceLock := True\<rparr>)) (put_obj sa (PSurface (s\<lparr>sf_locked := True\<rparr>)) d)"
  have m: "nvMapBuffer alloc_ok d i = Some ((VA_STATUS_SUCCESS, Some (b_ptr b)), ?d1)"
    using l df assms(5,6,8) by (simp add: nvMapBuffer_def map_direct_def lock_surface_def)
  have e: "ensureSurfaceHostBuffer alloc_ok sa ?d1 = Some (True, ?d1)"
    using l df by (simp add: ensureSurfaceHostBuffer_def)
  have "nvMapBuffer alloc_ok ?d1 j = None"
    using l l' df e ne assms(5,7) by (simp add: nvMapBuffer_def map_direct_def lock_surface_def)
  moreover have "nvSyncSurface ?d1 (surfaceId b) = None"
    using l by (simp add: nvSyncSurface_def lock_surface_def)
  ultimately show ?thesis using m by blast
qed

theorem nvMapBuffer_blocks_while_mapped_witness:
  "\<exists>p d1. nvMapBuffer (\<lambda>_. True) (example_drv False) 2 = Some ((VA_STATUS_SUCCESS, p), d1) \<and>
     nvMapBuffer (\<lambda>_. True) d1 3 = None \<and> nvSyncSurface d1 1 = None"
  using nvMapBuffer_blocks_while_mapped[OF example_inv[of False] example_derived_from(1)[of False]
      example_derived_from(2)[of False], of "\<lambda>_. True"]
  by (simp add: example_simps)

text \<open>
  C37: in the strict mode a derived image is mapped through a shadow block: the client sees a
  copy of the surface's bytes, the mutex is free while it is mapped, and whatever bytes the client has put
  into the shadow are the surface's bytes after unmapping.
\<close>

theorem nvMapBuffer_strict_commits:
  assumes "surf_inv d" "derived_from d i ba b sa s" "g_encStrictMode d" "\<not> ownsPtr b" "\<not> sf_locked s" "\<not> commitOnUnmap b"
    "mem d (hostData s) = Some old" "length new = length old" "\<forall>m. alloc_ok m"
  shows "\<exists>p d1 d2. nvMapBuffer alloc_ok d i = Some ((VA_STATUS_SUCCESS, Some p), d1) \<and> mem d1 p = Some old \<and>
     mem d p = None \<and> get_surface d1 sa = Some s \<and>
     nvUnmapBuffer alloc_ok (d1\<lparr>mem := (mem d1)(p \<mapsto> new)\<rparr>) i = Some (VA_STATUS_SUCCESS, d2) \<and>
     mem d2 (hostData s) = Some new \<and> get_surface d2 sa = Some (full_content s) \<and>
     (\<forall>q. q \<noteq> p \<longrightarrow> q \<noteq> hostData s \<longrightarrow> mem d2 q = mem d q)"
proof -
  have ty: "typed d" using assms(1) by (simp add: surf_inv_def)
  note l = derived_lookup[OF ty assms(2)]
  have df: "is_derived b" "codedData b = NULL" "hostData s \<noteq> NULL" "heap d ba = Some (PBuffer b)" "heap d sa = Some (PSurface s)"
    using assms(2) by (auto simp: derived_from_def)
  have lv: "live d sa s" using live_surface[OF ty l(4) l(5)] l(6) by auto
  then have len: "length old = unat (hostTotalSize s)"
    using assms(1,7) df(3) unfolding surf_inv_def host_ok_def by fastforce
  let ?p = "nextBlk d"
  have p: "?p \<noteq> NULL" "mem d ?p = None" "hostData s \<noteq> ?p"
    using assms(1) surf_inv_malloc(2)[OF assms(1)] surf_inv_host_less[OF assms(1) lv] by (auto simp: surf_inv_def)
  let ?b1 = "b\<lparr>b_ptr := ?p, b_size := hostTotalSize s, ownsPtr := True\<rparr>"
  let ?da = "d\<lparr>mem := (mem d)(?p \<mapsto> replicate (unat (hostTotalSize s)) None), nextBlk := Suc ?p\<rparr>"
  let ?db = "put_obj ba (PBuffer ?b1) ?da"
  let ?dc = "put_obj sa (PSurface (s\<lparr>sf_locked := True\<rparr>)) ?db"
  let ?dd = "?dc\<lparr>mem := (mem ?dc)(?p \<mapsto> old)\<rparr>"
  let ?d1 = "put_obj sa (PSurface s) ?dd"
  have s0: "s\<lparr>sf_locked := False\<rparr> = s" using assms(5) by simp
  have full0: "(full_content s)\<lparr>sf_locked := False\<rparr> = full_content s" using assms(5) by simp
  have lk: "lock_surface sa ?db = Some ?dc" by (rule lock_unlock_simps(1)) (use l assms(5) in simp_all)
  have cp: "mem_copy ?dc ?p 0 (hostData s) 0 (unat (hostTotalSize s)) = Some ?dd"
    by (rule mem_copy_whole[where sb = old and db = "replicate (unat (hostTotalSize s)) None"]) (use p len assms(7) in auto)
  have ul: "unlock_surface sa ?dd = Some ?d1" by (simp add: unlock_surface_def s0)
  have m: "nvMapBuffer alloc_ok d i = Some ((VA_STATUS_SUCCESS, Some ?p), ?d1)"
    using l df assms(3,4,9) p lk cp ul
    by (simp add: nvMapBuffer_def map_shadow_def realloc_blk_def malloc_blk_def Let_def)
  let ?e1 = "?d1\<lparr>mem := (mem ?d1)(?p \<mapsto> new)\<rparr>"
  let ?e2 = "put_obj sa (PSurface (s\<lparr>sf_locked := True\<rparr>)) ?e1"
  let ?e3 = "?e2\<lparr>mem := (mem ?e2)(hostData s \<mapsto> new)\<rparr>"
  let ?d2 = "put_obj sa (PSurface (full_content s)) ?e3"
  have dv: "is_derived ?b1" using df(1) by (simp add: is_derived_def)
  have lk2: "lock_surface sa ?e1 = Some ?e2" by (rule lock_unlock_simps(1)) (use assms(5) in simp_all)
  have cp2: "mem_copy ?e2 (hostData s) 0 ?p 0 (unat (hostTotalSize s)) = Some ?e3"
    by (rule mem_copy_whole[where sb = new and db = old]) (use p len assms(7,8) in auto)
  have gb: "get_buffer ?e1 ba = Some ?b1" "get_surface ?e1 sa = Some s" "g_encStrictMode ?e1"
    using l(7) assms(3) by simp_all
  have cb: "copy_back ba sa ?e1 = Some ?e3" using lk2 cp2 gb by (simp add: copy_back_def Let_def del: get_put_obj get_mem_update)
  have "do { d \<leftarrow> set_full_content sa ?e3; unlock_surface sa d } =
      Some (put_obj sa (PSurface ((full_content s)\<lparr>sf_locked := False\<rparr>)) ?e3)"
    by (simp add: set_full_content_def unlock_surface_def)
  then have fc: "do { d \<leftarrow> set_full_content sa ?e3; unlock_surface sa d } = Some ?d2" unfolding full0 .
  have ud: "unmap_derived ba sa ?e1 = Some ?d2"
    using cb fc gb p(1) by (simp add: unmap_derived_def Let_def del: get_put_obj get_mem_update)
  have ws: "with_surface alloc_ok (unmap_derived ba) (surfaceId b) ?e1 = Some ?d2"
    using l(4,5) ud df(3) by (simp add: with_surface_def ensureSurfaceHostBuffer_def)
  have u: "nvUnmapBuffer alloc_ok ?e1 i = Some (VA_STATUS_SUCCESS, ?d2)"
    using l(1,2,7) dv ws gb(1) assms(6) by (simp add: nvUnmapBuffer_def)
  show ?thesis using m u p l(6,7)
    by (intro exI[of _ ?p] exI[of _ ?d1] exI[of _ ?d2]) simp
qed

theorem nvMapBuffer_strict_commits_witness:
  "\<exists>p d1 d2. nvMapBuffer (\<lambda>_. True) (example_drv True) 2 = Some ((VA_STATUS_SUCCESS, Some p), d1) \<and>
     mem d1 p = Some example_host \<and>
     nvUnmapBuffer (\<lambda>_. True) (d1\<lparr>mem := (mem d1)(p \<mapsto> replicate 1536 (Some 7))\<rparr>) 2 = Some (VA_STATUS_SUCCESS, d2) \<and>
     mem d2 1 = Some (replicate 1536 (Some 7))"
proof -
  have s: "\<not> ownsPtr example_derived" "\<not> sf_locked example_surface" "\<not> commitOnUnmap example_derived"
      "hostData example_surface = 1" "g_encStrictMode (example_drv True)" "mem (example_drv True) 1 = Some example_host"
    by (simp_all add: example_simps)
  show ?thesis
    using nvMapBuffer_strict_commits[OF example_inv[of True] example_derived_from(1)[of True], of example_host
        "replicate 1536 (Some 7)" "\<lambda>_. True"] s by (fastforce simp: example_host_def)
qed

end
