(* ===== verification/Images.thy ===== *)
theory Images
  imports Buffers
begin

text \<open>
  Images (\<^verbatim>\<open>src/src/vabackend.c\<close>: \<open>nvQueryImageFormats\<close>, \<open>nvCreateImage\<close>,
  \<open>nvDeriveImage\<close>, \<open>nvDestroyImage\<close>, \<open>nvGetImage\<close>, \<open>nvPutImage\<close>).  The host
  paths of the two copies run on the block store; read-back from the GPU issues one
  \<^verbatim>\<open>cuMemcpy2D\<close> request per plane, which is a parameter.  Positions inside a block are natural
  numbers: the products of the source are computed in 64 bits from 32-bit factors and do not
  wrap.
\<close>

section \<open>Operations\<close>

definition nvQueryImageFormats :: "('c, 's, 'z) drv \<Rightarrow> va_fourcc list" where
  "nvQueryImageFormats d =
     map (\<lambda>f. vaFourcc (formatsInfo f))
       (filter (\<lambda>f. \<not> (is16bits (formatsInfo f) \<and> \<not> supports16BitSurface d) \<and>
                     \<not> (isYuv444 (formatsInfo f) \<and> \<not> supports444Surface d)) all_formats)"

text \<open>The descriptor handed to the client; its width and height are 16-bit fields.\<close>

record VAImage =
  image_id :: u32
  vi_fourcc :: va_fourcc
  vi_buf :: u32
  vi_width :: u16
  vi_height :: u16
  data_size :: u32
  num_planes :: u32
  vi_pitches :: "u32 list"
  vi_offsets :: "u32 list"

text \<open>
  The size of one plane: a signed 32-bit product, whose overflow is undefined, shifted and scaled by
  unsigned factors.
\<close>

definition int_mult :: "int \<Rightarrow> int \<Rightarrow> int option" where
  "int_mult a b = do { guard (- (2 ^ 31) \<le> a * b \<and> a * b < 2 ^ 31); Some (a * b) }"

definition plane_size :: "NVFormatInfo \<Rightarrow> int \<Rightarrow> NVFormatPlane \<Rightarrow> u32" where
  "plane_size fi area p = word_of_int (drop_bit (ss_x (ss p) + ss_y (ss p)) area) * bppc fi * channelCount p"

definition image_size :: "NVFormatInfo \<Rightarrow> int \<Rightarrow> u64" where
  "image_size fi area = foldl (\<lambda>n p. n + ucast (plane_size fi area p)) 0 (take (fi_numPlanes fi) (planes fi))"

definition zero_image :: NVImage where
  "zero_image = \<lparr>im_width = 0, im_height = 0, im_format = NV_FORMAT_NONE, im_numPlanes = 0, pitches = [0, 0, 0],
     offsets = [0, 0, 0], imageBuffer = NULL\<rparr>"

definition nvCreateImage ::
  "(nat \<Rightarrow> bool) \<Rightarrow> ('c, 's, 'z) drv \<Rightarrow> va_fourcc \<Rightarrow> int \<Rightarrow> int \<Rightarrow> ((VAStatus \<times> VAImage option) \<times> ('c, 's, 'z) drv) option" where
  "nvCreateImage alloc_ok d fourcc width height =
     (let nvFormat = nvFormatFromVaFormat fourcc;
          fi = formatsInfo nvFormat
      in if nvFormat = NV_FORMAT_NONE then Some ((VA_STATUS_ERROR_INVALID_IMAGE_FORMAT, None), d)
         else do {
           (io, d) \<leftarrow> allocateObject d OBJECT_TYPE_IMAGE (Some (PImage zero_image));
           (bo, d) \<leftarrow> allocateObject d OBJECT_TYPE_BUFFER (Some (PBuffer zero_buffer));
           area \<leftarrow> int_mult width height;
           let sz = image_size fi area;
           let (p, d) = malloc_blk alloc_ok (unat sz) None d;
           let d = put_obj (o_obj bo) (PBuffer (zero_buffer\<lparr>bufferType := VAImageBufferType, b_size := sz, elements := 1,
                     b_ptr := p, ownsPtr := True\<rparr>)) d;
           let pitch = word_of_int width * bppc fi;
           let off1 = plane_size fi area (planes fi ! 0);
           let off2 = off1 + plane_size fi area (planes fi ! 1);
           let d = put_obj (o_obj io) (PImage \<lparr>im_width = word_of_int width, im_height = word_of_int height,
                     im_format = nvFormat, im_numPlanes = of_nat (fi_numPlanes fi), pitches = [pitch, pitch, pitch],
                     offsets = [0, off1, off2], imageBuffer = o_obj bo\<rparr>) d;
           Some ((VA_STATUS_SUCCESS, Some \<lparr>image_id = o_id io, vi_fourcc = fourcc, vi_buf = o_id bo,
                    vi_width = word_of_int width, vi_height = word_of_int height, data_size = ucast sz,
                    num_planes = of_nat (fi_numPlanes fi), vi_pitches = [pitch, pitch, pitch],
                    vi_offsets = [0, off1, off2]\<rparr>), d)
         })"

definition nvDeriveImage ::
  "(nat \<Rightarrow> bool) \<Rightarrow> ('c, 's, 'z) drv \<Rightarrow> u32 \<Rightarrow> ((VAStatus \<times> VAImage option) \<times> ('c, 's, 'z) drv) option" where
  "nvDeriveImage alloc_ok d surface = do {
     sa \<leftarrow> getObjectPtr d OBJECT_TYPE_SURFACE surface;
     if sa = NULL then Some ((VA_STATUS_ERROR_INVALID_SURFACE, None), d)
     else do {
       (ok, d) \<leftarrow> ensureSurfaceHostBuffer alloc_ok sa d;
       if \<not> ok then Some ((VA_STATUS_ERROR_ALLOCATION_FAILED, None), d)
       else do {
         s \<leftarrow> get_surface d sa;
         (bo, d) \<leftarrow> allocateObject d OBJECT_TYPE_BUFFER (Some (PBuffer zero_buffer));
         let d = put_obj (o_obj bo) (PBuffer (zero_buffer\<lparr>bufferType := VAImageBufferType, elements := 1,
                   b_size := hostTotalSize s, b_ptr := hostData s, ownsPtr := False, surfaceId := surface,
                   commitOnUnmap := False\<rparr>)) d;
         (io, d) \<leftarrow> allocateObject d OBJECT_TYPE_IMAGE (Some (PImage zero_image));
         let pitch = ucast (hostPitch s);
         let off = ucast (hostYSize s);
         let d = put_obj (o_obj io) (PImage \<lparr>im_width = sf_width s, im_height = sf_height s, im_format = NV_FORMAT_NV12,
                   im_numPlanes = 2, pitches = [pitch, pitch, 0], offsets = [0, off, 0], imageBuffer = o_obj bo\<rparr>) d;
         Some ((VA_STATUS_SUCCESS, Some \<lparr>image_id = o_id io, vi_fourcc = vaFourcc (formatsInfo NV_FORMAT_NV12),
                  vi_buf = o_id bo, vi_width = ucast (sf_width s), vi_height = ucast (sf_height s),
                  data_size = ucast (hostTotalSize s), num_planes = 2, vi_pitches = [pitch, pitch, 0],
                  vi_offsets = [0, off, 0]\<rparr>), d)
       }
     }
   }"

definition nvDestroyImage :: "('c, 's, 'z) drv \<Rightarrow> u32 \<Rightarrow> (VAStatus \<times> ('c, 's, 'z) drv) option" where
  "nvDestroyImage d i = do {
     ia \<leftarrow> getObjectPtr d OBJECT_TYPE_IMAGE i;
     if ia = NULL then Some (VA_STATUS_ERROR_INVALID_IMAGE, d)
     else do {
       img \<leftarrow> get_image d ia;
       bo \<leftarrow> getObjectByPtr d OBJECT_TYPE_BUFFER (imageBuffer img);
       d \<leftarrow> (case bo of
              None \<Rightarrow> Some d
            | Some bo \<Rightarrow> do {
                b \<leftarrow> get_buffer d (imageBuffer img);
                d \<leftarrow> (if b_ptr b \<noteq> NULL \<and> ownsPtr b then free_blk (b_ptr b) d else Some d);
                deleteObject d (o_id bo)
              });
       d \<leftarrow> deleteObject d i;
       Some (VA_STATUS_SUCCESS, d)
     }
   }"

text \<open>The row loops: \<open>rows\<close> times \<open>w\<close> bytes between two pitched blocks.\<close>

fun copy_rows ::
  "nat \<Rightarrow> nat \<Rightarrow> addr \<Rightarrow> nat \<Rightarrow> nat \<Rightarrow> addr \<Rightarrow> nat \<Rightarrow> nat \<Rightarrow> ('c, 's, 'z) drv \<Rightarrow> ('c, 's, 'z) drv option" where
  "copy_rows 0 w dst doff dpitch src soff spitch d = Some d"
| "copy_rows (Suc n) w dst doff dpitch src soff spitch d = do {
     d \<leftarrow> copy_rows n w dst doff dpitch src soff spitch d;
     mem_copy d dst (doff + n * dpitch) src (soff + n * spitch) w
   }"

text \<open>The 32-bit clamps of the two copies; the sum wraps.\<close>

definition clamp :: "u32 \<Rightarrow> u32 \<Rightarrow> u32 \<Rightarrow> u32" where
  "clamp pos len limit = (if limit < pos + len then limit - pos else len)"

definition image_pitch :: "NVImage \<Rightarrow> u32 \<times> u32" where
  "image_pitch img =
     (let py = (if pitches img ! 0 \<noteq> 0 then pitches img ! 0 else im_width img)
      in (py, if pitches img ! 1 \<noteq> 0 then pitches img ! 1 else py))"

definition even_down :: "u32 \<Rightarrow> u32" where
  "even_down w = w AND NOT 1"

definition get_host ::
  "addr \<Rightarrow> NVImage \<Rightarrow> int \<Rightarrow> int \<Rightarrow> u32 \<Rightarrow> u32 \<Rightarrow> ('c, 's, 'z) drv \<Rightarrow> (VAStatus \<times> ('c, 's, 'z) drv) option" where
  "get_host sa img x y width height d = do {
     s \<leftarrow> get_surface d sa;
     if hostData s = NULL \<or> imageBuffer img = NULL then Some (VA_STATUS_ERROR_INVALID_CONTEXT, d)
     else do {
       b \<leftarrow> get_buffer d (imageBuffer img);
       if b_ptr b = NULL then Some (VA_STATUS_ERROR_INVALID_CONTEXT, d)
       else if x < 0 \<or> y < 0 then Some (VA_STATUS_ERROR_INVALID_PARAMETER, d)
       else if sf_width s \<le> word_of_int x \<or> sf_height s \<le> word_of_int y then Some (VA_STATUS_ERROR_INVALID_PARAMETER, d)
       else do {
         let (pitchY, pitchUV) = image_pitch img;
         let w = clamp (word_of_int x) width (sf_width s);
         let h = clamp (word_of_int y) height (sf_height s);
         let w = (if im_width img < w then im_width img else w);
         let h = (if im_height img < h then im_height img else h);
         d \<leftarrow> lock_surface sa d;
         d \<leftarrow> copy_rows (unat h) (unat w) (b_ptr b) (unat (offsets img ! 0)) (unat pitchY)
               (hostData s) (nat y * unat (hostPitch s) + nat x) (unat (hostPitch s)) d;
         d \<leftarrow> copy_rows (unat (h div 2)) (unat (even_down w)) (b_ptr b) (unat (offsets img ! 1)) (unat pitchUV)
               (hostData s) (unat (hostYSize s) + nat (y div 2) * unat (hostPitch s) + nat (x div 2 * 2)) (unat (hostPitch s)) d;
         d \<leftarrow> unlock_surface sa d;
         Some (VA_STATUS_SUCCESS, d)
       }
     }
   }"

text \<open>
  Read-back from the GPU: the request of one plane.  \<open>array i\<close> is plane \<open>i\<close> of the surface's backing
  image, absent when the surface has none.
\<close>

record 'arr CUDA_MEMCPY2D =
  srcArray :: 'arr
  dstHost :: addr
  dstOffset :: u32
  dstPitch :: u32
  WidthInBytes :: u32
  Height :: u32

fun get_planes ::
  "('arr CUDA_MEMCPY2D \<Rightarrow> ('c, 's, 'z) drv \<Rightarrow> (bool \<times> ('c, 's, 'z) drv) option) \<Rightarrow> (nat \<Rightarrow> 'arr option) \<Rightarrow> NVFormatInfo \<Rightarrow>
   addr \<Rightarrow> u32 \<Rightarrow> u32 \<Rightarrow> nat \<Rightarrow> u32 \<Rightarrow> NVFormatPlane list \<Rightarrow> ('c, 's, 'z) drv \<Rightarrow> (bool \<times> ('c, 's, 'z) drv) option" where
  "get_planes cuMemcpy2D array fi ptr width height i off [] d = Some (True, d)"
| "get_planes cuMemcpy2D array fi ptr width height i off (p # ps) d = do {
     arr \<leftarrow> array i;
     (ok, d) \<leftarrow> cuMemcpy2D \<lparr>srcArray = arr, dstHost = ptr, dstOffset = off, dstPitch = width * bppc fi,
                  WidthInBytes = drop_bit (ss_x (ss p)) width * bppc fi * channelCount p,
                  Height = drop_bit (ss_y (ss p)) height\<rparr> d;
     if \<not> ok then Some (False, d)
     else get_planes cuMemcpy2D array fi ptr width height (Suc i)
            (off + drop_bit (ss_x (ss p) + ss_y (ss p)) (width * height) * bppc fi * channelCount p) ps d
   }"

definition get_gpu ::
  "('arr CUDA_MEMCPY2D \<Rightarrow> ('c, 's, 'z) drv \<Rightarrow> (bool \<times> ('c, 's, 'z) drv) option) \<Rightarrow> (('c, 's, 'z) drv \<Rightarrow> addr \<Rightarrow> nat \<Rightarrow> 'arr option) \<Rightarrow>
   bool \<Rightarrow> bool \<Rightarrow> u32 \<Rightarrow> addr \<Rightarrow> NVImage \<Rightarrow> u32 \<Rightarrow> u32 \<Rightarrow> ('c, 's, 'z) drv \<Rightarrow> (VAStatus \<times> ('c, 's, 'z) drv) option" where
  "get_gpu cuMemcpy2D backing push_ok pop_ok surface sa img width height d = do {
     (_, d) \<leftarrow> nvSyncSurface d surface;
     if \<not> push_ok then Some (VA_STATUS_ERROR_OPERATION_FAILED, d)
     else do {
       b \<leftarrow> get_buffer d (imageBuffer img);
       let fi = formatsInfo (im_format img);
       (ok, d) \<leftarrow> get_planes cuMemcpy2D (backing d sa) fi (b_ptr b) width height 0 0 (take (fi_numPlanes fi) (planes fi)) d;
       Some (if \<not> ok then VA_STATUS_ERROR_DECODING_ERROR
             else if \<not> pop_ok then VA_STATUS_ERROR_OPERATION_FAILED else VA_STATUS_SUCCESS, d)
     }
   }"

definition nvGetImage ::
  "('arr CUDA_MEMCPY2D \<Rightarrow> ('c, 's, 'z) drv \<Rightarrow> (bool \<times> ('c, 's, 'z) drv) option) \<Rightarrow> (('c, 's, 'z) drv \<Rightarrow> addr \<Rightarrow> nat \<Rightarrow> 'arr option) \<Rightarrow>
   bool \<Rightarrow> bool \<Rightarrow> ('c, 's, 'z) drv \<Rightarrow> u32 \<Rightarrow> int \<Rightarrow> int \<Rightarrow> u32 \<Rightarrow> u32 \<Rightarrow> u32 \<Rightarrow> (VAStatus \<times> ('c, 's, 'z) drv) option" where
  "nvGetImage cuMemcpy2D backing push_ok pop_ok d surface x y width height imgid = do {
     sa \<leftarrow> getObjectPtr d OBJECT_TYPE_SURFACE surface;
     ia \<leftarrow> getObjectPtr d OBJECT_TYPE_IMAGE imgid;
     if sa = NULL then Some (VA_STATUS_ERROR_INVALID_SURFACE, d)
     else if ia = NULL then Some (VA_STATUS_ERROR_INVALID_IMAGE, d)
     else do {
       s \<leftarrow> get_surface d sa;
       img \<leftarrow> get_image d ia;
       host \<leftarrow> (if sf_context s = NULL then Some True
               else do { c \<leftarrow> get_context d (sf_context s); Some (cx_mode c = NV_CONTEXT_ENCODE) });
       if host then get_host sa img x y width height d
       else get_gpu cuMemcpy2D backing push_ok pop_ok surface sa img width height d
     }
   }"

text \<open>The bounding box of everything put so far.\<close>

definition add_content :: "u32 \<Rightarrow> u32 \<Rightarrow> u32 \<Rightarrow> u32 \<Rightarrow> NVSurface \<Rightarrow> NVSurface" where
  "add_content rx ry rw rh s =
     (if \<not> contentValid s
      then s\<lparr>contentX := rx, contentY := ry, contentWidth := rw, contentHeight := rh, contentValid := True\<rparr>
      else let x0 = (if contentX s < rx then contentX s else rx);
               y0 = (if contentY s < ry then contentY s else ry);
               x1a = contentX s + contentWidth s;
               y1a = contentY s + contentHeight s;
               x1b = rx + rw;
               y1b = ry + rh;
               x1 = (if x1b < x1a then x1a else x1b);
               y1 = (if y1b < y1a then y1a else y1b);
               x1 = (if sf_width s < x1 then sf_width s else x1);
               y1 = (if sf_height s < y1 then sf_height s else y1);
               cw = (if x0 < x1 then x1 - x0 else 0);
               ch = (if y0 < y1 then y1 - y0 else 0)
           in s\<lparr>contentX := x0, contentY := y0, contentWidth := cw, contentHeight := ch,
                 contentValid := 0 < cw \<and> 0 < ch\<rparr>)"

definition put_size :: "NVImage \<Rightarrow> NVSurface \<Rightarrow> u32 \<Rightarrow> u32 \<Rightarrow> u32 \<Rightarrow> u32 \<Rightarrow> u32 \<Rightarrow> u32 \<Rightarrow> u32 \<Rightarrow> u32 \<Rightarrow> u32 \<times> u32" where
  "put_size img s sx sy sw sh dx dy dw dh =
     (let w = (if sw < dw then sw else dw);
          h = (if sh < dh then sh else dh);
          w = clamp sx w (im_width img);
          h = clamp sy h (im_height img)
      in (clamp dx w (sf_width s), clamp dy h (sf_height s)))"

definition put_rows ::
  "addr \<Rightarrow> NVImage \<Rightarrow> NVBuffer \<Rightarrow> u32 \<Rightarrow> u32 \<Rightarrow> u32 \<Rightarrow> u32 \<Rightarrow> u32 \<Rightarrow> u32 \<Rightarrow> ('c, 's, 'z) drv \<Rightarrow> ('c, 's, 'z) drv option" where
  "put_rows sa img b sx sy dx dy w h d = do {
     s \<leftarrow> get_surface d sa;
     let (pitchY, pitchUV) = image_pitch img;
     let hp = unat (hostPitch s);
     d \<leftarrow> lock_surface sa d;
     d \<leftarrow> copy_rows (unat h) (unat w) (hostData s) (unat dy * hp + unat dx) hp
           (b_ptr b) (unat (offsets img ! 0) + unat sy * unat pitchY + unat sx) (unat pitchY) d;
     d \<leftarrow> copy_rows (unat (h div 2)) (unat (even_down w)) (hostData s)
           (unat (hostYSize s) + unat (dy div 2) * hp + unat (even_down dx)) hp
           (b_ptr b) (unat (offsets img ! 1) + unat (sy div 2) * unat pitchUV + unat (even_down sx)) (unat pitchUV) d;
     s \<leftarrow> get_surface d sa;
     let s = (if 0 < w \<and> 0 < h then add_content dx dy w h s else s);
     d \<leftarrow> unlock_surface sa (put_obj sa (PSurface s) d);
     s \<leftarrow> get_surface d sa;
     Some (put_obj sa (PSurface (s\<lparr>sf_status := VASurfaceReady\<rparr>)) d)
   }"

definition nvPutImage ::
  "(nat \<Rightarrow> bool) \<Rightarrow> ('c, 's, 'z) drv \<Rightarrow> u32 \<Rightarrow> u32 \<Rightarrow> int \<Rightarrow> int \<Rightarrow> u32 \<Rightarrow> u32 \<Rightarrow> int \<Rightarrow> int \<Rightarrow> u32 \<Rightarrow> u32 \<Rightarrow>
   (VAStatus \<times> ('c, 's, 'z) drv) option" where
  "nvPutImage alloc_ok d surface imgid src_x src_y src_width src_height dest_x dest_y dest_width dest_height = do {
     sa \<leftarrow> getObjectPtr d OBJECT_TYPE_SURFACE surface;
     ia \<leftarrow> getObjectPtr d OBJECT_TYPE_IMAGE imgid;
     if sa = NULL then Some (VA_STATUS_ERROR_INVALID_SURFACE, d)
     else if ia = NULL then Some (VA_STATUS_ERROR_INVALID_IMAGE, d)
     else do {
       img \<leftarrow> get_image d ia;
       if imageBuffer img = NULL then Some (VA_STATUS_ERROR_INVALID_IMAGE, d)
       else do {
         b \<leftarrow> get_buffer d (imageBuffer img);
         if b_ptr b = NULL then Some (VA_STATUS_ERROR_INVALID_IMAGE, d)
         else do {
           (ok, d) \<leftarrow> ensureSurfaceHostBuffer alloc_ok sa d;
           if \<not> ok then Some (VA_STATUS_ERROR_ALLOCATION_FAILED, d)
           else do {
             s \<leftarrow> get_surface d sa;
             if src_width = 0 \<or> src_height = 0 \<or> dest_width = 0 \<or> dest_height = 0
             then Some (VA_STATUS_SUCCESS, put_obj sa (PSurface (s\<lparr>sf_status := VASurfaceReady\<rparr>)) d)
             else if src_x < 0 \<or> src_y < 0 \<or> dest_x < 0 \<or> dest_y < 0 then Some (VA_STATUS_ERROR_INVALID_PARAMETER, d)
             else if im_width img \<le> word_of_int src_x \<or> im_height img \<le> word_of_int src_y
             then Some (VA_STATUS_ERROR_INVALID_PARAMETER, d)
             else if sf_width s \<le> word_of_int dest_x \<or> sf_height s \<le> word_of_int dest_y
             then Some (VA_STATUS_ERROR_INVALID_PARAMETER, d)
             else do {
               let (w, h) = put_size img s (word_of_int src_x) (word_of_int src_y) src_width src_height
                              (word_of_int dest_x) (word_of_int dest_y) dest_width dest_height;
               d \<leftarrow> put_rows sa img b (word_of_int src_x) (word_of_int src_y) (word_of_int dest_x) (word_of_int dest_y) w h d;
               Some (VA_STATUS_SUCCESS, d)
             }
           }
         }
       }
     }
   }"

section \<open>Copying rows\<close>

lemma splice_nth:
  assumes "off + length bs \<le> length blk" "k < length blk"
  shows "splice blk off bs ! k = (if off \<le> k \<and> k < off + length bs then bs ! (k - off) else blk ! k)"
  using assms by (auto simp: splice_def nth_append min_def)

text \<open>Where a cell of the destination comes from, with rows that do not overlap.\<close>

definition in_rows :: "nat \<Rightarrow> nat \<Rightarrow> nat \<Rightarrow> nat \<Rightarrow> nat \<Rightarrow> bool" where
  "in_rows rows w off pitch k \<longleftrightarrow> (\<exists>r < rows. off + r * pitch \<le> k \<and> k < off + r * pitch + w)"

lemma copy_rows_spec:
  assumes "dst \<noteq> src" "mem d src = Some sb" "mem d dst = Some db" "w \<le> dpitch"
    "\<And>r. r < rows \<Longrightarrow> doff + r * dpitch + w \<le> length db" "\<And>r. r < rows \<Longrightarrow> soff + r * spitch + w \<le> length sb"
  shows "\<exists>db'. copy_rows rows w dst doff dpitch src soff spitch d = Some (d\<lparr>mem := (mem d)(dst \<mapsto> db')\<rparr>) \<and>
     length db' = length db \<and>
     (\<forall>r < rows. \<forall>c < w. db' ! (doff + r * dpitch + c) = sb ! (soff + r * spitch + c)) \<and>
     (\<forall>k < length db. \<not> in_rows rows w doff dpitch k \<longrightarrow> db' ! k = db ! k)"
  using assms(5,6)
proof (induction rows)
  case 0
  have "(mem d)(dst \<mapsto> db) = mem d" using assms(3) by (simp add: fun_upd_idem)
  then show ?case by (intro exI[of _ db]) simp
next
  case (Suc n)
  obtain db1 where e: "copy_rows n w dst doff dpitch src soff spitch d = Some (d\<lparr>mem := (mem d)(dst \<mapsto> db1)\<rparr>)"
      "length db1 = length db" "\<forall>r < n. \<forall>c < w. db1 ! (doff + r * dpitch + c) = sb ! (soff + r * spitch + c)"
      "\<forall>k < length db. \<not> in_rows n w doff dpitch k \<longrightarrow> db1 ! k = db ! k"
    using Suc.IH Suc.prems by (metis less_SucI)
  let ?row = "take w (drop (soff + n * spitch) sb)"
  let ?db = "splice db1 (doff + n * dpitch) ?row"
  have b: "doff + n * dpitch + w \<le> length db" "soff + n * spitch + w \<le> length sb" using Suc.prems by simp_all
  have lr: "length ?row = w" using b(2) by simp
  have c: "copy_rows (Suc n) w dst doff dpitch src soff spitch d = Some (d\<lparr>mem := (mem d)(dst \<mapsto> ?db)\<rparr>)"
    using e(1,2) b assms(1,2) by (simp add: mem_copy_def mem_read_def read_bytes_def mem_write_def)
  have nth: "?db ! k = (if doff + n * dpitch \<le> k \<and> k < doff + n * dpitch + w then ?row ! (k - (doff + n * dpitch)) else db1 ! k)"
    if "k < length db" for k
    using splice_nth[of "doff + n * dpitch" ?row db1 k] that b lr e(2) by simp
  have "?db ! (doff + r * dpitch + j) = sb ! (soff + r * spitch + j)" if r: "r < Suc n" "j < w" for r j
  proof (cases "r = n")
    case True
    then show ?thesis using nth[of "doff + n * dpitch + j"] r b by simp
  next
    case False
    then have "r < n" using r by simp
    then have "Suc r * dpitch \<le> n * dpitch" by (simp only: mult_le_mono1 Suc_le_eq)
    then have lt: "doff + r * dpitch + j < doff + n * dpitch" using r(2) assms(4) by simp
    moreover have "doff + r * dpitch + j < length db" using lt b(1) by linarith
    ultimately show ?thesis using nth[of "doff + r * dpitch + j"] e(3) \<open>r < n\<close> r(2) by simp
  qed
  moreover have "?db ! k = db ! k" if "k < length db" "\<not> in_rows (Suc n) w doff dpitch k" for k
    using nth[OF that(1)] that e(4) by (auto simp: in_rows_def less_Suc_eq)
  moreover have "length ?db = length db" using lr b(1) e(2) by simp
  ultimately show ?case using c by blast
qed

section \<open>The layout of an image\<close>

text \<open>The byte of a plane at a row and a column.\<close>

definition px :: "block \<Rightarrow> nat \<Rightarrow> nat \<Rightarrow> nat \<Rightarrow> nat \<Rightarrow> u8 option" where
  "px blk base pitch row col = blk ! (base + row * pitch + col)"

definition pitchY :: "NVImage \<Rightarrow> nat" where "pitchY img = unat (fst (image_pitch img))"
definition pitchUV :: "NVImage \<Rightarrow> nat" where "pitchUV img = unat (snd (image_pitch img))"
definition offY :: "NVImage \<Rightarrow> nat" where "offY img = unat (offsets img ! 0)"
definition offUV :: "NVImage \<Rightarrow> nat" where "offUV img = unat (offsets img ! 1)"

text \<open>
  Both planes lie inside the block of \<open>n\<close> bytes, one after the other, and rows do not overlap.
\<close>

definition image_fits :: "NVImage \<Rightarrow> nat \<Rightarrow> bool" where
  "image_fits img n \<longleftrightarrow> unat (im_width img) \<le> pitchY img \<and> 2 * (unat (im_width img) div 2) \<le> pitchUV img \<and>
     offY img + unat (im_height img) * pitchY img \<le> offUV img \<and> offUV img \<le> n \<and>
     (\<forall>r < unat (im_height img) div 2. offUV img + r * pitchUV img + 2 * (unat (im_width img) div 2) \<le> n)"

lemma and_not_mask: "w AND NOT (mask n) = push_bit n (drop_bit n (w :: 'a::len word))"
  by (rule bit_word_eqI) (auto simp: bit_simps)

lemma unat_even_down [simp]: "unat (even_down w) = 2 * (unat w div 2)"
proof -
  have "w AND NOT 1 = 2 * (w div 2)"
    using and_not_mask[of w 1] by (simp add: mask_eq_exp_minus_1 push_bit_eq_mult drop_bit_eq_div ac_simps)
  moreover have "2 * (unat w div 2) < 2 ^ 32"
    using unsigned_less[where 'a = nat and w = w] div_mult2_eq[of "unat w" 2 1] by (simp add: less_mult_imp_div_less)
  ultimately show ?thesis unfolding even_down_def by (simp add: unat_mult_bounded unat_div)
qed

lemma unat_half_word [simp]: "unat (w div (2 :: u32)) = unat w div 2"
  by (simp add: unat_div)

lemma unat_min: "unat (if a < b then a else (b :: u32)) = min (unat a) (unat b)"
  by (simp add: word_less_nat_alt min_def)

lemma unat_clamp:
  assumes "unat pos \<le> unat limit" "unat pos + unat len < 2 ^ 32"
  shows "unat (clamp pos len limit) = min (unat len) (unat limit - unat pos)"
proof -
  have s: "unat (pos + len) = unat pos + unat len" using assms(2) by (subst unat_add_bounded) simp_all
  have "unat (limit - pos) = unat limit - unat pos"
    using assms(1) by (simp add: unat_sub word_le_nat_alt)
  then show ?thesis using s by (auto simp: clamp_def word_less_nat_alt)
qed

lemma plane_bounds:
  fixes r n p H c :: nat
  assumes "r < n" "n \<le> H" "c \<le> p"
  shows "r * p + c \<le> H * p"
proof -
  have "Suc r * p \<le> H * p" using assms(1,2) by (intro mult_le_mono1) simp
  then show ?thesis using assms(3) by simp
qed

lemma halves:
  fixes a b c :: nat
  assumes "a + b \<le> c"
  shows "a div 2 + b div 2 \<le> c div 2" "2 * (a div 2) + 2 * (b div 2) \<le> 2 * (c div 2)"
proof -
  have "2 * (a div 2) \<le> a" "2 * (b div 2) \<le> b" by simp_all
  then show "a div 2 + b div 2 \<le> c div 2"
    using assms by (simp add: less_eq_div_iff_mult_less_eq)
  then show "2 * (a div 2) + 2 * (b div 2) \<le> 2 * (c div 2)" by linarith
qed

section \<open>Putting\<close>

definition put_surface :: "u32 \<Rightarrow> u32 \<Rightarrow> u32 \<Rightarrow> u32 \<Rightarrow> NVSurface \<Rightarrow> NVSurface" where
  "put_surface dx dy w h s =
     (if 0 < w \<and> 0 < h then add_content dx dy w h (s\<lparr>sf_locked := True\<rparr>) else s)\<lparr>sf_locked := False, sf_status := VASurfaceReady\<rparr>"

lemma add_content_fields [simp]:
  "sf_locked (add_content x y w h s) = sf_locked s" "hostData (add_content x y w h s) = hostData s"
  "hostPitch (add_content x y w h s) = hostPitch s" "hostYSize (add_content x y w h s) = hostYSize s"
  "hostTotalSize (add_content x y w h s) = hostTotalSize s" "sf_width (add_content x y w h s) = sf_width s"
  "sf_height (add_content x y w h s) = sf_height s" "sf_context (add_content x y w h s) = sf_context s"
  by (simp_all add: add_content_def Let_def)

lemma put_surface_fields [simp]:
  "hostData (put_surface x y w h s) = hostData s" "hostPitch (put_surface x y w h s) = hostPitch s"
  "hostYSize (put_surface x y w h s) = hostYSize s" "hostTotalSize (put_surface x y w h s) = hostTotalSize s"
  "sf_width (put_surface x y w h s) = sf_width s" "sf_height (put_surface x y w h s) = sf_height s"
  "sf_context (put_surface x y w h s) = sf_context s" "\<not> sf_locked (put_surface x y w h s)"
  by (simp_all add: put_surface_def)

text \<open>What a copy of both planes between two blocks achieves.\<close>

definition copied ::
  "nat \<Rightarrow> nat \<Rightarrow> block \<Rightarrow> (nat \<times> nat) \<Rightarrow> (nat \<times> nat) \<Rightarrow> nat \<Rightarrow> nat \<Rightarrow> block \<Rightarrow> (nat \<times> nat) \<Rightarrow> (nat \<times> nat) \<Rightarrow> nat \<Rightarrow> nat \<Rightarrow> bool" where
  "copied w h db dY dUV dx dy sb sY sUV sx sy \<longleftrightarrow>
     (\<forall>r < h. \<forall>c < w. px db (fst dY) (snd dY) (dy + r) (dx + c) = px sb (fst sY) (snd sY) (sy + r) (sx + c)) \<and>
     (\<forall>r < h div 2. \<forall>c < 2 * (w div 2). px db (fst dUV) (snd dUV) (dy div 2 + r) (2 * (dx div 2) + c) =
        px sb (fst sUV) (snd sUV) (sy div 2 + r) (2 * (sx div 2) + c))"

lemma copied_trans:
  assumes "copied w h m mY mUV mx my a aY aUV ax ay" "copied w' h' b bY bUV bx by' m mY mUV mx my" "w' \<le> w" "h' \<le> h"
  shows "copied w' h' b bY bUV bx by' a aY aUV ax ay"
proof -
  have "w' div 2 \<le> w div 2" "h' div 2 \<le> h div 2" using assms(3,4) by (simp_all add: div_le_mono)
  then show ?thesis using assms unfolding copied_def by auto
qed

lemma layout_bounds:
  assumes "layout_ok s"
  shows "unat (sf_width s) \<le> unat (hostPitch s)" "even (unat (hostPitch s))"
    "unat (sf_height s) * unat (hostPitch s) \<le> unat (hostYSize s)"
    "unat (hostYSize s) + unat (sf_height s) div 2 * unat (hostPitch s) \<le> unat (hostTotalSize s)"
proof -
  obtain rows where r: "unat (sf_width s) \<le> unat (hostPitch s)" "even (unat (hostPitch s))" "unat (sf_height s) \<le> rows"
      "unat (hostYSize s) = rows * unat (hostPitch s)"
      "unat (hostTotalSize s) = rows * unat (hostPitch s) + rows div 2 * unat (hostPitch s)"
    using assms unfolding layout_ok_def by blast
  then show "unat (sf_width s) \<le> unat (hostPitch s)" "even (unat (hostPitch s))"
    "unat (sf_height s) * unat (hostPitch s) \<le> unat (hostYSize s)"
    "unat (hostYSize s) + unat (sf_height s) div 2 * unat (hostPitch s) \<le> unat (hostTotalSize s)"
    by (simp_all add: div_le_mono mult_le_mono1)
qed

text \<open>
  Both planes of a rectangle: source and destination rectangles lie inside their images, each
  image is a luma plane followed by a chroma plane of half the height.
\<close>

lemma copy_planes_spec:
  assumes "dst \<noteq> src" "mem d src = Some sb" "mem d dst = Some db"
    "dx + w \<le> DW" "dy + h \<le> DH" "sx + w \<le> SW" "sy + h \<le> SH"
    "DW \<le> dp" "2 * (DW div 2) \<le> dp'" "dY + DH * dp \<le> dUV" "dUV \<le> length db"
    "\<And>r. r < DH div 2 \<Longrightarrow> dUV + r * dp' + 2 * (DW div 2) \<le> length db"
    "SW \<le> sp" "2 * (SW div 2) \<le> sp'" "sY + SH * sp \<le> sUV" "sUV \<le> length sb"
    "\<And>r. r < SH div 2 \<Longrightarrow> sUV + r * sp' + 2 * (SW div 2) \<le> length sb"
  shows "\<exists>db'. do {
       d \<leftarrow> copy_rows h w dst (dY + dy * dp + dx) dp src (sY + sy * sp + sx) sp d;
       copy_rows (h div 2) (2 * (w div 2)) dst (dUV + dy div 2 * dp' + 2 * (dx div 2)) dp'
         src (sUV + sy div 2 * sp' + 2 * (sx div 2)) sp' d
     } = Some (d\<lparr>mem := (mem d)(dst \<mapsto> db')\<rparr>) \<and> length db' = length db \<and>
     copied w h db' (dY, dp) (dUV, dp') dx dy sb (sY, sp) (sUV, sp') sx sy \<and>
     (\<forall>k < length db. \<not> in_rows h w (dY + dy * dp + dx) dp k \<and>
        \<not> in_rows (h div 2) (2 * (w div 2)) (dUV + dy div 2 * dp' + 2 * (dx div 2)) dp' k \<longrightarrow> db' ! k = db ! k)"
proof -
  have inY: "Y + (y + r) * p + (x + c) \<le> U"
    if "r < h" "c \<le> w" "x + w \<le> W" "y + h \<le> H" "W \<le> p" "Y + H * p \<le> U" for Y y r p x c W H U
  proof -
    have "(y + r) * p + (x + c) \<le> H * p" by (rule plane_bounds[of _ "y + h"]) (use that in simp_all)
    then show ?thesis using that(6) by simp
  qed
  have inUV: "U + (y div 2 + r) * p + (2 * (x div 2) + c) \<le> n"
    if "r < h div 2" "c \<le> 2 * (w div 2)" "x + w \<le> W" "y + h \<le> H"
      "\<And>r. r < H div 2 \<Longrightarrow> U + r * p + 2 * (W div 2) \<le> n" for U y r p x c W H n
  proof -
    have "y div 2 + r < H div 2" using halves(1)[OF that(4)] that(1) by simp
    from that(5)[OF this] halves(2)[OF that(3)] that(2) show ?thesis by simp
  qed
  obtain db1 where c1: "copy_rows h w dst (dY + dy * dp + dx) dp src (sY + sy * sp + sx) sp d = Some (d\<lparr>mem := (mem d)(dst \<mapsto> db1)\<rparr>)"
      "length db1 = length db"
      "\<forall>r < h. \<forall>c < w. db1 ! (dY + dy * dp + dx + r * dp + c) = sb ! (sY + sy * sp + sx + r * sp + c)"
      "\<forall>k < length db. \<not> in_rows h w (dY + dy * dp + dx) dp k \<longrightarrow> db1 ! k = db ! k"
    using copy_rows_spec[OF assms(1-3), of w dp h "dY + dy * dp + dx" "sY + sy * sp + sx" sp]
      inY[of _ w dx DW dy DH dp dY dUV] inY[of _ w sx SW sy SH sp sY sUV] assms(4-8,10,11,13,15,16)
    by (fastforce simp: algebra_simps)
  let ?d1 = "d\<lparr>mem := (mem d)(dst \<mapsto> db1)\<rparr>"
  have m1: "mem ?d1 src = Some sb" "mem ?d1 dst = Some db1" using assms(1,2) by simp_all
  obtain db2 where c2: "copy_rows (h div 2) (2 * (w div 2)) dst (dUV + dy div 2 * dp' + 2 * (dx div 2)) dp'
        src (sUV + sy div 2 * sp' + 2 * (sx div 2)) sp' ?d1 = Some (?d1\<lparr>mem := (mem ?d1)(dst \<mapsto> db2)\<rparr>)"
      "length db2 = length db1"
      "\<forall>r < h div 2. \<forall>c < 2 * (w div 2). db2 ! (dUV + dy div 2 * dp' + 2 * (dx div 2) + r * dp' + c) =
         sb ! (sUV + sy div 2 * sp' + 2 * (sx div 2) + r * sp' + c)"
      "\<forall>k < length db1. \<not> in_rows (h div 2) (2 * (w div 2)) (dUV + dy div 2 * dp' + 2 * (dx div 2)) dp' k \<longrightarrow> db2 ! k = db1 ! k"
    using copy_rows_spec[OF assms(1) m1, of "2 * (w div 2)" dp' "h div 2" "dUV + dy div 2 * dp' + 2 * (dx div 2)"
        "sUV + sy div 2 * sp' + 2 * (sx div 2)" sp']
      inUV[of _ "2 * (w div 2)" dx DW dy DH dUV dp' "length db"] inUV[of _ "2 * (w div 2)" sx SW sy SH sUV sp' "length sb"]
      halves(2)[OF assms(4)] assms(4-7,9,12,17) c1(2)
    by (fastforce simp: algebra_simps)
  have keep: "db2 ! (dY + dy * dp + dx + r * dp + c) = db1 ! (dY + dy * dp + dx + r * dp + c)" if "r < h" "c < w" for r c
  proof -
    have "dY + dy * dp + dx + r * dp + c < dUV"
      using inY[of r "Suc c" dx DW dy DH dp dY dUV] that assms(4,5,8,10) by (simp add: algebra_simps)
    then show ?thesis using c2(4) c1(2) assms(11) by (auto simp: in_rows_def)
  qed
  have "copied w h db2 (dY, dp) (dUV, dp') dx dy sb (sY, sp) (sUV, sp') sx sy"
    using keep c1(3) c2(3) by (simp add: copied_def px_def algebra_simps)
  then show ?thesis using c1 c2 by (intro exI[of _ db2]) simp
qed

lemma surf_inv_write:
  assumes "surf_inv d" "mem d x = Some blk" "length blk' = length blk"
  shows "surf_inv (d\<lparr>mem := (mem d)(x \<mapsto> blk')\<rparr>)"
  by (rule surf_inv_frame[OF assms(1)]) (use assms in \<open>auto simp: surf_inv_def live_def split: if_splits\<close>)

lemma live_mem [simp]: "live (d\<lparr>mem := m\<rparr>) a s = live d a s"
  by (simp add: live_def)

text \<open>An image whose buffer holds both planes.\<close>

definition image_ok :: "('c, 's, 'z) drv \<Rightarrow> NVImage \<Rightarrow> NVBuffer \<Rightarrow> block \<Rightarrow> bool" where
  "image_ok d img b ib \<longleftrightarrow> imageBuffer img \<noteq> NULL \<and> get_buffer d (imageBuffer img) = Some b \<and> b_ptr b \<noteq> NULL \<and>
     mem d (b_ptr b) = Some ib \<and> image_fits img (length ib)"

lemma surface_plane_bound:
  assumes "layout_ok s" "r < unat (sf_height s) div 2"
  shows "unat (hostYSize s) + r * unat (hostPitch s) + 2 * (unat (sf_width s) div 2) \<le> unat (hostTotalSize s)"
proof -
  have "r * unat (hostPitch s) + 2 * (unat (sf_width s) div 2) \<le> unat (sf_height s) div 2 * unat (hostPitch s)"
    by (rule plane_bounds[OF assms(2) order_refl]) (use layout_bounds(1)[OF assms(1)] in linarith)
  then show ?thesis using layout_bounds(4)[OF assms(1)] by simp
qed

lemma host_planes:
  assumes "layout_ok s" "length hb = unat (hostTotalSize s)"
  shows "unat (sf_width s) \<le> unat (hostPitch s)" "2 * (unat (sf_width s) div 2) \<le> unat (hostPitch s)"
    "0 + unat (sf_height s) * unat (hostPitch s) \<le> unat (hostYSize s)" "unat (hostYSize s) \<le> length hb"
    "\<And>r. r < unat (sf_height s) div 2 \<Longrightarrow>
       unat (hostYSize s) + r * unat (hostPitch s) + 2 * (unat (sf_width s) div 2) \<le> length hb"
  using layout_bounds[OF assms(1)] surface_plane_bound[OF assms(1)] assms(2) by simp_all

lemma live_host:
  assumes "surf_inv d" "live d a s" "hostData s \<noteq> NULL"
  shows "\<exists>hb. mem d (hostData s) = Some hb \<and> length hb = unat (hostTotalSize s) \<and> layout_ok s"
proof -
  have "host_ok d s" using assms(1,2) unfolding surf_inv_def by blast
  then show ?thesis using assms(3) by (auto simp: host_ok_def)
qed

text \<open>The luma and chroma planes of a host copy, and of an image.\<close>

definition host_Y :: "NVSurface \<Rightarrow> nat \<times> nat" where "host_Y s = (0, unat (hostPitch s))"
definition host_UV :: "NVSurface \<Rightarrow> nat \<times> nat" where "host_UV s = (unat (hostYSize s), unat (hostPitch s))"
definition image_Y :: "NVImage \<Rightarrow> nat \<times> nat" where "image_Y img = (offY img, pitchY img)"
definition image_UV :: "NVImage \<Rightarrow> nat \<times> nat" where "image_UV img = (offUV img, pitchUV img)"

text \<open>The cells of a plane pair that a rectangle covers.\<close>

definition in_rect :: "nat \<Rightarrow> nat \<Rightarrow> nat \<times> nat \<Rightarrow> nat \<times> nat \<Rightarrow> nat \<Rightarrow> nat \<Rightarrow> nat \<Rightarrow> bool" where
  "in_rect w h Y UV x y k \<longleftrightarrow> in_rows h w (fst Y + y * snd Y + x) (snd Y) k \<or>
     in_rows (h div 2) (2 * (w div 2)) (fst UV + y div 2 * snd UV + 2 * (x div 2)) (snd UV) k"

lemma put_rows_spec:
  assumes "surf_inv d" "live d sa s" "hostData s \<noteq> NULL" "\<not> sf_locked s" "mem d (hostData s) = Some hb"
    "image_ok d img b ib" "b_ptr b \<noteq> hostData s"
    "unat dx + unat w \<le> unat (sf_width s)" "unat dy + unat h \<le> unat (sf_height s)"
    "unat sx + unat w \<le> unat (im_width img)" "unat sy + unat h \<le> unat (im_height img)"
  shows "\<exists>hb'. put_rows sa img b sx sy dx dy w h d =
       Some (put_obj sa (PSurface (put_surface dx dy w h s)) (d\<lparr>mem := (mem d)(hostData s \<mapsto> hb')\<rparr>)) \<and>
     length hb' = length hb \<and>
     copied (unat w) (unat h) hb' (host_Y s) (host_UV s) (unat dx) (unat dy) ib (image_Y img) (image_UV img) (unat sx) (unat sy) \<and>
     (\<forall>k < length hb. \<not> in_rect (unat w) (unat h) (host_Y s) (host_UV s) (unat dx) (unat dy) k \<longrightarrow> hb' ! k = hb ! k)"
proof -
  have g: "get_surface d sa = Some s" using assms(2) by (simp add: live_def get_iff_heap)
  have lo: "layout_ok s" "length hb = unat (hostTotalSize s)"
    using live_host[OF assms(1-3)] assms(5) by auto
  note hp = host_planes[OF lo]
  have im: "mem d (b_ptr b) = Some ib" "unat (im_width img) \<le> pitchY img" "2 * (unat (im_width img) div 2) \<le> pitchUV img"
      "offY img + unat (im_height img) * pitchY img \<le> offUV img" "offUV img \<le> length ib"
      "\<And>r. r < unat (im_height img) div 2 \<Longrightarrow> offUV img + r * pitchUV img + 2 * (unat (im_width img) div 2) \<le> length ib"
    using assms(6) by (auto simp: image_ok_def image_fits_def)
  let ?d1 = "put_obj sa (PSurface (s\<lparr>sf_locked := True\<rparr>)) d"
  have m1: "mem ?d1 (b_ptr b) = Some ib" "mem ?d1 (hostData s) = Some hb" using im(1) assms(5) by simp_all
  obtain hb' where c: "do {
       d \<leftarrow> copy_rows (unat h) (unat w) (hostData s) (0 + unat dy * unat (hostPitch s) + unat dx) (unat (hostPitch s))
             (b_ptr b) (offY img + unat sy * pitchY img + unat sx) (pitchY img) ?d1;
       copy_rows (unat h div 2) (2 * (unat w div 2)) (hostData s)
         (unat (hostYSize s) + unat dy div 2 * unat (hostPitch s) + 2 * (unat dx div 2)) (unat (hostPitch s))
         (b_ptr b) (offUV img + unat sy div 2 * pitchUV img + 2 * (unat sx div 2)) (pitchUV img) d
     } = Some (?d1\<lparr>mem := (mem ?d1)(hostData s \<mapsto> hb')\<rparr>)" "length hb' = length hb"
      "copied (unat w) (unat h) hb' (0, unat (hostPitch s)) (unat (hostYSize s), unat (hostPitch s)) (unat dx) (unat dy)
         ib (offY img, pitchY img) (offUV img, pitchUV img) (unat sx) (unat sy)"
      "\<forall>k < length hb. \<not> in_rows (unat h) (unat w) (0 + unat dy * unat (hostPitch s) + unat dx) (unat (hostPitch s)) k \<and>
        \<not> in_rows (unat h div 2) (2 * (unat w div 2)) (unat (hostYSize s) + unat dy div 2 * unat (hostPitch s) + 2 * (unat dx div 2))
            (unat (hostPitch s)) k \<longrightarrow> hb' ! k = hb ! k"
    using copy_planes_spec[OF assms(7)[symmetric] m1 assms(8,9,10,11) hp im(2-6)] by blast
  let ?d2 = "?d1\<lparr>mem := (mem ?d1)(hostData s \<mapsto> hb')\<rparr>"
  from c(1) obtain y where y: "copy_rows (unat h) (unat w) (hostData s) (0 + unat dy * unat (hostPitch s) + unat dx) (unat (hostPitch s))
        (b_ptr b) (offY img + unat sy * pitchY img + unat sx) (pitchY img) ?d1 = Some y"
      "copy_rows (unat h div 2) (2 * (unat w div 2)) (hostData s)
        (unat (hostYSize s) + unat dy div 2 * unat (hostPitch s) + 2 * (unat dx div 2)) (unat (hostPitch s))
        (b_ptr b) (offUV img + unat sy div 2 * pitchUV img + 2 * (unat sx div 2)) (pitchUV img) y = Some ?d2"
    by (auto simp: bind_eq_Some_conv)
  have e: "put_rows sa img b sx sy dx dy w h d = Some (put_obj sa (PSurface (put_surface dx dy w h s)) ?d2)"
    using g y assms(4)
    by (simp add: put_rows_def lock_surface_def unlock_surface_def Let_def split_beta put_surface_def
        pitchY_def pitchUV_def offY_def offUV_def)
  have "put_obj sa (PSurface (put_surface dx dy w h s)) ?d2 =
      put_obj sa (PSurface (put_surface dx dy w h s)) (d\<lparr>mem := (mem d)(hostData s \<mapsto> hb')\<rparr>)"
    by (simp add: put_obj_def)
  with e c(2-4) show ?thesis
    by (intro exI[of _ hb']) (simp add: host_Y_def host_UV_def image_Y_def image_UV_def in_rect_def)
qed

section \<open>Getting\<close>

lemma unat_word_of_int: "0 \<le> x \<Longrightarrow> x < 2 ^ 31 \<Longrightarrow> unat (word_of_int x :: u32) = nat x"
  by (simp add: unat_eq_nat_uint uint_word_of_int)

lemma get_host_spec:
  assumes "surf_inv d" "live d sa s" "hostData s \<noteq> NULL" "\<not> sf_locked s" "mem d (hostData s) = Some hb"
    "image_ok d img b ib" "b_ptr b \<noteq> hostData s" "imageBuffer img \<noteq> sa"
    "0 \<le> x" "x < 2 ^ 31" "nat x < unat (sf_width s)" "0 \<le> y" "y < 2 ^ 31" "nat y < unat (sf_height s)"
    "nat x + unat width < 2 ^ 32" "nat y + unat height < 2 ^ 32"
    "w = min (min (unat width) (unat (sf_width s) - nat x)) (unat (im_width img))"
    "h = min (min (unat height) (unat (sf_height s) - nat y)) (unat (im_height img))"
  shows "\<exists>ib'. get_host sa img x y width height d = Some (VA_STATUS_SUCCESS, d\<lparr>mem := (mem d)(b_ptr b \<mapsto> ib')\<rparr>) \<and>
     length ib' = length ib \<and>
     copied w h ib' (image_Y img) (image_UV img) 0 0 hb (host_Y s) (host_UV s) (nat x) (nat y) \<and>
     (\<forall>k < length ib. \<not> in_rect w h (image_Y img) (image_UV img) 0 0 k \<longrightarrow> ib' ! k = ib ! k)"
proof -
  have g: "get_surface d sa = Some s" "heap d sa = Some (PSurface s)" using assms(2) by (simp_all add: live_def get_iff_heap)
  have lo: "layout_ok s" "length hb = unat (hostTotalSize s)"
    using live_host[OF assms(1-3)] assms(5) by auto
  note hp = host_planes[OF lo]
  have im: "imageBuffer img \<noteq> NULL" "get_buffer d (imageBuffer img) = Some b" "b_ptr b \<noteq> NULL"
      "mem d (b_ptr b) = Some ib" "unat (im_width img) \<le> pitchY img" "2 * (unat (im_width img) div 2) \<le> pitchUV img"
      "offY img + unat (im_height img) * pitchY img \<le> offUV img" "offUV img \<le> length ib"
      "\<And>r. r < unat (im_height img) div 2 \<Longrightarrow> offUV img + r * pitchUV img + 2 * (unat (im_width img) div 2) \<le> length ib"
    using assms(6) by (auto simp: image_ok_def image_fits_def)
  have xy: "unat (word_of_int x :: u32) = nat x" "unat (word_of_int y :: u32) = nat y"
    using assms(9,10,12,13) by (simp_all add: unat_word_of_int)
  let ?cw = "clamp (word_of_int x) width (sf_width s)" and ?ch = "clamp (word_of_int y) height (sf_height s)"
  let ?w = "if im_width img < ?cw then im_width img else ?cw" and ?h = "if im_height img < ?ch then im_height img else ?ch"
  have cwh: "unat ?cw = min (unat width) (unat (sf_width s) - nat x)" "unat ?ch = min (unat height) (unat (sf_height s) - nat y)"
    by (rule unat_clamp[of "word_of_int x" "sf_width s" width, unfolded xy, OF less_imp_le[OF assms(11)] assms(15)],
        rule unat_clamp[of "word_of_int y" "sf_height s" height, unfolded xy, OF less_imp_le[OF assms(14)] assms(16)])
  have wh: "unat ?w = w" "unat ?h = h" unfolding unat_min cwh assms(17,18) by (rule min.commute)+
  let ?d1 = "put_obj sa (PSurface (s\<lparr>sf_locked := True\<rparr>)) d"
  have m1: "mem ?d1 (hostData s) = Some hb" "mem ?d1 (b_ptr b) = Some ib" using im(4) assms(5) by simp_all
  have fit: "0 + w \<le> unat (im_width img)" "0 + h \<le> unat (im_height img)" "nat x + w \<le> unat (sf_width s)" "nat y + h \<le> unat (sf_height s)"
  proof -
    have "w \<le> unat (im_width img)" "w \<le> unat (sf_width s) - nat x" "h \<le> unat (im_height img)" "h \<le> unat (sf_height s) - nat y"
      unfolding assms(17,18) by simp_all
    then show "0 + w \<le> unat (im_width img)" "0 + h \<le> unat (im_height img)" "nat x + w \<le> unat (sf_width s)"
      "nat y + h \<le> unat (sf_height s)"
      using assms(11,14) by linarith+
  qed
  obtain ib' where c: "do {
       d \<leftarrow> copy_rows h w (b_ptr b) (offY img + 0 * pitchY img + 0) (pitchY img)
             (hostData s) (0 + nat y * unat (hostPitch s) + nat x) (unat (hostPitch s)) ?d1;
       copy_rows (h div 2) (2 * (w div 2)) (b_ptr b) (offUV img + 0 div 2 * pitchUV img + 2 * (0 div 2)) (pitchUV img)
         (hostData s) (unat (hostYSize s) + nat y div 2 * unat (hostPitch s) + 2 * (nat x div 2)) (unat (hostPitch s)) d
     } = Some (?d1\<lparr>mem := (mem ?d1)(b_ptr b \<mapsto> ib')\<rparr>)" "length ib' = length ib"
      "copied w h ib' (offY img, pitchY img) (offUV img, pitchUV img) 0 0
         hb (0, unat (hostPitch s)) (unat (hostYSize s), unat (hostPitch s)) (nat x) (nat y)"
      "\<forall>k < length ib. \<not> in_rows h w (offY img + 0 * pitchY img + 0) (pitchY img) k \<and>
        \<not> in_rows (h div 2) (2 * (w div 2)) (offUV img + 0 div 2 * pitchUV img + 2 * (0 div 2)) (pitchUV img) k \<longrightarrow> ib' ! k = ib ! k"
    using copy_planes_spec[OF assms(7) m1 fit im(5-9) hp] by blast
  let ?d2 = "?d1\<lparr>mem := (mem ?d1)(b_ptr b \<mapsto> ib')\<rparr>"
  from c(1) obtain z where z: "copy_rows h w (b_ptr b) (offY img) (pitchY img)
        (hostData s) (nat y * unat (hostPitch s) + nat x) (unat (hostPitch s)) ?d1 = Some z"
      "copy_rows (h div 2) (2 * (w div 2)) (b_ptr b) (offUV img) (pitchUV img)
        (hostData s) (unat (hostYSize s) + nat y div 2 * unat (hostPitch s) + 2 * (nat x div 2)) (unat (hostPitch s)) z = Some ?d2"
    by (auto simp: bind_eq_Some_conv)
  have hf: "nat (y div 2) = nat y div 2" "nat (x div 2 * 2) = 2 * (nat x div 2)"
    using assms(9,12) by (simp_all add: nat_div_distrib nat_mult_distrib)
  have nlt: "\<not> sf_width s \<le> word_of_int x" "\<not> sf_height s \<le> word_of_int y"
    using assms(11,14) xy by (simp_all add: word_le_nat_alt)
  have s0: "s\<lparr>sf_locked := False\<rparr> = s" using assms(4) by simp
  have "get_host sa img x y width height d = Some (VA_STATUS_SUCCESS, put_obj sa (PSurface (s\<lparr>sf_locked := False\<rparr>)) ?d2)"
    unfolding get_host_def
    using g im(1-3) assms(3,4,9,12) nlt z wh hf
    by (simp add: lock_surface_def unlock_surface_def Let_def split_beta pitchY_def pitchUV_def offY_def offUV_def
        split del: if_split)
  then have e: "get_host sa img x y width height d = Some (VA_STATUS_SUCCESS, put_obj sa (PSurface s) ?d2)" unfolding s0 .
  have "put_obj sa (PSurface s) ?d2 = d\<lparr>mem := (mem d)(b_ptr b \<mapsto> ib')\<rparr>"
    using g(2) by (simp add: put_obj_def fun_upd_idem)
  with e c(2-4) show ?thesis
    by (intro exI[of _ ib']) (simp add: host_Y_def host_UV_def image_Y_def image_UV_def in_rect_def)
qed

section \<open>Properties of the copies\<close>

lemma image_lookup:
  assumes "typed d" "view d i = Some (OBJECT_TYPE_IMAGE, ia)" "heap d ia = Some (PImage img)"
  shows "getObjectPtr d OBJECT_TYPE_IMAGE i = Some ia" "ia \<noteq> NULL" "get_image d ia = Some img"
  using assms typed_view[OF assms(1,2)] by (auto simp: typed_get get_iff_heap)

lemma surface_lookup:
  assumes "typed d" "view d i = Some (OBJECT_TYPE_SURFACE, sa)" "heap d sa = Some (PSurface s)"
  shows "getObjectPtr d OBJECT_TYPE_SURFACE i = Some sa" "sa \<noteq> NULL" "get_surface d sa = Some s" "live d sa s"
proof -
  show g: "getObjectPtr d OBJECT_TYPE_SURFACE i = Some sa" "sa \<noteq> NULL" "get_surface d sa = Some s"
    using assms typed_view[OF assms(1,2)] by (auto simp: typed_get get_iff_heap)
  show "live d sa s" using live_surface[OF assms(1) g(1,2)] g(3) by auto
qed

text \<open>What the two calls ask of a surface and an image: both exist, and the image is not one derived from the surface.\<close>

definition copy_pair ::
  "('c, 's, 'z) drv \<Rightarrow> u32 \<Rightarrow> addr \<Rightarrow> NVSurface \<Rightarrow> block \<Rightarrow> u32 \<Rightarrow> addr \<Rightarrow> NVImage \<Rightarrow> NVBuffer \<Rightarrow> block \<Rightarrow> bool" where
  "copy_pair d i sa s hb j ia img b ib \<longleftrightarrow> view d i = Some (OBJECT_TYPE_SURFACE, sa) \<and> heap d sa = Some (PSurface s) \<and>
     hostData s \<noteq> NULL \<and> mem d (hostData s) = Some hb \<and> \<not> sf_locked s \<and>
     view d j = Some (OBJECT_TYPE_IMAGE, ia) \<and> heap d ia = Some (PImage img) \<and> image_ok d img b ib \<and> b_ptr b \<noteq> hostData s"

text \<open>A rectangle request inside 32 bits whose corner lies in an image of the given size.\<close>

definition corner_in :: "int \<Rightarrow> u32 \<Rightarrow> u32 \<Rightarrow> bool" where
  "corner_in x len limit \<longleftrightarrow> 0 \<le> x \<and> x < 2 ^ 31 \<and> nat x < unat limit \<and> nat x + unat len < 2 ^ 32"

lemma clamp_twice:
  assumes "unat a < unat A" "unat a + unat p < 2 ^ 32" "unat d < unat B" "unat d + unat q < 2 ^ 32"
  shows "unat (clamp d (clamp a (if p < q then p else q) A) B) =
     min (min (min (unat p) (unat q)) (unat A - unat a)) (unat B - unat d)"
proof -
  let ?m = "if p < q then p else q" let ?c = "clamp a ?m A"
  have "unat ?m \<le> unat p" unfolding unat_min by (rule min.cobounded1)
  then have "unat a + unat ?m < 2 ^ 32" using assms(2) by (meson add_le_cancel_left le_less_trans)
  then have c: "unat ?c = min (min (unat p) (unat q)) (unat A - unat a)"
    using unat_clamp[of a A ?m] assms(1) unfolding unat_min by (meson less_imp_le)
  have "unat ?c \<le> unat q" unfolding c by (rule min.coboundedI1) (rule min.cobounded2)
  then have "unat d + unat ?c < 2 ^ 32" using assms(4) by (meson add_le_cancel_left le_less_trans)
  then show ?thesis using unat_clamp[of d B ?c] assms(3) unfolding c by (meson less_imp_le)
qed

lemma put_size_nat:
  assumes "corner_in sx sw (im_width img)" "corner_in sy sh (im_height img)" "corner_in dx dw (sf_width s)" "corner_in dy dh (sf_height s)"
    "put_size img s (word_of_int sx) (word_of_int sy) sw sh (word_of_int dx) (word_of_int dy) dw dh = (w, h)"
  shows "unat w = min (min (min (unat sw) (unat dw)) (unat (im_width img) - nat sx)) (unat (sf_width s) - nat dx)"
    "unat h = min (min (min (unat sh) (unat dh)) (unat (im_height img) - nat sy)) (unat (sf_height s) - nat dy)"
proof -
  have u: "unat (word_of_int x :: u32) = nat x" if "corner_in x n l" for x n l
    using that by (simp add: corner_in_def unat_word_of_int)
  have two: "unat (clamp (word_of_int d) (clamp (word_of_int a) (if p < q then p else q) A) B) =
      min (min (min (unat p) (unat q)) (unat A - nat a)) (unat B - nat d)"
    if c: "corner_in a p A" "corner_in d q B" for a d p q A B
    using clamp_twice[of "word_of_int a" A p "word_of_int d" B q] c unfolding u[OF c(1)] u[OF c(2)] corner_in_def by blast
  have eq: "w = clamp (word_of_int dx) (clamp (word_of_int sx) (if sw < dw then sw else dw) (im_width img)) (sf_width s)"
      "h = clamp (word_of_int dy) (clamp (word_of_int sy) (if sh < dh then sh else dh) (im_height img)) (sf_height s)"
    using assms(5) unfolding put_size_def Let_def prod.inject by metis+
  show "unat w = min (min (min (unat sw) (unat dw)) (unat (im_width img) - nat sx)) (unat (sf_width s) - nat dx)"
    "unat h = min (min (min (unat sh) (unat dh)) (unat (im_height img) - nat sy)) (unat (sf_height s) - nat dy)"
    unfolding eq by (rule two[OF assms(1,3)], rule two[OF assms(2,4)])
qed

lemma nvPutImage_copies_aux:
  assumes "surf_inv d" "copy_pair d i sa s hb j ia img b ib" "0 < sw" "0 < sh" "0 < dw" "0 < dh"
    "corner_in sx sw (im_width img)" "corner_in sy sh (im_height img)" "corner_in dx dw (sf_width s)" "corner_in dy dh (sf_height s)"
    "w = min (min (min (unat sw) (unat dw)) (unat (im_width img) - nat sx)) (unat (sf_width s) - nat dx)"
    "h = min (min (min (unat sh) (unat dh)) (unat (im_height img) - nat sy)) (unat (sf_height s) - nat dy)"
  shows "\<exists>hb' s'. nvPutImage alloc_ok d i j sx sy sw sh dx dy dw dh =
       Some (VA_STATUS_SUCCESS, put_obj sa (PSurface s') (d\<lparr>mem := (mem d)(hostData s \<mapsto> hb')\<rparr>)) \<and> length hb' = length hb \<and>
     copied w h hb' (host_Y s) (host_UV s) (nat dx) (nat dy) ib (image_Y img) (image_UV img) (nat sx) (nat sy) \<and>
     (\<forall>k < length hb. \<not> in_rect w h (host_Y s) (host_UV s) (nat dx) (nat dy) k \<longrightarrow> hb' ! k = hb ! k) \<and>
     s' = put_surface (word_of_int dx) (word_of_int dy) (of_nat w) (of_nat h) s \<and>
     surf_inv (put_obj sa (PSurface s') (d\<lparr>mem := (mem d)(hostData s \<mapsto> hb')\<rparr>))"
proof -
  have ty: "typed d" using assms(1) by (simp add: surf_inv_def)
  have cp: "view d i = Some (OBJECT_TYPE_SURFACE, sa)" "heap d sa = Some (PSurface s)" "hostData s \<noteq> NULL"
      "mem d (hostData s) = Some hb" "\<not> sf_locked s" "view d j = Some (OBJECT_TYPE_IMAGE, ia)" "heap d ia = Some (PImage img)"
      "image_ok d img b ib" "b_ptr b \<noteq> hostData s"
    using assms(2) by (auto simp: copy_pair_def)
  note sl = surface_lookup[OF ty cp(1,2)] and il = image_lookup[OF ty cp(6,7)]
  have e: "ensureSurfaceHostBuffer alloc_ok sa d = Some (True, d)"
    using sl cp(3) by (simp add: ensureSurfaceHostBuffer_def)
  obtain w' h' where ps: "put_size img s (word_of_int sx) (word_of_int sy) sw sh (word_of_int dx) (word_of_int dy) dw dh = (w', h')"
    by (cases "put_size img s (word_of_int sx) (word_of_int sy) sw sh (word_of_int dx) (word_of_int dy) dw dh")
  have wh: "unat w' = w" "unat h' = h"
    unfolding assms(11,12) by (rule put_size_nat[OF assms(7-10) ps])+
  have u: "unat (word_of_int x :: u32) = nat x" "0 \<le> x" "nat x < unat l" if "corner_in x n l" for x n l
    using that by (simp_all add: corner_in_def unat_word_of_int)
  note ux = u[OF assms(7)] u[OF assms(8)] u[OF assms(9)] u[OF assms(10)]
  have clip: "q + a \<le> p" if "a \<le> p - q" "q < p" for a p q :: nat using that by linarith
  have "w \<le> unat (im_width img) - nat sx" "w \<le> unat (sf_width s) - nat dx" "h \<le> unat (im_height img) - nat sy"
      "h \<le> unat (sf_height s) - nat dy" unfolding assms(11,12) by simp_all
  then have fit: "unat (word_of_int dx :: u32) + unat w' \<le> unat (sf_width s)" "unat (word_of_int dy :: u32) + unat h' \<le> unat (sf_height s)"
      "unat (word_of_int sx :: u32) + unat w' \<le> unat (im_width img)" "unat (word_of_int sy :: u32) + unat h' \<le> unat (im_height img)"
    unfolding wh ux(1,4,7,10) using clip ux(3,6,9,12) by blast+
  obtain hb' where r: "put_rows sa img b (word_of_int sx) (word_of_int sy) (word_of_int dx) (word_of_int dy) w' h' d =
       Some (put_obj sa (PSurface (put_surface (word_of_int dx) (word_of_int dy) w' h' s)) (d\<lparr>mem := (mem d)(hostData s \<mapsto> hb')\<rparr>))"
     "length hb' = length hb"
     "copied w h hb' (host_Y s) (host_UV s) (nat dx) (nat dy) ib (image_Y img) (image_UV img) (nat sx) (nat sy)"
     "\<forall>k < length hb. \<not> in_rect w h (host_Y s) (host_UV s) (nat dx) (nat dy) k \<longrightarrow> hb' ! k = hb ! k"
    using put_rows_spec[OF assms(1) sl(4) cp(3,5,4,8,9) fit] unfolding wh ux(1,4,7,10) by blast
  let ?s = "put_surface (word_of_int dx) (word_of_int dy) w' h' s"
  have lt: "\<not> l \<le> word_of_int x" if "corner_in x n l" for x n l
    using u[OF that] by (simp add: word_le_nat_alt)
  have im: "imageBuffer img \<noteq> NULL" "get_buffer d (imageBuffer img) = Some b" "b_ptr b \<noteq> NULL"
    using cp(8) by (auto simp: image_ok_def)
  have n: "nvPutImage alloc_ok d i j sx sy sw sh dx dy dw dh =
      Some (VA_STATUS_SUCCESS, put_obj sa (PSurface ?s) (d\<lparr>mem := (mem d)(hostData s \<mapsto> hb')\<rparr>))"
    unfolding nvPutImage_def
    using sl il im e assms(3-6) ux(2,5,8,11) lt[OF assms(7)] lt[OF assms(8)] lt[OF assms(9)] lt[OF assms(10)] r(1) ps
    by (simp add: word_gt_0)
  have inv: "surf_inv (put_obj sa (PSurface ?s) (d\<lparr>mem := (mem d)(hostData s \<mapsto> hb')\<rparr>))"
    by (rule surf_inv_update[OF surf_inv_write[OF assms(1) cp(4) r(2)], of _ s]) (use sl(4) in simp_all)
  have "w' = of_nat w" "h' = of_nat h" unfolding wh[symmetric] by simp_all
  then show ?thesis using n r(2-4) inv by blast
qed

text \<open>
  C19: putting an image rectangle into a surface succeeds without leaving either block whenever the
  corners lie inside and the requested extents do not wrap: exactly the rectangle clipped to both
  images is written, luma and chroma, every other byte of the host copy and every other block is
  unchanged, and the surface is ready and unlocked.
\<close>

theorem nvPutImage_copies:
  assumes "surf_inv d" "copy_pair d i sa s hb j ia img b ib" "0 < sw" "0 < sh" "0 < dw" "0 < dh"
    "corner_in sx sw (im_width img)" "corner_in sy sh (im_height img)" "corner_in dx dw (sf_width s)" "corner_in dy dh (sf_height s)"
    "w = min (min (min (unat sw) (unat dw)) (unat (im_width img) - nat sx)) (unat (sf_width s) - nat dx)"
    "h = min (min (min (unat sh) (unat dh)) (unat (im_height img) - nat sy)) (unat (sf_height s) - nat dy)"
  shows "\<exists>hb' s'. nvPutImage alloc_ok d i j sx sy sw sh dx dy dw dh =
       Some (VA_STATUS_SUCCESS, put_obj sa (PSurface s') (d\<lparr>mem := (mem d)(hostData s \<mapsto> hb')\<rparr>)) \<and> length hb' = length hb \<and>
     copied w h hb' (host_Y s) (host_UV s) (nat dx) (nat dy) ib (image_Y img) (image_UV img) (nat sx) (nat sy) \<and>
     (\<forall>k < length hb. \<not> in_rect w h (host_Y s) (host_UV s) (nat dx) (nat dy) k \<longrightarrow> hb' ! k = hb ! k) \<and>
     s' = put_surface (word_of_int dx) (word_of_int dy) (of_nat w) (of_nat h) s \<and>
     surf_inv (put_obj sa (PSurface s') (d\<lparr>mem := (mem d)(hostData s \<mapsto> hb')\<rparr>))"
  by (rule nvPutImage_copies_aux[OF assms])

lemma copied_mono: "copied w h db dY dUV dx dy sb sY sUV sx sy \<Longrightarrow> w' \<le> w \<Longrightarrow> h' \<le> h \<Longrightarrow>
    copied w' h' db dY dUV dx dy sb sY sUV sx sy"
  by (fastforce simp: copied_def dest: div_le_mono[of _ _ 2])

text \<open>The host path of \<open>nvGetImage\<close>, for surfaces that no decoder writes.\<close>

definition host_side :: "('c, 's, 'z) drv \<Rightarrow> NVSurface \<Rightarrow> bool" where
  "host_side d s \<longleftrightarrow> sf_context s = NULL \<or> (\<exists>c. get_context d (sf_context s) = Some c \<and> cx_mode c = NV_CONTEXT_ENCODE)"

lemma nvGetImage_host_spec:
  assumes "surf_inv d" "copy_pair d i sa s hb j ia img b ib" "host_side d s"
    "corner_in x width (sf_width s)" "corner_in y height (sf_height s)"
    "w = min (min (unat width) (unat (sf_width s) - nat x)) (unat (im_width img))"
    "h = min (min (unat height) (unat (sf_height s) - nat y)) (unat (im_height img))"
  shows "\<exists>ib'. nvGetImage cu backing po pp d i x y width height j = Some (VA_STATUS_SUCCESS, d\<lparr>mem := (mem d)(b_ptr b \<mapsto> ib')\<rparr>) \<and>
     length ib' = length ib \<and>
     copied w h ib' (image_Y img) (image_UV img) 0 0 hb (host_Y s) (host_UV s) (nat x) (nat y) \<and>
     (\<forall>k < length ib. \<not> in_rect w h (image_Y img) (image_UV img) 0 0 k \<longrightarrow> ib' ! k = ib ! k)"
proof -
  have ty: "typed d" using assms(1) by (simp add: surf_inv_def)
  have cp: "view d i = Some (OBJECT_TYPE_SURFACE, sa)" "heap d sa = Some (PSurface s)" "hostData s \<noteq> NULL"
      "mem d (hostData s) = Some hb" "\<not> sf_locked s" "view d j = Some (OBJECT_TYPE_IMAGE, ia)" "heap d ia = Some (PImage img)"
      "image_ok d img b ib" "b_ptr b \<noteq> hostData s"
    using assms(2) by (auto simp: copy_pair_def)
  note sl = surface_lookup[OF ty cp(1,2)] and il = image_lookup[OF ty cp(6,7)]
  have ne: "imageBuffer img \<noteq> sa" using cp(2,8) by (auto simp: image_ok_def get_iff_heap)
  have c: "0 \<le> x" "x < 2 ^ 31" "nat x < unat (sf_width s)" "0 \<le> y" "y < 2 ^ 31" "nat y < unat (sf_height s)"
      "nat x + unat width < 2 ^ 32" "nat y + unat height < 2 ^ 32"
    using assms(4,5) unfolding corner_in_def by blast+
  have "nvGetImage cu backing po pp d i x y width height j = get_host sa img x y width height d"
    using sl il assms(3) by (auto simp: nvGetImage_def host_side_def)
  with get_host_spec[OF assms(1) sl(4) cp(3,5,4,8,9) ne c assms(6,7)] show ?thesis by simp
qed


lemma example_copy_pair:
  "copy_pair (example_drv strict) 1 1 example_surface example_host 5 5 example_image example_image_buffer example_pixels"
  unfolding copy_pair_def example_view
  by (simp add: example_drv_def example_surface_def init_surface_def zero_surface_def image_ok_def get_buffer_def
      example_image_def example_image_buffer_def zero_buffer_def image_fits_def pitchY_def pitchUV_def offY_def offUV_def
      image_pitch_def Let_def example_pixels_def)

lemma example_sizes: "im_width example_image = 4" "im_height example_image = 4" "sf_width example_surface = 16"
    "sf_height example_surface = 16" "sf_context example_surface = NULL" "b_ptr example_image_buffer = 2"
  by (simp_all add: example_image_def example_surface_def init_surface_def zero_surface_def example_image_buffer_def zero_buffer_def)


theorem nvPutImage_copies_witness:
  "\<exists>hb' s'. nvPutImage (\<lambda>_. True) (example_drv False) 1 5 0 0 9 9 14 13 9 9 =
       Some (VA_STATUS_SUCCESS, put_obj 1 (PSurface s') ((example_drv False)\<lparr>mem := (mem (example_drv False))(1 \<mapsto> hb')\<rparr>)) \<and>
     copied 2 3 hb' (host_Y example_surface) (host_UV example_surface) 14 13 example_pixels (image_Y example_image)
       (image_UV example_image) 0 0"
proof -
  have "hostData example_surface = 1" by (simp add: example_surface_def)
  then show ?thesis
    using nvPutImage_copies[OF example_inv[of False] example_copy_pair[of False], of 9 9 9 9 0 0 14 13 2 3 "\<lambda>_. True"]
    by (fastforce simp: example_sizes corner_in_def)
qed

section \<open>Wrap-around of the clamps\<close>

text \<open>A row loop that returns has read inside its source.\<close>

lemma copy_rows_reads:
  assumes "copy_rows rows w dst doff dp src soff sp d = Some d'" "mem d src = Some sb" "dst \<noteq> src"
  shows "(\<forall>r < rows. soff + r * sp + w \<le> length sb) \<and> mem d' src = Some sb"
  using assms(1)
proof (induction rows arbitrary: d')
  case 0
  then show ?case using assms(2) by simp
next
  case (Suc n)
  obtain d1 where d1: "copy_rows n w dst doff dp src soff sp d = Some d1"
      "mem_copy d1 dst (doff + n * dp) src (soff + n * sp) w = Some d'"
    using Suc.prems by (auto simp: bind_eq_Some_conv)
  note IH = Suc.IH[OF d1(1)]
  have "soff + n * sp + w \<le> length sb \<and> mem d' src = Some sb"
    using d1(2) IH assms(3)
    by (auto simp: mem_copy_def mem_read_def read_bytes_def mem_write_def bind_eq_Some_conv split: if_splits)
  then show ?case using IH by (auto simp: less_Suc_eq)
qed

text \<open>
  The clamp of the requested height adds in 32 bits: on a 16x16 surface a request that starts at row 14
  with a height of \<open>2 ^ 32 - 12\<close> rows is not clipped to the two rows that are left, and the copy
  reads past the end of the surface's host copy.
\<close>

theorem nvGetImage_wrapped_height_out_of_bounds:
  "nvGetImage cu backing po pp (example_drv False) 1 0 14 4 0xFFFFFFF4 5 = None"
proof (rule ccontr)
  let ?d = "example_drv False"
  assume "\<not> ?thesis"
  then obtain r where r: "nvGetImage cu backing po pp ?d 1 0 14 4 0xFFFFFFF4 5 = Some r" by auto
  have v: "view ?d 1 = Some (OBJECT_TYPE_SURFACE, 1)" "view ?d 5 = Some (OBJECT_TYPE_IMAGE, 5)" by (simp_all add: example_view)
  have h: "heap ?d 1 = Some (PSurface example_surface)" "heap ?d 5 = Some (PImage example_image)"
      "heap ?d 4 = Some (PBuffer example_image_buffer)" "mem ?d 1 = Some example_host"
    by (simp_all add: example_drv_def)
  note sl = surface_lookup[OF example_typed v(1) h(1)] and il = image_lookup[OF example_typed v(2) h(2)]
  have cl: "clamp 14 0xFFFFFFF4 16 = (0xFFFFFFF4 :: u32)" "clamp 0 4 16 = (4 :: u32)" by (simp_all add: clamp_def)
  have gh: "get_host 1 example_image 0 14 4 0xFFFFFFF4 ?d = Some r"
    using r sl il by (simp add: nvGetImage_def example_surface_def init_surface_def zero_surface_def)
  let ?d1 = "put_obj 1 (PSurface (example_surface\<lparr>sf_locked := True\<rparr>)) ?d"
  have gb: "get_buffer ?d 4 = Some example_image_buffer" using h(3) by (simp add: get_iff_heap)
  obtain d2 d3 where c: "copy_rows 4 4 2 0 4 1 (14 * 64) 64 ?d1 = Some d2" "copy_rows 2 4 2 16 4 1 (1024 + 7 * 64) 64 d2 = Some d3"
    using gh sl gb cl
    by (auto simp: get_host_def example_image_def example_image_buffer_def zero_buffer_def image_pitch_def Let_def
        example_surface_def init_surface_def zero_surface_def lock_surface_def even_down_def bind_eq_Some_conv split: if_splits)
  have "mem d2 1 = Some example_host" using copy_rows_reads[OF c(1)] h(4) by simp
  then have "\<forall>r < 2. 1024 + 7 * 64 + r * 64 + 4 \<le> length example_host" using copy_rows_reads[OF c(2)] by simp
  from this[rule_format, of 1] show False by (simp add: example_host_def)
qed

section \<open>The content rectangle\<close>

text \<open>A surface's content rectangle lies inside the surface.\<close>

definition content_inside :: "NVSurface \<Rightarrow> bool" where
  "content_inside s \<longleftrightarrow> unat (contentX s) + unat (contentWidth s) \<le> unat (sf_width s) \<and>
     unat (contentY s) + unat (contentHeight s) \<le> unat (sf_height s)"

lemma hull_axis:
  fixes c cw r rw W :: u32
  assumes "unat c + unat cw \<le> unat W" "unat r + unat rw \<le> unat W" "0 < rw"
    "x0 = (if c < r then c else r)" "x1 = (if r + rw < c + cw then c + cw else r + rw)"
    "x1' = (if W < x1 then W else x1)" "len = (if x0 < x1' then x1' - x0 else 0)"
  shows "unat x0 = min (unat c) (unat r)" "unat x0 + unat len = max (unat c + unat cw) (unat r + unat rw)" "0 < len"
proof -
  have W: "unat W < 2 ^ 32" using unsigned_less[where 'a = nat and w = W] by simp
  have s: "unat (c + cw) = unat c + unat cw" "unat (r + rw) = unat r + unat rw"
    using assms(1,2) W by (subst unat_add_bounded; simp)+
  show x0: "unat x0 = min (unat c) (unat r)" unfolding assms(4) by (rule unat_min)
  have x1: "unat x1 = max (unat c + unat cw) (unat r + unat rw)"
    unfolding assms(5) using s by (simp add: word_less_nat_alt max_def)
  have "unat x1 \<le> unat W" unfolding x1 using assms(1,2) by (rule max.boundedI)
  then have eq: "x1' = x1" unfolding assms(6) by (simp add: word_less_nat_alt)
  have rw: "0 < unat rw" using assms(3) by (simp add: word_less_nat_alt)
  then have lt: "unat x0 < unat x1" unfolding x0 x1 by linarith
  then have l: "unat len = unat x1 - unat x0"
    unfolding assms(7) eq by (simp add: word_less_nat_alt unat_sub word_le_nat_alt)
  show "unat x0 + unat len = max (unat c + unat cw) (unat r + unat rw)" using l lt x1 by linarith
  show "0 < len" using l lt by (simp add: word_less_nat_alt)
qed

text \<open>
  Putting a nonempty rectangle that lies inside the surface grows the surface's valid content rectangle to the
  bounding box of the old content and the new rectangle, with no wrap-around, and the content stays
  inside the surface.
\<close>

theorem add_content_bounding_box:
  assumes "contentValid s" "content_inside s" "unat rx + unat rw \<le> unat (sf_width s)" "unat ry + unat rh \<le> unat (sf_height s)"
    "0 < rw" "0 < rh"
  shows "content_inside (add_content rx ry rw rh s) \<and> contentValid (add_content rx ry rw rh s) \<and>
     unat (contentX (add_content rx ry rw rh s)) = min (unat (contentX s)) (unat rx) \<and>
     unat (contentY (add_content rx ry rw rh s)) = min (unat (contentY s)) (unat ry) \<and>
     unat (contentX (add_content rx ry rw rh s)) + unat (contentWidth (add_content rx ry rw rh s)) =
       max (unat (contentX s) + unat (contentWidth s)) (unat rx + unat rw) \<and>
     unat (contentY (add_content rx ry rw rh s)) + unat (contentHeight (add_content rx ry rw rh s)) =
       max (unat (contentY s) + unat (contentHeight s)) (unat ry + unat rh)"
proof -
  let ?s = "add_content rx ry rw rh s"
  have c: "unat (contentX s) + unat (contentWidth s) \<le> unat (sf_width s)" "unat (contentY s) + unat (contentHeight s) \<le> unat (sf_height s)"
    using assms(2) by (simp_all add: content_inside_def)
  note x = hull_axis[OF c(1) assms(3,5) refl refl refl refl] and y = hull_axis[OF c(2) assms(4,6) refl refl refl refl]
  have f: "contentX ?s = (if contentX s < rx then contentX s else rx)" "contentY ?s = (if contentY s < ry then contentY s else ry)"
    using assms(1) by (simp_all add: add_content_def Let_def)
  have X: "unat (contentX ?s) = min (unat (contentX s)) (unat rx)"
      "unat (contentX ?s) + unat (contentWidth ?s) = max (unat (contentX s) + unat (contentWidth s)) (unat rx + unat rw)" "0 < contentWidth ?s"
    using x assms(1) unfolding f(1) add_content_def Let_def by simp_all
  have Y: "unat (contentY ?s) = min (unat (contentY s)) (unat ry)"
      "unat (contentY ?s) + unat (contentHeight ?s) = max (unat (contentY s) + unat (contentHeight s)) (unat ry + unat rh)" "0 < contentHeight ?s"
    using y assms(1) unfolding f(2) add_content_def Let_def by simp_all
  have "contentValid ?s" using X(3) Y(3) assms(1) by (simp add: add_content_def Let_def)
  moreover have "content_inside ?s" unfolding content_inside_def X(2) Y(2) using c assms(3,4) by simp
  ultimately show ?thesis using X(1,2) Y(1,2) by blast
qed

theorem add_content_bounding_box_witness:
  "content_inside (add_content 4 6 3 3 (full_content example_surface)) \<and>
   unat (contentX (add_content 4 6 3 3 (full_content example_surface))) = 0"
  using add_content_bounding_box[of "full_content example_surface" 4 3 6 3]
  by (simp add: content_inside_def example_sizes)

section \<open>Created images hold both planes\<close>

lemma chroma_rows_8bit:
  fixes r W H :: nat
  assumes "r < H div 2"
  shows "r * W + 2 * (W div 2) \<le> 2 * (W * H div 4)"
proof -
  let ?x = "W * (H div 2)"
  have a: "r * W + W \<le> ?x" using mult_le_mono1[of "Suc r" "H div 2" W] assms by (simp add: mult.commute)
  have "2 * ?x \<le> W * H" using mult_le_mono2[of "2 * (H div 2)" H W] by (simp add: ac_simps)
  then have "?x div 2 * 4 \<le> W * H" by linarith
  then have b: "?x div 2 \<le> W * H div 4" by (simp add: less_eq_div_iff_mult_less_eq)
  show ?thesis
  proof (cases "even W")
    case True
    then have "2 * (?x div 2) = ?x" "2 * (W div 2) = W" by simp_all
    then show ?thesis using a b by linarith
  next
    case False
    then have "2 * (W div 2) + 1 = W" by presburger
    moreover have "?x \<le> 2 * (?x div 2) + 1" by presburger
    ultimately show ?thesis using a b by linarith
  qed
qed

lemma chroma_rows_16bit:
  fixes r W H :: nat
  assumes "r < H div 2"
  shows "r * (2 * W) + 2 * (W div 2) \<le> 4 * (W * H div 4)"
proof -
  let ?x = "W * (H div 2)"
  have a: "r * (2 * W) + 2 * W \<le> 2 * ?x" using mult_le_mono1[of "Suc r" "H div 2" "2 * W"] assms by (simp add: ac_simps)
  have "2 * ?x \<le> W * H" using mult_le_mono2[of "2 * (H div 2)" H W] by (simp add: ac_simps)
  then have "?x div 2 * 4 \<le> W * H" by linarith
  then have b: "?x div 2 \<le> W * H div 4" by (simp add: less_eq_div_iff_mult_less_eq)
  have c: "?x \<le> 2 * (?x div 2) + 1" by presburger
  have "W \<le> 1 \<or> 2 \<le> W" by linarith
  then have "2 * (W div 2) + 2 \<le> 2 * W \<or> W = 0" by presburger
  then show ?thesis
  proof
    assume "W = 0"
    then show ?thesis by simp
  qed (use a b c in linarith)
qed

lemma word_of_int_mults:
  assumes "0 \<le> a" "nat a * (unat b * unat c) < 2 ^ 32" "0 < unat c" "0 < unat b"
  shows "unat (word_of_int a * b * c :: u32) = nat a * unat b * unat c"
proof -
  have "1 * 1 \<le> unat b * unat c" using assms(3,4) by (intro mult_le_mono) simp_all
  then have "nat a * 1 \<le> nat a * (unat b * unat c)" by (intro mult_le_mono2) simp
  then have "nat a < 2 ^ 32" using assms(2) by (simp only: mult_1_right)
  then have u: "unat (word_of_int a :: u32) = nat a"
    using assms(1) by (simp add: unat_eq_nat_uint uint_word_of_int take_bit_int_eq_self nat_less_iff)
  have "nat a * unat b * 1 \<le> nat a * unat b * unat c" using assms(3) by (intro mult_le_mono2) simp
  then have "nat a * unat b < 2 ^ 32" using assms(2) by (simp only: mult_1_right mult.assoc)
  then have "unat (word_of_int a * b :: u32) = nat a * unat b" using u by (subst unat_mult_bounded) simp_all
  then show ?thesis using assms(2) by (subst unat_mult_bounded) (simp_all add: mult.assoc)
qed

lemma unat_plane_size:
  assumes "0 \<le> area" "nat area * 4 < 2 ^ 32" "unat (bppc fi) \<in> {1, 2}" "unat (channelCount p) \<in> {1, 2}"
  shows "unat (plane_size fi area p) = nat area div 2 ^ (ss_x (ss p) + ss_y (ss p)) * unat (bppc fi) * unat (channelCount p)"
proof -
  let ?k = "ss_x (ss p) + ss_y (ss p)"
  have n: "nat (drop_bit ?k area) = nat area div 2 ^ ?k" using assms(1) by (simp add: drop_bit_eq_div nat_div_distrib nat_power_eq)
  have "unat (bppc fi) * unat (channelCount p) \<le> 2 * 2" using assms(3,4) by (intro mult_le_mono) auto
  then have "nat area div 2 ^ ?k * (unat (bppc fi) * unat (channelCount p)) \<le> nat area * 4"
    by (intro mult_le_mono) simp_all
  then show ?thesis unfolding plane_size_def
    using assms by (subst word_of_int_mults) (auto simp: n simp del: mult_le_cancel1 mult_le_cancel2)
qed

text \<open>The layout of a created image in each of the six formats.\<close>

lemma created_layout:
  assumes "f \<noteq> NV_FORMAT_NONE" "area = W * H" "area * 6 < 2 ^ 32" "0 < H" "fi = formatsInfo f"
    "im_width img = word_of_int (int W)" "im_height img = word_of_int (int H)" "pitches img = [p, p, p]" "p = word_of_int (int W) * bppc fi"
    "offsets img = [0, plane_size fi (int area) (planes fi ! 0), off2]" "0 < W"
  shows "image_fits img (unat (image_size fi (int area)))" "unat (image_size fi (int area)) < 2 ^ 32"
    "unat (im_width img) = W" "unat (im_height img) = H"
proof -
  have wh: "W \<le> area" "H \<le> area" using assms(2,4,11) by simp_all
  have small: "W < 2 ^ 30" "H < 2 ^ 30" "area * 4 < 2 ^ 32" using wh assms(3) by simp_all
  show uw: "unat (im_width img) = W" and uh: "unat (im_height img) = H"
    unfolding assms(6,7) using small by (simp_all add: unat_of_nat take_bit_nat_eq_self)
  have bp: "unat (bppc fi) \<in> {1, 2}" unfolding assms(5) using assms(1) by (cases f) simp_all
  have pl: "unat (plane_size fi (int area) q) = area div 2 ^ (ss_x (ss q) + ss_y (ss q)) * unat (bppc fi) * unat (channelCount q)"
    if "unat (channelCount q) \<in> {1, 2}" for q
    using unat_plane_size[OF _ _ bp that, of "int area"] small(3) by simp
  have up: "unat p = W * unat (bppc fi)"
    unfolding assms(9) using bp small(1) by (subst unat_mult_bounded) (auto simp: unat_of_nat take_bit_nat_eq_self)
  have pp: "p \<noteq> 0" using up bp assms(11) by auto
  have py: "pitchY img = W * unat (bppc fi)" "pitchUV img = W * unat (bppc fi)" "offY img = 0"
      "offUV img = unat (plane_size fi (int area) (planes fi ! 0))"
    using up pp by (simp_all add: pitchY_def pitchUV_def offY_def offUV_def image_pitch_def assms(8,10))
  have sum2: "unat (ucast a + ucast b :: u64) = unat a + unat b" for a b :: u32
    using unsigned_less[where 'a = nat and w = a] unsigned_less[where 'a = nat and w = b] by (subst unat_add_bounded) simp_all
  have sum3: "unat (3 * ucast a :: u64) = 3 * unat a" for a :: u32
    using unsigned_less[where 'a = nat and w = a] by (subst unat_mult_bounded) simp_all
  note fmt = luma_plane_def chroma420_plane_def no_plane_def
  consider (nv12) "f = NV_FORMAT_NV12" | (p01x) "f \<in> {NV_FORMAT_P010, NV_FORMAT_P012, NV_FORMAT_P016}"
    | (f444) "f = NV_FORMAT_444P" | (q416) "f = NV_FORMAT_Q416" using assms(1) by (cases f) auto
  then have "image_fits img (unat (image_size fi (int area))) \<and> unat (image_size fi (int area)) < 2 ^ 32"
  proof cases
    case nv12
    have sz: "unat (image_size fi (int area)) = area + 2 * (area div 4)"
      unfolding assms(5) nv12 image_size_def using pl[unfolded assms(5) nv12] by (simp add: sum2 fmt)
    show ?thesis unfolding image_fits_def sz uw uh py
      using chroma_rows_8bit[of _ H W] pl[of luma_plane] small(3) unfolding assms(2,5) nv12 by (auto simp: fmt mult.commute add.assoc)
  next
    case p01x
    have sz: "unat (image_size fi (int area)) = 2 * area + 4 * (area div 4)"
      unfolding assms(5) image_size_def using p01x pl[unfolded assms(5)] by (auto simp: sum2 fmt)
    have o: "unat (plane_size fi (int area) (planes fi ! 0)) = 2 * area" "unat (bppc fi) = 2"
      using p01x pl[of luma_plane] unfolding assms(5) by (auto simp: fmt)
    show ?thesis unfolding image_fits_def sz uw uh py o
      using chroma_rows_16bit[of _ H W] small(3) unfolding assms(2) by (auto simp: ac_simps)
  next
    case f444
    have sz: "unat (image_size fi (int area)) = 3 * area"
      unfolding assms(5) f444 image_size_def using pl[unfolded assms(5) f444] by (simp add: sum3 fmt)
    have o: "unat (plane_size fi (int area) (planes fi ! 0)) = area" "unat (bppc fi) = 1"
      using f444 pl[of luma_plane] unfolding assms(5) by (auto simp: fmt)
    have "r * W + 2 * (W div 2) \<le> 2 * (W * H)" if "r < H div 2" for r
      using plane_bounds[of r "H div 2" H "2 * (W div 2)" W] that by (simp add: mult.commute)
    then show ?thesis unfolding image_fits_def sz uw uh py o using small(3) assms(3) unfolding assms(2) by (auto simp: ac_simps)
  next
    case q416
    have sz: "unat (image_size fi (int area)) = 6 * area"
      unfolding assms(5) q416 image_size_def using pl[unfolded assms(5) q416] by (simp add: sum3 fmt)
    have o: "unat (plane_size fi (int area) (planes fi ! 0)) = 2 * area" "unat (bppc fi) = 2"
      using q416 pl[of luma_plane] unfolding assms(5) by (auto simp: fmt)
    have "r * (W * 2) + 2 * (W div 2) \<le> 4 * (W * H)" if "r < H div 2" for r
      using plane_bounds[of r "H div 2" H "2 * (W div 2)" "W * 2"] that by (simp add: ac_simps)
    then show ?thesis unfolding image_fits_def sz uw uh py o using small(3) assms(3) unfolding assms(2) by (auto simp: ac_simps)
  qed
  then show "image_fits img (unat (image_size fi (int area)))" "unat (image_size fi (int area)) < 2 ^ 32" by blast+
qed

text \<open>
  C38: a created image of any supported format has a new buffer that holds both planes the copies work on, as long
  as its size fits: the rows of the planes do not overlap and stay inside the block, whose length is the
  reported data size; image and buffer get new identifiers and nothing else changes.
\<close>

theorem nvCreateImage_layout:
  assumes "surf_inv d" "room_for_objects 2 d" "nvFormatFromVaFormat fourcc \<noteq> NV_FORMAT_NONE" "0 < W" "0 < H" "W * H * 6 < 2 ^ 32"
    "W * H < 2 ^ 31" "\<forall>m. alloc_ok m"
  shows "\<exists>vi ia img b ib d'. nvCreateImage alloc_ok d fourcc (int W) (int H) = Some ((VA_STATUS_SUCCESS, Some vi), d') \<and>
     view d (image_id vi) = None \<and> view d (vi_buf vi) = None \<and>
     view d' = (view d)(image_id vi \<mapsto> (OBJECT_TYPE_IMAGE, ia), vi_buf vi \<mapsto> (OBJECT_TYPE_BUFFER, imageBuffer img)) \<and>
     heap d' ia = Some (PImage img) \<and> image_ok d' img b ib \<and> ownsPtr b \<and> length ib = unat (data_size vi) \<and>
     unat (im_width img) = W \<and> unat (im_height img) = H \<and> mem d (b_ptr b) = None \<and> mem d' = (mem d)(b_ptr b \<mapsto> ib) \<and> surf_inv d'"
proof -
  define f where "f = nvFormatFromVaFormat fourcc"
  define fi where "fi = formatsInfo f"
  define area where "area = W * H"
  define sz where "sz = image_size fi (int area)"
  define p where "p = (word_of_int (int W) * bppc fi :: u32)"
  obtain io d1 where a1: "allocateObject d OBJECT_TYPE_IMAGE (Some (PImage zero_image)) = Some (io, d1)" "surf_inv d1"
      "view d (o_id io) = None" "view d1 = (view d)(o_id io \<mapsto> (OBJECT_TYPE_IMAGE, o_obj io))"
      "heap d1 = (heap d)(o_obj io \<mapsto> PImage zero_image)" "mem d1 = mem d" "nextBlk d1 = nextBlk d"
      "nextObjId d1 = nextObjId d + 1" "table d1 = table d @ [io]"
    using surf_inv_new_object[OF assms(1), of "PImage zero_image" OBJECT_TYPE_IMAGE] assms(2)
      room_for_objects_room[of 1 d] by (auto simp: numeral_2_eq_2)
  have "unat (nextObjId d + 1) = Suc (unat (nextObjId d))"
    using assms(2) by (subst unat_add_bounded) (simp_all add: room_for_objects_def)
  then have room1: "objtab_room d1" using assms(2) a1(8,9) by (simp add: objtab_room_def room_for_objects_def)
  obtain bo d2 where a2: "allocateObject d1 OBJECT_TYPE_BUFFER (Some (PBuffer zero_buffer)) = Some (bo, d2)" "surf_inv d2"
      "view d1 (o_id bo) = None" "view d2 = (view d1)(o_id bo \<mapsto> (OBJECT_TYPE_BUFFER, o_obj bo))"
      "heap d2 = (heap d1)(o_obj bo \<mapsto> PBuffer zero_buffer)" "mem d2 = mem d1" "nextBlk d2 = nextBlk d1"
      "\<forall>j t c. view d1 j = Some (t, c) \<longrightarrow> c \<noteq> o_obj bo" "o_obj bo \<noteq> NULL"
    using surf_inv_new_object[OF a1(2) room1, of "PBuffer zero_buffer" OBJECT_TYPE_BUFFER] by auto
  have ne: "o_obj io \<noteq> o_obj bo" "o_id io \<noteq> o_id bo" using a1(4) a2(3,8) by (auto split: if_splits)
  let ?b = "nextBlk d"
  let ?d3 = "d2\<lparr>mem := (mem d2)(?b \<mapsto> replicate (unat sz) None), nextBlk := Suc ?b\<rparr>"
  let ?buf = "zero_buffer\<lparr>bufferType := VAImageBufferType, b_size := sz, elements := 1, b_ptr := ?b, ownsPtr := True\<rparr>"
  let ?off1 = "plane_size fi (int area) (planes fi ! 0)"
  let ?off2 = "?off1 + plane_size fi (int area) (planes fi ! 1)"
  let ?img = "\<lparr>im_width = word_of_int (int W), im_height = word_of_int (int H), im_format = f, im_numPlanes = of_nat (fi_numPlanes fi),
     pitches = [p, p, p], offsets = [0, ?off1, ?off2], imageBuffer = o_obj bo\<rparr>"
  let ?d4 = "put_obj (o_obj bo) (PBuffer ?buf) ?d3"
  let ?d' = "put_obj (o_obj io) (PImage ?img) ?d4"
  let ?vi = "\<lparr>image_id = o_id io, vi_fourcc = fourcc, vi_buf = o_id bo, vi_width = word_of_int (int W), vi_height = word_of_int (int H),
     data_size = ucast sz, num_planes = of_nat (fi_numPlanes fi), vi_pitches = [p, p, p], vi_offsets = [0, ?off1, ?off2]\<rparr>"
  have pos: "?b \<noteq> NULL" "mem d ?b = None" using assms(1) surf_inv_malloc(2)[OF assms(1)] by (auto simp: surf_inv_def)
  have im: "int_mult (int W) (int H) = Some (int area)"
    using assms(7) by (simp add: int_mult_def area_def flip: of_nat_mult)
  have e: "nvCreateImage alloc_ok d fourcc (int W) (int H) = Some ((VA_STATUS_SUCCESS, Some ?vi), ?d')"
    unfolding nvCreateImage_def f_def[symmetric] Let_def fi_def[symmetric]
    using a1(1,7) a2(1,7) assms(3,8) im by (simp add: malloc_blk_def f_def sz_def p_def)
  note lay = created_layout[of f area W H fi ?img p ?off2, unfolded area_def, OF _ refl assms(6,5) fi_def _ _ _ p_def _ assms(4)]
  have fits: "image_fits ?img (unat sz)" "unat sz < 2 ^ 32" "unat (im_width ?img) = W" "unat (im_height ?img) = H"
    using lay assms(3) by (simp_all add: f_def sz_def area_def)
  have ds: "unat (ucast sz :: u32) = unat sz" using fits(2) by (simp add: unsigned_ucast_eq take_bit_nat_eq_self)
  have inv3: "surf_inv ?d3" using surf_inv_malloc(1)[OF a2(2)] a1(7) a2(7) by simp
  have inv4: "surf_inv ?d4" by (rule surf_inv_put_other(1)[OF inv3, of _ "PBuffer zero_buffer"]) (simp_all add: a2(5))
  have inv: "surf_inv ?d'" by (rule surf_inv_put_other(1)[OF inv4, of _ "PImage zero_image"]) (simp_all add: a2(5) a1(5) ne)
  have ok: "image_ok ?d' ?img ?buf (replicate (unat sz) None)"
    using fits(1) a2(9) pos ne by (simp add: image_ok_def)
  have vb: "view d (o_id bo) = None" using a1(4) a2(3) by (auto split: if_splits)
  show ?thesis using e ok ds fits(3,4) inv pos a1(3,4,6) a2(4,6) vb
    by (intro exI[of _ ?vi] exI[of _ "o_obj io"] exI[of _ ?img] exI[of _ ?buf] exI[of _ "replicate (unat sz) None"] exI[of _ ?d']) simp
qed

theorem nvCreateImage_layout_witness:
  "\<exists>vi ia img b ib d'. nvCreateImage (\<lambda>_. True) empty_drv VA_FOURCC_P010 (int 7) (int 5) = Some ((VA_STATUS_SUCCESS, Some vi), d') \<and>
     heap d' ia = Some (PImage img) \<and> image_ok d' img b ib \<and> unat (im_width img) = 7"
proof -
  have "nvFormatFromVaFormat VA_FOURCC_P010 = NV_FORMAT_P010" by (simp add: nvFormatFromVaFormat_def all_formats_def)
  moreover have "room_for_objects 2 empty_drv" by (simp add: room_for_objects_def empty_drv_def table_def)
  ultimately show ?thesis
    using nvCreateImage_layout[OF surf_inv_empty, of VA_FOURCC_P010 7 5 "\<lambda>_. True"] by (fastforce simp del: of_nat_numeral)
qed

end
