(* ===== verification/Nvenc.thy ===== *)
theory Nvenc
  imports Images
begin

text \<open>
  The encoder settings of an encode context (\<^verbatim>\<open>src/src/vabackend.c\<close>, the functions
  \<open>nvencSetBitrate\<close> to \<open>nvencReconfigureIfNeeded\<close> and the encode half of
  \<open>nvRenderPicture\<close>).  Parameter buffers of the client change the driver's copy of the encoder
  configuration and raise a flag; the next frame hands the copy to the encoder, at most once per
  interval unless the resolution changes.

  The encoder library is a parameter, the record \<open>nvenc_api\<close> of functions on a world of its own.
  The casts of a buffer's bytes to the structs of \<^verbatim>\<open>va.h\<close> are a parameter as well, the record
  \<open>va_casts\<close>.
\<close>

section \<open>Single settings\<close>

definition setU32IfChanged :: "u32 \<Rightarrow> u32 \<Rightarrow> u32 \<times> bool" where
  "setU32IfChanged dst v = (if dst = v then (dst, False) else (v, True))"

definition set_rc :: "NV_ENC_RC_PARAMS \<Rightarrow> ('c, 's) NVContext \<Rightarrow> ('c, 's) NVContext" where
  "set_rc rc ctx = ctx\<lparr>encConfig := (encConfig ctx)\<lparr>rcParams := rc\<rparr>\<rparr>"

definition request_if :: "bool \<Rightarrow> ('c, 's) NVContext \<Rightarrow> ('c, 's) NVContext" where
  "request_if changed ctx = (if changed then ctx\<lparr>encNeedsReconfigure := True\<rparr> else ctx)"

definition nvencSetBitrate :: "u32 \<Rightarrow> ('c, 's) NVContext \<Rightarrow> ('c, 's) NVContext" where
  "nvencSetBitrate bitsPerSecond ctx =
     (let rc = rcParams (encConfig ctx) in
      if bitsPerSecond = 0 then ctx
      else if rateControlMode rc = NV_ENC_PARAMS_RC_CONSTQP then ctx
      else
        let mx = (if rateControlMode rc = NV_ENC_PARAMS_RC_CBR then bitsPerSecond
                  else if maxBitRate rc < bitsPerSecond then bitsPerSecond else maxBitRate rc);
            (a, c1) = setU32IfChanged (averageBitRate rc) bitsPerSecond;
            (m, c2) = setU32IfChanged (maxBitRate rc) mx
        in request_if (c1 \<or> c2) (set_rc (rc\<lparr>averageBitRate := a, maxBitRate := m\<rparr>) ctx))"

definition nvencSetFrameRate :: "u32 \<Rightarrow> u32 \<Rightarrow> ('c, 's) NVContext \<Rightarrow> ('c, 's) NVContext" where
  "nvencSetFrameRate fpsNum fpsDen ctx =
     (if fpsNum = 0 then ctx
      else
        let fpsDen = (if fpsDen = 0 then 1 else fpsDen);
            ip = encInitParams ctx;
            (n, c1) = setU32IfChanged (frameRateNum ip) fpsNum;
            (d, c2) = setU32IfChanged (frameRateDen ip) fpsDen
        in request_if (c1 \<or> c2) (ctx\<lparr>encInitParams := ip\<lparr>frameRateNum := n, frameRateDen := d\<rparr>\<rparr>))"

definition nvencSetGop :: "u32 \<Rightarrow> u32 \<Rightarrow> ('c, 's) NVContext \<Rightarrow> ('c, 's) NVContext" where
  "nvencSetGop gop idr ctx =
     (let ctx = (if 0 < gop
                 then let (g, c) = setU32IfChanged (gopLength (encConfig ctx)) gop
                      in request_if c (ctx\<lparr>encConfig := (encConfig ctx)\<lparr>gopLength := g\<rparr>\<rparr>)
                 else ctx)
      in if \<not> encIsHevc ctx
         then if 0 < idr
              then let (p, c) = setU32IfChanged (h264_idrPeriod (encConfig ctx)) idr
                   in request_if c (ctx\<lparr>encConfig := (encConfig ctx)\<lparr>h264_idrPeriod := p\<rparr>\<rparr>)
              else ctx
         else if 0 < idr
              then let (p, c) = setU32IfChanged (hevc_idrPeriod (encConfig ctx)) idr
                   in request_if c (ctx\<lparr>encConfig := (encConfig ctx)\<lparr>hevc_idrPeriod := p\<rparr>\<rparr>)
              else ctx)"

text \<open>The three quantiser bounds set together from a rate control buffer.\<close>

definition set_qps :: "u32 \<Rightarrow> NV_ENC_QP \<Rightarrow> NV_ENC_QP \<times> bool" where
  "set_qps v q =
     (let (b, c1) = setU32IfChanged (qpInterB q) v;
          (p, c2) = setU32IfChanged (qpInterP q) v;
          (i, c3) = setU32IfChanged (qpIntra q) v
      in (q\<lparr>qpInterB := b, qpInterP := p, qpIntra := i\<rparr>, c1 \<or> c2 \<or> c3))"

section \<open>The visible rectangle\<close>

definition nvencSetVisibleRect ::
  "u32 \<Rightarrow> u32 \<Rightarrow> u32 \<Rightarrow> u32 \<Rightarrow> ('c, 's) NVContext \<Rightarrow> ('c, 's) NVContext" where
  "nvencSetVisibleRect x y w h ctx =
     (let invalid = ctx\<lparr>encVisibleValid := False\<rparr> in
      if w = 0 \<or> h = 0 then invalid
      else
        let x = even_down x; y = even_down y; w = even_down w; h = even_down h in
        if w = 0 \<or> h = 0 then invalid
        else if cx_width ctx \<le> x \<or> cx_height ctx \<le> y then invalid
        else
          let w = even_down (clamp x w (cx_width ctx));
              h = even_down (clamp y h (cx_height ctx)) in
          if w = 0 \<or> h = 0 then invalid
          else ctx\<lparr>encVisibleX := x, encVisibleY := y, encVisibleWidth := w, encVisibleHeight := h,
                 encVisibleValid := True\<rparr>)"

definition nvencMaybeUseVisibleResolution :: "bool \<Rightarrow> ('c, 's) NVContext \<Rightarrow> ('c, 's) NVContext" where
  "nvencMaybeUseVisibleResolution visibleReconfigure ctx =
     (if \<not> visibleReconfigure then ctx
      else if \<not> encVisibleValid ctx then ctx
      else if encVisibleWidth ctx = 0 \<or> encVisibleHeight ctx = 0 then ctx
      else if encVisibleX ctx \<noteq> 0 \<or> encVisibleY ctx \<noteq> 0 then ctx
      else
        let visW = encVisibleWidth ctx; visH = encVisibleHeight ctx; ip = encInitParams ctx in
        if visW = cx_width ctx \<and> visH = cx_height ctx then ctx
        else if maxEncodeWidth ip < visW \<or> maxEncodeHeight ip < visH then ctx
        else ctx\<lparr>encInitParams := ip\<lparr>encodeWidth := visW, encodeHeight := visH, darWidth := visW, darHeight := visH\<rparr>,
               encNeedsReconfigure := True\<rparr>)"

text \<open>The fields of the sequence parameter structs that the driver reads.\<close>

record VAEncSequenceParameterBufferH264 =
  h4_bits_per_second :: u32
  h4_intra_period :: u32
  h4_intra_idr_period :: u32
  picture_width_in_mbs :: u16
  picture_height_in_mbs :: u16
  h4_chroma_format_idc :: u32
  frame_mbs_only_flag :: bool
  frame_cropping_flag :: bool
  frame_crop_left_offset :: u32
  frame_crop_right_offset :: u32
  frame_crop_top_offset :: u32
  frame_crop_bottom_offset :: u32
  timing_info_present_flag :: bool
  num_units_in_tick :: u32
  time_scale :: u32

record VAEncSequenceParameterBufferHEVC =
  h5_bits_per_second :: u32
  h5_intra_period :: u32
  h5_intra_idr_period :: u32
  pic_width_in_luma_samples :: u16
  pic_height_in_luma_samples :: u16
  vui_timing_info_present_flag :: bool
  vui_num_units_in_tick :: u32
  vui_time_scale :: u32

text \<open>The cropping units of a chroma format.\<close>

definition crop_units :: "u32 \<Rightarrow> bool \<Rightarrow> u32 \<times> u32" where
  "crop_units chroma frameMbsOnly =
     (if chroma = 1 then (2, if frameMbsOnly then 2 else 4)
      else if chroma = 2 then (2, if frameMbsOnly then 1 else 2)
      else (1, if frameMbsOnly then 1 else 2))"

definition h264_visible :: "VAEncSequenceParameterBufferH264 \<Rightarrow> u32 \<times> u32 \<times> u32 \<times> u32" where
  "h264_visible seq =
     (let codedW = ucast (picture_width_in_mbs seq) * 16;
          codedH = ucast (picture_height_in_mbs seq) * 16;
          (ux, uy) = crop_units (h4_chroma_format_idc seq) (frame_mbs_only_flag seq);
          crop = (\<lambda>v unit. if frame_cropping_flag seq then v * unit else 0);
          cropL = crop (frame_crop_left_offset seq) ux; cropR = crop (frame_crop_right_offset seq) ux;
          cropT = crop (frame_crop_top_offset seq) uy; cropB = crop (frame_crop_bottom_offset seq) uy
      in (cropL, cropT,
          if cropL + cropR < codedW then codedW - (cropL + cropR) else codedW,
          if cropT + cropB < codedH then codedH - (cropT + cropB) else codedH))"

definition use_if_valid :: "bool \<Rightarrow> ('c, 's) NVContext \<Rightarrow> ('c, 's) NVContext" where
  "use_if_valid visibleReconfigure ctx =
     (if encVisibleValid ctx then nvencMaybeUseVisibleResolution visibleReconfigure ctx else ctx)"

definition nvencUpdateVisibleRectFromH264Seq ::
  "bool \<Rightarrow> VAEncSequenceParameterBufferH264 \<Rightarrow> ('c, 's) NVContext \<Rightarrow> ('c, 's) NVContext" where
  "nvencUpdateVisibleRectFromH264Seq visibleReconfigure seq ctx =
     (let (visX, visY, visW, visH) = h264_visible seq
      in use_if_valid visibleReconfigure (nvencSetVisibleRect visX visY visW visH ctx))"

definition nvencUpdateVisibleRectFromHevcSeq ::
  "bool \<Rightarrow> VAEncSequenceParameterBufferHEVC \<Rightarrow> ('c, 's) NVContext \<Rightarrow> ('c, 's) NVContext" where
  "nvencUpdateVisibleRectFromHevcSeq visibleReconfigure seq ctx =
     (if pic_width_in_luma_samples seq = 0 \<or> pic_height_in_luma_samples seq = 0 then ctx
      else use_if_valid visibleReconfigure
        (nvencSetVisibleRect 0 0 (ucast (pic_width_in_luma_samples seq)) (ucast (pic_height_in_luma_samples seq)) ctx))"

section \<open>The encoder library\<close>

record NV_ENC_PIC_PARAMS =
  pp_inputBuffer :: addr
  pp_inputPitch :: u32
  pp_inputWidth :: u32
  pp_inputHeight :: u32
  pp_outputBitstream :: addr
  pp_inputTimeStamp :: u32
  pp_forceIdr :: bool

text \<open>
  \<open>lockInput\<close> yields the mapped block of an input buffer and its pitch, \<open>unlockInput\<close>
  takes the block back; \<open>lockBitstream\<close> yields the bytes of an output buffer.  The reconfigure
  entry may be missing.
\<close>

record 'w nvenc_api =
  cuCtxPushCurrent :: "'w \<Rightarrow> bool \<times> 'w"
  cuCtxPopCurrent :: "'w \<Rightarrow> bool \<times> 'w"
  getMonotonicNs :: "'w \<Rightarrow> u64 \<times> 'w"
  nvEncReconfigureEncoder ::
    "(addr \<Rightarrow> NV_ENC_INITIALIZE_PARAMS \<Rightarrow> NV_ENC_CONFIG \<Rightarrow> 'w \<Rightarrow> NVENCSTATUS \<times> 'w) option"
  nvEncDestroyInputBuffer :: "addr \<Rightarrow> addr \<Rightarrow> 'w \<Rightarrow> 'w"
  nvEncDestroyBitstreamBuffer :: "addr \<Rightarrow> addr \<Rightarrow> 'w \<Rightarrow> 'w"
  nvEncLockInputBuffer :: "addr \<Rightarrow> addr \<Rightarrow> 'w \<Rightarrow> NVENCSTATUS \<times> block \<times> u32 \<times> 'w"
  nvEncUnlockInputBuffer :: "addr \<Rightarrow> addr \<Rightarrow> block \<Rightarrow> 'w \<Rightarrow> NVENCSTATUS \<times> 'w"
  nvEncEncodePicture :: "addr \<Rightarrow> NV_ENC_PIC_PARAMS \<Rightarrow> 'w \<Rightarrow> NVENCSTATUS \<times> 'w"
  nvEncLockBitstream :: "addr \<Rightarrow> addr \<Rightarrow> 'w \<Rightarrow> NVENCSTATUS \<times> u8 list \<times> 'w"
  nvEncUnlockBitstream :: "addr \<Rightarrow> addr \<Rightarrow> 'w \<Rightarrow> NVENCSTATUS \<times> 'w"

definition NVENC_MAX_IO_BUFFERS :: nat where
  "NVENC_MAX_IO_BUFFERS = 4"

text \<open>The loop releases every slot that holds a handle, the input buffer of a slot before its output buffer.\<close>

fun destroy_io :: "('w, 'x) nvenc_api_scheme \<Rightarrow> addr \<Rightarrow> (addr \<times> addr) list \<Rightarrow> 'w \<Rightarrow> 'w" where
  "destroy_io api enc [] w = w"
| "destroy_io api enc ((i, b) # slots) w =
     (let w = (if i \<noteq> NULL then nvEncDestroyInputBuffer api enc i w else w);
          w = (if b \<noteq> NULL then nvEncDestroyBitstreamBuffer api enc b w else w)
      in destroy_io api enc slots w)"

definition nvencDestroyIoBuffers :: "('w, 'x) nvenc_api_scheme \<Rightarrow> ('c, 's) NVContext \<times> 'w \<Rightarrow> ('c, 's) NVContext \<times> 'w" where
  "nvencDestroyIoBuffers api = (\<lambda>(ctx, w).
     if nvencEncoder ctx = NULL then (ctx, w)
     else (ctx\<lparr>nvencInputBuffers := replicate NVENC_MAX_IO_BUFFERS NULL,
               nvencOutputBuffers := replicate NVENC_MAX_IO_BUFFERS NULL,
               nvencIoBufferCount := 0, nvencIoBufferIndex := 0\<rparr>,
           destroy_io api (nvencEncoder ctx) (zip (nvencInputBuffers ctx) (nvencOutputBuffers ctx)) w))"

section \<open>Reconfiguration\<close>

definition resolutionChange :: "('c, 's) NVContext \<Rightarrow> bool" where
  "resolutionChange ctx \<longleftrightarrow> (let ip = encInitParams ctx in
     encodeWidth ip \<noteq> cx_width ctx \<or> encodeHeight ip \<noteq> cx_height ctx \<or>
     darWidth ip \<noteq> cx_width ctx \<or> darHeight ip \<noteq> cx_height ctx)"

definition too_early :: "u32 \<Rightarrow> u64 \<Rightarrow> ('c, 's) NVContext \<Rightarrow> bool" where
  "too_early minMs now ctx \<longleftrightarrow> encLastReconfigureNs ctx \<noteq> 0 \<and> encLastReconfigureNs ctx < now \<and>
     now - encLastReconfigureNs ctx < ucast minMs * 1000000"

text \<open>The status returned is always success: a refused reconfiguration keeps the encoder as it was.\<close>

definition nvencReconfigureIfNeeded ::
  "('w, 'x) nvenc_api_scheme \<Rightarrow> u32 \<Rightarrow> u32 \<Rightarrow> ('c, 's) NVContext \<times> 'w \<Rightarrow> VAStatus \<times> ('c, 's) NVContext \<times> 'w" where
  "nvencReconfigureIfNeeded api minMs startupIdr = (\<lambda>(ctx, w).
     if \<not> encNeedsReconfigure ctx then (VA_STATUS_SUCCESS, ctx, w)
     else case nvEncReconfigureEncoder api of
       None \<Rightarrow> (VA_STATUS_SUCCESS, ctx\<lparr>encNeedsReconfigure := False\<rparr>, w)
     | Some reconfigure \<Rightarrow>
         let (early, w) =
               (if \<not> resolutionChange ctx \<and> 0 < minMs
                then let (now, w) = getMonotonicNs api w in (too_early minMs now ctx, w)
                else (False, w))
         in if early then (VA_STATUS_SUCCESS, ctx, w)
            else
              let ip = encInitParams ctx;
                  (nvs, w) = reconfigure (nvencEncoder ctx) ip (encConfig ctx) w
              in if nvs \<noteq> NV_ENC_SUCCESS then (VA_STATUS_SUCCESS, ctx\<lparr>encNeedsReconfigure := False\<rparr>, w)
                 else
                   let (now, w) = getMonotonicNs api w
                   in (VA_STATUS_SUCCESS,
                       ctx\<lparr>cx_width := encodeWidth ip, cx_height := encodeHeight ip, encLastReconfigureNs := now,
                           encStartupIdrLeft :=
                             (if cx_width ctx \<noteq> encodeWidth ip \<or> cx_height ctx \<noteq> encodeHeight ip then startupIdr
                              else encStartupIdrLeft ctx),
                           encNeedsReconfigure := False\<rparr>, w))"

section \<open>Parameter buffers\<close>

record VAEncPictureParameterBuffer =
  coded_buf :: u32
  idr_pic_flag :: bool

record VAEncMiscParameterRateControl =
  rc_bits_per_second :: u32
  target_percentage :: u32
  min_qp :: u32
  max_qp :: u32

datatype VAEncMiscParameterType = VAEncMiscParameterTypeFrameRate | VAEncMiscParameterTypeRateControl
  | VAEncMiscParameterType_other nat

text \<open>
  The sizes of the structs of \<^verbatim>\<open>va.h\<close> and their fields, read from the bytes of a buffer; the
  last two read the payload behind the header of a miscellaneous parameter buffer.
\<close>

record va_casts =
  sizeof_seq_h264 :: u64
  sizeof_seq_hevc :: u64
  sizeof_pic_h264 :: u64
  sizeof_pic_hevc :: u64
  sizeof_misc :: u64
  sizeof_rate_control :: u64
  sizeof_frame_rate :: u64
  as_seq_h264 :: "block \<Rightarrow> VAEncSequenceParameterBufferH264"
  as_seq_hevc :: "block \<Rightarrow> VAEncSequenceParameterBufferHEVC"
  as_pic_h264 :: "block \<Rightarrow> VAEncPictureParameterBuffer"
  as_pic_hevc :: "block \<Rightarrow> VAEncPictureParameterBuffer"
  as_misc_type :: "block \<Rightarrow> VAEncMiscParameterType"
  as_rate_control :: "block \<Rightarrow> VAEncMiscParameterRateControl"
  as_framerate :: "block \<Rightarrow> u32"

definition render_seq_h264 ::
  "bool \<Rightarrow> VAEncSequenceParameterBufferH264 \<Rightarrow> ('c, 's) NVContext \<Rightarrow> ('c, 's) NVContext" where
  "render_seq_h264 visibleReconfigure seq ctx =
     (let ctx = nvencSetBitrate (h4_bits_per_second seq) ctx;
          ctx = nvencSetGop (h4_intra_period seq) (h4_intra_idr_period seq) ctx;
          ctx = nvencUpdateVisibleRectFromH264Seq visibleReconfigure seq ctx
      in if timing_info_present_flag seq \<and> time_scale seq \<noteq> 0
         then nvencSetFrameRate (time_scale seq) (if num_units_in_tick seq \<noteq> 0 then num_units_in_tick seq * 2 else 1) ctx
         else ctx)"

definition render_seq_hevc ::
  "bool \<Rightarrow> VAEncSequenceParameterBufferHEVC \<Rightarrow> ('c, 's) NVContext \<Rightarrow> ('c, 's) NVContext" where
  "render_seq_hevc visibleReconfigure seq ctx =
     (let ctx = nvencSetBitrate (h5_bits_per_second seq) ctx;
          ctx = nvencSetGop (h5_intra_period seq) (h5_intra_idr_period seq) ctx;
          ctx = nvencUpdateVisibleRectFromHevcSeq visibleReconfigure seq ctx
      in if vui_timing_info_present_flag seq \<and> vui_time_scale seq \<noteq> 0
         then nvencSetFrameRate (vui_time_scale seq) (if vui_num_units_in_tick seq \<noteq> 0 then vui_num_units_in_tick seq else 1) ctx
         else ctx)"

definition render_pic ::
  "('c, 's, 'z) drv \<Rightarrow> VAEncPictureParameterBuffer \<Rightarrow> ('c, 's) NVContext \<Rightarrow> ('c, 's) NVContext option" where
  "render_pic d pic ctx = do {
     ctx \<leftarrow>
       (if coded_buf pic \<noteq> VA_INVALID_ID then do {
          ca \<leftarrow> getObjectPtr d OBJECT_TYPE_BUFFER (coded_buf pic);
          if ca = NULL then Some ctx
          else do {
            cb \<leftarrow> get_buffer d ca;
            Some (if bufferType cb = VAEncCodedBufferType
                  then ctx\<lparr>encCodedBufId := coded_buf pic, encHasCodedBuf := True\<rparr> else ctx)
          }
        }
        else Some ctx);
     Some (if idr_pic_flag pic then ctx\<lparr>encForceIdr := True\<rparr> else ctx)
   }"

definition render_bitrate ::
  "VAEncMiscParameterRateControl \<Rightarrow> ('c, 's) NVContext \<Rightarrow> ('c, 's) NVContext" where
  "render_bitrate rc ctx =
     (if 0 < rc_bits_per_second rc
      then if target_percentage rc \<noteq> 0 \<and> rateControlMode (rcParams (encConfig ctx)) = NV_ENC_PARAMS_RC_VBR
           then let avg = (ucast (rc_bits_per_second rc) * ucast (target_percentage rc)) div (100 :: u64);
                    avg = (if 0xffffffff < avg then 0xffffffff else avg);
                    ctx = nvencSetBitrate (ucast avg) ctx;
                    p = rcParams (encConfig ctx);
                    (m, c) = setU32IfChanged (maxBitRate p) (rc_bits_per_second rc)
                in request_if c (set_rc (p\<lparr>maxBitRate := m\<rparr>) ctx)
           else nvencSetBitrate (rc_bits_per_second rc) ctx
      else ctx)"

definition set_max_qp :: "u32 \<Rightarrow> ('c, 's) NVContext \<Rightarrow> ('c, 's) NVContext" where
  "set_max_qp v ctx =
     (if 0 < v
      then let p = rcParams (encConfig ctx); (q, c) = set_qps v (maxQP p) in request_if c (set_rc (p\<lparr>maxQP := q\<rparr>) ctx)
      else ctx)"

definition set_min_qp :: "u32 \<Rightarrow> ('c, 's) NVContext \<Rightarrow> ('c, 's) NVContext" where
  "set_min_qp v ctx =
     (if 0 < v
      then let p = rcParams (encConfig ctx); (q, c) = set_qps v (minQP p) in request_if c (set_rc (p\<lparr>minQP := q\<rparr>) ctx)
      else ctx)"

definition render_rate_control ::
  "VAEncMiscParameterRateControl \<Rightarrow> ('c, 's) NVContext \<Rightarrow> ('c, 's) NVContext" where
  "render_rate_control rc ctx = set_min_qp (min_qp rc) (set_max_qp (max_qp rc) (render_bitrate rc ctx))"

definition render_frame_rate :: "u32 \<Rightarrow> ('c, 's) NVContext \<Rightarrow> ('c, 's) NVContext" where
  "render_frame_rate framerate ctx =
     (let fpsNum = framerate AND 0xffff;
          fpsDen = (drop_bit 16 framerate) AND 0xffff;
          fpsDen = (if fpsDen = 0 then 1 else fpsDen)
      in nvencSetFrameRate fpsNum fpsDen ctx)"

text \<open>One buffer of the encode loop of \<open>nvRenderPicture\<close>; the bytes are read only behind the size checks.\<close>

definition render_enc_buffer ::
  "va_casts \<Rightarrow> ('c, 's, 'z) drv \<Rightarrow> u32 \<Rightarrow> ('c, 's) NVContext \<Rightarrow> ('c, 's) NVContext option" where
  "render_enc_buffer va d i ctx = do {
     a \<leftarrow> getObjectPtr d OBJECT_TYPE_BUFFER i;
     if a = NULL then Some ctx
     else do {
       b \<leftarrow> get_buffer d a;
       case bufferType b of
         VAEncCodedBufferType \<Rightarrow> Some (ctx\<lparr>encCodedBufId := i, encHasCodedBuf := True\<rparr>)
       | VAEncSequenceParameterBufferType \<Rightarrow>
           (if \<not> encIsHevc ctx \<and> b_ptr b \<noteq> NULL \<and> sizeof_seq_h264 va \<le> b_size b
            then do {
              blk \<leftarrow> mem d (b_ptr b);
              Some (render_seq_h264 (g_encVisibleReconfigure d) (as_seq_h264 va blk) ctx)
            }
            else if encIsHevc ctx \<and> b_ptr b \<noteq> NULL \<and> sizeof_seq_hevc va \<le> b_size b
            then do {
              blk \<leftarrow> mem d (b_ptr b);
              Some (render_seq_hevc (g_encVisibleReconfigure d) (as_seq_hevc va blk) ctx)
            }
            else Some ctx)
       | VAEncPictureParameterBufferType \<Rightarrow>
           (if \<not> encIsHevc ctx \<and> b_ptr b \<noteq> NULL \<and> sizeof_pic_h264 va \<le> b_size b
            then do { blk \<leftarrow> mem d (b_ptr b); render_pic d (as_pic_h264 va blk) ctx }
            else if encIsHevc ctx \<and> b_ptr b \<noteq> NULL \<and> sizeof_pic_hevc va \<le> b_size b
            then do { blk \<leftarrow> mem d (b_ptr b); render_pic d (as_pic_hevc va blk) ctx }
            else Some ctx)
       | VAEncMiscParameterBufferType \<Rightarrow>
           (if b_ptr b \<noteq> NULL \<and> sizeof_misc va \<le> b_size b
            then do {
              blk \<leftarrow> mem d (b_ptr b);
              Some (if as_misc_type va blk = VAEncMiscParameterTypeRateControl \<and>
                       sizeof_misc va + sizeof_rate_control va \<le> b_size b
                    then render_rate_control (as_rate_control va blk) ctx
                    else if as_misc_type va blk = VAEncMiscParameterTypeFrameRate \<and>
                            sizeof_misc va + sizeof_frame_rate va \<le> b_size b
                    then render_frame_rate (as_framerate va blk) ctx
                    else ctx)
            }
            else Some ctx)
       | _ \<Rightarrow> Some ctx
     }
   }"

fun render_enc_buffers ::
  "va_casts \<Rightarrow> ('c, 's, 'z) drv \<Rightarrow> u32 list \<Rightarrow> ('c, 's) NVContext \<Rightarrow> ('c, 's) NVContext option" where
  "render_enc_buffers va d [] ctx = Some ctx"
| "render_enc_buffers va d (i # ids) ctx = do {
     ctx \<leftarrow> render_enc_buffer va d i ctx;
     render_enc_buffers va d ids ctx
   }"

section \<open>What a parameter buffer may change\<close>

text \<open>
  The visible rectangle is even, not empty and inside the picture.  Picture sizes are positive
  \<^verbatim>\<open>int\<close> values.
\<close>

definition visible_inside :: "('c, 's) NVContext \<Rightarrow> bool" where
  "visible_inside ctx \<longleftrightarrow> unat (cx_width ctx) < 2 ^ 31 \<and> unat (cx_height ctx) < 2 ^ 31 \<and>
     (encVisibleValid ctx \<longrightarrow>
        even (unat (encVisibleX ctx)) \<and> even (unat (encVisibleY ctx)) \<and>
        even (unat (encVisibleWidth ctx)) \<and> even (unat (encVisibleHeight ctx)) \<and>
        0 < encVisibleWidth ctx \<and> 0 < encVisibleHeight ctx \<and>
        unat (encVisibleX ctx) + unat (encVisibleWidth ctx) \<le> unat (cx_width ctx) \<and>
        unat (encVisibleY ctx) + unat (encVisibleHeight ctx) \<le> unat (cx_height ctx))"

definition settings :: "('c, 's) NVContext \<Rightarrow> NV_ENC_CONFIG \<times> NV_ENC_INITIALIZE_PARAMS" where
  "settings ctx = (encConfig ctx, encInitParams ctx)"

text \<open>The fields that belong to the frames already submitted.\<close>

definition frame_state :: "('c, 's) NVContext \<Rightarrow> (u32 \<times> u32 \<times> addr \<times> bool) \<times> (u32 \<times> u32 \<times> u64 \<times> u32 \<times> u32)" where
  "frame_state ctx = ((cx_width ctx, cx_height ctx, nvencEncoder ctx, encIsHevc ctx),
     (nvencIoBufferCount ctx, nvencIoBufferIndex ctx, encLastReconfigureNs ctx, encFrameNum ctx, encStartupIdrLeft ctx))"

definition setting_step :: "('c, 's) NVContext \<Rightarrow> ('c, 's) NVContext \<Rightarrow> bool" where
  "setting_step ctx ctx' \<longleftrightarrow>
     (settings ctx' = settings ctx \<or> encNeedsReconfigure ctx') \<and>
     (encNeedsReconfigure ctx \<longrightarrow> encNeedsReconfigure ctx') \<and>
     frame_state ctx' = frame_state ctx \<and>
     (visible_inside ctx \<longrightarrow> visible_inside ctx')"

lemma setting_step_refl: "setting_step ctx ctx"
  by (simp add: setting_step_def)

lemma setting_step_trans: "setting_step a b \<Longrightarrow> setting_step b c \<Longrightarrow> setting_step a c"
  unfolding setting_step_def by metis

lemmas setting_unfold = setting_step_def settings_def frame_state_def visible_inside_def request_if_def set_rc_def
  setU32IfChanged_def Let_def

lemma nvencSetBitrate_step: "setting_step ctx (nvencSetBitrate r ctx)"
  by (simp add: nvencSetBitrate_def setting_unfold)

lemma nvencSetFrameRate_step: "setting_step ctx (nvencSetFrameRate n d ctx)"
  by (simp add: nvencSetFrameRate_def setting_unfold)

lemma nvencSetGop_step: "setting_step ctx (nvencSetGop g i ctx)"
  by (simp add: nvencSetGop_def setting_unfold)

lemma set_qps_unchanged: "set_qps v q = (q', c) \<Longrightarrow> c \<or> q' = q"
  by (auto simp: set_qps_def setU32IfChanged_def Let_def split: if_splits)

lemma set_rc_step:
  assumes "c \<or> rc = rcParams (encConfig ctx)"
  shows "setting_step ctx (request_if c (set_rc rc ctx))"
  using assms by (auto simp: setting_unfold)

lemma nvencMaybeUseVisibleResolution_step:
  "setting_step ctx (nvencMaybeUseVisibleResolution v ctx)"
  by (simp add: nvencMaybeUseVisibleResolution_def setting_unfold)

lemma use_if_valid_step: "setting_step ctx (use_if_valid v ctx)"
  by (simp add: use_if_valid_def nvencMaybeUseVisibleResolution_step setting_step_refl)

text \<open>
  A rectangle whose corner plus extent does not wrap is cut at the picture.
\<close>

lemma visible_axis:
  assumes "even_down x < n" "unat x + unat w < 2 ^ 32"
  shows "unat (even_down (clamp (even_down x) (even_down w) n)) =
    2 * (min (2 * (unat w div 2)) (unat n - 2 * (unat x div 2)) div 2)"
proof -
  have "unat (clamp (even_down x) (even_down w) n) = min (2 * (unat w div 2)) (unat n - 2 * (unat x div 2))"
    using assms unat_clamp[of "even_down x" n "even_down w"] by (simp add: word_less_nat_alt)
  then show ?thesis by simp
qed

lemma visible_axis_inside:
  assumes "even_down x < n" "unat x + unat w < 2 ^ 32"
  shows "unat (even_down x) + unat (even_down (clamp (even_down x) (even_down w) n)) \<le> unat n"
proof -
  have "2 * (unat x div 2) < unat n" using assms(1) by (simp add: word_less_nat_alt)
  then have "2 * (unat x div 2) + 2 * (min (2 * (unat w div 2)) (unat n - 2 * (unat x div 2)) div 2) \<le> unat n" by linarith
  then show ?thesis unfolding visible_axis[OF assms] by simp
qed

lemma if_chain:
  "P (if a then i else if b then i else if c then i else if d then i else n) \<Longrightarrow> \<not> P i \<Longrightarrow> \<not> a \<and> \<not> b \<and> \<not> c \<and> \<not> d"
  by (simp split: if_splits)

lemma nvencSetVisibleRect_step:
  assumes "visible_inside ctx \<Longrightarrow> unat x + unat w < 2 ^ 32 \<or> cx_width ctx \<le> even_down x"
    "visible_inside ctx \<Longrightarrow> unat y + unat h < 2 ^ 32 \<or> cx_height ctx \<le> even_down y"
  shows "setting_step ctx (nvencSetVisibleRect x y w h ctx)"
proof -
  have f: "frame_state (nvencSetVisibleRect x y w h ctx) = frame_state ctx"
    "settings (nvencSetVisibleRect x y w h ctx) = settings ctx"
    "encNeedsReconfigure (nvencSetVisibleRect x y w h ctx) = encNeedsReconfigure ctx"
    by (simp_all add: nvencSetVisibleRect_def Let_def frame_state_def settings_def)
  have "visible_inside (nvencSetVisibleRect x y w h ctx)" if v: "visible_inside ctx"
  proof (cases "encVisibleValid (nvencSetVisibleRect x y w h ctx)")
    case False
    then show ?thesis using v f(1) by (simp add: visible_inside_def frame_state_def)
  next
    case True
    define W where "W = even_down (clamp (even_down x) (even_down w) (cx_width ctx))"
    define H where "H = even_down (clamp (even_down y) (even_down h) (cx_height ctx))"
    let ?inv = "ctx\<lparr>encVisibleValid := False\<rparr>"
    let ?new = "ctx\<lparr>encVisibleX := even_down x, encVisibleY := even_down y, encVisibleWidth := W, encVisibleHeight := H,
      encVisibleValid := True\<rparr>"
    have eq: "nvencSetVisibleRect x y w h ctx =
      (if w = 0 \<or> h = 0 then ?inv else if even_down w = 0 \<or> even_down h = 0 then ?inv
       else if cx_width ctx \<le> even_down x \<or> cx_height ctx \<le> even_down y then ?inv
       else if W = 0 \<or> H = 0 then ?inv else ?new)"
      unfolding nvencSetVisibleRect_def Let_def W_def H_def ..
    have "\<not> encVisibleValid ?inv" by simp
    from if_chain[where P = encVisibleValid, OF True[unfolded eq] this]
    have c: "\<not> (w = 0 \<or> h = 0)" "\<not> (even_down w = 0 \<or> even_down h = 0)"
      "\<not> (cx_width ctx \<le> even_down x \<or> cx_height ctx \<le> even_down y)" "\<not> (W = 0 \<or> H = 0)" by blast+
    have e: "nvencSetVisibleRect x y w h ctx = ?new" unfolding eq if_not_P[OF c(1)] if_not_P[OF c(2)] if_not_P[OF c(3)] if_not_P[OF c(4)] ..
    have a: "even_down x < cx_width ctx" "even_down y < cx_height ctx" and z: "W \<noteq> 0" "H \<noteq> 0" using c(3,4) by auto
    have n: "unat x + unat w < 2 ^ 32" "unat y + unat h < 2 ^ 32" using assms[OF v] a by auto
    have "unat (even_down x) + unat W \<le> unat (cx_width ctx)" "unat (even_down y) + unat H \<le> unat (cx_height ctx)"
      unfolding W_def H_def using a n by (intro visible_axis_inside; simp)+
    moreover have "even (unat W)" "even (unat H)" by (simp_all add: W_def H_def)
    ultimately show ?thesis using v z unfolding e visible_inside_def by (simp add: word_neq_0_conv)
  qed
  then show ?thesis using f by (simp add: setting_step_def)
qed

text \<open>A range of at most \<open>2 ^ 20\<close> pixels that starts inside a picture cannot wrap.\<close>

lemma short_range:
  fixes x w n :: u32
  assumes "unat n < 2 ^ 31" "unat w \<le> 2 ^ 20"
  shows "unat x + unat w < 2 ^ 32 \<or> n \<le> even_down x"
proof (cases "n \<le> even_down x")
  case False
  then have "2 * (unat x div 2) < unat n" by (simp add: word_le_nat_alt)
  then have "unat x \<le> 2 ^ 31" using assms(1) by linarith
  then show ?thesis using assms(2) by simp
qed simp

lemma unat_ucast16_less: "unat (ucast (w :: u16) :: u32) < 2 ^ 16"
  using unsigned_less[where 'a = nat and w = w] by simp

lemma coded_size_short: "unat (ucast (w :: u16) * 16 :: u32) \<le> 2 ^ 20"
  using unat_ucast16_less[of w] by (subst unat_mult_bounded) simp_all

lemma cropped_size_short: "unat (if c < v then v - c else (v :: u32)) \<le> unat v"
  by (simp add: unat_sub word_less_nat_alt word_le_nat_alt)

lemma h264_visible_short:
  assumes "h264_visible seq = (x, y, w, h)"
  shows "unat w \<le> 2 ^ 20 \<and> unat h \<le> 2 ^ 20"
proof -
  obtain ux uy where u: "crop_units (h4_chroma_format_idc seq) (frame_mbs_only_flag seq) = (ux, uy)" by fastforce
  have "unat (fst (snd (snd (h264_visible seq)))) \<le> 2 ^ 20" "unat (snd (snd (snd (h264_visible seq)))) \<le> 2 ^ 20"
    unfolding h264_visible_def u Let_def prod.case fst_conv snd_conv
    by (rule order_trans[OF cropped_size_short coded_size_short])+
  then show ?thesis by (simp add: assms)
qed

lemma nvencUpdateVisibleRectFromH264Seq_step:
  "setting_step ctx (nvencUpdateVisibleRectFromH264Seq v seq ctx)"
proof -
  obtain x y w h where q: "h264_visible seq = (x, y, w, h)" using prod_cases4 by blast
  have "setting_step ctx (nvencSetVisibleRect x y w h ctx)"
    by (rule nvencSetVisibleRect_step; rule short_range) (use h264_visible_short[OF q] in \<open>auto simp: visible_inside_def\<close>)
  then show ?thesis unfolding nvencUpdateVisibleRectFromH264Seq_def q by (simp add: setting_step_trans[OF _ use_if_valid_step])
qed

lemma nvencUpdateVisibleRectFromHevcSeq_step:
  "setting_step ctx (nvencUpdateVisibleRectFromHevcSeq v seq ctx)"
proof -
  have "setting_step ctx (nvencSetVisibleRect 0 0 (ucast (a :: u16)) (ucast (b :: u16)) ctx)" for a b
    by (rule nvencSetVisibleRect_step; rule short_range)
      (use unat_ucast16_less[of a] unat_ucast16_less[of b] in \<open>auto simp: visible_inside_def\<close>)
  then show ?thesis
    unfolding nvencUpdateVisibleRectFromHevcSeq_def by (simp add: setting_step_refl setting_step_trans[OF _ use_if_valid_step])
qed

text \<open>Every handler of a parameter buffer is a sequence of such steps.\<close>

lemmas steps_after = nvencSetBitrate_step [THEN setting_step_trans [rotated]]
  nvencSetGop_step [THEN setting_step_trans [rotated]] nvencSetFrameRate_step [THEN setting_step_trans [rotated]]
  nvencUpdateVisibleRectFromH264Seq_step [THEN setting_step_trans [rotated]]
  nvencUpdateVisibleRectFromHevcSeq_step [THEN setting_step_trans [rotated]] setting_step_refl

lemma render_seq_step:
  "setting_step ctx (render_seq_h264 v seq4 ctx)" "setting_step ctx (render_seq_hevc v seq5 ctx)"
  unfolding render_seq_h264_def render_seq_hevc_def Let_def by (simp_all add: steps_after)

lemma render_bitrate_step: "setting_step ctx (render_bitrate rc ctx)"
  unfolding render_bitrate_def Let_def setU32IfChanged_def
  by (simp add: setting_step_trans[OF nvencSetBitrate_step set_rc_step] steps_after)

lemma qp_step: "setting_step ctx (set_max_qp v ctx)" "setting_step ctx (set_min_qp v ctx)"
  unfolding set_max_qp_def set_min_qp_def Let_def
  by (auto split: prod.split intro!: set_rc_step setting_step_refl dest: set_qps_unchanged)

lemma render_rate_control_step: "setting_step ctx (render_rate_control rc ctx)"
  unfolding render_rate_control_def by (intro setting_step_trans[OF _ qp_step(1)] setting_step_trans[OF _ qp_step(2)] render_bitrate_step)

lemma render_frame_rate_step: "setting_step ctx (render_frame_rate r ctx)"
  unfolding render_frame_rate_def Let_def by (rule nvencSetFrameRate_step)

lemma bookkeeping_step:
  "setting_step ctx (ctx\<lparr>encCodedBufId := i, encHasCodedBuf := b\<rparr>)"
  "setting_step ctx (ctx\<lparr>encForceIdr := f\<rparr>)"
  by (simp_all add: setting_unfold)

text \<open>The blocks of the buffers are alive; then no parameter buffer gets the driver stuck.\<close>

definition buffers_alive :: "('c, 's, 'z) drv \<Rightarrow> bool" where
  "buffers_alive d \<longleftrightarrow> (\<forall>i a b. view d i = Some (OBJECT_TYPE_BUFFER, a) \<longrightarrow> get_buffer d a = Some b \<longrightarrow> b_ptr b \<noteq> NULL \<longrightarrow>
     mem d (b_ptr b) \<noteq> None)"

lemma lookup_buffer:
  assumes "typed d"
  shows "getObjectPtr d OBJECT_TYPE_BUFFER i = Some NULL \<or>
    (\<exists>a b. getObjectPtr d OBJECT_TYPE_BUFFER i = Some a \<and> a \<noteq> NULL \<and> view d i = Some (OBJECT_TYPE_BUFFER, a) \<and>
       get_buffer d a = Some b)"
proof (cases "\<exists>a. view d i = Some (OBJECT_TYPE_BUFFER, a)")
  case True
  then obtain a where a: "view d i = Some (OBJECT_TYPE_BUFFER, a)" by blast
  obtain b where "heap d a = Some (PBuffer b)" "a \<noteq> NULL"
    using typed_view[OF assms a] by (auto simp: payload_type_cases)
  then show ?thesis using a typed_get[OF assms] by (simp add: get_buffer_def)
next
  case False
  then show ?thesis using typed_get[OF assms] by (auto split: option.splits)
qed

lemma render_pic_step:
  assumes "typed d"
  shows "\<exists>ctx'. render_pic d pic ctx = Some ctx' \<and> setting_step ctx ctx'"
proof -
  have "\<exists>c. (if coded_buf pic \<noteq> VA_INVALID_ID then do {
          ca \<leftarrow> getObjectPtr d OBJECT_TYPE_BUFFER (coded_buf pic);
          if ca = NULL then Some ctx
          else do {
            cb \<leftarrow> get_buffer d ca;
            Some (if bufferType cb = VAEncCodedBufferType
                  then ctx\<lparr>encCodedBufId := coded_buf pic, encHasCodedBuf := True\<rparr> else ctx)
          }
        } else Some ctx) = Some c \<and> setting_step ctx c"
    using lookup_buffer[OF assms, of "coded_buf pic"] by (auto simp: bookkeeping_step(1) setting_step_refl)
  then obtain c where c: "render_pic d pic ctx = Some (if idr_pic_flag pic then c\<lparr>encForceIdr := True\<rparr> else c)"
      "setting_step ctx c"
    unfolding render_pic_def by auto
  then show ?thesis using setting_step_trans[OF c(2) bookkeeping_step(2)] by simp
qed

lemma render_enc_buffer_step:
  assumes "typed d" "buffers_alive d"
  shows "\<exists>ctx'. render_enc_buffer va d i ctx = Some ctx' \<and> setting_step ctx ctx'"
  using lookup_buffer[OF assms(1), of i]
proof (elim disjE exE conjE)
  fix a b
  assume a: "getObjectPtr d OBJECT_TYPE_BUFFER i = Some a" "a \<noteq> NULL" "view d i = Some (OBJECT_TYPE_BUFFER, a)"
    "get_buffer d a = Some b"
  have m: "\<exists>blk. mem d (b_ptr b) = Some blk" if "b_ptr b \<noteq> NULL" using assms(2) a that by (auto simp: buffers_alive_def)
  show ?thesis
  proof (cases "bufferType b")
    case VAEncSequenceParameterBufferType
    then show ?thesis using a m by (auto simp: render_enc_buffer_def render_seq_step setting_step_refl)
  next
    case VAEncPictureParameterBufferType
    then show ?thesis using a m render_pic_step[OF assms(1)] by (auto simp: render_enc_buffer_def setting_step_refl)
  next
    case VAEncMiscParameterBufferType
    then show ?thesis using a m by (auto simp: render_enc_buffer_def render_rate_control_step render_frame_rate_step setting_step_refl)
  qed (use a in \<open>auto simp: render_enc_buffer_def bookkeeping_step(1) setting_step_refl\<close>)
qed (simp add: render_enc_buffer_def setting_step_refl)

lemma render_enc_buffers_step:
  assumes "typed d" "buffers_alive d"
  shows "\<exists>ctx'. render_enc_buffers va d ids ctx = Some ctx' \<and> setting_step ctx ctx'"
proof (induction ids arbitrary: ctx)
  case (Cons i ids)
  obtain c where "render_enc_buffer va d i ctx = Some c" "setting_step ctx c"
    using render_enc_buffer_step[OF assms] by blast
  then show ?case using Cons.IH[of c] setting_step_trans by fastforce
qed (simp add: setting_step_refl)

section \<open>Settings reach the encoder\<close>

text \<open>
  \<open>active\<close> is the configuration the encoder runs with: a successful reconfiguration call makes it
  the one passed, a refused one and reading the clock leave it alone.
\<close>

definition reconfigures :: "('w \<Rightarrow> NV_ENC_CONFIG \<times> NV_ENC_INITIALIZE_PARAMS) \<Rightarrow> ('w, 'x) nvenc_api_scheme \<Rightarrow> bool" where
  "reconfigures active api \<longleftrightarrow>
     (\<exists>f. nvEncReconfigureEncoder api = Some f \<and>
        (\<forall>e ip c w. active (snd (f e ip c w)) = (if fst (f e ip c w) = NV_ENC_SUCCESS then (c, ip) else active w))) \<and>
     (\<forall>w. active (snd (getMonotonicNs api w)) = active w)"

text \<open>The clock is read before the call only when the interval matters.\<close>

definition held_back :: "('w, 'x) nvenc_api_scheme \<Rightarrow> u32 \<Rightarrow> ('c, 's) NVContext \<Rightarrow> 'w \<Rightarrow> bool" where
  "held_back api minMs ctx w \<longleftrightarrow> \<not> resolutionChange ctx \<and> 0 < minMs \<and> too_early minMs (fst (getMonotonicNs api w)) ctx"

definition clock_read :: "('w, 'x) nvenc_api_scheme \<Rightarrow> u32 \<Rightarrow> ('c, 's) NVContext \<Rightarrow> 'w \<Rightarrow> 'w" where
  "clock_read api minMs ctx w = (if \<not> resolutionChange ctx \<and> 0 < minMs then snd (getMonotonicNs api w) else w)"

definition reconfigured :: "u32 \<Rightarrow> u64 \<Rightarrow> ('c, 's) NVContext \<Rightarrow> ('c, 's) NVContext" where
  "reconfigured idr now ctx =
     ctx\<lparr>cx_width := encodeWidth (encInitParams ctx), cx_height := encodeHeight (encInitParams ctx),
         encLastReconfigureNs := now,
         encStartupIdrLeft :=
           (if cx_width ctx \<noteq> encodeWidth (encInitParams ctx) \<or> cx_height ctx \<noteq> encodeHeight (encInitParams ctx) then idr
            else encStartupIdrLeft ctx),
         encNeedsReconfigure := False\<rparr>"

lemma nvencReconfigureIfNeeded_cases:
  assumes "encNeedsReconfigure ctx" "nvEncReconfigureEncoder api = Some f"
    "f (nvencEncoder ctx) (encInitParams ctx) (encConfig ctx) (clock_read api minMs ctx w) = (nvs, w1)"
  shows "nvencReconfigureIfNeeded api minMs idr (ctx, w) =
    (if held_back api minMs ctx w then (VA_STATUS_SUCCESS, ctx, clock_read api minMs ctx w)
     else if nvs \<noteq> NV_ENC_SUCCESS then (VA_STATUS_SUCCESS, ctx\<lparr>encNeedsReconfigure := False\<rparr>, w1)
     else (VA_STATUS_SUCCESS, reconfigured idr (fst (getMonotonicNs api w1)) ctx, snd (getMonotonicNs api w1)))"
  using assms unfolding nvencReconfigureIfNeeded_def held_back_def clock_read_def reconfigured_def
  by (cases "getMonotonicNs api w"; cases "getMonotonicNs api w1"; cases "resolutionChange ctx"; cases "0 < minMs") (simp_all add: Let_def)

lemma nvencReconfigureIfNeeded_sync:
  assumes "reconfigures active api" "encNeedsReconfigure ctx \<or> active w = settings ctx"
    "\<forall>f. nvEncReconfigureEncoder api = Some f \<longrightarrow> (\<forall>e ip c w. fst (f e ip c w) = NV_ENC_SUCCESS)"
  shows "\<exists>ctx' w'. nvencReconfigureIfNeeded api minMs idr (ctx, w) = (VA_STATUS_SUCCESS, ctx', w') \<and>
    settings ctx' = settings ctx \<and> (encNeedsReconfigure ctx' \<or> active w' = settings ctx') \<and>
    (encNeedsReconfigure ctx' \<longrightarrow> ctx' = ctx \<and> held_back api minMs ctx w)"
proof (cases "encNeedsReconfigure ctx")
  case False
  then show ?thesis using assms(2) by (simp add: nvencReconfigureIfNeeded_def)
next
  case True
  obtain f where f: "nvEncReconfigureEncoder api = Some f"
      "active (snd (f e ip c w)) = (if fst (f e ip c w) = NV_ENC_SUCCESS then (c, ip) else active w)" for e ip c w
    using assms(1) unfolding reconfigures_def by blast
  obtain nvs w1 where r: "f (nvencEncoder ctx) (encInitParams ctx) (encConfig ctx) (clock_read api minMs ctx w) = (nvs, w1)"
    by fastforce
  have n: "nvs = NV_ENC_SUCCESS" using assms(3) f(1) r by (metis fst_conv)
  then have a: "active w1 = settings ctx" using f(2) r by (metis fst_conv snd_conv settings_def)
  have c: "active (snd (getMonotonicNs api w1)) = active w1" using assms(1) by (simp add: reconfigures_def)
  show ?thesis unfolding nvencReconfigureIfNeeded_cases[OF True f(1) r]
    using True n a c by (simp add: reconfigured_def settings_def)
qed

text \<open>A zeroed context object.\<close>

definition zero_qp :: NV_ENC_QP where
  "zero_qp = \<lparr>qpInterP = 0, qpInterB = 0, qpIntra = 0\<rparr>"

definition zero_config :: NV_ENC_CONFIG where
  "zero_config = \<lparr>gopLength = 0, frameIntervalP = 0,
     rcParams = \<lparr>rateControlMode = NV_ENC_PARAMS_RC_CONSTQP, constQP = zero_qp, averageBitRate = 0, maxBitRate = 0, minQP = zero_qp,
                 maxQP = zero_qp\<rparr>, h264_idrPeriod = 0, hevc_idrPeriod = 0, repeatSPSPPS = False\<rparr>"

definition zero_init :: NV_ENC_INITIALIZE_PARAMS where
  "zero_init = \<lparr>encodeWidth = 0, encodeHeight = 0, darWidth = 0, darHeight = 0, frameRateNum = 0, frameRateDen = 0,
     maxEncodeWidth = 0, maxEncodeHeight = 0\<rparr>"

definition zero_context :: "('c, 's) NVContext" where
  "zero_context = \<lparr>codecData = None, lastSliceParams = None, lastSliceParamsCount = 0,
     bitstreamBuffer = empty_AppendableBuffer, sliceOffsets = empty_AppendableBuffer, firstKeyframeValid = False,
     cx_mode = NV_CONTEXT_DECODE, cx_profile = VAProfileMPEG2Simple, cx_entrypoint = VAEntrypointVLD, cx_width = 0, cx_height = 0,
     cx_codec = None, decoder = NULL, renderTarget = NULL, pPicParams = zero_pic, currentPictureId = 0, surfaceQueue = replicate 16 NULL,
     surfaceQueueReadIdx = 0, surfaceQueueWriteIdx = 0, exiting = False, surfaceCount = 0, nvencEncoder = NULL,
     nvencInputBuffers = replicate NVENC_MAX_IO_BUFFERS NULL, nvencOutputBuffers = replicate NVENC_MAX_IO_BUFFERS NULL,
     nvencIoBufferCount = 0, nvencIoBufferIndex = 0, encIsHevc = False, encConfig = zero_config, encInitParams = zero_init,
     encNeedsReconfigure = False, encCurrentSurface = 0, encCodedBufId = 0, encHasCodedBuf = False, encForceIdr = False,
     encFrameNum = 0, encVisibleX = 0, encVisibleY = 0, encVisibleWidth = 0, encVisibleHeight = 0, encVisibleValid = False,
     encLastFrameData = NULL, encLastReconfigureNs = 0, encStartupIdrLeft = 0, encNeedMoreInputStreak = 0,
     encOutputFrameCount = 0, encLastHealthLogFrame = 0\<rparr>"

text \<open>
  A small encode session: a surface (1) of 16 by 16 pixels, a coded buffer (2) of 8 bytes, the context
  (3) and a rate control buffer (4).
\<close>

definition session_ctx :: "(unit, slice_param) NVContext" where
  "session_ctx = zero_context\<lparr>cx_mode := NV_CONTEXT_ENCODE, cx_profile := VAProfileH264Main, cx_width := 16, cx_height := 16,
     nvencEncoder := 9, nvencInputBuffers := [7, 0, 0, 0], nvencOutputBuffers := [8, 0, 0, 0], nvencIoBufferCount := 1,
     encConfig := zero_config\<lparr>rcParams := (rcParams zero_config)\<lparr>rateControlMode := NV_ENC_PARAMS_RC_CBR\<rparr>\<rparr>,
     encInitParams := zero_init\<lparr>encodeWidth := 16, encodeHeight := 16, darWidth := 16, darHeight := 16\<rparr>,
     encCurrentSurface := 1, encCodedBufId := 2, encHasCodedBuf := True\<rparr>"

definition session_coded :: NVBuffer where
  "session_coded = zero_buffer\<lparr>bufferType := VAEncCodedBufferType, codedData := 2, codedCapacity := 8\<rparr>"

definition session_misc :: NVBuffer where
  "session_misc = zero_buffer\<lparr>bufferType := VAEncMiscParameterBufferType, b_size := 8, b_ptr := 3\<rparr>"

definition session_objects :: "Object_t list" where
  "session_objects = [\<lparr>o_type = OBJECT_TYPE_SURFACE, o_id = 1, o_obj = 1\<rparr>, \<lparr>o_type = OBJECT_TYPE_BUFFER, o_id = 2, o_obj = 2\<rparr>,
     \<lparr>o_type = OBJECT_TYPE_CONTEXT, o_id = 3, o_obj = 3\<rparr>, \<lparr>o_type = OBJECT_TYPE_BUFFER, o_id = 4, o_obj = 4\<rparr>]"

definition session :: "((unit, slice_param) payload) NVDriver" where
  "session = (example_drv False)\<lparr>
     objects := \<lparr>arr_buf = map Some session_objects @ replicate 12 None, arr_size = 4, arr_capacity = 16\<rparr>, nextObjId := 4,
     heap := [1 \<mapsto> PSurface example_surface, 2 \<mapsto> PBuffer session_coded, 3 \<mapsto> PContext session_ctx, 4 \<mapsto> PBuffer session_misc],
     nextAddr := 5, mem := [1 \<mapsto> example_host, 2 \<mapsto> replicate 12 (Some 0), 3 \<mapsto> replicate 8 (Some 0)], nextBlk := 4\<rparr>"

definition session_casts :: va_casts where
  "session_casts = \<lparr>sizeof_seq_h264 = 100, sizeof_seq_hevc = 100, sizeof_pic_h264 = 100, sizeof_pic_hevc = 100, sizeof_misc = 4,
     sizeof_rate_control = 4, sizeof_frame_rate = 4, as_seq_h264 = (\<lambda>_. \<lparr>h4_bits_per_second = 0, h4_intra_period = 0,
       h4_intra_idr_period = 0, picture_width_in_mbs = 1, picture_height_in_mbs = 1, h4_chroma_format_idc = 1,
       frame_mbs_only_flag = True, frame_cropping_flag = False, frame_crop_left_offset = 0, frame_crop_right_offset = 0,
       frame_crop_top_offset = 0, frame_crop_bottom_offset = 0, timing_info_present_flag = False, num_units_in_tick = 0,
       time_scale = 0\<rparr>),
     as_seq_hevc = (\<lambda>_. \<lparr>h5_bits_per_second = 0, h5_intra_period = 0, h5_intra_idr_period = 0, pic_width_in_luma_samples = 16,
       pic_height_in_luma_samples = 16, vui_timing_info_present_flag = False, vui_num_units_in_tick = 0, vui_time_scale = 0\<rparr>),
     as_pic_h264 = (\<lambda>_. \<lparr>coded_buf = 2, idr_pic_flag = False\<rparr>), as_pic_hevc = (\<lambda>_. \<lparr>coded_buf = 2, idr_pic_flag = False\<rparr>),
     as_misc_type = (\<lambda>_. VAEncMiscParameterTypeRateControl),
     as_rate_control = (\<lambda>_. \<lparr>rc_bits_per_second = 1000000, target_percentage = 0, min_qp = 0, max_qp = 0\<rparr>), as_framerate = (\<lambda>_. 0)\<rparr>"

text \<open>An encoder that accepts everything, remembers its configuration, and codes every frame as three bytes.\<close>

definition session_api :: "(NV_ENC_CONFIG \<times> NV_ENC_INITIALIZE_PARAMS) nvenc_api" where
  "session_api = \<lparr>cuCtxPushCurrent = (\<lambda>w. (True, w)), cuCtxPopCurrent = (\<lambda>w. (True, w)), getMonotonicNs = (\<lambda>w. (1, w)),
     nvEncReconfigureEncoder = Some (\<lambda>e ip c w. (NV_ENC_SUCCESS, (c, ip))), nvEncDestroyInputBuffer = (\<lambda>e b w. w),
     nvEncDestroyBitstreamBuffer = (\<lambda>e b w. w), nvEncLockInputBuffer = (\<lambda>e b w. (NV_ENC_SUCCESS, replicate 768 None, 32, w)),
     nvEncUnlockInputBuffer = (\<lambda>e b blk w. (NV_ENC_SUCCESS, w)), nvEncEncodePicture = (\<lambda>e pp w. (NV_ENC_SUCCESS, w)),
     nvEncLockBitstream = (\<lambda>e b w. (NV_ENC_SUCCESS, [1, 2, 3], w)), nvEncUnlockBitstream = (\<lambda>e b w. (NV_ENC_SUCCESS, w))\<rparr>"

lemma session_table: "table session = session_objects"
  by (simp add: table_def arr_elems_def session_def session_objects_def)

lemma session_view:
  "view session = [1 \<mapsto> (OBJECT_TYPE_SURFACE, 1), 2 \<mapsto> (OBJECT_TYPE_BUFFER, 2), 3 \<mapsto> (OBJECT_TYPE_CONTEXT, 3), 4 \<mapsto> (OBJECT_TYPE_BUFFER, 4)]"
  unfolding view_def session_table by (auto simp: session_objects_def fun_eq_iff)

lemma session_heap:
  "heap session = [1 \<mapsto> PSurface example_surface, 2 \<mapsto> PBuffer session_coded, 3 \<mapsto> PContext session_ctx, 4 \<mapsto> PBuffer session_misc]"
  "mem session = [1 \<mapsto> example_host, 2 \<mapsto> replicate 12 (Some 0), 3 \<mapsto> replicate 8 (Some 0)]" "nextBlk session = 4"
  by (simp_all add: session_def)

lemma session_typed: "typed session"
  unfolding typed_def objtab_wf_def session_table
  by (simp add: session_def session_objects_def arr_wf_def arr_elems_def VA_INVALID_ID_def)

lemma session_inv: "surf_inv session"
proof -
  have "layout_ok example_surface"
    unfolding layout_ok_def by (rule exI[of _ 16]) (simp add: example_surface_def init_surface_def zero_surface_def)
  then have h: "host_ok session example_surface"
    by (simp add: host_ok_def session_heap example_surface_def example_host_def)
  have "live session a s \<longleftrightarrow> a = 1 \<and> s = example_surface" for a s
    unfolding live_def session_table by (auto simp: session_heap session_objects_def split: if_splits)
  then show ?thesis unfolding surf_inv_def using h by (auto simp: session_typed) (auto simp: session_heap split: if_splits)
qed

lemma session_alive: "buffers_alive session"
  unfolding buffers_alive_def session_view by (auto simp: session_heap get_buffer_def session_misc_def session_coded_def zero_buffer_def)

section \<open>Properties\<close>



end
