(* ===== verification/EncodeFrame.thy ===== *)
theory EncodeFrame
  imports Nvenc
begin

text \<open>
  One encoded frame (\<^verbatim>\<open>src/src/vabackend.c\<close>, the encode half of \<open>nvEndPicture\<close>): the
  rectangle that is copied, the copy into the encoder's input buffer with its fast and its slow path,
  the submission with its fallbacks, and the copy of the bitstream into the coded buffer.  Hashes and
  dumps of the debug mode are left out, they change nothing.
\<close>

section \<open>The input picture\<close>

definition min32 :: "u32 \<Rightarrow> u32 \<Rightarrow> u32" where
  "min32 a b = (if a < b then a else b)"

definition whole_rect :: "u32 \<Rightarrow> u32 \<Rightarrow> NVSurface \<Rightarrow> u32 \<times> u32 \<times> u32 \<times> u32" where
  "whole_rect encW encH s = (0, 0, min32 (sf_width s) encW, min32 (sf_height s) encH)"

definition source_rect :: "('c, 's) NVContext \<Rightarrow> NVSurface \<Rightarrow> u32 \<times> u32 \<times> u32 \<times> u32" where
  "source_rect ctx s =
     (let encW = cx_width ctx; encH = cx_height ctx in
      if encVisibleValid ctx \<and> 0 < encVisibleWidth ctx \<and> 0 < encVisibleHeight ctx
      then (encVisibleX ctx, encVisibleY ctx, min32 (encVisibleWidth ctx) encW, min32 (encVisibleHeight ctx) encH)
      else if contentValid s \<and> 0 < contentWidth s \<and> 0 < contentHeight s
      then if sf_width s \<le> contentX s \<or> sf_height s \<le> contentY s then whole_rect encW encH s
           else (contentX s, contentY s, clamp (contentX s) (min32 (contentWidth s) encW) (sf_width s),
                 clamp (contentY s) (min32 (contentHeight s) encH) (sf_height s))
      else whole_rect encW encH s)"

definition copy_rect :: "('c, 's) NVContext \<Rightarrow> NVSurface \<Rightarrow> u32 \<times> u32 \<times> u32 \<times> u32" where
  "copy_rect ctx s =
     (let (srcX, srcY, copyWidth, copyHeight) = source_rect ctx s;
          srcX = even_down srcX; srcY = even_down srcY;
          copyWidth = even_down copyWidth; copyHeight = even_down copyHeight
      in if copyWidth = 0 \<or> copyHeight = 0 then (0, 0, even_down (cx_width ctx), even_down (cx_height ctx))
         else (srcX, srcY, copyWidth, copyHeight))"

text \<open>
  The row loops on the mapped input buffer: for \<open>n\<close> rows from \<open>y0\<close> on, write
  \<open>line y\<close> at \<open>base + y * pitch\<close>.  A line is a piece of the host copy
  (\<^verbatim>\<open>memcpy\<close>) or a constant (\<^verbatim>\<open>memset\<close>); writing outside the block is stuck.
\<close>

definition blk_write :: "block \<Rightarrow> nat \<Rightarrow> block \<Rightarrow> block option" where
  "blk_write dst off bs = do {
     guard (off + length bs \<le> length dst);
     Some (splice dst off bs)
   }"

fun write_lines :: "nat \<Rightarrow> nat \<Rightarrow> (nat \<Rightarrow> block option) \<Rightarrow> nat \<Rightarrow> nat \<Rightarrow> block \<Rightarrow> block option" where
  "write_lines base pitch line y0 0 dst = Some dst"
| "write_lines base pitch line y0 (Suc n) dst = do {
     dst \<leftarrow> write_lines base pitch line y0 n dst;
     bs \<leftarrow> line (y0 + n);
     blk_write dst (base + (y0 + n) * pitch) bs
   }"

definition memset_line :: "u8 \<Rightarrow> nat \<Rightarrow> nat \<Rightarrow> block option" where
  "memset_line v n y = Some (replicate n (Some v))"

definition memcpy_line :: "block \<Rightarrow> nat \<Rightarrow> nat \<Rightarrow> nat \<Rightarrow> nat \<Rightarrow> block option" where
  "memcpy_line src base pitch n y = read_bytes src (base + y * pitch) n"

definition copy_slow ::
  "nat \<Rightarrow> nat \<Rightarrow> nat \<Rightarrow> nat \<Rightarrow> nat \<Rightarrow> nat \<Rightarrow> block \<Rightarrow> nat \<Rightarrow> nat \<Rightarrow> nat \<Rightarrow> block \<Rightarrow> block option" where
  "copy_slow encW encH srcX srcY copyW copyH src spitch ySize dpitch dst = do {
     let uv = encH * dpitch;
     dst \<leftarrow> write_lines 0 dpitch (memcpy_line src (srcY * spitch + srcX) spitch copyW) 0 copyH dst;
     dst \<leftarrow> write_lines uv dpitch (memcpy_line src (ySize + (srcY div 2) * spitch + srcX) spitch copyW) 0 (copyH div 2) dst;
     dst \<leftarrow>
       (if copyW < encW then do {
          dst \<leftarrow> write_lines copyW dpitch (memset_line 0 (encW - copyW)) 0 copyH dst;
          write_lines (uv + copyW) dpitch (memset_line 0x80 (encW - copyW)) 0 (copyH div 2) dst
        }
        else Some dst);
     if copyH < encH then do {
       dst \<leftarrow> write_lines 0 dpitch (memset_line 0 encW) copyH (encH - copyH) dst;
       write_lines uv dpitch (memset_line 0x80 encW) (copyH div 2) (encH div 2 - copyH div 2) dst
     }
     else Some dst
   }"

definition copy_fast :: "nat \<Rightarrow> block \<Rightarrow> nat \<Rightarrow> nat \<Rightarrow> block \<Rightarrow> block option" where
  "copy_fast encH src ySize dpitch dst = do {
     ys \<leftarrow> read_bytes src 0 (encH * dpitch);
     dst \<leftarrow> blk_write dst 0 ys;
     uvs \<leftarrow> read_bytes src ySize ((encH div 2) * dpitch);
     blk_write dst (encH * dpitch) uvs
   }"

definition copy_picture ::
  "nat \<Rightarrow> nat \<Rightarrow> nat \<Rightarrow> nat \<Rightarrow> nat \<Rightarrow> nat \<Rightarrow> block \<Rightarrow> nat \<Rightarrow> nat \<Rightarrow> nat \<Rightarrow> block \<Rightarrow> block option" where
  "copy_picture encW encH srcX srcY copyW copyH src spitch ySize dpitch dst =
     (if srcX = 0 \<and> srcY = 0 \<and> copyW = encW \<and> copyH = encH \<and> spitch = dpitch
      then copy_fast encH src ySize dpitch dst
      else copy_slow encW encH srcX srcY copyW copyH src spitch ySize dpitch dst)"

text \<open>The copy runs under the surface's mutex; \<open>dst\<close> is the mapped input buffer.\<close>

definition fill_input ::
  "('c, 's) NVContext \<Rightarrow> addr \<Rightarrow> u32 \<Rightarrow> block \<Rightarrow> ('c, 's, 'z) drv \<Rightarrow> (block \<times> ('c, 's, 'z) drv) option" where
  "fill_input ctx sa dpitch dst d = do {
     s \<leftarrow> get_surface d sa;
     let (srcX, srcY, copyWidth, copyHeight) = copy_rect ctx s;
     d \<leftarrow> lock_surface sa d;
     src \<leftarrow> mem d (hostData s);
     dst \<leftarrow> copy_picture (unat (cx_width ctx)) (unat (cx_height ctx)) (unat srcX) (unat srcY) (unat copyWidth) (unat copyHeight)
              src (unat (hostPitch s)) (unat (hostYSize s)) (unat dpitch) dst;
     d \<leftarrow> unlock_surface sa d;
     Some (dst, d)
   }"

section \<open>Submission\<close>

definition surface_ready :: "addr \<Rightarrow> ('c, 's, 'z) drv \<Rightarrow> ('c, 's, 'z) drv option" where
  "surface_ready sa d = do {
     s \<leftarrow> get_surface d sa;
     Some (put_obj sa (PSurface (s\<lparr>sf_status := VASurfaceReady\<rparr>)) d)
   }"

text \<open>The error exits behind the context push: pop, mark the surface ready, translate the status.\<close>

definition fail_frame ::
  "('w, 'x) nvenc_api_scheme \<Rightarrow> addr \<Rightarrow> NVENCSTATUS \<Rightarrow> ('c, 's, 'z) drv \<Rightarrow> 'w \<Rightarrow> (VAStatus \<times> ('c, 's, 'z) drv \<times> 'w) option" where
  "fail_frame api sa nvs d w = do {
     let w = snd (cuCtxPopCurrent api w);
     d \<leftarrow> surface_ready sa d;
     Some (nvencToVaStatus nvs, d, w)
   }"

definition idr_request :: "u32 \<Rightarrow> ('c, 's) NVContext \<Rightarrow> ('c, 's) NVContext" where
  "idr_request every ctx =
     (let ctx = (if 0 < every \<and> encFrameNum ctx mod every = 0 then ctx\<lparr>encForceIdr := True\<rparr> else ctx)
      in if 0 < encStartupIdrLeft ctx then ctx\<lparr>encForceIdr := True\<rparr> else ctx)"

text \<open>
  The retry after a rejected input size: reconfigure to the copied size, submit again, and fall back to
  the context's size.
\<close>

definition resized_params :: "u32 \<Rightarrow> u32 \<Rightarrow> NV_ENC_INITIALIZE_PARAMS \<Rightarrow> NV_ENC_INITIALIZE_PARAMS" where
  "resized_params cw ch ip =
     ip\<lparr>encodeWidth := cw, encodeHeight := ch, darWidth := cw, darHeight := ch,
        maxEncodeWidth := (if maxEncodeWidth ip < cw then cw else maxEncodeWidth ip),
        maxEncodeHeight := (if maxEncodeHeight ip < ch then ch else maxEncodeHeight ip)\<rparr>"

definition resize_encoder ::
  "('w, 'x) nvenc_api_scheme \<Rightarrow> u32 \<Rightarrow> u32 \<Rightarrow> u32 \<Rightarrow> ('c, 's) NVContext \<Rightarrow> 'w \<Rightarrow> bool \<times> ('c, 's) NVContext \<times> 'w" where
  "resize_encoder api startupIdr cw ch ctx w =
     (case nvEncReconfigureEncoder api of
        None \<Rightarrow> (False, ctx, w)
      | Some reconfigure \<Rightarrow>
          let ip = resized_params cw ch (encInitParams ctx);
              (rnvs, w) = reconfigure (nvencEncoder ctx) ip (encConfig ctx) w
          in if rnvs = NV_ENC_SUCCESS
             then let (now, w) = getMonotonicNs api w
                  in (True, ctx\<lparr>encInitParams := ip, cx_width := cw, cx_height := ch, encLastReconfigureNs := now,
                              encStartupIdrLeft := startupIdr\<rparr>, w)
             else (False, ctx, w))"

definition submit_picture ::
  "('w, 'x) nvenc_api_scheme \<Rightarrow> u32 \<Rightarrow> NV_ENC_PIC_PARAMS \<Rightarrow> ('c, 's) NVContext \<Rightarrow> 'w \<Rightarrow> NVENCSTATUS \<times> ('c, 's) NVContext \<times> 'w" where
  "submit_picture api startupIdr pp ctx w =
     (let (nvs, w) = nvEncEncodePicture api (nvencEncoder ctx) pp w in
      if nvs = NV_ENC_ERR_INVALID_PARAM \<and> (pp_inputWidth pp \<noteq> cx_width ctx \<or> pp_inputHeight pp \<noteq> cx_height ctx)
      then let (ok, ctx, w) = resize_encoder api startupIdr (pp_inputWidth pp) (pp_inputHeight pp) ctx w;
               (nvs, w) = (if ok then nvEncEncodePicture api (nvencEncoder ctx) pp w else (nvs, w))
           in if nvs = NV_ENC_ERR_INVALID_PARAM
              then let (nvs, w) = nvEncEncodePicture api (nvencEncoder ctx)
                         (pp\<lparr>pp_inputWidth := cx_width ctx, pp_inputHeight := cx_height ctx\<rparr>) w
                   in (nvs, ctx, w)
              else (nvs, ctx, w)
      else (nvs, ctx, w))"

section \<open>The coded buffer\<close>

definition VA_CODED_BUF_STATUS_SLICE_OVERFLOW_MASK :: u32 where
  "VA_CODED_BUF_STATUS_SLICE_OVERFLOW_MASK = 0x200"

definition next_slot :: "nat \<Rightarrow> ('c, 's) NVContext \<Rightarrow> u32" where
  "next_slot ioSlot ctx = (of_nat ioSlot + 1) mod nvencIoBufferCount ctx"

definition need_more_input ::
  "('w, 'x) nvenc_api_scheme \<Rightarrow> addr \<Rightarrow> addr \<Rightarrow> addr \<Rightarrow> nat \<Rightarrow> ('c, 's) NVContext \<Rightarrow> ('c, 's, 'z) drv \<Rightarrow> 'w \<Rightarrow>
   (VAStatus \<times> ('c, 's, 'z) drv \<times> 'w) option" where
  "need_more_input api ca sa ba ioSlot ctx d w = do {
     b \<leftarrow> get_buffer d ba;
     let ctx = ctx\<lparr>encNeedMoreInputStreak := encNeedMoreInputStreak ctx + 1\<rparr>;
     let d = put_obj ca (PContext ctx) (put_obj ba (PBuffer (b\<lparr>codedSegStatus := 0, codedSegSize := 0\<rparr>)) d);
     let (ok, w) = cuCtxPopCurrent api w;
     if \<not> ok then Some (VA_STATUS_ERROR_OPERATION_FAILED, d, w)
     else do {
       let ctx = ctx\<lparr>encFrameNum := encFrameNum ctx + 1, encForceIdr := False, nvencIoBufferIndex := next_slot ioSlot ctx\<rparr>;
       d \<leftarrow> surface_ready sa (put_obj ca (PContext ctx) d);
       Some (VA_STATUS_SUCCESS, d, w)
     }
   }"

text \<open>\<open>seg_size\<close> is the size of the segment struct at the start of the coded block.\<close>

definition store_bitstream :: "nat \<Rightarrow> addr \<Rightarrow> u8 list \<Rightarrow> ('c, 's, 'z) drv \<Rightarrow> ('c, 's, 'z) drv option" where
  "store_bitstream seg_size ba bits d = do {
     b \<leftarrow> get_buffer d ba;
     let overflow = unat (codedCapacity b) < length bits;
     let copySize = (if overflow then unat (codedCapacity b) else length bits);
     d \<leftarrow> mem_write d (codedData b) seg_size (map Some (take copySize bits));
     Some (put_obj ba (PBuffer (b\<lparr>codedSegStatus := (if overflow then VA_CODED_BUF_STATUS_SLICE_OVERFLOW_MASK else 0),
                                  codedSegSize := of_nat copySize\<rparr>)) d)
   }"

definition count_output :: "nat \<Rightarrow> ('c, 's) NVContext \<Rightarrow> ('c, 's) NVContext" where
  "count_output ioSlot ctx =
     (let n = encOutputFrameCount ctx + 1
      in ctx\<lparr>encOutputFrameCount := n,
             encLastHealthLogFrame :=
               (if n = 1 then 1 else if encLastHealthLogFrame ctx + 900 \<le> n then n else encLastHealthLogFrame ctx),
             encFrameNum := encFrameNum ctx + 1, encForceIdr := False,
             encStartupIdrLeft := (if 0 < encStartupIdrLeft ctx then encStartupIdrLeft ctx - 1 else encStartupIdrLeft ctx),
             nvencIoBufferIndex := next_slot ioSlot ctx\<rparr>)"

definition collect_output ::
  "('w, 'x) nvenc_api_scheme \<Rightarrow> nat \<Rightarrow> addr \<Rightarrow> addr \<Rightarrow> addr \<Rightarrow> nat \<Rightarrow> addr \<Rightarrow> ('c, 's) NVContext \<Rightarrow> ('c, 's, 'z) drv \<Rightarrow> 'w \<Rightarrow>
   (VAStatus \<times> ('c, 's, 'z) drv \<times> 'w) option" where
  "collect_output api seg_size ca sa ba ioSlot outb ctx d w =
     (let (nvs, bits, w) = nvEncLockBitstream api (nvencEncoder ctx) outb w in
      if nvs \<noteq> NV_ENC_SUCCESS then fail_frame api sa nvs d w
      else do {
        let ctx = ctx\<lparr>encNeedMoreInputStreak := 0\<rparr>;
        d \<leftarrow> store_bitstream seg_size ba bits (put_obj ca (PContext ctx) d);
        let w = snd (nvEncUnlockBitstream api (nvencEncoder ctx) outb w);
        let (ok, w) = cuCtxPopCurrent api w;
        if \<not> ok then Some (VA_STATUS_ERROR_OPERATION_FAILED, d, w)
        else do {
          d \<leftarrow> surface_ready sa (put_obj ca (PContext (count_output ioSlot ctx)) d);
          Some (VA_STATUS_SUCCESS, d, w)
        }
      })"

section \<open>The frame\<close>

definition encode_frame ::
  "('w, 'x) nvenc_api_scheme \<Rightarrow> nat \<Rightarrow> addr \<Rightarrow> addr \<Rightarrow> addr \<Rightarrow> nat \<Rightarrow> addr \<Rightarrow> addr \<Rightarrow> ('c, 's) NVContext \<Rightarrow> ('c, 's, 'z) drv \<Rightarrow> 'w \<Rightarrow>
   (VAStatus \<times> ('c, 's, 'z) drv \<times> 'w) option" where
  "encode_frame api seg_size ca sa ba ioSlot inb outb ctx d w = do {
     let (nvs, dst, dpitch, w) = nvEncLockInputBuffer api (nvencEncoder ctx) inb w;
     if nvs \<noteq> NV_ENC_SUCCESS then fail_frame api sa nvs d w
     else do {
       s \<leftarrow> get_surface d sa;
       let (srcX, srcY, copyWidth, copyHeight) = copy_rect ctx s;
       (dst, d) \<leftarrow> fill_input ctx sa dpitch dst d;
       let (nvs, w) = nvEncUnlockInputBuffer api (nvencEncoder ctx) inb dst w;
       if nvs \<noteq> NV_ENC_SUCCESS then fail_frame api sa nvs d w
       else do {
         let ctx = idr_request (g_encForceIdrEvery d) ctx;
         let pp = \<lparr>pp_inputBuffer = inb, pp_inputPitch = dpitch, pp_inputWidth = copyWidth, pp_inputHeight = copyHeight,
                   pp_outputBitstream = outb, pp_inputTimeStamp = encFrameNum ctx,
                   pp_forceIdr = encForceIdr ctx \<or> encFrameNum ctx = 0\<rparr>;
         let (nvs, ctx, w) = submit_picture api (g_encStartupIdrFrames d) pp ctx w;
         let d = put_obj ca (PContext ctx) d;
         if nvs \<noteq> NV_ENC_SUCCESS \<and> nvs \<noteq> NV_ENC_ERR_NEED_MORE_INPUT then fail_frame api sa nvs d w
         else if nvs = NV_ENC_ERR_NEED_MORE_INPUT then need_more_input api ca sa ba ioSlot ctx d w
         else collect_output api seg_size ca sa ba ioSlot outb ctx d w
       }
     }
   }"

definition encode_target :: "('c, 's, 'z) drv \<Rightarrow> ('c, 's) NVContext \<Rightarrow> (addr option \<times> addr option) option" where
  "encode_target d ctx = do {
     sa \<leftarrow> getObjectPtr d OBJECT_TYPE_SURFACE (encCurrentSurface ctx);
     ba \<leftarrow> getObjectPtr d OBJECT_TYPE_BUFFER (encCodedBufId ctx);
     su \<leftarrow> (if sa = NULL then Some False else do { s \<leftarrow> get_surface d sa; Some (hostData s \<noteq> NULL) });
     bu \<leftarrow> (if ba = NULL then Some False else do { b \<leftarrow> get_buffer d ba; Some (codedData b \<noteq> NULL \<and> codedCapacity b \<noteq> 0) });
     Some (if su then Some sa else None, if bu then Some ba else None)
   }"

definition end_encode ::
  "('w, 'x) nvenc_api_scheme \<Rightarrow> nat \<Rightarrow> addr \<Rightarrow> ('c, 's) NVContext \<Rightarrow> ('c, 's, 'z) drv \<Rightarrow> 'w \<Rightarrow> (VAStatus \<times> ('c, 's, 'z) drv \<times> 'w) option" where
  "end_encode api seg_size ca ctx d w =
     (if encCurrentSurface ctx = VA_INVALID_SURFACE then Some (VA_STATUS_ERROR_INVALID_SURFACE, d, w)
      else if \<not> encHasCodedBuf ctx then Some (VA_STATUS_ERROR_INVALID_BUFFER, d, w)
      else do {
        target \<leftarrow> encode_target d ctx;
        case target of
          (None, _) \<Rightarrow> Some (VA_STATUS_ERROR_INVALID_SURFACE, d, w)
        | (_, None) \<Rightarrow> Some (VA_STATUS_ERROR_INVALID_BUFFER, d, w)
        | (Some sa, Some ba) \<Rightarrow>
            if nvencIoBufferCount ctx = 0 then Some (VA_STATUS_ERROR_OPERATION_FAILED, d, w)
            else do {
              let ioSlot = unat (nvencIoBufferIndex ctx mod nvencIoBufferCount ctx);
              inb \<leftarrow> nth_c (nvencInputBuffers ctx) ioSlot;
              outb \<leftarrow> nth_c (nvencOutputBuffers ctx) ioSlot;
              if inb = NULL \<or> outb = NULL then Some (VA_STATUS_ERROR_OPERATION_FAILED, d, w)
              else do {
                let (vas, ctx, w) = nvencReconfigureIfNeeded api (g_encReconfigureMinMs d) (g_encStartupIdrFrames d) (ctx, w);
                let d = put_obj ca (PContext ctx) d;
                if vas \<noteq> VA_STATUS_SUCCESS then do { d \<leftarrow> surface_ready sa d; Some (vas, d, w) }
                else do {
                  let (ok, w) = cuCtxPushCurrent api w;
                  if \<not> ok then Some (VA_STATUS_ERROR_OPERATION_FAILED, d, w)
                  else encode_frame api seg_size ca sa ba ioSlot inb outb ctx d w
                }
              }
            }
      })"

section \<open>Cells of a pitched block\<close>

lemma cell_in_line:
  fixes r c p k w R :: nat
  assumes "c < p" "k + w \<le> p"
  shows "(R * p + k \<le> r * p + c \<and> r * p + c < R * p + k + w) \<longleftrightarrow> r = R \<and> k \<le> c \<and> c < k + w"
proof (cases r R rule: linorder_cases)
  case less
  then have "Suc r * p \<le> R * p" by (simp only: mult_le_mono1 Suc_le_eq)
  then show ?thesis using assms less by simp
next
  case greater
  then have "Suc R * p \<le> r * p" by (simp only: mult_le_mono1 Suc_le_eq)
  then show ?thesis using assms greater by simp
qed auto

text \<open>
  \<open>cells p f dst dst'\<close>: seen as rows of \<open>p\<close> bytes, \<open>f\<close> gives every new cell from the
  old one.
\<close>

definition cells :: "nat \<Rightarrow> (nat \<Rightarrow> nat \<Rightarrow> u8 option \<Rightarrow> u8 option) \<Rightarrow> block \<Rightarrow> block \<Rightarrow> bool" where
  "cells p f dst dst' \<longleftrightarrow> length dst' = length dst \<and>
     (\<forall>r c. c < p \<longrightarrow> r * p + c < length dst \<longrightarrow> dst' ! (r * p + c) = f r c (dst ! (r * p + c)))"

lemma cells_trans:
  assumes "cells p f a b" "cells p g b c"
  shows "cells p (\<lambda>r k v. g r k (f r k v)) a c"
  using assms by (simp add: cells_def)

lemma cells_id: "cells p (\<lambda>r c v. v) a a"
  by (simp add: cells_def)

lemma write_lines_cells:
  assumes "\<And>y. y0 \<le> y \<Longrightarrow> y < y0 + n \<Longrightarrow> line y = Some (row y) \<and> length (row y) = w" "k + w \<le> p"
    "(b + y0 + n) * p \<le> length dst"
  shows "\<exists>dst'. write_lines (b * p + k) p line y0 n dst = Some dst' \<and>
    cells p (\<lambda>r c v. if b + y0 \<le> r \<and> r < b + y0 + n \<and> k \<le> c \<and> c < k + w then row (r - b) ! (c - k) else v) dst dst'"
  using assms(1,3)
proof (induction n)
  case 0
  then show ?case by (auto simp: cells_def)
next
  case (Suc n)
  have "(b + y0 + n) * p \<le> (b + y0 + Suc n) * p" by (rule mult_le_mono1) simp
  then obtain d1 where d1: "write_lines (b * p + k) p line y0 n dst = Some d1"
      "cells p (\<lambda>r c v. if b + y0 \<le> r \<and> r < b + y0 + n \<and> k \<le> c \<and> c < k + w then row (r - b) ! (c - k) else v) dst d1"
    using Suc.IH Suc.prems by (metis (no_types, lifting) add_Suc_right le_trans less_SucI)
  have l: "line (y0 + n) = Some (row (y0 + n))" "length (row (y0 + n)) = w" using Suc.prems(1) by simp_all
  let ?off = "(b + y0 + n) * p + k"
  have o: "b * p + k + (y0 + n) * p = ?off" by (simp add: algebra_simps)
  have len: "length d1 = length dst" using d1(2) by (simp add: cells_def)
  have fit: "?off + w \<le> length d1" using Suc.prems(2) assms(2) len by (simp add: algebra_simps)
  let ?d2 = "splice d1 ?off (row (y0 + n))"
  have w: "write_lines (b * p + k) p line y0 (Suc n) dst = Some ?d2"
    using d1(1) l fit by (simp add: o blk_write_def)
  have "?d2 ! (r * p + c) = (if b + y0 \<le> r \<and> r < b + y0 + Suc n \<and> k \<le> c \<and> c < k + w then row (r - b) ! (c - k) else dst ! (r * p + c))"
    if "c < p" "r * p + c < length dst" for r c
  proof -
    have s: "?d2 ! (r * p + c) = (if r = b + y0 + n \<and> k \<le> c \<and> c < k + w then row (y0 + n) ! (r * p + c - ?off) else d1 ! (r * p + c))"
      using splice_nth[of ?off "row (y0 + n)" d1 "r * p + c"] fit l(2) that len
        cell_in_line[OF that(1) assms(2), of "b + y0 + n" r] by simp
    have "d1 ! (r * p + c) = (if b + y0 \<le> r \<and> r < b + y0 + n \<and> k \<le> c \<and> c < k + w then row (r - b) ! (c - k) else dst ! (r * p + c))"
      using d1(2) that by (simp add: cells_def)
    then show ?thesis using s by auto
  qed
  then show ?case using w len fit l(2) by (intro exI[of _ ?d2]) (simp add: cells_def)
qed

text \<open>The two kinds of lines.\<close>

lemma memset_cells:
  assumes "k + w \<le> p" "(b + y0 + n) * p \<le> length dst"
  shows "\<exists>dst'. write_lines (b * p + k) p (memset_line v w) y0 n dst = Some dst' \<and>
    cells p (\<lambda>r c x. if b + y0 \<le> r \<and> r < b + y0 + n \<and> k \<le> c \<and> c < k + w then Some v else x) dst dst'"
proof -
  obtain dst' where "write_lines (b * p + k) p (memset_line v w) y0 n dst = Some dst'" 
      "cells p (\<lambda>r c x. if b + y0 \<le> r \<and> r < b + y0 + n \<and> k \<le> c \<and> c < k + w then replicate w (Some v) ! (c - k) else x) dst dst'"
    using write_lines_cells[of y0 n "memset_line v w" "\<lambda>_. replicate w (Some v)" w k p b dst] assms
    by (auto simp: memset_line_def)
  then show ?thesis by (intro exI[of _ dst']) (auto simp: cells_def)
qed

lemma memcpy_cells:
  assumes "w \<le> p" "(b + n) * p \<le> length dst" "\<And>y. y < n \<Longrightarrow> base + y * sp + w \<le> length src"
  shows "\<exists>dst'. write_lines (b * p) p (memcpy_line src base sp w) 0 n dst = Some dst' \<and>
    cells p (\<lambda>r c x. if b \<le> r \<and> r < b + n \<and> c < w then src ! (base + (r - b) * sp + c) else x) dst dst'"
proof -
  let ?row = "\<lambda>y. take w (drop (base + y * sp) src)"
  have "memcpy_line src base sp w y = Some (?row y) \<and> length (?row y) = w" if "y < 0 + n" for y
    using assms(3)[of y] that by (simp add: memcpy_line_def read_bytes_def)
  then obtain dst' where d: "write_lines (b * p + 0) p (memcpy_line src base sp w) 0 n dst = Some dst'"
      "cells p (\<lambda>r c x. if b + 0 \<le> r \<and> r < b + 0 + n \<and> 0 \<le> c \<and> c < 0 + w then ?row (r - b) ! (c - 0) else x) dst dst'"
    using write_lines_cells[of 0 n "memcpy_line src base sp w" ?row w 0 p b dst] assms(1,2) by auto
  have "?row (r - b) ! c = src ! (base + (r - b) * sp + c)" if "b \<le> r" "r < b + n" "c < w" for r c
  proof -
    have "base + (r - b) * sp + w \<le> length src" using assms(3) that by simp
    then show ?thesis using that by simp
  qed
  then show ?thesis using d by (intro exI[of _ dst']) (auto simp: cells_def)
qed

text \<open>The picture the encoder gets: the copied rectangle, black elsewhere.\<close>

definition picture ::
  "nat \<Rightarrow> nat \<Rightarrow> nat \<Rightarrow> nat \<Rightarrow> nat \<Rightarrow> nat \<Rightarrow> block \<Rightarrow> nat \<Rightarrow> nat \<Rightarrow> nat \<Rightarrow> block \<Rightarrow> bool" where
  "picture encW encH srcX srcY copyW copyH src spitch ySize dpitch dst \<longleftrightarrow>
     (\<forall>r < encH. \<forall>c < encW.
        px dst 0 dpitch r c = (if r < copyH \<and> c < copyW then px src 0 spitch (srcY + r) (srcX + c) else Some 0)) \<and>
     (\<forall>r < encH div 2. \<forall>c < encW.
        px dst (encH * dpitch) dpitch r c =
          (if r < copyH div 2 \<and> c < copyW then px src ySize spitch (srcY div 2 + r) (srcX + c) else Some 0x80))"

text \<open>The rectangle lies in both planes of the source, the input buffer has all rows.\<close>

definition copy_fits ::
  "nat \<Rightarrow> nat \<Rightarrow> nat \<Rightarrow> nat \<Rightarrow> nat \<Rightarrow> nat \<Rightarrow> block \<Rightarrow> nat \<Rightarrow> nat \<Rightarrow> nat \<Rightarrow> block \<Rightarrow> bool" where
  "copy_fits encW encH srcX srcY copyW copyH src spitch ySize dpitch dst \<longleftrightarrow>
     copyW \<le> encW \<and> copyH \<le> encH \<and> encW \<le> dpitch \<and> (encH + encH div 2) * dpitch \<le> length dst \<and>
     srcX + copyW \<le> spitch \<and> (srcY + copyH) * spitch \<le> ySize \<and>
     ySize + (srcY div 2 + copyH div 2) * spitch \<le> length src"

lemma row_below:
  fixes r c p n L :: nat
  assumes "r < n" "c < p" "n * p \<le> L"
  shows "r * p + c < L"
proof -
  have "Suc r * p \<le> n * p" using assms(1) by (intro mult_le_mono1) simp
  then show ?thesis using assms by simp
qed

text \<open>Reading pixels off cell functions.\<close>

lemma picture_of_cells:
  assumes "cells p f dst dst'" "(H + H div 2) * p \<le> length dst" "W \<le> p"
    "\<And>r c v. r < H \<Longrightarrow> c < W \<Longrightarrow> f r c v = (if r < ch \<and> c < cw then px src 0 sp (sy + r) (sx + c) else Some 0)"
    "\<And>r c v. r < H div 2 \<Longrightarrow> c < W \<Longrightarrow>
       f (H + r) c v = (if r < ch div 2 \<and> c < cw then px src ys sp (sy div 2 + r) (sx + c) else Some 0x80)"
  shows "picture W H sx sy cw ch src sp ys p dst'"
proof -
  have "dst' ! (r * p + c) = f r c (dst ! (r * p + c))" if "r < H + H div 2" "c < W" for r c
    using assms(1) row_below[OF that(1), of c p] that(2) assms(2,3) by (simp add: cells_def)
  moreover have "px dst' (H * p) p r c = dst' ! ((H + r) * p + c)" for r c
    by (simp add: px_def algebra_simps)
  ultimately show ?thesis unfolding picture_def using assms(4,5) by (auto simp: px_def[of dst' 0])
qed

text \<open>Two constant fills, skipped when there is nothing to fill.\<close>

lemma padding_cells:
  assumes "k + w \<le> p" "(y0 + n) * p \<le> length dst" "(H + y1 + m) * p \<le> length dst" "\<not> go \<Longrightarrow> w = 0 \<or> n = 0 \<and> m = 0"
  shows "\<exists>dst'. (if go then do {
      dst \<leftarrow> write_lines k p (memset_line 0 w) y0 n dst;
      write_lines (H * p + k) p (memset_line 0x80 w) y1 m dst
    } else Some dst) = Some dst' \<and>
    cells p (\<lambda>r c x. if H + y1 \<le> r \<and> r < H + y1 + m \<and> k \<le> c \<and> c < k + w then Some 0x80
                     else if y0 \<le> r \<and> r < y0 + n \<and> k \<le> c \<and> c < k + w then Some 0 else x) dst dst'"
proof (cases go)
  case False
  then show ?thesis using assms(4) by (auto simp: cells_def)
next
  case True
  obtain d1 where d1: "write_lines (0 * p + k) p (memset_line 0 w) y0 n dst = Some d1"
      "cells p (\<lambda>r c x. if 0 + y0 \<le> r \<and> r < 0 + y0 + n \<and> k \<le> c \<and> c < k + w then Some 0 else x) dst d1"
    using memset_cells[of k w p 0 y0 n dst 0] assms(1,2) by auto
  have "length d1 = length dst" using d1(2) by (simp add: cells_def)
  then obtain d2 where d2: "write_lines (H * p + k) p (memset_line 0x80 w) y1 m d1 = Some d2"
      "cells p (\<lambda>r c x. if H + y1 \<le> r \<and> r < H + y1 + m \<and> k \<le> c \<and> c < k + w then Some 0x80 else x) d1 d2"
    using memset_cells[of k w p H y1 m d1 "0x80"] assms(1,3) by auto
  show ?thesis using True d1(1) d2(1) cells_trans[OF d1(2)[unfolded add_0] d2(2)] by simp
qed

lemma copy_slow_picture:
  assumes "copy_fits W H sx sy cw ch src sp ys p dst"
  shows "\<exists>dst'. copy_slow W H sx sy cw ch src sp ys p dst = Some dst' \<and> length dst' = length dst \<and>
    picture W H sx sy cw ch src sp ys p dst'"
proof -
  note f = assms[unfolded copy_fits_def]
  have rows: "n * p \<le> length dst" if "n \<le> H + H div 2" for n
    using mult_le_mono1[OF that, of p] f by linarith
  have half: "ch div 2 \<le> H div 2" using f by (simp add: div_le_mono)
  have sY: "sy * sp + sx + y * sp + cw \<le> length src" if "y < ch" for y
    using plane_bounds[of "sy + y" "sy + ch" "sy + ch" "sx + cw" sp] that f by (simp add: algebra_simps)
  have sUV: "ys + sy div 2 * sp + sx + y * sp + cw \<le> length src" if "y < ch div 2" for y
    using plane_bounds[of "sy div 2 + y" "sy div 2 + ch div 2" "sy div 2 + ch div 2" "sx + cw" sp] that f
    by (simp add: algebra_simps)
  obtain d1 where d1: "write_lines 0 p (memcpy_line src (sy * sp + sx) sp cw) 0 ch dst = Some d1"
      "cells p (\<lambda>r c x. if r < ch \<and> c < cw then src ! (sy * sp + sx + r * sp + c) else x) dst d1"
    using memcpy_cells[of cw p 0 ch dst "sy * sp + sx" sp src] rows[of ch] sY f by auto
  then have l1: "length d1 = length dst" by (simp add: cells_def)
  obtain d2 where d2: "write_lines (H * p) p (memcpy_line src (ys + sy div 2 * sp + sx) sp cw) 0 (ch div 2) d1 = Some d2"
      "cells p (\<lambda>r c x. if H \<le> r \<and> r < H + ch div 2 \<and> c < cw then src ! (ys + sy div 2 * sp + sx + (r - H) * sp + c) else x) d1 d2"
    using memcpy_cells[of cw p H "ch div 2" d1 "ys + sy div 2 * sp + sx" sp src] rows[of "H + ch div 2"] half sUV f l1 by auto
  then have l2: "length d2 = length dst" using l1 by (simp add: cells_def)
  obtain d3 where d3: "(if cw < W then do {
        dst \<leftarrow> write_lines cw p (memset_line 0 (W - cw)) 0 ch d2;
        write_lines (H * p + cw) p (memset_line 0x80 (W - cw)) 0 (ch div 2) dst
      } else Some d2) = Some d3"
      "cells p (\<lambda>r c x. if H + 0 \<le> r \<and> r < H + 0 + ch div 2 \<and> cw \<le> c \<and> c < cw + (W - cw) then Some 0x80
         else if 0 \<le> r \<and> r < 0 + ch \<and> cw \<le> c \<and> c < cw + (W - cw) then Some 0 else x) d2 d3"
    using padding_cells[of cw "W - cw" p 0 ch d2 H 0 "ch div 2" "cw < W"] rows[of ch] rows[of "H + ch div 2"] half f l2 by auto
  then have l3: "length d3 = length dst" using l2 by (simp add: cells_def)
  obtain d4 where d4: "(if ch < H then do {
        dst \<leftarrow> write_lines 0 p (memset_line 0 W) ch (H - ch) d3;
        write_lines (H * p + 0) p (memset_line 0x80 W) (ch div 2) (H div 2 - ch div 2) dst
      } else Some d3) = Some d4"
      "cells p (\<lambda>r c x. if H + ch div 2 \<le> r \<and> r < H + ch div 2 + (H div 2 - ch div 2) \<and> 0 \<le> c \<and> c < 0 + W then Some 0x80
         else if ch \<le> r \<and> r < ch + (H - ch) \<and> 0 \<le> c \<and> c < 0 + W then Some 0 else x) d3 d4"
    using padding_cells[of 0 W p ch "H - ch" d3 H "ch div 2" "H div 2 - ch div 2" "ch < H"] rows[of H] rows[of "H + H div 2"] half f l3
    by auto
  then have l4: "length d4 = length dst" using l3 by (simp add: cells_def)
  have c: "copy_slow W H sx sy cw ch src sp ys p dst = Some d4"
    using d1(1) d2(1) d3(1) d4(1) by (simp add: copy_slow_def Let_def cong: if_cong)
  have "picture W H sx sy cw ch src sp ys p d4"
    by (rule picture_of_cells[OF cells_trans[OF cells_trans[OF cells_trans[OF d1(2) d2(2)] d3(2)] d4(2)]])
      (use f half in \<open>auto simp: px_def algebra_simps\<close>)
  then show ?thesis using c l4 by blast
qed

lemma copy_fast_picture:
  assumes "copy_fits W H 0 0 W H src p ys p dst"
  shows "\<exists>dst'. copy_fast H src ys p dst = Some dst' \<and> length dst' = length dst \<and> picture W H 0 0 W H src p ys p dst'"
proof -
  note f = assms[unfolded copy_fits_def]
  let ?d1 = "splice dst 0 (take (H * p) src)"
  let ?uv = "take (H div 2 * p) (drop ys src)"
  let ?d2 = "splice ?d1 (H * p) ?uv"
  have b: "H * p \<le> length src" "ys + H div 2 * p \<le> length src" "H * p + H div 2 * p \<le> length dst"
    using f by (simp_all add: algebra_simps)
  have l: "length ?d1 = length dst" "length ?d2 = length dst" using b by simp_all
  have e: "copy_fast H src ys p dst = Some ?d2"
    using b l by (simp add: copy_fast_def read_bytes_def blk_write_def)
  have n: "?d2 ! i = (if i < H * p then src ! i else if i < H * p + H div 2 * p then src ! (ys + (i - H * p)) else dst ! i)"
    if "i < length dst" for i
    using splice_nth[of "H * p" ?uv ?d1 i] splice_nth[of 0 "take (H * p) src" dst i] b l that by auto
  have "?d2 ! (r * p + c) = src ! (r * p + c)" if "r < H" "c < W" for r c
  proof -
    have "r * p + c < H * p" using row_below[of r H c p "H * p"] that f by simp
    then show ?thesis using n[of "r * p + c"] b(3) by simp
  qed
  moreover have "?d2 ! (H * p + r * p + c) = src ! (ys + r * p + c)" if "r < H div 2" "c < W" for r c
  proof -
    have "r * p + c < H div 2 * p" using row_below[of r "H div 2" c p "H div 2 * p"] that f by simp
    then show ?thesis using n[of "H * p + r * p + c"] b(3) by (simp add: add.assoc)
  qed
  ultimately have "picture W H 0 0 W H src p ys p ?d2" by (simp add: picture_def px_def)
  then show ?thesis using e l(2) by blast
qed

lemma copy_picture_picture:
  assumes "copy_fits W H sx sy cw ch src sp ys p dst"
  shows "\<exists>dst'. copy_picture W H sx sy cw ch src sp ys p dst = Some dst' \<and> length dst' = length dst \<and>
    picture W H sx sy cw ch src sp ys p dst'"
  using copy_slow_picture[OF assms] copy_fast_picture assms unfolding copy_picture_def by auto

section \<open>The copied rectangle lies in the surface\<close>

text \<open>The surface is at least as large as the picture the context encodes.\<close>

definition covers :: "NVSurface \<Rightarrow> ('c, 's) NVContext \<Rightarrow> bool" where
  "covers s ctx \<longleftrightarrow> cx_width ctx \<le> sf_width s \<and> cx_height ctx \<le> sf_height s \<and>
     unat (sf_width s) \<le> 2 ^ 31 \<and> unat (sf_height s) \<le> 2 ^ 31"

lemma unat_min32 [simp]: "unat (min32 a b) = min (unat a) (unat b)"
  by (simp add: min32_def unat_min)

lemma whole_rect_inside:
  assumes "whole_rect W H s = (x, y, w, h)"
  shows "unat x + unat w \<le> unat (sf_width s) \<and> unat y + unat h \<le> unat (sf_height s) \<and> unat w \<le> unat W \<and> unat h \<le> unat H"
  using assms by (auto simp: whole_rect_def)

lemma content_axis:
  assumes "x < (n :: u32)" "unat n \<le> 2 ^ 31" "unat e \<le> 2 ^ 31 - 1"
  shows "unat x + unat (clamp x (min32 w e) n) \<le> unat n" "unat (clamp x (min32 w e) n) \<le> unat e"
proof -
  have x: "unat x < unat n" using assms(1) by (simp add: word_less_nat_alt)
  have "unat (clamp x (min32 w e) n) = min (unat (min32 w e)) (unat n - unat x)"
    by (rule unat_clamp) (use x assms in simp_all)
  then have c: "unat (clamp x (min32 w e) n) \<le> unat n - unat x" "unat (clamp x (min32 w e) n) \<le> unat e" by simp_all
  then show "unat x + unat (clamp x (min32 w e) n) \<le> unat n" "unat (clamp x (min32 w e) n) \<le> unat e" using x by linarith+
qed

lemma source_rect_inside:
  assumes "visible_inside ctx" "covers s ctx" "source_rect ctx s = (x, y, w, h)"
  shows "unat x + unat w \<le> unat (sf_width s) \<and> unat y + unat h \<le> unat (sf_height s) \<and>
    unat w \<le> unat (cx_width ctx) \<and> unat h \<le> unat (cx_height ctx)"
proof -
  have b: "unat (cx_width ctx) \<le> unat (sf_width s)" "unat (cx_height ctx) \<le> unat (sf_height s)"
    "unat (cx_width ctx) \<le> 2 ^ 31 - 1" "unat (cx_height ctx) \<le> 2 ^ 31 - 1"
    using assms(1,2) by (simp_all add: covers_def visible_inside_def word_le_nat_alt)
  consider (vis) "encVisibleValid ctx" "0 < encVisibleWidth ctx" "0 < encVisibleHeight ctx"
    | (whole) "whole_rect (cx_width ctx) (cx_height ctx) s = (x, y, w, h)"
    | (content) "contentX s < sf_width s" "contentY s < sf_height s" "x = contentX s" "y = contentY s"
        "w = clamp x (min32 (contentWidth s) (cx_width ctx)) (sf_width s)"
        "h = clamp y (min32 (contentHeight s) (cx_height ctx)) (sf_height s)"
    using assms(3) by (fastforce simp: source_rect_def Let_def not_le split: if_splits)
  then show ?thesis
  proof cases
    case vis
    then have "x = encVisibleX ctx" "y = encVisibleY ctx" "w = min32 (encVisibleWidth ctx) (cx_width ctx)"
      "h = min32 (encVisibleHeight ctx) (cx_height ctx)"
      using assms(3) by (simp_all add: source_rect_def Let_def)
    then show ?thesis using assms(1) vis(1) b by (simp add: visible_inside_def)
  next
    case whole
    then show ?thesis by (rule whole_rect_inside)
  next
    case content
    show ?thesis
      using content_axis[OF content(1), of "cx_width ctx" "contentWidth s"] content_axis[OF content(2), of "cx_height ctx" "contentHeight s"]
        assms(2) b(3,4) content(3-6) by (simp add: covers_def)
  qed
qed

lemma copy_rect_inside:
  assumes "visible_inside ctx" "covers s ctx" "copy_rect ctx s = (x, y, w, h)"
  shows "unat x + unat w \<le> unat (sf_width s)" "unat y + unat h \<le> unat (sf_height s)"
    "unat w \<le> unat (cx_width ctx)" "unat h \<le> unat (cx_height ctx)"
    "even (unat x)" "even (unat y)" "even (unat w)" "even (unat h)"
proof -
  obtain x0 y0 w0 h0 where r: "source_rect ctx s = (x0, y0, w0, h0)" using prod_cases4 by blast
  note i = source_rect_inside[OF assms(1,2) r]
  have b: "unat (cx_width ctx) \<le> unat (sf_width s)" "unat (cx_height ctx) \<le> unat (sf_height s)"
    using assms(2) by (simp_all add: covers_def word_le_nat_alt)
  have d: "2 * (n div 2) \<le> n" for n :: nat by simp
  have e: "(x, y, w, h) = (0, 0, even_down (cx_width ctx), even_down (cx_height ctx)) \<or>
    (x, y, w, h) = (even_down x0, even_down y0, even_down w0, even_down h0)"
    using assms(3) unfolding copy_rect_def r Let_def prod.case by (metis (full_types))
  have "2 * (unat x0 div 2) + 2 * (unat w0 div 2) \<le> unat (sf_width s)" "2 * (unat y0 div 2) + 2 * (unat h0 div 2) \<le> unat (sf_height s)"
    using i d[of "unat x0"] d[of "unat w0"] d[of "unat y0"] d[of "unat h0"] by linarith+
  moreover have "2 * (unat w0 div 2) \<le> unat (cx_width ctx)" "2 * (unat h0 div 2) \<le> unat (cx_height ctx)"
    using i d[of "unat w0"] d[of "unat h0"] by linarith+
  moreover have "2 * (unat (cx_width ctx) div 2) \<le> unat (sf_width s)" "2 * (unat (cx_height ctx) div 2) \<le> unat (sf_height s)"
    using b d[of "unat (cx_width ctx)"] d[of "unat (cx_height ctx)"] by linarith+
  ultimately show "unat x + unat w \<le> unat (sf_width s)" "unat y + unat h \<le> unat (sf_height s)"
    "unat w \<le> unat (cx_width ctx)" "unat h \<le> unat (cx_height ctx)" 
    using e by auto
  show "even (unat x)" "even (unat y)" "even (unat w)" "even (unat h)" using e by auto
qed

text \<open>An input buffer as the encoder library documents it: NV12 with whole rows.\<close>

definition input_fits :: "('c, 's) NVContext \<Rightarrow> u32 \<Rightarrow> block \<Rightarrow> bool" where
  "input_fits ctx dpitch dst \<longleftrightarrow> cx_width ctx \<le> dpitch \<and>
     (unat (cx_height ctx) + unat (cx_height ctx) div 2) * unat dpitch \<le> length dst"

lemma surface_copy_fits:
  assumes "layout_ok s" "length hb = unat (hostTotalSize s)" "visible_inside ctx" "covers s ctx"
    "copy_rect ctx s = (x, y, w, h)" "input_fits ctx dpitch dst"
  shows "copy_fits (unat (cx_width ctx)) (unat (cx_height ctx)) (unat x) (unat y) (unat w) (unat h)
    hb (unat (hostPitch s)) (unat (hostYSize s)) (unat dpitch) dst"
proof -
  note r = copy_rect_inside[OF assms(3,4,5)]
  note l = layout_bounds[OF assms(1)]
  have "(unat y + unat h) * unat (hostPitch s) \<le> unat (sf_height s) * unat (hostPitch s)" using r(2) by (rule mult_le_mono1)
  then have a: "(unat y + unat h) * unat (hostPitch s) \<le> unat (hostYSize s)" using l by linarith
  have "unat y div 2 + unat h div 2 \<le> unat (sf_height s) div 2" by (rule halves(1)[OF r(2)])
  then have "(unat y div 2 + unat h div 2) * unat (hostPitch s) \<le> unat (sf_height s) div 2 * unat (hostPitch s)" by (rule mult_le_mono1)
  then have b: "unat (hostYSize s) + (unat y div 2 + unat h div 2) * unat (hostPitch s) \<le> length hb" using l assms(2) by linarith
  show ?thesis unfolding copy_fits_def
    using r a b l assms(6) by (simp add: input_fits_def word_le_nat_alt)
qed

lemma fill_input_spec:
  assumes "surf_inv d" "live d sa s" "hostData s \<noteq> NULL" "\<not> sf_locked s" "visible_inside ctx" "covers s ctx"
    "input_fits ctx dpitch dst" "copy_rect ctx s = (x, y, w, h)"
  shows "\<exists>hb dst'. mem d (hostData s) = Some hb \<and> fill_input ctx sa dpitch dst d = Some (dst', d) \<and> length dst' = length dst \<and>
    picture (unat (cx_width ctx)) (unat (cx_height ctx)) (unat x) (unat y) (unat w) (unat h)
      hb (unat (hostPitch s)) (unat (hostYSize s)) (unat dpitch) dst'"
proof -
  obtain hb where hb: "mem d (hostData s) = Some hb" "length hb = unat (hostTotalSize s)" "layout_ok s"
    using live_host[OF assms(1-3)] by blast
  obtain dst' where c: "copy_picture (unat (cx_width ctx)) (unat (cx_height ctx)) (unat x) (unat y) (unat w) (unat h)
      hb (unat (hostPitch s)) (unat (hostYSize s)) (unat dpitch) dst = Some dst'" "length dst' = length dst"
    "picture (unat (cx_width ctx)) (unat (cx_height ctx)) (unat x) (unat y) (unat w) (unat h)
      hb (unat (hostPitch s)) (unat (hostYSize s)) (unat dpitch) dst'"
    using copy_picture_picture[OF surface_copy_fits[OF hb(3,2) assms(5,6,8,7)]] by blast
  have h: "heap d sa = Some (PSurface s)" using assms(2) by (simp add: live_def)
  then have g: "get_surface d sa = Some s" by (simp add: get_surface_def)
  let ?d1 = "put_obj sa (PSurface (s\<lparr>sf_locked := True\<rparr>)) d"
  have k: "lock_surface sa d = Some ?d1" "unlock_surface sa ?d1 = Some (put_obj sa (PSurface (s\<lparr>sf_locked := False\<rparr>)) d)"
    using g assms(4) by (simp_all add: lock_surface_def unlock_surface_def)
  have "s\<lparr>sf_locked := False\<rparr> = s" using assms(4) by (cases s) simp
  then have u: "unlock_surface sa ?d1 = Some d" using k(2) put_obj_idem[OF h] by simp
  have "fill_input ctx sa dpitch dst d = Some (dst', d)"
    using g assms(8) k(1) u c(1) hb(1) by (simp add: fill_input_def put_obj_def[of sa "PSurface (s\<lparr>sf_locked := True\<rparr>)"])
  then show ?thesis using hb(1) c(2,3) by blast
qed

section \<open>A frame that is encoded\<close>

text \<open>The encoder library takes the picture and yields \<open>bits\<close> for it; its input buffers have the documented size.\<close>

definition frame_works :: "('w, 'x) nvenc_api_scheme \<Rightarrow> ('c, 's) NVContext \<Rightarrow> u8 list \<Rightarrow> bool" where
  "frame_works api ctx bits \<longleftrightarrow> (\<forall>w. fst (cuCtxPushCurrent api w)) \<and> (\<forall>w. fst (cuCtxPopCurrent api w)) \<and>
     (\<forall>e b w. \<exists>dst p w'. nvEncLockInputBuffer api e b w = (NV_ENC_SUCCESS, dst, p, w') \<and> input_fits ctx p dst) \<and>
     (\<forall>e b blk w. fst (nvEncUnlockInputBuffer api e b blk w) = NV_ENC_SUCCESS) \<and>
     (\<forall>e pp w. fst (nvEncEncodePicture api e pp w) = NV_ENC_SUCCESS) \<and>
     (\<forall>e b w. \<exists>w'. nvEncLockBitstream api e b w = (NV_ENC_SUCCESS, bits, w'))"

definition stored :: "u8 list \<Rightarrow> NVBuffer \<Rightarrow> u8 list" where
  "stored bits b = take (unat (codedCapacity b)) bits"

definition coded_result :: "u8 list \<Rightarrow> NVBuffer \<Rightarrow> NVBuffer" where
  "coded_result bits b = b\<lparr>codedSegStatus := (if unat (codedCapacity b) < length bits then VA_CODED_BUF_STATUS_SLICE_OVERFLOW_MASK else 0),
     codedSegSize := of_nat (length (stored bits b))\<rparr>"

lemma store_bitstream_spec:
  assumes "get_buffer d ba = Some b" "mem d (codedData b) = Some cb" "length cb = seg_size + unat (codedCapacity b)"
  shows "store_bitstream seg_size ba bits d =
    Some (put_obj ba (PBuffer (coded_result bits b))
      (d\<lparr>mem := (mem d)(codedData b \<mapsto> splice cb seg_size (map Some (stored bits b)))\<rparr>))"
proof -
  have t: "take (if unat (codedCapacity b) < length bits then unat (codedCapacity b) else length bits) bits = stored bits b"
    by (simp add: stored_def)
  have l: "(if unat (codedCapacity b) < length bits then unat (codedCapacity b) else length bits) = length (stored bits b)"
    by (simp add: stored_def min_def)
  have "mem_write d (codedData b) seg_size (map Some (stored bits b)) =
    Some (d\<lparr>mem := (mem d)(codedData b \<mapsto> splice cb seg_size (map Some (stored bits b)))\<rparr>)"
    using assms(2,3) by (simp add: mem_write_def stored_def)
  then show ?thesis using assms(1) unfolding store_bitstream_def Let_def
    by (simp only: bind.simps t) (simp add: l coded_result_def)
qed

definition encoded_ctx :: "u32 \<Rightarrow> nat \<Rightarrow> ('c, 's) NVContext \<Rightarrow> ('c, 's) NVContext" where
  "encoded_ctx every ioSlot ctx = count_output ioSlot ((idr_request every ctx)\<lparr>encNeedMoreInputStreak := 0\<rparr>)"

definition encoded_drv ::
  "addr \<Rightarrow> ('c, 's) NVContext \<Rightarrow> addr \<Rightarrow> NVSurface \<Rightarrow> addr \<Rightarrow> NVBuffer \<Rightarrow> block \<Rightarrow> ('c, 's, 'z) drv \<Rightarrow> ('c, 's, 'z) drv" where
  "encoded_drv ca ctx sa s ba b blk d = put_obj sa (PSurface (s\<lparr>sf_status := VASurfaceReady\<rparr>)) (put_obj ca (PContext ctx)
     (put_obj ba (PBuffer b) (d\<lparr>mem := (mem d)(codedData b \<mapsto> blk)\<rparr>)))"

lemma collect_output_spec:
  assumes "heap d ca = Some (PContext c0)" "heap d sa = Some (PSurface s)" "heap d ba = Some (PBuffer b)"
    "mem d (codedData b) = Some cb" "length cb = seg_size + unat (codedCapacity b)" "frame_works api c1 bits"
  shows "\<exists>w'. collect_output api seg_size ca sa ba ioSlot outb ctx d w =
    Some (VA_STATUS_SUCCESS, encoded_drv ca (count_output ioSlot (ctx\<lparr>encNeedMoreInputStreak := 0\<rparr>)) sa s ba (coded_result bits b)
      (splice cb seg_size (map Some (stored bits b))) d, w')"
proof -
  obtain w1 where l: "nvEncLockBitstream api (nvencEncoder ctx) outb w = (NV_ENC_SUCCESS, bits, w1)"
    using assms(6) unfolding frame_works_def by blast
  let ?c = "ctx\<lparr>encNeedMoreInputStreak := 0\<rparr>"
  let ?d1 = "put_obj ca (PContext ?c) d"
  have ne: "ca \<noteq> sa" "ca \<noteq> ba" "sa \<noteq> ba" using assms(1-3) by auto
  have g: "get_buffer ?d1 ba = Some b" "get_surface d sa = Some s" "mem ?d1 (codedData b) = Some cb"
    using assms(2-4) ne by (simp_all add: get_buffer_def get_surface_def)
  let ?blk = "splice cb seg_size (map Some (stored bits b))"
  have s: "store_bitstream seg_size ba bits ?d1 = Some (put_obj ba (PBuffer (coded_result bits b)) (?d1\<lparr>mem := (mem ?d1)(codedData b \<mapsto> ?blk)\<rparr>))"
    by (rule store_bitstream_spec[OF g(1,3) assms(5)])
  obtain w2 where p: "cuCtxPopCurrent api (snd (nvEncUnlockBitstream api (nvencEncoder ctx) outb w1)) = (True, w2)"
    using assms(6) unfolding frame_works_def by (metis prod.collapse)
  let ?d2 = "put_obj ba (PBuffer (coded_result bits b)) (?d1\<lparr>mem := (mem ?d1)(codedData b \<mapsto> ?blk)\<rparr>)"
  let ?d3 = "put_obj ca (PContext (count_output ioSlot ?c)) ?d2"
  have r: "surface_ready sa ?d3 = Some (put_obj sa (PSurface (s\<lparr>sf_status := VASurfaceReady\<rparr>)) ?d3)"
    using g(2) ne by (simp add: surface_ready_def)
  have e: "put_obj sa (PSurface (s\<lparr>sf_status := VASurfaceReady\<rparr>)) ?d3 =
    encoded_drv ca (count_output ioSlot ?c) sa s ba (coded_result bits b) ?blk d"
    using ne by (simp add: encoded_drv_def put_obj_mem put_obj_commute coded_result_def)
  show ?thesis using l s p r unfolding collect_output_def e[symmetric]
    by (simp add: Let_def del: get_put_obj)
qed

lemma idr_request_fields [simp]:
  "nvencEncoder (idr_request e ctx) = nvencEncoder ctx" "cx_width (idr_request e ctx) = cx_width ctx"
  "cx_height (idr_request e ctx) = cx_height ctx"
  by (simp_all add: idr_request_def Let_def)

lemma submit_picture_accepted:
  assumes "frame_works api c bits"
  shows "\<exists>w'. submit_picture api idr pp ctx w = (NV_ENC_SUCCESS, ctx, w')"
proof -
  have "fst (nvEncEncodePicture api (nvencEncoder ctx) pp w) = NV_ENC_SUCCESS" using assms by (simp add: frame_works_def)
  then show ?thesis by (cases "nvEncEncodePicture api (nvencEncoder ctx) pp w") (simp add: submit_picture_def)
qed

lemma encode_frame_spec:
  assumes "surf_inv d" "live d sa s" "hostData s \<noteq> NULL" "\<not> sf_locked s" "visible_inside ctx" "covers s ctx"
    "heap d ca = Some (PContext ctx)" "heap d ba = Some (PBuffer b)"
    "mem d (codedData b) = Some cb" "length cb = seg_size + unat (codedCapacity b)" "frame_works api ctx bits"
  shows "\<exists>w'. encode_frame api seg_size ca sa ba ioSlot inb outb ctx d w =
    Some (VA_STATUS_SUCCESS, encoded_drv ca (encoded_ctx (g_encForceIdrEvery d) ioSlot ctx) sa s ba (coded_result bits b)
      (splice cb seg_size (map Some (stored bits b))) d, w')"
proof -
  have h: "heap d sa = Some (PSurface s)" "get_surface d sa = Some s" using assms(2) by (simp_all add: live_def get_surface_def)
  obtain dst p w1 where l: "nvEncLockInputBuffer api (nvencEncoder ctx) inb w = (NV_ENC_SUCCESS, dst, p, w1)" "input_fits ctx p dst"
    using assms(11) unfolding frame_works_def by metis
  obtain x y ww hh where r: "copy_rect ctx s = (x, y, ww, hh)" using prod_cases4 by blast
  obtain dst' where f: "fill_input ctx sa p dst d = Some (dst', d)" using fill_input_spec[OF assms(1-6) l(2) r] by blast
  obtain w2 where u: "nvEncUnlockInputBuffer api (nvencEncoder ctx) inb dst' w1 = (NV_ENC_SUCCESS, w2)"
    using assms(11) unfolding frame_works_def by (metis prod.collapse)
  let ?c = "idr_request (g_encForceIdrEvery d) ctx"
  let ?pp = "\<lparr>pp_inputBuffer = inb, pp_inputPitch = p, pp_inputWidth = ww, pp_inputHeight = hh,
    pp_outputBitstream = outb, pp_inputTimeStamp = encFrameNum ?c, pp_forceIdr = encForceIdr ?c \<or> encFrameNum ?c = 0\<rparr>"
  obtain w3 where q: "submit_picture api (g_encStartupIdrFrames d) ?pp ?c w2 = (NV_ENC_SUCCESS, ?c, w3)"
    using submit_picture_accepted[OF assms(11)] by blast
  let ?d1 = "put_obj ca (PContext ?c) d"
  have ne: "ca \<noteq> sa" "ca \<noteq> ba" using assms(7,8) h(1) by auto
  have hd1: "heap ?d1 ca = Some (PContext ?c)" "heap ?d1 sa = Some (PSurface s)" "heap ?d1 ba = Some (PBuffer b)"
      "mem ?d1 (codedData b) = Some cb"
    using assms(8,9) h(1) ne by (simp_all add: put_obj_def)
  obtain w4 where o: "collect_output api seg_size ca sa ba ioSlot outb ?c ?d1 w3 = Some (VA_STATUS_SUCCESS,
      encoded_drv ca (count_output ioSlot (?c\<lparr>encNeedMoreInputStreak := 0\<rparr>)) sa s ba (coded_result bits b)
        (splice cb seg_size (map Some (stored bits b))) ?d1, w4)"
    using collect_output_spec[OF hd1 assms(10,11)] by blast
  have e: "encoded_drv ca c sa s ba b' blk ?d1 = encoded_drv ca c sa s ba b' blk d" for c b' blk
    using ne by (simp add: encoded_drv_def put_obj_def fun_upd_twist)
  show ?thesis using l(1) h(2) r f u q o unfolding e encode_frame_def encoded_ctx_def by (simp add: Let_def)
qed

text \<open>The io slots of a context: at most four, the used ones hold both handles.\<close>

definition io_ok :: "('c, 's) NVContext \<Rightarrow> bool" where
  "io_ok ctx \<longleftrightarrow> 0 < nvencIoBufferCount ctx \<and> unat (nvencIoBufferCount ctx) \<le> NVENC_MAX_IO_BUFFERS \<and>
     length (nvencInputBuffers ctx) = NVENC_MAX_IO_BUFFERS \<and> length (nvencOutputBuffers ctx) = NVENC_MAX_IO_BUFFERS \<and>
     (\<forall>i < unat (nvencIoBufferCount ctx). nvencInputBuffers ctx ! i \<noteq> NULL \<and> nvencOutputBuffers ctx ! i \<noteq> NULL)"

definition io_slot :: "('c, 's) NVContext \<Rightarrow> nat" where
  "io_slot ctx = unat (nvencIoBufferIndex ctx mod nvencIoBufferCount ctx)"

lemma io_slot_less: "io_ok ctx \<Longrightarrow> io_slot ctx < unat (nvencIoBufferCount ctx)"
  by (simp add: io_ok_def io_slot_def unat_mod word_gt_0_no unat_gt_0 word_less_nat_alt)

lemma end_encode_spec:
  assumes "surf_inv d" "view d (encCurrentSurface ctx) = Some (OBJECT_TYPE_SURFACE, sa)" "heap d sa = Some (PSurface s)"
    "hostData s \<noteq> NULL" "\<not> sf_locked s" "visible_inside ctx" "covers s ctx"
    "heap d ca = Some (PContext ctx)" "view d (encCodedBufId ctx) = Some (OBJECT_TYPE_BUFFER, ba)" "heap d ba = Some (PBuffer b)"
    "codedData b \<noteq> NULL" "codedCapacity b \<noteq> 0" "encHasCodedBuf ctx" "encCurrentSurface ctx \<noteq> VA_INVALID_SURFACE"
    "mem d (codedData b) = Some cb" "length cb = seg_size + unat (codedCapacity b)" "io_ok ctx" "\<not> encNeedsReconfigure ctx"
    "frame_works api ctx bits"
  shows "\<exists>w'. end_encode api seg_size ca ctx d w =
    Some (VA_STATUS_SUCCESS, encoded_drv ca (encoded_ctx (g_encForceIdrEvery d) (io_slot ctx) ctx) sa s ba (coded_result bits b)
      (splice cb seg_size (map Some (stored bits b))) d, w')"
proof -
  have ty: "typed d" using assms(1) by (simp add: surf_inv_def)
  note sl = surface_lookup[OF ty assms(2,3)]
  have bl: "getObjectPtr d OBJECT_TYPE_BUFFER (encCodedBufId ctx) = Some ba" "ba \<noteq> NULL" "get_buffer d ba = Some b"
    using typed_get[OF ty] typed_view[OF ty assms(9)] assms(9,10) by (auto simp: get_buffer_def)
  have t: "encode_target d ctx = Some (Some sa, Some ba)"
    using sl bl assms(4,11,12) by (simp add: encode_target_def)
  have i: "io_slot ctx < NVENC_MAX_IO_BUFFERS" "nvencInputBuffers ctx ! io_slot ctx \<noteq> NULL" "nvencOutputBuffers ctx ! io_slot ctx \<noteq> NULL"
    "nvencIoBufferCount ctx \<noteq> 0"
    using io_slot_less[OF assms(17)] assms(17) by (auto simp: io_ok_def)
  have n: "nth_c (nvencInputBuffers ctx) (io_slot ctx) = Some (nvencInputBuffers ctx ! io_slot ctx)"
    "nth_c (nvencOutputBuffers ctx) (io_slot ctx) = Some (nvencOutputBuffers ctx ! io_slot ctx)"
    using i(1) assms(17) by (simp_all add: io_ok_def)
  obtain w1 where p: "cuCtxPushCurrent api w = (True, w1)"
    using assms(19) unfolding frame_works_def by (metis prod.collapse)
  have d: "put_obj ca (PContext ctx) d = d" using assms(8) by (rule put_obj_idem)
  show ?thesis
    using encode_frame_spec[OF assms(1) sl(4) assms(4-8,10,15,16,19), of "io_slot ctx" "nvencInputBuffers ctx ! io_slot ctx"
        "nvencOutputBuffers ctx ! io_slot ctx" w1] assms(13,14,18) t i n p d
    by (simp add: end_encode_def nvencReconfigureIfNeeded_def io_slot_def Let_def)
qed

section \<open>Properties\<close>

text \<open>
  C7: the picture handed to the encoder.  When the surface is at least as large as the encoded picture,
  filling a mapped input buffer returns, touches nothing but that buffer, and leaves in it the chosen
  rectangle of the surface, with black luma and neutral chroma right of and below it, whether the copy
  takes the fast path for equal pitches or the slow one.  The rectangle lies inside the surface and
  inside the picture and has even sides and an even corner.
\<close>

theorem fill_input_picture:
  assumes "surf_inv d" "live d sa s" "hostData s \<noteq> NULL" "\<not> sf_locked s" "visible_inside ctx" "covers s ctx"
    "input_fits ctx dpitch dst"
  shows "\<exists>x y w h hb dst'. copy_rect ctx s = (x, y, w, h) \<and> mem d (hostData s) = Some hb \<and>
    fill_input ctx sa dpitch dst d = Some (dst', d) \<and> length dst' = length dst \<and>
    unat x + unat w \<le> unat (sf_width s) \<and> unat y + unat h \<le> unat (sf_height s) \<and>
    unat w \<le> unat (cx_width ctx) \<and> unat h \<le> unat (cx_height ctx) \<and>
    even (unat x) \<and> even (unat y) \<and> even (unat w) \<and> even (unat h) \<and>
    (\<forall>r < unat (cx_height ctx). \<forall>c < unat (cx_width ctx). px dst' 0 (unat dpitch) r c =
       (if r < unat h \<and> c < unat w then px hb 0 (unat (hostPitch s)) (unat y + r) (unat x + c) else Some 0)) \<and>
    (\<forall>r < unat (cx_height ctx) div 2. \<forall>c < unat (cx_width ctx).
       px dst' (unat (cx_height ctx) * unat dpitch) (unat dpitch) r c =
       (if r < unat h div 2 \<and> c < unat w then px hb (unat (hostYSize s)) (unat (hostPitch s)) (unat y div 2 + r) (unat x + c)
        else Some 0x80))"
proof -
  obtain x y w h where r: "copy_rect ctx s = (x, y, w, h)" using prod_cases4 by blast
  obtain hb dst' where f: "mem d (hostData s) = Some hb" "fill_input ctx sa dpitch dst d = Some (dst', d)" "length dst' = length dst"
    and p: "picture (unat (cx_width ctx)) (unat (cx_height ctx)) (unat x) (unat y) (unat w) (unat h)
      hb (unat (hostPitch s)) (unat (hostYSize s)) (unat dpitch) dst'"
    using fill_input_spec[OF assms r] by blast
  note q = p[unfolded picture_def, THEN conjunct1] p[unfolded picture_def, THEN conjunct2]
  show ?thesis using r f copy_rect_inside[OF assms(5,6) r] q by - (intro exI conjI, assumption+)
qed

lemma session_surface: "live session 1 example_surface" "hostData example_surface = 1" "\<not> sf_locked example_surface"
  "visible_inside session_ctx" "covers example_surface session_ctx" "sf_width example_surface = 16" "sf_height example_surface = 16"
  "cx_width session_ctx = 16" "cx_height session_ctx = 16" "hostPitch example_surface = 64" "hostYSize example_surface = 1024"
  "copy_rect session_ctx example_surface = (0, 0, 16, 16)"
proof -
  show "live session 1 example_surface" by (simp add: live_def session_table session_objects_def session_heap)
  show "hostData example_surface = 1" "\<not> sf_locked example_surface" "sf_width example_surface = 16" "sf_height example_surface = 16"
    "hostPitch example_surface = 64" "hostYSize example_surface = 1024" "visible_inside session_ctx" "covers example_surface session_ctx"
    "cx_width session_ctx = 16" "cx_height session_ctx = 16" "copy_rect session_ctx example_surface = (0, 0, 16, 16)"
    by (simp_all add: example_simps visible_inside_def session_ctx_def zero_context_def covers_def copy_rect_def source_rect_def
        whole_rect_def min32_def even_down_def)
qed

theorem fill_input_picture_witness:
  "\<exists>dst'. fill_input session_ctx 1 32 (replicate 768 None) session = Some (dst', session) \<and> length dst' = 768 \<and>
     px dst' 0 32 3 5 = Some 16"
proof -
  have i: "input_fits session_ctx 32 (replicate 768 None)" by (simp add: input_fits_def session_surface)
  have h: "px example_host 0 64 3 5 = Some 16" by (simp add: px_def example_host_def)
  have m: "mem session (hostData example_surface) = Some example_host" by (simp add: session_surface session_heap)
  have n: "hostData example_surface \<noteq> NULL" by (simp add: session_surface)
  obtain x y w h hb dst' where t: "copy_rect session_ctx example_surface = (x, y, w, h)"
      "mem session (hostData example_surface) = Some hb"
      "fill_input session_ctx 1 32 (replicate 768 None) session = Some (dst', session)" "length dst' = length (replicate 768 None :: block)"
      "\<forall>r < unat (cx_height session_ctx). \<forall>c < unat (cx_width session_ctx). px dst' 0 (unat (32 :: u32)) r c =
        (if r < unat h \<and> c < unat w then px hb 0 (unat (hostPitch example_surface)) (unat y + r) (unat x + c) else Some 0)"
    using fill_input_picture[OF session_inv session_surface(1) n session_surface(3,4,5) i] by (elim exE conjE) (rule that)
  have e: "x = 0" "y = 0" "w = 16" "h = 16" "hb = example_host" using t(1,2) m by (simp_all add: session_surface)
  have d: "fill_input session_ctx 1 32 (replicate 768 None) session = Some (dst', session)" "length dst' = 768" using t(3,4) by simp_all
  have "px dst' 0 32 3 5 = px example_host 0 64 3 5"
    using t(5)[rule_format, of 3 5] unfolding e by (simp add: session_surface)
  then have "px dst' 0 32 3 5 = Some 16" using h by simp
  then show ?thesis using d by blast
qed

end
