(* ===== verification/SurfaceQueue.thy ===== *)
theory SurfaceQueue
  imports Driver
begin

text \<open>
  The ring of surfaces between \<open>nvEndPicture\<close> and the resolve thread
  (\<^verbatim>\<open>src/src/vabackend.c\<close>): an array of \<^verbatim>\<open>SURFACE_QUEUE_SIZE\<close> slots with a
  write and a read index, empty when they are equal.  The contract is that of a first-in first-out
  queue, the locale \<open>fifo\<close>; the ring meets it while at most 15 surfaces wait.
\<close>

definition SURFACE_QUEUE_SIZE :: nat where
  "SURFACE_QUEUE_SIZE = 16"

definition wrap_index :: "nat \<Rightarrow> nat" where
  "wrap_index i = (if SURFACE_QUEUE_SIZE \<le> i then 0 else i)"

text \<open>A write index behind the array is out of bounds.\<close>

definition enqueue_surface :: "addr \<Rightarrow> ('c, 's) NVContext \<Rightarrow> ('c, 's) NVContext option" where
  "enqueue_surface a ctx = do {
     let wi = surfaceQueueWriteIdx ctx;
     guard (wi < length (surfaceQueue ctx));
     Some (ctx\<lparr>surfaceQueue := (surfaceQueue ctx)[wi := a], surfaceQueueWriteIdx := wrap_index (wi + 1)\<rparr>)
   }"

definition queue_waits :: "('c, 's) NVContext \<Rightarrow> bool" where
  "queue_waits ctx \<longleftrightarrow> surfaceQueueReadIdx ctx = surfaceQueueWriteIdx ctx"

definition dequeue_surface :: "('c, 's) NVContext \<Rightarrow> (addr \<times> ('c, 's) NVContext) option" where
  "dequeue_surface ctx = do {
     let ri = surfaceQueueReadIdx ctx;
     a \<leftarrow> nth_c (surfaceQueue ctx) ri;
     Some (a, ctx\<lparr>surfaceQueueReadIdx := wrap_index (ri + 1)\<rparr>)
   }"

section \<open>The contract\<close>

text \<open>
  A bounded queue: \<open>items\<close> is what waits.  The client's view of a run of insertions followed by
  removals needs nothing else.
\<close>

locale fifo =
  fixes good :: "'q \<Rightarrow> bool"
    and items :: "'q \<Rightarrow> 'a list"
    and enq :: "'a \<Rightarrow> 'q \<Rightarrow> 'q option"
    and deq :: "'q \<Rightarrow> ('a \<times> 'q) option"
    and room :: nat
  assumes enq_law: "good q \<Longrightarrow> length (items q) < room \<Longrightarrow> \<exists>q'. enq x q = Some q' \<and> good q' \<and> items q' = items q @ [x]"
    and deq_law: "good q \<Longrightarrow> items q = x # xs \<Longrightarrow> \<exists>q'. deq q = Some (x, q') \<and> good q' \<and> items q' = xs"
begin

fun enq_all :: "'a list \<Rightarrow> 'q \<Rightarrow> 'q option" where
  "enq_all [] q = Some q"
| "enq_all (x # xs) q = do { q \<leftarrow> enq x q; enq_all xs q }"

fun deq_n :: "nat \<Rightarrow> 'q \<Rightarrow> ('a list \<times> 'q) option" where
  "deq_n 0 q = Some ([], q)"
| "deq_n (Suc n) q = do { (x, q) \<leftarrow> deq q; (xs, q) \<leftarrow> deq_n n q; Some (x # xs, q) }"

lemma enq_all_items:
  assumes "good q" "length (items q) + length xs \<le> room"
  shows "\<exists>q'. enq_all xs q = Some q' \<and> good q' \<and> items q' = items q @ xs"
  using assms
proof (induction xs arbitrary: q)
  case (Cons x xs)
  obtain q1 where q1: "enq x q = Some q1" "good q1" "items q1 = items q @ [x]" using enq_law[of q x] Cons.prems by auto
  then show ?case using Cons.IH[of q1] Cons.prems by auto
qed simp

lemma deq_n_items:
  assumes "good q" "items q = xs @ ys"
  shows "\<exists>q'. deq_n (length xs) q = Some (xs, q') \<and> good q' \<and> items q' = ys"
  using assms
proof (induction xs arbitrary: q)
  case (Cons x xs)
  obtain q1 where q1: "deq q = Some (x, q1)" "good q1" "items q1 = xs @ ys" using deq_law[of q x] Cons.prems by auto
  then show ?case using Cons.IH[of q1] by auto
qed simp

lemma in_order:
  assumes "good q" "items q = []" "length xs \<le> room"
  shows "\<exists>q' q''. enq_all xs q = Some q' \<and> deq_n (length xs) q' = Some (xs, q'') \<and> good q'' \<and> items q'' = []"
proof -
  obtain q' where q': "enq_all xs q = Some q'" "good q'" "items q' = xs" using enq_all_items[of q xs] assms by auto
  then show ?thesis using deq_n_items[of q' xs "[]"] by auto
qed

end

section \<open>The ring\<close>

definition ring_wf :: "('c, 's) NVContext \<Rightarrow> bool" where
  "ring_wf ctx \<longleftrightarrow> length (surfaceQueue ctx) = SURFACE_QUEUE_SIZE \<and>
     surfaceQueueReadIdx ctx < SURFACE_QUEUE_SIZE \<and> surfaceQueueWriteIdx ctx < SURFACE_QUEUE_SIZE"

text \<open>From the read index up to the write index, around the end of the array.\<close>

definition ring_items :: "('c, 's) NVContext \<Rightarrow> addr list" where
  "ring_items ctx =
     (let r = surfaceQueueReadIdx ctx; w = surfaceQueueWriteIdx ctx
      in if r \<le> w then take (w - r) (drop r (surfaceQueue ctx))
         else drop r (surfaceQueue ctx) @ take w (surfaceQueue ctx))"

lemma queue_waits_iff: "ring_wf ctx \<Longrightarrow> queue_waits ctx \<longleftrightarrow> ring_items ctx = []"
  by (auto simp: ring_wf_def ring_items_def queue_waits_def Let_def)

lemma length_ring_items:
  "ring_wf ctx \<Longrightarrow> length (ring_items ctx) =
     (if surfaceQueueReadIdx ctx \<le> surfaceQueueWriteIdx ctx then surfaceQueueWriteIdx ctx - surfaceQueueReadIdx ctx
      else SURFACE_QUEUE_SIZE - surfaceQueueReadIdx ctx + surfaceQueueWriteIdx ctx)"
  by (auto simp: ring_wf_def ring_items_def Let_def min_def)

lemma take_Suc_update: "n < length xs \<Longrightarrow> take (Suc n) (xs[n := a]) = take n xs @ [a]"
  by (simp add: take_Suc_conv_app_nth)

lemma ring_enqueue:
  assumes "ring_wf ctx" "length (ring_items ctx) < SURFACE_QUEUE_SIZE - 1"
  shows "\<exists>ctx'. enqueue_surface a ctx = Some ctx' \<and> ring_wf ctx' \<and> ring_items ctx' = ring_items ctx @ [a]"
proof -
  let ?q = "surfaceQueue ctx" and ?r = "surfaceQueueReadIdx ctx" and ?w = "surfaceQueueWriteIdx ctx"
  note wf = assms(1)[unfolded ring_wf_def]
  have n: "(if ?r \<le> ?w then ?w - ?r else SURFACE_QUEUE_SIZE - ?r + ?w) < SURFACE_QUEUE_SIZE - 1"
    using assms(2) length_ring_items[OF assms(1)] by simp
  let ?c = "ctx\<lparr>surfaceQueue := ?q[?w := a], surfaceQueueWriteIdx := wrap_index (?w + 1)\<rparr>"
  have e: "enqueue_surface a ctx = Some ?c" using wf by (simp add: enqueue_surface_def Let_def)
  have g: "ring_wf ?c" using wf by (simp add: ring_wf_def wrap_index_def)
  have upd: "drop ?r (?q[?w := a]) = (if ?r \<le> ?w then (drop ?r ?q)[?w - ?r := a] else drop ?r ?q)"
    by (simp add: drop_update_swap)
  have "ring_items ?c = ring_items ctx @ [a]"
  proof (cases "?r \<le> ?w")
    case True
    have t: "take (Suc (?w - ?r)) ((drop ?r ?q)[?w - ?r := a]) = take (?w - ?r) (drop ?r ?q) @ [a]"
      by (rule take_Suc_update) (use wf True in \<open>simp add: diff_less_mono\<close>)
    show ?thesis
    proof (cases "?w + 1 < SURFACE_QUEUE_SIZE")
      case fits: True
      then show ?thesis using True t by (simp add: ring_items_def wrap_index_def upd Suc_diff_le Let_def)
    next
      case False
      then have w: "?w = SURFACE_QUEUE_SIZE - 1" using wf by linarith
      then have r: "?r \<noteq> 0" using n True by (auto simp del: One_nat_def)
      have "length (drop ?r ?q) = Suc (?w - ?r)" using wf w unfolding length_drop SURFACE_QUEUE_SIZE_def by linarith
      then show ?thesis using True t False r by (simp add: ring_items_def wrap_index_def upd Let_def)
    qed
  next
    case False
    have "?w + 1 < ?r" using n False wf by (simp add: SURFACE_QUEUE_SIZE_def split: if_splits)
    then show ?thesis using False wf
      by (simp add: ring_items_def wrap_index_def upd Let_def take_Suc_conv_app_nth)
  qed
  then show ?thesis using e g by blast
qed

lemma ring_dequeue:
  assumes "ring_wf ctx" "ring_items ctx = x # xs"
  shows "\<exists>ctx'. dequeue_surface ctx = Some (x, ctx') \<and> ring_wf ctx' \<and> ring_items ctx' = xs"
proof -
  let ?q = "surfaceQueue ctx" and ?r = "surfaceQueueReadIdx ctx" and ?w = "surfaceQueueWriteIdx ctx"
  note wf = assms(1)[unfolded ring_wf_def]
  let ?c = "ctx\<lparr>surfaceQueueReadIdx := wrap_index (?r + 1)\<rparr>"
  have d: "drop ?r ?q = ?q ! ?r # drop (Suc ?r) ?q" using wf by (simp add: Cons_nth_drop_Suc)
  have e: "dequeue_surface ctx = Some (?q ! ?r, ?c)" using wf by (simp add: dequeue_surface_def Let_def)
  have g: "ring_wf ?c" using wf by (simp add: ring_wf_def wrap_index_def SURFACE_QUEUE_SIZE_def)
  have "?q ! ?r = x \<and> ring_items ?c = xs"
  proof (cases "?r \<le> ?w")
    case True
    then have lt: "?r < ?w" using assms(2) by (cases "?r = ?w") (simp_all add: ring_items_def)
    then have "take (?w - ?r) (drop ?r ?q) = ?q ! ?r # take (?w - Suc ?r) (drop (Suc ?r) ?q)"
      unfolding d by (simp add: take_Cons' Suc_diff_Suc)
    then show ?thesis using assms(2) lt True wf by (simp add: ring_items_def wrap_index_def Let_def)
  next
    case False
    then show ?thesis
    proof (cases "Suc ?r < SURFACE_QUEUE_SIZE")
      case True
      then show ?thesis using assms(2) False wf d by (simp add: ring_items_def wrap_index_def Let_def)
    next
      case no: False
      then have "drop (Suc ?r) ?q = []" using wf by simp
      then show ?thesis using assms(2) False no d by (simp add: ring_items_def wrap_index_def Let_def)
    qed
  qed
  then show ?thesis using e g by auto
qed

interpretation sq: fifo ring_wf ring_items enqueue_surface dequeue_surface "SURFACE_QUEUE_SIZE - 1"
  by unfold_locales (fact ring_enqueue, fact ring_dequeue)

text \<open>One surface too many: the ring looks empty, everything that waited is gone.\<close>

lemma enqueue_overflow:
  assumes "ring_wf ctx" "length (ring_items ctx) = SURFACE_QUEUE_SIZE - 1"
  shows "\<exists>ctx'. enqueue_surface a ctx = Some ctx' \<and> ring_wf ctx' \<and> ring_items ctx' = []"
proof -
  let ?r = "surfaceQueueReadIdx ctx" and ?w = "surfaceQueueWriteIdx ctx"
  note wf = assms(1)[unfolded ring_wf_def]
  have "(if ?r \<le> ?w then ?w - ?r else SURFACE_QUEUE_SIZE - ?r + ?w) = SURFACE_QUEUE_SIZE - 1"
    using assms(2) length_ring_items[OF assms(1)] by simp
  then have "?r = wrap_index (?w + 1)" using wf by (auto simp: wrap_index_def SURFACE_QUEUE_SIZE_def split: if_splits)
  then show ?thesis using wf by (simp add: enqueue_surface_def ring_items_def ring_wf_def Let_def)
qed

section \<open>Property\<close>

text \<open>
  C4: the ring refines a first-in first-out queue of 15 places.  With fewer surfaces waiting, inserting
  one appends it; removing gives the one that has waited longest; the resolve thread waits exactly when
  none waits; up to 15 insertions into an empty ring followed by as many removals give the surfaces back
  in order.  Inserting into a full ring loses all 15 and the new one.
\<close>

theorem surfaceQueue_refines:
  assumes "ring_wf ctx"
  shows "(length (ring_items ctx) < 15 \<longrightarrow>
      (\<exists>ctx'. enqueue_surface a ctx = Some ctx' \<and> ring_wf ctx' \<and> ring_items ctx' = ring_items ctx @ [a])) \<and>
    (ring_items ctx = x # xs \<longrightarrow> (\<exists>ctx'. dequeue_surface ctx = Some (x, ctx') \<and> ring_wf ctx' \<and> ring_items ctx' = xs)) \<and>
    (queue_waits ctx \<longleftrightarrow> ring_items ctx = []) \<and>
    (ring_items ctx = [] \<and> length surfaces \<le> 15 \<longrightarrow>
      (\<exists>ctx' ctx''. sq.enq_all surfaces ctx = Some ctx' \<and> sq.deq_n (length surfaces) ctx' = Some (surfaces, ctx'') \<and> ring_items ctx'' = [])) \<and>
    (length (ring_items ctx) = 15 \<longrightarrow> (\<exists>ctx'. enqueue_surface a ctx = Some ctx' \<and> queue_waits ctx' \<and> ring_items ctx' = []))"
proof -
  have n: "SURFACE_QUEUE_SIZE - 1 = 15" by (simp add: SURFACE_QUEUE_SIZE_def)
  show ?thesis
    using sq.enq_law[OF assms, of a] sq.deq_law[OF assms, of x xs] queue_waits_iff[OF assms] sq.in_order[OF assms, of surfaces]
      enqueue_overflow[OF assms, of a] queue_waits_iff unfolding n by (intro conjI impI) blast+
qed

text \<open>An empty ring whose indices have moved on.\<close>

definition example_ring :: "(unit, slice_param) NVContext \<Rightarrow> (unit, slice_param) NVContext" where
  "example_ring ctx = ctx\<lparr>surfaceQueue := replicate 16 NULL, surfaceQueueReadIdx := 14, surfaceQueueWriteIdx := 14\<rparr>"

theorem surfaceQueue_refines_witness:
  "ring_wf (example_ring undefined) \<and> ring_items (example_ring undefined) = [] \<and>
   (\<exists>ctx' ctx''. sq.enq_all [5, 6, 7] (example_ring undefined) = Some ctx' \<and> sq.deq_n 3 ctx' = Some ([5, 6, 7], ctx'') \<and> ring_items ctx'' = [])"
proof -
  have w: "ring_wf (example_ring undefined)" "ring_items (example_ring undefined) = []"
    by (simp_all add: ring_wf_def ring_items_def example_ring_def SURFACE_QUEUE_SIZE_def)
  show ?thesis using surfaceQueue_refines[OF w(1), of _ _ _ "[5, 6, 7]"] w by (simp add: numeral_3_eq_3)
qed

end
