(* ===== verification/Pictures.thy ===== *)
theory Pictures
  imports EncodeFrame SurfaceQueue
begin

text \<open>
  The picture calls of both modes (\<^verbatim>\<open>src/src/vabackend.c\<close>: \<open>nvBeginPicture\<close>,
  \<open>nvRenderPicture\<close>, \<open>nvEndPicture\<close>) and the resolve thread (\<open>resolveSurfaces\<close>).
  A codec's function table is an argument, as the source calls it through pointers: its handlers get
  the addresses of the context and of the buffer.  The decoder library and the export of a decoded
  frame are parameters.
\<close>

record 'w cuda_api = "'w nvenc_api" +
  cuvidDecodePicture :: "addr \<Rightarrow> CUVIDPICPARAMS \<Rightarrow> AppendableBuffer \<Rightarrow> AppendableBuffer \<Rightarrow> 'w \<Rightarrow> bool \<times> 'w"
  cuvidMapVideoFrame :: "addr \<Rightarrow> int \<Rightarrow> bool \<Rightarrow> bool \<Rightarrow> int \<Rightarrow> 'w \<Rightarrow> (nat \<times> u32) option \<times> 'w"
  cuvidUnmapVideoFrame :: "addr \<Rightarrow> nat \<Rightarrow> 'w \<Rightarrow> 'w"
  cuvidDestroyDecoder :: "addr \<Rightarrow> 'w \<Rightarrow> 'w"

text \<open>The part of an \<^verbatim>\<open>NVCodec\<close> that the picture calls use.\<close>

record ('c, 's, 'z) codec_ops =
  handlers :: "VABufferType \<Rightarrow> (addr \<Rightarrow> addr \<Rightarrow> ('c, 's, 'z) drv \<Rightarrow> ('c, 's, 'z) drv option) option"
  beginPicture :: "(addr \<Rightarrow> ('c, 's, 'z) drv \<Rightarrow> ('c, 's, 'z) drv option) option"

section \<open>Begin\<close>

definition begin_encode ::
  "(nat \<Rightarrow> bool) \<Rightarrow> addr \<Rightarrow> addr \<Rightarrow> u32 \<Rightarrow> ('c, 's, 'z) drv \<Rightarrow> (VAStatus \<times> ('c, 's, 'z) drv) option" where
  "begin_encode alloc_ok ca sa sid d = do {
     (ok, d) \<leftarrow> ensureSurfaceHostBuffer alloc_ok sa d;
     if \<not> ok then Some (VA_STATUS_ERROR_ALLOCATION_FAILED, d)
     else do {
       ctx \<leftarrow> get_context d ca;
       s \<leftarrow> get_surface d sa;
       let ctx = ctx\<lparr>encCurrentSurface := sid, encCodedBufId := VA_INVALID_ID, encHasCodedBuf := False,
                     encForceIdr := (encFrameNum ctx = 0)\<rparr>;
       let s = s\<lparr>sf_context := ca, contentX := 0, contentY := 0, contentWidth := sf_width s, contentHeight := sf_height s,
                 contentValid := False, sf_status := VASurfaceRendering\<rparr>;
       Some (VA_STATUS_SUCCESS, put_obj sa (PSurface s) (put_obj ca (PContext ctx) d))
     }
   }"

text \<open>
  A surface last used by another context gives up its backing image and its index.  \<open>backed\<close>
  tells whether the backend has attached an image, \<open>detach\<close> is the backend's detach call.
\<close>

definition reset_foreign ::
  "(addr \<Rightarrow> ('c, 's, 'z) drv \<Rightarrow> bool) \<Rightarrow> (addr \<Rightarrow> ('c, 's, 'z) drv \<Rightarrow> ('c, 's, 'z) drv option) \<Rightarrow> addr \<Rightarrow> addr \<Rightarrow>
   ('c, 's, 'z) drv \<Rightarrow> ('c, 's, 'z) drv option" where
  "reset_foreign backed detach ca sa d = do {
     s \<leftarrow> get_surface d sa;
     if sf_context s \<noteq> NULL \<and> sf_context s \<noteq> ca then do {
       d \<leftarrow> (if backed sa d then detach sa d else Some d);
       s \<leftarrow> get_surface d sa;
       Some (put_obj sa (PSurface (s\<lparr>pictureIdx := - 1\<rparr>)) d)
     }
     else Some d
   }"

text \<open>The result tells whether an index was available.\<close>

definition assign_index :: "addr \<Rightarrow> addr \<Rightarrow> ('c, 's, 'z) drv \<Rightarrow> (bool \<times> ('c, 's, 'z) drv) option" where
  "assign_index ca sa d = do {
     s \<leftarrow> get_surface d sa;
     ctx \<leftarrow> get_context d ca;
     if pictureIdx s = - 1 then
       if currentPictureId ctx = surfaceCount ctx then Some (False, d)
       else Some (True, put_obj sa (PSurface (s\<lparr>pictureIdx := currentPictureId ctx\<rparr>))
                          (put_obj ca (PContext (ctx\<lparr>currentPictureId := currentPictureId ctx + 1\<rparr>)) d))
     else Some (True, d)
   }"

definition start_picture :: "addr \<Rightarrow> addr \<Rightarrow> ('c, 's, 'z) drv \<Rightarrow> ('c, 's, 'z) drv option" where
  "start_picture ca sa d = do {
     d \<leftarrow> lock_surface sa d;
     s \<leftarrow> get_surface d sa;
     d \<leftarrow> unlock_surface sa (put_obj sa (PSurface (s\<lparr>sf_resolving := True, sf_status := VASurfaceRendering\<rparr>)) d);
     s \<leftarrow> get_surface d sa;
     ctx \<leftarrow> get_context d ca;
     Some (put_obj ca (PContext (ctx\<lparr>renderTarget := sa, pPicParams := zero_pic\<lparr>CurrPicIdx := pictureIdx s\<rparr>\<rparr>))
            (put_obj sa (PSurface (s\<lparr>progressiveFrame := True\<rparr>)) d))
   }"

definition run_begin :: "('c, 's, 'z) codec_ops option \<Rightarrow> addr \<Rightarrow> ('c, 's, 'z) drv \<Rightarrow> ('c, 's, 'z) drv option" where
  "run_begin codec ca d =
     (case codec of None \<Rightarrow> Some d | Some c \<Rightarrow> (case beginPicture c of None \<Rightarrow> Some d | Some f \<Rightarrow> f ca d))"

definition begin_decode ::
  "(addr \<Rightarrow> ('c, 's, 'z) drv \<Rightarrow> bool) \<Rightarrow> (addr \<Rightarrow> ('c, 's, 'z) drv \<Rightarrow> ('c, 's, 'z) drv option) \<Rightarrow>
   ('c, 's, 'z) codec_ops option \<Rightarrow> addr \<Rightarrow> addr \<Rightarrow> ('c, 's, 'z) drv \<Rightarrow> (VAStatus \<times> ('c, 's, 'z) drv) option" where
  "begin_decode backed detach codec ca sa d = do {
     d \<leftarrow> reset_foreign backed detach ca sa d;
     (ok, d) \<leftarrow> assign_index ca sa d;
     if \<not> ok then Some (VA_STATUS_ERROR_MAX_NUM_EXCEEDED, d)
     else do {
       d \<leftarrow> start_picture ca sa d;
       d \<leftarrow> run_begin codec ca d;
       Some (VA_STATUS_SUCCESS, d)
     }
   }"

text \<open>\<open>codec_of\<close> is the function table that the context points to.\<close>

definition nvBeginPicture ::
  "(nat \<Rightarrow> bool) \<Rightarrow> (addr \<Rightarrow> ('c, 's, 'z) drv \<Rightarrow> bool) \<Rightarrow> (addr \<Rightarrow> ('c, 's, 'z) drv \<Rightarrow> ('c, 's, 'z) drv option) \<Rightarrow>
   (addr \<Rightarrow> ('c, 's, 'z) codec_ops option) \<Rightarrow> ('c, 's, 'z) drv \<Rightarrow> u32 \<Rightarrow> u32 \<Rightarrow> (VAStatus \<times> ('c, 's, 'z) drv) option" where
  "nvBeginPicture alloc_ok backed detach codec_of d cxid sid = do {
     ca \<leftarrow> getObjectPtr d OBJECT_TYPE_CONTEXT cxid;
     sa \<leftarrow> getObjectPtr d OBJECT_TYPE_SURFACE sid;
     if ca = NULL then Some (VA_STATUS_ERROR_INVALID_CONTEXT, d)
     else if sa = NULL then Some (VA_STATUS_ERROR_INVALID_SURFACE, d)
     else do {
       ctx \<leftarrow> get_context d ca;
       if cx_mode ctx = NV_CONTEXT_ENCODE then begin_encode alloc_ok ca sa sid d
       else begin_decode backed detach (codec_of ca) ca sa d
     }
   }"

section \<open>Render\<close>

text \<open>A buffer that does not exist or has no block is skipped; a missing codec is dereferenced.\<close>

definition render_dec_buffer ::
  "('c, 's, 'z) codec_ops option \<Rightarrow> addr \<Rightarrow> u32 \<Rightarrow> ('c, 's, 'z) drv \<Rightarrow> ('c, 's, 'z) drv option" where
  "render_dec_buffer codec ca i d = do {
     a \<leftarrow> getObjectPtr d OBJECT_TYPE_BUFFER i;
     if a = NULL then Some d
     else do {
       b \<leftarrow> get_buffer d a;
       if b_ptr b = NULL then Some d
       else do {
         c \<leftarrow> codec;
         case handlers c (bufferType b) of None \<Rightarrow> Some d | Some f \<Rightarrow> f ca a d
       }
     }
   }"

fun render_dec_buffers ::
  "('c, 's, 'z) codec_ops option \<Rightarrow> addr \<Rightarrow> u32 list \<Rightarrow> ('c, 's, 'z) drv \<Rightarrow> ('c, 's, 'z) drv option" where
  "render_dec_buffers codec ca [] d = Some d"
| "render_dec_buffers codec ca (i # ids) d = do {
     d \<leftarrow> render_dec_buffer codec ca i d;
     render_dec_buffers codec ca ids d
   }"

definition nvRenderPicture ::
  "va_casts \<Rightarrow> (addr \<Rightarrow> ('c, 's, 'z) codec_ops option) \<Rightarrow> ('c, 's, 'z) drv \<Rightarrow> u32 \<Rightarrow> u32 list \<Rightarrow>
   (VAStatus \<times> ('c, 's, 'z) drv) option" where
  "nvRenderPicture va codec_of d cxid ids = do {
     ca \<leftarrow> getObjectPtr d OBJECT_TYPE_CONTEXT cxid;
     if ca = NULL then Some (VA_STATUS_ERROR_INVALID_CONTEXT, d)
     else do {
       ctx \<leftarrow> get_context d ca;
       if cx_mode ctx = NV_CONTEXT_ENCODE then do {
         ctx \<leftarrow> render_enc_buffers va d ids ctx;
         Some (VA_STATUS_SUCCESS, put_obj ca (PContext ctx) d)
       }
       else do {
         d \<leftarrow> render_dec_buffers (codec_of ca) ca ids d;
         Some (VA_STATUS_SUCCESS, d)
       }
     }
   }"

section \<open>End\<close>

text \<open>The picture goes to the decoder, its surface to the resolve thread; failures are marked on the surface.\<close>

definition end_decode ::
  "('w, 'x) cuda_api_scheme \<Rightarrow> addr \<Rightarrow> ('c, 's) NVContext \<Rightarrow> ('c, 's, 'z) drv \<Rightarrow> 'w \<Rightarrow> (VAStatus \<times> ('c, 's, 'z) drv \<times> 'w) option" where
  "end_decode api ca ctx d w =
     (if decoder ctx = NULL then Some (VA_STATUS_ERROR_INVALID_CONTEXT, d, w)
      else
        let bits = bitstreamBuffer ctx; offs = sliceOffsets ctx;
            ctx = ctx\<lparr>bitstreamBuffer := bits\<lparr>ab_size := 0\<rparr>, sliceOffsets := offs\<lparr>ab_size := 0\<rparr>\<rparr>;
            d = put_obj ca (PContext ctx) d;
            (ok, w) = cuCtxPushCurrent api w
        in if \<not> ok then Some (VA_STATUS_ERROR_OPERATION_FAILED, d, w)
           else
             let (decoded, w) = cuvidDecodePicture api (decoder ctx) (pPicParams ctx) bits offs w;
                 (ok, w) = cuCtxPopCurrent api w
             in if \<not> ok then Some (VA_STATUS_ERROR_OPERATION_FAILED, d, w)
                else do {
                  let status = (if decoded then VA_STATUS_SUCCESS else VA_STATUS_ERROR_DECODING_ERROR);
                  s \<leftarrow> get_surface d (renderTarget ctx);
                  let d = put_obj (renderTarget ctx) (PSurface (s\<lparr>sf_context := ca,
                        topFieldFirst := (bottom_field_flag (pPicParams ctx) = 0), secondField := second_field (pPicParams ctx),
                        decodeFailed := (status \<noteq> VA_STATUS_SUCCESS), sf_status := VASurfaceRendering\<rparr>)) d;
                  ctx \<leftarrow> enqueue_surface (renderTarget ctx) ctx;
                  Some (status, put_obj ca (PContext ctx) d, w)
                })"

definition nvEndPicture ::
  "('w, 'x) cuda_api_scheme \<Rightarrow> nat \<Rightarrow> ('c, 's, 'z) drv \<Rightarrow> u32 \<Rightarrow> 'w \<Rightarrow> (VAStatus \<times> ('c, 's, 'z) drv \<times> 'w) option" where
  "nvEndPicture api seg_size d cxid w = do {
     ca \<leftarrow> getObjectPtr d OBJECT_TYPE_CONTEXT cxid;
     if ca = NULL then Some (VA_STATUS_ERROR_INVALID_CONTEXT, d, w)
     else do {
       ctx \<leftarrow> get_context d ca;
       if cx_mode ctx = NV_CONTEXT_ENCODE then end_encode api seg_size ca ctx d w
       else end_decode api ca ctx d w
     }
   }"

section \<open>The resolve thread\<close>

definition mark_failed :: "addr \<Rightarrow> ('c, 's, 'z) drv \<Rightarrow> ('c, 's, 'z) drv option" where
  "mark_failed sa d = do {
     d \<leftarrow> lock_surface sa d;
     s \<leftarrow> get_surface d sa;
     unlock_surface sa (put_obj sa (PSurface (s\<lparr>decodeFailed := True, sf_status := VASurfaceReady, sf_resolving := False\<rparr>)) d)
   }"

text \<open>
  One turn of the loop with a surface waiting.  \<open>export\<close> is the backend's \<open>exportCudaPtr\<close>,
  which marks the surface resolved when it succeeds.
\<close>

definition resolve_frame ::
  "('w, 'x) cuda_api_scheme \<Rightarrow> (addr \<Rightarrow> nat \<Rightarrow> u32 \<Rightarrow> ('c, 's, 'z) drv \<Rightarrow> (bool \<times> ('c, 's, 'z) drv) option) \<Rightarrow> addr \<Rightarrow>
   ('c, 's, 'z) drv \<Rightarrow> 'w \<Rightarrow> (('c, 's, 'z) drv \<times> 'w) option" where
  "resolve_frame api export ca d w = do {
     ctx \<leftarrow> get_context d ca;
     guard (\<not> queue_waits ctx);
     (sa, ctx) \<leftarrow> dequeue_surface ctx;
     let d = put_obj ca (PContext ctx) d;
     s \<leftarrow> get_surface d sa;
     if decodeFailed s then do { d \<leftarrow> mark_failed sa d; Some (d, w) }
     else do {
       let (mapped, w) = cuvidMapVideoFrame api (decoder ctx) (pictureIdx s) (progressiveFrame s) (topFieldFirst s) (secondField s) w;
       case mapped of
         None \<Rightarrow> do { d \<leftarrow> mark_failed sa d; Some (d, w) }
       | Some (ptr, pitch) \<Rightarrow> do {
           (exported, d) \<leftarrow> export sa ptr pitch d;
           let w = cuvidUnmapVideoFrame api (decoder ctx) ptr w;
           if \<not> exported then do { d \<leftarrow> mark_failed sa d; Some (d, w) } else Some (d, w)
         }
     }
   }"

text \<open>Leaving the loop releases the decoder.\<close>

definition resolve_exit :: "('w, 'x) cuda_api_scheme \<Rightarrow> addr \<Rightarrow> ('c, 's, 'z) drv \<Rightarrow> 'w \<Rightarrow> (('c, 's, 'z) drv \<times> 'w) option" where
  "resolve_exit api ca d w = do {
     ctx \<leftarrow> get_context d ca;
     if decoder ctx \<noteq> NULL
     then Some (put_obj ca (PContext (ctx\<lparr>decoder := NULL\<rparr>)) d, cuvidDestroyDecoder api (decoder ctx) w)
     else Some (d, w)
   }"

section \<open>Encoding\<close>

lemma lookup_context:
  assumes "typed d" "view d i = Some (OBJECT_TYPE_CONTEXT, ca)" "heap d ca = Some (PContext ctx)"
  shows "getObjectPtr d OBJECT_TYPE_CONTEXT i = Some ca" "ca \<noteq> NULL" "get_context d ca = Some ctx"
  using typed_get[OF assms(1)] typed_view[OF assms(1,2)] assms(2,3) by (auto simp: get_context_def)

text \<open>Rendering into an encode context accepts any list of buffers and changes only the context.\<close>

lemma nvRenderPicture_encode:
  assumes "typed d" "buffers_alive d" "view d cxid = Some (OBJECT_TYPE_CONTEXT, ca)" "heap d ca = Some (PContext ctx)"
    "cx_mode ctx = NV_CONTEXT_ENCODE" "visible_inside ctx"
  shows "\<exists>ctx'. nvRenderPicture va codec_of d cxid ids = Some (VA_STATUS_SUCCESS, put_obj ca (PContext ctx') d) \<and>
    visible_inside ctx' \<and> (settings ctx' = settings ctx \<or> encNeedsReconfigure ctx') \<and>
    (encNeedsReconfigure ctx \<longrightarrow> encNeedsReconfigure ctx') \<and> frame_state ctx' = frame_state ctx"
proof -
  note l = lookup_context[OF assms(1,3,4)]
  obtain ctx' where "render_enc_buffers va d ids ctx = Some ctx'" "setting_step ctx ctx'"
    using render_enc_buffers_step[OF assms(1,2)] by blast
  then show ?thesis using l assms(5,6) by (intro exI[of _ ctx']) (simp add: nvRenderPicture_def setting_step_def)
qed

lemma session_context: "view session 3 = Some (OBJECT_TYPE_CONTEXT, 3)" "heap session 3 = Some (PContext session_ctx)"
  "cx_mode session_ctx = NV_CONTEXT_ENCODE"
  by (simp_all add: session_view session_heap session_ctx_def)

lemma encoded_drv_fields:
  assumes "ca \<noteq> sa" "ca \<noteq> ba" "sa \<noteq> ba"
  shows "heap (encoded_drv ca ctx sa s ba b blk d) ca = Some (PContext ctx)"
    "heap (encoded_drv ca ctx sa s ba b blk d) sa = Some (PSurface (s\<lparr>sf_status := VASurfaceReady\<rparr>))"
    "heap (encoded_drv ca ctx sa s ba b blk d) ba = Some (PBuffer b)"
    "mem (encoded_drv ca ctx sa s ba b blk d) = (mem d)(codedData b \<mapsto> blk)"
    "a \<notin> {ca, sa, ba} \<Longrightarrow> heap (encoded_drv ca ctx sa s ba b blk d) a = heap d a"
  using assms by (simp_all add: encoded_drv_def put_obj_def)

lemma unat_next_slot:
  assumes "io_ok ctx"
  shows "unat (next_slot (io_slot ctx) ctx) = (io_slot ctx + 1) mod unat (nvencIoBufferCount ctx)"
proof -
  have "io_slot ctx < 4" using io_slot_less[OF assms] assms by (simp add: io_ok_def NVENC_MAX_IO_BUFFERS_def)
  then have "unat (of_nat (io_slot ctx) + 1 :: u32) = io_slot ctx + 1"
    by (subst unat_add_bounded) (simp_all add: unat_of_nat take_bit_nat_eq_self)
  then show ?thesis by (simp add: next_slot_def unat_mod)
qed

lemma encoded_ctx_fields [simp]:
  "encFrameNum (encoded_ctx e i ctx) = encFrameNum ctx + 1" "\<not> encForceIdr (encoded_ctx e i ctx)"
  "settings (encoded_ctx e i ctx) = settings ctx" "nvencIoBufferIndex (encoded_ctx e i ctx) = next_slot i ctx"
  "encStartupIdrLeft (encoded_ctx e i ctx) = (if 0 < encStartupIdrLeft ctx then encStartupIdrLeft ctx - 1 else encStartupIdrLeft ctx)"
  "encOutputFrameCount (encoded_ctx e i ctx) = encOutputFrameCount ctx + 1"
  by (simp_all add: encoded_ctx_def count_output_def idr_request_def settings_def next_slot_def Let_def)

text \<open>
  C3: ending a picture of an encode context.  With a frame the encoder accepts, the call succeeds; the
  coded buffer holds, behind its segment header, the bitstream cut at its capacity, with the stored size
  and the overflow mark exactly when it was cut; the frame counter and the ring of io buffers advance by
  one, a pending intra request is consumed, the surface is ready, and no other object changes.
\<close>

theorem nvEndPicture_encodes:
  assumes "surf_inv d" "view d cxid = Some (OBJECT_TYPE_CONTEXT, ca)" "heap d ca = Some (PContext ctx)"
    "cx_mode ctx = NV_CONTEXT_ENCODE" "visible_inside ctx" "io_ok ctx" "\<not> encNeedsReconfigure ctx"
    "view d (encCurrentSurface ctx) = Some (OBJECT_TYPE_SURFACE, sa)" "heap d sa = Some (PSurface s)"
    "hostData s \<noteq> NULL" "\<not> sf_locked s" "covers s ctx" "encCurrentSurface ctx \<noteq> VA_INVALID_ID"
    "encHasCodedBuf ctx" "view d (encCodedBufId ctx) = Some (OBJECT_TYPE_BUFFER, ba)" "heap d ba = Some (PBuffer b)"
    "codedData b \<noteq> NULL" "codedCapacity b \<noteq> 0" "mem d (codedData b) = Some cb" "length cb = seg_size + unat (codedCapacity b)"
    "frame_works api ctx bits"
  shows "\<exists>d' w' b' ctx'. nvEndPicture api seg_size d cxid w = Some (VA_STATUS_SUCCESS, d', w') \<and>
    heap d' ba = Some (PBuffer b') \<and>
    mem d' = (mem d)(codedData b \<mapsto> splice cb seg_size (map Some (take (unat (codedCapacity b)) bits))) \<and>
    codedSegSize b' = of_nat (min (length bits) (unat (codedCapacity b))) \<and>
    (codedSegStatus b' = VA_CODED_BUF_STATUS_SLICE_OVERFLOW_MASK \<longleftrightarrow> unat (codedCapacity b) < length bits) \<and>
    heap d' ca = Some (PContext ctx') \<and> encFrameNum ctx' = encFrameNum ctx + 1 \<and>
    unat (nvencIoBufferIndex ctx') = (io_slot ctx + 1) mod unat (nvencIoBufferCount ctx) \<and>
    \<not> encForceIdr ctx' \<and> settings ctx' = settings ctx \<and>
    heap d' sa = Some (PSurface (s\<lparr>sf_status := VASurfaceReady\<rparr>)) \<and> (\<forall>a. a \<notin> {ca, sa, ba} \<longrightarrow> heap d' a = heap d a)"
proof -
  have ty: "typed d" using assms(1) by (simp add: surf_inv_def)
  note l = lookup_context[OF ty assms(2,3)]
  have ne: "ca \<noteq> sa" "ca \<noteq> ba" "sa \<noteq> ba" using assms(3,9,16) by auto
  let ?c = "encoded_ctx (g_encForceIdrEvery d) (io_slot ctx) ctx" and ?b = "coded_result bits b"
  let ?d = "encoded_drv ca ?c sa s ba ?b (splice cb seg_size (map Some (stored bits b))) d"
  obtain w' where e: "end_encode api seg_size ca ctx d w = Some (VA_STATUS_SUCCESS, ?d, w')"
    using end_encode_spec[OF assms(1,8,9,10,11,5,12,3,15-18,14,13,19,20,6,7,21)] by blast
  have m: "mem ?d = (mem d)(codedData b \<mapsto> splice cb seg_size (map Some (take (unat (codedCapacity b)) bits)))"
    unfolding encoded_drv_fields(4)[OF ne] by (simp add: stored_def coded_result_def)
  have z: "codedSegSize ?b = of_nat (min (length bits) (unat (codedCapacity b)))"
    "codedSegStatus ?b = VA_CODED_BUF_STATUS_SLICE_OVERFLOW_MASK \<longleftrightarrow> unat (codedCapacity b) < length bits"
    by (simp_all add: coded_result_def stored_def VA_CODED_BUF_STATUS_SLICE_OVERFLOW_MASK_def)
  have "nvEndPicture api seg_size d cxid w = Some (VA_STATUS_SUCCESS, ?d, w')"
    using l assms(4) e by (simp add: nvEndPicture_def)
  moreover define D where "D = ?d"
  moreover have "heap D ca = Some (PContext ?c)" "heap D sa = Some (PSurface (s\<lparr>sf_status := VASurfaceReady\<rparr>))"
      "heap D ba = Some (PBuffer ?b)" "\<forall>a. a \<notin> {ca, sa, ba} \<longrightarrow> heap D a = heap d a"
    unfolding D_def by (intro encoded_drv_fields(1-3)[OF ne] allI impI encoded_drv_fields(5)[OF ne]; assumption)+
  ultimately show ?thesis using m z unat_next_slot[OF assms(6)]
    by (intro exI[of _ D] exI[of _ w'] exI[of _ ?b] exI[of _ ?c]) simp
qed

text \<open>The session's libraries; the decoder accepts everything and maps every frame.\<close>

definition session_cuda :: "(NV_ENC_CONFIG \<times> NV_ENC_INITIALIZE_PARAMS) cuda_api" where
  "session_cuda = nvenc_api.extend session_api (cuda_api.fields (\<lambda>dec pp bits offs w. (True, w)) (\<lambda>dec i p t f w. (Some (1, 64), w))
     (\<lambda>dec p w. w) (\<lambda>dec w. w))"

lemma session_cuda_simps:
  "cuCtxPushCurrent session_cuda w = (True, w)" "cuCtxPopCurrent session_cuda w = (True, w)"
  "nvEncLockInputBuffer session_cuda e b w = (NV_ENC_SUCCESS, replicate 768 None, 32, w)"
  "nvEncUnlockInputBuffer session_cuda e b blk w = (NV_ENC_SUCCESS, w)" "nvEncEncodePicture session_cuda e pp w = (NV_ENC_SUCCESS, w)"
  "nvEncLockBitstream session_cuda e b w = (NV_ENC_SUCCESS, [1, 2, 3], w)"
  "cuvidDecodePicture session_cuda dec pic bits offs w = (True, w)" "cuvidMapVideoFrame session_cuda dec i pr t f w = (Some (1, 64), w)"
  "cuvidUnmapVideoFrame session_cuda dec p w = w"
  by (simp_all add: session_cuda_def session_api_def nvenc_api.defs cuda_api.defs)

lemma session_frame: "frame_works session_cuda session_ctx [1, 2, 3]"
  by (simp add: frame_works_def session_cuda_simps input_fits_def session_surface)

lemma session_io: "io_ok session_ctx" "io_slot session_ctx = 0" "\<not> encNeedsReconfigure session_ctx" "encCurrentSurface session_ctx = 1"
  "encCodedBufId session_ctx = 2" "encHasCodedBuf session_ctx" "encFrameNum session_ctx = 0"
  by (simp_all add: io_ok_def io_slot_def session_ctx_def zero_context_def NVENC_MAX_IO_BUFFERS_def)

theorem nvEndPicture_encodes_witness:
  "\<exists>d' w' b'. nvEndPicture session_cuda 4 session 3 (settings session_ctx) = Some (VA_STATUS_SUCCESS, d', w') \<and>
     heap d' 2 = Some (PBuffer b') \<and> codedSegSize b' = 3 \<and>
     mem d' 2 = Some [Some 0, Some 0, Some 0, Some 0, Some 1, Some 2, Some 3, Some 0, Some 0, Some 0, Some 0, Some 0]"
proof -
  have c: "codedData session_coded = 2" "codedCapacity session_coded = 8" by (simp_all add: session_coded_def)
  have "view session (encCurrentSurface session_ctx) = Some (OBJECT_TYPE_SURFACE, 1)" "heap session 1 = Some (PSurface example_surface)"
    "hostData example_surface \<noteq> NULL" "encCurrentSurface session_ctx \<noteq> VA_INVALID_ID"
    "view session (encCodedBufId session_ctx) = Some (OBJECT_TYPE_BUFFER, 2)" "heap session 2 = Some (PBuffer session_coded)"
    "codedData session_coded \<noteq> NULL" "codedCapacity session_coded \<noteq> 0"
    "mem session (codedData session_coded) = Some (replicate 12 (Some 0))"
    "length (replicate 12 (Some (0 :: u8))) = 4 + unat (codedCapacity session_coded)"
    by (simp_all add: session_io session_view session_heap session_surface VA_INVALID_ID_def c)
  note h = this
  from nvEndPicture_encodes[OF session_inv session_context session_surface(4) session_io(1,3) h(1,2,3) session_surface(3,5) h(4)
      session_io(6) h(5-10) session_frame, of "settings session_ctx"]
  obtain d' w' b' where t: "nvEndPicture session_cuda 4 session 3 (settings session_ctx) = Some (VA_STATUS_SUCCESS, d', w')"
      "heap d' 2 = Some (PBuffer b')" "codedSegSize b' = of_nat (min (length [1, 2, 3 :: u8]) (unat (codedCapacity session_coded)))"
      "mem d' = (mem session)(codedData session_coded \<mapsto>
         splice (replicate 12 (Some 0)) 4 (map Some (take (unat (codedCapacity session_coded)) [1, 2, 3])))"
    by (elim exE conjE) (rule that)
  have k: "splice (replicate 12 (Some 0)) 4 [Some (1 :: u8), Some 2, Some 3] =
      [Some 0, Some 0, Some 0, Some 0, Some 1, Some 2, Some 3, Some 0, Some 0, Some 0, Some 0, Some 0]"
    by (simp add: Driver.splice_def numeral_eq_Suc)
  have "mem d' 2 = Some [Some 0, Some 0, Some 0, Some 0, Some 1, Some 2, Some 3, Some 0, Some 0, Some 0, Some 0, Some 0]"
    unfolding t(4) using k by (simp add: c)
  then show ?thesis using t(1,2,3) c by auto
qed

section \<open>Decoding: picture indices\<close>

text \<open>
  The surfaces that hold an index of a context: those it used last, those no context has finished a
  picture on, and its render target.
\<close>

definition holds_index :: "addr \<Rightarrow> ('c, 's) NVContext \<Rightarrow> addr \<Rightarrow> NVSurface \<Rightarrow> bool" where
  "holds_index ca ctx a s \<longleftrightarrow> pictureIdx s \<noteq> - 1 \<and> (sf_context s = ca \<or> sf_context s = NULL \<or> renderTarget ctx = a)"

definition index_inv :: "addr \<Rightarrow> ('c, 's) NVContext \<Rightarrow> ('c, 's, 'z) drv \<Rightarrow> bool" where
  "index_inv ca ctx d \<longleftrightarrow> heap d ca = Some (PContext ctx) \<and> 0 \<le> currentPictureId ctx \<and> currentPictureId ctx \<le> surfaceCount ctx \<and>
     (\<forall>a s. live d a s \<longrightarrow> holds_index ca ctx a s \<longrightarrow> 0 \<le> pictureIdx s \<and> pictureIdx s < currentPictureId ctx) \<and>
     (\<forall>a s a' s'. live d a s \<longrightarrow> live d a' s' \<longrightarrow> holds_index ca ctx a s \<longrightarrow> holds_index ca ctx a' s' \<longrightarrow> a \<noteq> a' \<longrightarrow>
        pictureIdx s \<noteq> pictureIdx s')"

text \<open>The codec's hook works on the codec part of the context.\<close>

definition hook_ok :: "('c, 's, 'z) codec_ops option \<Rightarrow> addr \<Rightarrow> bool" where
  "hook_ok codec ca \<longleftrightarrow> (\<forall>c f. codec = Some c \<longrightarrow> beginPicture c = Some f \<longrightarrow>
     (\<forall>d ctx. heap d ca = Some (PContext ctx) \<longrightarrow> (\<exists>d' ctx'. f ca d = Some d' \<and> table d' = table d \<and>
        heap d' = (heap d)(ca \<mapsto> PContext ctx') \<and> currentPictureId ctx' = currentPictureId ctx \<and>
        surfaceCount ctx' = surfaceCount ctx \<and> renderTarget ctx' = renderTarget ctx \<and>
        CurrPicIdx (pPicParams ctx') = CurrPicIdx (pPicParams ctx))))"

definition foreign :: "addr \<Rightarrow> NVSurface \<Rightarrow> bool" where
  "foreign ca s \<longleftrightarrow> sf_context s \<noteq> NULL \<and> sf_context s \<noteq> ca"

definition needs_index :: "addr \<Rightarrow> NVSurface \<Rightarrow> bool" where
  "needs_index ca s \<longleftrightarrow> foreign ca s \<or> pictureIdx s = - 1"

lemma reset_foreign_spec:
  assumes "get_surface d sa = Some s" "\<forall>a. keeps_driver I (detach a)" "I (NVDriver.more d)"
  shows "\<exists>d'. reset_foreign backed detach ca sa d = Some d' \<and> table d' = table d \<and>
    heap d' = (heap d)(sa \<mapsto> PSurface (if foreign ca s then s\<lparr>pictureIdx := - 1\<rparr> else s))"
proof (cases "foreign ca s")
  case False
  then have "reset_foreign backed detach ca sa d = Some d" using assms(1) by (auto simp: reset_foreign_def foreign_def)
  then show ?thesis using False assms(1) by (simp add: get_iff_heap fun_upd_idem)
next
  case True
  obtain d1 where d1: "(if backed sa d then detach sa d else Some d) = Some d1" "NVDriver.truncate d1 = NVDriver.truncate d"
    using assms(2,3) unfolding keeps_driver_def by (cases "backed sa d") auto
  note k = truncate_fields[OF d1(2)]
  have g: "get_surface d1 sa = Some s" using assms(1) k(1) by (simp add: get_surface_def)
  have "reset_foreign backed detach ca sa d = Some (put_obj sa (PSurface (s\<lparr>pictureIdx := - 1\<rparr>)) d1)"
    using assms(1) True d1(1) g by (simp add: reset_foreign_def foreign_def)
  then show ?thesis using True k by (simp add: put_obj_def table_def)
qed

definition started :: "NVSurface \<Rightarrow> int \<Rightarrow> NVSurface" where
  "started s i = s\<lparr>pictureIdx := i, sf_resolving := True, sf_status := VASurfaceRendering, sf_locked := False, progressiveFrame := True\<rparr>"

definition begun :: "addr \<Rightarrow> int \<Rightarrow> ('c, 's) NVContext \<Rightarrow> ('c, 's) NVContext" where
  "begun sa i ctx = ctx\<lparr>renderTarget := sa, pPicParams := zero_pic\<lparr>CurrPicIdx := i\<rparr>\<rparr>"

lemma start_picture_spec:
  assumes "heap d sa = Some (PSurface s)" "heap d ca = Some (PContext ctx)" "\<not> sf_locked s"
  shows "\<exists>d'. start_picture ca sa d = Some d' \<and> table d' = table d \<and>
    heap d' = (heap d)(sa \<mapsto> PSurface (started s (pictureIdx s)), ca \<mapsto> PContext (begun sa (pictureIdx s) ctx))"
proof -
  have ne: "ca \<noteq> sa" using assms(1,2) by auto
  have g: "get_surface d sa = Some s" "get_context d ca = Some ctx" using assms(1,2) by (simp_all add: get_surface_def get_context_def)
  have e: "start_picture ca sa d = Some (put_obj ca (PContext (begun sa (pictureIdx s) ctx))
      (put_obj sa (PSurface (started s (pictureIdx s))) d))"
    using g ne assms(3) by (simp add: start_picture_def lock_surface_def unlock_surface_def begun_def started_def)
  then show ?thesis by (simp add: put_obj_def table_def)
qed

text \<open>The index a picture gets.\<close>

definition next_index :: "addr \<Rightarrow> ('c, 's) NVContext \<Rightarrow> NVSurface \<Rightarrow> int" where
  "next_index ca ctx s = (if needs_index ca s then currentPictureId ctx else pictureIdx s)"

definition count_index :: "addr \<Rightarrow> NVSurface \<Rightarrow> ('c, 's) NVContext \<Rightarrow> ('c, 's) NVContext" where
  "count_index ca s ctx = (if needs_index ca s then ctx\<lparr>currentPictureId := currentPictureId ctx + 1\<rparr> else ctx)"

lemma begin_decode_full:
  assumes "heap d sa = Some (PSurface s)" "heap d ca = Some (PContext ctx)" "\<forall>a. keeps_driver I (detach a)" "I (NVDriver.more d)"
    "needs_index ca s" "currentPictureId ctx = surfaceCount ctx"
  shows "\<exists>d'. begin_decode backed detach codec ca sa d = Some (VA_STATUS_ERROR_MAX_NUM_EXCEEDED, d') \<and> table d' = table d \<and>
    heap d' = (heap d)(sa \<mapsto> PSurface (s\<lparr>pictureIdx := - 1\<rparr>))"
proof -
  have g: "get_surface d sa = Some s" using assms(1) by (simp add: get_surface_def)
  have ne: "ca \<noteq> sa" using assms(1,2) by auto
  let ?s = "if foreign ca s then s\<lparr>pictureIdx := - 1\<rparr> else s"
  obtain d1 where d1: "reset_foreign backed detach ca sa d = Some d1" "table d1 = table d" "heap d1 = (heap d)(sa \<mapsto> PSurface ?s)"
    using reset_foreign_spec[OF g assms(3,4)] by blast
  have s: "?s = s\<lparr>pictureIdx := - 1\<rparr>" using assms(5) by (cases s) (auto simp: needs_index_def)
  have "assign_index ca sa d1 = Some (False, d1)"
    using d1(3) assms(2,6) ne unfolding s by (simp add: assign_index_def get_surface_def get_context_def)
  then show ?thesis using d1 unfolding s by (simp add: begin_decode_def)
qed

lemma assign_index_spec:
  assumes "heap d sa = Some (PSurface (if foreign ca s then s\<lparr>pictureIdx := - 1\<rparr> else s))" "heap d ca = Some (PContext ctx)"
    "needs_index ca s \<longrightarrow> currentPictureId ctx \<noteq> surfaceCount ctx"
  shows "\<exists>d'. assign_index ca sa d = Some (True, d') \<and> table d' = table d \<and>
    heap d' = (heap d)(ca \<mapsto> PContext (count_index ca s ctx), sa \<mapsto> PSurface (s\<lparr>pictureIdx := next_index ca ctx s\<rparr>))"
proof -
  let ?s = "if foreign ca s then s\<lparr>pictureIdx := - 1\<rparr> else s"
  let ?i = "next_index ca ctx s" and ?c = "count_index ca s ctx"
  have ne: "ca \<noteq> sa" using assms(1,2) by auto
  have idx: "pictureIdx ?s = - 1 \<longleftrightarrow> needs_index ca s" by (auto simp: needs_index_def)
  have gs: "get_surface d sa = Some ?s" "get_context d ca = Some ctx" using assms(1,2) by (simp_all add: get_surface_def get_context_def)
  show ?thesis
  proof (cases "needs_index ca s")
    case True
    then have "assign_index ca sa d = Some (True, put_obj sa (PSurface (s\<lparr>pictureIdx := ?i\<rparr>)) (put_obj ca (PContext ?c) d))"
      using gs idx assms(3) unfolding assign_index_def next_index_def count_index_def by (cases "foreign ca s") simp_all
    then show ?thesis by (simp add: put_obj_def table_def)
  next
    case False
    then have "assign_index ca sa d = Some (True, d)" using gs idx by (simp add: assign_index_def)
    moreover have "s\<lparr>pictureIdx := ?i\<rparr> = s" "?s = s" "?c = ctx" using False by (auto simp: needs_index_def next_index_def count_index_def)
    ultimately show ?thesis using assms(1,2) ne by (simp add: fun_upd_idem)
  qed
qed

lemma run_begin_spec:
  assumes "hook_ok codec ca" "heap d ca = Some (PContext ctx)"
  shows "\<exists>d' ctx'. run_begin codec ca d = Some d' \<and> table d' = table d \<and> heap d' = (heap d)(ca \<mapsto> PContext ctx') \<and>
    currentPictureId ctx' = currentPictureId ctx \<and> surfaceCount ctx' = surfaceCount ctx \<and> renderTarget ctx' = renderTarget ctx \<and>
    CurrPicIdx (pPicParams ctx') = CurrPicIdx (pPicParams ctx)"
proof (cases "\<exists>c f. codec = Some c \<and> beginPicture c = Some f")
  case True
  then show ?thesis using assms unfolding hook_ok_def run_begin_def by fastforce
next
  case False
  then have "run_begin codec ca d = Some d" by (auto simp: run_begin_def split: option.splits)
  then show ?thesis using assms(2) by (intro exI[of _ d] exI[of _ ctx]) (simp add: fun_upd_idem)
qed

lemma begin_decode_spec:
  assumes "heap d sa = Some (PSurface s)" "heap d ca = Some (PContext ctx)" "\<not> sf_locked s" "\<forall>a. keeps_driver I (detach a)"
    "hook_ok codec ca" "needs_index ca s \<longrightarrow> currentPictureId ctx \<noteq> surfaceCount ctx" "I (NVDriver.more d)"
  shows "\<exists>d' ctx'. begin_decode backed detach codec ca sa d = Some (VA_STATUS_SUCCESS, d') \<and> table d' = table d \<and>
    heap d' = (heap d)(sa \<mapsto> PSurface (started s (next_index ca ctx s)), ca \<mapsto> PContext ctx') \<and>
    currentPictureId ctx' = currentPictureId (count_index ca s ctx) \<and> surfaceCount ctx' = surfaceCount ctx \<and>
    renderTarget ctx' = sa \<and> CurrPicIdx (pPicParams ctx') = next_index ca ctx s"
proof -
  have g: "get_surface d sa = Some s" using assms(1) by (simp add: get_surface_def)
  have ne: "ca \<noteq> sa" using assms(1,2) by auto
  let ?i = "next_index ca ctx s" and ?c = "count_index ca s ctx"
  let ?s = "s\<lparr>pictureIdx := ?i\<rparr>"
  obtain d1 where d1: "reset_foreign backed detach ca sa d = Some d1" "table d1 = table d"
      "heap d1 = (heap d)(sa \<mapsto> PSurface (if foreign ca s then s\<lparr>pictureIdx := - 1\<rparr> else s))"
    using reset_foreign_spec[OF g assms(4,7)] by blast
  have h1: "heap d1 ca = Some (PContext ctx)" using d1(3) assms(2) ne by simp
  obtain d2 where d2: "assign_index ca sa d1 = Some (True, d2)" "table d2 = table d1"
      "heap d2 = (heap d1)(ca \<mapsto> PContext ?c, sa \<mapsto> PSurface ?s)"
    using assign_index_spec[of d1 sa ca s ctx] d1(3) h1 assms(6) by auto
  have h2: "heap d2 sa = Some (PSurface ?s)" "heap d2 ca = Some (PContext ?c)" "\<not> sf_locked ?s" using d2(3) ne assms(3) by simp_all
  obtain d3 where d3: "start_picture ca sa d2 = Some d3" "table d3 = table d2"
      "heap d3 = (heap d2)(sa \<mapsto> PSurface (started ?s (pictureIdx ?s)), ca \<mapsto> PContext (begun sa (pictureIdx ?s) ?c))"
    using start_picture_spec[OF h2] by blast
  have st: "started ?s (pictureIdx ?s) = started s ?i" "surfaceCount ?c = surfaceCount ctx" by (simp_all add: started_def count_index_def)
  have h3: "heap d3 ca = Some (PContext (begun sa ?i ?c))" using d3(3) by simp
  obtain d4 c4 where d4: "run_begin codec ca d3 = Some d4" "table d4 = table d3" "heap d4 = (heap d3)(ca \<mapsto> PContext c4)"
      "currentPictureId c4 = currentPictureId ?c" "surfaceCount c4 = surfaceCount ctx" "renderTarget c4 = sa"
      "CurrPicIdx (pPicParams c4) = ?i"
    using run_begin_spec[OF assms(5) h3] st(2) by (auto simp: begun_def)
  have "begin_decode backed detach codec ca sa d = Some (VA_STATUS_SUCCESS, d4)"
    using d1(1) d2(1) d3(1) d4(1) by (simp add: begin_decode_def)
  moreover have "heap d4 = (heap d)(sa \<mapsto> PSurface (started s ?i), ca \<mapsto> PContext c4)"
    unfolding d4(3) d3(3) d2(3) d1(3) st(1) using ne by (auto simp: fun_eq_iff)
  ultimately show ?thesis using d1(2) d2(2) d3(2) d4(2,4-7) by auto
qed

lemma live_after:
  assumes "live d sa s" "heap d ca = Some (PContext ctx)" "table d' = table d"
    "heap d' = (heap d)(sa \<mapsto> PSurface s', ca \<mapsto> PContext ctx') \<or> heap d' = (heap d)(sa \<mapsto> PSurface s')"
  shows "live d' a t \<longleftrightarrow> (if a = sa then t = s' else live d a t)"
proof -
  have "ca \<noteq> sa" using assms(1,2) by (auto simp: live_def)
  then show ?thesis using assms by (auto simp: live_def split: if_splits)
qed

lemma index_inv_begun:
  assumes "index_inv ca ctx d" "live d sa s" "table d' = table d"
    "heap d' = (heap d)(sa \<mapsto> PSurface (started s (next_index ca ctx s)), ca \<mapsto> PContext ctx')"
    "currentPictureId ctx' = currentPictureId (count_index ca s ctx)" "surfaceCount ctx' = surfaceCount ctx" "renderTarget ctx' = sa"
    "needs_index ca s \<longrightarrow> currentPictureId ctx \<noteq> surfaceCount ctx"
  shows "index_inv ca ctx' d'" "0 \<le> next_index ca ctx s" "next_index ca ctx s < surfaceCount ctx"
proof -
  note inv = assms(1)[unfolded index_inv_def]
  have hc: "heap d ca = Some (PContext ctx)" using inv by blast
  have lv: "live d' a t \<longleftrightarrow> (if a = sa then t = started s (next_index ca ctx s) else live d a t)" for a t
    using live_after[OF assms(2) hc assms(3)] assms(4) by blast
  have old: "holds_index ca ctx sa s" if "\<not> needs_index ca s"
    using that by (auto simp: needs_index_def foreign_def holds_index_def)
  have i: "0 \<le> next_index ca ctx s" "next_index ca ctx s < currentPictureId ctx'"
    using inv assms(2,5) old by (auto simp: next_index_def count_index_def)
  have c: "currentPictureId ctx \<le> currentPictureId ctx'" "currentPictureId ctx' \<le> surfaceCount ctx"
    using inv assms(5,8) by (auto simp: count_index_def)
  have other: "0 \<le> pictureIdx t \<and> pictureIdx t < currentPictureId ctx \<and> pictureIdx t \<noteq> next_index ca ctx s"
    if "live d a t" "holds_index ca ctx' a t" "a \<noteq> sa" for a t
  proof -
    have h: "holds_index ca ctx a t" using that assms(7) by (auto simp: holds_index_def)
    then have b: "0 \<le> pictureIdx t" "pictureIdx t < currentPictureId ctx" using inv that(1) by blast+
    have "pictureIdx t \<noteq> pictureIdx s" if "\<not> needs_index ca s"
      using inv \<open>live d a t\<close> assms(2) h old[OF that] \<open>a \<noteq> sa\<close> by blast
    then show ?thesis using b by (simp add: next_index_def)
  qed
  have two: "pictureIdx t \<noteq> pictureIdx t'" if "live d a t" "live d a' t'" "holds_index ca ctx' a t" "holds_index ca ctx' a' t'" "a \<noteq> a'" "a \<noteq> sa" "a' \<noteq> sa"
    for a t a' t'
  proof -
    have "holds_index ca ctx a t" "holds_index ca ctx a' t'" using that assms(7) by (auto simp: holds_index_def)
    then show ?thesis using inv that by blast
  qed
  have p: "pictureIdx (started s (next_index ca ctx s)) = next_index ca ctx s" by (simp add: started_def)
  show "index_inv ca ctx' d'"
    unfolding index_inv_def lv
  proof (intro conjI allI impI)
    show "heap d' ca = Some (PContext ctx')" using assms(4) by simp
    show "0 \<le> currentPictureId ctx'" "currentPictureId ctx' \<le> surfaceCount ctx'" using inv c assms(6) by auto
  next
    fix a t assume "if a = sa then t = started s (next_index ca ctx s) else live d a t" "holds_index ca ctx' a t"
    then show "0 \<le> pictureIdx t" "pictureIdx t < currentPictureId ctx'" using i c(1) p other by (fastforce split: if_splits)+
  next
    fix a t a' t'
    assume "if a = sa then t = started s (next_index ca ctx s) else live d a t"
      "if a' = sa then t' = started s (next_index ca ctx s) else live d a' t'"
      "holds_index ca ctx' a t" "holds_index ca ctx' a' t'" "a \<noteq> a'"
    then show "pictureIdx t \<noteq> pictureIdx t'" using p other two by (fastforce split: if_splits)
  qed
  show "0 \<le> next_index ca ctx s" "next_index ca ctx s < surfaceCount ctx" using i c by auto
qed

lemma index_inv_full:
  assumes "index_inv ca ctx d" "live d sa s" "table d' = table d" "heap d' = (heap d)(sa \<mapsto> PSurface (s\<lparr>pictureIdx := - 1\<rparr>))"
  shows "index_inv ca ctx d'"
proof -
  note inv = assms(1)[unfolded index_inv_def]
  have hc: "heap d ca = Some (PContext ctx)" using inv by blast
  have lv: "live d' a t \<longleftrightarrow> (if a = sa then t = s\<lparr>pictureIdx := - 1\<rparr> else live d a t)" for a t
    using live_after[OF assms(2) hc assms(3)] assms(4) by blast
  have "heap d' ca = Some (PContext ctx)" using hc assms(2,4) by (auto simp: live_def)
  moreover have "\<not> holds_index ca ctx a (s\<lparr>pictureIdx := - 1\<rparr>)" for a by (simp add: holds_index_def)
  ultimately show ?thesis using inv unfolding index_inv_def lv by (auto split: if_splits)
qed

text \<open>
  C18: beginning a picture of a decode context.  The call succeeds unless the surface needs an index and
  the context has handed out as many as its decoder has surfaces.  Afterwards the surface is the render
  target and marked as being resolved, its index lies below the number of the decoder's surfaces and is
  the one the decoder is told; a surface the context already knew keeps its index.  No two surfaces hold
  the same index of the context, before and after the call.
\<close>

theorem nvBeginPicture_index:
  assumes "typed d" "view d cxid = Some (OBJECT_TYPE_CONTEXT, ca)" "view d sid = Some (OBJECT_TYPE_SURFACE, sa)"
    "heap d sa = Some (PSurface s)" "\<not> sf_locked s" "cx_mode ctx = NV_CONTEXT_DECODE" "index_inv ca ctx d"
    "\<forall>a. keeps_driver I (detach a)" "hook_ok (codec_of ca) ca" "I (NVDriver.more d)"
  shows "\<exists>st d' ctx' s'. nvBeginPicture alloc_ok backed detach codec_of d cxid sid = Some (st, d') \<and>
    st = (if needs_index ca s \<and> currentPictureId ctx = surfaceCount ctx then VA_STATUS_ERROR_MAX_NUM_EXCEEDED else VA_STATUS_SUCCESS) \<and>
    index_inv ca ctx' d' \<and> heap d' sa = Some (PSurface s') \<and>
    (st = VA_STATUS_SUCCESS \<longrightarrow> renderTarget ctx' = sa \<and> sf_resolving s' \<and> CurrPicIdx (pPicParams ctx') = pictureIdx s' \<and>
       0 \<le> pictureIdx s' \<and> pictureIdx s' < surfaceCount ctx \<and> (\<not> needs_index ca s \<longrightarrow> pictureIdx s' = pictureIdx s))"
proof -
  have hc: "heap d ca = Some (PContext ctx)" using assms(7) by (simp add: index_inv_def)
  have ne: "sa \<noteq> ca" using hc assms(4) by auto
  note l = lookup_context[OF assms(1,2) hc]
  note sl = surface_lookup[OF assms(1,3,4)]
  have n: "nvBeginPicture alloc_ok backed detach codec_of d cxid sid = begin_decode backed detach (codec_of ca) ca sa d"
    using l sl assms(6) by (simp add: nvBeginPicture_def)
  show ?thesis
  proof (cases "needs_index ca s \<and> currentPictureId ctx = surfaceCount ctx")
    case True
    obtain d' where d': "begin_decode backed detach (codec_of ca) ca sa d = Some (VA_STATUS_ERROR_MAX_NUM_EXCEEDED, d')"
        "table d' = table d" "heap d' = (heap d)(sa \<mapsto> PSurface (s\<lparr>pictureIdx := - 1\<rparr>))"
      using begin_decode_full[OF assms(4) hc assms(8,10)] True by blast
    show ?thesis using n d' True index_inv_full[OF assms(7) sl(4) d'(2,3)]
      by (intro exI[of _ VA_STATUS_ERROR_MAX_NUM_EXCEEDED] exI[of _ d'] exI[of _ ctx] exI[of _ "s\<lparr>pictureIdx := - 1\<rparr>"]) simp
  next
    case False
    then have f: "needs_index ca s \<longrightarrow> currentPictureId ctx \<noteq> surfaceCount ctx" by blast
    obtain d' ctx' where d': "begin_decode backed detach (codec_of ca) ca sa d = Some (VA_STATUS_SUCCESS, d')" "table d' = table d"
        "heap d' = (heap d)(sa \<mapsto> PSurface (started s (next_index ca ctx s)), ca \<mapsto> PContext ctx')"
        "currentPictureId ctx' = currentPictureId (count_index ca s ctx)" "surfaceCount ctx' = surfaceCount ctx"
        "renderTarget ctx' = sa" "CurrPicIdx (pPicParams ctx') = next_index ca ctx s"
      using begin_decode_spec[OF assms(4) hc assms(5,8,9) f assms(10)] by blast
    note i = index_inv_begun[OF assms(7) sl(4) d'(2-6) f]
    have p: "pictureIdx (started s (next_index ca ctx s)) = next_index ca ctx s" "sf_resolving (started s (next_index ca ctx s))"
      by (simp_all add: started_def)
    have k: "\<not> needs_index ca s \<longrightarrow> next_index ca ctx s = pictureIdx s" by (simp add: next_index_def)
    show ?thesis using n d' False i p k ne
      by (intro exI[of _ VA_STATUS_SUCCESS] exI[of _ d'] exI[of _ ctx'] exI[of _ "started s (next_index ca ctx s)"]) auto
  qed
qed

text \<open>A decode session on the objects of the encode session.\<close>

definition decode_ctx :: "(unit, slice_param) NVContext" where
  "decode_ctx = zero_context\<lparr>decoder := 9, surfaceCount := 2, renderTarget := 1\<rparr>"

definition decode_session :: "((unit, slice_param) payload) NVDriver" where
  "decode_session = put_obj 3 (PContext decode_ctx) session"

lemma decode_session_simps:
  "typed decode_session" "view decode_session 3 = Some (OBJECT_TYPE_CONTEXT, 3)" "view decode_session 1 = Some (OBJECT_TYPE_SURFACE, 1)"
  "heap decode_session 1 = Some (PSurface example_surface)" "heap decode_session 3 = Some (PContext decode_ctx)"
  "cx_mode decode_ctx = NV_CONTEXT_DECODE"
  using typed_put_obj[OF session_typed session_context(2), of "PContext decode_ctx"] session_view
  by (simp_all add: decode_session_def session_heap decode_ctx_def zero_context_def)

lemma decode_session_index: "index_inv 3 decode_ctx decode_session"
proof -
  have "live decode_session a s \<longleftrightarrow> a = 1 \<and> s = example_surface" for a s
    using session_table unfolding live_def decode_session_def by (auto simp: session_heap session_objects_def put_obj_def table_def split: if_splits)
  moreover have "pictureIdx example_surface = - 1" by (simp add: example_simps)
  ultimately show ?thesis unfolding index_inv_def holds_index_def
    by (simp add: decode_session_simps) (simp add: decode_ctx_def zero_context_def)
qed

theorem nvBeginPicture_index_witness:
  "\<exists>d' ctx' s'. nvBeginPicture (\<lambda>_. True) (\<lambda>_ _. False) (\<lambda>_. Some) (\<lambda>_. None) decode_session 3 1 = Some (VA_STATUS_SUCCESS, d') \<and>
     index_inv 3 ctx' d' \<and> heap d' 1 = Some (PSurface s') \<and> 0 \<le> pictureIdx s' \<and> pictureIdx s' < 2"
proof -
  have h: "\<not> sf_locked example_surface" "\<forall>a :: addr. keeps_driver (\<lambda>_. True) Some" "hook_ok None 3"
    by (simp_all add: example_simps keeps_driver_def hook_ok_def)
  have c: "surfaceCount decode_ctx = 2" "currentPictureId decode_ctx = 0" by (simp_all add: decode_ctx_def zero_context_def)
  show ?thesis
    using nvBeginPicture_index[OF decode_session_simps(1-4) h(1) decode_session_simps(6) decode_session_index,
        of "\<lambda>_. True" "\<lambda>_. Some" "\<lambda>_. None" "\<lambda>_. True" "\<lambda>_ _. False"] h(2,3) c by fastforce
qed

section \<open>Decoding: from the decoder to the surface\<close>

text \<open>
  What the backend's export call promises when its invariant \<open>I\<close> holds: of the driver's own state it
  touches only the surface, releases its mutex, and marks it resolved when it succeeds.
\<close>

definition export_ok :: "('z \<Rightarrow> bool) \<Rightarrow> (addr \<Rightarrow> nat \<Rightarrow> u32 \<Rightarrow> ('c, 's, 'z) drv \<Rightarrow> (bool \<times> ('c, 's, 'z) drv) option) \<Rightarrow> bool" where
  "export_ok I export \<longleftrightarrow> (\<forall>a p pitch d s. I (NVDriver.more d) \<longrightarrow> p \<noteq> 0 \<longrightarrow> heap d a = Some (PSurface s) \<longrightarrow> \<not> sf_locked s \<longrightarrow>
     (\<exists>ok s' d'. export a p pitch d = Some (ok, d') \<and> NVDriver.truncate d' = NVDriver.truncate (put_obj a (PSurface s') d) \<and>
        \<not> sf_locked s' \<and> (ok \<longrightarrow> \<not> sf_resolving s') \<and> decodeFailed s' = decodeFailed s))"

lemma mark_failed_spec:
  assumes "heap d sa = Some (PSurface s)" "\<not> sf_locked s"
  shows "mark_failed sa d = Some (put_obj sa (PSurface (s\<lparr>decodeFailed := True, sf_status := VASurfaceReady, sf_resolving := False,
    sf_locked := False\<rparr>)) d)"
  using assms by (simp add: mark_failed_def lock_surface_def unlock_surface_def get_surface_def)

text \<open>A mapped frame has an address.\<close>

definition maps_frames :: "('w, 'x) cuda_api_scheme \<Rightarrow> bool" where
  "maps_frames api \<longleftrightarrow> (\<forall>dec i pr t f w p pitch w'. cuvidMapVideoFrame api dec i pr t f w = (Some (p, pitch), w') \<longrightarrow> p \<noteq> 0)"

lemma truncate_put_obj: "NVDriver.truncate (put_obj a v d) = put_obj a v (NVDriver.truncate d)"
  by (simp add: put_obj_def NVDriver.truncate_def)

lemma put_obj_twice: "put_obj a v (put_obj a u d) = put_obj a v d"
  by (simp add: put_obj_def)

lemma resolve_frame_spec:
  assumes "heap d ca = Some (PContext ctx)" "ring_wf ctx" "ring_items ctx = sa # rest" "heap d sa = Some (PSurface s)" "\<not> sf_locked s"
    "export_ok I export" "I (NVDriver.more d)" "maps_frames api"
  shows "\<exists>ctx' s' d' w'. resolve_frame api export ca d w = Some (d', w') \<and>
    NVDriver.truncate d' = NVDriver.truncate (put_obj sa (PSurface s') (put_obj ca (PContext ctx') d)) \<and>
    \<not> sf_resolving s' \<and> \<not> sf_locked s' \<and> (decodeFailed s \<longrightarrow> decodeFailed s') \<and> ring_wf ctx' \<and> ring_items ctx' = rest"
proof -
  obtain ctx' where q: "dequeue_surface ctx = Some (sa, ctx')" "ring_wf ctx'" "ring_items ctx' = rest"
    using sq.deq_law[OF assms(2,3)] by blast
  have ne: "ca \<noteq> sa" using assms(1,4) by auto
  let ?d = "put_obj ca (PContext ctx') d"
  have h: "heap ?d sa = Some (PSurface s)" "get_surface ?d sa = Some s" using assms(4) ne by (simp_all add: put_obj_def get_surface_def)
  have g: "get_context d ca = Some ctx" "\<not> queue_waits ctx" using assms(1,3) queue_waits_iff[OF assms(2)] by (simp_all add: get_context_def)
  have i: "I (NVDriver.more ?d)" using assms(7) by simp
  let ?fail = "\<lambda>s. s\<lparr>decodeFailed := True, sf_status := VASurfaceReady, sf_resolving := False, sf_locked := False\<rparr>"
  note m = mark_failed_spec[OF h(1) assms(5)]
  obtain mapped w1 where mp: "cuvidMapVideoFrame api (decoder ctx') (pictureIdx s) (progressiveFrame s) (topFieldFirst s) (secondField s) w = (mapped, w1)"
    by fastforce
  show ?thesis
  proof (cases "decodeFailed s \<or> mapped = None")
    case True
    then have "\<exists>w'. resolve_frame api export ca d w = Some (put_obj sa (PSurface (?fail s)) ?d, w')"
      using g q(1) h(2) m mp by (cases "decodeFailed s") (auto simp: resolve_frame_def Let_def)
    then obtain w' where "resolve_frame api export ca d w = Some (put_obj sa (PSurface (?fail s)) ?d, w')" by blast
    then show ?thesis using q(2,3)
      by (intro exI[of _ ctx'] exI[of _ "?fail s"] exI[of _ "put_obj sa (PSurface (?fail s)) ?d"] exI[of _ w']) simp
  next
    case False
    then obtain p pitch where mm: "mapped = Some (p, pitch)" by fastforce
    then have p: "p \<noteq> 0" using mp assms(8) unfolding maps_frames_def by blast
    obtain ok s1 d1 where x: "export sa p pitch ?d = Some (ok, d1)" "NVDriver.truncate d1 = NVDriver.truncate (put_obj sa (PSurface s1) ?d)"
        "\<not> sf_locked s1" "ok \<longrightarrow> \<not> sf_resolving s1"
      using assms(6) i p h(1) assms(5) unfolding export_ok_def by blast
    have h1: "heap d1 sa = Some (PSurface s1)" using truncate_fields(1)[OF x(2)] by simp
    let ?s2 = "if ok then s1 else ?fail s1" and ?d2 = "if ok then d1 else put_obj sa (PSurface (?fail s1)) d1"
    have r: "resolve_frame api export ca d w = Some (?d2, cuvidUnmapVideoFrame api (decoder ctx') p w1)"
      using g q(1) h(2) mp mm x(1) mark_failed_spec[OF h1 x(3)] False by (cases ok) (simp_all add: resolve_frame_def)
    have "NVDriver.truncate ?d2 = NVDriver.truncate (put_obj sa (PSurface ?s2) ?d)"
      using x(2) by (cases ok) (simp_all add: truncate_put_obj put_obj_twice)
    then show ?thesis using r q(2,3) x(3,4) False
      by (intro exI[of _ ctx'] exI[of _ ?s2] exI[of _ ?d2] exI[of _ "cuvidUnmapVideoFrame api (decoder ctx') p w1"]) (cases ok; simp)
  qed
qed

lemma getObjectPtr_objects: "objects d' = objects d \<Longrightarrow> getObjectPtr d' ty i = getObjectPtr d ty i"
  by (simp add: getObjectPtr_def getObject_def)

text \<open>What ending a picture leaves on the surface and in the queue.\<close>

definition submitted :: "addr \<Rightarrow> ('c, 's) NVContext \<Rightarrow> bool \<Rightarrow> NVSurface \<Rightarrow> NVSurface" where
  "submitted ca ctx decoded s = s\<lparr>sf_context := ca, topFieldFirst := (bottom_field_flag (pPicParams ctx) = 0),
     secondField := second_field (pPicParams ctx), decodeFailed := \<not> decoded, sf_status := VASurfaceRendering\<rparr>"

lemma ring_cong:
  assumes "surfaceQueue c = surfaceQueue c'" "surfaceQueueReadIdx c = surfaceQueueReadIdx c'" "surfaceQueueWriteIdx c = surfaceQueueWriteIdx c'"
  shows "ring_wf c = ring_wf c'" "ring_items c = ring_items c'"
  using assms by (simp_all add: ring_wf_def ring_items_def Let_def)

lemma end_decode_spec:
  assumes "heap d ca = Some (PContext ctx)" "decoder ctx \<noteq> NULL" "ring_wf ctx" "length (ring_items ctx) < SURFACE_QUEUE_SIZE - 1"
    "heap d (renderTarget ctx) = Some (PSurface s)" "\<forall>w. fst (cuCtxPushCurrent api w)" "\<forall>w. fst (cuCtxPopCurrent api w)"
  shows "\<exists>decoded ctx' w'. end_decode api ca ctx d w =
    Some (if decoded then VA_STATUS_SUCCESS else VA_STATUS_ERROR_DECODING_ERROR,
      put_obj ca (PContext ctx') (put_obj (renderTarget ctx) (PSurface (submitted ca ctx decoded s)) d), w') \<and>
    ring_wf ctx' \<and> ring_items ctx' = ring_items ctx @ [renderTarget ctx] \<and>
    ab_size (bitstreamBuffer ctx') = 0 \<and> ab_size (sliceOffsets ctx') = 0"
proof -
  let ?sa = "renderTarget ctx"
  have ne: "ca \<noteq> ?sa" using assms(1,5) by auto
  obtain w1 where p1: "cuCtxPushCurrent api w = (True, w1)" using assms(6) by (metis prod.collapse)
  obtain decoded w2 where dc: "cuvidDecodePicture api (decoder ctx) (pPicParams ctx) (bitstreamBuffer ctx) (sliceOffsets ctx) w1 = (decoded, w2)"
    by fastforce
  obtain w3 where p2: "cuCtxPopCurrent api w2 = (True, w3)" using assms(7) by (metis prod.collapse)
  let ?c = "ctx\<lparr>bitstreamBuffer := (bitstreamBuffer ctx)\<lparr>ab_size := 0\<rparr>, sliceOffsets := (sliceOffsets ctx)\<lparr>ab_size := 0\<rparr>\<rparr>"
  have r: "ring_wf ?c = ring_wf ctx" "ring_items ?c = ring_items ctx" by (rule ring_cong; simp)+
  obtain c' where c': "enqueue_surface ?sa ?c = Some c'" "ring_wf c'" "ring_items c' = ring_items ctx @ [?sa]"
    using sq.enq_law[of ?c ?sa] r assms(3,4) by auto
  have b: "bitstreamBuffer c' = bitstreamBuffer ?c" "sliceOffsets c' = sliceOffsets ?c"
    using c'(1) by (auto simp: enqueue_surface_def Let_def split: if_splits)
  have g: "get_surface (put_obj ca (PContext ?c) d) ?sa = Some s" using assms(5) ne by (simp add: get_surface_def put_obj_def)
  have st: "(if decoded then VA_STATUS_SUCCESS else VA_STATUS_ERROR_DECODING_ERROR) \<noteq> VA_STATUS_SUCCESS \<longleftrightarrow> \<not> decoded" by simp
  have "end_decode api ca ctx d w = Some (if decoded then VA_STATUS_SUCCESS else VA_STATUS_ERROR_DECODING_ERROR,
      put_obj ca (PContext c') (put_obj ?sa (PSurface (submitted ca ctx decoded s)) (put_obj ca (PContext ?c) d)), w3)"
    using assms(2) p1 dc p2 c'(1) g unfolding end_decode_def submitted_def Let_def st by (simp add: case_prod_beta' del: get_put_obj)
  then have "end_decode api ca ctx d w = Some (if decoded then VA_STATUS_SUCCESS else VA_STATUS_ERROR_DECODING_ERROR,
      put_obj ca (PContext c') (put_obj ?sa (PSurface (submitted ca ctx decoded s)) d), w3)"
    using ne by (simp add: put_obj_commute[of ?sa ca])
  then show ?thesis using c'(2,3) b by (intro exI[of _ decoded] exI[of _ c'] exI[of _ w3]) simp
qed

lemma end_then_resolve:
  assumes "typed d" "view d cxid = Some (OBJECT_TYPE_CONTEXT, ca)" "heap d ca = Some (PContext ctx)" "cx_mode ctx = NV_CONTEXT_DECODE"
    "decoder ctx \<noteq> NULL" "ring_wf ctx" "ring_items ctx = []" "view d sid = Some (OBJECT_TYPE_SURFACE, renderTarget ctx)"
    "heap d (renderTarget ctx) = Some (PSurface s)" "\<not> sf_locked s" "\<forall>w. fst (cuCtxPushCurrent api w)" "\<forall>w. fst (cuCtxPopCurrent api w)"
    "export_ok I export" "I (NVDriver.more d)" "maps_frames api"
  shows "\<exists>st d1 w1 d2 w2 s2. nvEndPicture api seg_size d cxid w = Some (st, d1, w1) \<and>
    resolve_frame api export ca d1 w1 = Some (d2, w2) \<and> heap d2 (renderTarget ctx) = Some (PSurface s2) \<and> \<not> sf_resolving s2 \<and>
    (st \<noteq> VA_STATUS_SUCCESS \<longrightarrow> decodeFailed s2) \<and> nvSyncSurface d2 sid = Some (VA_STATUS_SUCCESS, d2)"
proof -
  let ?sa = "renderTarget ctx"
  note l = lookup_context[OF assms(1-3)]
  note sl = surface_lookup[OF assms(1,8,9)]
  have ne: "ca \<noteq> ?sa" using assms(3,9) by auto
  have n: "length (ring_items ctx) < SURFACE_QUEUE_SIZE - 1" using assms(7) by (simp add: SURFACE_QUEUE_SIZE_def)
  obtain decoded c1 w1 where e: "end_decode api ca ctx d w = Some (if decoded then VA_STATUS_SUCCESS else VA_STATUS_ERROR_DECODING_ERROR,
      put_obj ca (PContext c1) (put_obj ?sa (PSurface (submitted ca ctx decoded s)) d), w1)" "ring_wf c1" "ring_items c1 = [?sa]"
    using end_decode_spec[OF assms(3,5,6) n assms(9,11,12), of w] unfolding assms(7) append_Nil by blast
  let ?s1 = "submitted ca ctx decoded s" and ?st = "if decoded then VA_STATUS_SUCCESS else VA_STATUS_ERROR_DECODING_ERROR"
  let ?d1 = "put_obj ca (PContext c1) (put_obj ?sa (PSurface ?s1) d)"
  have h: "heap ?d1 ca = Some (PContext c1)" "heap ?d1 ?sa = Some (PSurface ?s1)" "\<not> sf_locked ?s1"
    using ne assms(10) by (simp_all add: put_obj_def submitted_def)
  have i: "I (NVDriver.more ?d1)" using assms(14) by simp
  obtain c2 s2 d2 w2 where r: "resolve_frame api export ca ?d1 w1 = Some (d2, w2)"
      "NVDriver.truncate d2 = NVDriver.truncate (put_obj ?sa (PSurface s2) (put_obj ca (PContext c2) ?d1))"
      "\<not> sf_resolving s2" "\<not> sf_locked s2" "decodeFailed ?s1 \<longrightarrow> decodeFailed s2"
    using resolve_frame_spec[OF h(1) e(2,3) h(2,3) assms(13) i assms(15), of w1] by (elim exE conjE) (rule that)
  note k = truncate_fields[OF r(2)]
  have hs: "heap d2 ?sa = Some (PSurface s2)" using k(1) by simp
  have g: "getObjectPtr d2 OBJECT_TYPE_SURFACE sid = Some ?sa"
    using sl(1) getObjectPtr_objects[OF k(4)[simplified]] by simp
  have u: "s2\<lparr>sf_locked := False\<rparr> = s2" using r(4) by (cases s2) simp
  have "nvSyncSurface d2 sid = Some (VA_STATUS_SUCCESS, put_obj ?sa (PSurface (s2\<lparr>sf_locked := False\<rparr>)) d2)"
    using g sl(2) r(3,4) hs by (simp add: nvSyncSurface_def lock_surface_def unlock_surface_def get_iff_heap[symmetric])
  moreover have "put_obj ?sa (PSurface s2) d2 = d2" using hs by (simp add: put_obj_def fun_upd_idem)
  ultimately have y: "nvSyncSurface d2 sid = Some (VA_STATUS_SUCCESS, d2)" unfolding u by simp
  have ep: "nvEndPicture api seg_size d cxid w = Some (?st, ?d1, w1)" using l assms(4) e(1) by (simp add: nvEndPicture_def)
  have f: "?st \<noteq> VA_STATUS_SUCCESS \<longrightarrow> decodeFailed s2" using r(5) by (simp add: submitted_def)
  show ?thesis using ep r(1) hs r(3) f y by - (intro exI conjI, assumption+)
qed


definition session_export :: "addr \<Rightarrow> nat \<Rightarrow> u32 \<Rightarrow> ((unit, slice_param) payload) NVDriver \<Rightarrow> (bool \<times> ((unit, slice_param) payload) NVDriver) option" where
  "session_export a p pitch d = do {
     s \<leftarrow> get_surface d a;
     Some (True, put_obj a (PSurface (s\<lparr>sf_resolving := False\<rparr>)) d)
   }"

lemma session_export_ok: "export_ok (\<lambda>_. True) session_export"
  unfolding export_ok_def
proof (intro allI impI)
  fix a p pitch s and d :: "((unit, slice_param) payload) NVDriver"
  assume "heap d a = Some (PSurface s)" "\<not> sf_locked s"
  then show "\<exists>ok s' d'. session_export a p pitch d = Some (ok, d') \<and> NVDriver.truncate d' = NVDriver.truncate (put_obj a (PSurface s') d) \<and>
      \<not> sf_locked s' \<and> (ok \<longrightarrow> \<not> sf_resolving s') \<and> decodeFailed s' = decodeFailed s"
    by (intro exI[of _ True] exI[of _ "s\<lparr>sf_resolving := False\<rparr>"] exI[of _ "put_obj a (PSurface (s\<lparr>sf_resolving := False\<rparr>)) d"])
      (simp add: get_surface_def session_export_def)
qed


end
