(* ===== verification/Contexts.thy ===== *)
theory Contexts
  imports Pictures
begin

text \<open>
  Creating and destroying contexts (\<^verbatim>\<open>src/src/vabackend.c\<close>: \<open>nvCreateContext\<close>,
  \<open>destroyContext\<close>, \<open>nvDestroyContext\<close>).  An encode context opens an encoder session and its ring of io
  buffers, each failure undoing what was done; a decode context creates a decoder and a resolve thread.
\<close>

record decoder_info =
  di_width :: int
  di_height :: int
  di_codec :: cudaVideoCodec
  di_right :: int
  di_bottom :: int
  di_chroma :: cudaVideoChromaFormat
  di_format :: cudaVideoSurfaceFormat
  di_bitDepthMinus8 :: int
  di_surfaces :: int

text \<open>The library calls of context creation; a decoder that cannot be created is \<open>None\<close>.\<close>

record 'w ctx_api = "'w cuda_api" +
  nvEncOpenEncodeSessionEx :: "'w \<Rightarrow> NVENCSTATUS \<times> addr \<times> 'w"
  nvEncGetEncodePresetConfigEx :: "addr \<Rightarrow> codec_guid \<Rightarrow> 'w \<Rightarrow> NVENCSTATUS \<times> NV_ENC_CONFIG \<times> 'w"
  nvEncInitializeEncoder ::
    "addr \<Rightarrow> codec_guid \<Rightarrow> profile_guid \<Rightarrow> NV_ENC_INITIALIZE_PARAMS \<Rightarrow> NV_ENC_CONFIG \<Rightarrow> 'w \<Rightarrow> NVENCSTATUS \<times> 'w"
  nvEncCreateInputBuffer :: "addr \<Rightarrow> u32 \<Rightarrow> u32 \<Rightarrow> 'w \<Rightarrow> NVENCSTATUS \<times> addr \<times> 'w"
  nvEncCreateBitstreamBuffer :: "addr \<Rightarrow> 'w \<Rightarrow> NVENCSTATUS \<times> addr \<times> 'w"
  nvEncDestroyEncoder :: "addr \<Rightarrow> 'w \<Rightarrow> 'w"
  cuvidCreateDecoder :: "decoder_info \<Rightarrow> 'w \<Rightarrow> addr option \<times> 'w"
  pthread_create :: "'w \<Rightarrow> bool \<times> 'w"
  pthread_timedjoin_np :: "'w \<Rightarrow> bool \<times> 'w"

section \<open>Encode contexts\<close>

definition io_depth :: "u32 \<Rightarrow> u32" where
  "io_depth n = (if n = 0 then 1 else if of_nat NVENC_MAX_IO_BUFFERS < n then of_nat NVENC_MAX_IO_BUFFERS else n)"

text \<open>The fields set before the session is opened; \<open>depth\<close> is the value of \<^verbatim>\<open>NVD_ENC_IO_DEPTH\<close>.\<close>

definition new_encode_ctx :: "u32 \<Rightarrow> u32 \<Rightarrow> NVConfig \<Rightarrow> int \<Rightarrow> int \<Rightarrow> ('c, 's) NVContext" where
  "new_encode_ctx depth startupIdr cfg width height =
     zero_context\<lparr>cx_mode := NV_CONTEXT_ENCODE, cx_profile := cfg_profile cfg, cx_entrypoint := cfg_entrypoint cfg,
       cx_width := word_of_int width, cx_height := word_of_int height, encFrameNum := 0,
       encCurrentSurface := VA_INVALID_SURFACE, encCodedBufId := VA_INVALID_ID, encVisibleX := 0, encVisibleY := 0,
       encVisibleWidth := word_of_int width, encVisibleHeight := word_of_int height, encVisibleValid := False,
       encLastFrameData := NULL, encStartupIdrLeft := startupIdr, encNeedMoreInputStreak := 0, encOutputFrameCount := 0,
       encLastHealthLogFrame := 0, nvencIoBufferCount := io_depth depth, nvencIoBufferIndex := 0\<rparr>"

definition rate_control :: "u32 \<Rightarrow> NV_ENC_RC_PARAMS \<Rightarrow> NV_ENC_RC_PARAMS" where
  "rate_control rcMode rc =
     (if rcMode AND VA_RC_CBR \<noteq> 0
      then rc\<lparr>rateControlMode := NV_ENC_PARAMS_RC_CBR, averageBitRate := 5000000, maxBitRate := 5000000\<rparr>
      else if rcMode AND VA_RC_VBR \<noteq> 0
      then rc\<lparr>rateControlMode := NV_ENC_PARAMS_RC_VBR, averageBitRate := 5000000, maxBitRate := 10000000\<rparr>
      else if rcMode AND VA_RC_CQP \<noteq> 0
      then rc\<lparr>rateControlMode := NV_ENC_PARAMS_RC_CONSTQP, constQP := \<lparr>qpInterP = 28, qpInterB = 31, qpIntra = 25\<rparr>\<rparr>
      else rc\<lparr>rateControlMode := NV_ENC_PARAMS_RC_CBR, averageBitRate := 5000000, maxBitRate := 5000000\<rparr>)"

definition initial_config :: "u32 \<Rightarrow> bool \<Rightarrow> NV_ENC_CONFIG \<Rightarrow> NV_ENC_CONFIG" where
  "initial_config rcMode isHevc preset =
     (let c = preset\<lparr>gopLength := 120, frameIntervalP := 1, rcParams := rate_control rcMode (rcParams preset)\<rparr>
      in if \<not> isHevc then c\<lparr>h264_idrPeriod := gopLength c, repeatSPSPPS := True\<rparr>
         else c\<lparr>hevc_idrPeriod := gopLength c, repeatSPSPPS := True\<rparr>)"

definition initial_params :: "int \<Rightarrow> int \<Rightarrow> NV_ENC_INITIALIZE_PARAMS" where
  "initial_params width height =
     zero_init\<lparr>encodeWidth := word_of_int width, encodeHeight := word_of_int height, darWidth := word_of_int width,
       darHeight := word_of_int height, frameRateNum := 30, frameRateDen := 1, maxEncodeWidth := word_of_int width,
       maxEncodeHeight := word_of_int height\<rparr>"

text \<open>The loop that fills the io slots from \<open>i\<close> on; it stops at the first failure.\<close>

fun create_io :: "'w ctx_api \<Rightarrow> nat \<Rightarrow> nat \<Rightarrow> ('c, 's) NVContext \<Rightarrow> 'w \<Rightarrow> NVENCSTATUS \<times> ('c, 's) NVContext \<times> 'w" where
  "create_io api 0 i ctx w = (NV_ENC_SUCCESS, ctx, w)"
| "create_io api (Suc n) i ctx w =
     (let (nvs, inb, w) = nvEncCreateInputBuffer api (nvencEncoder ctx) (cx_width ctx) (cx_height ctx) w in
      if nvs \<noteq> NV_ENC_SUCCESS then (nvs, ctx, w)
      else
        let ctx = ctx\<lparr>nvencInputBuffers := (nvencInputBuffers ctx)[i := inb]\<rparr>;
            (nvs, outb, w) = nvEncCreateBitstreamBuffer api (nvencEncoder ctx) w
        in if nvs \<noteq> NV_ENC_SUCCESS then (nvs, ctx, w)
           else create_io api n (Suc i) (ctx\<lparr>nvencOutputBuffers := (nvencOutputBuffers ctx)[i := outb]\<rparr>) w)"

text \<open>The failure exits: destroy the session when it is open, pop, delete the object.\<close>

definition abandon ::
  "'w ctx_api \<Rightarrow> bool \<Rightarrow> addr \<Rightarrow> u32 \<Rightarrow> NVENCSTATUS \<Rightarrow> ('c, 's, 'z) drv \<Rightarrow> 'w \<Rightarrow>
   ((VAStatus \<times> u32 option) \<times> ('c, 's, 'z) drv \<times> 'w) option" where
  "abandon api opened enc oid nvs d w = do {
     let w = (if opened then nvEncDestroyEncoder api enc w else w);
     let w = snd (cuCtxPopCurrent api w);
     d \<leftarrow> deleteObject d oid;
     Some ((nvencToVaStatus nvs, None), d, w)
   }"

definition open_session ::
  "'w ctx_api \<Rightarrow> NVConfig \<Rightarrow> int \<Rightarrow> int \<Rightarrow> codec_guid \<Rightarrow> profile_guid \<Rightarrow> Object_t \<Rightarrow> ('c, 's) NVContext \<Rightarrow> ('c, 's, 'z) drv \<Rightarrow> 'w \<Rightarrow>
   ((VAStatus \<times> u32 option) \<times> ('c, 's, 'z) drv \<times> 'w) option" where
  "open_session api cfg width height cguid pguid ob ctx d w =
     (let (nvs, enc, w) = nvEncOpenEncodeSessionEx api w in
      if nvs \<noteq> NV_ENC_SUCCESS then abandon api False enc (o_id ob) nvs d w
      else
        let (nvs, preset, w) = nvEncGetEncodePresetConfigEx api enc cguid w in
        if nvs \<noteq> NV_ENC_SUCCESS then abandon api True enc (o_id ob) nvs d w
        else
          let ctx = ctx\<lparr>nvencEncoder := enc, encConfig := initial_config (cfg_encodeRCMode cfg) (encIsHevc ctx) preset,
                        encInitParams := initial_params width height\<rparr>;
              (nvs, w) = nvEncInitializeEncoder api enc cguid pguid (encInitParams ctx) (encConfig ctx) w
          in if nvs \<noteq> NV_ENC_SUCCESS then abandon api True enc (o_id ob) nvs d w
             else
               let (now, w) = getMonotonicNs api w;
                   ctx = ctx\<lparr>encLastReconfigureNs := now\<rparr>;
                   (nvs, ctx, w) = create_io api (unat (nvencIoBufferCount ctx)) 0 ctx w
               in if nvs \<noteq> NV_ENC_SUCCESS
                  then let (ctx, w) = nvencDestroyIoBuffers api (ctx, w) in abandon api True enc (o_id ob) nvs d w
                  else
                    let d = put_obj (o_obj ob) (PContext ctx) d;
                        (ok, w) = cuCtxPopCurrent api w
                    in if \<not> ok then Some ((VA_STATUS_ERROR_OPERATION_FAILED, None), d, w)
                       else Some ((VA_STATUS_SUCCESS, Some (o_id ob)), d, w))"

definition create_encode ::
  "'w ctx_api \<Rightarrow> u32 \<Rightarrow> NVConfig \<Rightarrow> int \<Rightarrow> int \<Rightarrow> ('c, 's, 'z) drv \<Rightarrow> 'w \<Rightarrow> ((VAStatus \<times> u32 option) \<times> ('c, 's, 'z) drv \<times> 'w) option" where
  "create_encode api depth cfg width height d w =
     (if \<not> nvencAvailable d then Some ((VA_STATUS_ERROR_UNSUPPORTED_ENTRYPOINT, None), d, w)
      else if width \<le> 0 \<or> height \<le> 0 then Some ((VA_STATUS_ERROR_INVALID_PARAMETER, None), d, w)
      else do {
        (ob, d) \<leftarrow> allocateObject d OBJECT_TYPE_CONTEXT (Some (PContext zero_context));
        let ctx = new_encode_ctx depth (g_encStartupIdrFrames d) cfg width height;
        case profileToNvencGuids (cfg_profile cfg) of
          None \<Rightarrow> do { d \<leftarrow> deleteObject d (o_id ob); Some ((VA_STATUS_ERROR_UNSUPPORTED_PROFILE, None), d, w) }
        | Some (cguid, pguid, isHevc) \<Rightarrow> do {
            let ctx = ctx\<lparr>encIsHevc := isHevc\<rparr>;
            let (ok, w) = cuCtxPushCurrent api w;
            if \<not> ok then Some ((VA_STATUS_ERROR_OPERATION_FAILED, None), put_obj (o_obj ob) (PContext ctx) d, w)
            else open_session api cfg width height cguid pguid ob ctx d w
          }
      })"

section \<open>Decode contexts\<close>

text \<open>The loops leave only the inner one at a match, so a later descriptor wins.\<close>

fun select_codec :: "NVCodec list \<Rightarrow> VAProfile \<Rightarrow> NVCodec option \<Rightarrow> NVCodec option" where
  "select_codec [] p sel = sel"
| "select_codec (c # cs) p sel = select_codec cs p (if p \<in> set (supportedProfiles c) then Some c else sel)"

text \<open>\<^verbatim>\<open>ROUND_UP\<close> on signed operands; the division of C truncates.\<close>

definition round_up_int :: "int \<Rightarrow> int \<Rightarrow> int" where
  "round_up_int n s = (let m = n + s - 1 in sgn m * (\<bar>m\<bar> div s) * s)"

definition display_area :: "cudaVideoChromaFormat \<Rightarrow> int \<Rightarrow> int \<Rightarrow> int \<times> int" where
  "display_area cf w h =
     (case cf of
        cudaVideoChromaFormat_422 \<Rightarrow> (round_up_int w 2, h)
      | cudaVideoChromaFormat_420 \<Rightarrow> (round_up_int w 2, round_up_int h 2)
      | _ \<Rightarrow> (w, h))"

definition surface_count :: "int \<Rightarrow> int" where
  "surface_count num =
     (let n = (if 0 < num then num else 32) in if 32 < n then 32 else n)"

text \<open>
  The first render target, when there is one, overrides the formats of the configuration object.  The
  result is the configuration to use, \<open>None\<close> when the target does not exist.
\<close>

definition adopt_target ::
  "addr \<Rightarrow> NVConfig \<Rightarrow> u32 list \<Rightarrow> int \<Rightarrow> ('c, 's, 'z) drv \<Rightarrow> (NVConfig option \<times> ('c, 's, 'z) drv) option" where
  "adopt_target cfga cfg targets num d =
     (if num \<noteq> 0 then do {
        i \<leftarrow> nth_c targets 0;
        sa \<leftarrow> getObjectPtr d OBJECT_TYPE_SURFACE i;
        if sa = NULL then Some (None, d)
        else do {
          s \<leftarrow> get_surface d sa;
          let cfg = cfg\<lparr>cfg_surfaceFormat := sf_format s, cfg_chromaFormat := sf_chromaFormat s, cfg_bitDepth := sf_bitDepth s\<rparr>;
          Some (Some cfg, put_obj cfga (PConfig cfg) d)
        }
      }
      else Some (Some cfg, d))"

definition decode_info :: "NVConfig \<Rightarrow> int \<Rightarrow> int \<Rightarrow> int \<Rightarrow> decoder_info" where
  "decode_info cfg width height num =
     (let (right, bottom) = display_area (cfg_chromaFormat cfg) width height
      in \<lparr>di_width = width, di_height = height, di_codec = cfg_cudaCodec cfg, di_right = right, di_bottom = bottom,
          di_chroma = cfg_chromaFormat cfg, di_format = cfg_surfaceFormat cfg, di_bitDepthMinus8 = cfg_bitDepth cfg - 8,
          di_surfaces = surface_count num\<rparr>)"

definition new_decode_ctx :: "NVConfig \<Rightarrow> NVCodec \<Rightarrow> addr \<Rightarrow> int \<Rightarrow> int \<Rightarrow> int \<Rightarrow> ('c, 's) NVContext" where
  "new_decode_ctx cfg codec dec width height num =
     zero_context\<lparr>cx_mode := NV_CONTEXT_DECODE, decoder := dec, cx_profile := cfg_profile cfg, cx_entrypoint := cfg_entrypoint cfg,
       cx_width := word_of_int width, cx_height := word_of_int height, cx_codec := Some codec, surfaceCount := surface_count num,
       firstKeyframeValid := False\<rparr>"

definition create_decode ::
  "'w ctx_api \<Rightarrow> addr \<Rightarrow> NVConfig \<Rightarrow> int \<Rightarrow> int \<Rightarrow> u32 list \<Rightarrow> int \<Rightarrow> ('c, 's, 'z) drv \<Rightarrow> 'w \<Rightarrow>
   ((VAStatus \<times> u32 option) \<times> ('c, 's, 'z) drv \<times> 'w) option" where
  "create_decode api cfga cfg width height targets num d w =
     (case select_codec nvd_codecs (cfg_profile cfg) None of
        None \<Rightarrow> Some ((VA_STATUS_ERROR_UNSUPPORTED_PROFILE, None), d, w)
      | Some codec \<Rightarrow> do {
          (cfg, d) \<leftarrow> adopt_target cfga cfg targets num d;
          case cfg of
            None \<Rightarrow> Some ((VA_STATUS_ERROR_INVALID_PARAMETER, None), d, w)
          | Some cfg \<Rightarrow>
              let (ok, w) = cuCtxPushCurrent api w in
              if \<not> ok then Some ((VA_STATUS_ERROR_OPERATION_FAILED, None), d, w)
              else
                let (dec, w) = cuvidCreateDecoder api (decode_info cfg width height num) w in
                (case dec of
                   None \<Rightarrow> Some ((VA_STATUS_ERROR_ALLOCATION_FAILED, None), d, w)
                 | Some dec \<Rightarrow>
                     let (ok, w) = cuCtxPopCurrent api w in
                     if \<not> ok then Some ((VA_STATUS_ERROR_OPERATION_FAILED, None), d, w)
                     else do {
                       (ob, d) \<leftarrow> allocateObject d OBJECT_TYPE_CONTEXT
                         (Some (PContext (new_decode_ctx cfg codec dec width height num)));
                       let (ok, w) = pthread_create api w;
                       if \<not> ok then do {
                         d \<leftarrow> deleteObject d (o_id ob);
                         Some ((VA_STATUS_ERROR_OPERATION_FAILED, None), d, w)
                       }
                       else Some ((VA_STATUS_SUCCESS, Some (o_id ob)), d, w)
                     })
        })"

definition nvCreateContext ::
  "'w ctx_api \<Rightarrow> u32 \<Rightarrow> ('c, 's, 'z) drv \<Rightarrow> u32 \<Rightarrow> int \<Rightarrow> int \<Rightarrow> u32 list \<Rightarrow> int \<Rightarrow> 'w \<Rightarrow>
   ((VAStatus \<times> u32 option) \<times> ('c, 's, 'z) drv \<times> 'w) option" where
  "nvCreateContext api depth d config_id width height targets num w = do {
     cfga \<leftarrow> getObjectPtr d OBJECT_TYPE_CONFIG config_id;
     if cfga = NULL then Some ((VA_STATUS_ERROR_INVALID_CONFIG, None), d, w)
     else do {
       cfg \<leftarrow> get_config d cfga;
       if cfg_isEncode cfg then create_encode api depth cfg width height d w
       else create_decode api cfga cfg width height targets num d w
     }
   }"

section \<open>Destruction\<close>

text \<open>
  Releasing a context.  The result tells whether all CUDA calls succeeded; a failed push returns before
  anything is released.  Of a decode context the resolve thread is told to exit; when it does so in time it
  releases the decoder (\<open>resolve_exit\<close>).  The codec's memory and the two buffers are freed.
\<close>

definition destroyContext :: "'w ctx_api \<Rightarrow> addr \<Rightarrow> ('c, 's, 'z) drv \<Rightarrow> 'w \<Rightarrow> (bool \<times> ('c, 's, 'z) drv \<times> 'w) option" where
  "destroyContext api ca d w = do {
     ctx \<leftarrow> get_context d ca;
     let (ok, w) = cuCtxPushCurrent api w;
     if \<not> ok then Some (False, d, w)
     else if cx_mode ctx = NV_CONTEXT_ENCODE then do {
       let (ctx, w) =
         (if nvencEncoder ctx \<noteq> NULL
          then let (ctx, w) = nvencDestroyIoBuffers api (ctx, w)
               in (ctx\<lparr>nvencEncoder := NULL\<rparr>, nvEncDestroyEncoder api (nvencEncoder ctx) w)
          else (ctx, w));
       let d = put_obj ca (PContext ctx) d;
       let (ok, w) = cuCtxPopCurrent api w;
       if \<not> ok then Some (False, d, w)
       else do {
         d \<leftarrow> (if encLastFrameData ctx \<noteq> NULL then do {
                d \<leftarrow> free_blk (encLastFrameData ctx) d;
                Some (put_obj ca (PContext (ctx\<lparr>encLastFrameData := NULL\<rparr>)) d)
              } else Some d);
         Some (True, d, w)
       }
     }
     else do {
       let d = put_obj ca (PContext (ctx\<lparr>exiting := True\<rparr>)) d;
       let (joined, w) = pthread_timedjoin_np api w;
       (d, w) \<leftarrow> (if joined then resolve_exit api ca d w else Some (d, w));
       ctx \<leftarrow> get_context d ca;
       let d = put_obj ca (PContext (ctx\<lparr>codecData := None, sliceOffsets := freeBuffer (sliceOffsets ctx),
              bitstreamBuffer := freeBuffer (bitstreamBuffer ctx)\<rparr>)) d;
       let (ok, w) = cuCtxPopCurrent api w;
       Some (ok, d, w)
     }
   }"

definition nvDestroyContext :: "'w ctx_api \<Rightarrow> ('c, 's, 'z) drv \<Rightarrow> u32 \<Rightarrow> 'w \<Rightarrow> (VAStatus \<times> ('c, 's, 'z) drv \<times> 'w) option" where
  "nvDestroyContext api d cxid w = do {
     ca \<leftarrow> getObjectPtr d OBJECT_TYPE_CONTEXT cxid;
     if ca = NULL then Some (VA_STATUS_ERROR_INVALID_CONTEXT, d, w)
     else do {
       (ok, d, w) \<leftarrow> destroyContext api ca d w;
       d \<leftarrow> deleteObject d cxid;
       Some (if ok then VA_STATUS_SUCCESS else VA_STATUS_ERROR_OPERATION_FAILED, d, w)
     }
   }"

section \<open>A created encode context\<close>

text \<open>The encoder library hands out buffers that exist, and the CUDA context stack works.\<close>

definition buffers_exist :: "'w ctx_api \<Rightarrow> bool" where
  "buffers_exist api \<longleftrightarrow>
     (\<forall>e a b w nvs p w'. nvEncCreateInputBuffer api e a b w = (nvs, p, w') \<longrightarrow> nvs = NV_ENC_SUCCESS \<longrightarrow> p \<noteq> NULL) \<and>
     (\<forall>e w nvs p w'. nvEncCreateBitstreamBuffer api e w = (nvs, p, w') \<longrightarrow> nvs = NV_ENC_SUCCESS \<longrightarrow> p \<noteq> NULL)"

definition stack_works :: "'w ctx_api \<Rightarrow> bool" where
  "stack_works api \<longleftrightarrow> (\<forall>w. fst (cuCtxPushCurrent api w)) \<and> (\<forall>w. fst (cuCtxPopCurrent api w))"

lemma create_io_spec:
  assumes "buffers_exist api" "create_io api n i ctx w = (nvs, ctx', w')" "i + n \<le> NVENC_MAX_IO_BUFFERS"
    "length (nvencInputBuffers ctx) = NVENC_MAX_IO_BUFFERS" "length (nvencOutputBuffers ctx) = NVENC_MAX_IO_BUFFERS"
  shows "ctx' = ctx\<lparr>nvencInputBuffers := nvencInputBuffers ctx', nvencOutputBuffers := nvencOutputBuffers ctx'\<rparr> \<and>
    length (nvencInputBuffers ctx') = NVENC_MAX_IO_BUFFERS \<and> length (nvencOutputBuffers ctx') = NVENC_MAX_IO_BUFFERS \<and>
    (\<forall>j < i. nvencInputBuffers ctx' ! j = nvencInputBuffers ctx ! j \<and> nvencOutputBuffers ctx' ! j = nvencOutputBuffers ctx ! j) \<and>
    (nvs = NV_ENC_SUCCESS \<longrightarrow> (\<forall>j. i \<le> j \<longrightarrow> j < i + n \<longrightarrow> nvencInputBuffers ctx' ! j \<noteq> NULL \<and> nvencOutputBuffers ctx' ! j \<noteq> NULL))"
  using assms(2-5)
proof (induction n arbitrary: i ctx w)
  case 0
  then show ?case by simp
next
  case (Suc n)
  obtain s1 inb w1 where a: "nvEncCreateInputBuffer api (nvencEncoder ctx) (cx_width ctx) (cx_height ctx) w = (s1, inb, w1)"
    using prod_cases3 by blast
  let ?c1 = "ctx\<lparr>nvencInputBuffers := (nvencInputBuffers ctx)[i := inb]\<rparr>"
  obtain s2 outb w2 where b: "nvEncCreateBitstreamBuffer api (nvencEncoder ctx) w1 = (s2, outb, w2)"
    using prod_cases3 by blast
  let ?c2 = "?c1\<lparr>nvencOutputBuffers := (nvencOutputBuffers ctx)[i := outb]\<rparr>"
  show ?case
  proof (cases "s1 = NV_ENC_SUCCESS \<and> s2 = NV_ENC_SUCCESS")
    case False
    then show ?thesis using Suc.prems a b by (auto split: if_splits)
  next
    case True
    then have r: "create_io api n (Suc i) ?c2 w2 = (nvs, ctx', w')" using Suc.prems(1) a b by simp
    have nn: "inb \<noteq> NULL" "outb \<noteq> NULL" using assms(1) a b True unfolding buffers_exist_def by blast+
    have l: "Suc i + n \<le> NVENC_MAX_IO_BUFFERS" "length (nvencInputBuffers ?c2) = NVENC_MAX_IO_BUFFERS"
      "length (nvencOutputBuffers ?c2) = NVENC_MAX_IO_BUFFERS" using Suc.prems by simp_all
    note ih = Suc.IH[OF r l]
    have fst_slot: "nvencInputBuffers ctx' ! i = inb" "nvencOutputBuffers ctx' ! i = outb" using ih Suc.prems by simp_all
    have u: "?c2\<lparr>nvencInputBuffers := X, nvencOutputBuffers := Y\<rparr> = ctx\<lparr>nvencInputBuffers := X, nvencOutputBuffers := Y\<rparr>" for X Y
      by simp
    have c: "ctx' = ctx\<lparr>nvencInputBuffers := nvencInputBuffers ctx', nvencOutputBuffers := nvencOutputBuffers ctx'\<rparr>"
      by (rule ih[THEN conjunct1, unfolded u])
    have "\<forall>j. i \<le> j \<longrightarrow> j < i + Suc n \<longrightarrow> nvencInputBuffers ctx' ! j \<noteq> NULL \<and> nvencOutputBuffers ctx' ! j \<noteq> NULL"
      if "nvs = NV_ENC_SUCCESS"
      using ih that fst_slot nn by (metis Suc_leI add_Suc_right add_Suc le_neq_implies_less)
    then show ?thesis using c ih by (intro conjI) simp_all
  qed
qed

definition encode_ready :: "int \<Rightarrow> int \<Rightarrow> ('c, 's) NVContext \<Rightarrow> bool" where
  "encode_ready width height ctx \<longleftrightarrow> cx_mode ctx = NV_CONTEXT_ENCODE \<and> io_ok ctx \<and> visible_inside ctx \<and>
     \<not> encNeedsReconfigure ctx \<and> cx_width ctx = word_of_int width \<and> cx_height ctx = word_of_int height \<and> encFrameNum ctx = 0"

lemma io_depth_bounds: "0 < io_depth n" "unat (io_depth n) \<le> NVENC_MAX_IO_BUFFERS"
  by (auto simp: io_depth_def NVENC_MAX_IO_BUFFERS_def word_less_nat_alt unat_gt_0 split: if_splits)

lemma error_status: "nvs \<noteq> NV_ENC_SUCCESS \<Longrightarrow> nvencToVaStatus nvs \<noteq> VA_STATUS_SUCCESS"
  by (cases nvs) simp_all

lemma abandon_spec:
  assumes "typed d1" "view d1 = (view d)(oid \<mapsto> x)" "view d oid = None" "nvs \<noteq> NV_ENC_SUCCESS"
  shows "\<exists>st d' w'. abandon api opened enc oid nvs d1 w = Some ((st, None), d', w') \<and> st \<noteq> VA_STATUS_SUCCESS \<and> typed d' \<and> view d' = view d"
proof -
  obtain d' where d': "deleteObject d1 oid = Some d'" "typed d'" "view d' = (view d1)(oid := None)"
    using delete_typed[OF assms(1)] by blast
  have "view d' = view d" using d'(3) assms(2,3) by (auto simp: fun_eq_iff)
  then show ?thesis using d' error_status[OF assms(4)] by (simp add: abandon_def Let_def)
qed

text \<open>The outcome of a creation: a ready context under a new identifier, or an error and the table as before.\<close>

definition created ::
  "int \<Rightarrow> int \<Rightarrow> ('c, 's, 'z) drv \<Rightarrow> ((VAStatus \<times> u32 option) \<times> ('c, 's, 'z) drv \<times> 'w) option \<Rightarrow> bool" where
  "created width height d res \<longleftrightarrow> (\<exists>st oid d' w'. res = Some ((st, oid), d', w') \<and> typed d' \<and>
     (case oid of
        None \<Rightarrow> st \<noteq> VA_STATUS_SUCCESS \<and> view d' = view d
      | Some i \<Rightarrow> st = VA_STATUS_SUCCESS \<and> view d i = None \<and>
          (\<exists>ca ctx. view d' = (view d)(i \<mapsto> (OBJECT_TYPE_CONTEXT, ca)) \<and> heap d' ca = Some (PContext ctx) \<and> encode_ready width height ctx)))"

lemma created_error: "typed d' \<Longrightarrow> view d' = view d \<Longrightarrow> st \<noteq> VA_STATUS_SUCCESS \<Longrightarrow> created width height d (Some ((st, None), d', w))"
  by (simp add: created_def)

lemma created_abandon:
  assumes "typed d1" "view d1 = (view d)(oid \<mapsto> x)" "view d oid = None" "nvs \<noteq> NV_ENC_SUCCESS"
  shows "created width height d (abandon api opened enc oid nvs d1 w)"
  using abandon_spec[OF assms, of api opened enc w] created_error by metis

text \<open>What a context fresh from the configuration guarantees.\<close>

definition unopened :: "int \<Rightarrow> int \<Rightarrow> ('c, 's) NVContext \<Rightarrow> bool" where
  "unopened width height ctx \<longleftrightarrow> cx_mode ctx = NV_CONTEXT_ENCODE \<and> \<not> encVisibleValid ctx \<and> \<not> encNeedsReconfigure ctx \<and>
     length (nvencInputBuffers ctx) = NVENC_MAX_IO_BUFFERS \<and> length (nvencOutputBuffers ctx) = NVENC_MAX_IO_BUFFERS \<and>
     0 < nvencIoBufferCount ctx \<and> unat (nvencIoBufferCount ctx) \<le> NVENC_MAX_IO_BUFFERS \<and> encFrameNum ctx = 0 \<and>
     cx_width ctx = word_of_int width \<and> cx_height ctx = word_of_int height \<and>
     unat (cx_width ctx) < 2 ^ 31 \<and> unat (cx_height ctx) < 2 ^ 31"

lemma new_encode_ctx_unopened:
  assumes "0 < width" "width < 2 ^ 31" "0 < height" "height < 2 ^ 31"
  shows "unopened width height ((new_encode_ctx depth idr cfg width height)\<lparr>encIsHevc := h\<rparr>)"
proof -
  have "unat (word_of_int x :: u32) < 2 ^ 31" if "0 < x" "x < 2 ^ 31" for x
    using that unat_word_of_int[of x] by (simp add: nat_less_iff)
  then show ?thesis using assms io_depth_bounds[of depth] by (simp add: unopened_def new_encode_ctx_def zero_context_def)
qed

lemma encode_ready_after_io:
  assumes "buffers_exist api" "unopened width height ctx" "create_io api (unat (nvencIoBufferCount ctx)) 0 ctx w = (NV_ENC_SUCCESS, ctx', w')"
  shows "encode_ready width height ctx'"
proof -
  note u = assms(2)[unfolded unopened_def]
  let ?n = "unat (nvencIoBufferCount ctx)"
  have n: "0 + ?n \<le> NVENC_MAX_IO_BUFFERS" using u by simp
  have l: "length (nvencInputBuffers ctx) = NVENC_MAX_IO_BUFFERS" "length (nvencOutputBuffers ctx) = NVENC_MAX_IO_BUFFERS" using u by simp_all
  note io = create_io_spec[OF assms(1,3) n l]
  have e: "ctx' = ctx\<lparr>nvencInputBuffers := nvencInputBuffers ctx', nvencOutputBuffers := nvencOutputBuffers ctx'\<rparr>" by (rule io[THEN conjunct1])
  have f: "cx_mode ctx' = cx_mode ctx" "encVisibleValid ctx' = encVisibleValid ctx" "encNeedsReconfigure ctx' = encNeedsReconfigure ctx"
    "nvencIoBufferCount ctx' = nvencIoBufferCount ctx" "encFrameNum ctx' = encFrameNum ctx" "cx_width ctx' = cx_width ctx"
    "cx_height ctx' = cx_height ctx"
    by (subst e, simp)+
  have "io_ok ctx'" unfolding io_ok_def f using io u by simp
  moreover have "visible_inside ctx'" unfolding visible_inside_def f using u by blast
  ultimately show ?thesis unfolding encode_ready_def f using u by simp
qed

lemma unopened_session:
  "unopened width height (ctx\<lparr>nvencEncoder := e, encConfig := c, encInitParams := p\<rparr>) = unopened width height ctx"
  "unopened width height (ctx\<lparr>encLastReconfigureNs := n\<rparr>) = unopened width height ctx"
  by (simp_all add: unopened_def)

lemma open_session_created:
  assumes "buffers_exist api" "stack_works api" "typed d1" "view d1 = (view d)(o_id ob \<mapsto> (OBJECT_TYPE_CONTEXT, o_obj ob))"
    "view d (o_id ob) = None" "heap d1 (o_obj ob) = Some (PContext c0)" "unopened width height ctx"
  shows "created width height d (open_session api cfg width height cguid pguid ob ctx d1 w)"
proof -
  obtain s1 enc w1 where a: "nvEncOpenEncodeSessionEx api w = (s1, enc, w1)" using prod_cases3 by blast
  obtain s2 preset w2 where b: "nvEncGetEncodePresetConfigEx api enc cguid w1 = (s2, preset, w2)" using prod_cases3 by blast
  let ?c1 = "ctx\<lparr>nvencEncoder := enc, encConfig := initial_config (cfg_encodeRCMode cfg) (encIsHevc ctx) preset,
    encInitParams := initial_params width height\<rparr>"
  obtain s3 w3 where i: "nvEncInitializeEncoder api enc cguid pguid (encInitParams ?c1) (encConfig ?c1) w2 = (s3, w3)" by fastforce
  obtain now w4 where t: "getMonotonicNs api w3 = (now, w4)" by fastforce
  let ?c2 = "?c1\<lparr>encLastReconfigureNs := now\<rparr>"
  obtain s5 c3 w5 where io: "create_io api (unat (nvencIoBufferCount ?c2)) 0 ?c2 w4 = (s5, c3, w5)" using prod_cases3 by blast
  obtain w6 where pop: "cuCtxPopCurrent api w5 = (True, w6)" using assms(2) unfolding stack_works_def by (metis prod.collapse)
  note ab = created_abandon[OF assms(3,4,5)]
  show ?thesis
  proof (cases "s1 = NV_ENC_SUCCESS \<and> s2 = NV_ENC_SUCCESS \<and> s3 = NV_ENC_SUCCESS \<and> s5 = NV_ENC_SUCCESS")
    case False
    obtain c4 w7 where ds: "nvencDestroyIoBuffers api (c3, w5) = (c4, w7)" by fastforce
    from False consider "s1 \<noteq> NV_ENC_SUCCESS" | "s1 = NV_ENC_SUCCESS" "s2 \<noteq> NV_ENC_SUCCESS"
      | "s1 = NV_ENC_SUCCESS" "s2 = NV_ENC_SUCCESS" "s3 \<noteq> NV_ENC_SUCCESS"
      | "s1 = NV_ENC_SUCCESS" "s2 = NV_ENC_SUCCESS" "s3 = NV_ENC_SUCCESS" "s5 \<noteq> NV_ENC_SUCCESS" by blast
    then show ?thesis using a b i t io ds by cases (simp_all add: open_session_def Let_def ab)
  next
    case True
    have "unopened width height ?c2" using assms(7) by (simp add: unopened_session del: NVContext.update_convs)
    then have r: "encode_ready width height c3" using encode_ready_after_io[OF assms(1)] io True by blast
    let ?d = "put_obj (o_obj ob) (PContext c3) d1"
    have o: "open_session api cfg width height cguid pguid ob ctx d1 w = Some ((VA_STATUS_SUCCESS, Some (o_id ob)), ?d, w6)"
      using a b i t io pop True by (simp add: open_session_def Let_def)
    have ty: "typed ?d" by (rule typed_put_obj[OF assms(3,6)]) simp
    have v: "view ?d = (view d)(o_id ob \<mapsto> (OBJECT_TYPE_CONTEXT, o_obj ob))" "heap ?d (o_obj ob) = Some (PContext c3)"
      using assms(4) by (simp_all add: put_obj_def view_def table_def)
    have "\<exists>ca ctx. view ?d = (view d)(o_id ob \<mapsto> (OBJECT_TYPE_CONTEXT, ca)) \<and> heap ?d ca = Some (PContext ctx) \<and> encode_ready width height ctx"
      using v r by blast
    then show ?thesis unfolding created_def o using ty assms(5)
      by (intro exI[of _ VA_STATUS_SUCCESS] exI[of _ "Some (o_id ob)"] exI[of _ ?d] exI[of _ w6]) simp
  qed
qed

text \<open>The calls of the encoder library that opening a session makes never fail.\<close>

definition never_fails :: "'w ctx_api \<Rightarrow> bool" where
  "never_fails api \<longleftrightarrow> (\<forall>w. fst (nvEncOpenEncodeSessionEx api w) = NV_ENC_SUCCESS) \<and>
     (\<forall>e g w. fst (nvEncGetEncodePresetConfigEx api e g w) = NV_ENC_SUCCESS) \<and>
     (\<forall>e g p ip c w. fst (nvEncInitializeEncoder api e g p ip c w) = NV_ENC_SUCCESS) \<and>
     (\<forall>e x y w. fst (nvEncCreateInputBuffer api e x y w) = NV_ENC_SUCCESS) \<and>
     (\<forall>e w. fst (nvEncCreateBitstreamBuffer api e w) = NV_ENC_SUCCESS)"

lemma create_io_succeeds:
  assumes "never_fails api"
  shows "fst (create_io api n i ctx w) = NV_ENC_SUCCESS"
  using assms by (induction n arbitrary: i ctx w) (auto simp: never_fails_def Let_def split: prod.splits, (metis fst_conv)+)

lemma open_session_succeeds:
  assumes "never_fails api" "stack_works api"
  shows "\<exists>d' w'. open_session api cfg width height cguid pguid ob ctx d w = Some ((VA_STATUS_SUCCESS, Some (o_id ob)), d', w')"
proof -
  have calls: "fst (nvEncOpenEncodeSessionEx api w) = NV_ENC_SUCCESS" "fst (nvEncGetEncodePresetConfigEx api e g w) = NV_ENC_SUCCESS"
    "fst (nvEncInitializeEncoder api e g p ip c w) = NV_ENC_SUCCESS" for e g p ip c w
    using assms(1) by (simp_all add: never_fails_def)
  have pop: "fst (cuCtxPopCurrent api w) = True" for w using assms(2) by (simp add: stack_works_def)
  show ?thesis
    using calls pop by (simp add: open_session_def Let_def split_beta create_io_succeeds[OF assms(1)])
qed

lemma create_encode_refused:
  assumes "typed d" "typed d1" "allocateObject d OBJECT_TYPE_CONTEXT (Some (PContext zero_context)) = Some (ob, d1)"
    "view d (o_id ob) = None" "view d1 = (view d)(o_id ob \<mapsto> x)"
    "\<not> nvencAvailable d \<or> width \<le> 0 \<or> height \<le> 0 \<or> profileToNvencGuids (cfg_profile cfg) = None"
  shows "\<exists>st d'. create_encode api depth cfg width height d w = Some ((st, None), d', w) \<and> st \<noteq> VA_STATUS_SUCCESS \<and> typed d' \<and> view d' = view d"
proof (cases "\<not> nvencAvailable d \<or> width \<le> 0 \<or> height \<le> 0")
  case True
  then show ?thesis using assms(1) by (auto simp: create_encode_def)
next
  case False
  obtain d2 where d2: "deleteObject d1 (o_id ob) = Some d2" "typed d2" "view d2 = (view d1)(o_id ob := None)"
    using delete_typed[OF assms(2)] by blast
  have v: "view d2 = view d" using d2(3) assms(4,5) by (auto simp: fun_eq_iff)
  have "profileToNvencGuids (cfg_profile cfg) = None" using assms(6) False by blast
  then show ?thesis using assms(3) d2(1,2) v False by (simp add: create_encode_def)
qed

section \<open>Property\<close>


text \<open>A driver that holds one encode configuration, and a library that opens every session.\<close>

definition config_driver :: "((unit, slice_param) payload) NVDriver" where
  "config_driver = (example_drv False)\<lparr>
     objects := \<lparr>arr_buf = Some \<lparr>o_type = OBJECT_TYPE_CONFIG, o_id = 1, o_obj = 1\<rparr> # replicate 15 None, arr_size = 1, arr_capacity = 16\<rparr>,
     nextObjId := 1,
     heap := [1 \<mapsto> PConfig \<lparr>cfg_profile = VAProfileH264Main, cfg_entrypoint = VAEntrypointEncSlice,
       cfg_surfaceFormat = cudaVideoSurfaceFormat_NV12, cfg_chromaFormat = cudaVideoChromaFormat_420, cfg_bitDepth = 8,
       cfg_cudaCodec = cudaVideoCodec_H264, cfg_isEncode = True, cfg_encodeRCMode = VA_RC_CBR\<rparr>],
     nextAddr := 2\<rparr>"

definition session_ctx_api :: "(NV_ENC_CONFIG \<times> NV_ENC_INITIALIZE_PARAMS) ctx_api" where
  "session_ctx_api = cuda_api.extend session_cuda (ctx_api.fields (\<lambda>w. (NV_ENC_SUCCESS, 9, w)) (\<lambda>e g w. (NV_ENC_SUCCESS, zero_config, w))
     (\<lambda>e g p ip c w. (NV_ENC_SUCCESS, (c, ip))) (\<lambda>e a b w. (NV_ENC_SUCCESS, 7, w)) (\<lambda>e w. (NV_ENC_SUCCESS, 8, w)) (\<lambda>e w. w)
     (\<lambda>i w. (Some 9, w)) (\<lambda>w. (True, w)) (\<lambda>w. (True, w)))"

lemma session_ctx_api_ok: "buffers_exist session_ctx_api" "stack_works session_ctx_api"
  by (simp_all add: buffers_exist_def stack_works_def session_ctx_api_def session_cuda_def session_api_def nvenc_api.defs cuda_api.defs ctx_api.defs)

lemma config_driver_ok: "typed config_driver" "objtab_room config_driver" "view config_driver = [1 \<mapsto> (OBJECT_TYPE_CONFIG, 1)]"
proof -
  have t: "table config_driver = [\<lparr>o_type = OBJECT_TYPE_CONFIG, o_id = 1, o_obj = 1\<rparr>]"
    by (simp add: table_def arr_elems_def config_driver_def)
  show "typed config_driver" unfolding typed_def objtab_wf_def t
    by (simp add: config_driver_def arr_wf_def arr_elems_def VA_INVALID_ID_def)
  show "objtab_room config_driver" unfolding objtab_room_def t by (simp add: config_driver_def)
  show "view config_driver = [1 \<mapsto> (OBJECT_TYPE_CONFIG, 1)]" unfolding view_def t by (auto simp: fun_eq_iff)
qed


end
