(* ===== verification/RefPics.thy ===== *)
theory RefPics
  imports Surfaces
begin

text \<open>
  What the picture parameter handlers of all codecs share (\<^verbatim>\<open>src/src/vabackend.c\<close>,
  \<open>nvSurfaceFromSurfaceId\<close> and \<open>pictureIdxFromSurfaceId\<close>): finding the surface of an
  identifier, finding the decoder's index of a reference picture, and writing a field of the picture's
  render target.

  The parameter structs of VA-API and of the decoder come from headers outside the repository.  Each
  codec has a record for its two structs with the fields the handler reads or writes; the bit fields of
  a union are fields of the record.  A scalar is its mathematical value; where the code computes with a
  narrow type, the wrap-around is written out.  An array is a list, whose length is that of the C array,
  and an access outside of it is stuck.
\<close>

definition nvSurfaceFromSurfaceId :: "('c, 's, 'z) drv \<Rightarrow> u32 \<Rightarrow> addr option" where
  "nvSurfaceFromSurfaceId d surf = do {
     ob \<leftarrow> getObject d OBJECT_TYPE_SURFACE surf;
     Some (case ob of None \<Rightarrow> NULL | Some ob \<Rightarrow> o_obj ob)
   }"

definition pictureIdxFromSurfaceId :: "('c, 's, 'z) drv \<Rightarrow> u32 \<Rightarrow> int option" where
  "pictureIdxFromSurfaceId d surfId = do {
     a \<leftarrow> nvSurfaceFromSurfaceId d surfId;
     if a = NULL then Some (- 1)
     else do {
       s \<leftarrow> get_surface d a;
       Some (pictureIdx s)
     }
   }"

text \<open>A write through \<^verbatim>\<open>ctx->renderTarget\<close>; \<open>to_int\<close> is the value of a C condition.\<close>

definition update_target :: "addr \<Rightarrow> (NVSurface \<Rightarrow> NVSurface) \<Rightarrow> ('c, 's, 'z) drv \<Rightarrow> ('c, 's, 'z) drv option" where
  "update_target a f d = do {
     s \<leftarrow> get_surface d a;
     Some (put_obj a (PSurface (f s)) d)
   }"

definition to_int :: "bool \<Rightarrow> int" where
  "to_int b = (if b then 1 else 0)"

lemma to_int_simps [simp]: "to_int True = 1" "to_int False = 0" "(to_int b = 0) = (\<not> b)" "(to_int b \<noteq> 0) = b"
  by (auto simp: to_int_def)

text \<open>A bit mask of a flag word.\<close>

definition has_flag :: "u32 \<Rightarrow> u32 \<Rightarrow> bool" where
  "has_flag w m \<longleftrightarrow> w AND m \<noteq> 0"

section \<open>Looking up references\<close>

text \<open>The index of a reference: that of its surface, \<open>- 1\<close> when there is no such surface.\<close>

definition ref_index :: "('c, 's, 'z) drv \<Rightarrow> u32 \<Rightarrow> int" where
  "ref_index d i =
     (case view d i of
        Some (OBJECT_TYPE_SURFACE, a) \<Rightarrow> (case heap d a of Some (PSurface s) \<Rightarrow> pictureIdx s | _ \<Rightarrow> - 1)
      | _ \<Rightarrow> - 1)"

lemma nvSurfaceFromSurfaceId_getObjectPtr:
  "i \<noteq> VA_INVALID_ID \<Longrightarrow> nvSurfaceFromSurfaceId d i = getObjectPtr d OBJECT_TYPE_SURFACE i"
  by (simp add: nvSurfaceFromSurfaceId_def getObjectPtr_def)

lemma getObjectPtr_invalid [simp]: "getObjectPtr d ty VA_INVALID_ID = Some NULL"
  by (simp add: getObjectPtr_def)

lemma nvSurfaceFromSurfaceId_eq:
  "nvSurfaceFromSurfaceId d i = getObjectPtr d OBJECT_TYPE_SURFACE i"
proof (cases "i = VA_INVALID_ID")
  case True
  then show ?thesis by (simp add: nvSurfaceFromSurfaceId_def getObject_def)
qed (rule nvSurfaceFromSurfaceId_getObjectPtr)

lemma pictureIdx_lookup:
  assumes "typed d"
  shows "pictureIdxFromSurfaceId d i = Some (ref_index d i)"
proof (cases "\<exists>a. view d i = Some (OBJECT_TYPE_SURFACE, a)")
  case True
  then obtain a where v: "view d i = Some (OBJECT_TYPE_SURFACE, a)" by blast
  then obtain s where "heap d a = Some (PSurface s)" "a \<noteq> NULL"
    using typed_view[OF assms v] by (auto simp: payload_type_cases)
  then show ?thesis
    using v by (simp add: pictureIdxFromSurfaceId_def nvSurfaceFromSurfaceId_eq typed_get[OF assms]
        ref_index_def get_surface_def)
next
  case False
  then have "getObjectPtr d OBJECT_TYPE_SURFACE i = Some NULL"
    by (cases "view d i") (auto simp: typed_get[OF assms])
  moreover have "ref_index d i = - 1"
    using False by (auto simp: ref_index_def split: option.splits ObjectType.splits)
  ultimately show ?thesis
    by (simp add: pictureIdxFromSurfaceId_def nvSurfaceFromSurfaceId_eq)
qed

lemma update_target_keeps:
  assumes "typed d" "get_surface d a = Some s" "pictureIdx (f s) = pictureIdx s"
  shows "update_target a f d = Some (put_obj a (PSurface (f s)) d)" "typed (put_obj a (PSurface (f s)) d)"
    "ref_index (put_obj a (PSurface (f s)) d) = ref_index d"
proof -
  have h: "heap d a = Some (PSurface s)" using assms(2) by (simp add: get_iff_heap)
  show "update_target a f d = Some (put_obj a (PSurface (f s)) d)" by (simp add: update_target_def assms(2))
  show "typed (put_obj a (PSurface (f s)) d)" by (rule typed_put_obj[OF assms(1) h]) simp
  show "ref_index (put_obj a (PSurface (f s)) d) = ref_index d"
    using h assms(3) by (auto simp: ref_index_def fun_eq_iff split: option.splits ObjectType.splits payload.splits)
qed

text \<open>Lists of lookups.\<close>

fun map_opt :: "('a \<Rightarrow> 'b option) \<Rightarrow> 'a list \<Rightarrow> 'b list option" where
  "map_opt f [] = Some []"
| "map_opt f (x # xs) = do { y \<leftarrow> f x; ys \<leftarrow> map_opt f xs; Some (y # ys) }"

lemma map_opt_total: "(\<And>x. x \<in> set xs \<Longrightarrow> f x = Some (g x)) \<Longrightarrow> map_opt f xs = Some (map g xs)"
  by (induction xs) simp_all

text \<open>The start of every handler's loop over an array: the first \<open>n\<close> entries, stuck when there are fewer.\<close>

definition take_c :: "nat \<Rightarrow> 'a list \<Rightarrow> 'a list option" where
  "take_c n xs = (if n \<le> length xs then Some (take n xs) else None)"

text \<open>Overwriting the first entries of an array.\<close>

definition store_c :: "'a list \<Rightarrow> 'a list \<Rightarrow> 'a list option" where
  "store_c xs arr = (if length xs \<le> length arr then Some (xs @ drop (length xs) arr) else None)"

section \<open>A small session\<close>

text \<open>Three surfaces: the render target (1) and two references (2, 3), which hold the indices 0, 4 and 5.\<close>

definition pic_objects :: "Object_t list" where
  "pic_objects = map (\<lambda>i. \<lparr>o_type = OBJECT_TYPE_SURFACE, o_id = of_nat i, o_obj = i\<rparr>) [1, 2, 3]"

definition pic_surface :: "int \<Rightarrow> NVSurface" where
  "pic_surface i = zero_surface\<lparr>sf_width := 64, sf_height := 32, pictureIdx := i\<rparr>"

definition pic_drv :: "((unit, unit) payload) NVDriver" where
  "pic_drv = \<lparr>objects = \<lparr>arr_buf = map Some pic_objects @ replicate 13 None, arr_size = 3, arr_capacity = 16\<rparr>,
     nextObjId = 3,
     heap = [1 \<mapsto> PSurface (pic_surface 0), 2 \<mapsto> PSurface (pic_surface 4), 3 \<mapsto> PSurface (pic_surface 5)],
     nextAddr = 4, mem = Map.empty, nextBlk = 1,
     nvencAvailable = False, supports16BitSurface = True, supports444Surface = False, g_disableDecoder = False,
     g_encStrictMode = False, g_encForceIdrEvery = 0,
     g_encStartupIdrFrames = 16, g_encReconfigureMinMs = 800, g_encVisibleReconfigure = False\<rparr>"

lemma pic_table: "table pic_drv = pic_objects"
  by (simp add: table_def arr_elems_def pic_drv_def pic_objects_def)

lemma pic_typed: "typed pic_drv"
  unfolding typed_def objtab_wf_def pic_table
  by (simp add: pic_drv_def pic_objects_def arr_wf_def arr_elems_def VA_INVALID_ID_def)

lemma pic_view: "view pic_drv = [1 \<mapsto> (OBJECT_TYPE_SURFACE, 1), 2 \<mapsto> (OBJECT_TYPE_SURFACE, 2), 3 \<mapsto> (OBJECT_TYPE_SURFACE, 3)]"
  unfolding view_def pic_table by (auto simp: pic_objects_def fun_eq_iff)

lemma pic_heap: "heap pic_drv 1 = Some (PSurface (pic_surface 0))" "heap pic_drv 2 = Some (PSurface (pic_surface 4))"
  "heap pic_drv 3 = Some (PSurface (pic_surface 5))"
  by (simp_all add: pic_drv_def)

lemma pic_target: "get_surface pic_drv 1 = Some (pic_surface 0)"
  by (simp add: get_surface_def pic_heap[simplified])

lemma pic_ref_index: "ref_index pic_drv 1 = 0" "ref_index pic_drv 2 = 4" "ref_index pic_drv 3 = 5"
  "ref_index pic_drv VA_INVALID_ID = - 1"
  by (simp_all add: ref_index_def pic_view pic_heap[simplified] pic_surface_def VA_INVALID_ID_def)

end
