(* ===== verification/Hevc.thy ===== *)
theory Hevc
  imports RefPics CodecCtx
begin

text \<open>
  The picture parameter and scaling list handlers of the HEVC decoder (\<^verbatim>\<open>src/src/hevc.c\<close>:
  \<open>copyHEVCPicParam\<close>, \<open>copyHEVCIQMatrix\<close>).  The library function \<open>qsort_r\<close> is a
  parameter; its documented behaviour is \<open>sorts\<close> below.
\<close>

section \<open>The parameter structs\<close>

record VAPictureHEVC =
  picture_id :: u32
  pic_order_cnt :: int
  pic_flags :: u32

definition VA_PICTURE_HEVC_FIELD_PIC :: u32 where "VA_PICTURE_HEVC_FIELD_PIC = 0x2"
definition VA_PICTURE_HEVC_BOTTOM_FIELD :: u32 where "VA_PICTURE_HEVC_BOTTOM_FIELD = 0x4"
definition VA_PICTURE_HEVC_LONG_TERM_REFERENCE :: u32 where "VA_PICTURE_HEVC_LONG_TERM_REFERENCE = 0x8"
definition VA_PICTURE_HEVC_RPS_ST_CURR_BEFORE :: u32 where "VA_PICTURE_HEVC_RPS_ST_CURR_BEFORE = 0x10"
definition VA_PICTURE_HEVC_RPS_ST_CURR_AFTER :: u32 where "VA_PICTURE_HEVC_RPS_ST_CURR_AFTER = 0x20"
definition VA_PICTURE_HEVC_RPS_LT_CURR :: u32 where "VA_PICTURE_HEVC_RPS_LT_CURR = 0x40"

record VAPictureParameterBufferHEVC =
  va_CurrPic :: VAPictureHEVC
  va_ReferenceFrames :: "VAPictureHEVC list"
  va_IntraPicFlag :: int
  va_column_width_minus1 :: "int list"
  va_row_height_minus1 :: "int list"
  va_pic_width_in_luma_samples :: int
  va_pic_height_in_luma_samples :: int
  va_log2_min_luma_coding_block_size_minus3 :: int
  va_log2_diff_max_min_luma_coding_block_size :: int
  va_log2_min_transform_block_size_minus2 :: int
  va_log2_diff_max_min_transform_block_size :: int
  va_pcm_enabled_flag :: int
  va_log2_min_pcm_luma_coding_block_size_minus3 :: int
  va_log2_diff_max_min_pcm_luma_coding_block_size :: int
  va_pcm_sample_bit_depth_luma_minus1 :: int
  va_pcm_sample_bit_depth_chroma_minus1 :: int
  va_pcm_loop_filter_disabled_flag :: int
  va_strong_intra_smoothing_enabled_flag :: int
  va_max_transform_hierarchy_depth_intra :: int
  va_max_transform_hierarchy_depth_inter :: int
  va_amp_enabled_flag :: int
  va_separate_colour_plane_flag :: int
  va_log2_max_pic_order_cnt_lsb_minus4 :: int
  va_num_short_term_ref_pic_sets :: int
  va_long_term_ref_pics_present_flag :: int
  va_num_long_term_ref_pic_sps :: int
  va_sps_temporal_mvp_enabled_flag :: int
  va_sample_adaptive_offset_enabled_flag :: int
  va_scaling_list_enabled_flag :: int
  va_RapPicFlag :: int
  va_IdrPicFlag :: int
  va_bit_depth_luma_minus8 :: int
  va_bit_depth_chroma_minus8 :: int
  va_pps_beta_offset_div2 :: int
  va_pps_tc_offset_div2 :: int
  va_dependent_slice_segments_enabled_flag :: int
  va_slice_segment_header_extension_present_flag :: int
  va_sign_data_hiding_enabled_flag :: int
  va_cu_qp_delta_enabled_flag :: int
  va_diff_cu_qp_delta_depth :: int
  va_init_qp_minus26 :: int
  va_pps_cb_qp_offset :: int
  va_pps_cr_qp_offset :: int
  va_constrained_intra_pred_flag :: int
  va_weighted_pred_flag :: int
  va_weighted_bipred_flag :: int
  va_transform_skip_enabled_flag :: int
  va_transquant_bypass_enabled_flag :: int
  va_entropy_coding_sync_enabled_flag :: int
  va_log2_parallel_merge_level_minus2 :: int
  va_num_extra_slice_header_bits :: int
  va_loop_filter_across_tiles_enabled_flag :: int
  va_pps_loop_filter_across_slices_enabled_flag :: int
  va_output_flag_present_flag :: int
  va_num_ref_idx_l0_default_active_minus1 :: int
  va_num_ref_idx_l1_default_active_minus1 :: int
  va_lists_modification_present_flag :: int
  va_cabac_init_present_flag :: int
  va_pps_slice_chroma_qp_offsets_present_flag :: int
  va_deblocking_filter_override_enabled_flag :: int
  va_pps_disable_deblocking_filter_flag :: int
  va_tiles_enabled_flag :: int
  va_num_tile_columns_minus1 :: int
  va_num_tile_rows_minus1 :: int
  va_st_rps_bits :: int

text \<open>The structs of the decoder; the three reference sets are arrays with a count beside each.\<close>

record CUVIDHEVCPICPARAMS =
  pic_width_in_luma_samples :: int
  pic_height_in_luma_samples :: int
  log2_min_luma_coding_block_size_minus3 :: int
  log2_diff_max_min_luma_coding_block_size :: int
  log2_min_transform_block_size_minus2 :: int
  log2_diff_max_min_transform_block_size :: int
  pcm_enabled_flag :: int
  log2_min_pcm_luma_coding_block_size_minus3 :: int
  log2_diff_max_min_pcm_luma_coding_block_size :: int
  pcm_sample_bit_depth_luma_minus1 :: int
  pcm_sample_bit_depth_chroma_minus1 :: int
  pcm_loop_filter_disabled_flag :: int
  strong_intra_smoothing_enabled_flag :: int
  max_transform_hierarchy_depth_intra :: int
  max_transform_hierarchy_depth_inter :: int
  amp_enabled_flag :: int
  separate_colour_plane_flag :: int
  log2_max_pic_order_cnt_lsb_minus4 :: int
  num_short_term_ref_pic_sets :: int
  long_term_ref_pics_present_flag :: int
  num_long_term_ref_pics_sps :: int
  sps_temporal_mvp_enabled_flag :: int
  sample_adaptive_offset_enabled_flag :: int
  scaling_list_enable_flag :: int
  IrapPicFlag :: int
  IdrPicFlag :: int
  bit_depth_luma_minus8 :: int
  bit_depth_chroma_minus8 :: int
  pps_beta_offset_div2 :: int
  pps_tc_offset_div2 :: int
  dependent_slice_segments_enabled_flag :: int
  slice_segment_header_extension_present_flag :: int
  sign_data_hiding_enabled_flag :: int
  cu_qp_delta_enabled_flag :: int
  diff_cu_qp_delta_depth :: int
  init_qp_minus26 :: int
  pps_cb_qp_offset :: int
  pps_cr_qp_offset :: int
  constrained_intra_pred_flag :: int
  weighted_pred_flag :: int
  weighted_bipred_flag :: int
  transform_skip_enabled_flag :: int
  transquant_bypass_enabled_flag :: int
  entropy_coding_sync_enabled_flag :: int
  log2_parallel_merge_level_minus2 :: int
  num_extra_slice_header_bits :: int
  loop_filter_across_tiles_enabled_flag :: int
  loop_filter_across_slices_enabled_flag :: int
  output_flag_present_flag :: int
  num_ref_idx_l0_default_active_minus1 :: int
  num_ref_idx_l1_default_active_minus1 :: int
  lists_modification_present_flag :: int
  cabac_init_present_flag :: int
  pps_slice_chroma_qp_offsets_present_flag :: int
  deblocking_filter_override_enabled_flag :: int
  pps_deblocking_filter_disabled_flag :: int
  tiles_enabled_flag :: int
  num_tile_columns_minus1 :: int
  num_tile_rows_minus1 :: int
  NumBitsForShortTermRPSInSlice :: int
  uniform_spacing_flag :: int
  NumDeltaPocsOfRefRpsIdx :: int
  CurrPicOrderCntVal :: int
  NumPocTotalCurr :: nat
  NumPocStCurrBefore :: nat
  NumPocStCurrAfter :: nat
  NumPocLtCurr :: nat
  column_width_minus1 :: "int list"
  row_height_minus1 :: "int list"
  RefPicIdx :: "int list"
  PicOrderCntVal :: "int list"
  IsLongTerm :: "bool list"
  RefPicSetStCurrBefore :: "nat list"
  RefPicSetStCurrAfter :: "nat list"
  RefPicSetLtCurr :: "nat list"
  ScalingList4x4 :: "int list list"
  ScalingList8x8 :: "int list list"
  ScalingList16x16 :: "int list list"
  ScalingList32x32 :: "int list list"
  ScalingListDCCoeff16x16 :: "int list"
  ScalingListDCCoeff32x32 :: "int list"

record VAIQMatrixBufferHEVC =
  va_ScalingList4x4 :: "int list list"
  va_ScalingList8x8 :: "int list list"
  va_ScalingList16x16 :: "int list list"
  va_ScalingList32x32 :: "int list list"
  va_ScalingListDC16x16 :: "int list"
  va_ScalingListDC32x32 :: "int list"

text \<open>The decoder parameters while the union holds its HEVC member.\<close>

record HEVCPicParams = CUVIDPICPARAMS +
  hevc :: CUVIDHEVCPICPARAMS

section \<open>Picture parameters\<close>

definition copy_hevc_fields :: "VAPictureParameterBufferHEVC \<Rightarrow> CUVIDHEVCPICPARAMS \<Rightarrow> CUVIDHEVCPICPARAMS" where
  "copy_hevc_fields buf ppc = ppc\<lparr>
     pic_width_in_luma_samples := va_pic_width_in_luma_samples buf,
     pic_height_in_luma_samples := va_pic_height_in_luma_samples buf,
     log2_min_luma_coding_block_size_minus3 := va_log2_min_luma_coding_block_size_minus3 buf,
     log2_diff_max_min_luma_coding_block_size := va_log2_diff_max_min_luma_coding_block_size buf,
     log2_min_transform_block_size_minus2 := va_log2_min_transform_block_size_minus2 buf,
     log2_diff_max_min_transform_block_size := va_log2_diff_max_min_transform_block_size buf,
     pcm_enabled_flag := va_pcm_enabled_flag buf,
     log2_min_pcm_luma_coding_block_size_minus3 := va_log2_min_pcm_luma_coding_block_size_minus3 buf,
     log2_diff_max_min_pcm_luma_coding_block_size := va_log2_diff_max_min_pcm_luma_coding_block_size buf,
     pcm_sample_bit_depth_luma_minus1 := va_pcm_sample_bit_depth_luma_minus1 buf,
     pcm_sample_bit_depth_chroma_minus1 := va_pcm_sample_bit_depth_chroma_minus1 buf,
     pcm_loop_filter_disabled_flag := va_pcm_loop_filter_disabled_flag buf,
     strong_intra_smoothing_enabled_flag := va_strong_intra_smoothing_enabled_flag buf,
     max_transform_hierarchy_depth_intra := va_max_transform_hierarchy_depth_intra buf,
     max_transform_hierarchy_depth_inter := va_max_transform_hierarchy_depth_inter buf,
     amp_enabled_flag := va_amp_enabled_flag buf,
     separate_colour_plane_flag := va_separate_colour_plane_flag buf,
     log2_max_pic_order_cnt_lsb_minus4 := va_log2_max_pic_order_cnt_lsb_minus4 buf,
     num_short_term_ref_pic_sets := va_num_short_term_ref_pic_sets buf,
     long_term_ref_pics_present_flag := va_long_term_ref_pics_present_flag buf,
     num_long_term_ref_pics_sps := va_num_long_term_ref_pic_sps buf,
     sps_temporal_mvp_enabled_flag := va_sps_temporal_mvp_enabled_flag buf,
     sample_adaptive_offset_enabled_flag := va_sample_adaptive_offset_enabled_flag buf,
     scaling_list_enable_flag := va_scaling_list_enabled_flag buf, IrapPicFlag := va_RapPicFlag buf,
     IdrPicFlag := va_IdrPicFlag buf, bit_depth_luma_minus8 := va_bit_depth_luma_minus8 buf,
     bit_depth_chroma_minus8 := va_bit_depth_chroma_minus8 buf,
     pps_beta_offset_div2 := va_pps_beta_offset_div2 buf, pps_tc_offset_div2 := va_pps_tc_offset_div2 buf,
     dependent_slice_segments_enabled_flag := va_dependent_slice_segments_enabled_flag buf,
     slice_segment_header_extension_present_flag := va_slice_segment_header_extension_present_flag buf,
     sign_data_hiding_enabled_flag := va_sign_data_hiding_enabled_flag buf,
     cu_qp_delta_enabled_flag := va_cu_qp_delta_enabled_flag buf,
     diff_cu_qp_delta_depth := va_diff_cu_qp_delta_depth buf, init_qp_minus26 := va_init_qp_minus26 buf,
     pps_cb_qp_offset := va_pps_cb_qp_offset buf, pps_cr_qp_offset := va_pps_cr_qp_offset buf,
     constrained_intra_pred_flag := va_constrained_intra_pred_flag buf,
     weighted_pred_flag := va_weighted_pred_flag buf, weighted_bipred_flag := va_weighted_bipred_flag buf,
     transform_skip_enabled_flag := va_transform_skip_enabled_flag buf,
     transquant_bypass_enabled_flag := va_transquant_bypass_enabled_flag buf,
     entropy_coding_sync_enabled_flag := va_entropy_coding_sync_enabled_flag buf,
     log2_parallel_merge_level_minus2 := va_log2_parallel_merge_level_minus2 buf,
     num_extra_slice_header_bits := va_num_extra_slice_header_bits buf,
     loop_filter_across_tiles_enabled_flag := va_loop_filter_across_tiles_enabled_flag buf,
     loop_filter_across_slices_enabled_flag := va_pps_loop_filter_across_slices_enabled_flag buf,
     output_flag_present_flag := va_output_flag_present_flag buf,
     num_ref_idx_l0_default_active_minus1 := va_num_ref_idx_l0_default_active_minus1 buf,
     num_ref_idx_l1_default_active_minus1 := va_num_ref_idx_l1_default_active_minus1 buf,
     lists_modification_present_flag := va_lists_modification_present_flag buf,
     cabac_init_present_flag := va_cabac_init_present_flag buf,
     pps_slice_chroma_qp_offsets_present_flag := va_pps_slice_chroma_qp_offsets_present_flag buf,
     deblocking_filter_override_enabled_flag := va_deblocking_filter_override_enabled_flag buf,
     pps_deblocking_filter_disabled_flag := va_pps_disable_deblocking_filter_flag buf,
     tiles_enabled_flag := va_tiles_enabled_flag buf,
     num_tile_columns_minus1 := va_num_tile_columns_minus1 buf,
     num_tile_rows_minus1 := va_num_tile_rows_minus1 buf, NumBitsForShortTermRPSInSlice := va_st_rps_bits buf,
     uniform_spacing_flag := 1, NumDeltaPocsOfRefRpsIdx := 0, NumPocTotalCurr := 0, NumPocStCurrBefore := 0,
     NumPocStCurrAfter := 0, NumPocLtCurr := 0, CurrPicOrderCntVal := pic_order_cnt (va_CurrPic buf)\<rparr>"

text \<open>
  The comparison of neighbouring tile sizes: \<open>k\<close> rounds from index \<open>i\<close>, left at the first
  difference.
\<close>

fun equal_run :: "nat \<Rightarrow> nat \<Rightarrow> int list \<Rightarrow> bool option" where
  "equal_run 0 i xs = Some True"
| "equal_run (Suc k) i xs = do {
     a \<leftarrow> nth_c xs i;
     b \<leftarrow> nth_c xs (i + 1);
     if a \<noteq> b then Some False else equal_run k (i + 1) xs
   }"

definition uniform_spacing :: "VAPictureParameterBufferHEVC \<Rightarrow> bool option" where
  "uniform_spacing buf = do {
     u \<leftarrow> equal_run 19 0 (va_column_width_minus1 buf);
     if u then equal_run 21 0 (va_row_height_minus1 buf) else Some False
   }"

definition copy_tiles :: "VAPictureParameterBufferHEVC \<Rightarrow> CUVIDHEVCPICPARAMS \<Rightarrow> CUVIDHEVCPICPARAMS option" where
  "copy_tiles buf ppc = do {
     ppc \<leftarrow> (if tiles_enabled_flag ppc \<noteq> 0 then do {
              u \<leftarrow> uniform_spacing buf;
              Some (if u then ppc else ppc\<lparr>uniform_spacing_flag := 0\<rparr>)
            } else Some ppc);
     cols \<leftarrow> take_c (nat (num_tile_columns_minus1 ppc + 1)) (va_column_width_minus1 buf);
     cols \<leftarrow> store_c cols (column_width_minus1 ppc);
     rows \<leftarrow> take_c (nat (num_tile_rows_minus1 ppc + 1)) (va_row_height_minus1 buf);
     rows \<leftarrow> store_c rows (row_height_minus1 ppc);
     Some (ppc\<lparr>column_width_minus1 := cols, row_height_minus1 := rows\<rparr>)
   }"

text \<open>Writing one array entry, and putting an index behind the counted part of a reference set.\<close>

definition upd_c :: "'a list \<Rightarrow> nat \<Rightarrow> 'a \<Rightarrow> 'a list option" where
  "upd_c xs i x = (if i < length xs then Some (xs[i := x]) else None)"

definition add_ref :: "nat \<Rightarrow> VAPictureHEVC \<Rightarrow> CUVIDHEVCPICPARAMS \<Rightarrow> CUVIDHEVCPICPARAMS option" where
  "add_ref i pic ppc =
     (if has_flag (pic_flags pic) VA_PICTURE_HEVC_RPS_ST_CURR_BEFORE then do {
        s \<leftarrow> upd_c (RefPicSetStCurrBefore ppc) (NumPocStCurrBefore ppc) i;
        Some (ppc\<lparr>RefPicSetStCurrBefore := s, NumPocStCurrBefore := NumPocStCurrBefore ppc + 1\<rparr>)
      }
      else if has_flag (pic_flags pic) VA_PICTURE_HEVC_RPS_ST_CURR_AFTER then do {
        s \<leftarrow> upd_c (RefPicSetStCurrAfter ppc) (NumPocStCurrAfter ppc) i;
        Some (ppc\<lparr>RefPicSetStCurrAfter := s, NumPocStCurrAfter := NumPocStCurrAfter ppc + 1\<rparr>)
      }
      else if has_flag (pic_flags pic) VA_PICTURE_HEVC_RPS_LT_CURR then do {
        s \<leftarrow> upd_c (RefPicSetLtCurr ppc) (NumPocLtCurr ppc) i;
        Some (ppc\<lparr>RefPicSetLtCurr := s, NumPocLtCurr := NumPocLtCurr ppc + 1\<rparr>)
      }
      else Some ppc)"

definition copy_ref :: "('c, 's, 'z) drv \<Rightarrow> nat \<Rightarrow> VAPictureHEVC \<Rightarrow> CUVIDHEVCPICPARAMS \<Rightarrow> CUVIDHEVCPICPARAMS option" where
  "copy_ref d i pic ppc = do {
     idx \<leftarrow> pictureIdxFromSurfaceId d (picture_id pic);
     idxs \<leftarrow> upd_c (RefPicIdx ppc) i idx;
     pocs \<leftarrow> upd_c (PicOrderCntVal ppc) i (pic_order_cnt pic);
     lts \<leftarrow> upd_c (IsLongTerm ppc) i (i \<noteq> 0 \<and> has_flag (pic_flags pic) VA_PICTURE_HEVC_LONG_TERM_REFERENCE);
     add_ref i pic (ppc\<lparr>RefPicIdx := idxs, PicOrderCntVal := pocs, IsLongTerm := lts,
       NumPocTotalCurr := (if i \<noteq> 0 \<and> idx \<noteq> - 1 then NumPocTotalCurr ppc + 1 else NumPocTotalCurr ppc)\<rparr>)
   }"

fun copy_refs :: "('c, 's, 'z) drv \<Rightarrow> nat \<Rightarrow> VAPictureHEVC list \<Rightarrow> CUVIDHEVCPICPARAMS \<Rightarrow> CUVIDHEVCPICPARAMS option" where
  "copy_refs d i [] ppc = Some ppc"
| "copy_refs d i (pic # pics) ppc = do {
     ppc \<leftarrow> copy_ref d i pic ppc;
     copy_refs d (i + 1) pics ppc
   }"

definition sortFunc :: "int list \<Rightarrow> nat \<Rightarrow> nat \<Rightarrow> int" where
  "sortFunc POCV a b = (if POCV ! a < POCV ! b then - 1 else 1)"

definition sortFuncRev :: "int list \<Rightarrow> nat \<Rightarrow> nat \<Rightarrow> int" where
  "sortFuncRev POCV a b = (if POCV ! a < POCV ! b then 1 else - 1)"

text \<open>\<open>qsort\<close> sorts the first \<open>n\<close> entries of an array in place.\<close>

definition sort_prefix ::
  "((nat \<Rightarrow> nat \<Rightarrow> int) \<Rightarrow> nat list \<Rightarrow> nat list) \<Rightarrow> (nat \<Rightarrow> nat \<Rightarrow> int) \<Rightarrow> nat \<Rightarrow> nat list \<Rightarrow> nat list option" where
  "sort_prefix qsort cmp n xs = do {
     ys \<leftarrow> take_c n xs;
     Some (qsort cmp ys @ drop n xs)
   }"

definition sort_refs ::
  "((nat \<Rightarrow> nat \<Rightarrow> int) \<Rightarrow> nat list \<Rightarrow> nat list) \<Rightarrow> CUVIDHEVCPICPARAMS \<Rightarrow> CUVIDHEVCPICPARAMS option" where
  "sort_refs qsort ppc = do {
     before \<leftarrow> sort_prefix qsort (sortFuncRev (PicOrderCntVal ppc)) (NumPocStCurrBefore ppc) (RefPicSetStCurrBefore ppc);
     after \<leftarrow> sort_prefix qsort (sortFunc (PicOrderCntVal ppc)) (NumPocStCurrAfter ppc) (RefPicSetStCurrAfter ppc);
     Some (ppc\<lparr>RefPicSetStCurrBefore := before, RefPicSetStCurrAfter := after\<rparr>)
   }"

text \<open>
  \<open>pic\<close> runs from \<^verbatim>\<open>CurrPic\<close> over the fifteen \<^verbatim>\<open>ReferenceFrames\<close> that follow it in the
  struct.
\<close>

definition copy_hevc_header :: "VAPictureParameterBufferHEVC \<Rightarrow> HEVCPicParams \<Rightarrow> HEVCPicParams" where
  "copy_hevc_header buf picParams = picParams\<lparr>
     PicWidthInMbs := va_pic_width_in_luma_samples buf div 16,
     FrameHeightInMbs := va_pic_height_in_luma_samples buf div 16,
     field_pic_flag := to_int (has_flag (pic_flags (va_CurrPic buf)) VA_PICTURE_HEVC_FIELD_PIC),
     bottom_field_flag := to_int (has_flag (pic_flags (va_CurrPic buf)) VA_PICTURE_HEVC_BOTTOM_FIELD),
     second_field := 0, ref_pic_flag := 1, intra_pic_flag := va_IntraPicFlag buf\<rparr>"

definition copyHEVCPicParam ::
  "((nat \<Rightarrow> nat \<Rightarrow> int) \<Rightarrow> nat list \<Rightarrow> nat list) \<Rightarrow> addr \<Rightarrow> VAPictureParameterBufferHEVC \<Rightarrow>
   ('c, 's, 'z) drv \<Rightarrow> HEVCPicParams \<Rightarrow> (('c, 's, 'z) drv \<times> HEVCPicParams) option" where
  "copyHEVCPicParam qsort target buf d picParams = do {
     let picParams = copy_hevc_header buf picParams;
     d \<leftarrow> update_target target (\<lambda>s. s\<lparr>progressiveFrame := (field_pic_flag picParams = 0)\<rparr>) d;
     ppc \<leftarrow> copy_tiles buf (copy_hevc_fields buf (hevc picParams));
     pics \<leftarrow> take_c 16 (va_CurrPic buf # va_ReferenceFrames buf);
     ppc \<leftarrow> copy_refs d 0 pics ppc;
     ppc \<leftarrow> sort_refs qsort ppc;
     Some (d, picParams\<lparr>hevc := ppc\<rparr>)
   }"

section \<open>Scaling lists\<close>

definition ff_hevc_diag_scan4x4_x :: "nat list" where
  "ff_hevc_diag_scan4x4_x =
    [0, 0, 1, 0, 1, 2, 0, 1, 2, 3, 1, 2, 3, 2, 3, 3]"

definition ff_hevc_diag_scan4x4_y :: "nat list" where
  "ff_hevc_diag_scan4x4_y =
    [0, 1, 0, 2, 1, 0, 3, 2, 1, 0, 3, 2, 1, 3, 2, 3]"

definition ff_hevc_diag_scan8x8_x :: "nat list" where
  "ff_hevc_diag_scan8x8_x =
    [0, 0, 1, 0, 1, 2, 0, 1, 2, 3, 0, 1, 2, 3, 4, 0,
     1, 2, 3, 4, 5, 0, 1, 2, 3, 4, 5, 6, 0, 1, 2, 3,
     4, 5, 6, 7, 1, 2, 3, 4, 5, 6, 7, 2, 3, 4, 5, 6,
     7, 3, 4, 5, 6, 7, 4, 5, 6, 7, 5, 6, 7, 6, 7, 7]"

definition ff_hevc_diag_scan8x8_y :: "nat list" where
  "ff_hevc_diag_scan8x8_y =
    [0, 1, 0, 2, 1, 0, 3, 2, 1, 0, 4, 3, 2, 1, 0, 5,
     4, 3, 2, 1, 0, 6, 5, 4, 3, 2, 1, 0, 7, 6, 5, 4,
     3, 2, 1, 0, 7, 6, 5, 4, 3, 2, 1, 7, 6, 5, 4, 3,
     2, 7, 6, 5, 4, 3, 7, 6, 5, 4, 7, 6, 5, 7, 6, 7]"

text \<open>The first \<open>n\<close> rows of a list of lists, each read at the positions of a scan.\<close>

definition scan_rows :: "nat \<Rightarrow> nat list \<Rightarrow> int list list \<Rightarrow> int list list option" where
  "scan_rows n pos rows = do {
     rows \<leftarrow> take_c n rows;
     map_opt (\<lambda>row. map_opt (nth_c row) pos) rows
   }"

definition scan4x4 :: "nat list" where
  "scan4x4 = map2 (\<lambda>y x. 4 * y + x) ff_hevc_diag_scan4x4_y ff_hevc_diag_scan4x4_x"

definition scan8x8 :: "nat list" where
  "scan8x8 = map2 (\<lambda>y x. 8 * y + x) ff_hevc_diag_scan8x8_y ff_hevc_diag_scan8x8_x"

text \<open>Every entry of the destination arrays is overwritten: six lists per size, two for 32x32.\<close>

definition copyHEVCIQMatrix :: "VAIQMatrixBufferHEVC \<Rightarrow> HEVCPicParams \<Rightarrow> HEVCPicParams option" where
  "copyHEVCIQMatrix iq picParams = do {
     l4 \<leftarrow> scan_rows 6 scan4x4 (va_ScalingList4x4 iq);
     l8 \<leftarrow> scan_rows 6 scan8x8 (va_ScalingList8x8 iq);
     l16 \<leftarrow> scan_rows 6 scan8x8 (va_ScalingList16x16 iq);
     l32 \<leftarrow> scan_rows 2 scan8x8 (va_ScalingList32x32 iq);
     dc16 \<leftarrow> take_c 6 (va_ScalingListDC16x16 iq);
     dc32 \<leftarrow> take_c 2 (va_ScalingListDC32x32 iq);
     Some (picParams\<lparr>hevc := (hevc picParams)\<lparr>ScalingList4x4 := l4, ScalingList8x8 := l8, ScalingList16x16 := l16,
       ScalingList32x32 := l32, ScalingListDCCoeff16x16 := dc16, ScalingListDCCoeff32x32 := dc32\<rparr>\<rparr>)
   }"

section \<open>The scan order\<close>

text \<open>
  The up-right diagonal scan of a square block: the diagonals from the top left corner on, each from
  its lower left end upwards.
\<close>

definition up_right_diagonal :: "nat \<Rightarrow> nat list" where
  "up_right_diagonal n =
     concat (map (\<lambda>s. map (\<lambda>x. n * (s - x) + x) (filter (\<lambda>x. x \<le> s \<and> s - x < n) [0..<n])) [0..<2 * n - 1])"

lemma scan4x4_diagonal: "scan4x4 = up_right_diagonal 4"
  by code_simp

lemma scan8x8_diagonal: "scan8x8 = up_right_diagonal 8"
  by code_simp

lemma scans_permute: "distinct scan4x4" "set scan4x4 = {..<16}" "distinct scan8x8" "set scan8x8 = {..<64}"
  by code_simp+

lemma map_opt_nth: "\<forall>i \<in> set pos. i < length row \<Longrightarrow> map_opt (nth_c row) pos = Some (map ((!) row) pos)"
  by (rule map_opt_total) simp

lemma scan_rows_total:
  assumes "length rows = n" "\<forall>row \<in> set rows. length row = m" "set pos = {..<m}"
  shows "scan_rows n pos rows = Some (map (\<lambda>row. map ((!) row) pos) rows)"
  using assms by (auto simp: scan_rows_def take_c_def intro!: map_opt_total)

text \<open>The lists of a scaling matrix buffer have the lengths of the C arrays.\<close>

definition iq_shape :: "VAIQMatrixBufferHEVC \<Rightarrow> bool" where
  "iq_shape iq \<longleftrightarrow>
     length (va_ScalingList4x4 iq) = 6 \<and> (\<forall>row \<in> set (va_ScalingList4x4 iq). length row = 16) \<and>
     length (va_ScalingList8x8 iq) = 6 \<and> (\<forall>row \<in> set (va_ScalingList8x8 iq). length row = 64) \<and>
     length (va_ScalingList16x16 iq) = 6 \<and> (\<forall>row \<in> set (va_ScalingList16x16 iq). length row = 64) \<and>
     length (va_ScalingList32x32 iq) = 2 \<and> (\<forall>row \<in> set (va_ScalingList32x32 iq). length row = 64) \<and>
     length (va_ScalingListDC16x16 iq) = 6 \<and> length (va_ScalingListDC32x32 iq) = 2"

section \<open>The reference pictures\<close>

text \<open>The positions, counted from \<open>i\<close>, of the pictures with a property.\<close>

fun picked :: "(VAPictureHEVC \<Rightarrow> bool) \<Rightarrow> nat \<Rightarrow> VAPictureHEVC list \<Rightarrow> nat list" where
  "picked P i [] = []"
| "picked P i (pic # pics) = (if P pic then [i] else []) @ picked P (i + 1) pics"

lemma picked_filter: "picked P i pics = filter (\<lambda>k. P (pics ! (k - i))) [i..<i + length pics]"
proof (induction pics arbitrary: i)
  case (Cons pic pics)
  have u: "[i..<i + length (pic # pics)] = i # [i + 1..<i + 1 + length pics]"
    by (simp add: upt_conv_Cons del: upt_Suc)
  have "filter (\<lambda>k. P ((pic # pics) ! (k - i))) [i + 1..<i + 1 + length pics] =
      filter (\<lambda>k. P (pics ! (k - (i + 1)))) [i + 1..<i + 1 + length pics]"
    by (intro filter_cong) (auto simp: Suc_diff_Suc [symmetric] Suc_le_eq)
  then show ?case unfolding u picked.simps Cons.IH by (simp del: upt_Suc)
qed simp

lemma set_picked: "set (picked P 0 pics) = {k. k < length pics \<and> P (pics ! k)}"
  by (auto simp: picked_filter)

lemma distinct_picked: "distinct (picked P i pics)"
  by (simp add: picked_filter)

definition is_before :: "VAPictureHEVC \<Rightarrow> bool" where
  "is_before pic \<longleftrightarrow> has_flag (pic_flags pic) VA_PICTURE_HEVC_RPS_ST_CURR_BEFORE"

definition is_after :: "VAPictureHEVC \<Rightarrow> bool" where
  "is_after pic \<longleftrightarrow> \<not> is_before pic \<and> has_flag (pic_flags pic) VA_PICTURE_HEVC_RPS_ST_CURR_AFTER"

definition is_lt :: "VAPictureHEVC \<Rightarrow> bool" where
  "is_lt pic \<longleftrightarrow> \<not> is_before pic \<and> \<not> is_after pic \<and> has_flag (pic_flags pic) VA_PICTURE_HEVC_RPS_LT_CURR"

text \<open>\<open>counted n xs ys\<close>: the array \<open>xs\<close> of eight entries holds \<open>ys\<close> in its first \<open>n\<close> ones.\<close>

definition counted :: "nat \<Rightarrow> nat list \<Rightarrow> nat list \<Rightarrow> bool" where
  "counted n xs ys \<longleftrightarrow> length xs = 8 \<and> n = length ys \<and> take n xs = ys \<and> n \<le> 8"

lemma counted_push:
  assumes "counted n xs ys"
  shows "length ys < 8 \<Longrightarrow> counted (n + 1) (xs[n := i]) (ys @ [i]) \<and> upd_c xs n i = Some (xs[n := i])"
    "\<not> length ys < 8 \<Longrightarrow> upd_c xs n i = None"
  using assms by (auto simp: counted_def upd_c_def take_Suc_conv_app_nth)

text \<open>What \<open>n\<close> rounds of the loop have stored.\<close>

definition refs_stored :: "('c, 's, 'z) drv \<Rightarrow> VAPictureHEVC list \<Rightarrow> CUVIDHEVCPICPARAMS \<Rightarrow> bool" where
  "refs_stored d pics ppc \<longleftrightarrow>
     length (RefPicIdx ppc) = 16 \<and> length (PicOrderCntVal ppc) = 16 \<and> length (IsLongTerm ppc) = 16 \<and>
     take (length pics) (RefPicIdx ppc) = map (\<lambda>p. ref_index d (picture_id p)) pics \<and>
     take (length pics) (PicOrderCntVal ppc) = map pic_order_cnt pics \<and>
     NumPocTotalCurr ppc = length (filter (\<lambda>p. ref_index d (picture_id p) \<noteq> - 1) (tl pics)) \<and>
     counted (NumPocStCurrBefore ppc) (RefPicSetStCurrBefore ppc) (picked is_before 0 pics) \<and>
     counted (NumPocStCurrAfter ppc) (RefPicSetStCurrAfter ppc) (picked is_after 0 pics) \<and>
     counted (NumPocLtCurr ppc) (RefPicSetLtCurr ppc) (picked is_lt 0 pics)"

definition few_refs :: "VAPictureHEVC list \<Rightarrow> bool" where
  "few_refs pics \<longleftrightarrow> length (picked is_before 0 pics) \<le> 8 \<and> length (picked is_after 0 pics) \<le> 8 \<and>
     length (picked is_lt 0 pics) \<le> 8"

lemma picked_snoc: "picked P 0 (pics @ [pic]) = picked P 0 pics @ (if P pic then [length pics] else [])"
  by (auto simp: picked_filter nth_append intro: filter_cong)

lemma tl_snoc: "tl (pics @ [pic]) = (if pics = [] then [] else tl pics @ [pic])"
  by (cases pics) auto

lemma kind_exclusive:
  "is_before pic \<Longrightarrow> \<not> is_after pic \<and> \<not> is_lt pic" "is_after pic \<Longrightarrow> \<not> is_lt pic"
  by (auto simp: is_after_def is_lt_def)

lemma add_ref_by_kind:
  "add_ref i pic ppc =
     (if is_before pic then do {
        s \<leftarrow> upd_c (RefPicSetStCurrBefore ppc) (NumPocStCurrBefore ppc) i;
        Some (ppc\<lparr>RefPicSetStCurrBefore := s, NumPocStCurrBefore := NumPocStCurrBefore ppc + 1\<rparr>) }
      else if is_after pic then do {
        s \<leftarrow> upd_c (RefPicSetStCurrAfter ppc) (NumPocStCurrAfter ppc) i;
        Some (ppc\<lparr>RefPicSetStCurrAfter := s, NumPocStCurrAfter := NumPocStCurrAfter ppc + 1\<rparr>) }
      else if is_lt pic then do {
        s \<leftarrow> upd_c (RefPicSetLtCurr ppc) (NumPocLtCurr ppc) i;
        Some (ppc\<lparr>RefPicSetLtCurr := s, NumPocLtCurr := NumPocLtCurr ppc + 1\<rparr>) }
      else Some ppc)"
  by (simp add: add_ref_def is_before_def is_after_def is_lt_def)

lemma copy_ref_step:
  assumes "typed d" "refs_stored d pics ppc" "length pics < 16"
  shows "few_refs (pics @ [pic]) \<Longrightarrow> \<exists>ppc'. copy_ref d (length pics) pic ppc = Some ppc' \<and> refs_stored d (pics @ [pic]) ppc'"
    "\<not> few_refs (pics @ [pic]) \<Longrightarrow> copy_ref d (length pics) pic ppc = None"
proof -
  define i where "i = length pics"
  define ppc1 where "ppc1 = ppc\<lparr>RefPicIdx := (RefPicIdx ppc)[i := ref_index d (picture_id pic)],
    PicOrderCntVal := (PicOrderCntVal ppc)[i := pic_order_cnt pic],
    IsLongTerm := (IsLongTerm ppc)[i := i \<noteq> 0 \<and> has_flag (pic_flags pic) VA_PICTURE_HEVC_LONG_TERM_REFERENCE],
    NumPocTotalCurr := (if i \<noteq> 0 \<and> ref_index d (picture_id pic) \<noteq> - 1 then NumPocTotalCurr ppc + 1 else NumPocTotalCurr ppc)\<rparr>"
  have c: "copy_ref d i pic ppc = add_ref i pic ppc1"
    using assms by (simp add: copy_ref_def pictureIdx_lookup refs_stored_def upd_c_def i_def ppc1_def)
  have k: "counted (NumPocStCurrBefore ppc1) (RefPicSetStCurrBefore ppc1) (picked is_before 0 pics)"
    "counted (NumPocStCurrAfter ppc1) (RefPicSetStCurrAfter ppc1) (picked is_after 0 pics)"
    "counted (NumPocLtCurr ppc1) (RefPicSetLtCurr ppc1) (picked is_lt 0 pics)"
    using assms(2) by (simp_all add: refs_stored_def ppc1_def)
  have le: "length (picked is_before 0 pics) \<le> 8" "length (picked is_after 0 pics) \<le> 8" "length (picked is_lt 0 pics) \<le> 8"
    using k by (auto simp: counted_def)
  have s: "length (RefPicIdx ppc1) = 16" "length (PicOrderCntVal ppc1) = 16" "length (IsLongTerm ppc1) = 16"
    "take (i + 1) (RefPicIdx ppc1) = map (\<lambda>p. ref_index d (picture_id p)) (pics @ [pic])"
    "take (i + 1) (PicOrderCntVal ppc1) = map pic_order_cnt (pics @ [pic])"
    "NumPocTotalCurr ppc1 = length (filter (\<lambda>p. ref_index d (picture_id p) \<noteq> - 1) (tl (pics @ [pic])))"
    using assms(2,3) by (auto simp: refs_stored_def ppc1_def i_def take_Suc_conv_app_nth tl_snoc)
  show "few_refs (pics @ [pic]) \<Longrightarrow> \<exists>ppc'. copy_ref d (length pics) pic ppc = Some ppc' \<and> refs_stored d (pics @ [pic]) ppc'"
    using k s counted_push(1)[OF k(1), of i] counted_push(1)[OF k(2), of i] counted_push(1)[OF k(3), of i]
    unfolding i_def[symmetric] c add_ref_by_kind
    by (auto simp: few_refs_def refs_stored_def picked_snoc kind_exclusive i_def)
  show "\<not> few_refs (pics @ [pic]) \<Longrightarrow> copy_ref d (length pics) pic ppc = None"
    using le counted_push(2)[OF k(1), of i] counted_push(2)[OF k(2), of i] counted_push(2)[OF k(3), of i]
    unfolding i_def[symmetric] c add_ref_by_kind
    by (auto simp: few_refs_def picked_snoc kind_exclusive i_def split: if_splits)
qed

lemma few_refs_append: "few_refs (xs @ ys) \<Longrightarrow> few_refs xs"
proof (induction ys rule: rev_induct)
  case (snoc y ys)
  have "few_refs (xs @ ys)" using snoc.prems unfolding append_assoc[symmetric] few_refs_def picked_snoc by (auto split: if_splits)
  then show ?case by (rule snoc.IH)
qed simp

lemma copy_refs_spec:
  assumes "typed d" "length pics + length rest \<le> 16" "refs_stored d pics ppc"
  shows "few_refs (pics @ rest) \<Longrightarrow> \<exists>ppc'. copy_refs d (length pics) rest ppc = Some ppc' \<and> refs_stored d (pics @ rest) ppc'"
    "few_refs pics \<Longrightarrow> \<not> few_refs (pics @ rest) \<Longrightarrow> copy_refs d (length pics) rest ppc = None"
proof -
  have "(few_refs (pics @ rest) \<longrightarrow> (\<exists>ppc'. copy_refs d (length pics) rest ppc = Some ppc' \<and> refs_stored d (pics @ rest) ppc')) \<and>
    (few_refs pics \<longrightarrow> \<not> few_refs (pics @ rest) \<longrightarrow> copy_refs d (length pics) rest ppc = None)"
    using assms(2,3)
  proof (induction rest arbitrary: pics ppc)
    case (Cons pic rest)
    have l: "length pics < 16" using Cons.prems(1) by simp
    show ?case
    proof (cases "few_refs (pics @ [pic])")
      case True
      then obtain ppc' where p: "copy_ref d (length pics) pic ppc = Some ppc'" "refs_stored d (pics @ [pic]) ppc'"
        using copy_ref_step(1)[OF assms(1) Cons.prems(2) l] by blast
      show ?thesis using Cons.IH[OF _ p(2)] Cons.prems(1) p(1) True by simp
    next
      case False
      then have "\<not> few_refs (pics @ pic # rest)" using few_refs_append[of "pics @ [pic]" rest] by auto
      then show ?thesis using copy_ref_step(2)[OF assms(1) Cons.prems(2) l False] by simp
    qed
  qed simp
  then show "few_refs (pics @ rest) \<Longrightarrow> \<exists>ppc'. copy_refs d (length pics) rest ppc = Some ppc' \<and> refs_stored d (pics @ rest) ppc'"
    "few_refs pics \<Longrightarrow> \<not> few_refs (pics @ rest) \<Longrightarrow> copy_refs d (length pics) rest ppc = None"
    by blast+
qed

lemma refs_stored_all:
  assumes "refs_stored d pics ppc" "length pics = 16"
  shows "RefPicIdx ppc = map (\<lambda>p. ref_index d (picture_id p)) pics" "PicOrderCntVal ppc = map pic_order_cnt pics"
    "take (NumPocLtCurr ppc) (RefPicSetLtCurr ppc) = filter (\<lambda>i. is_lt (pics ! i)) [0..<16]"
proof -
  have l: "length (RefPicIdx ppc) = 16" "length (PicOrderCntVal ppc) = 16" using assms by (simp_all only: refs_stored_def)
  have "take 16 (RefPicIdx ppc) = map (\<lambda>p. ref_index d (picture_id p)) pics" "take 16 (PicOrderCntVal ppc) = map pic_order_cnt pics"
    using assms unfolding refs_stored_def by (simp_all only:)
  then show "RefPicIdx ppc = map (\<lambda>p. ref_index d (picture_id p)) pics" "PicOrderCntVal ppc = map pic_order_cnt pics"
    using l by simp_all
  have "take (NumPocLtCurr ppc) (RefPicSetLtCurr ppc) = picked is_lt 0 pics"
    using assms(1) unfolding refs_stored_def counted_def by blast
  then show "take (NumPocLtCurr ppc) (RefPicSetLtCurr ppc) = filter (\<lambda>i. is_lt (pics ! i)) [0..<16]"
    by (simp only: picked_filter assms(2) add_0 diff_zero)
qed

section \<open>Sorting\<close>

text \<open>
  What the C library promises of a sort: when the comparison function orders the elements, the result is
  a rearrangement in that order.
\<close>

definition orders :: "(nat \<Rightarrow> nat \<Rightarrow> int) \<Rightarrow> nat set \<Rightarrow> bool" where
  "orders cmp A \<longleftrightarrow> (\<forall>a \<in> A. \<forall>b \<in> A. a \<noteq> b \<longrightarrow> (cmp a b < 0) = (\<not> cmp b a < 0)) \<and>
     (\<forall>a \<in> A. \<forall>b \<in> A. \<forall>c \<in> A. cmp a b < 0 \<longrightarrow> cmp b c < 0 \<longrightarrow> cmp a c < 0)"

definition sorts :: "((nat \<Rightarrow> nat \<Rightarrow> int) \<Rightarrow> nat list \<Rightarrow> nat list) \<Rightarrow> bool" where
  "sorts qsort \<longleftrightarrow> (\<forall>cmp xs. orders cmp (set xs) \<longrightarrow> distinct xs \<longrightarrow>
     set (qsort cmp xs) = set xs \<and> length (qsort cmp xs) = length xs \<and> sorted_wrt (\<lambda>a b. cmp a b < 0) (qsort cmp xs))"

lemma sort_prefix_spec:
  assumes "sorts qsort" "counted n xs ys" "orders cmp (set ys)" "distinct ys"
  shows "\<exists>zs. sort_prefix qsort cmp n xs = Some zs \<and> set (take n zs) = set ys \<and> sorted_wrt (\<lambda>a b. cmp a b < 0) (take n zs)"
  using assms by (auto simp: sort_prefix_def take_c_def counted_def sorts_def)

lemma sortFunc_neg: "(sortFunc P a b < 0) = (P ! a < P ! b)" "(sortFuncRev P a b < 0) = (P ! b \<le> P ! a)"
  by (simp_all add: sortFunc_def sortFuncRev_def)

lemma orders_poc:
  assumes "inj_on ((!) P) A"
  shows "orders (sortFunc P) A" "orders (sortFuncRev P) A"
proof -
  have ne: "P ! a < P ! b \<or> P ! b < P ! a" if "a \<in> A" "b \<in> A" "a \<noteq> b" for a b
    using assms that by (meson inj_onD linorder_neqE)
  show "orders (sortFunc P) A" unfolding orders_def sortFunc_neg
    by (intro conjI ballI impI) (use ne in \<open>fastforce dest: less_not_sym\<close>, linarith)
  show "orders (sortFuncRev P) A" unfolding orders_def sortFunc_neg
    by (intro conjI ballI impI) (use ne in \<open>fastforce\<close>, linarith)
qed

section \<open>The handlers\<close>

text \<open>The pictures of a buffer, the current one first.\<close>

definition hevc_pics :: "VAPictureParameterBufferHEVC \<Rightarrow> VAPictureHEVC list" where
  "hevc_pics buf = va_CurrPic buf # va_ReferenceFrames buf"

lemma copyHEVCPicParam_steps:
  assumes "length (hevc_pics buf) = 16"
  shows "copyHEVCPicParam qsort target buf d pp = do {
     d \<leftarrow> update_target target (\<lambda>s. s\<lparr>progressiveFrame := \<not> has_flag (pic_flags (va_CurrPic buf)) VA_PICTURE_HEVC_FIELD_PIC\<rparr>) d;
     ppc \<leftarrow> copy_tiles buf (copy_hevc_fields buf (hevc pp));
     ppc \<leftarrow> copy_refs d 0 (hevc_pics buf) ppc;
     ppc \<leftarrow> sort_refs qsort ppc;
     Some (d, (copy_hevc_header buf pp)\<lparr>hevc := ppc\<rparr>)
   }"
proof -
  have "hevc (copy_hevc_header buf pp) = hevc pp"
    "(field_pic_flag (copy_hevc_header buf pp) = 0) = (\<not> has_flag (pic_flags (va_CurrPic buf)) VA_PICTURE_HEVC_FIELD_PIC)"
    by (simp_all add: copy_hevc_header_def)
  moreover have "take_c 16 (hevc_pics buf) = Some (hevc_pics buf)" using assms by (simp add: take_c_def)
  ultimately show ?thesis unfolding copyHEVCPicParam_def Let_def hevc_pics_def[symmetric] by simp
qed

text \<open>The arrays of the decoder's struct, and a picture without tiles.\<close>

definition hevc_shape :: "CUVIDHEVCPICPARAMS \<Rightarrow> bool" where
  "hevc_shape ppc \<longleftrightarrow> length (column_width_minus1 ppc) = 21 \<and> length (row_height_minus1 ppc) = 21 \<and>
     length (RefPicIdx ppc) = 16 \<and> length (PicOrderCntVal ppc) = 16 \<and> length (IsLongTerm ppc) = 16 \<and>
     length (RefPicSetStCurrBefore ppc) = 8 \<and> length (RefPicSetStCurrAfter ppc) = 8 \<and> length (RefPicSetLtCurr ppc) = 8"

definition untiled :: "VAPictureParameterBufferHEVC \<Rightarrow> bool" where
  "untiled buf \<longleftrightarrow> va_tiles_enabled_flag buf = 0 \<and> va_num_tile_columns_minus1 buf = 0 \<and> va_num_tile_rows_minus1 buf = 0 \<and>
     length (va_column_width_minus1 buf) = 19 \<and> length (va_row_height_minus1 buf) = 21"

lemma copy_tiles_untiled:
  assumes "untiled buf" "hevc_shape ppc"
  shows "\<exists>ppc'. copy_tiles buf (copy_hevc_fields buf ppc) = Some ppc' \<and> refs_stored d [] ppc'"
  using assms
  by (auto simp: copy_tiles_def copy_hevc_fields_def untiled_def hevc_shape_def refs_stored_def counted_def take_c_def store_c_def)

lemma sort_refs_spec:
  assumes "sorts qsort" "refs_stored d pics ppc" "length pics = 16"
    "inj_on (\<lambda>i. pic_order_cnt (pics ! i)) {i. i < 16 \<and> is_before (pics ! i)}"
    "inj_on (\<lambda>i. pic_order_cnt (pics ! i)) {i. i < 16 \<and> is_after (pics ! i)}"
  shows "\<exists>b a. sort_refs qsort ppc = Some (ppc\<lparr>RefPicSetStCurrBefore := b, RefPicSetStCurrAfter := a\<rparr>) \<and>
    set (take (NumPocStCurrBefore ppc) b) = {i. i < 16 \<and> is_before (pics ! i)} \<and>
    sorted_wrt (\<lambda>i j. pic_order_cnt (pics ! j) \<le> pic_order_cnt (pics ! i)) (take (NumPocStCurrBefore ppc) b) \<and>
    set (take (NumPocStCurrAfter ppc) a) = {i. i < 16 \<and> is_after (pics ! i)} \<and>
    sorted_wrt (\<lambda>i j. pic_order_cnt (pics ! i) < pic_order_cnt (pics ! j)) (take (NumPocStCurrAfter ppc) a)"
proof -
  let ?P = "PicOrderCntVal ppc" and ?B = "picked is_before 0 pics" and ?A = "picked is_after 0 pics"
  have P: "?P = map pic_order_cnt pics" by (rule refs_stored_all(2)[OF assms(2,3)])
  have s: "set ?B = {i. i < 16 \<and> is_before (pics ! i)}" "set ?A = {i. i < 16 \<and> is_after (pics ! i)}"
    by (simp_all add: set_picked assms(3))
  have n: "?P ! i = pic_order_cnt (pics ! i)" if "i < 16" for i using that by (simp add: P assms(3))
  have o: "orders (sortFuncRev ?P) (set ?B)" "orders (sortFunc ?P) (set ?A)"
    by (rule orders_poc, rule inj_onI, use assms(4,5) n s in \<open>auto dest: inj_onD\<close>)+
  obtain b where b: "sort_prefix qsort (sortFuncRev ?P) (NumPocStCurrBefore ppc) (RefPicSetStCurrBefore ppc) = Some b"
      "set (take (NumPocStCurrBefore ppc) b) = set ?B" "sorted_wrt (\<lambda>i j. ?P ! j \<le> ?P ! i) (take (NumPocStCurrBefore ppc) b)"
    using sort_prefix_spec[OF assms(1) _ o(1) distinct_picked] assms(2) unfolding refs_stored_def sortFunc_neg by blast
  obtain a where a: "sort_prefix qsort (sortFunc ?P) (NumPocStCurrAfter ppc) (RefPicSetStCurrAfter ppc) = Some a"
      "set (take (NumPocStCurrAfter ppc) a) = set ?A" "sorted_wrt (\<lambda>i j. ?P ! i < ?P ! j) (take (NumPocStCurrAfter ppc) a)"
    using sort_prefix_spec[OF assms(1) _ o(2) distinct_picked] assms(2) unfolding refs_stored_def sortFunc_neg by blast
  have wb: "sorted_wrt (\<lambda>i j. pic_order_cnt (pics ! j) \<le> pic_order_cnt (pics ! i)) (take (NumPocStCurrBefore ppc) b)"
    by (rule sorted_wrt_mono_rel[OF _ b(3)]) (use b(2) s(1) n in auto)
  have wa: "sorted_wrt (\<lambda>i j. pic_order_cnt (pics ! i) < pic_order_cnt (pics ! j)) (take (NumPocStCurrAfter ppc) a)"
    by (rule sorted_wrt_mono_rel[OF _ a(3)]) (use a(2) s(2) n in auto)
  show ?thesis
    by (intro exI[of _ b] exI[of _ a] conjI wa wb) (simp_all add: sort_refs_def a(1,2) b(1,2) s)
qed

section \<open>Tiles\<close>

lemma equal_run_append: "equal_run (a + b) i xs = do { u \<leftarrow> equal_run a i xs; if u then equal_run b (i + a) xs else Some False }"
  by (induction a i xs rule: equal_run.induct) (auto simp: nth_c_def cong: if_cong)

lemma equal_run_within:
  "i + k < length xs \<Longrightarrow> equal_run k i xs = Some (\<forall>j. i \<le> j \<and> j < i + k \<longrightarrow> xs ! j = xs ! (j + 1))"
proof (induction k arbitrary: i)
  case (Suc k)
  have "(\<forall>j. i \<le> j \<and> j < i + Suc k \<longrightarrow> xs ! j = xs ! (j + 1)) \<longleftrightarrow>
      xs ! i = xs ! (i + 1) \<and> (\<forall>j. i + 1 \<le> j \<and> j < i + 1 + k \<longrightarrow> xs ! j = xs ! (j + 1))"
    using le_eq_less_or_eq[of i] by (auto simp: Suc_le_eq)
  then show ?case using Suc.IH[of "i + 1"] Suc.prems by simp
qed simp

lemma uniform_spacing_cases:
  assumes "length (va_column_width_minus1 buf) = 19"
  shows "uniform_spacing buf =
    (if \<forall>j < 18. va_column_width_minus1 buf ! j = va_column_width_minus1 buf ! (j + 1) then None else Some False)"
proof -
  let ?c = "va_column_width_minus1 buf"
  have "equal_run 18 0 ?c = Some (\<forall>j < 18. ?c ! j = ?c ! (j + 1))" using equal_run_within[of 0 18 ?c] assms by simp
  moreover have "equal_run 1 18 ?c = None" using assms by (simp add: nth_c_def)
  ultimately have "equal_run (18 + 1) 0 ?c = (if \<forall>j < 18. ?c ! j = ?c ! (j + 1) then None else Some False)"
    unfolding equal_run_append by simp
  then show ?thesis by (simp add: uniform_spacing_def)
qed

section \<open>An example\<close>

definition example_hevc :: VAPictureParameterBufferHEVC where
  "example_hevc = \<lparr>va_CurrPic = \<lparr>picture_id = 1, pic_order_cnt = 8, pic_flags = 0\<rparr>,
     va_ReferenceFrames = [\<lparr>picture_id = 2, pic_order_cnt = 4, pic_flags = 0x10\<rparr>,
       \<lparr>picture_id = 3, pic_order_cnt = 6, pic_flags = 0x10\<rparr>] @
       replicate 13 \<lparr>picture_id = VA_INVALID_ID, pic_order_cnt = 0, pic_flags = 0\<rparr>,
     va_IntraPicFlag = 0, va_column_width_minus1 = replicate 19 0, va_row_height_minus1 = replicate 21 0,
     va_pic_width_in_luma_samples = 64, va_pic_height_in_luma_samples = 32,
     va_log2_min_luma_coding_block_size_minus3 = 0, va_log2_diff_max_min_luma_coding_block_size = 0,
     va_log2_min_transform_block_size_minus2 = 0, va_log2_diff_max_min_transform_block_size = 0,
     va_pcm_enabled_flag = 0, va_log2_min_pcm_luma_coding_block_size_minus3 = 0,
     va_log2_diff_max_min_pcm_luma_coding_block_size = 0, va_pcm_sample_bit_depth_luma_minus1 = 0,
     va_pcm_sample_bit_depth_chroma_minus1 = 0, va_pcm_loop_filter_disabled_flag = 0,
     va_strong_intra_smoothing_enabled_flag = 0, va_max_transform_hierarchy_depth_intra = 0,
     va_max_transform_hierarchy_depth_inter = 0, va_amp_enabled_flag = 0, va_separate_colour_plane_flag = 0,
     va_log2_max_pic_order_cnt_lsb_minus4 = 0, va_num_short_term_ref_pic_sets = 0,
     va_long_term_ref_pics_present_flag = 0, va_num_long_term_ref_pic_sps = 0,
     va_sps_temporal_mvp_enabled_flag = 0, va_sample_adaptive_offset_enabled_flag = 0,
     va_scaling_list_enabled_flag = 0, va_RapPicFlag = 0, va_IdrPicFlag = 0, va_bit_depth_luma_minus8 = 0,
     va_bit_depth_chroma_minus8 = 0, va_pps_beta_offset_div2 = 0, va_pps_tc_offset_div2 = 0,
     va_dependent_slice_segments_enabled_flag = 0, va_slice_segment_header_extension_present_flag = 0,
     va_sign_data_hiding_enabled_flag = 0, va_cu_qp_delta_enabled_flag = 0, va_diff_cu_qp_delta_depth = 0,
     va_init_qp_minus26 = 0, va_pps_cb_qp_offset = 0, va_pps_cr_qp_offset = 0,
     va_constrained_intra_pred_flag = 0, va_weighted_pred_flag = 0, va_weighted_bipred_flag = 0,
     va_transform_skip_enabled_flag = 0, va_transquant_bypass_enabled_flag = 0,
     va_entropy_coding_sync_enabled_flag = 0, va_log2_parallel_merge_level_minus2 = 0,
     va_num_extra_slice_header_bits = 0, va_loop_filter_across_tiles_enabled_flag = 0,
     va_pps_loop_filter_across_slices_enabled_flag = 0, va_output_flag_present_flag = 0,
     va_num_ref_idx_l0_default_active_minus1 = 0, va_num_ref_idx_l1_default_active_minus1 = 0,
     va_lists_modification_present_flag = 0, va_cabac_init_present_flag = 0,
     va_pps_slice_chroma_qp_offsets_present_flag = 0, va_deblocking_filter_override_enabled_flag = 0,
     va_pps_disable_deblocking_filter_flag = 0, va_tiles_enabled_flag = 0, va_num_tile_columns_minus1 = 0,
     va_num_tile_rows_minus1 = 0, va_st_rps_bits = 0\<rparr>"

definition zero_hevc :: CUVIDHEVCPICPARAMS where
  "zero_hevc = \<lparr>pic_width_in_luma_samples = 0, pic_height_in_luma_samples = 0, log2_min_luma_coding_block_size_minus3 = 0,
     log2_diff_max_min_luma_coding_block_size = 0, log2_min_transform_block_size_minus2 = 0,
     log2_diff_max_min_transform_block_size = 0, pcm_enabled_flag = 0,
     log2_min_pcm_luma_coding_block_size_minus3 = 0, log2_diff_max_min_pcm_luma_coding_block_size = 0,
     pcm_sample_bit_depth_luma_minus1 = 0, pcm_sample_bit_depth_chroma_minus1 = 0,
     pcm_loop_filter_disabled_flag = 0, strong_intra_smoothing_enabled_flag = 0,
     max_transform_hierarchy_depth_intra = 0, max_transform_hierarchy_depth_inter = 0, amp_enabled_flag = 0,
     separate_colour_plane_flag = 0, log2_max_pic_order_cnt_lsb_minus4 = 0, num_short_term_ref_pic_sets = 0,
     long_term_ref_pics_present_flag = 0, num_long_term_ref_pics_sps = 0, sps_temporal_mvp_enabled_flag = 0,
     sample_adaptive_offset_enabled_flag = 0, scaling_list_enable_flag = 0, IrapPicFlag = 0, IdrPicFlag = 0,
     bit_depth_luma_minus8 = 0, bit_depth_chroma_minus8 = 0, pps_beta_offset_div2 = 0, pps_tc_offset_div2 = 0,
     dependent_slice_segments_enabled_flag = 0, slice_segment_header_extension_present_flag = 0,
     sign_data_hiding_enabled_flag = 0, cu_qp_delta_enabled_flag = 0, diff_cu_qp_delta_depth = 0,
     init_qp_minus26 = 0, pps_cb_qp_offset = 0, pps_cr_qp_offset = 0, constrained_intra_pred_flag = 0,
     weighted_pred_flag = 0, weighted_bipred_flag = 0, transform_skip_enabled_flag = 0,
     transquant_bypass_enabled_flag = 0, entropy_coding_sync_enabled_flag = 0,
     log2_parallel_merge_level_minus2 = 0, num_extra_slice_header_bits = 0,
     loop_filter_across_tiles_enabled_flag = 0, loop_filter_across_slices_enabled_flag = 0,
     output_flag_present_flag = 0, num_ref_idx_l0_default_active_minus1 = 0,
     num_ref_idx_l1_default_active_minus1 = 0, lists_modification_present_flag = 0,
     cabac_init_present_flag = 0, pps_slice_chroma_qp_offsets_present_flag = 0,
     deblocking_filter_override_enabled_flag = 0, pps_deblocking_filter_disabled_flag = 0,
     tiles_enabled_flag = 0, num_tile_columns_minus1 = 0, num_tile_rows_minus1 = 0,
     NumBitsForShortTermRPSInSlice = 0, uniform_spacing_flag = 0, NumDeltaPocsOfRefRpsIdx = 0,
     CurrPicOrderCntVal = 0, NumPocTotalCurr = 0, NumPocStCurrBefore = 0, NumPocStCurrAfter = 0,
     NumPocLtCurr = 0, column_width_minus1 = replicate 21 0, row_height_minus1 = replicate 21 0,
     RefPicIdx = replicate 16 0, PicOrderCntVal = replicate 16 0, IsLongTerm = replicate 16 False,
     RefPicSetStCurrBefore = replicate 8 0, RefPicSetStCurrAfter = replicate 8 0,
     RefPicSetLtCurr = replicate 8 0, ScalingList4x4 = replicate 6 (replicate 16 0),
     ScalingList8x8 = replicate 6 (replicate 64 0), ScalingList16x16 = replicate 6 (replicate 64 0),
     ScalingList32x32 = replicate 2 (replicate 64 0), ScalingListDCCoeff16x16 = replicate 6 0,
     ScalingListDCCoeff32x32 = replicate 2 0\<rparr>"

definition zero_hevc_params :: HEVCPicParams where
  "zero_hevc_params = CUVIDPICPARAMS.extend zero_pic (HEVCPicParams.fields zero_hevc)"

text \<open>Insertion sort is a sort.\<close>

fun insert_by :: "(nat \<Rightarrow> nat \<Rightarrow> int) \<Rightarrow> nat \<Rightarrow> nat list \<Rightarrow> nat list" where
  "insert_by cmp x [] = [x]"
| "insert_by cmp x (y # ys) = (if cmp x y < 0 then x # y # ys else y # insert_by cmp x ys)"

definition insertion_sort :: "(nat \<Rightarrow> nat \<Rightarrow> int) \<Rightarrow> nat list \<Rightarrow> nat list" where
  "insertion_sort cmp xs = foldr (insert_by cmp) xs []"

lemma set_insert_by [simp]: "set (insert_by cmp x ys) = insert x (set ys)" "length (insert_by cmp x ys) = Suc (length ys)"
  by (induction ys) auto

lemma orders_rules:
  "orders cmp A \<Longrightarrow> B \<subseteq> A \<Longrightarrow> orders cmp B"
  "orders cmp A \<Longrightarrow> a \<in> A \<Longrightarrow> b \<in> A \<Longrightarrow> a \<noteq> b \<Longrightarrow> \<not> cmp a b < 0 \<Longrightarrow> cmp b a < 0"
  "orders cmp A \<Longrightarrow> a \<in> A \<Longrightarrow> b \<in> A \<Longrightarrow> c \<in> A \<Longrightarrow> cmp a b < 0 \<Longrightarrow> cmp b c < 0 \<Longrightarrow> cmp a c < 0"
  unfolding orders_def by (meson subsetD, metis, blast)

lemma sorted_insert_by:
  assumes "orders cmp (insert x (set ys))" "x \<notin> set ys" "sorted_wrt (\<lambda>a b. cmp a b < 0) ys"
  shows "sorted_wrt (\<lambda>a b. cmp a b < 0) (insert_by cmp x ys)"
  using assms
proof (induction ys)
  case (Cons y ys)
  have o: "orders cmp (insert x (set ys))" by (rule orders_rules(1)[OF Cons.prems(1)]) auto
  have s: "\<And>z. z \<in> set ys \<Longrightarrow> cmp y z < 0" "sorted_wrt (\<lambda>a b. cmp a b < 0) ys" using Cons.prems(3) by simp_all
  show ?case
  proof (cases "cmp x y < 0")
    case True
    have "cmp x z < 0" if "z \<in> set ys" for z
      by (rule orders_rules(3)[OF Cons.prems(1) _ _ _ True s(1)[OF that]]) (use that in auto)
    then show ?thesis using True s by simp
  next
    case False
    have "cmp y x < 0" by (rule orders_rules(2)[OF Cons.prems(1) _ _ _ False]) (use Cons.prems(2) in auto)
    then show ?thesis using False Cons.IH[OF o _ s(2)] Cons.prems(2) s(1) by simp
  qed
qed simp

lemma insertion_sort_spec:
  "orders cmp (set xs) \<Longrightarrow> distinct xs \<Longrightarrow> set (insertion_sort cmp xs) = set xs \<and>
    length (insertion_sort cmp xs) = length xs \<and> sorted_wrt (\<lambda>a b. cmp a b < 0) (insertion_sort cmp xs)"
proof (induction xs)
  case (Cons x xs)
  have "orders cmp (set xs)" by (rule orders_rules(1)[OF Cons.prems(1)]) auto
  then show ?case using Cons sorted_insert_by[of cmp x "insertion_sort cmp xs"] by (simp add: insertion_sort_def)
qed (simp add: insertion_sort_def)

lemma insertion_sorts: "sorts insertion_sort"
  unfolding sorts_def using insertion_sort_spec by blast

text \<open>
  C23: the scaling lists of a picture arrive in the up-right diagonal order: when the buffer has its six
  lists of 16 and 64 entries (two for 32x32), the handler returns, entry \<open>j\<close> of each list is the entry of
  the buffer's list at the \<open>j\<close>-th position of the diagonal scan of its block, no entry is lost or
  duplicated, and the parameters outside the lists stay.
\<close>

theorem copyHEVCIQMatrix_diagonal:
  assumes "iq_shape iq"
  shows "\<exists>pp'. copyHEVCIQMatrix iq pp = Some pp' \<and>
    ScalingList4x4 (hevc pp') = map (\<lambda>row. map ((!) row) (up_right_diagonal 4)) (va_ScalingList4x4 iq) \<and>
    ScalingList8x8 (hevc pp') = map (\<lambda>row. map ((!) row) (up_right_diagonal 8)) (va_ScalingList8x8 iq) \<and>
    ScalingList16x16 (hevc pp') = map (\<lambda>row. map ((!) row) (up_right_diagonal 8)) (va_ScalingList16x16 iq) \<and>
    ScalingList32x32 (hevc pp') = map (\<lambda>row. map ((!) row) (up_right_diagonal 8)) (va_ScalingList32x32 iq) \<and>
    ScalingListDCCoeff16x16 (hevc pp') = va_ScalingListDC16x16 iq \<and>
    ScalingListDCCoeff32x32 (hevc pp') = va_ScalingListDC32x32 iq \<and>
    distinct (up_right_diagonal 4) \<and> set (up_right_diagonal 4) = {..<16} \<and>
    distinct (up_right_diagonal 8) \<and> set (up_right_diagonal 8) = {..<64} \<and>
    CUVIDPICPARAMS.truncate pp' = CUVIDPICPARAMS.truncate pp"
proof -
  have r: "scan_rows 6 scan4x4 (va_ScalingList4x4 iq) = Some (map (\<lambda>row. map ((!) row) scan4x4) (va_ScalingList4x4 iq))"
    "scan_rows 6 scan8x8 (va_ScalingList8x8 iq) = Some (map (\<lambda>row. map ((!) row) scan8x8) (va_ScalingList8x8 iq))"
    "scan_rows 6 scan8x8 (va_ScalingList16x16 iq) = Some (map (\<lambda>row. map ((!) row) scan8x8) (va_ScalingList16x16 iq))"
    "scan_rows 2 scan8x8 (va_ScalingList32x32 iq) = Some (map (\<lambda>row. map ((!) row) scan8x8) (va_ScalingList32x32 iq))"
    "take_c 6 (va_ScalingListDC16x16 iq) = Some (va_ScalingListDC16x16 iq)"
    "take_c 2 (va_ScalingListDC32x32 iq) = Some (va_ScalingListDC32x32 iq)"
    by (rule scan_rows_total; use assms in \<open>simp add: iq_shape_def scans_permute\<close>)+
      (use assms in \<open>simp_all add: iq_shape_def take_c_def\<close>)
  show ?thesis
    using scans_permute by (simp add: copyHEVCIQMatrix_def r CUVIDPICPARAMS.truncate_def flip: scan4x4_diagonal scan8x8_diagonal)
qed

text \<open>
  C12: the reference pictures of a picture without tiles.  The handler returns exactly when each of the
  three reference sets has at most the eight entries of its array; then every surface has its index
  (\<open>- 1\<close> when it is unknown) and its order count, the set of preceding pictures is sorted by falling,
  that of following pictures by rising order count, each holds exactly the pictures flagged for it, the
  long-term set holds its pictures in the order of the buffer, and the render target is progressive
  exactly for a frame picture.  The library's sort is assumed to sort when the comparison function
  orders the elements, and the order counts within a set to differ.
\<close>

theorem copyHEVCPicParam_references:
  assumes "typed d" "get_surface d target = Some s" "hevc_shape (hevc pp)" "untiled buf"
    "length (va_ReferenceFrames buf) = 15" "sorts qsort"
    "inj_on (\<lambda>i. pic_order_cnt (hevc_pics buf ! i)) {i. i < 16 \<and> is_before (hevc_pics buf ! i)}"
    "inj_on (\<lambda>i. pic_order_cnt (hevc_pics buf ! i)) {i. i < 16 \<and> is_after (hevc_pics buf ! i)}"
  shows "case copyHEVCPicParam qsort target buf d pp of
      None \<Rightarrow> \<not> few_refs (hevc_pics buf)
    | Some (d', pp') \<Rightarrow> few_refs (hevc_pics buf) \<and>
        get_surface d' target =
          Some (s\<lparr>progressiveFrame := \<not> has_flag (pic_flags (va_CurrPic buf)) VA_PICTURE_HEVC_FIELD_PIC\<rparr>) \<and>
        RefPicIdx (hevc pp') = map (\<lambda>p. ref_index d (picture_id p)) (hevc_pics buf) \<and>
        PicOrderCntVal (hevc pp') = map pic_order_cnt (hevc_pics buf) \<and>
        set (take (NumPocStCurrBefore (hevc pp')) (RefPicSetStCurrBefore (hevc pp'))) =
          {i. i < 16 \<and> is_before (hevc_pics buf ! i)} \<and>
        sorted_wrt (\<lambda>i j. pic_order_cnt (hevc_pics buf ! j) \<le> pic_order_cnt (hevc_pics buf ! i))
          (take (NumPocStCurrBefore (hevc pp')) (RefPicSetStCurrBefore (hevc pp'))) \<and>
        set (take (NumPocStCurrAfter (hevc pp')) (RefPicSetStCurrAfter (hevc pp'))) =
          {i. i < 16 \<and> is_after (hevc_pics buf ! i)} \<and>
        sorted_wrt (\<lambda>i j. pic_order_cnt (hevc_pics buf ! i) < pic_order_cnt (hevc_pics buf ! j))
          (take (NumPocStCurrAfter (hevc pp')) (RefPicSetStCurrAfter (hevc pp'))) \<and>
        take (NumPocLtCurr (hevc pp')) (RefPicSetLtCurr (hevc pp')) = filter (\<lambda>i. is_lt (hevc_pics buf ! i)) [0..<16]"
proof -
  let ?s = "s\<lparr>progressiveFrame := \<not> has_flag (pic_flags (va_CurrPic buf)) VA_PICTURE_HEVC_FIELD_PIC\<rparr>"
  define d1 where "d1 = put_obj target (PSurface ?s) d"
  have u: "update_target target (\<lambda>s. s\<lparr>progressiveFrame := \<not> has_flag (pic_flags (va_CurrPic buf)) VA_PICTURE_HEVC_FIELD_PIC\<rparr>) d = Some d1"
      "typed d1" "ref_index d1 = ref_index d"
    unfolding d1_def by (rule update_target_keeps[OF assms(1,2)]; simp)+
  have l: "length (hevc_pics buf) = 16" by (simp add: hevc_pics_def assms(5))
  obtain ppc where p: "copy_tiles buf (copy_hevc_fields buf (hevc pp)) = Some ppc" "refs_stored d1 [] ppc"
    using copy_tiles_untiled[OF assms(4,3)] by blast
  have g: "get_surface d1 target = Some ?s" by (simp add: d1_def)
  have f0: "few_refs []" by (simp add: few_refs_def)
  show ?thesis
  proof (cases "few_refs (hevc_pics buf)")
    case False
    then have "copy_refs d1 0 (hevc_pics buf) ppc = None"
      using copy_refs_spec(2)[OF u(2) _ p(2) f0, of "hevc_pics buf"] l by simp
    then show ?thesis using False u(1) p(1) by (simp add: copyHEVCPicParam_steps[OF l])
  next
    case True
    then obtain ppc1 where q: "copy_refs d1 0 (hevc_pics buf) ppc = Some ppc1" "refs_stored d1 (hevc_pics buf) ppc1"
      using copy_refs_spec(1)[OF u(2) _ p(2), of "hevc_pics buf"] l by auto
    obtain b a where r: "sort_refs qsort ppc1 = Some (ppc1\<lparr>RefPicSetStCurrBefore := b, RefPicSetStCurrAfter := a\<rparr>)"
        "set (take (NumPocStCurrBefore ppc1) b) = {i. i < 16 \<and> is_before (hevc_pics buf ! i)}"
        "sorted_wrt (\<lambda>i j. pic_order_cnt (hevc_pics buf ! j) \<le> pic_order_cnt (hevc_pics buf ! i)) (take (NumPocStCurrBefore ppc1) b)"
        "set (take (NumPocStCurrAfter ppc1) a) = {i. i < 16 \<and> is_after (hevc_pics buf ! i)}"
        "sorted_wrt (\<lambda>i j. pic_order_cnt (hevc_pics buf ! i) < pic_order_cnt (hevc_pics buf ! j)) (take (NumPocStCurrAfter ppc1) a)"
      using sort_refs_spec[OF assms(6) q(2) l assms(7,8)] by blast
    obtain pp' where c: "copyHEVCPicParam qsort target buf d pp = Some (d1, pp')"
        "hevc pp' = ppc1\<lparr>RefPicSetStCurrBefore := b, RefPicSetStCurrAfter := a\<rparr>"
      using u(1) p(1) q(1) r(1) by (simp add: copyHEVCPicParam_steps[OF l])
    have st: "RefPicIdx ppc1 = map (\<lambda>p. ref_index d (picture_id p)) (hevc_pics buf)"
        "PicOrderCntVal ppc1 = map pic_order_cnt (hevc_pics buf)"
        "take (NumPocLtCurr ppc1) (RefPicSetLtCurr ppc1) = filter (\<lambda>i. is_lt (hevc_pics buf ! i)) [0..<16]"
      using refs_stored_all[OF q(2) l] by (simp_all only: u(3))
    have e: "RefPicIdx (hevc pp') = RefPicIdx ppc1" "PicOrderCntVal (hevc pp') = PicOrderCntVal ppc1"
        "NumPocStCurrBefore (hevc pp') = NumPocStCurrBefore ppc1" "NumPocStCurrAfter (hevc pp') = NumPocStCurrAfter ppc1"
        "NumPocLtCurr (hevc pp') = NumPocLtCurr ppc1" "RefPicSetLtCurr (hevc pp') = RefPicSetLtCurr ppc1"
        "RefPicSetStCurrBefore (hevc pp') = b" "RefPicSetStCurrAfter (hevc pp') = a"
      by (simp_all add: c(2))
    show ?thesis unfolding c(1) option.case prod.case e by (intro conjI True g st r(2-5))
  qed
qed

theorem copyHEVCPicParam_references_witness:
  "\<exists>d' pp'. copyHEVCPicParam insertion_sort 1 example_hevc pic_drv zero_hevc_params = Some (d', pp') \<and>
     RefPicIdx (hevc pp') = [0, 4, 5] @ replicate 13 (- 1) \<and>
     set (take (NumPocStCurrBefore (hevc pp')) (RefPicSetStCurrBefore (hevc pp'))) = {1, 2}"
proof -
  have h: "hevc zero_hevc_params = zero_hevc"
    by (simp add: zero_hevc_params_def CUVIDPICPARAMS.extend_def HEVCPicParams.fields_def zero_pic_def)
  have s: "hevc_shape (hevc zero_hevc_params)" unfolding h by (simp add: hevc_shape_def zero_hevc_def)
  have u: "untiled example_hevc" "length (va_ReferenceFrames example_hevc) = 15" by (simp_all add: untiled_def example_hevc_def)
  have p: "hevc_pics example_hevc = \<lparr>picture_id = 1, pic_order_cnt = 8, pic_flags = 0\<rparr> #
      \<lparr>picture_id = 2, pic_order_cnt = 4, pic_flags = 0x10\<rparr> # \<lparr>picture_id = 3, pic_order_cnt = 6, pic_flags = 0x10\<rparr> #
      replicate 13 \<lparr>picture_id = VA_INVALID_ID, pic_order_cnt = 0, pic_flags = 0\<rparr>"
    by (simp add: hevc_pics_def example_hevc_def)
  have k: "is_before \<lparr>picture_id = i, pic_order_cnt = c, pic_flags = 0x10\<rparr>"
    "\<not> is_before \<lparr>picture_id = i, pic_order_cnt = c, pic_flags = 0\<rparr>"
    "\<not> is_after \<lparr>picture_id = i, pic_order_cnt = c, pic_flags = 0\<rparr>"
    "\<not> is_lt \<lparr>picture_id = i, pic_order_cnt = c, pic_flags = 0\<rparr>" for i c
    by (simp_all add: is_before_def is_after_def is_lt_def has_flag_def VA_PICTURE_HEVC_RPS_ST_CURR_BEFORE_def
        VA_PICTURE_HEVC_RPS_ST_CURR_AFTER_def VA_PICTURE_HEVC_RPS_LT_CURR_def)
  have b: "picked is_before 0 (hevc_pics example_hevc) = [1, 2]" "picked is_after 0 (hevc_pics example_hevc) = []"
    "picked is_lt 0 (hevc_pics example_hevc) = []"
    unfolding p by (simp_all add: k kind_exclusive numeral_eq_Suc)
  have l: "length (hevc_pics example_hevc) = 16" by (simp add: hevc_pics_def u(2))
  have sb: "{i. i < 16 \<and> is_before (hevc_pics example_hevc ! i)} = {1, 2}" "{i. i < 16 \<and> is_after (hevc_pics example_hevc ! i)} = {}"
    using set_picked[of is_before "hevc_pics example_hevc", unfolded l b] set_picked[of is_after "hevc_pics example_hevc", unfolded l b]
    by simp_all
  have i: "inj_on (\<lambda>i. pic_order_cnt (hevc_pics example_hevc ! i)) {1, 2}" by (simp add: p)
  have f: "few_refs (hevc_pics example_hevc)" by (simp add: few_refs_def b)
  note t = copyHEVCPicParam_references[OF pic_typed pic_target s u insertion_sorts, unfolded sb, OF i inj_on_empty]
  obtain d' pp' where r: "copyHEVCPicParam insertion_sort 1 example_hevc pic_drv zero_hevc_params = Some (d', pp')"
    using t f by (cases "copyHEVCPicParam insertion_sort 1 example_hevc pic_drv zero_hevc_params") auto
  have "map (\<lambda>p. ref_index pic_drv (picture_id p)) (hevc_pics example_hevc) = [0, 4, 5] @ replicate 13 (- 1)"
    unfolding p by (simp add: pic_ref_index)
  then show ?thesis using t unfolding r by auto
qed

theorem copyHEVCIQMatrix_diagonal_witness:
  "\<exists>iq pp'. copyHEVCIQMatrix iq zero_hevc_params = Some pp' \<and> ScalingList4x4 (hevc pp') ! 0 = [0, 4, 1, 8, 5, 2, 12, 9, 6, 3, 13, 10, 7, 14, 11, 15]"
proof -
  define iq where "iq = \<lparr>va_ScalingList4x4 = replicate 6 (map int [0..<16]), va_ScalingList8x8 = replicate 6 (map int [0..<64]),
    va_ScalingList16x16 = replicate 6 (map int [0..<64]), va_ScalingList32x32 = replicate 2 (map int [0..<64]),
    va_ScalingListDC16x16 = replicate 6 16, va_ScalingListDC32x32 = replicate 2 16\<rparr>"
  have "iq_shape iq" by (simp add: iq_shape_def iq_def)
  then obtain pp' where "copyHEVCIQMatrix iq zero_hevc_params = Some pp'"
      "ScalingList4x4 (hevc pp') = map (\<lambda>row. map ((!) row) (up_right_diagonal 4)) (va_ScalingList4x4 iq)"
    using copyHEVCIQMatrix_diagonal[of iq zero_hevc_params] by blast
  moreover have "map ((!) (map int [0..<16])) (up_right_diagonal 4) = [0, 4, 1, 8, 5, 2, 12, 9, 6, 3, 13, 10, 7, 14, 11, 15]"
    by code_simp
  ultimately show ?thesis by (intro exI[of _ iq] exI[of _ pp']) (simp add: iq_def)
qed

text \<open>
  The check whether all tiles have the same size never answers yes.  It compares each of the 19 column
  widths with its successor, the last one with the element behind the array: when all widths are
  equal it reads out of bounds, and otherwise the picture is reported as not uniform.
\<close>

theorem copy_tiles_never_uniform:
  assumes "tiles_enabled_flag ppc \<noteq> 0" "length (va_column_width_minus1 buf) = 19"
  shows "case copy_tiles buf ppc of
      None \<Rightarrow> (\<forall>j < 18. va_column_width_minus1 buf ! j = va_column_width_minus1 buf ! (j + 1)) \<or>
        19 < num_tile_columns_minus1 ppc + 1 \<or> length (va_row_height_minus1 buf) < nat (num_tile_rows_minus1 ppc + 1) \<or>
        length (column_width_minus1 ppc) < nat (num_tile_columns_minus1 ppc + 1) \<or>
        length (row_height_minus1 ppc) < nat (num_tile_rows_minus1 ppc + 1)
    | Some ppc' \<Rightarrow> uniform_spacing_flag ppc' = 0 \<and>
        (\<exists>j < 18. va_column_width_minus1 buf ! j \<noteq> va_column_width_minus1 buf ! (j + 1))"
proof (cases "\<forall>j < 18. va_column_width_minus1 buf ! j = va_column_width_minus1 buf ! (j + 1)")
  case True
  then have "copy_tiles buf ppc = None" using assms uniform_spacing_cases[OF assms(2)] by (simp add: copy_tiles_def)
  then show ?thesis using True by simp
next
  case False
  then have "uniform_spacing buf = Some False" using uniform_spacing_cases[OF assms(2)] by (simp only: if_False)
  then show ?thesis using False assms by (auto simp: copy_tiles_def take_c_def store_c_def)
qed

theorem copy_tiles_never_uniform_witness:
  "copy_tiles (example_hevc\<lparr>va_column_width_minus1 := 1 # replicate 18 0\<rparr>) (zero_hevc\<lparr>tiles_enabled_flag := 1\<rparr>) =
     Some (zero_hevc\<lparr>tiles_enabled_flag := 1, uniform_spacing_flag := 0,
       column_width_minus1 := 1 # replicate 20 0\<rparr>) \<and>
   copy_tiles example_hevc (zero_hevc\<lparr>tiles_enabled_flag := 1\<rparr>) = None"
proof -
  have "case copy_tiles example_hevc (zero_hevc\<lparr>tiles_enabled_flag := 1\<rparr>) of None \<Rightarrow> True
    | Some ppc' \<Rightarrow> (\<exists>j < 18. va_column_width_minus1 example_hevc ! j \<noteq> va_column_width_minus1 example_hevc ! (j + 1))"
    using copy_tiles_never_uniform[of "zero_hevc\<lparr>tiles_enabled_flag := 1\<rparr>" example_hevc]
    by (simp add: example_hevc_def split: option.splits)
  moreover have "\<forall>j < 18. va_column_width_minus1 example_hevc ! j = va_column_width_minus1 example_hevc ! (j + 1)"
    by (simp add: example_hevc_def nth_replicate)
  ultimately have "copy_tiles example_hevc (zero_hevc\<lparr>tiles_enabled_flag := 1\<rparr>) = None" by (auto split: option.splits)
  then show ?thesis
    by (simp add: copy_tiles_def uniform_spacing_def nth_c_def take_c_def store_c_def example_hevc_def zero_hevc_def numeral_eq_Suc)
qed

end
