(* ===== verification/H264.thy ===== *)
theory H264
  imports RefPics CodecCtx
begin

text \<open>
  The picture parameter, slice parameter and scaling list handlers of the H.264 decoder
  (\<^verbatim>\<open>src/src/h264.c\<close>: \<open>copyH264PicParam\<close>, \<open>copyH264SliceParam\<close>,
  \<open>copyH264IQMatrix\<close>); its slice data handler is in \<open>CodecCtx\<close>.
\<close>

section \<open>The parameter structs\<close>

record VAPictureH264 =
  picture_id :: u32
  frame_idx :: int
  pic_flags :: u32
  TopFieldOrderCnt :: int
  BottomFieldOrderCnt :: int

definition VA_PICTURE_H264_INVALID :: u32 where "VA_PICTURE_H264_INVALID = 0x1"
definition VA_PICTURE_H264_TOP_FIELD :: u32 where "VA_PICTURE_H264_TOP_FIELD = 0x2"
definition VA_PICTURE_H264_BOTTOM_FIELD :: u32 where "VA_PICTURE_H264_BOTTOM_FIELD = 0x4"
definition VA_PICTURE_H264_LONG_TERM_REFERENCE :: u32 where "VA_PICTURE_H264_LONG_TERM_REFERENCE = 0x10"

record VAPictureParameterBufferH264 =
  va_CurrPic :: VAPictureH264
  va_ReferenceFrames :: "VAPictureH264 list"
  va_log2_max_frame_num_minus4 :: int
  va_pic_order_cnt_type :: int
  va_log2_max_pic_order_cnt_lsb_minus4 :: int
  va_delta_pic_order_always_zero_flag :: int
  va_frame_mbs_only_flag :: int
  va_direct_8x8_inference_flag :: int
  va_num_ref_frames :: int
  va_residual_colour_transform_flag :: int
  va_bit_depth_luma_minus8 :: int
  va_bit_depth_chroma_minus8 :: int
  va_entropy_coding_mode_flag :: int
  va_pic_order_present_flag :: int
  va_weighted_pred_flag :: int
  va_weighted_bipred_idc :: int
  va_pic_init_qp_minus26 :: int
  va_deblocking_filter_control_present_flag :: int
  va_redundant_pic_cnt_present_flag :: int
  va_transform_8x8_mode_flag :: int
  va_constrained_intra_pred_flag :: int
  va_chroma_qp_index_offset :: int
  va_second_chroma_qp_index_offset :: int
  va_reference_pic_flag :: int
  va_frame_num :: int
  va_picture_width_in_mbs_minus1 :: int
  va_picture_height_in_mbs_minus1 :: int
  va_field_pic_flag :: int
  va_mb_adaptive_frame_field_flag :: int

record CUVIDH264DPBENTRY =
  PicIdx :: int
  FrameIdx :: int
  is_long_term :: bool
  not_existing :: int
  used_for_reference :: int
  FieldOrderCnt :: "int \<times> int"

record CUVIDH264PICPARAMS =
  log2_max_frame_num_minus4 :: int
  pic_order_cnt_type :: int
  log2_max_pic_order_cnt_lsb_minus4 :: int
  delta_pic_order_always_zero_flag :: int
  frame_mbs_only_flag :: int
  direct_8x8_inference_flag :: int
  num_ref_frames :: int
  residual_colour_transform_flag :: int
  bit_depth_luma_minus8 :: int
  bit_depth_chroma_minus8 :: int
  entropy_coding_mode_flag :: int
  pic_order_present_flag :: int
  weighted_pred_flag :: int
  weighted_bipred_idc :: int
  pic_init_qp_minus26 :: int
  deblocking_filter_control_present_flag :: int
  redundant_pic_cnt_present_flag :: int
  transform_8x8_mode_flag :: int
  constrained_intra_pred_flag :: int
  chroma_qp_index_offset :: int
  second_chroma_qp_index_offset :: int
  h264_ref_pic_flag :: int
  frame_num :: int
  MbaffFrameFlag :: int
  num_ref_idx_l0_active_minus1 :: int
  num_ref_idx_l1_active_minus1 :: int
  CurrFieldOrderCnt :: "int \<times> int"
  dpb :: "CUVIDH264DPBENTRY list"
  WeightScale4x4 :: "int list list"
  WeightScale8x8 :: "int list list"

record VASliceParameterBufferH264 = slice_param +
  va_slice_type :: int
  va_num_ref_idx_l0_active_minus1 :: int
  va_num_ref_idx_l1_active_minus1 :: int

record VAIQMatrixBufferH264 =
  va_ScalingList4x4 :: "int list list"
  va_ScalingList8x8 :: "int list list"

record H264PicParams = CUVIDPICPARAMS +
  h264 :: CUVIDH264PICPARAMS

section \<open>Picture parameters\<close>

definition copy_h264_header :: "VAPictureParameterBufferH264 \<Rightarrow> H264PicParams \<Rightarrow> H264PicParams" where
  "copy_h264_header buf picParams =
     (let top = has_flag (pic_flags (va_CurrPic buf)) VA_PICTURE_H264_TOP_FIELD;
          bottom = has_flag (pic_flags (va_CurrPic buf)) VA_PICTURE_H264_BOTTOM_FIELD
      in picParams\<lparr>
        PicWidthInMbs := va_picture_width_in_mbs_minus1 buf + 1,
        FrameHeightInMbs := va_picture_height_in_mbs_minus1 buf + 1,
        field_pic_flag := va_field_pic_flag buf,
        bottom_field_flag := to_int bottom,
        second_field := to_int (top \<and> bottom),
        ref_pic_flag := va_reference_pic_flag buf,
        intra_pic_flag := 1\<rparr>)"

definition copy_h264_fields :: "VAPictureParameterBufferH264 \<Rightarrow> CUVIDH264PICPARAMS \<Rightarrow> CUVIDH264PICPARAMS" where
  "copy_h264_fields buf pps = pps\<lparr>
     log2_max_frame_num_minus4 := va_log2_max_frame_num_minus4 buf,
     pic_order_cnt_type := va_pic_order_cnt_type buf,
     log2_max_pic_order_cnt_lsb_minus4 := va_log2_max_pic_order_cnt_lsb_minus4 buf,
     delta_pic_order_always_zero_flag := va_delta_pic_order_always_zero_flag buf,
     frame_mbs_only_flag := va_frame_mbs_only_flag buf,
     direct_8x8_inference_flag := va_direct_8x8_inference_flag buf, num_ref_frames := va_num_ref_frames buf,
     residual_colour_transform_flag := va_residual_colour_transform_flag buf,
     bit_depth_luma_minus8 := va_bit_depth_luma_minus8 buf,
     bit_depth_chroma_minus8 := va_bit_depth_chroma_minus8 buf,
     entropy_coding_mode_flag := va_entropy_coding_mode_flag buf,
     pic_order_present_flag := va_pic_order_present_flag buf, weighted_pred_flag := va_weighted_pred_flag buf,
     weighted_bipred_idc := va_weighted_bipred_idc buf, pic_init_qp_minus26 := va_pic_init_qp_minus26 buf,
     deblocking_filter_control_present_flag := va_deblocking_filter_control_present_flag buf,
     redundant_pic_cnt_present_flag := va_redundant_pic_cnt_present_flag buf,
     transform_8x8_mode_flag := va_transform_8x8_mode_flag buf,
     constrained_intra_pred_flag := va_constrained_intra_pred_flag buf,
     chroma_qp_index_offset := va_chroma_qp_index_offset buf,
     second_chroma_qp_index_offset := va_second_chroma_qp_index_offset buf,
     h264_ref_pic_flag := va_reference_pic_flag buf, frame_num := va_frame_num buf,
     MbaffFrameFlag := to_int (va_mb_adaptive_frame_field_flag buf \<noteq> 0 \<and> va_field_pic_flag buf = 0),
     CurrFieldOrderCnt := (TopFieldOrderCnt (va_CurrPic buf), BottomFieldOrderCnt (va_CurrPic buf))\<rparr>"

text \<open>One entry of the decoded picture buffer; an invalid reference only loses its index.\<close>

definition used_fields :: "VAPictureH264 \<Rightarrow> int" where
  "used_fields ref =
     (let tmp = (if has_flag (pic_flags ref) VA_PICTURE_H264_TOP_FIELD then 1 else 0)
              + (if has_flag (pic_flags ref) VA_PICTURE_H264_BOTTOM_FIELD then 2 else 0)
      in if tmp = 0 then 3 else tmp)"

definition copy_dpb_entry ::
  "('c, 's, 'z) drv \<Rightarrow> VAPictureH264 \<Rightarrow> CUVIDH264DPBENTRY \<Rightarrow> CUVIDH264DPBENTRY option" where
  "copy_dpb_entry d ref e =
     (if \<not> has_flag (pic_flags ref) VA_PICTURE_H264_INVALID then do {
        idx \<leftarrow> pictureIdxFromSurfaceId d (picture_id ref);
        Some (e\<lparr>PicIdx := idx, FrameIdx := frame_idx ref,
               FieldOrderCnt := (TopFieldOrderCnt ref, BottomFieldOrderCnt ref),
               is_long_term := has_flag (pic_flags ref) VA_PICTURE_H264_LONG_TERM_REFERENCE,
               not_existing := 0, used_for_reference := used_fields ref\<rparr>)
      }
      else Some (e\<lparr>PicIdx := - 1\<rparr>))"

fun copy_dpb ::
  "('c, 's, 'z) drv \<Rightarrow> nat \<Rightarrow> VAPictureH264 list \<Rightarrow> CUVIDH264DPBENTRY list \<Rightarrow> CUVIDH264DPBENTRY list option" where
  "copy_dpb d 0 refs es = Some es"
| "copy_dpb d (Suc n) (ref # refs) (e # es) = do {
     e \<leftarrow> copy_dpb_entry d ref e;
     es \<leftarrow> copy_dpb d n refs es;
     Some (e # es)
   }"
| "copy_dpb d (Suc n) _ _ = None"

definition copyH264PicParam ::
  "addr \<Rightarrow> VAPictureParameterBufferH264 \<Rightarrow> ('c, 's, 'z) drv \<Rightarrow> H264PicParams \<Rightarrow>
   (('c, 's, 'z) drv \<times> H264PicParams) option" where
  "copyH264PicParam target buf d picParams = do {
     d \<leftarrow> update_target target (\<lambda>s. s\<lparr>progressiveFrame := (va_field_pic_flag buf = 0)\<rparr>) d;
     let pps = copy_h264_fields buf (h264 picParams);
     entries \<leftarrow> copy_dpb d 16 (va_ReferenceFrames buf) (dpb pps);
     Some (d, (copy_h264_header buf picParams)\<lparr>h264 := pps\<lparr>dpb := entries\<rparr>\<rparr>)
   }"

section \<open>Slice parameters and scaling lists\<close>

text \<open>Only the first slice of the buffer is looked at; an empty buffer has none.\<close>

definition copyH264SliceParam ::
  "('c, VASliceParameterBufferH264, 'z) CodecState_scheme \<Rightarrow> VASliceParameterBufferH264 list \<Rightarrow> u32 \<Rightarrow> H264PicParams \<Rightarrow>
   (('c, VASliceParameterBufferH264, 'z) CodecState_scheme \<times> H264PicParams) option" where
  "copyH264SliceParam ctx ptr n picParams = do {
     buf \<leftarrow> nth_c ptr 0;
     let picParams = picParams\<lparr>h264 := (h264 picParams)\<lparr>
       num_ref_idx_l0_active_minus1 := va_num_ref_idx_l0_active_minus1 buf,
       num_ref_idx_l1_active_minus1 := va_num_ref_idx_l1_active_minus1 buf\<rparr>\<rparr>;
     let picParams = (if va_slice_type buf \<noteq> 2 \<and> va_slice_type buf \<noteq> 4 then picParams\<lparr>intra_pic_flag := 0\<rparr> else picParams);
     Some (copySliceParam ctx ptr n picParams)
   }"

text \<open>Both arrays are copied whole.\<close>

definition copyH264IQMatrix :: "VAIQMatrixBufferH264 \<Rightarrow> H264PicParams \<Rightarrow> H264PicParams" where
  "copyH264IQMatrix iq picParams = picParams\<lparr>h264 := (h264 picParams)\<lparr>
     WeightScale4x4 := va_ScalingList4x4 iq, WeightScale8x8 := va_ScalingList8x8 iq\<rparr>\<rparr>"

section \<open>The decoded picture buffer\<close>

definition dpb_entry_of :: "('c, 's, 'z) drv \<Rightarrow> VAPictureH264 \<Rightarrow> CUVIDH264DPBENTRY \<Rightarrow> CUVIDH264DPBENTRY" where
  "dpb_entry_of d ref e =
     (if has_flag (pic_flags ref) VA_PICTURE_H264_INVALID then e\<lparr>PicIdx := - 1\<rparr>
      else \<lparr>PicIdx = ref_index d (picture_id ref), FrameIdx = frame_idx ref,
             is_long_term = has_flag (pic_flags ref) VA_PICTURE_H264_LONG_TERM_REFERENCE, not_existing = 0,
             used_for_reference = used_fields ref, FieldOrderCnt = (TopFieldOrderCnt ref, BottomFieldOrderCnt ref)\<rparr>)"

lemma copy_dpb_entry_total: "typed d \<Longrightarrow> copy_dpb_entry d ref e = Some (dpb_entry_of d ref e)"
  by (simp add: copy_dpb_entry_def dpb_entry_of_def pictureIdx_lookup)

lemma copy_dpb_total:
  assumes "typed d"
  shows "length refs = n \<Longrightarrow> length es = n \<Longrightarrow> copy_dpb d n refs es = Some (map2 (dpb_entry_of d) refs es)"
proof (induction n arbitrary: refs es)
  case (Suc n)
  then show ?case by (cases refs; cases es) (simp_all add: copy_dpb_entry_total[OF assms])
qed simp

lemma used_fields_range: "used_fields ref \<in> {1, 2, 3}"
  by (simp add: used_fields_def Let_def)

section \<open>An example\<close>

definition zero_dpb_entry :: CUVIDH264DPBENTRY where
  "zero_dpb_entry = \<lparr>PicIdx = 0, FrameIdx = 0, is_long_term = False, not_existing = 0, used_for_reference = 0, FieldOrderCnt = (0, 0)\<rparr>"

definition example_h264 :: VAPictureParameterBufferH264 where
  "example_h264 = \<lparr>
     va_CurrPic = \<lparr>picture_id = 1, frame_idx = 3, pic_flags = 0, TopFieldOrderCnt = 8, BottomFieldOrderCnt = 8\<rparr>,
     va_ReferenceFrames = [\<lparr>picture_id = 2, frame_idx = 1, pic_flags = 0x8, TopFieldOrderCnt = 4, BottomFieldOrderCnt = 4\<rparr>,
       \<lparr>picture_id = 3, frame_idx = 2, pic_flags = 0x12, TopFieldOrderCnt = 6, BottomFieldOrderCnt = 6\<rparr>] @ replicate 14 \<lparr>picture_id = VA_INVALID_ID, frame_idx = 0, pic_flags = 0x1, TopFieldOrderCnt = 0, BottomFieldOrderCnt = 0\<rparr>,
     va_log2_max_frame_num_minus4 = 0, va_pic_order_cnt_type = 0, va_log2_max_pic_order_cnt_lsb_minus4 = 0,
     va_delta_pic_order_always_zero_flag = 0, va_frame_mbs_only_flag = 0, va_direct_8x8_inference_flag = 0,
     va_num_ref_frames = 0, va_residual_colour_transform_flag = 0, va_bit_depth_luma_minus8 = 0,
     va_bit_depth_chroma_minus8 = 0, va_entropy_coding_mode_flag = 0, va_pic_order_present_flag = 0,
     va_weighted_pred_flag = 0, va_weighted_bipred_idc = 0, va_pic_init_qp_minus26 = 0,
     va_deblocking_filter_control_present_flag = 0, va_redundant_pic_cnt_present_flag = 0,
     va_transform_8x8_mode_flag = 0, va_constrained_intra_pred_flag = 0, va_chroma_qp_index_offset = 0,
     va_second_chroma_qp_index_offset = 0, va_reference_pic_flag = 0, va_frame_num = 0,
     va_picture_width_in_mbs_minus1 = 3, va_picture_height_in_mbs_minus1 = 1, va_field_pic_flag = 0,
     va_mb_adaptive_frame_field_flag = 0\<rparr>"

definition zero_h264 :: CUVIDH264PICPARAMS where
  "zero_h264 = \<lparr>log2_max_frame_num_minus4 = 0, pic_order_cnt_type = 0, log2_max_pic_order_cnt_lsb_minus4 = 0,
     delta_pic_order_always_zero_flag = 0, frame_mbs_only_flag = 0, direct_8x8_inference_flag = 0,
     num_ref_frames = 0, residual_colour_transform_flag = 0, bit_depth_luma_minus8 = 0,
     bit_depth_chroma_minus8 = 0, entropy_coding_mode_flag = 0, pic_order_present_flag = 0,
     weighted_pred_flag = 0, weighted_bipred_idc = 0, pic_init_qp_minus26 = 0,
     deblocking_filter_control_present_flag = 0, redundant_pic_cnt_present_flag = 0,
     transform_8x8_mode_flag = 0, constrained_intra_pred_flag = 0, chroma_qp_index_offset = 0,
     second_chroma_qp_index_offset = 0, h264_ref_pic_flag = 0, frame_num = 0, MbaffFrameFlag = 0,
     num_ref_idx_l0_active_minus1 = 0, num_ref_idx_l1_active_minus1 = 0, CurrFieldOrderCnt = (0, 0),
     dpb = replicate 16 zero_dpb_entry, WeightScale4x4 = replicate 6 (replicate 16 0),
     WeightScale8x8 = replicate 2 (replicate 64 0)\<rparr>"

definition zero_h264_params :: H264PicParams where
  "zero_h264_params = CUVIDPICPARAMS.extend zero_pic (H264PicParams.fields zero_h264)"

lemma zero_h264_params_fields: "h264 zero_h264_params = zero_h264" "length (dpb zero_h264) = 16"
  by (simp_all add: zero_h264_params_def CUVIDPICPARAMS.extend_def H264PicParams.fields_def zero_pic_def zero_h264_def)

section \<open>What the handlers do\<close>



section \<open>Slice parameter buffers\<close>

text \<open>The buffers of a picture, one after the other.\<close>

fun copyH264SliceParams ::
  "('c, VASliceParameterBufferH264, 'z) CodecState_scheme \<Rightarrow> (VASliceParameterBufferH264 list \<times> u32) list \<Rightarrow> H264PicParams \<Rightarrow>
   (('c, VASliceParameterBufferH264, 'z) CodecState_scheme \<times> H264PicParams) option" where
  "copyH264SliceParams ctx [] pp = Some (ctx, pp)"
| "copyH264SliceParams ctx ((ptr, n) # bufs) pp = do {
     (ctx, pp) \<leftarrow> copyH264SliceParam ctx ptr n pp;
     copyH264SliceParams ctx bufs pp
   }"

definition intra_slice :: "VASliceParameterBufferH264 \<Rightarrow> bool" where
  "intra_slice sl \<longleftrightarrow> va_slice_type sl \<in> {2, 4}"

lemma copyH264SliceParams_intra:
  assumes "\<forall>(ptr, n) \<in> set bufs. ptr \<noteq> []"
  shows "\<exists>ctx' pp'. copyH264SliceParams ctx bufs pp = Some (ctx', pp') \<and>
    intra_pic_flag pp' = (if \<forall>(ptr, n) \<in> set bufs. intra_slice (hd ptr) then intra_pic_flag pp else 0) \<and>
    nNumSlices pp' = nNumSlices pp + (\<Sum>(ptr, n) \<leftarrow> bufs. n)"
  using assms
proof (induction bufs arbitrary: ctx pp)
  case (Cons b bufs)
  obtain ptr n where b: "b = (ptr, n)" by (cases b)
  then obtain sl rest where p: "ptr = sl # rest" using Cons.prems by (cases ptr) auto
  obtain ctx1 pp1 where c: "copyH264SliceParam ctx ptr n pp = Some (ctx1, pp1)"
      "intra_pic_flag pp1 = (if intra_slice sl then intra_pic_flag pp else 0)" "nNumSlices pp1 = nNumSlices pp + n"
    by (simp add: copyH264SliceParam_def p copySliceParam_def intra_slice_def Let_def)
  show ?case using Cons.IH[of ctx1 pp1] Cons.prems c by (auto simp: b p add.assoc)
qed simp

end
