(* ===== verification/Mpeg2.thy ===== *)
theory Mpeg2
  imports RefPics CodecCtx
begin

text \<open>
  The picture parameter and quantiser matrix handlers of the MPEG-2 decoder (\<^verbatim>\<open>src/src/mpeg2.c\<close>:
  \<open>copyMPEG2PicParam\<close>, \<open>copyMPEG2IQMatrix\<close>); its slice handlers are in \<open>CodecCtx\<close>.
\<close>

section \<open>The parameter structs\<close>

record VAPictureParameterBufferMPEG2 =
  va_forward_reference_picture :: u32
  va_backward_reference_picture :: u32
  va_horizontal_size :: int
  va_vertical_size :: int
  va_progressive_frame :: int
  va_picture_structure :: int
  va_is_first_field :: int
  va_f_code :: u32
  va_picture_coding_type :: int
  va_intra_dc_precision :: int
  va_frame_pred_frame_dct :: int
  va_concealment_motion_vectors :: int
  va_q_scale_type :: int
  va_intra_vlc_format :: int
  va_alternate_scan :: int
  va_top_field_first :: int

record CUVIDMPEG2PICPARAMS =
  ForwardRefIdx :: int
  BackwardRefIdx :: int
  full_pel_forward_vector :: int
  full_pel_backward_vector :: int
  f_code :: "u32 list list"
  picture_coding_type :: int
  intra_dc_precision :: int
  frame_pred_frame_dct :: int
  concealment_motion_vectors :: int
  q_scale_type :: int
  intra_vlc_format :: int
  alternate_scan :: int
  top_field_first :: int
  QuantMatrixIntra :: "int list"
  QuantMatrixInter :: "int list"

record VAIQMatrixBufferMPEG2 =
  va_load_intra_quantiser_matrix :: int
  va_load_non_intra_quantiser_matrix :: int
  va_intra_quantiser_matrix :: "int list"
  va_non_intra_quantiser_matrix :: "int list"

record MPEG2PicParams = CUVIDPICPARAMS +
  mpeg2 :: CUVIDMPEG2PICPARAMS

section \<open>Picture parameters\<close>

text \<open>The four 4-bit codes of the packed motion vector range.\<close>

definition unpack_f_code :: "u32 \<Rightarrow> u32 list list" where
  "unpack_f_code w = [[drop_bit 12 w AND 0xf, drop_bit 8 w AND 0xf], [drop_bit 4 w AND 0xf, w AND 0xf]]"

definition copy_mpeg2_header :: "VAPictureParameterBufferMPEG2 \<Rightarrow> MPEG2PicParams \<Rightarrow> MPEG2PicParams" where
  "copy_mpeg2_header buf picParams =
     (let field = (va_picture_structure buf \<noteq> 3) in picParams\<lparr>
        PicWidthInMbs := (va_horizontal_size buf + 15) div 16,
        FrameHeightInMbs := (va_vertical_size buf + 15) div 16,
        field_pic_flag := to_int field,
        bottom_field_flag := to_int (va_picture_structure buf = 2),
        second_field := to_int (field \<and> va_is_first_field buf = 0),
        intra_pic_flag := to_int (va_picture_coding_type buf = 1),
        ref_pic_flag := to_int (va_picture_coding_type buf = 1 \<or> va_picture_coding_type buf = 2)\<rparr>)"

definition copy_mpeg2_fields :: "VAPictureParameterBufferMPEG2 \<Rightarrow> CUVIDMPEG2PICPARAMS \<Rightarrow> CUVIDMPEG2PICPARAMS" where
  "copy_mpeg2_fields buf pps = pps\<lparr>
     full_pel_forward_vector := 0, full_pel_backward_vector := 0, f_code := unpack_f_code (va_f_code buf),
     picture_coding_type := va_picture_coding_type buf, intra_dc_precision := va_intra_dc_precision buf,
     frame_pred_frame_dct := va_frame_pred_frame_dct buf,
     concealment_motion_vectors := va_concealment_motion_vectors buf, q_scale_type := va_q_scale_type buf,
     intra_vlc_format := va_intra_vlc_format buf, alternate_scan := va_alternate_scan buf,
     top_field_first := va_top_field_first buf\<rparr>"

definition copyMPEG2PicParam ::
  "addr \<Rightarrow> VAPictureParameterBufferMPEG2 \<Rightarrow> ('c, 's, 'z) drv \<Rightarrow> MPEG2PicParams \<Rightarrow>
   (('c, 's, 'z) drv \<times> MPEG2PicParams) option" where
  "copyMPEG2PicParam target buf d picParams = do {
     d \<leftarrow> update_target target (\<lambda>s. s\<lparr>progressiveFrame := (va_progressive_frame buf \<noteq> 0)\<rparr>) d;
     forward \<leftarrow> pictureIdxFromSurfaceId d (va_forward_reference_picture buf);
     backward \<leftarrow> pictureIdxFromSurfaceId d (va_backward_reference_picture buf);
     Some (d, (copy_mpeg2_header buf picParams)\<lparr>
       mpeg2 := (copy_mpeg2_fields buf (mpeg2 picParams))\<lparr>ForwardRefIdx := forward, BackwardRefIdx := backward\<rparr>\<rparr>)
   }"

section \<open>Quantiser matrices\<close>

definition ff_identity :: "nat list" where
  "ff_identity = [0..<64]"

definition ff_zigzag_direct :: "nat list" where
  "ff_zigzag_direct =
    [0, 1, 8, 16, 9, 2, 3, 10, 17, 24, 32, 25, 18, 11, 4, 5,
     12, 19, 26, 33, 40, 48, 41, 34, 27, 20, 13, 6, 7, 14, 21, 28,
     35, 42, 49, 56, 57, 50, 43, 36, 29, 22, 15, 23, 30, 37, 44, 51,
     58, 59, 52, 45, 38, 31, 39, 46, 53, 60, 61, 54, 47, 55, 62, 63]"

definition ff_mpeg1_default_intra_matrix :: "int list" where
  "ff_mpeg1_default_intra_matrix =
    [8, 16, 19, 22, 26, 27, 29, 34,
     16, 16, 22, 24, 27, 29, 34, 37,
     19, 22, 26, 27, 29, 34, 34, 38,
     22, 22, 26, 27, 29, 34, 37, 40,
     22, 26, 27, 29, 32, 35, 40, 48,
     26, 27, 29, 32, 35, 40, 48, 58,
     26, 27, 29, 34, 38, 46, 56, 69,
     27, 29, 35, 38, 46, 56, 69, 83]"

definition ff_mpeg1_default_non_intra_matrix :: "int list" where
  "ff_mpeg1_default_non_intra_matrix = replicate 64 16"

text \<open>The loop that stores \<open>matrix[i]\<close> at \<open>lookup[i]\<close>, from \<open>i\<close> for \<open>n\<close> rounds.\<close>

fun scatter :: "nat \<Rightarrow> nat \<Rightarrow> nat list \<Rightarrow> int list \<Rightarrow> int list \<Rightarrow> int list option" where
  "scatter 0 i lookup matrix out = Some out"
| "scatter (Suc n) i lookup matrix out = do {
     k \<leftarrow> nth_c lookup i;
     v \<leftarrow> nth_c matrix i;
     guard (k < length out);
     scatter n (i + 1) lookup matrix (out[k := v])
   }"

definition copyMPEG2IQMatrix :: "VAIQMatrixBufferMPEG2 \<Rightarrow> MPEG2PicParams \<Rightarrow> MPEG2PicParams option" where
  "copyMPEG2IQMatrix iq picParams = do {
     let (intra, intra_lookup) =
       (if va_load_intra_quantiser_matrix iq \<noteq> 0 then (va_intra_quantiser_matrix iq, ff_zigzag_direct)
        else (ff_mpeg1_default_intra_matrix, ff_identity));
     let (inter, inter_lookup) =
       (if va_load_non_intra_quantiser_matrix iq \<noteq> 0 then (va_non_intra_quantiser_matrix iq, ff_zigzag_direct)
        else (ff_mpeg1_default_non_intra_matrix, ff_identity));
     qa \<leftarrow> scatter 64 0 intra_lookup intra (QuantMatrixIntra (mpeg2 picParams));
     qe \<leftarrow> scatter 64 0 inter_lookup inter (QuantMatrixInter (mpeg2 picParams));
     Some (picParams\<lparr>mpeg2 := (mpeg2 picParams)\<lparr>QuantMatrixIntra := qa, QuantMatrixInter := qe\<rparr>\<rparr>)
   }"

section \<open>The zigzag scan\<close>

text \<open>
  The zigzag scan of an 8x8 block: the diagonals from the top left corner on, the odd ones downwards and
  the even ones upwards.
\<close>

definition zigzag :: "nat list" where
  "zigzag = concat (map (\<lambda>s. map (\<lambda>r. 8 * r + (s - r))
     ((if even s then rev else id) (filter (\<lambda>r. r \<le> s \<and> s - r < 8) [0..<8]))) [0..<15])"

lemma zigzag_table: "ff_zigzag_direct = zigzag"
  by code_simp

lemma lookups_permute: "length ff_zigzag_direct = 64" "distinct ff_zigzag_direct" "set ff_zigzag_direct = {..<64}"
  "length ff_identity = 64" "distinct ff_identity" "set ff_identity = {..<64}"
  by code_simp+

text \<open>The loop over a whole permutation stores every entry at its place.\<close>

lemma scatter_spec:
  assumes "i + n \<le> length lookup" "length lookup = length matrix" "distinct lookup" "\<forall>k \<in> set lookup. k < length out"
  shows "\<exists>out'. scatter n i lookup matrix out = Some out' \<and> length out' = length out \<and>
    (\<forall>j. i \<le> j \<and> j < i + n \<longrightarrow> out' ! (lookup ! j) = matrix ! j) \<and>
    (\<forall>k. (\<forall>j. i \<le> j \<and> j < i + n \<longrightarrow> lookup ! j \<noteq> k) \<longrightarrow> out' ! k = out ! k)"
  using assms(1,4)
proof (induction n arbitrary: i out)
  case (Suc n)
  let ?o = "out[lookup ! i := matrix ! i]"
  have i: "i < length lookup" "i < length matrix" "lookup ! i < length out" using Suc.prems assms(2) by auto
  obtain out' where o: "scatter n (i + 1) lookup matrix ?o = Some out'" "length out' = length ?o"
      "\<And>j. i + 1 \<le> j \<Longrightarrow> j < i + 1 + n \<Longrightarrow> out' ! (lookup ! j) = matrix ! j"
      "\<And>k. \<forall>j. i + 1 \<le> j \<and> j < i + 1 + n \<longrightarrow> lookup ! j \<noteq> k \<Longrightarrow> out' ! k = ?o ! k"
    using Suc.IH[of "i + 1" ?o] Suc.prems by auto
  have "lookup ! j \<noteq> lookup ! i" if "i + 1 \<le> j" "j < i + 1 + n" for j
    using that assms(3) Suc.prems(1) i(1) by (simp add: nth_eq_iff_index_eq)
  then have h: "out' ! (lookup ! i) = matrix ! i" using o(4)[of "lookup ! i"] i(3) by simp
  have "out' ! (lookup ! j) = matrix ! j" if "i \<le> j" "j < i + Suc n" for j
    using that h o(3)[of j] by (cases "j = i") auto
  moreover have "out' ! k = out ! k" if "\<forall>j. i \<le> j \<and> j < i + Suc n \<longrightarrow> lookup ! j \<noteq> k" for k
    using o(4)[of k] that[rule_format, of i] that by auto
  ultimately show ?case using o(1,2) i by auto
qed simp

lemma scatter_whole:
  assumes "length lookup = 64" "distinct lookup" "set lookup = {..<64}" "length matrix = 64" "length out = 64"
  shows "\<exists>out'. scatter 64 0 lookup matrix out = Some out' \<and> length out' = 64 \<and> (\<forall>j < 64. out' ! (lookup ! j) = matrix ! j)"
  using scatter_spec[of 0 64 lookup matrix out] assms by auto

text \<open>
  The quantiser matrices reach the decoder in raster order.  The handler returns; a matrix that the
  buffer loads is taken from its zigzag scan, entry \<open>j\<close> at the \<open>j\<close>-th position of the scan, and one that
  is not loaded is the default matrix of the standard; every entry is set, whatever the matrix of
  the picture before was.
\<close>

theorem copyMPEG2IQMatrix_raster:
  assumes "length (va_intra_quantiser_matrix iq) = 64" "length (va_non_intra_quantiser_matrix iq) = 64"
    "length (QuantMatrixIntra (mpeg2 pp)) = 64" "length (QuantMatrixInter (mpeg2 pp)) = 64"
  shows "\<exists>qa qe. copyMPEG2IQMatrix iq pp =
      Some (pp\<lparr>mpeg2 := (mpeg2 pp)\<lparr>QuantMatrixIntra := qa, QuantMatrixInter := qe\<rparr>\<rparr>) \<and>
    length qa = 64 \<and> length qe = 64 \<and> distinct zigzag \<and> set zigzag = {..<64} \<and>
    (if va_load_intra_quantiser_matrix iq \<noteq> 0 then \<forall>j < 64. qa ! (zigzag ! j) = va_intra_quantiser_matrix iq ! j
     else qa = ff_mpeg1_default_intra_matrix) \<and>
    (if va_load_non_intra_quantiser_matrix iq \<noteq> 0 then \<forall>j < 64. qe ! (zigzag ! j) = va_non_intra_quantiser_matrix iq ! j
     else qe = replicate 64 16)"
proof -
  have d: "length ff_mpeg1_default_intra_matrix = 64" "length ff_mpeg1_default_non_intra_matrix = 64"
    by (simp_all add: ff_mpeg1_default_intra_matrix_def ff_mpeg1_default_non_intra_matrix_def)
  have idm: "\<exists>q. scatter 64 0 ff_identity m out = Some q \<and> q = m" if "length m = 64" "length out = 64" for m out :: "int list"
    using scatter_whole[OF lookups_permute(4-6) that] that by (force simp: ff_identity_def intro: nth_equalityI)
  have zz: "\<exists>q. scatter 64 0 ff_zigzag_direct m out = Some q \<and> length q = 64 \<and> (\<forall>j < 64. q ! (zigzag ! j) = m ! j)"
    if "length m = 64" "length out = 64" for m out :: "int list"
    using scatter_whole[OF lookups_permute(1-3) that] by (simp add: zigzag_table)
  obtain qa where qa: "scatter 64 0 (if va_load_intra_quantiser_matrix iq \<noteq> 0 then ff_zigzag_direct else ff_identity)
        (if va_load_intra_quantiser_matrix iq \<noteq> 0 then va_intra_quantiser_matrix iq else ff_mpeg1_default_intra_matrix)
        (QuantMatrixIntra (mpeg2 pp)) = Some qa" "length qa = 64"
      "if va_load_intra_quantiser_matrix iq \<noteq> 0 then \<forall>j < 64. qa ! (zigzag ! j) = va_intra_quantiser_matrix iq ! j
       else qa = ff_mpeg1_default_intra_matrix"
    using zz[OF assms(1,3)] idm[OF d(1) assms(3)] d(1) by (cases "va_load_intra_quantiser_matrix iq = 0") auto
  obtain qe where qe: "scatter 64 0 (if va_load_non_intra_quantiser_matrix iq \<noteq> 0 then ff_zigzag_direct else ff_identity)
        (if va_load_non_intra_quantiser_matrix iq \<noteq> 0 then va_non_intra_quantiser_matrix iq else ff_mpeg1_default_non_intra_matrix)
        (QuantMatrixInter (mpeg2 pp)) = Some qe" "length qe = 64"
      "if va_load_non_intra_quantiser_matrix iq \<noteq> 0 then \<forall>j < 64. qe ! (zigzag ! j) = va_non_intra_quantiser_matrix iq ! j
       else qe = ff_mpeg1_default_non_intra_matrix"
    using zz[OF assms(2,4)] idm[OF d(2) assms(4)] d(2) by (cases "va_load_non_intra_quantiser_matrix iq = 0") auto
  have c: "copyMPEG2IQMatrix iq pp = Some (pp\<lparr>mpeg2 := (mpeg2 pp)\<lparr>QuantMatrixIntra := qa, QuantMatrixInter := qe\<rparr>\<rparr>)"
    using qa(1) qe(1) by (simp add: copyMPEG2IQMatrix_def split: if_splits)
  show ?thesis
    by (intro exI[of _ qa] exI[of _ qe] conjI c qa(2,3) qe(2) qe(3)[unfolded ff_mpeg1_default_non_intra_matrix_def])
      (use lookups_permute in \<open>simp_all add: zigzag_table\<close>)
qed

definition zero_mpeg2 :: CUVIDMPEG2PICPARAMS where
  "zero_mpeg2 = \<lparr>ForwardRefIdx = 0, BackwardRefIdx = 0, full_pel_forward_vector = 0, full_pel_backward_vector = 0,
     f_code = [[0, 0], [0, 0]], picture_coding_type = 0, intra_dc_precision = 0, frame_pred_frame_dct = 0,
     concealment_motion_vectors = 0, q_scale_type = 0, intra_vlc_format = 0, alternate_scan = 0,
     top_field_first = 0, QuantMatrixIntra = replicate 64 0, QuantMatrixInter = replicate 64 0\<rparr>"

theorem copyMPEG2IQMatrix_raster_witness:
  "\<exists>pp qa qe. copyMPEG2IQMatrix \<lparr>va_load_intra_quantiser_matrix = 1, va_load_non_intra_quantiser_matrix = 0,
       va_intra_quantiser_matrix = map int [0..<64], va_non_intra_quantiser_matrix = replicate 64 0\<rparr> pp =
     Some (pp\<lparr>mpeg2 := (mpeg2 pp)\<lparr>QuantMatrixIntra := qa, QuantMatrixInter := qe\<rparr>\<rparr>) \<and>
     qa ! 8 = 2 \<and> qe = replicate 64 16"
proof -
  define pp where "pp = CUVIDPICPARAMS.extend zero_pic (MPEG2PicParams.fields zero_mpeg2)"
  let ?iq = "\<lparr>va_load_intra_quantiser_matrix = 1, va_load_non_intra_quantiser_matrix = 0,
       va_intra_quantiser_matrix = map int [0..<64], va_non_intra_quantiser_matrix = replicate 64 0\<rparr>"
  have "mpeg2 pp = zero_mpeg2"
    by (simp add: pp_def CUVIDPICPARAMS.extend_def MPEG2PicParams.fields_def zero_pic_def)
  then obtain qa qe where q: "copyMPEG2IQMatrix ?iq pp = Some (pp\<lparr>mpeg2 := (mpeg2 pp)\<lparr>QuantMatrixIntra := qa, QuantMatrixInter := qe\<rparr>\<rparr>)"
      "\<forall>j < 64. qa ! (zigzag ! j) = map int [0..<64] ! j" "qe = replicate 64 16"
    using copyMPEG2IQMatrix_raster[of ?iq pp] by (auto simp: zero_mpeg2_def)
  have "zigzag ! 2 = 8" by code_simp
  then have "qa ! 8 = 2" using q(2)[rule_format, of 2] by simp
  then show ?thesis using q(1,3) by blast
qed

end
