(* ===== verification/Vc1.thy ===== *)
theory Vc1
  imports RefPics CodecCtx
begin

text \<open>
  The picture parameter handler of the VC-1 decoder (\<^verbatim>\<open>src/src/vc1.c\<close>:
  \<open>copyVC1PicParam\<close>); its slice handlers are in \<open>CodecCtx\<close>, and the bit plane handler does
  nothing.
\<close>

record VAPictureParameterBufferVC1 =
  va_forward_reference_picture :: u32
  va_backward_reference_picture :: u32
  va_frame_coding_mode :: int
  va_top_field_first :: int
  va_is_first_field :: int
  va_picture_type :: int
  va_post_processing :: int
  va_profile :: int
  va_pulldown :: int
  va_interlace :: int
  va_tfcntrflag :: int
  va_finterpflag :: int
  va_psf :: int
  va_multires :: int
  va_syncmarker :: int
  va_rangered :: int
  va_max_b_frames :: int
  va_reference_distance_flag :: int
  va_extended_mv_flag :: int
  va_dquant :: int
  va_variable_sized_transform_flag :: int
  va_loopfilter :: int
  va_fast_uvmc_flag :: int
  va_overlap :: int
  va_quantizer :: int
  va_extended_dmv_flag :: int
  va_range_mapping_luma_flag :: int
  va_range_mapping_luma :: int
  va_range_mapping_chroma_flag :: int
  va_range_mapping_chroma :: int
  va_range_reduction_frame :: int

record CUVIDVC1PICPARAMS =
  ForwardRefIdx :: int
  BackwardRefIdx :: int
  FrameWidth :: u32
  FrameHeight :: u32
  progressive_fcm :: int
  postprocflag :: int
  profile :: int
  pulldown :: int
  interlace :: int
  tfcntrflag :: int
  finterpflag :: int
  psf :: int
  multires :: int
  syncmarker :: int
  rangered :: int
  maxbframes :: int
  refdist_flag :: int
  extended_mv :: int
  dquant :: int
  vstransform :: int
  loopfilter :: int
  fastuvmc :: int
  overlap :: int
  quantizer :: int
  extended_dmv :: int
  range_mapy_flag :: int
  range_mapy :: int
  range_mapuv_flag :: int
  range_mapuv :: int
  rangeredfrm :: int

record VC1PicParams = CUVIDPICPARAMS +
  vc1 :: CUVIDVC1PICPARAMS

definition vc1_interlaced :: "VAPictureParameterBufferVC1 \<Rightarrow> bool" where
  "vc1_interlaced buf \<longleftrightarrow> va_frame_coding_mode buf = 2"

definition vc1_field_mode :: "VAPictureParameterBufferVC1 \<Rightarrow> bool" where
  "vc1_field_mode buf \<longleftrightarrow> va_interlace buf \<noteq> 0 \<and> vc1_interlaced buf"

text \<open>\<open>w\<close> and \<open>h\<close> are the size of the context; the sums are computed in 32 bits.\<close>

definition copy_vc1_header :: "u32 \<Rightarrow> u32 \<Rightarrow> VAPictureParameterBufferVC1 \<Rightarrow> VC1PicParams \<Rightarrow> VC1PicParams" where
  "copy_vc1_header w h buf picParams =
     (let t = va_picture_type buf in picParams\<lparr>
        PicWidthInMbs := uint ((w + 15) div 16), FrameHeightInMbs := uint ((h + 15) div 16),
        field_pic_flag := to_int (vc1_field_mode buf),
        bottom_field_flag :=
          to_int (vc1_field_mode buf \<and> va_top_field_first buf XOR to_int (va_is_first_field buf = 0) = 0),
        second_field := to_int (va_is_first_field buf = 0),
        intra_pic_flag := to_int (if vc1_interlaced buf then t = 0 \<or> t = 7 else t = 0 \<or> t = 3),
        ref_pic_flag := to_int (if vc1_interlaced buf then t = 0 \<or> t = 3 else t = 0 \<or> t = 1 \<or> t = 4)\<rparr>)"

definition copy_vc1_fields ::
  "u32 \<Rightarrow> u32 \<Rightarrow> int \<Rightarrow> int \<Rightarrow> VAPictureParameterBufferVC1 \<Rightarrow> CUVIDVC1PICPARAMS \<Rightarrow> CUVIDVC1PICPARAMS" where
  "copy_vc1_fields w h forward backward buf pps = pps\<lparr>
     ForwardRefIdx := forward, BackwardRefIdx := backward, FrameWidth := w, FrameHeight := h,
     progressive_fcm := to_int (va_frame_coding_mode buf = 0), postprocflag := to_int (va_post_processing buf \<noteq> 0),
     profile := va_profile buf, pulldown := va_pulldown buf, interlace := va_interlace buf,
     tfcntrflag := va_tfcntrflag buf, finterpflag := va_finterpflag buf, psf := va_psf buf,
     multires := va_multires buf, syncmarker := va_syncmarker buf, rangered := va_rangered buf,
     maxbframes := va_max_b_frames buf, refdist_flag := va_reference_distance_flag buf,
     extended_mv := va_extended_mv_flag buf, dquant := va_dquant buf,
     vstransform := va_variable_sized_transform_flag buf, loopfilter := va_loopfilter buf,
     fastuvmc := va_fast_uvmc_flag buf, overlap := va_overlap buf, quantizer := va_quantizer buf,
     extended_dmv := va_extended_dmv_flag buf, range_mapy_flag := va_range_mapping_luma_flag buf,
     range_mapy := va_range_mapping_luma buf, range_mapuv_flag := va_range_mapping_chroma_flag buf,
     range_mapuv := va_range_mapping_chroma buf, rangeredfrm := va_range_reduction_frame buf\<rparr>"

definition copyVC1PicParam ::
  "u32 \<Rightarrow> u32 \<Rightarrow> addr \<Rightarrow> VAPictureParameterBufferVC1 \<Rightarrow> ('c, 's, 'z) drv \<Rightarrow> VC1PicParams \<Rightarrow>
   (('c, 's, 'z) drv \<times> VC1PicParams) option" where
  "copyVC1PicParam w h target buf d picParams = do {
     d \<leftarrow> update_target target (\<lambda>s. s\<lparr>progressiveFrame := \<not> vc1_interlaced buf\<rparr>) d;
     forward \<leftarrow> pictureIdxFromSurfaceId d (va_forward_reference_picture buf);
     backward \<leftarrow> pictureIdxFromSurfaceId d (va_backward_reference_picture buf);
     Some (d, (copy_vc1_header w h buf picParams)\<lparr>
       vc1 := copy_vc1_fields w h forward backward buf (vc1 picParams)\<rparr>)
   }"

text \<open>The two fields of a frame have opposite parity: of the first and the second exactly one is the bottom field.\<close>

lemma vc1_field_parity:
  assumes "vc1_field_mode buf" "va_top_field_first buf \<in> {0, 1}"
  shows "bottom_field_flag (copy_vc1_header w h (buf\<lparr>va_is_first_field := 1\<rparr>) pp) =
      to_int (va_top_field_first buf = 0)"
    "bottom_field_flag (copy_vc1_header w h (buf\<lparr>va_is_first_field := 0\<rparr>) pp) =
      to_int (va_top_field_first buf = 1)"
  using assms by (auto simp: copy_vc1_header_def vc1_field_mode_def vc1_interlaced_def Let_def)

lemma copyVC1PicParam_total:
  assumes "typed d" "get_surface d target = Some s"
  shows "copyVC1PicParam w h target buf d pp =
    Some (put_obj target (PSurface (s\<lparr>progressiveFrame := \<not> vc1_interlaced buf\<rparr>)) d,
      (copy_vc1_header w h buf pp)\<lparr>vc1 := copy_vc1_fields w h (ref_index d (va_forward_reference_picture buf))
        (ref_index d (va_backward_reference_picture buf)) buf (vc1 pp)\<rparr>)"
  using update_target_keeps[OF assms, of "\<lambda>s. s\<lparr>progressiveFrame := \<not> vc1_interlaced buf\<rparr>"]
  by (simp add: copyVC1PicParam_def pictureIdx_lookup)

end
