(* ===== verification/Mpeg4.thy ===== *)
theory Mpeg4
  imports RefPics CodecCtx
begin

text \<open>
  The picture parameter and quantiser matrix handlers of the MPEG-4 decoder (\<^verbatim>\<open>src/src/mpeg4.c\<close>:
  \<open>copyMPEG4PicParam\<close>, \<open>copyMPEG4IQMatrix\<close>).  The codec is compiled but not registered.  Its slice
  handlers are in \<open>CodecCtx\<close>.
\<close>

record VAPictureParameterBufferMPEG4 =
  va_forward_reference_picture :: u32
  va_backward_reference_picture :: u32
  va_vop_width :: int
  va_vop_height :: int
  va_top_field_first :: int
  va_resync_marker_disable :: int
  va_quant_type :: int
  va_quarter_sample :: int
  va_short_video_header :: int
  va_vop_coding_type :: int
  va_vop_rounding_type :: int
  va_alternate_vertical_scan_flag :: int
  va_interlaced :: int
  va_vop_fcode_forward :: int
  va_vop_fcode_backward :: int
  va_vop_time_increment_resolution :: int
  va_TRD :: int
  va_TRB :: int
  va_sprite_enable :: int

record CUVIDMPEG4PICPARAMS =
  ForwardRefIdx :: int
  BackwardRefIdx :: int
  vop_time_increment_bitcount :: int
  divx_flags :: int
  vop_coded :: int
  trd :: "int list"
  trb :: "int list"
  gmc_enabled :: int
  video_object_layer_width :: int
  video_object_layer_height :: int
  top_field_first :: int
  resync_marker_disable :: int
  quant_type :: int
  quarter_sample :: int
  short_video_header :: int
  vop_coding_type :: int
  vop_rounding_type :: int
  alternate_vertical_scan_flag :: int
  interlaced :: int
  vop_fcode_forward :: int
  vop_fcode_backward :: int
  QuantMatrixIntra :: "int list"
  QuantMatrixInter :: "int list"

record VAIQMatrixBufferMPEG4 =
  va_intra_quant_mat :: "int list"
  va_non_intra_quant_mat :: "int list"

record MPEG4PicParams = CUVIDPICPARAMS +
  mpeg4 :: CUVIDMPEG4PICPARAMS

text \<open>
  \<^verbatim>\<open>log2l\<close> of an integer, truncated: the position of the highest bit.  It has no value that
  fits an \<^verbatim>\<open>int\<close> for arguments below 1.
\<close>

fun floor_log2 :: "nat \<Rightarrow> nat" where
  "floor_log2 n = (if n \<le> 1 then 0 else floor_log2 (n div 2) + 1)"

declare floor_log2.simps [simp del]

definition time_increment_bits :: "int \<Rightarrow> int option" where
  "time_increment_bits resolution = do {
     guard (1 \<le> resolution - 1);
     let n = int (floor_log2 (nat (resolution - 1))) + 1;
     Some (if n < 1 then 1 else n)
   }"

definition copy_mpeg4_header :: "VAPictureParameterBufferMPEG4 \<Rightarrow> MPEG4PicParams \<Rightarrow> MPEG4PicParams" where
  "copy_mpeg4_header buf picParams =
     (let t = va_vop_coding_type buf in picParams\<lparr>
        PicWidthInMbs := (va_vop_width buf + 15) div 16, FrameHeightInMbs := (va_vop_height buf + 15) div 16,
        field_pic_flag := va_interlaced buf, bottom_field_flag := va_top_field_first buf, second_field := 0,
        intra_pic_flag := to_int (t = 0), ref_pic_flag := to_int (t = 0 \<or> t = 1 \<or> t = 3)\<rparr>)"

definition copy_mpeg4_fields :: "VAPictureParameterBufferMPEG4 \<Rightarrow> CUVIDMPEG4PICPARAMS \<Rightarrow> CUVIDMPEG4PICPARAMS" where
  "copy_mpeg4_fields buf ppc = ppc\<lparr>
     video_object_layer_width := va_vop_width buf, video_object_layer_height := va_vop_height buf,
     top_field_first := va_top_field_first buf, resync_marker_disable := va_resync_marker_disable buf,
     quant_type := va_quant_type buf, quarter_sample := va_quarter_sample buf,
     short_video_header := va_short_video_header buf, vop_coding_type := va_vop_coding_type buf,
     vop_rounding_type := va_vop_rounding_type buf,
     alternate_vertical_scan_flag := va_alternate_vertical_scan_flag buf, interlaced := va_interlaced buf,
     vop_fcode_forward := va_vop_fcode_forward buf, vop_fcode_backward := va_vop_fcode_backward buf,
     divx_flags := 5, vop_coded := 1,
     gmc_enabled := to_int (va_vop_coding_type buf = 3 \<and> va_sprite_enable buf \<noteq> 0)\<rparr>"

definition set_first :: "'a \<Rightarrow> 'a list \<Rightarrow> 'a list option" where
  "set_first x xs = (if xs = [] then None else Some (xs[0 := x]))"

definition copyMPEG4PicParam ::
  "addr \<Rightarrow> VAPictureParameterBufferMPEG4 \<Rightarrow> ('c, 's, 'z) drv \<Rightarrow> MPEG4PicParams \<Rightarrow>
   (('c, 's, 'z) drv \<times> MPEG4PicParams) option" where
  "copyMPEG4PicParam target buf d picParams = do {
     d \<leftarrow> update_target target (\<lambda>s. s\<lparr>progressiveFrame := (va_interlaced buf = 0)\<rparr>) d;
     forward \<leftarrow> pictureIdxFromSurfaceId d (va_forward_reference_picture buf);
     backward \<leftarrow> pictureIdxFromSurfaceId d (va_backward_reference_picture buf);
     bits \<leftarrow> time_increment_bits (va_vop_time_increment_resolution buf);
     let ppc = copy_mpeg4_fields buf (mpeg4 picParams);
     d0 \<leftarrow> set_first (va_TRD buf) (trd ppc);
     b0 \<leftarrow> set_first (va_TRB buf) (trb ppc);
     Some (d, (copy_mpeg4_header buf picParams)\<lparr>mpeg4 := ppc\<lparr>ForwardRefIdx := forward, BackwardRefIdx := backward,
       vop_time_increment_bitcount := bits, trd := d0, trb := b0\<rparr>\<rparr>)
   }"

definition copyMPEG4IQMatrix :: "VAIQMatrixBufferMPEG4 \<Rightarrow> MPEG4PicParams \<Rightarrow> MPEG4PicParams option" where
  "copyMPEG4IQMatrix iq picParams = do {
     qa \<leftarrow> take_c 64 (va_intra_quant_mat iq);
     qe \<leftarrow> take_c 64 (va_non_intra_quant_mat iq);
     Some (picParams\<lparr>mpeg4 := (mpeg4 picParams)\<lparr>QuantMatrixIntra := qa, QuantMatrixInter := qe\<rparr>\<rparr>)
   }"

section \<open>The width of the time increment\<close>

lemma floor_log2_bounds: "0 < n \<Longrightarrow> 2 ^ floor_log2 n \<le> n \<and> n < 2 ^ (floor_log2 n + 1)"
proof (induction n rule: floor_log2.induct)
  case (1 n)
  then show ?case by (cases "n \<le> 1") (auto simp: floor_log2.simps[of n])
qed

text \<open>Every time increment below the resolution fits the announced number of bits, and no fewer bits would do.\<close>

lemma time_increment_bits_fit:
  assumes "2 \<le> r"
  shows "\<exists>n. time_increment_bits r = Some n \<and> 1 \<le> n \<and> r - 1 < 2 ^ nat n \<and> 2 ^ (nat n - 1) \<le> r - 1"
proof -
  define m where "m = nat (r - 1)"
  define n where "n = floor_log2 m"
  have b: "2 ^ n \<le> m" "m < 2 ^ (n + 1)" "r - 1 = int m"
    using floor_log2_bounds[of m] assms by (simp_all add: m_def n_def)
  have "int (2 ^ n) \<le> int m" "int m < int (2 ^ (n + 1))" using b(1,2) by (simp_all only: of_nat_le_iff of_nat_less_iff)
  then show ?thesis using assms b(3)
    by (intro exI[of _ "int n + 1"]) (simp add: time_increment_bits_def m_def [symmetric] n_def [symmetric] nat_add_distrib)
qed

end
