(* ===== verification/Vp8.thy ===== *)
theory Vp8
  imports RefPics CodecCtx
begin

text \<open>
  The VP8 decoder (\<^verbatim>\<open>src/src/vp8.c\<close>): picture parameters, slice parameters, and the slice data
  handler, which puts null bytes in front of the slices until it has seen a first key frame.  Two further
  buffer types are accepted and ignored.  The data of a slice begins \<open>offset\<close> bytes before the position
  the client gave (see \<open>vp8_hack\<close> in \<open>Buffers\<close>), so it is that much longer.
\<close>

section \<open>The parameter structs\<close>

record VAPictureParameterBufferVP8 =
  va_frame_width :: u32
  va_frame_height :: u32
  va_last_ref_frame :: u32
  va_golden_ref_frame :: u32
  va_alt_ref_frame :: u32
  va_key_frame :: int
  va_version :: int
  va_segmentation_enabled :: int
  va_update_segment_feature_data :: int

record VASliceParameterBufferVP8 = slice_param +
  va_macroblock_offset :: u32
  va_partition_size :: "u32 list"

text \<open>The reference indices are bytes: an unknown reference is 255.\<close>

record CUVIDVP8PICPARAMS =
  vp8_width :: u32
  vp8_height :: u32
  first_partition_size :: u32
  LastRefIdx :: u8
  GoldenRefIdx :: u8
  AltRefIdx :: u8
  frame_type :: int
  version :: int
  show_frame :: int
  update_mb_segmentation_data :: int

record VP8PicParams = CUVIDPICPARAMS +
  vp8 :: CUVIDVP8PICPARAMS

section \<open>Parameters\<close>

definition copyVP8PicParam ::
  "VAPictureParameterBufferVP8 \<Rightarrow> ('c, 's, 'z) drv \<Rightarrow> VP8PicParams \<Rightarrow> VP8PicParams option" where
  "copyVP8PicParam buf d picParams = do {
     last \<leftarrow> pictureIdxFromSurfaceId d (va_last_ref_frame buf);
     golden \<leftarrow> pictureIdxFromSurfaceId d (va_golden_ref_frame buf);
     alt \<leftarrow> pictureIdxFromSurfaceId d (va_alt_ref_frame buf);
     Some (picParams\<lparr>
       PicWidthInMbs := uint ((va_frame_width buf + 15) div 16),
       FrameHeightInMbs := uint ((va_frame_height buf + 15) div 16),
       vp8 := (vp8 picParams)\<lparr>vp8_width := va_frame_width buf, vp8_height := va_frame_height buf,
         LastRefIdx := word_of_int last, GoldenRefIdx := word_of_int golden, AltRefIdx := word_of_int alt,
         frame_type := va_key_frame buf, version := va_version buf, show_frame := 1,
         update_mb_segmentation_data :=
           (if va_segmentation_enabled buf \<noteq> 0 then va_update_segment_feature_data buf else 0)\<rparr>\<rparr>)
   }"

text \<open>Only the first slice of the buffer gives the partition size.\<close>

definition copyVP8SliceParam ::
  "('c, VASliceParameterBufferVP8, 'z) CodecState_scheme \<Rightarrow> VASliceParameterBufferVP8 list \<Rightarrow> u32 \<Rightarrow> VP8PicParams \<Rightarrow>
   (('c, VASliceParameterBufferVP8, 'z) CodecState_scheme \<times> VP8PicParams) option" where
  "copyVP8SliceParam ctx ptr n picParams = do {
     buf \<leftarrow> nth_c ptr 0;
     size \<leftarrow> nth_c (va_partition_size buf) 0;
     let picParams = picParams\<lparr>vp8 := (vp8 picParams)\<lparr>
       first_partition_size := size + (va_macroblock_offset buf + 7) div 8\<rparr>\<rparr>;
     Some (copySliceParam ctx ptr n picParams)
   }"

section \<open>Slice data\<close>

text \<open>The look at the three bytes behind the frame tag, with the short cuts of the condition.\<close>

definition vp8_sync :: "u8 list \<Rightarrow> nat \<Rightarrow> bool option" where
  "vp8_sync data off = do {
     a \<leftarrow> nth_c data (off + 3);
     if a = 0x9d then Some True
     else do {
       b \<leftarrow> nth_c data (off + 4);
       if b = 0x01 then Some True
       else do {
         c \<leftarrow> nth_c data (off + 5);
         Some (c = 0x2a)
       }
     }
   }"

definition vp8_padding :: "bool \<Rightarrow> bool \<Rightarrow> u8 list" where
  "vp8_padding valid key = (if valid then [] else replicate (if key then 10 else 3) 0)"

definition copyVP8Slice ::
  "u64 \<Rightarrow> ('c, 's, 'z) CodecState_scheme \<Rightarrow> u8 list \<Rightarrow> 'q slice_param_scheme \<Rightarrow> VP8PicParams \<Rightarrow>
   (('c, 's, 'z) CodecState_scheme \<times> VP8PicParams) option" where
  "copyVP8Slice boff ctx data sp picParams = do {
     offs \<leftarrow> appendBuffer (sliceOffsets ctx) (le32 (ucast (ab_size (bitstreamBuffer ctx))));
     let off = unat (slice_data_offset sp);
     let size = ucast (slice_data_size sp) + boff;
     let key = (frame_type (vp8 picParams) = 0);
     valid \<leftarrow> (if key then do { m \<leftarrow> vp8_sync data off; Some (m \<or> firstKeyframeValid ctx) }
              else Some (firstKeyframeValid ctx));
     let pad = vp8_padding valid key;
     bits \<leftarrow> append_if_any (bitstreamBuffer ctx) pad;
     slice \<leftarrow> read_bytes data off (unat size);
     bits \<leftarrow> appendBuffer bits slice;
     Some (ctx\<lparr>sliceOffsets := offs, bitstreamBuffer := bits, firstKeyframeValid := valid\<rparr>,
           picParams\<lparr>nBitstreamDataLen := nBitstreamDataLen picParams + ucast (of_nat (length pad) + size)\<rparr>)
   }"

fun copyVP8Slices ::
  "u64 \<Rightarrow> nat \<Rightarrow> 'q slice_param_scheme list \<Rightarrow> ('c, 's, 'z) CodecState_scheme \<Rightarrow> u8 list \<Rightarrow> VP8PicParams \<Rightarrow>
   (('c, 's, 'z) CodecState_scheme \<times> VP8PicParams) option" where
  "copyVP8Slices boff 0 sps ctx data picParams = Some (ctx, picParams)"
| "copyVP8Slices boff (Suc n) [] ctx data picParams = None"
| "copyVP8Slices boff (Suc n) (sp # sps) ctx data picParams = do {
     (ctx, picParams) \<leftarrow> copyVP8Slice boff ctx data sp picParams;
     copyVP8Slices boff n sps ctx data picParams
   }"

definition copyVP8SliceData ::
  "u64 \<Rightarrow> ('c, VASliceParameterBufferVP8, 'z) CodecState_scheme \<Rightarrow> u8 list \<Rightarrow> VP8PicParams \<Rightarrow>
   (('c, VASliceParameterBufferVP8, 'z) CodecState_scheme \<times> VP8PicParams) option" where
  "copyVP8SliceData boff ctx data picParams = do {
     tag \<leftarrow> nth_c data 0;
     let picParams = picParams\<lparr>vp8 := (vp8 picParams)\<lparr>show_frame := to_int (tag AND 0x10 \<noteq> 0)\<rparr>\<rparr>;
     copyVP8Slices boff (unat (lastSliceParamsCount ctx))
       (case lastSliceParams ctx of None \<Rightarrow> [] | Some sps \<Rightarrow> sps) ctx data picParams
   }"

section \<open>What the loop collects\<close>

text \<open>A slice of the client, extended by the bytes in front of it.\<close>

definition vp8_slice :: "u64 \<Rightarrow> 'q slice_param_scheme \<Rightarrow> slice_param" where
  "vp8_slice boff sp = \<lparr>slice_data_size = slice_data_size sp + ucast boff, slice_data_offset = slice_data_offset sp\<rparr>"

definition vp8_in_range :: "u64 \<Rightarrow> u8 list \<Rightarrow> 'q slice_param_scheme \<Rightarrow> bool" where
  "vp8_in_range boff data sp \<longleftrightarrow> 0 < slice_data_size sp \<and> unat (slice_data_size sp) + unat boff < 2 ^ 32 \<and>
     unat (slice_data_offset sp) + unat (slice_data_size sp) + unat boff \<le> length data \<and>
     unat (slice_data_offset sp) + 5 < length data"

text \<open>Any one of the three bytes counts as the start code of a key frame.\<close>

definition vp8_sync_at :: "u8 list \<Rightarrow> nat \<Rightarrow> bool" where
  "vp8_sync_at data off \<longleftrightarrow> data ! (off + 3) = 0x9d \<or> data ! (off + 4) = 0x01 \<or> data ! (off + 5) = 0x2a"

definition vp8_valid :: "bool \<Rightarrow> u8 list \<Rightarrow> bool \<Rightarrow> 'q slice_param_scheme \<Rightarrow> bool" where
  "vp8_valid key data valid sp \<longleftrightarrow> valid \<or> key \<and> vp8_sync_at data (unat (slice_data_offset sp))"

fun vp8_chunks :: "bool \<Rightarrow> u64 \<Rightarrow> u8 list \<Rightarrow> bool \<Rightarrow> 'q slice_param_scheme list \<Rightarrow> u8 list list" where
  "vp8_chunks key boff data valid [] = []"
| "vp8_chunks key boff data valid (sp # sps) =
     (let valid = vp8_valid key data valid sp
      in slice_chunk (if valid then [] else replicate (if key then 10 else 3) 0) data (vp8_slice boff sp) #
       vp8_chunks key boff data valid sps)"

lemma vp8_sync_total: "off + 5 < length data \<Longrightarrow> vp8_sync data off = Some (vp8_sync_at data off)"
  by (simp add: vp8_sync_def vp8_sync_at_def)

lemma vp8_slice_range:
  assumes "vp8_in_range boff data sp"
  shows "slice_in_range data (vp8_slice boff sp)"
    "unat (slice_data_size (vp8_slice boff sp)) = unat (slice_data_size sp) + unat boff"
    "unat (ucast (slice_data_size sp) + boff :: u64) = unat (slice_data_size sp) + unat boff"
proof -
  have b: "unat (ucast boff :: u32) = unat boff" using assms by (simp add: vp8_in_range_def take_bit_nat_eq_self unsigned_ucast_eq)
  show s: "unat (slice_data_size (vp8_slice boff sp)) = unat (slice_data_size sp) + unat boff"
    using assms b by (simp add: vp8_slice_def vp8_in_range_def unat_add_bounded)
  then show "slice_in_range data (vp8_slice boff sp)"
    using assms by (auto simp: slice_in_range_def vp8_in_range_def vp8_slice_def word_less_nat_alt)
  show "unat (ucast (slice_data_size sp) + boff :: u64) = unat (slice_data_size sp) + unat boff"
    using assms by (subst unat_add_bounded) (simp_all add: vp8_in_range_def)
qed

lemma copyVP8Slice_eq:
  fixes pp :: VP8PicParams and ctx :: "('c, 's, 'z) CodecState_scheme"
  assumes "vp8_in_range boff data sp"
  defines "key \<equiv> frame_type (vp8 pp) = 0"
  defines "v \<equiv> vp8_valid key data (firstKeyframeValid ctx) sp"
  shows "copyVP8Slice boff ctx data sp pp = do {
      (c, p) \<leftarrow> copySlice (vp8_padding v key) ctx data (vp8_slice boff sp) pp;
      Some (c\<lparr>firstKeyframeValid := v\<rparr>, p)
    }"
proof -
  note r = vp8_slice_range[OF assms(1)]
  have l: "length (vp8_padding v key) \<le> 10" by (simp add: vp8_padding_def)
  have sum: "unat (of_nat (length (vp8_padding v key)) + (ucast (slice_data_size sp) + boff) :: u64) =
      length (vp8_padding v key) + (unat (slice_data_size sp) + unat boff)"
    using r(3) assms(1) l by (subst unat_add_bounded) (simp_all add: vp8_in_range_def unat_of_nat take_bit_nat_eq_self)
  have "(ucast (of_nat (length (vp8_padding v key)) + (ucast (slice_data_size sp) + boff) :: u64) :: u32) =
      of_nat (length (vp8_padding v key)) + of_nat (unat (slice_data_size (vp8_slice boff sp)))"
    by (rule trans[OF ucast_of_unat]) (simp only: sum r(2) of_nat_add)
  then have len: "nBitstreamDataLen pp + ucast (of_nat (length (vp8_padding v key)) + (ucast (slice_data_size sp) + boff) :: u64) =
      nBitstreamDataLen pp + slice_data_size (vp8_slice boff sp) + of_nat (length (vp8_padding v key))"
    by (simp add: add.commute add.left_commute)
  have val: "(if key then do { m \<leftarrow> vp8_sync data (unat (slice_data_offset sp)); Some (m \<or> firstKeyframeValid ctx) }
      else Some (firstKeyframeValid ctx)) = Some v"
    using assms(1) by (auto simp: v_def vp8_valid_def vp8_sync_total vp8_in_range_def)
  have off: "slice_data_offset (vp8_slice boff sp) = slice_data_offset sp" by (simp add: vp8_slice_def)
  show ?thesis
    unfolding copyVP8Slice_def copySlice_def Let_def key_def[symmetric] val len r(2,3) off bind.bind_lunit
    by (cases "appendBuffer (sliceOffsets ctx) (le32 (ucast (ab_size (bitstreamBuffer ctx))))";
        cases "append_if_any (bitstreamBuffer ctx) (vp8_padding v key)";
        cases "read_bytes data (unat (slice_data_offset sp)) (unat (slice_data_size sp) + unat boff)") (auto simp: Option.bind_assoc)
qed

lemma copySlice_keeps:
  "copySlice header ctx data sp pp = Some (ctx', pp') \<Longrightarrow>
    pp' = pp\<lparr>nBitstreamDataLen := nBitstreamDataLen pp'\<rparr> \<and> firstKeyframeValid ctx' = firstKeyframeValid ctx"
  by (auto simp: copySlice_def bind_Some_iff)

lemma copyVP8Slices_spec:
  assumes "collector_wf ctx" "list_all (vp8_in_range boff data) sps" "n = length sps"
    and "length (ab_bytes (bitstreamBuffer ctx)) +
      length (concat (vp8_chunks (frame_type (vp8 pp) = 0) boff data (firstKeyframeValid ctx) sps)) < 2 ^ 62"
    and "length (ab_bytes (sliceOffsets ctx)) + 4 * length sps < 2 ^ 62"
  shows "\<exists>ctx' pp'. copyVP8Slices boff n sps ctx data pp = Some (ctx', pp') \<and> collector_wf ctx' \<and> vp8 pp' = vp8 pp \<and>
     (let chunks = vp8_chunks (frame_type (vp8 pp) = 0) boff data (firstKeyframeValid ctx) sps in
      ab_bytes (bitstreamBuffer ctx') = ab_bytes (bitstreamBuffer ctx) @ concat chunks \<and>
      ab_bytes (sliceOffsets ctx') = ab_bytes (sliceOffsets ctx) @
        encoded_offsets (starts (length (ab_bytes (bitstreamBuffer ctx))) chunks) \<and>
      nBitstreamDataLen pp' = nBitstreamDataLen pp + of_nat (length (concat chunks))) \<and>
     firstKeyframeValid ctx' = (firstKeyframeValid ctx \<or>
       frame_type (vp8 pp) = 0 \<and> (\<exists>sp \<in> set sps. vp8_sync_at data (unat (slice_data_offset sp))))"
  using assms
proof (induction sps arbitrary: ctx pp n)
  case (Cons sp sps)
  let ?key = "frame_type (vp8 pp) = 0"
  define v where "v = vp8_valid ?key data (firstKeyframeValid ctx) sp"
  define c where "c = slice_chunk (vp8_padding v ?key) data (vp8_slice boff sp)"
  have ch: "vp8_chunks ?key boff data (firstKeyframeValid ctx) (sp # sps) = c # vp8_chunks ?key boff data v sps"
    by (simp add: c_def v_def Let_def vp8_padding_def)
  have r: "vp8_in_range boff data sp" "slice_in_range data (vp8_slice boff sp)"
    using Cons.prems(2) vp8_slice_range(1) by auto
  obtain c1 pp1 where s: "copySlice (vp8_padding v ?key) ctx data (vp8_slice boff sp) pp = Some (c1, pp1)" "collector_wf c1"
     "ab_bytes (bitstreamBuffer c1) = ab_bytes (bitstreamBuffer ctx) @ c"
     "ab_bytes (sliceOffsets c1) = ab_bytes (sliceOffsets ctx) @ le32 (of_nat (length (ab_bytes (bitstreamBuffer ctx))))"
     "nBitstreamDataLen pp1 = nBitstreamDataLen pp + of_nat (length c)"
    using copySlice_spec[OF Cons.prems(1) r(2), of "vp8_padding v ?key" pp] Cons.prems(4,5) unfolding ch c_def by auto
  have k: "vp8 pp1 = vp8 pp" using copySlice_keeps[OF s(1)] by (metis VP8PicParams.select_convs(1) CUVIDPICPARAMS.update_convs(7) CUVIDPICPARAMS.surjective VP8PicParams.surjective)
  let ?c1 = "c1\<lparr>firstKeyframeValid := v\<rparr>"
  have st: "copyVP8Slice boff ctx data sp pp = Some (?c1, pp1)"
    unfolding copyVP8Slice_eq[OF r(1)] v_def[symmetric] s(1) by simp
  have ih: "collector_wf ?c1" using s(2) by (simp add: collector_wf_def)
  obtain ctx' pp' where i: "copyVP8Slices boff (length sps) sps ?c1 data pp1 = Some (ctx', pp')" "collector_wf ctx'" "vp8 pp' = vp8 pp"
     "ab_bytes (bitstreamBuffer ctx') = ab_bytes (bitstreamBuffer c1) @ concat (vp8_chunks ?key boff data v sps)"
     "ab_bytes (sliceOffsets ctx') = ab_bytes (sliceOffsets c1) @
        encoded_offsets (starts (length (ab_bytes (bitstreamBuffer c1))) (vp8_chunks ?key boff data v sps))"
     "nBitstreamDataLen pp' = nBitstreamDataLen pp1 + of_nat (length (concat (vp8_chunks ?key boff data v sps)))"
     "firstKeyframeValid ctx' = (v \<or> ?key \<and> (\<exists>sp \<in> set sps. vp8_sync_at data (unat (slice_data_offset sp))))"
    using Cons.IH[OF ih _ refl, of pp1] Cons.prems(2,4,5) s(3,4) unfolding ch by (auto simp: k Let_def)
  show ?case
    using Cons.prems(3) i st s(3-5) unfolding ch by (auto simp: Let_def v_def vp8_valid_def)
qed simp

lemma vp8_chunks_valid: "vp8_chunks key boff data True sps = map (slice_chunk [] data \<circ> vp8_slice boff) sps"
  by (induction sps) (simp_all add: vp8_valid_def vp8_padding_def)


definition example_vp8_slice :: VASliceParameterBufferVP8 where
  "example_vp8_slice = \<lparr>slice_data_size = 7, slice_data_offset = 0, va_macroblock_offset = 0, va_partition_size = [0]\<rparr>"

definition example_vp8 :: "(unit, VASliceParameterBufferVP8) CodecState" where
  "example_vp8 = \<lparr>codecData = None, lastSliceParams = Some [example_vp8_slice],
     lastSliceParamsCount = 1, bitstreamBuffer = empty_AppendableBuffer, sliceOffsets = empty_AppendableBuffer,
     firstKeyframeValid = False\<rparr>"

definition zero_vp8 :: CUVIDVP8PICPARAMS where
  "zero_vp8 = \<lparr>vp8_width = 0, vp8_height = 0, first_partition_size = 0, LastRefIdx = 0, GoldenRefIdx = 0, AltRefIdx = 0,
     frame_type = 0, version = 0, show_frame = 1, update_mb_segmentation_data = 0\<rparr>"


end
