(* ===== verification/Vp9.thy ===== *)
theory Vp9
  imports RefPics CodecCtx
begin

text \<open>
  The VP9 decoder (\<^verbatim>\<open>src/src/vp9.c\<close>): picture parameters, and the slice data handler, which parses the frame
  header of every slice again for the values that VA-API does not pass.  The header parser is the
  GStreamer library's: a parameter, whose answer is the header (or none) and whose state is handed on.
\<close>

section \<open>The parameter structs\<close>

record VADecPictureParameterBufferVP9 =
  va_frame_width :: u32
  va_frame_height :: u32
  va_bit_depth :: u8
  va_reference_frames :: "u32 list"
  va_last_ref_frame :: nat
  va_golden_ref_frame :: nat
  va_alt_ref_frame :: nat
  va_last_ref_frame_sign_bias :: int
  va_golden_ref_frame_sign_bias :: int
  va_alt_ref_frame_sign_bias :: int
  va_mb_segment_tree_probs :: "int list"
  va_segment_pred_probs :: "int list"
  va_profile :: int
  va_frame_context_idx :: int
  va_frame_type :: int
  va_show_frame :: int
  va_error_resilient_mode :: int
  va_frame_parallel_decoding_mode :: int
  va_subsampling_x :: int
  va_subsampling_y :: int
  va_intra_only :: int
  va_allow_high_precision_mv :: int
  va_refresh_frame_context :: int
  va_filter_level :: int
  va_sharpness_level :: int
  va_log2_tile_columns :: int
  va_log2_tile_rows :: int
  va_segmentation_enabled :: int
  va_segmentation_update_map :: int
  va_segmentation_temporal_update :: int
  va_reset_frame_context :: int
  va_mcomp_filter_type :: int
  va_frame_header_length_in_bytes :: int
  va_first_partition_size :: int

text \<open>The reference indices are bytes: an unknown reference is 255.\<close>

record CUVIDVP9PICPARAMS =
  vp9_width :: u32
  vp9_height :: u32
  LastRefIdx :: u8
  GoldenRefIdx :: u8
  AltRefIdx :: u8
  bitDepthMinus8Luma :: u8
  bitDepthMinus8Chroma :: u8
  profile :: int
  frameContextIdx :: int
  frameType :: int
  showFrame :: int
  errorResilient :: int
  frameParallelDecoding :: int
  subSamplingX :: int
  subSamplingY :: int
  intraOnly :: int
  allow_high_precision_mv :: int
  refreshEntropyProbs :: int
  loopFilterLevel :: int
  loopFilterSharpness :: int
  log2_tile_columns :: int
  log2_tile_rows :: int
  segmentEnabled :: int
  segmentMapUpdate :: int
  segmentMapTemporalUpdate :: int
  resetFrameContext :: int
  mcomp_filter_type :: int
  frameTagSize :: int
  offsetToDctParts :: int
  mb_segment_tree_probs :: "int list"
  segment_pred_probs :: "int list"
  activeRefIdx :: "nat list"
  refFrameSignBias :: "int list"
  segmentFeatureEnable :: "int list list"
  segmentFeatureData :: "int list list"
  segmentFeatureMode :: int
  modeRefLfEnabled :: int
  mbModeLfDelta :: "int list"
  mbRefLfDelta :: "int list"
  qpYAc :: int
  qpYDc :: int
  qpChDc :: int
  qpChAc :: int
  colorSpace :: int

record VP9PicParams = CUVIDPICPARAMS +
  vp9 :: CUVIDVP9PICPARAMS

text \<open>The parts of the parsed header that are used; the colour space is read off the parser.\<close>

record segment_data =
  alternate_quantizer_enabled :: int
  alternate_loop_filter_enabled :: int
  reference_frame_enabled :: int
  reference_skip :: int
  alternate_quantizer :: int
  alternate_loop_filter :: int
  seg_reference_frame :: int

record GstVp9FrameHdr =
  segmentation_data :: "segment_data list"
  abs_delta :: int
  mode_ref_delta_enabled :: int
  mode_deltas :: "int list"
  ref_deltas :: "int list"
  y_ac_qi :: int
  y_dc_delta :: int
  uv_dc_delta :: int
  uv_ac_delta :: int
  parser_color_space :: int

section \<open>Picture parameters\<close>

definition ref_frame_index :: "('c, 's, 'z) drv \<Rightarrow> VADecPictureParameterBufferVP9 \<Rightarrow> nat \<Rightarrow> u8 option" where
  "ref_frame_index d buf k = do {
     i \<leftarrow> nth_c (va_reference_frames buf) k;
     idx \<leftarrow> pictureIdxFromSurfaceId d i;
     Some (word_of_int idx)
   }"

text \<open>The sign biases start at index 1; entry 0 stays.\<close>

definition copy_vp9_fields :: "VADecPictureParameterBufferVP9 \<Rightarrow> CUVIDVP9PICPARAMS \<Rightarrow> CUVIDVP9PICPARAMS" where
  "copy_vp9_fields buf pps = pps\<lparr>
     vp9_width := va_frame_width buf, vp9_height := va_frame_height buf, profile := va_profile buf,
     frameContextIdx := va_frame_context_idx buf, frameType := va_frame_type buf,
     showFrame := va_show_frame buf, errorResilient := va_error_resilient_mode buf,
     frameParallelDecoding := va_frame_parallel_decoding_mode buf, subSamplingX := va_subsampling_x buf,
     subSamplingY := va_subsampling_y buf, intraOnly := va_intra_only buf,
     allow_high_precision_mv := va_allow_high_precision_mv buf,
     refreshEntropyProbs := va_refresh_frame_context buf, loopFilterLevel := va_filter_level buf,
     loopFilterSharpness := va_sharpness_level buf, log2_tile_columns := va_log2_tile_columns buf,
     log2_tile_rows := va_log2_tile_rows buf, segmentEnabled := va_segmentation_enabled buf,
     segmentMapUpdate := va_segmentation_update_map buf,
     segmentMapTemporalUpdate := va_segmentation_temporal_update buf,
     resetFrameContext := va_reset_frame_context buf, mcomp_filter_type := va_mcomp_filter_type buf,
     frameTagSize := va_frame_header_length_in_bytes buf, offsetToDctParts := va_first_partition_size buf,
     bitDepthMinus8Luma := va_bit_depth buf - 8, bitDepthMinus8Chroma := va_bit_depth buf - 8,
     activeRefIdx := [va_last_ref_frame buf, va_golden_ref_frame buf, va_alt_ref_frame buf],
     refFrameSignBias := (refFrameSignBias pps)[1 := va_last_ref_frame_sign_bias buf, 2 := va_golden_ref_frame_sign_bias buf, 3 := va_alt_ref_frame_sign_bias buf]\<rparr>"

definition copyVP9PicParam ::
  "VADecPictureParameterBufferVP9 \<Rightarrow> ('c, 's, 'z) drv \<Rightarrow> VP9PicParams \<Rightarrow> VP9PicParams option" where
  "copyVP9PicParam buf d picParams = do {
     last \<leftarrow> ref_frame_index d buf (va_last_ref_frame buf);
     golden \<leftarrow> ref_frame_index d buf (va_golden_ref_frame buf);
     alt \<leftarrow> ref_frame_index d buf (va_alt_ref_frame buf);
     tree \<leftarrow> take_c 7 (va_mb_segment_tree_probs buf);
     pred \<leftarrow> take_c 3 (va_segment_pred_probs buf);
     Some (picParams\<lparr>
       PicWidthInMbs := uint ((va_frame_width buf + 15) div 16),
       FrameHeightInMbs := uint ((va_frame_height buf + 15) div 16),
       vp9 := (copy_vp9_fields buf (vp9 picParams))\<lparr>LastRefIdx := last, GoldenRefIdx := golden, AltRefIdx := alt,
         mb_segment_tree_probs := tree, segment_pred_probs := pred\<rparr>\<rparr>)
   }"

section \<open>Slice data\<close>

definition copy_vp9_header :: "GstVp9FrameHdr \<Rightarrow> CUVIDVP9PICPARAMS \<Rightarrow> CUVIDVP9PICPARAMS option" where
  "copy_vp9_header hdr pps = do {
     segs \<leftarrow> take_c 8 (segmentation_data hdr);
     modes \<leftarrow> take_c 2 (mode_deltas hdr);
     refs \<leftarrow> take_c 4 (ref_deltas hdr);
     Some (pps\<lparr>
       segmentFeatureEnable := map (\<lambda>s. [alternate_quantizer_enabled s, alternate_loop_filter_enabled s,
                                        reference_frame_enabled s, reference_skip s]) segs,
       segmentFeatureData := map (\<lambda>s. [alternate_quantizer s, alternate_loop_filter s, seg_reference_frame s, 0]) segs,
       segmentFeatureMode := abs_delta hdr, modeRefLfEnabled := mode_ref_delta_enabled hdr,
       mbModeLfDelta := modes, mbRefLfDelta := refs,
       qpYAc := y_ac_qi hdr, qpYDc := y_dc_delta hdr, qpChDc := uv_dc_delta hdr, qpChAc := uv_ac_delta hdr,
       colorSpace := parser_color_space hdr\<rparr>)
   }"

definition parseExtraInfo ::
  "('g \<Rightarrow> u8 list \<Rightarrow> GstVp9FrameHdr option \<times> 'g) \<Rightarrow> u8 list \<Rightarrow> 'g \<times> VP9PicParams \<Rightarrow> ('g \<times> VP9PicParams) option" where
  "parseExtraInfo parse buf = (\<lambda>(g, picParams).
     case parse g buf of
       (None, g) \<Rightarrow> Some (g, picParams)
     | (Some hdr, g) \<Rightarrow> do {
         pps \<leftarrow> copy_vp9_header hdr (vp9 picParams);
         Some (g, picParams\<lparr>vp9 := pps\<rparr>)
       })"

definition copyVP9Slice ::
  "('g \<Rightarrow> u8 list \<Rightarrow> GstVp9FrameHdr option \<times> 'g) \<Rightarrow> ('c, 's, 'z) CodecState_scheme \<Rightarrow> u8 list \<Rightarrow> slice_param \<Rightarrow>
   'g \<times> VP9PicParams \<Rightarrow> (('c, 's, 'z) CodecState_scheme \<times> 'g \<times> VP9PicParams) option" where
  "copyVP9Slice parse ctx data sp = (\<lambda>(g, picParams). do {
     (ctx, picParams') \<leftarrow> copySlice [] ctx data sp picParams;
     slice \<leftarrow> read_bytes data (unat (slice_data_offset sp)) (unat (slice_data_size sp));
     (g, picParams) \<leftarrow> parseExtraInfo parse slice (g, picParams);
     Some (ctx, g, picParams\<lparr>nBitstreamDataLen := nBitstreamDataLen picParams + slice_data_size sp\<rparr>)
   })"

fun copyVP9Slices ::
  "('g \<Rightarrow> u8 list \<Rightarrow> GstVp9FrameHdr option \<times> 'g) \<Rightarrow> nat \<Rightarrow> slice_param list \<Rightarrow> ('c, 's, 'z) CodecState_scheme \<Rightarrow> u8 list \<Rightarrow>
   'g \<times> VP9PicParams \<Rightarrow> (('c, 's, 'z) CodecState_scheme \<times> 'g \<times> VP9PicParams) option" where
  "copyVP9Slices parse 0 sps ctx data gp = Some (ctx, gp)"
| "copyVP9Slices parse (Suc n) [] ctx data gp = None"
| "copyVP9Slices parse (Suc n) (sp # sps) ctx data gp = do {
     (ctx, gp) \<leftarrow> copyVP9Slice parse ctx data sp gp;
     copyVP9Slices parse n sps ctx data gp
   }"

definition copyVP9SliceData ::
  "('g \<Rightarrow> u8 list \<Rightarrow> GstVp9FrameHdr option \<times> 'g) \<Rightarrow> ('c, slice_param, 'z) CodecState_scheme \<Rightarrow> u8 list \<Rightarrow>
   'g \<times> VP9PicParams \<Rightarrow> (('c, slice_param, 'z) CodecState_scheme \<times> 'g \<times> VP9PicParams) option" where
  "copyVP9SliceData parse ctx data gp =
     copyVP9Slices parse (unat (lastSliceParamsCount ctx))
       (case lastSliceParams ctx of None \<Rightarrow> [] | Some sps \<Rightarrow> sps) ctx data gp"

section \<open>The parser does not disturb the collection\<close>

text \<open>What the header library promises: a header has all its arrays.\<close>

definition parser_ok :: "('g \<Rightarrow> u8 list \<Rightarrow> GstVp9FrameHdr option \<times> 'g) \<Rightarrow> bool" where
  "parser_ok parse \<longleftrightarrow> (\<forall>g buf hdr. fst (parse g buf) = Some hdr \<longrightarrow>
     length (segmentation_data hdr) = 8 \<and> length (mode_deltas hdr) = 2 \<and> length (ref_deltas hdr) = 4)"

lemma parseExtraInfo_total:
  assumes "parser_ok parse"
  shows "\<exists>g' pp'. parseExtraInfo parse buf (g, pp) = Some (g', pp') \<and> nBitstreamDataLen pp' = nBitstreamDataLen pp"
proof (cases "parse g buf")
  case (Pair r g')
  show ?thesis
  proof (cases r)
    case None
    then show ?thesis using Pair by (simp add: parseExtraInfo_def)
  next
    case (Some hdr)
    then have "length (segmentation_data hdr) = 8 \<and> length (mode_deltas hdr) = 2 \<and> length (ref_deltas hdr) = 4"
      using assms Pair unfolding parser_ok_def by (metis fst_conv)
    then show ?thesis using Pair Some by (simp add: parseExtraInfo_def copy_vp9_header_def take_c_def)
  qed
qed

text \<open>
  The slices are collected exactly as by the handlers without a parser, whatever it finds: same context, same
  length for the decoder.
\<close>

lemma copyVP9Slice_collects:
  assumes "parser_ok parse" "copySlice [] ctx data sp qq = Some (ctx', qq')" "nBitstreamDataLen pp = nBitstreamDataLen qq"
  shows "\<exists>g' pp'. copyVP9Slice parse ctx data sp (g, pp) = Some (ctx', g', pp') \<and> nBitstreamDataLen pp' = nBitstreamDataLen qq'"
proof -
  obtain slice where r: "read_bytes data (unat (slice_data_offset sp)) (unat (slice_data_size sp)) = Some slice"
      "nBitstreamDataLen qq' = nBitstreamDataLen qq + slice_data_size sp"
    using assms(2) by (auto simp: copySlice_def bind_Some_iff)
  obtain pp1 where c: "copySlice [] ctx data sp pp = Some (ctx', pp1)"
    using assms(2) by (auto simp: copySlice_def bind_Some_iff)
  obtain g' pp' where "parseExtraInfo parse slice (g, pp) = Some (g', pp')" "nBitstreamDataLen pp' = nBitstreamDataLen pp"
    using parseExtraInfo_total[OF assms(1)] by blast
  then show ?thesis using r c assms(3) by (simp add: copyVP9Slice_def)
qed

lemma copyVP9Slices_collects:
  assumes "parser_ok parse" "copySlices [] n sps ctx data qq = Some (ctx', qq')" "nBitstreamDataLen pp = nBitstreamDataLen qq"
  shows "\<exists>g' pp'. copyVP9Slices parse n sps ctx data (g, pp) = Some (ctx', g', pp') \<and> nBitstreamDataLen pp' = nBitstreamDataLen qq'"
  using assms(2,3)
proof (induction n arbitrary: sps ctx pp qq g)
  case (Suc n)
  obtain sp sps' where sps: "sps = sp # sps'" using Suc.prems(1) by (cases sps) auto
  obtain ctx1 qq1 where s: "copySlice [] ctx data sp qq = Some (ctx1, qq1)" "copySlices [] n sps' ctx1 data qq1 = Some (ctx', qq')"
    using Suc.prems(1) by (auto simp: sps bind_Some_iff)
  obtain g1 pp1 where "copyVP9Slice parse ctx data sp (g, pp) = Some (ctx1, g1, pp1)" "nBitstreamDataLen pp1 = nBitstreamDataLen qq1"
    using copyVP9Slice_collects[OF assms(1) s(1) Suc.prems(2)] by blast
  then show ?case using Suc.IH[OF s(2), of pp1 g1] by (auto simp: sps)
qed simp

end
