(* ===== verification/Av1.thy ===== *)
theory Av1
  imports RefPics CodecCtx
begin

text \<open>
  The picture parameter handler of the AV1 decoder (\<^verbatim>\<open>src/src/av1.c\<close>: \<open>copyAV1PicParam\<close>), with
  the search for the two frames of the skip mode; its slice handlers are in \<open>CodecCtx\<close>.
\<close>

section \<open>The parameter structs\<close>

record VADecPictureParameterBufferAV1 =
  va_order_hint :: int
  va_profile :: int
  va_use_128x128_superblock :: int
  va_subsampling_x :: int
  va_subsampling_y :: int
  va_mono_chrome :: int
  va_enable_filter_intra :: int
  va_enable_intra_edge_filter :: int
  va_enable_interintra_compound :: int
  va_enable_masked_compound :: int
  va_enable_dual_filter :: int
  va_enable_order_hint :: int
  va_order_hint_bits_minus_1 :: int
  va_enable_jnt_comp :: int
  va_use_superres :: int
  va_enable_cdef :: int
  va_film_grain_params_present :: int
  va_frame_type :: int
  va_show_frame :: int
  va_disable_cdf_update :: int
  va_allow_screen_content_tools :: int
  va_superres_scale_denominator :: int
  va_allow_intrabc :: int
  va_allow_high_precision_mv :: int
  va_interp_filter :: int
  va_is_motion_mode_switchable :: int
  va_use_ref_frame_mvs :: int
  va_disable_frame_end_update_cdf :: int
  va_delta_q_present_flag :: int
  va_log2_delta_q_res :: int
  va_using_qmatrix :: int
  va_tx_mode :: int
  va_reference_select :: int
  va_allow_warped_motion :: int
  va_reduced_tx_set_used :: int
  va_skip_mode_present :: int
  va_tile_cols :: int
  va_tile_rows :: int
  va_context_update_tile_id :: int
  va_cdef_damping_minus_3 :: int
  va_cdef_bits :: int
  va_base_qindex :: int
  va_y_dc_delta_q :: int
  va_u_dc_delta_q :: int
  va_v_dc_delta_q :: int
  va_u_ac_delta_q :: int
  va_v_ac_delta_q :: int
  va_qm_y :: int
  va_qm_u :: int
  va_qm_v :: int
  va_seg_enabled :: int
  va_seg_update_map :: int
  va_seg_update_data :: int
  va_seg_temporal_update :: int
  va_filter_level_u :: int
  va_filter_level_v :: int
  va_sharpness_level :: int
  va_mode_ref_delta_enabled :: int
  va_mode_ref_delta_update :: int
  va_delta_lf_present_flag :: int
  va_log2_delta_lf_res :: int
  va_delta_lf_multi :: int
  va_apply_grain :: int
  va_overlap_flag :: int
  va_grain_scaling_minus_8 :: int
  va_chroma_scaling_from_luma :: int
  va_ar_coeff_lag :: int
  va_ar_coeff_shift_minus_6 :: int
  va_grain_scale_shift :: int
  va_clip_to_restricted_range :: int
  va_num_y_points :: int
  va_num_cb_points :: int
  va_num_cr_points :: int
  va_grain_seed :: int
  va_cb_mult :: int
  va_cb_luma_mult :: int
  va_cb_offset :: int
  va_cr_mult :: int
  va_cr_luma_mult :: int
  va_cr_offset :: int
  va_force_integer_mv :: int
  va_yframe_restoration_type :: int
  va_cbframe_restoration_type :: int
  va_crframe_restoration_type :: int
  va_lr_unit_shift :: int
  va_lr_uv_shift :: int
  va_primary_ref_frame :: int
  va_bit_depth_idx :: nat
  va_ref_frame_map :: "u32 list"
  va_ref_frame_idx :: "nat list"
  va_cdef_y_strengths :: "u8 list"
  va_cdef_uv_strengths :: "u8 list"
  va_feature_data :: "int list list"
  va_wmtype :: "int list"
  va_wmmat :: "int list list"
  va_filter_level :: "int list"
  va_mode_deltas :: "int list"
  va_ref_deltas :: "int list"
  va_width_in_sbs_minus_1 :: "int list"
  va_height_in_sbs_minus_1 :: "int list"
  va_feature_mask :: "int list"
  va_point_y_value :: "int list"
  va_point_y_scaling :: "int list"
  va_point_cb_value :: "int list"
  va_point_cb_scaling :: "int list"
  va_point_cr_value :: "int list"
  va_point_cr_scaling :: "int list"
  va_ar_coeffs_y :: "int list"
  va_ar_coeffs_cb :: "int list"
  va_ar_coeffs_cr :: "int list"

record CUVIDAV1PICPARAMS =
  frame_offset :: int
  profile :: int
  use_128x128_superblock :: int
  subsampling_x :: int
  subsampling_y :: int
  mono_chrome :: int
  enable_filter_intra :: int
  enable_intra_edge_filter :: int
  enable_interintra_compound :: int
  enable_masked_compound :: int
  enable_dual_filter :: int
  enable_order_hint :: int
  order_hint_bits_minus1 :: int
  enable_jnt_comp :: int
  enable_superres :: int
  enable_cdef :: int
  enable_fgs :: int
  frame_type :: int
  show_frame :: int
  disable_cdf_update :: int
  allow_screen_content_tools :: int
  coded_denom :: int
  allow_intrabc :: int
  allow_high_precision_mv :: int
  interp_filter :: int
  switchable_motion_mode :: int
  use_ref_frame_mvs :: int
  disable_frame_end_update_cdf :: int
  delta_q_present :: int
  delta_q_res :: int
  using_qmatrix :: int
  use_superres :: int
  tx_mode :: int
  reference_mode :: int
  allow_warped_motion :: int
  reduced_tx_set :: int
  skip_mode :: int
  num_tile_cols :: int
  num_tile_rows :: int
  context_update_tile_id :: int
  cdef_damping_minus_3 :: int
  cdef_bits :: int
  base_qindex :: int
  qp_y_dc_delta_q :: int
  qp_u_dc_delta_q :: int
  qp_v_dc_delta_q :: int
  qp_u_ac_delta_q :: int
  qp_v_ac_delta_q :: int
  qm_y :: int
  qm_u :: int
  qm_v :: int
  segmentation_enabled :: int
  segmentation_update_map :: int
  segmentation_update_data :: int
  segmentation_temporal_update :: int
  loop_filter_level_u :: int
  loop_filter_level_v :: int
  loop_filter_sharpness :: int
  loop_filter_delta_enabled :: int
  loop_filter_delta_update :: int
  delta_lf_present :: int
  delta_lf_res :: int
  delta_lf_multi :: int
  apply_grain :: int
  overlap_flag :: int
  scaling_shift_minus8 :: int
  chroma_scaling_from_luma :: int
  ar_coeff_lag :: int
  ar_coeff_shift_minus6 :: int
  grain_scale_shift :: int
  clip_to_restricted_range :: int
  num_y_points :: int
  num_cb_points :: int
  num_cr_points :: int
  random_seed :: int
  cb_mult :: int
  cb_luma_mult :: int
  cb_offset :: int
  cr_mult :: int
  cr_luma_mult :: int
  cr_offset :: int
  av1_width :: u32
  av1_height :: u32
  decodePicIdx :: int
  bit_depth_minus8 :: int
  enable_restoration :: int
  force_integer_mv :: int
  SkipModeFrame0 :: int
  SkipModeFrame1 :: int
  loop_filter_ref_deltas :: "int list"
  ref_frame_map :: "u8 list"
  loop_filter_level :: "int list"
  loop_filter_mode_deltas :: "int list"
  lr_type :: "int list"
  lr_unit_size :: "int list"
  tile_widths :: "int list"
  tile_heights :: "int list"
  cdef_y_strength :: "u8 list"
  cdef_uv_strength :: "u8 list"
  segmentation_feature_mask :: "int list"
  segmentation_feature_data :: "int list list"
  coded_lossless :: int
  primary_ref_frame :: u8
  ref_frame :: "(u8 \<times> u32 \<times> u32) list"
  gm_invalid :: "bool list"
  gm_wmtype :: "int list"
  gm_wmmat :: "int list list"
  scaling_points_y :: "(int \<times> int) list"
  scaling_points_cb :: "(int \<times> int) list"
  scaling_points_cr :: "(int \<times> int) list"
  ar_coeffs_y :: "int list"
  ar_coeffs_cb :: "int list"
  ar_coeffs_cr :: "int list"

record AV1PicParams = CUVIDPICPARAMS +
  av1 :: CUVIDAV1PICPARAMS

section \<open>Scalars\<close>

text \<open>\<open>picParams\<close> is the struct around the member; \<open>w\<close> and \<open>h\<close> are the size of the context.\<close>

definition copy_av1_header :: "u32 \<Rightarrow> u32 \<Rightarrow> VADecPictureParameterBufferAV1 \<Rightarrow> AV1PicParams \<Rightarrow> AV1PicParams" where
  "copy_av1_header w h buf picParams =
     (let t = va_frame_type buf in picParams\<lparr>
        PicWidthInMbs := uint ((w + 15) div 16), FrameHeightInMbs := uint ((h + 15) div 16),
        intra_pic_flag := to_int (t = 0 \<or> t = 2),
        ref_pic_flag := to_int (t = 0 \<or> t = 3 \<and> va_show_frame buf \<noteq> 0),
        nNumSlices := word_of_int (va_tile_cols buf * va_tile_rows buf)\<rparr>)"

definition copy_av1_fields ::
  "u32 \<Rightarrow> u32 \<Rightarrow> int \<Rightarrow> int \<Rightarrow> VADecPictureParameterBufferAV1 \<Rightarrow> CUVIDAV1PICPARAMS \<Rightarrow> CUVIDAV1PICPARAMS option" where
  "copy_av1_fields w h currPicIdx intra buf pps = do {
     depth \<leftarrow> nth_c [0, 2, 4] (va_bit_depth_idx buf);
     Some (pps\<lparr>
     av1_width := w, av1_height := h, decodePicIdx := currPicIdx, bit_depth_minus8 := depth,
     frame_offset := va_order_hint buf, profile := va_profile buf,
     use_128x128_superblock := va_use_128x128_superblock buf, subsampling_x := va_subsampling_x buf,
     subsampling_y := va_subsampling_y buf, mono_chrome := va_mono_chrome buf,
     enable_filter_intra := va_enable_filter_intra buf,
     enable_intra_edge_filter := va_enable_intra_edge_filter buf,
     enable_interintra_compound := va_enable_interintra_compound buf,
     enable_masked_compound := va_enable_masked_compound buf, enable_dual_filter := va_enable_dual_filter buf,
     enable_order_hint := va_enable_order_hint buf, order_hint_bits_minus1 := va_order_hint_bits_minus_1 buf,
     enable_jnt_comp := va_enable_jnt_comp buf, enable_superres := va_use_superres buf,
     enable_cdef := va_enable_cdef buf, enable_fgs := va_film_grain_params_present buf,
     frame_type := va_frame_type buf, show_frame := va_show_frame buf,
     disable_cdf_update := va_disable_cdf_update buf,
     allow_screen_content_tools := va_allow_screen_content_tools buf,
     coded_denom := va_superres_scale_denominator buf, allow_intrabc := va_allow_intrabc buf,
     allow_high_precision_mv := va_allow_high_precision_mv buf, interp_filter := va_interp_filter buf,
     switchable_motion_mode := va_is_motion_mode_switchable buf, use_ref_frame_mvs := va_use_ref_frame_mvs buf,
     disable_frame_end_update_cdf := va_disable_frame_end_update_cdf buf,
     delta_q_present := va_delta_q_present_flag buf, delta_q_res := va_log2_delta_q_res buf,
     using_qmatrix := va_using_qmatrix buf, use_superres := va_use_superres buf, tx_mode := va_tx_mode buf,
     reference_mode := va_reference_select buf, allow_warped_motion := va_allow_warped_motion buf,
     reduced_tx_set := va_reduced_tx_set_used buf, skip_mode := va_skip_mode_present buf,
     num_tile_cols := va_tile_cols buf, num_tile_rows := va_tile_rows buf,
     context_update_tile_id := va_context_update_tile_id buf,
     cdef_damping_minus_3 := va_cdef_damping_minus_3 buf, cdef_bits := va_cdef_bits buf,
     base_qindex := va_base_qindex buf, qp_y_dc_delta_q := va_y_dc_delta_q buf,
     qp_u_dc_delta_q := va_u_dc_delta_q buf, qp_v_dc_delta_q := va_v_dc_delta_q buf,
     qp_u_ac_delta_q := va_u_ac_delta_q buf, qp_v_ac_delta_q := va_v_ac_delta_q buf, qm_y := va_qm_y buf,
     qm_u := va_qm_u buf, qm_v := va_qm_v buf, segmentation_enabled := va_seg_enabled buf,
     segmentation_update_map := va_seg_update_map buf, segmentation_update_data := va_seg_update_data buf,
     segmentation_temporal_update := va_seg_temporal_update buf, loop_filter_level_u := va_filter_level_u buf,
     loop_filter_level_v := va_filter_level_v buf, loop_filter_sharpness := va_sharpness_level buf,
     loop_filter_delta_enabled := va_mode_ref_delta_enabled buf,
     loop_filter_delta_update := va_mode_ref_delta_update buf,
     delta_lf_present := va_delta_lf_present_flag buf, delta_lf_res := va_log2_delta_lf_res buf,
     delta_lf_multi := va_delta_lf_multi buf, apply_grain := va_apply_grain buf,
     overlap_flag := va_overlap_flag buf, scaling_shift_minus8 := va_grain_scaling_minus_8 buf,
     chroma_scaling_from_luma := va_chroma_scaling_from_luma buf, ar_coeff_lag := va_ar_coeff_lag buf,
     ar_coeff_shift_minus6 := va_ar_coeff_shift_minus_6 buf, grain_scale_shift := va_grain_scale_shift buf,
     clip_to_restricted_range := va_clip_to_restricted_range buf, num_y_points := va_num_y_points buf,
     num_cb_points := va_num_cb_points buf, num_cr_points := va_num_cr_points buf,
     random_seed := va_grain_seed buf, cb_mult := va_cb_mult buf, cb_luma_mult := va_cb_luma_mult buf,
     cb_offset := va_cb_offset buf, cr_mult := va_cr_mult buf, cr_luma_mult := va_cr_luma_mult buf,
     cr_offset := va_cr_offset buf,
     enable_restoration := to_int (va_yframe_restoration_type buf \<noteq> 0 \<or> va_cbframe_restoration_type buf \<noteq> 0 \<or>
       va_crframe_restoration_type buf \<noteq> 0),
     force_integer_mv := to_int (va_force_integer_mv buf \<noteq> 0 \<or> intra \<noteq> 0),
     SkipModeFrame0 := 0, SkipModeFrame1 := 0\<rparr>)
   }"

section \<open>The frames of the skip mode\<close>

definition get_relative_dist :: "CUVIDAV1PICPARAMS \<Rightarrow> int \<Rightarrow> int \<Rightarrow> int" where
  "get_relative_dist pps ref_hint hint =
     (if enable_order_hint pps = 0 then 0
      else let diff = ref_hint - hint; m = push_bit (nat (order_hint_bits_minus1 pps)) 1
           in (diff AND (m - 1)) - (diff AND m))"

text \<open>The order hints of the eight reference slots: 0 where no surface with an index is.\<close>

definition ref_order_hint :: "('c, 's, 'z) drv \<Rightarrow> u32 \<Rightarrow> int option" where
  "ref_order_hint d i = do {
     a \<leftarrow> nvSurfaceFromSurfaceId d i;
     if a = NULL then Some 0
     else do {
       s \<leftarrow> get_surface d a;
       Some (if pictureIdx s \<noteq> - 1 then order_hint s else 0)
     }
   }"

text \<open>
  The first loop over the hints of the references, from index \<open>i\<close>: the nearest preceding frame
  (\<open>fi\<close>, \<open>fh\<close>) and the nearest following one (\<open>bi\<close>, \<open>bh\<close>).
\<close>

fun nearest_refs ::
  "(int \<Rightarrow> int \<Rightarrow> int) \<Rightarrow> int \<Rightarrow> int \<Rightarrow> int list \<Rightarrow> int \<times> int \<times> int \<times> int \<Rightarrow> int \<times> int \<times> int \<times> int" where
  "nearest_refs dist cur i [] st = st"
| "nearest_refs dist cur i (h # hs) (fi, fh, bi, bh) =
     nearest_refs dist cur (i + 1) hs
       (if dist h cur < 0 then
          if fi < 0 \<or> dist h fh > 0 then (i, h, bi, bh) else (fi, fh, bi, bh)
        else if dist h cur > 0 then
          if bi < 0 \<or> dist h bh < 0 then (fi, fh, i, h) else (fi, fh, bi, bh)
        else (fi, fh, bi, bh))"

text \<open>The second loop: the nearest frame in front of the nearest preceding one.\<close>

fun second_ref :: "(int \<Rightarrow> int \<Rightarrow> int) \<Rightarrow> int \<Rightarrow> int \<Rightarrow> int list \<Rightarrow> int \<times> int \<Rightarrow> int \<times> int" where
  "second_ref dist forwardHint i [] st = st"
| "second_ref dist forwardHint i (h # hs) (si, sh) =
     second_ref dist forwardHint (i + 1) hs
       (if dist h forwardHint < 0 \<and> (si < 0 \<or> dist h sh > 0) then (i, h) else (si, sh))"

definition skip_mode_frames :: "(int \<Rightarrow> int \<Rightarrow> int) \<Rightarrow> int \<Rightarrow> int list \<Rightarrow> (int \<times> int) option" where
  "skip_mode_frames dist cur hs =
     (let (fi, fh, bi, bh) = nearest_refs dist cur 0 hs (- 1, 0, - 1, 0) in
      if fi < 0 then None
      else if bi \<ge> 0 then Some (min fi bi + 1, max fi bi + 1)
      else let (si, sh) = second_ref dist fh 0 hs (- 1, 0) in
        if si < 0 then None else Some (min fi si + 1, max fi si + 1))"

definition copy_skip_mode ::
  "('c, 's, 'z) drv \<Rightarrow> VADecPictureParameterBufferAV1 \<Rightarrow> CUVIDAV1PICPARAMS \<Rightarrow> CUVIDAV1PICPARAMS option" where
  "copy_skip_mode d buf pps =
     (if skip_mode pps = 0 then Some pps
      else do {
        ids \<leftarrow> take_c 8 (va_ref_frame_map buf);
        hints \<leftarrow> map_opt (ref_order_hint d) ids;
        idxs \<leftarrow> take_c 7 (va_ref_frame_idx buf);
        hs \<leftarrow> map_opt (nth_c hints) idxs;
        Some (case skip_mode_frames (get_relative_dist pps) (va_order_hint buf) hs of
                None \<Rightarrow> pps
              | Some (f0, f1) \<Rightarrow> pps\<lparr>SkipModeFrame0 := f0, SkipModeFrame1 := f1\<rparr>)
      })"

section \<open>Arrays\<close>

definition cdef_strength :: "u8 \<Rightarrow> u8" where
  "cdef_strength x = (drop_bit 2 x AND 0x0f) OR push_bit 4 (x AND 0x03)"

definition copy_av1_filters ::
  "('c, 's, 'z) drv \<Rightarrow> VADecPictureParameterBufferAV1 \<Rightarrow> CUVIDAV1PICPARAMS \<Rightarrow> CUVIDAV1PICPARAMS option" where
  "copy_av1_filters d buf pps = do {
     deltas \<leftarrow> take_c 8 (va_ref_deltas buf);
     ids \<leftarrow> take_c 8 (va_ref_frame_map buf);
     idxs \<leftarrow> map_opt (pictureIdxFromSurfaceId d) ids;
     levels \<leftarrow> take_c 2 (va_filter_level buf);
     modes \<leftarrow> take_c 2 (va_mode_deltas buf);
     let uv = 1 + va_lr_unit_shift buf - va_lr_uv_shift buf;
     Some (pps\<lparr>loop_filter_ref_deltas := deltas, ref_frame_map := map word_of_int idxs,
       loop_filter_level := levels, loop_filter_mode_deltas := modes,
       lr_type := [va_yframe_restoration_type buf, va_cbframe_restoration_type buf, va_crframe_restoration_type buf],
       lr_unit_size := [1 + va_lr_unit_shift buf, uv, uv]\<rparr>)
   }"

definition copy_av1_tiles :: "VADecPictureParameterBufferAV1 \<Rightarrow> CUVIDAV1PICPARAMS \<Rightarrow> CUVIDAV1PICPARAMS option" where
  "copy_av1_tiles buf pps = do {
     cols \<leftarrow> take_c (nat (num_tile_cols pps)) (va_width_in_sbs_minus_1 buf);
     widths \<leftarrow> store_c (map (\<lambda>x. 1 + x) cols) (tile_widths pps);
     rows \<leftarrow> take_c (nat (num_tile_rows pps)) (va_height_in_sbs_minus_1 buf);
     heights \<leftarrow> store_c (map (\<lambda>x. 1 + x) rows) (tile_heights pps);
     ys \<leftarrow> take_c (2 ^ nat (cdef_bits pps)) (va_cdef_y_strengths buf);
     y \<leftarrow> store_c (map cdef_strength ys) (cdef_y_strength pps);
     uvs \<leftarrow> take_c (2 ^ nat (cdef_bits pps)) (va_cdef_uv_strengths buf);
     uv \<leftarrow> store_c (map cdef_strength uvs) (cdef_uv_strength pps);
     Some (pps\<lparr>tile_widths := widths, tile_heights := heights, cdef_y_strength := y, cdef_uv_strength := uv\<rparr>)
   }"

text \<open>The eight segments with their eight values; the picture is lossless when no segment quantises.\<close>

definition av1_lossless :: "VADecPictureParameterBufferAV1 \<Rightarrow> CUVIDAV1PICPARAMS \<Rightarrow> int list \<Rightarrow> int list list \<Rightarrow> bool" where
  "av1_lossless buf pps masks data \<longleftrightarrow>
     \<not> (va_y_dc_delta_q buf \<noteq> 0 \<or> va_u_dc_delta_q buf \<noteq> 0 \<or> va_v_dc_delta_q buf \<noteq> 0 \<or> va_u_ac_delta_q buf \<noteq> 0 \<or>
        va_v_ac_delta_q buf \<noteq> 0) \<and>
     list_all2 (\<lambda>m row. \<not> (m AND 1 \<noteq> 0 \<and> base_qindex pps + row ! 0 \<noteq> 0 \<or> base_qindex pps \<noteq> 0)) masks data"

definition copy_av1_segments :: "VADecPictureParameterBufferAV1 \<Rightarrow> CUVIDAV1PICPARAMS \<Rightarrow> CUVIDAV1PICPARAMS option" where
  "copy_av1_segments buf pps = do {
     masks \<leftarrow> take_c 8 (va_feature_mask buf);
     rows \<leftarrow> take_c 8 (va_feature_data buf);
     data \<leftarrow> map_opt (take_c 8) rows;
     Some (pps\<lparr>segmentation_feature_mask := masks, segmentation_feature_data := data,
       coded_lossless := to_int (av1_lossless buf pps masks data)\<rparr>)
   }"

section \<open>References\<close>

text \<open>
  One reference: its index comes through \<^verbatim>\<open>ref_frame_idx\<close>, its size from the surface in the slot of its own
  number; without such a surface the old size stays.
\<close>

definition copy_av1_ref ::
  "('c, 's, 'z) drv \<Rightarrow> VADecPictureParameterBufferAV1 \<Rightarrow> CUVIDAV1PICPARAMS \<Rightarrow> nat \<Rightarrow> (u8 \<times> u32 \<times> u32) option" where
  "copy_av1_ref d buf pps i = do {
     ref_idx \<leftarrow> nth_c (va_ref_frame_idx buf) i;
     index \<leftarrow> nth_c (ref_frame_map pps) ref_idx;
     (old, w, h) \<leftarrow> nth_c (ref_frame pps) i;
     surf \<leftarrow> nth_c (va_ref_frame_map buf) i;
     a \<leftarrow> nvSurfaceFromSurfaceId d surf;
     if a = NULL then Some (index, w, h)
     else do {
       s \<leftarrow> get_surface d a;
       Some (index, sf_width s, sf_height s)
     }
   }"

definition copy_av1_refs ::
  "('c, 's, 'z) drv \<Rightarrow> VADecPictureParameterBufferAV1 \<Rightarrow> CUVIDAV1PICPARAMS \<Rightarrow> CUVIDAV1PICPARAMS option" where
  "copy_av1_refs d buf pps = do {
     primary \<leftarrow> (if va_primary_ref_frame buf = 7 then Some (- 1)
                else do {
                  k \<leftarrow> nth_c (va_ref_frame_idx buf) (nat (va_primary_ref_frame buf));
                  nth_c (ref_frame_map pps) k
                });
     refs \<leftarrow> map_opt (copy_av1_ref d buf pps) [0..<7];
     types \<leftarrow> take_c 7 (va_wmtype buf);
     mats \<leftarrow> take_c 7 (va_wmmat buf);
     mats \<leftarrow> map_opt (take_c 6) mats;
     Some (pps\<lparr>primary_ref_frame := primary, ref_frame := refs, gm_invalid := map (\<lambda>t. t = 0) types,
       gm_wmtype := types, gm_wmmat := mats\<rparr>)
   }"

definition points_c :: "nat \<Rightarrow> int list \<Rightarrow> int list \<Rightarrow> (int \<times> int) list option" where
  "points_c n xs ys = do { xs \<leftarrow> take_c n xs; ys \<leftarrow> take_c n ys; Some (zip xs ys) }"

definition copy_av1_grain :: "VADecPictureParameterBufferAV1 \<Rightarrow> CUVIDAV1PICPARAMS \<Rightarrow> CUVIDAV1PICPARAMS option" where
  "copy_av1_grain buf pps =
     (if apply_grain pps = 0 then Some pps
      else do {
        y \<leftarrow> points_c 14 (va_point_y_value buf) (va_point_y_scaling buf);
        cb \<leftarrow> points_c 10 (va_point_cb_value buf) (va_point_cb_scaling buf);
        cr \<leftarrow> points_c 10 (va_point_cr_value buf) (va_point_cr_scaling buf);
        ay \<leftarrow> take_c 24 (va_ar_coeffs_y buf);
        acb \<leftarrow> take_c 25 (va_ar_coeffs_cb buf);
        acr \<leftarrow> take_c 25 (va_ar_coeffs_cr buf);
        Some (pps\<lparr>scaling_points_y := y, scaling_points_cb := cb, scaling_points_cr := cr,
          ar_coeffs_y := ay, ar_coeffs_cb := acb, ar_coeffs_cr := acr\<rparr>)
      })"

section \<open>The handler\<close>

definition copyAV1PicParam ::
  "u32 \<Rightarrow> u32 \<Rightarrow> addr \<Rightarrow> VADecPictureParameterBufferAV1 \<Rightarrow> ('c, 's, 'z) drv \<Rightarrow> AV1PicParams \<Rightarrow>
   (('c, 's, 'z) drv \<times> AV1PicParams) option" where
  "copyAV1PicParam w h target buf d picParams = do {
     let picParams = copy_av1_header w h buf picParams;
     pps \<leftarrow> copy_av1_fields w h (CurrPicIdx picParams) (intra_pic_flag picParams) buf (av1 picParams);
     d \<leftarrow> update_target target (\<lambda>s. s\<lparr>order_hint := frame_offset pps\<rparr>) d;
     pps \<leftarrow> copy_skip_mode d buf pps;
     pps \<leftarrow> copy_av1_filters d buf pps;
     pps \<leftarrow> copy_av1_tiles buf pps;
     pps \<leftarrow> copy_av1_segments buf pps;
     pps \<leftarrow> copy_av1_refs d buf pps;
     pps \<leftarrow> copy_av1_grain buf pps;
     Some (d, picParams\<lparr>av1 := pps\<rparr>)
   }"

section \<open>What the search of the skip mode finds\<close>

text \<open>
  Order hints are counters of \<open>k + 1\<close> bits: their distance is the difference as long as it fits.
\<close>

lemma and_power: "x AND 2 ^ k = (if bit x k then 2 ^ k else 0)" for x :: int
  by (rule bit_eqI) (auto simp: bit_simps)

lemma relative_dist_window:
  assumes "enable_order_hint pps \<noteq> 0" "order_hint_bits_minus1 pps = int k" "- (2 ^ k) \<le> a - b" "a - b < 2 ^ k"
  shows "get_relative_dist pps a b = a - b"
proof -
  define x where "x = a - b"
  have m: "x AND (2 ^ k - 1) = x mod 2 ^ k"
    by (simp add: flip: mask_eq_exp_minus_1 take_bit_eq_mask take_bit_eq_mod)
  have q: "x div 2 ^ k = (if x < 0 then - 1 else 0)"
    using assms(3,4) unfolding x_def[symmetric]
    by (auto intro!: int_div_pos_eq[where r = "x + 2 ^ k"])
  then have "x AND 2 ^ k = (if x < 0 then 2 ^ k else 0)"
    by (simp add: and_power bit_iff_odd)
  moreover have "x mod 2 ^ k = (if x < 0 then x + 2 ^ k else x)"
    using q by (simp add: minus_div_mult_eq_mod[symmetric])
  ultimately show ?thesis
    using assms(1,2) m by (simp add: get_relative_dist_def x_def Let_def push_bit_eq_mult)
qed

text \<open>The index of the first occurrence.\<close>

definition first_pos :: "int \<Rightarrow> int list \<Rightarrow> int" where
  "first_pos x hs = int (length (takeWhile (\<lambda>h. h \<noteq> x) hs))"

lemma first_pos_append:
  "x \<in> set hs \<Longrightarrow> first_pos x (hs @ ys) = first_pos x hs"
  "x \<notin> set hs \<Longrightarrow> first_pos x (hs @ [x]) = int (length hs)"
  by (auto simp: first_pos_def takeWhile_append)

lemma first_pos_nonneg [simp]: "0 \<le> first_pos x hs" "\<not> first_pos x hs < 0"
  by (simp_all add: first_pos_def)

text \<open>Scan results: \<open>i\<close> and \<open>h\<close> are the first place and the value of the extreme element so far.\<close>

definition extreme :: "(int set \<Rightarrow> int) \<Rightarrow> int set \<Rightarrow> int list \<Rightarrow> int \<Rightarrow> int \<Rightarrow> bool" where
  "extreme best A hs i h \<longleftrightarrow>
     (if set hs \<inter> A = {} then i = - 1 else h = best (set hs \<inter> A) \<and> i = first_pos h hs)"

lemma best_in: "best \<in> {Max, Min} \<Longrightarrow> S \<noteq> {} \<Longrightarrow> finite S \<Longrightarrow> best S \<in> S" for S :: "int set"
  by (auto intro: Max_in Min_in)

lemma extreme_value: "extreme best A hs i h \<Longrightarrow> best \<in> {Max, Min} \<Longrightarrow> 0 \<le> i \<Longrightarrow> h \<in> set hs"
  using best_in[of best "set hs \<inter> A"] by (auto simp: extreme_def split: if_splits)

lemma extreme_skip:
  assumes "extreme best A hs i h" "x \<notin> A" "best \<in> {Max, Min}"
  shows "extreme best A (hs @ [x]) i h"
proof -
  have S: "set (hs @ [x]) \<inter> A = set hs \<inter> A" using assms(2) by auto
  show ?thesis
  proof (cases "set hs \<inter> A = {}")
    case True
    then show ?thesis using assms(1) unfolding extreme_def S by simp
  next
    case False
    then have "h \<in> set hs" using extreme_value[OF assms(1,3)] assms(1) by (simp add: extreme_def)
    then show ?thesis using assms(1) False unfolding extreme_def S by (simp add: first_pos_append)
  qed
qed

lemma extreme_Max:
  assumes e: "extreme Max A hs i h" and x: "x \<in> A"
  shows "i < 0 \<or> x > h \<Longrightarrow> extreme Max A (hs @ [x]) (int (length hs)) x"
    and "\<not> (i < 0 \<or> x > h) \<Longrightarrow> extreme Max A (hs @ [x]) i h"
proof -
  let ?S = "set hs \<inter> A"
  have S: "set (hs @ [x]) \<inter> A = insert x ?S" using x by auto
  show "extreme Max A (hs @ [x]) (int (length hs)) x" if c: "i < 0 \<or> x > h"
  proof (cases "?S = {}")
    case True
    then have "x \<notin> set hs" using x by auto
    then show ?thesis using S True x by (simp add: extreme_def first_pos_append)
  next
    case False
    then have "h = Max ?S" "x > h" using e c by (auto simp: extreme_def)
    moreover from this have "x \<notin> set hs" using x by (metis IntI List.finite_set finite_Int Max_ge leD)
    ultimately show ?thesis using S False x by (simp add: extreme_def first_pos_append Max_insert)
  qed
  show "extreme Max A (hs @ [x]) i h" if c: "\<not> (i < 0 \<or> x > h)"
  proof -
    have f: "?S \<noteq> {}" "h = Max ?S" "i = first_pos h hs" using e c by (auto simp: extreme_def split: if_splits)
    moreover from f have "h \<in> set hs" using Max_in[of ?S] by auto
    moreover have "Max (insert x ?S) = h"
      using f c by (simp add: Max_insert max_def not_less del: Max_less_iff Max_ge_iff)
    ultimately show ?thesis using S by (simp add: extreme_def first_pos_append)
  qed
qed

lemma extreme_Min:
  assumes e: "extreme Min A hs i h" and x: "x \<in> A"
  shows "i < 0 \<or> x < h \<Longrightarrow> extreme Min A (hs @ [x]) (int (length hs)) x"
    and "\<not> (i < 0 \<or> x < h) \<Longrightarrow> extreme Min A (hs @ [x]) i h"
proof -
  let ?S = "set hs \<inter> A"
  have S: "set (hs @ [x]) \<inter> A = insert x ?S" using x by auto
  show "extreme Min A (hs @ [x]) (int (length hs)) x" if c: "i < 0 \<or> x < h"
  proof (cases "?S = {}")
    case True
    then have "x \<notin> set hs" using x by auto
    then show ?thesis using S True x by (simp add: extreme_def first_pos_append)
  next
    case False
    then have "h = Min ?S" "x < h" using e c by (auto simp: extreme_def)
    moreover from this have "x \<notin> set hs" using x by (metis IntI List.finite_set finite_Int Min_le leD)
    ultimately show ?thesis using S False x by (simp add: extreme_def first_pos_append Min_insert)
  qed
  show "extreme Min A (hs @ [x]) i h" if c: "\<not> (i < 0 \<or> x < h)"
  proof -
    have f: "?S \<noteq> {}" "h = Min ?S" "i = first_pos h hs" using e c by (auto simp: extreme_def split: if_splits)
    moreover from f have "h \<in> set hs" using Min_in[of ?S] by auto
    moreover have "Min (insert x ?S) = h"
      using f c by (simp add: Min_insert min_def not_less del: Min_gr_iff Min_ge_iff Min_le_iff)
    ultimately show ?thesis using S by (simp add: extreme_def first_pos_append)
  qed
qed

lemma nearest_refs_extreme:
  assumes "\<And>a b. a \<in> set (pre @ hs) \<Longrightarrow> b \<in> insert cur (set (pre @ hs)) \<Longrightarrow> dist a b = a - b"
    and "extreme Max {h. h < cur} pre fi fh" "extreme Min {h. h > cur} pre bi bh"
    and "nearest_refs dist cur (int (length pre)) hs (fi, fh, bi, bh) = (fi', fh', bi', bh')"
  shows "extreme Max {h. h < cur} (pre @ hs) fi' fh' \<and> extreme Min {h. h > cur} (pre @ hs) bi' bh'"
  using assms
proof (induction hs arbitrary: pre fi fh bi bh)
  case (Cons h hs)
  have d: "dist h cur = h - cur" "\<And>b. b \<in> set pre \<Longrightarrow> dist h b = h - b" using Cons.prems(1) by auto
  have cf: "fi < 0 \<or> dist h fh > 0 \<longleftrightarrow> fi < 0 \<or> h > fh"
    using d(2)[of fh] extreme_value[OF Cons.prems(2)] by fastforce
  have cb: "bi < 0 \<or> dist h bh < 0 \<longleftrightarrow> bi < 0 \<or> h < bh"
    using d(2)[of bh] extreme_value[OF Cons.prems(3)] by fastforce
  note fM = extreme_Max[OF Cons.prems(2), of h] and fm = extreme_Min[OF Cons.prems(3), of h]
  note fs = extreme_skip[OF Cons.prems(2), of h] extreme_skip[OF Cons.prems(3), of h]
  define st where "st = (if h < cur then
          if fi < 0 \<or> h > fh then (int (length pre), h, bi, bh) else (fi, fh, bi, bh)
        else if h > cur then
          if bi < 0 \<or> h < bh then (fi, fh, int (length pre), h) else (fi, fh, bi, bh)
        else (fi, fh, bi, bh))"
  obtain a b c e where st: "st = (a, b, c, e)" by (metis prod_cases4)
  have "extreme Max {h. h < cur} (pre @ [h]) a b \<and> extreme Min {h. h > cur} (pre @ [h]) c e"
    using st fM fm fs unfolding st_def by (auto split: if_splits)
  moreover have "nearest_refs dist cur (int (length (pre @ [h]))) hs (a, b, c, e) = (fi', fh', bi', bh')"
    using Cons.prems(4) unfolding nearest_refs.simps cf cb d(1) st[symmetric] st_def
    by (simp add: add.commute cong: if_cong)
  ultimately show ?case using Cons.IH[of "pre @ [h]" a b c e] Cons.prems(1) by simp
qed simp

lemma second_ref_extreme:
  assumes "\<And>a b. a \<in> set (pre @ hs) \<Longrightarrow> b \<in> insert fh (set (pre @ hs)) \<Longrightarrow> dist a b = a - b"
    and "extreme Max {h. h < fh} pre si sh"
    and "second_ref dist fh (int (length pre)) hs (si, sh) = (si', sh')"
  shows "extreme Max {h. h < fh} (pre @ hs) si' sh'"
  using assms
proof (induction hs arbitrary: pre si sh)
  case (Cons h hs)
  have d: "dist h fh = h - fh" "\<And>b. b \<in> set pre \<Longrightarrow> dist h b = h - b" using Cons.prems(1) by auto
  have cf: "si < 0 \<or> dist h sh > 0 \<longleftrightarrow> si < 0 \<or> h > sh"
    using d(2)[of sh] extreme_value[OF Cons.prems(2)] by fastforce
  define st where "st = (if h < fh \<and> (si < 0 \<or> h > sh) then (int (length pre), h) else (si, sh))"
  obtain a b where st: "st = (a, b)" by force
  have "extreme Max {h. h < fh} (pre @ [h]) a b"
    using st extreme_Max[OF Cons.prems(2), of h] extreme_skip[OF Cons.prems(2), of h] unfolding st_def
    by (auto split: if_splits)
  moreover have "second_ref dist fh (int (length (pre @ [h]))) hs (a, b) = (si', sh')"
    using Cons.prems(3) unfolding second_ref.simps cf d(1) st[symmetric] st_def
    by (simp add: add.commute cong: if_cong)
  ultimately show ?case using Cons.IH[of "pre @ [h]" a b] Cons.prems(1) by simp
qed simp

text \<open>
  The reference definition: the latest frame before the current one with the earliest after it, or
  else with the latest before that one; the two are named by their first places in the list, in order.
\<close>

definition frame_pair :: "int list \<Rightarrow> int \<Rightarrow> int \<Rightarrow> int \<times> int" where
  "frame_pair hs x y = (min (first_pos x hs) (first_pos y hs) + 1, max (first_pos x hs) (first_pos y hs) + 1)"

definition skip_mode_spec :: "int \<Rightarrow> int list \<Rightarrow> (int \<times> int) option" where
  "skip_mode_spec cur hs =
     (let before = {h \<in> set hs. h < cur}; after = {h \<in> set hs. cur < h};
          earlier = {h \<in> set hs. h < Max before} in
      if before = {} then None
      else if after \<noteq> {} then Some (frame_pair hs (Max before) (Min after))
      else if earlier \<noteq> {} then Some (frame_pair hs (Max before) (Max earlier))
      else None)"

lemma skip_mode_frames_spec:
  assumes "\<And>a b. a \<in> set hs \<Longrightarrow> b \<in> insert cur (set hs) \<Longrightarrow> dist a b = a - b"
  shows "skip_mode_frames dist cur hs = skip_mode_spec cur hs"
proof -
  obtain fi fh bi bh where n: "nearest_refs dist cur 0 hs (- 1, 0, - 1, 0) = (fi, fh, bi, bh)" by (metis prod_cases4)
  obtain si sh where s: "second_ref dist fh 0 hs (- 1, 0) = (si, sh)" by force
  have e0: "extreme best A [] (- 1) 0" for best A by (simp add: extreme_def)
  have f: "extreme Max {h. h < cur} hs fi fh" and b: "extreme Min {h. h > cur} hs bi bh"
    using nearest_refs_extreme[of "[]" hs cur dist "- 1" 0 "- 1" 0 fi fh bi bh] n e0 assms by auto
  have s': "extreme Max {h. h < fh} hs si sh" if "0 \<le> fi"
  proof -
    have "fh \<in> set hs" using extreme_value[OF f] that by simp
    then show ?thesis using second_ref_extreme[of "[]" hs fh dist "- 1" 0 si sh] s e0 assms by auto
  qed
  have I: "{h \<in> set hs. P h} = set hs \<inter> {h. P h}" for P by auto
  show ?thesis
    using f b s' unfolding skip_mode_frames_def skip_mode_spec_def I n Let_def prod.case s frame_pair_def extreme_def
    by (auto split: if_splits)
qed
lemma first_pos_less: "x \<in> set hs \<Longrightarrow> first_pos x hs < int (length hs)"
  unfolding first_pos_def by (induction hs) auto

lemma first_pos_inj: "x \<in> set hs \<Longrightarrow> y \<in> set hs \<Longrightarrow> first_pos x hs = first_pos y hs \<longleftrightarrow> x = y"
  unfolding first_pos_def by (induction hs) auto

lemma frame_pair_order:
  assumes "x \<in> set hs" "y \<in> set hs" "x \<noteq> y"
  shows "0 < fst (frame_pair hs x y)" "fst (frame_pair hs x y) < snd (frame_pair hs x y)"
    "snd (frame_pair hs x y) \<le> int (length hs)"
  using first_pos_less[OF assms(1)] first_pos_less[OF assms(2)] first_pos_inj[OF assms(1,2)] assms(3)
  by (auto simp: frame_pair_def min_def max_def first_pos_def)

lemma skip_mode_spec_order:
  assumes "skip_mode_spec cur hs = Some (f0, f1)"
  shows "0 < f0 \<and> f0 < f1 \<and> f1 \<le> int (length hs)"
proof -
  define before where "before = {h \<in> set hs. h < cur}"
  define later where "later = {h \<in> set hs. cur < h}"
  define earlier where "earlier = {h \<in> set hs. h < Max before}"
  have fin: "finite before" "finite later" "finite earlier" by (simp_all add: before_def later_def earlier_def)
  have spec: "skip_mode_spec cur hs = (if before = {} then None
      else if later \<noteq> {} then Some (frame_pair hs (Max before) (Min later))
      else if earlier \<noteq> {} then Some (frame_pair hs (Max before) (Max earlier)) else None)"
    by (simp add: skip_mode_spec_def before_def later_def earlier_def Let_def)
  have b: "before \<noteq> {}" using assms spec by auto
  then have mb: "Max before \<in> set hs" "Max before < cur" using Max_in[OF fin(1)] by (auto simp: before_def)
  obtain y where y: "y \<in> set hs" "y \<noteq> Max before" "frame_pair hs (Max before) y = (f0, f1)"
  proof (cases "later = {}")
    case True
    then have "earlier \<noteq> {}" using assms spec by (auto split: if_splits)
    then obtain e where e: "e = Max earlier" "e \<in> earlier" using Max_in[OF fin(3)] by blast
    then show ?thesis using that[of e] assms spec b True \<open>earlier \<noteq> {}\<close> by (simp add: earlier_def)
  next
    case False
    then obtain e where e: "e = Min later" "e \<in> later" using Min_in[OF fin(2)] by blast
    then show ?thesis using that[of e] assms spec b mb(2) False by (simp add: later_def)
  qed
  show ?thesis using frame_pair_order[OF mb(1) y(1)] y(2,3) by auto
qed

text \<open>The hint of the surface in a reference slot.\<close>

definition slot_hint :: "('c, 's, 'z) drv \<Rightarrow> u32 \<Rightarrow> int" where
  "slot_hint d i =
     (case view d i of
        Some (OBJECT_TYPE_SURFACE, a) \<Rightarrow>
          (case heap d a of Some (PSurface s) \<Rightarrow> (if pictureIdx s \<noteq> - 1 then order_hint s else 0) | _ \<Rightarrow> 0)
      | _ \<Rightarrow> 0)"

lemma ref_order_hint_slot:
  assumes "typed d"
  shows "ref_order_hint d i = Some (slot_hint d i)"
proof (cases "\<exists>a. view d i = Some (OBJECT_TYPE_SURFACE, a)")
  case True
  then obtain a where v: "view d i = Some (OBJECT_TYPE_SURFACE, a)" by blast
  then obtain s where "heap d a = Some (PSurface s)" "a \<noteq> NULL"
    using typed_view[OF assms v] by (auto simp: payload_type_cases)
  then show ?thesis
    using v by (simp add: ref_order_hint_def nvSurfaceFromSurfaceId_eq typed_get[OF assms] slot_hint_def get_surface_def)
next
  case False
  then have "getObjectPtr d OBJECT_TYPE_SURFACE i = Some NULL"
    by (cases "view d i") (auto simp: typed_get[OF assms])
  moreover have "slot_hint d i = 0"
    using False by (auto simp: slot_hint_def split: option.splits ObjectType.splits)
  ultimately show ?thesis by (simp add: ref_order_hint_def nvSurfaceFromSurfaceId_eq)
qed

text \<open>
  C25: the skip mode of an AV1 picture.  When the order hints of the current picture and of its seven
  references lie within half the range of the hint counter, the search by wrapped distances returns
  exactly the pair of the reference definition: the nearest reference before the picture
  together with the nearest after it, or else with the one next before, each by its first place among the
  seven; the two frame numbers are different, in order and between 1 and 7, and they stay 0 when
  there is no such pair.
\<close>
theorem copy_skip_mode_nearest:
  fixes buf :: VADecPictureParameterBufferAV1 and d :: "('c, 's, 'z) drv"
  defines "hs \<equiv> map (\<lambda>j. slot_hint d (va_ref_frame_map buf ! j)) (va_ref_frame_idx buf)"
  assumes d: "typed d"
    and l: "length (va_ref_frame_map buf) = 8" "length (va_ref_frame_idx buf) = 7" "\<forall>j \<in> set (va_ref_frame_idx buf). j < 8"
    and pps: "skip_mode pps \<noteq> 0" "enable_order_hint pps \<noteq> 0" "order_hint_bits_minus1 pps = int k"
    and w: "\<forall>a \<in> set hs. \<forall>b \<in> insert (va_order_hint buf) (set hs). - (2 ^ k) \<le> a - b \<and> a - b < 2 ^ k"
  shows "case skip_mode_spec (va_order_hint buf) hs of
      None \<Rightarrow> copy_skip_mode d buf pps = Some pps
    | Some (f0, f1) \<Rightarrow> copy_skip_mode d buf pps = Some (pps\<lparr>SkipModeFrame0 := f0, SkipModeFrame1 := f1\<rparr>) \<and>
        0 < f0 \<and> f0 < f1 \<and> f1 \<le> 7"
proof -
  let ?hints = "map (slot_hint d) (va_ref_frame_map buf)"
  have h: "map_opt (ref_order_hint d) (va_ref_frame_map buf) = Some ?hints"
    using map_opt_total[of "va_ref_frame_map buf" "ref_order_hint d" "slot_hint d"] ref_order_hint_slot[OF d] l(1) by simp
  have r: "map_opt (nth_c ?hints) (va_ref_frame_idx buf) = Some hs"
    using map_opt_total[of "va_ref_frame_idx buf" "nth_c ?hints" "\<lambda>j. ?hints ! j"] l
    by (auto simp: hs_def cong: map_cong)
  have s: "skip_mode_frames (get_relative_dist pps) (va_order_hint buf) hs = skip_mode_spec (va_order_hint buf) hs"
    using w by (intro skip_mode_frames_spec relative_dist_window[OF pps(2,3)]) auto
  have c: "copy_skip_mode d buf pps = Some (case skip_mode_spec (va_order_hint buf) hs of
      None \<Rightarrow> pps | Some (f0, f1) \<Rightarrow> pps\<lparr>SkipModeFrame0 := f0, SkipModeFrame1 := f1\<rparr>)"
    using pps(1) l(1,2) by (simp add: copy_skip_mode_def take_c_def h r s)
  have "length hs = 7" using l(2) by (simp add: hs_def)
  then show ?thesis
    using skip_mode_spec_order[of "va_order_hint buf" hs] unfolding c by (auto split: option.split)
qed

section \<open>An example\<close>

definition example_av1 :: VADecPictureParameterBufferAV1 where
  "example_av1 = \<lparr>va_order_hint = 12, va_profile = 0, va_use_128x128_superblock = 0, va_subsampling_x = 0,
     va_subsampling_y = 0, va_mono_chrome = 0, va_enable_filter_intra = 0, va_enable_intra_edge_filter = 0,
     va_enable_interintra_compound = 0, va_enable_masked_compound = 0, va_enable_dual_filter = 0,
     va_enable_order_hint = 1, va_order_hint_bits_minus_1 = 6, va_enable_jnt_comp = 0, va_use_superres = 0,
     va_enable_cdef = 0, va_film_grain_params_present = 0, va_frame_type = 0, va_show_frame = 0,
     va_disable_cdf_update = 0, va_allow_screen_content_tools = 0, va_superres_scale_denominator = 0,
     va_allow_intrabc = 0, va_allow_high_precision_mv = 0, va_interp_filter = 0,
     va_is_motion_mode_switchable = 0, va_use_ref_frame_mvs = 0, va_disable_frame_end_update_cdf = 0,
     va_delta_q_present_flag = 0, va_log2_delta_q_res = 0, va_using_qmatrix = 0, va_tx_mode = 0,
     va_reference_select = 0, va_allow_warped_motion = 0, va_reduced_tx_set_used = 0, va_skip_mode_present = 1,
     va_tile_cols = 0, va_tile_rows = 0, va_context_update_tile_id = 0, va_cdef_damping_minus_3 = 0,
     va_cdef_bits = 0, va_base_qindex = 0, va_y_dc_delta_q = 0, va_u_dc_delta_q = 0, va_v_dc_delta_q = 0,
     va_u_ac_delta_q = 0, va_v_ac_delta_q = 0, va_qm_y = 0, va_qm_u = 0, va_qm_v = 0, va_seg_enabled = 0,
     va_seg_update_map = 0, va_seg_update_data = 0, va_seg_temporal_update = 0, va_filter_level_u = 0,
     va_filter_level_v = 0, va_sharpness_level = 0, va_mode_ref_delta_enabled = 0,
     va_mode_ref_delta_update = 0, va_delta_lf_present_flag = 0, va_log2_delta_lf_res = 0,
     va_delta_lf_multi = 0, va_apply_grain = 0, va_overlap_flag = 0, va_grain_scaling_minus_8 = 0,
     va_chroma_scaling_from_luma = 0, va_ar_coeff_lag = 0, va_ar_coeff_shift_minus_6 = 0,
     va_grain_scale_shift = 0, va_clip_to_restricted_range = 0, va_num_y_points = 0, va_num_cb_points = 0,
     va_num_cr_points = 0, va_grain_seed = 0, va_cb_mult = 0, va_cb_luma_mult = 0, va_cb_offset = 0,
     va_cr_mult = 0, va_cr_luma_mult = 0, va_cr_offset = 0, va_force_integer_mv = 0,
     va_yframe_restoration_type = 0, va_cbframe_restoration_type = 0, va_crframe_restoration_type = 0,
     va_lr_unit_shift = 0, va_lr_uv_shift = 0, va_primary_ref_frame = 0, va_bit_depth_idx = 0,
     va_ref_frame_map = [2, 3, 2, 2, 3, VA_INVALID_ID, 2, 2], va_ref_frame_idx = [0, 2, 3, 6, 1, 4, 1],
     va_cdef_y_strengths = [], va_cdef_uv_strengths = [], va_feature_data = [], va_wmtype = [], va_wmmat = [],
     va_filter_level = [], va_mode_deltas = [], va_ref_deltas = [], va_width_in_sbs_minus_1 = [],
     va_height_in_sbs_minus_1 = [], va_feature_mask = [], va_point_y_value = [], va_point_y_scaling = [],
     va_point_cb_value = [], va_point_cb_scaling = [], va_point_cr_value = [], va_point_cr_scaling = [],
     va_ar_coeffs_y = [], va_ar_coeffs_cb = [], va_ar_coeffs_cr = []\<rparr>"

definition zero_av1 :: CUVIDAV1PICPARAMS where
  "zero_av1 = \<lparr>frame_offset = 0, profile = 0, use_128x128_superblock = 0, subsampling_x = 0, subsampling_y = 0,
     mono_chrome = 0, enable_filter_intra = 0, enable_intra_edge_filter = 0, enable_interintra_compound = 0,
     enable_masked_compound = 0, enable_dual_filter = 0, enable_order_hint = 1, order_hint_bits_minus1 = 6,
     enable_jnt_comp = 0, enable_superres = 0, enable_cdef = 0, enable_fgs = 0, frame_type = 0, show_frame = 0,
     disable_cdf_update = 0, allow_screen_content_tools = 0, coded_denom = 0, allow_intrabc = 0,
     allow_high_precision_mv = 0, interp_filter = 0, switchable_motion_mode = 0, use_ref_frame_mvs = 0,
     disable_frame_end_update_cdf = 0, delta_q_present = 0, delta_q_res = 0, using_qmatrix = 0,
     use_superres = 0, tx_mode = 0, reference_mode = 0, allow_warped_motion = 0, reduced_tx_set = 0,
     skip_mode = 1, num_tile_cols = 0, num_tile_rows = 0, context_update_tile_id = 0, cdef_damping_minus_3 = 0,
     cdef_bits = 0, base_qindex = 0, qp_y_dc_delta_q = 0, qp_u_dc_delta_q = 0, qp_v_dc_delta_q = 0,
     qp_u_ac_delta_q = 0, qp_v_ac_delta_q = 0, qm_y = 0, qm_u = 0, qm_v = 0, segmentation_enabled = 0,
     segmentation_update_map = 0, segmentation_update_data = 0, segmentation_temporal_update = 0,
     loop_filter_level_u = 0, loop_filter_level_v = 0, loop_filter_sharpness = 0,
     loop_filter_delta_enabled = 0, loop_filter_delta_update = 0, delta_lf_present = 0, delta_lf_res = 0,
     delta_lf_multi = 0, apply_grain = 0, overlap_flag = 0, scaling_shift_minus8 = 0,
     chroma_scaling_from_luma = 0, ar_coeff_lag = 0, ar_coeff_shift_minus6 = 0, grain_scale_shift = 0,
     clip_to_restricted_range = 0, num_y_points = 0, num_cb_points = 0, num_cr_points = 0, random_seed = 0,
     cb_mult = 0, cb_luma_mult = 0, cb_offset = 0, cr_mult = 0, cr_luma_mult = 0, cr_offset = 0, av1_width = 0,
     av1_height = 0, decodePicIdx = 0, bit_depth_minus8 = 0, enable_restoration = 0, force_integer_mv = 0,
     SkipModeFrame0 = 0, SkipModeFrame1 = 0, loop_filter_ref_deltas = [], ref_frame_map = [],
     loop_filter_level = [], loop_filter_mode_deltas = [], lr_type = [], lr_unit_size = [], tile_widths = [],
     tile_heights = [], cdef_y_strength = [], cdef_uv_strength = [], segmentation_feature_mask = [],
     segmentation_feature_data = [], coded_lossless = 0, primary_ref_frame = 0, ref_frame = [],
     gm_invalid = [], gm_wmtype = [], gm_wmmat = [], scaling_points_y = [], scaling_points_cb = [],
     scaling_points_cr = [], ar_coeffs_y = [], ar_coeffs_cb = [], ar_coeffs_cr = []\<rparr>"

text \<open>Two references around the current picture, whose hint is 12.\<close>

definition hint_drv :: "((unit, unit) payload) NVDriver" where
  "hint_drv = put_obj 3 (PSurface ((pic_surface 5)\<lparr>order_hint := 14\<rparr>))
     (put_obj 2 (PSurface ((pic_surface 4)\<lparr>order_hint := 10\<rparr>)) pic_drv)"

lemma hint_drv_typed: "typed hint_drv"
  unfolding hint_drv_def
  by (rule typed_put_obj[where v = "PSurface (pic_surface 5)"],
      rule typed_put_obj[where v = "PSurface (pic_surface 4)"])
    (simp_all add: pic_typed pic_heap[simplified])

lemma hint_slots: "slot_hint hint_drv 2 = 10" "slot_hint hint_drv 3 = 14"
  by (simp_all add: slot_hint_def hint_drv_def pic_view pic_surface_def)

theorem copy_skip_mode_nearest_witness:
  "copy_skip_mode hint_drv example_av1 zero_av1 = Some (zero_av1\<lparr>SkipModeFrame0 := 1, SkipModeFrame1 := 5\<rparr>)"
proof -
  define hs where "hs = map (\<lambda>j. slot_hint hint_drv (va_ref_frame_map example_av1 ! j)) (va_ref_frame_idx example_av1)"
  have hs: "hs = [10, 10, 10, 10, 14, 14, 14]" by (simp add: hs_def example_av1_def hint_slots)
  have w: "va_order_hint example_av1 = 12" "length (va_ref_frame_map example_av1) = 8"
      "length (va_ref_frame_idx example_av1) = 7" "\<forall>j \<in> set (va_ref_frame_idx example_av1). j < 8"
      "skip_mode zero_av1 \<noteq> 0" "enable_order_hint zero_av1 \<noteq> 0" "order_hint_bits_minus1 zero_av1 = int 6"
    by (simp_all add: example_av1_def zero_av1_def)
  have "{h \<in> set hs. h < 12} = {10}" "{h \<in> set hs. 12 < h} = {14}" by (auto simp: hs)
  then have "skip_mode_spec 12 hs = Some (1, 5)"
    by (simp add: skip_mode_spec_def Let_def) (simp add: hs frame_pair_def first_pos_def)
  moreover have "\<forall>a \<in> set hs. \<forall>b \<in> insert 12 (set hs). - (2 ^ 6) \<le> a - b \<and> a - b < 2 ^ 6" by (simp add: hs)
  ultimately show ?thesis
    using copy_skip_mode_nearest[OF hint_drv_typed w(2-7), folded hs_def, unfolded w(1)] by simp
qed

end
