(* ===== verification/NvDriver.thy ===== *)
theory NvDriver
  imports Prelude
begin

text \<open>
  The kernel interface of the direct backend (\<^verbatim>\<open>src/src/direct/nv-driver.c\<close>): the wrappers of the
  resource manager calls, opening and closing the device, and the allocation of device memory and of
  an image that other processes can import.  The kernel is a parameter: a record of one function per
  system call over a state of its own.  A function that cannot get stuck is not in \<open>option\<close>.
\<close>

section \<open>Structs of the interface\<close>

record NVDriverContext =
  nvctlFd :: int
  nv0Fd :: int
  ctx_drmFd :: int
  clientObject :: u32
  deviceObject :: u32
  subdeviceObject :: u32
  driverMajorVersion :: u32
  driverMinorVersion :: u32
  gpu_id :: u32
  generic_page_kind :: u32
  page_kind_generation :: u32
  sector_layout :: u32

record NVDriverImage =
  nvFd :: int
  nvFd2 :: int
  img_drmFd :: int
  img_width :: u32
  img_height :: u32
  img_mods :: u64
  memorySize :: u32
  img_offset :: u32
  img_pitch :: u32
  img_fourcc :: u32

text \<open>The class-specific parameters of an allocation and the parameters of a control call.\<close>

record NV_MEMORY_ALLOCATION_PARAMS =
  mem_owner :: u32
  mem_type :: u32
  mem_flags :: u32
  mem_attr :: u32
  mem_attr2 :: u32
  mem_size :: u64

datatype alloc_params =
    NO_ALLOC_PARAMETERS
  | NV0080_ALLOC_PARAMETERS (hClientShare: u32)
  | NV2080_ALLOC_PARAMETERS
  | MEMORY_ALLOC_PARAMETERS NV_MEMORY_ALLOCATION_PARAMS

datatype control_params =
    EXPORT_OBJECT_TO_FD_PARAMS int u32 u32 u32
  | GET_UUID_FROM_GPU_ID_PARAMS (uuid_gpuId: u32) (uuid_flags: u32) (gpuUuid: "u8 list")

record NVOS64_PARAMETERS =
  os64_hRoot :: u32
  os64_hObjectParent :: u32
  os64_hObjectNew :: u32
  os64_hClass :: u32
  os64_params :: alloc_params
  os64_paramsSize :: u32
  os64_flags :: u32
  os64_status :: u32

record NVOS00_PARAMETERS =
  os00_hRoot :: u32
  os00_hObjectParent :: u32
  os00_hObjectOld :: u32
  os00_status :: u32

record NVOS54_PARAMETERS =
  os54_hClient :: u32
  os54_hObject :: u32
  os54_cmd :: u32
  os54_flags :: u32
  os54_params :: control_params
  os54_status :: u32

text \<open>The three layouts of the device information; the driver reads the same four fields of each.\<close>

datatype dev_info_layout = DEV_INFO | DEV_INFO_545 | DEV_INFO_575

record dev_info =
  di_gpu_id :: u32
  di_generic_page_kind :: u32
  di_page_kind_generation :: u32
  di_sector_layout :: u32

record nvkms_import =
  imp_memFd :: int
  imp_pitchInBlocks :: u32
  imp_log2GobsPerBlockY :: u32
  imp_mem_size :: u32
  imp_params_470 :: bool

record 'w nv_os =
  os_open :: "string \<Rightarrow> 'w \<Rightarrow> int \<times> 'w"
  os_close :: "int \<Rightarrow> 'w \<Rightarrow> 'w"
  os_dup :: "int \<Rightarrow> 'w \<Rightarrow> int \<times> 'w"
  os_read :: "int \<Rightarrow> nat \<Rightarrow> 'w \<Rightarrow> string option \<times> 'w"
  rm_alloc :: "int \<Rightarrow> nat \<Rightarrow> NVOS64_PARAMETERS \<Rightarrow> 'w \<Rightarrow> int \<times> NVOS64_PARAMETERS \<times> 'w"
  rm_free :: "int \<Rightarrow> NVOS00_PARAMETERS \<Rightarrow> 'w \<Rightarrow> int \<times> NVOS00_PARAMETERS \<times> 'w"
  rm_control :: "int \<Rightarrow> NVOS54_PARAMETERS \<Rightarrow> 'w \<Rightarrow> int \<times> NVOS54_PARAMETERS \<times> 'w"
  attach_gpus :: "int \<Rightarrow> u32 \<Rightarrow> 'w \<Rightarrow> int \<times> 'w"
  check_version :: "int \<Rightarrow> 'w \<Rightarrow> int \<times> string \<times> u32 \<times> 'w"
  register_fd :: "int \<Rightarrow> int \<Rightarrow> 'w \<Rightarrow> int \<times> 'w"
  get_dev_info :: "dev_info_layout \<Rightarrow> int \<Rightarrow> 'w \<Rightarrow> int \<times> dev_info \<times> 'w"
  gem_import :: "int \<Rightarrow> nvkms_import \<Rightarrow> 'w \<Rightarrow> int \<times> u32 \<times> 'w"
  prime_to_fd :: "int \<Rightarrow> u32 \<Rightarrow> 'w \<Rightarrow> int \<times> int \<times> 'w"
  gem_close :: "int \<Rightarrow> u32 \<Rightarrow> 'w \<Rightarrow> int \<times> 'w"
  block_linear_2d :: "u32 \<Rightarrow> u32 \<Rightarrow> u32 \<Rightarrow> u32 \<Rightarrow> u64"

section \<open>Constants\<close>

definition NV01_ROOT_CLIENT :: u32 where "NV01_ROOT_CLIENT = 0x41"
definition NV01_DEVICE_0 :: u32 where "NV01_DEVICE_0 = 0x80"
definition NV20_SUBDEVICE_0 :: u32 where "NV20_SUBDEVICE_0 = 0x2080"
definition NV01_MEMORY_LOCAL_USER :: u32 where "NV01_MEMORY_LOCAL_USER = 0x40"
definition NV0000_CTRL_CMD_OS_UNIX_EXPORT_OBJECT_TO_FD :: u32 where "NV0000_CTRL_CMD_OS_UNIX_EXPORT_OBJECT_TO_FD = 0x3d05"
definition NV0000_CTRL_CMD_GPU_GET_UUID_FROM_GPU_ID :: u32 where "NV0000_CTRL_CMD_GPU_GET_UUID_FROM_GPU_ID = 0x275"
definition NVOS32_TYPE_IMAGE :: u32 where "NVOS32_TYPE_IMAGE = 0"
definition NV_RM_API_VERSION_REPLY_RECOGNIZED :: u32 where "NV_RM_API_VERSION_REPLY_RECOGNIZED = 1"

text \<open>\<^verbatim>\<open>DRF_DEF\<close>: a value shifted to the low bit of its field.\<close>

definition DRF_DEF :: "u32 \<Rightarrow> nat \<Rightarrow> u32" where
  "DRF_DEF value low = push_bit low value"

definition memory_flags :: u32 where "memory_flags = 0x00000001 OR 0x00008000 OR 0x00010000"
definition memory_attr :: u32 where "memory_attr = DRF_DEF 2 23 OR DRF_DEF 0 0 OR DRF_DEF 2 16 OR DRF_DEF 2 27"
definition memory_attr2 :: u32 where "memory_attr2 = DRF_DEF 1 0 OR DRF_DEF 1 2"
definition uuid_format_flags :: u32 where "uuid_format_flags = 2 OR 0"

section \<open>Calls of the resource manager\<close>

text \<open>
  The struct of an allocation grew over the driver versions: before 535 it is eight bytes shorter, and
  the status is found where the newest layout has the size (before 525) or the flags.
\<close>

definition nvos64_status :: "u32 \<Rightarrow> NVOS64_PARAMETERS \<Rightarrow> u32" where
  "nvos64_status major alloc =
     (if major < 525 then os64_paramsSize alloc
      else if major < 535 then os64_flags alloc
      else os64_status alloc)"

definition nv_alloc_object ::
  "('w, 'x) nv_os_scheme \<Rightarrow> int \<Rightarrow> u32 \<Rightarrow> u32 \<Rightarrow> u32 \<Rightarrow> u32 \<Rightarrow> u32 \<Rightarrow> u32 \<Rightarrow> alloc_params \<Rightarrow> 'w \<Rightarrow> bool \<times> u32 \<times> 'w" where
  "nv_alloc_object os fd major hRoot hObjectParent hObjectNew hClass paramSize params w =
     (let alloc = \<lparr>os64_hRoot = hRoot, os64_hObjectParent = hObjectParent, os64_hObjectNew = hObjectNew,
        os64_hClass = hClass, os64_params = params,
        os64_paramsSize = (if major < 535 then 0 else paramSize), os64_flags = 0, os64_status = 0\<rparr>;
        sz = (if major < 535 then 48 - 8 else 48);
        (ret, alloc, w) = rm_alloc os fd sz alloc w
      in if ret \<noteq> 0 \<or> nvos64_status major alloc \<noteq> 0 then (False, hObjectNew, w)
         else (True, os64_hObjectNew alloc, w))"

definition nv_free_object :: "('w, 'x) nv_os_scheme \<Rightarrow> int \<Rightarrow> u32 \<Rightarrow> u32 \<Rightarrow> 'w \<Rightarrow> bool \<times> 'w" where
  "nv_free_object os fd hRoot hObject w =
     (if hObject = 0 then (True, w)
      else let (ret, freeParams, w) = rm_free os fd
             \<lparr>os00_hRoot = hRoot, os00_hObjectParent = 0, os00_hObjectOld = hObject, os00_status = 0\<rparr> w
           in (\<not> (ret \<noteq> 0 \<or> os00_status freeParams \<noteq> 0), w))"

definition nv_rm_control ::
  "('w, 'x) nv_os_scheme \<Rightarrow> int \<Rightarrow> u32 \<Rightarrow> u32 \<Rightarrow> u32 \<Rightarrow> u32 \<Rightarrow> control_params \<Rightarrow> 'w \<Rightarrow> bool \<times> control_params \<times> 'w" where
  "nv_rm_control os fd hClient hObject cmd flags params w =
     (let (ret, control, w) = rm_control os fd
        \<lparr>os54_hClient = hClient, os54_hObject = hObject, os54_cmd = cmd, os54_flags = flags,
         os54_params = params, os54_status = 0\<rparr> w
      in (\<not> (ret \<noteq> 0 \<or> os54_status control \<noteq> 0), os54_params control, w))"

definition nv_attach_gpus :: "('w, 'x) nv_os_scheme \<Rightarrow> int \<Rightarrow> u32 \<Rightarrow> 'w \<Rightarrow> bool \<times> 'w" where
  "nv_attach_gpus os fd gpu w = (let (ret, w) = attach_gpus os fd gpu w in (ret = 0, w))"

definition nv_export_object_to_fd ::
  "('w, 'x) nv_os_scheme \<Rightarrow> int \<Rightarrow> int \<Rightarrow> u32 \<Rightarrow> u32 \<Rightarrow> u32 \<Rightarrow> u32 \<Rightarrow> 'w \<Rightarrow> bool \<times> 'w" where
  "nv_export_object_to_fd os fd export_fd hClient hDevice hParent hObject w =
     (let (ok, params, w) = nv_rm_control os fd hClient hClient NV0000_CTRL_CMD_OS_UNIX_EXPORT_OBJECT_TO_FD 0
        (EXPORT_OBJECT_TO_FD_PARAMS export_fd hDevice hParent hObject) w
      in (ok, w))"

definition nv0_register_fd :: "('w, 'x) nv_os_scheme \<Rightarrow> int \<Rightarrow> int \<Rightarrow> 'w \<Rightarrow> bool \<times> 'w" where
  "nv0_register_fd os nv0_fd nvctl_fd w = (let (ret, w) = register_fd os nv0_fd nvctl_fd w in (ret = 0, w))"

section \<open>The version of the kernel module\<close>

text \<open>\<^verbatim>\<open>strstr\<close>: the first suffix that starts with the needle.\<close>

fun strstr :: "string \<Rightarrow> string \<Rightarrow> string option" where
  "strstr needle [] = (if needle = [] then Some [] else None)"
| "strstr needle (c # cs) = (if take (length needle) (c # cs) = needle then Some (c # cs) else strstr needle cs)"

text \<open>The part of the first line between two double spaces.\<close>

definition version_field :: "string \<Rightarrow> string option" where
  "version_field buf = do {
     s \<leftarrow> strstr ''  '' (takeWhile (\<lambda>c. c \<noteq> CHR 0x00) buf);
     let versionStart = drop 2 s;
     versionEnd \<leftarrow> strstr ''  '' versionStart;
     Some (take (length versionStart - length versionEnd) versionStart)
   }"

definition read_proc_version :: "('w, 'x) nv_os_scheme \<Rightarrow> 'w \<Rightarrow> string option \<times> 'w" where
  "read_proc_version os w =
     (let (procFd, w) = os_open os ''/proc/driver/nvidia/version'' w in
      if procFd > 0 then
        let (buf, w) = os_read os procFd 256 w; w = os_close os procFd w
        in (case buf of Some b \<Rightarrow> if b \<noteq> [] then version_field b else None | None \<Rightarrow> None, w)
      else (None, w))"

text \<open>The string is \<open>None\<close> where the caller's pointer stays NULL.\<close>

definition nv_get_versions :: "('w, 'x) nv_os_scheme \<Rightarrow> int \<Rightarrow> 'w \<Rightarrow> bool \<times> string option \<times> 'w" where
  "nv_get_versions os fd w =
     (let (ret, versionString, reply, w) = check_version os fd w in
      if ret \<noteq> 0 then (False, None, w)
      else if versionString = [] then
        let (found, w) = read_proc_version os w
        in (reply = NV_RM_API_VERSION_REPLY_RECOGNIZED,
            Some (case found of Some v \<Rightarrow> v | None \<Rightarrow> ''470.123.45''), w)
      else (reply = NV_RM_API_VERSION_REPLY_RECOGNIZED, Some versionString, w))"

text \<open>\<^verbatim>\<open>atoi\<close>; a value outside \<^verbatim>\<open>int\<close> is undefined.\<close>

definition digit_of :: "char \<Rightarrow> int option" where
  "digit_of c = (let v = int (of_char c) in if 48 \<le> v \<and> v \<le> 57 then Some (v - 48) else None)"

fun digits_value :: "int \<Rightarrow> string \<Rightarrow> int" where
  "digits_value acc [] = acc"
| "digits_value acc (c # cs) = (case digit_of c of None \<Rightarrow> acc | Some v \<Rightarrow> digits_value (10 * acc + v) cs)"

definition is_space :: "char \<Rightarrow> bool" where
  "is_space c \<longleftrightarrow> c = CHR '' '' \<or> (9 \<le> (of_char c :: nat) \<and> (of_char c :: nat) \<le> 13)"

definition atoi :: "string \<Rightarrow> int option" where
  "atoi s =
     (let s = dropWhile is_space s;
          v = (case s of
                 [] \<Rightarrow> 0
               | c # cs \<Rightarrow> if c = CHR ''-'' then - digits_value 0 cs
                           else if c = CHR ''+'' then digits_value 0 cs else digits_value 0 (c # cs))
      in if - (2 ^ 31) \<le> v \<and> v < 2 ^ 31 then Some v else None)"

text \<open>
  The two numbers of the version.  Reading them from a pointer that is still NULL, or from behind the end of
  a string shorter than four characters, is undefined.
\<close>

definition read_versions :: "('w, 'x) nv_os_scheme \<Rightarrow> int \<Rightarrow> NVDriverContext \<Rightarrow> 'w \<Rightarrow> (NVDriverContext \<times> 'w) option" where
  "read_versions os fd ctx w =
     (let (ok, ver, w) = nv_get_versions os fd w in do {
        v \<leftarrow> ver;
        major \<leftarrow> atoi v;
        guard (4 \<le> length v);
        minor \<leftarrow> atoi (drop 4 v);
        Some (ctx\<lparr>driverMajorVersion := word_of_int major, driverMinorVersion := word_of_int minor\<rparr>, w)
      })"

section \<open>The device\<close>

definition info_layout :: "NVDriverContext \<Rightarrow> dev_info_layout" where
  "info_layout ctx =
     (if driverMajorVersion ctx \<ge> 575 then DEV_INFO_575
      else if driverMajorVersion ctx > 545 \<or> driverMajorVersion ctx = 545 \<and> driverMinorVersion ctx \<ge> 29 then DEV_INFO_545
      else DEV_INFO)"

definition get_device_info :: "('w, 'x) nv_os_scheme \<Rightarrow> int \<Rightarrow> NVDriverContext \<Rightarrow> 'w \<Rightarrow> bool \<times> NVDriverContext \<times> 'w" where
  "get_device_info os fd ctx w =
     (let (ret, info, w) = get_dev_info os (info_layout ctx) fd w in
      if ret \<noteq> 0 then (False, ctx, w)
      else (True, ctx\<lparr>gpu_id := di_gpu_id info, sector_layout := di_sector_layout info,
              page_kind_generation := di_page_kind_generation info,
              generic_page_kind := di_generic_page_kind info\<rparr>, w))"

text \<open>The caller's array stays as it is where the result is \<open>None\<close>.\<close>

definition get_device_uuid :: "('w, 'x) nv_os_scheme \<Rightarrow> NVDriverContext \<Rightarrow> 'w \<Rightarrow> (bool \<times> u8 list option \<times> 'w) option" where
  "get_device_uuid os ctx w =
     (let (ret, params, w) = nv_rm_control os (nvctlFd ctx) (clientObject ctx) (clientObject ctx)
        NV0000_CTRL_CMD_GPU_GET_UUID_FROM_GPU_ID 0
        (GET_UUID_FROM_GPU_ID_PARAMS (gpu_id ctx) uuid_format_flags (replicate 256 0)) w
      in if ret then Some (False, None, w)
         else (case params of
                 GET_UUID_FROM_GPU_ID_PARAMS g f u \<Rightarrow>
                   if 16 \<le> length u then Some (True, Some (take 16 u), w) else None
               | _ \<Rightarrow> None))"

text \<open>The exit of the error path.\<close>

definition close_devices :: "('w, 'x) nv_os_scheme \<Rightarrow> int \<Rightarrow> int \<Rightarrow> 'w \<Rightarrow> 'w" where
  "close_devices os ctlFd zeroFd w =
     (let w = (if ctlFd \<noteq> - 1 then os_close os ctlFd w else w)
      in if zeroFd \<noteq> - 1 then os_close os zeroFd w else w)"

text \<open>The objects of the resource manager, in the order in which they depend on each other.\<close>

definition alloc_client_objects ::
  "('w, 'x) nv_os_scheme \<Rightarrow> int \<Rightarrow> int \<Rightarrow> NVDriverContext \<Rightarrow> 'w \<Rightarrow> bool \<times> NVDriverContext \<times> 'w" where
  "alloc_client_objects os ctlFd zeroFd ctx w =
     (let (ret, h, w) = nv_alloc_object os ctlFd (driverMajorVersion ctx) 0 0 (clientObject ctx) NV01_ROOT_CLIENT 0 NO_ALLOC_PARAMETERS w;
          ctx = ctx\<lparr>clientObject := h\<rparr>
      in if \<not> ret then (False, ctx, w)
      else let (ret, w) = nv_attach_gpus os ctlFd (gpu_id ctx) w
      in if \<not> ret then (False, ctx, w)
      else let (ret, h, w) = nv_alloc_object os ctlFd (driverMajorVersion ctx) (clientObject ctx) (clientObject ctx)
             (deviceObject ctx) NV01_DEVICE_0 56 (NV0080_ALLOC_PARAMETERS (clientObject ctx)) w;
             ctx = ctx\<lparr>deviceObject := h\<rparr>
      in if \<not> ret then (False, ctx, w)
      else let (ret, h, w) = nv_alloc_object os ctlFd (driverMajorVersion ctx) (clientObject ctx) (deviceObject ctx)
             (subdeviceObject ctx) NV20_SUBDEVICE_0 4 NV2080_ALLOC_PARAMETERS w;
             ctx = ctx\<lparr>subdeviceObject := h\<rparr>
      in if \<not> ret then (False, ctx, w)
      else let (ret, w) = nv0_register_fd os zeroFd ctlFd w
      in (ret, ctx, w))"

definition init_nvdriver ::
  "('w, 'x) nv_os_scheme \<Rightarrow> NVDriverContext \<Rightarrow> int \<Rightarrow> 'w \<Rightarrow> (bool \<times> NVDriverContext \<times> 'w) option" where
  "init_nvdriver os ctx drmFd w =
     (let (ctlFd, w) = os_open os ''/dev/nvidiactl'' w in
      if ctlFd = - 1 then Some (False, ctx, close_devices os ctlFd (- 1) w)
      else let (zeroFd, w) = os_open os ''/dev/nvidia0'' w in
      if zeroFd = - 1 then Some (False, ctx, close_devices os ctlFd zeroFd w)
      else do {
        (ctx, w) \<leftarrow> read_versions os ctlFd ctx w;
        let (ret, ctx, w) = get_device_info os drmFd ctx w;
        if \<not> ret then Some (False, ctx, w)
        else
          let (ret, ctx, w) = alloc_client_objects os ctlFd zeroFd ctx w in
          if \<not> ret then Some (False, ctx, close_devices os ctlFd zeroFd w)
          else Some (True, ctx\<lparr>ctx_drmFd := drmFd, nvctlFd := ctlFd, nv0Fd := zeroFd\<rparr>, w)
      })"

definition zero_driver_context :: NVDriverContext where
  "zero_driver_context = \<lparr>nvctlFd = 0, nv0Fd = 0, ctx_drmFd = 0, clientObject = 0, deviceObject = 0, subdeviceObject = 0,
     driverMajorVersion = 0, driverMinorVersion = 0, gpu_id = 0, generic_page_kind = 0,
     page_kind_generation = 0, sector_layout = 0\<rparr>"

definition free_nvdriver :: "('w, 'x) nv_os_scheme \<Rightarrow> NVDriverContext \<Rightarrow> 'w \<Rightarrow> bool \<times> NVDriverContext \<times> 'w" where
  "free_nvdriver os ctx w =
     (let (r, w) = nv_free_object os (nvctlFd ctx) (clientObject ctx) (subdeviceObject ctx) w;
          (r, w) = nv_free_object os (nvctlFd ctx) (clientObject ctx) (deviceObject ctx) w;
          (r, w) = nv_free_object os (nvctlFd ctx) (clientObject ctx) (clientObject ctx) w;
          w = (if nvctlFd ctx > 0 then os_close os (nvctlFd ctx) w else w);
          w = (if ctx_drmFd ctx > 0 then os_close os (ctx_drmFd ctx) w else w);
          w = (if nv0Fd ctx > 0 then os_close os (nv0Fd ctx) w else w)
      in (True, zero_driver_context, w))"

section \<open>Memory and images\<close>

text \<open>The exit of \<^verbatim>\<open>alloc_memory\<close> after a failure.\<close>

definition release_memory :: "('w, 'x) nv_os_scheme \<Rightarrow> NVDriverContext \<Rightarrow> int \<Rightarrow> u32 \<Rightarrow> 'w \<Rightarrow> 'w" where
  "release_memory os ctx nvctlFd2 bufferObject w =
     (let w = (if nvctlFd2 > 0 then os_close os nvctlFd2 w else w);
          (ret, w) = nv_free_object os (nvctlFd ctx) (clientObject ctx) bufferObject w
      in w)"

definition alloc_memory :: "('w, 'x) nv_os_scheme \<Rightarrow> NVDriverContext \<Rightarrow> u32 \<Rightarrow> 'w \<Rightarrow> int option \<times> 'w" where
  "alloc_memory os ctx sz w =
     (let memParams = \<lparr>mem_owner = clientObject ctx, mem_type = NVOS32_TYPE_IMAGE, mem_flags = memory_flags,
            mem_attr = memory_attr, mem_attr2 = memory_attr2, mem_size = ucast sz\<rparr>;
          (ret, bufferObject, w) = nv_alloc_object os (nvctlFd ctx) (driverMajorVersion ctx) (clientObject ctx)
            (deviceObject ctx) 0 NV01_MEMORY_LOCAL_USER 120 (MEMORY_ALLOC_PARAMETERS memParams) w
      in if \<not> ret then (None, w)
      else let (nvctlFd2, w) = os_open os ''/dev/nvidiactl'' w
      in if nvctlFd2 = - 1 then (None, release_memory os ctx nvctlFd2 bufferObject w)
      else let (ret, w) = nv_attach_gpus os nvctlFd2 (gpu_id ctx) w
      in if \<not> ret then (None, release_memory os ctx nvctlFd2 bufferObject w)
      else let (ret, w) = nv_export_object_to_fd os (nvctlFd ctx) nvctlFd2 (clientObject ctx) (deviceObject ctx)
             (deviceObject ctx) bufferObject w
      in if \<not> ret then (None, release_memory os ctx nvctlFd2 bufferObject w)
      else let (ret, w) = nv_free_object os (nvctlFd ctx) (clientObject ctx) bufferObject w
      in if \<not> ret then (None, release_memory os ctx nvctlFd2 bufferObject w)
      else (Some nvctlFd2, w))"

definition log2_gobs_y :: "u32 \<Rightarrow> nat" where
  "log2_gobs_y h = (if h < 11 then 0 else if h < 22 then 1 else if h < 43 then 2 else if h < 86 then 3 else 4)"

text \<open>
  The second half of \<^verbatim>\<open>alloc_image\<close>: the memory behind \<open>memFd\<close> becomes a buffer of the display driver and
  that one a descriptor for other processes.  The failure exit closes \<open>memFd\<close>, and the exported descriptor
  when there is one.
\<close>

definition export_image ::
  "('w, 'x) nv_os_scheme \<Rightarrow> NVDriverContext \<Rightarrow> u32 \<Rightarrow> nat \<Rightarrow> u32 \<Rightarrow> int \<Rightarrow> 'w \<Rightarrow> (int \<times> int) option \<times> 'w" where
  "export_image os ctx pitchInBlocks log2GobsPerBlockY imageSizeInBytes memFd s =
     (let fail = (\<lambda>s. (None, if memFd > 0 then os_close os memFd s else s));
          (memFd2, s) = os_dup os memFd s
      in if memFd2 = - 1 then fail s
      else let (drmret, gem, s) = gem_import os (ctx_drmFd ctx)
             \<lparr>imp_memFd = memFd2, imp_pitchInBlocks = pitchInBlocks, imp_log2GobsPerBlockY = of_nat log2GobsPerBlockY,
              imp_mem_size = ROUND_UP imageSizeInBytes 65536, imp_params_470 = (driverMajorVersion ctx = 470)\<rparr> s
      in if drmret \<noteq> 0 then fail s
      else let (drmret, primeFd, s) = prime_to_fd os (ctx_drmFd ctx) gem s
      in if drmret \<noteq> 0 then fail s
      else let (drmret, s) = gem_close os (ctx_drmFd ctx) gem s
      in if drmret \<noteq> 0 then fail (if primeFd > 0 then os_close os primeFd s else s)
      else (Some (memFd2, primeFd), s))"

definition alloc_image ::
  "('w, 'x) nv_os_scheme \<Rightarrow> NVDriverContext \<Rightarrow> u32 \<Rightarrow> u32 \<Rightarrow> u8 \<Rightarrow> u8 \<Rightarrow> u32 \<Rightarrow> NVDriverImage \<Rightarrow> 'w \<Rightarrow> bool \<times> NVDriverImage \<times> 'w" where
  "alloc_image os ctx w h channels bitsPerChannel fourcc im s =
     (let bytesPerChannel = ucast (bitsPerChannel div 8) :: u32;
          bytesPerPixel = ucast channels * bytesPerChannel;
          log2GobsPerBlockY = log2_gobs_y h;
          widthInBytes = ROUND_UP (w * bytesPerPixel) 64;
          alignedHeight = ROUND_UP h (push_bit log2GobsPerBlockY 8);
          imageSizeInBytes = widthInBytes * alignedHeight;
          (mfd, s) = alloc_memory os ctx imageSizeInBytes s
      in case mfd of
        None \<Rightarrow> (False, im, s)
      | Some memFd \<Rightarrow>
        let (exported, s) = export_image os ctx (widthInBytes div 64) log2GobsPerBlockY imageSizeInBytes memFd s
        in case exported of
          None \<Rightarrow> (False, im, s)
        | Some (memFd2, primeFd) \<Rightarrow>
          (True, im\<lparr>img_width := w, img_height := h, nvFd := memFd, nvFd2 := memFd2, img_drmFd := primeFd,
             img_mods := block_linear_2d os (sector_layout ctx) (page_kind_generation ctx) (generic_page_kind ctx) (of_nat log2GobsPerBlockY),
             img_offset := 0, img_pitch := widthInBytes, memorySize := ROUND_UP imageSizeInBytes 65536, img_fourcc := fourcc\<rparr>, s))"

section \<open>What the kernel promises\<close>

text \<open>
  Three observations of the kernel state: the open descriptors, the objects of the resource manager
  as (descriptor they were made through, parent, handle), and the open buffer handles of the display driver.
  Only opening, duplicating and exporting make a descriptor, and it is one that was not open; a failed
  call changes nothing; closing a descriptor frees the objects made through it.
\<close>

record 'w kernel_view =
  fds :: "'w \<Rightarrow> int set"
  objs :: "'w \<Rightarrow> (int \<times> u32 \<times> u32) set"
  gems :: "'w \<Rightarrow> u32 set"

definition same_view :: "('w, 'y) kernel_view_scheme \<Rightarrow> 'w \<Rightarrow> 'w \<Rightarrow> bool" where
  "same_view k w w' \<longleftrightarrow> fds k w' = fds k w \<and> objs k w' = objs k w \<and> gems k w' = gems k w"

definition new_fd :: "('w, 'y) kernel_view_scheme \<Rightarrow> int \<Rightarrow> 'w \<Rightarrow> 'w \<Rightarrow> bool" where
  "new_fd k r w w' \<longleftrightarrow> 0 \<le> r \<and> r \<notin> fds k w \<and> fds k w' = insert r (fds k w) \<and> objs k w' = objs k w \<and> gems k w' = gems k w"

definition mentions :: "u32 \<Rightarrow> (int \<times> u32 \<times> u32) set \<Rightarrow> int \<Rightarrow> bool" where
  "mentions h S fd \<longleftrightarrow> (\<exists>x. (fd, h, x) \<in> S \<or> (fd, x, h) \<in> S)"

definition opens_ok :: "('w, 'x) nv_os_scheme \<Rightarrow> ('w, 'y) kernel_view_scheme \<Rightarrow> bool" where
  "opens_ok os k \<longleftrightarrow>
     (\<forall>p w r w'. os_open os p w = (r, w') \<longrightarrow> r = - 1 \<and> same_view k w w' \<or> new_fd k r w w') \<and>
     (\<forall>fd w r w'. os_dup os fd w = (r, w') \<longrightarrow> r = - 1 \<and> same_view k w w' \<or> new_fd k r w w') \<and>
     (\<forall>fd w. fds k (os_close os fd w) = fds k w - {fd} \<and>
        objs k (os_close os fd w) = {x \<in> objs k w. fst x \<noteq> fd} \<and> gems k (os_close os fd w) = gems k w)"

definition alloc_law :: "u32 \<Rightarrow> ('w, 'x) nv_os_scheme \<Rightarrow> ('w, 'y) kernel_view_scheme \<Rightarrow> bool" where
  "alloc_law major os k \<longleftrightarrow> (\<forall>fd n a w r a' w'. rm_alloc os fd n a w = (r, a', w') \<longrightarrow>
     (if r \<noteq> 0 \<or> nvos64_status major a' \<noteq> 0 then same_view k w w'
      else os64_hObjectNew a' \<noteq> 0 \<and> \<not> mentions (os64_hObjectNew a') (objs k w) fd \<and>
        fds k w' = fds k w \<and> gems k w' = gems k w \<and>
        objs k w' = insert (fd, os64_hObjectParent a, os64_hObjectNew a') (objs k w)))"

definition free_law :: "('w, 'x) nv_os_scheme \<Rightarrow> ('w, 'y) kernel_view_scheme \<Rightarrow> bool" where
  "free_law os k \<longleftrightarrow> (\<forall>fd a w r a' w'. rm_free os fd a w = (r, a', w') \<longrightarrow>
     (if r \<noteq> 0 \<or> os00_status a' \<noteq> 0 then same_view k w w'
      else fds k w' = fds k w \<and> gems k w' = gems k w \<and> objs k w' \<subseteq> objs k w \<and>
        {x \<in> objs k w. fst x \<noteq> fd} \<subseteq> objs k w' \<and>
        ((\<forall>c. (fd, os00_hObjectOld a, c) \<notin> objs k w) \<longrightarrow>
          objs k w' = {x \<in> objs k w. \<forall>p. x \<noteq> (fd, p, os00_hObjectOld a)})))"

definition quiet_calls :: "('w, 'x) nv_os_scheme \<Rightarrow> ('w, 'y) kernel_view_scheme \<Rightarrow> bool" where
  "quiet_calls os k \<longleftrightarrow>
     (\<forall>fd n w. same_view k w (snd (os_read os fd n w))) \<and>
     (\<forall>fd a w. same_view k w (snd (snd (rm_control os fd a w)))) \<and>
     (\<forall>fd g w. same_view k w (snd (attach_gpus os fd g w))) \<and>
     (\<forall>fd w. same_view k w (snd (snd (snd (check_version os fd w))))) \<and>
     (\<forall>fd c w. same_view k w (snd (register_fd os fd c w))) \<and>
     (\<forall>l fd w. same_view k w (snd (snd (get_dev_info os l fd w))))"

definition gem_law :: "('w, 'x) nv_os_scheme \<Rightarrow> ('w, 'y) kernel_view_scheme \<Rightarrow> bool" where
  "gem_law os k \<longleftrightarrow>
     (\<forall>fd i w r g w'. gem_import os fd i w = (r, g, w') \<longrightarrow>
        (if r \<noteq> 0 then same_view k w w'
         else g \<notin> gems k w \<and> fds k w' = fds k w \<and> objs k w' = objs k w \<and> gems k w' = insert g (gems k w))) \<and>
     (\<forall>fd g w r p w'. prime_to_fd os fd g w = (r, p, w') \<longrightarrow> (if r \<noteq> 0 then same_view k w w' else new_fd k p w w')) \<and>
     (\<forall>fd g w r w'. gem_close os fd g w = (r, w') \<longrightarrow>
        (if r \<noteq> 0 then same_view k w w'
         else fds k w' = fds k w \<and> objs k w' = objs k w \<and> gems k w' = gems k w - {g}))"

definition kernel_ok :: "u32 \<Rightarrow> ('w, 'x) nv_os_scheme \<Rightarrow> ('w, 'y) kernel_view_scheme \<Rightarrow> bool" where
  "kernel_ok major os k \<longleftrightarrow> opens_ok os k \<and> alloc_law major os k \<and> free_law os k \<and> quiet_calls os k \<and> gem_law os k"

text \<open>Freeing an object does not fail.\<close>

definition release_ok :: "('w, 'x) nv_os_scheme \<Rightarrow> bool" where
  "release_ok os \<longleftrightarrow> (\<forall>fd a w r a' w'. rm_free os fd a w = (r, a', w') \<longrightarrow> r = 0 \<and> os00_status a' = 0)"

lemma open_cases:
  assumes "kernel_ok major os k"
  shows "os_open os p w = (r, w') \<Longrightarrow> r = - 1 \<and> same_view k w w' \<or> new_fd k r w w'"
    and "os_dup os fd w = (r, w') \<Longrightarrow> r = - 1 \<and> same_view k w w' \<or> new_fd k r w w'"
    and "fds k (os_close os fd w) = fds k w - {fd}" "objs k (os_close os fd w) = {x \<in> objs k w. fst x \<noteq> fd}" "gems k (os_close os fd w) = gems k w"
  using assms unfolding kernel_ok_def opens_ok_def by blast+

lemma quiet_cases:
  assumes "kernel_ok major os k"
  shows "os_read os fd n w = (b, w') \<Longrightarrow> same_view k w w'"
    and "attach_gpus os fd g w = (r, w') \<Longrightarrow> same_view k w w'"
    and "check_version os fd w = (r, s, y, w') \<Longrightarrow> same_view k w w'"
    and "register_fd os fd c w = (r, w') \<Longrightarrow> same_view k w w'"
    and "get_dev_info os l fd w = (r, i, w') \<Longrightarrow> same_view k w w'"
    and "rm_control os fd a w = (r, a', w') \<Longrightarrow> same_view k w w'"
  using assms unfolding kernel_ok_def quiet_calls_def by (metis snd_conv)+

lemma same_view_refl [simp]: "same_view k w w" by (simp add: same_view_def)

lemma alloc_object_cases:
  assumes k: "kernel_ok major os k" and n: "nv_alloc_object os fd major hr hp hn hc sz ps w = (ret, h, w')"
  shows "\<not> ret \<and> h = hn \<and> same_view k w w' \<or>
    ret \<and> h \<noteq> 0 \<and> \<not> mentions h (objs k w) fd \<and> fds k w' = fds k w \<and> gems k w' = gems k w \<and> objs k w' = insert (fd, hp, h) (objs k w)"
proof -
  define a where "a = \<lparr>os64_hRoot = hr, os64_hObjectParent = hp, os64_hObjectNew = hn,
        os64_hClass = hc, os64_params = ps,
        os64_paramsSize = (if major < 535 then 0 else sz), os64_flags = 0, os64_status = 0\<rparr>"
  define m :: nat where "m = (if major < 535 then 48 - 8 else 48)"
  obtain r a' w1 where r: "rm_alloc os fd m a w = (r, a', w1)" by (metis prod_cases3)
  have p: "os64_hObjectParent a = hp" by (simp add: a_def)
  have e: "(ret, h, w') = (if r \<noteq> 0 \<or> nvos64_status major a' \<noteq> 0 then (False, hn, w1) else (True, os64_hObjectNew a', w1))"
    using n unfolding nv_alloc_object_def a_def[symmetric] m_def[symmetric] Let_def r by simp
  have "alloc_law major os k" using k by (simp add: kernel_ok_def)
  from this[unfolded alloc_law_def, rule_format, OF r] e p show ?thesis by (auto split: if_splits)
qed

lemma free_object_cases:
  assumes k: "kernel_ok major os k" "release_ok os" and h: "h \<noteq> 0" and n: "nv_free_object os fd hr h w = (ret, w')"
  shows "ret \<and> fds k w' = fds k w \<and> gems k w' = gems k w \<and> objs k w' \<subseteq> objs k w \<and>
    ((\<forall>c. (fd, h, c) \<notin> objs k w) \<longrightarrow> objs k w' = {x \<in> objs k w. \<forall>p. x \<noteq> (fd, p, h)})"
proof -
  define a where "a = \<lparr>os00_hRoot = hr, os00_hObjectParent = 0, os00_hObjectOld = h, os00_status = 0\<rparr>"
  obtain r a' w1 where r: "rm_free os fd a w = (r, a', w1)" by (metis prod_cases3)
  have p: "os00_hObjectOld a = h" by (simp add: a_def)
  have e: "(ret, w') = (\<not> (r \<noteq> 0 \<or> os00_status a' \<noteq> 0), w1)"
    using h n unfolding nv_free_object_def a_def[symmetric] Let_def r by simp
  have "r = 0 \<and> os00_status a' = 0" using k(2) r unfolding release_ok_def by blast
  moreover have "free_law os k" using k(1) by (simp add: kernel_ok_def)
  ultimately show ?thesis using e p r unfolding free_law_def by fastforce
qed

lemma export_cases:
  assumes "kernel_ok major os k" "nv_export_object_to_fd os fd e hc hdev hp ho w = (ret, w')"
  shows "same_view k w w'"
  using assms(2) quiet_cases(6)[OF assms(1)]
  by (auto simp: nv_export_object_to_fd_def nv_rm_control_def split: prod.splits)

lemma attach_cases:
  assumes "kernel_ok major os k" "nv_attach_gpus os fd g w = (ret, w')"
  shows "same_view k w w'"
  using assms(2) quiet_cases(2)[OF assms(1)] by (auto simp: nv_attach_gpus_def split: prod.splits)

text \<open>A world where descriptor 0 is taken and no object outlives its descriptor, with a context in use.\<close>

definition view_wf :: "('w, 'y) kernel_view_scheme \<Rightarrow> 'w \<Rightarrow> bool" where
  "view_wf k w \<longleftrightarrow> 0 \<in> fds k w \<and> (\<forall>x \<in> objs k w. fst x \<in> fds k w)"

definition context_live :: "('w, 'y) kernel_view_scheme \<Rightarrow> NVDriverContext \<Rightarrow> 'w \<Rightarrow> bool" where
  "context_live k ctx w \<longleftrightarrow> nvctlFd ctx \<in> fds k w \<and> (nvctlFd ctx, clientObject ctx, deviceObject ctx) \<in> objs k w"

lemma same_view_trans: "same_view k w w' \<Longrightarrow> same_view k w' w'' \<Longrightarrow> same_view k w w''"
  by (simp add: same_view_def)

text \<open>Freeing a handle that was just made gives back the objects from before.\<close>

lemma free_fresh:
  assumes k: "kernel_ok major os k" "release_ok os" and h: "h \<noteq> 0" "\<not> mentions h S fd" "hp \<noteq> h"
    and o: "objs k w = insert (fd, hp, h) S" and f: "nv_free_object os fd hr h w = (ret, w')"
  shows "ret \<and> fds k w' = fds k w \<and> gems k w' = gems k w \<and> objs k w' = S"
proof -
  have "\<forall>c. (fd, h, c) \<notin> objs k w" using h o by (auto simp: mentions_def)
  moreover have "{x \<in> objs k w. \<forall>p. x \<noteq> (fd, p, h)} = S" using h(2) by (auto simp: o mentions_def)
  ultimately show ?thesis using free_object_cases[OF k h(1) f] by auto
qed

theorem alloc_memory_resources:
  assumes k: "kernel_ok (driverMajorVersion ctx) os k" "release_ok os" and w: "view_wf k w" "context_live k ctx w"
  shows "case alloc_memory os ctx sz w of
      (None, w') \<Rightarrow> same_view k w w'
    | (Some fd, w') \<Rightarrow> 0 < fd \<and> new_fd k fd w w'"
proof -
  define memParams where "memParams = \<lparr>mem_owner = clientObject ctx, mem_type = NVOS32_TYPE_IMAGE, mem_flags = memory_flags,
            mem_attr = memory_attr, mem_attr2 = memory_attr2, mem_size = ucast sz :: u64\<rparr>"
  obtain r1 h w1 where 1: "nv_alloc_object os (nvctlFd ctx) (driverMajorVersion ctx) (clientObject ctx)
            (deviceObject ctx) 0 NV01_MEMORY_LOCAL_USER 120 (MEMORY_ALLOC_PARAMETERS memParams) w = (r1, h, w1)" by (metis prod_cases3)
  obtain fd w2 where 2: "os_open os ''/dev/nvidiactl'' w1 = (fd, w2)" by force
  obtain r3 w3 where 3: "nv_attach_gpus os fd (gpu_id ctx) w2 = (r3, w3)" by force
  obtain r4 w4 where 4: "nv_export_object_to_fd os (nvctlFd ctx) fd (clientObject ctx) (deviceObject ctx) (deviceObject ctx) h w3 = (r4, w4)" by force
  obtain r5 w5 where 5: "nv_free_object os (nvctlFd ctx) (clientObject ctx) h w4 = (r5, w5)" by force
  have e: "alloc_memory os ctx sz w =
     (if \<not> r1 then (None, w1) else if fd = - 1 then (None, release_memory os ctx fd h w2)
      else if \<not> r3 then (None, release_memory os ctx fd h w3)
      else if \<not> r4 then (None, release_memory os ctx fd h w4)
      else if \<not> r5 then (None, release_memory os ctx fd h w5) else (Some fd, w5))"
    unfolding alloc_memory_def memParams_def[symmetric] Let_def 1 2 3 4 5 prod.case by simp
  show ?thesis
  proof (cases r1)
    case False
    then show ?thesis using alloc_object_cases[OF k(1) 1] by (simp add: e)
  next
    case True
    then have a: "h \<noteq> 0" "\<not> mentions h (objs k w) (nvctlFd ctx)" "fds k w1 = fds k w" "gems k w1 = gems k w"
        "objs k w1 = insert (nvctlFd ctx, deviceObject ctx, h) (objs k w)"
      using alloc_object_cases[OF k(1) 1] by auto
    have dh: "deviceObject ctx \<noteq> h" using w(2) a(2) by (auto simp: context_live_def mentions_def)
    note ff = free_fresh[OF k a(1,2) dh]
    have rel: "same_view k w (release_memory os ctx fd h v)" if c: "objs k v = insert (nvctlFd ctx, deviceObject ctx, h) (objs k w)"
      "gems k v = gems k w" "fd = - 1 \<and> fds k v = fds k w \<or> 0 < fd \<and> fd \<notin> fds k w \<and> fds k v = insert fd (fds k w)" for v
    proof -
      define v' where "v' = (if fd > 0 then os_close os fd v else v)"
      have v': "fds k v' = fds k w" "gems k v' = gems k w" using c by (auto simp: v'_def open_cases(3,5)[OF k(1)])
      have "\<forall>x \<in> objs k w. fst x \<noteq> fd" "nvctlFd ctx \<noteq> fd" if "0 < fd"
        using w c that by (auto simp: view_wf_def context_live_def)
      then have "objs k v' = insert (nvctlFd ctx, deviceObject ctx, h) (objs k w)"
        using c(1) by (auto simp: v'_def open_cases(4)[OF k(1)])
      from ff[OF this] show ?thesis
        using v' unfolding release_memory_def Let_def v'_def[symmetric] by (auto simp: same_view_def split: prod.split)
    qed
    have open2: "fd = - 1 \<and> same_view k w1 w2 \<or> 0 < fd \<and> new_fd k fd w1 w2"
      using open_cases(1)[OF k(1) 2] w(1) a(3) by (auto simp: new_fd_def view_wf_def less_le)
    have s: "same_view k w2 w3" "same_view k w3 w4" using attach_cases[OF k(1) 3] export_cases[OF k(1) 4] .
    show ?thesis
    proof (cases "fd = - 1")
      case True
      then show ?thesis using rel[of w2] open2 a \<open>r1\<close> by (simp add: e same_view_def)
    next
      case False
      then have n: "0 < fd" "fd \<notin> fds k w" "fds k w2 = insert fd (fds k w)" "gems k w2 = gems k w"
          "objs k w2 = insert (nvctlFd ctx, deviceObject ctx, h) (objs k w)"
        using open2 a by (auto simp: new_fd_def)
      have "r5 \<and> fds k w5 = fds k w4 \<and> gems k w5 = gems k w4 \<and> objs k w5 = objs k w"
        using ff[OF _ 5] n(5) s by (simp add: same_view_def)
      then show ?thesis
        using rel[of w3] rel[of w4] n s False \<open>r1\<close> by (auto simp: e same_view_def new_fd_def)
    qed
  qed
qed


section \<open>Opening and closing the device\<close>

lemma read_proc_version_view:
  assumes k: "kernel_ok major os k" and w: "view_wf k w" and r: "read_proc_version os w = (v, w')"
  shows "same_view k w w'"
proof -
  obtain fd w1 where o: "os_open os ''/proc/driver/nvidia/version'' w = (fd, w1)" by force
  obtain b w2 where b: "os_read os fd 256 w1 = (b, w2)" by force
  have s: "same_view k w1 w2" by (rule quiet_cases(1)[OF k b])
  have w': "w' = (if fd > 0 then os_close os fd w2 else w1)"
    using r unfolding read_proc_version_def Let_def o b prod.case by (auto split: if_splits)
  have "fd = - 1 \<and> same_view k w w1 \<or> 0 < fd \<and> new_fd k fd w w1"
    using open_cases(1)[OF k o] w by (auto simp: new_fd_def view_wf_def less_le)
  moreover have "{x \<in> objs k w. fst x \<noteq> fd} = objs k w" if "fd \<notin> fds k w" using w that by (auto simp: view_wf_def)
  ultimately show ?thesis
    using s unfolding w' by (auto simp: same_view_def new_fd_def open_cases(3-5)[OF k])
qed

lemma read_versions_view:
  assumes k: "kernel_ok major os k" and w: "view_wf k w" and r: "read_versions os fd ctx w = Some (ctx', w')"
  shows "same_view k w w'"
proof -
  obtain e vs y w1 where c: "check_version os fd w = (e, vs, y, w1)" by (metis prod_cases4)
  obtain v w2 where p: "read_proc_version os w1 = (v, w2)" by force
  have s: "same_view k w w1" by (rule quiet_cases(3)[OF k c])
  then have "view_wf k w1" using w by (simp add: view_wf_def same_view_def)
  from read_proc_version_view[OF k this p] have "same_view k w w2" using s by (rule same_view_trans[rotated])
  moreover have "w' \<in> {w1, w2}"
    using r unfolding read_versions_def nv_get_versions_def Let_def c p prod.case
    by (auto simp: bind_Some_iff split: if_splits)
  ultimately show ?thesis using s by auto
qed

lemma device_info_view:
  assumes k: "kernel_ok major os k" and r: "get_device_info os fd ctx w = (ret, ctx', w')"
  shows "same_view k w w'" "driverMajorVersion ctx' = driverMajorVersion ctx" "(\<forall>l v. fst (get_dev_info os l fd v) = 0) \<longrightarrow> ret"
proof -
  obtain e i w1 where c: "get_dev_info os (info_layout ctx) fd w = (e, i, w1)" by (metis prod_cases3)
  have "w' = w1 \<and> driverMajorVersion ctx' = driverMajorVersion ctx \<and> (ret \<longleftrightarrow> e = 0)"
    using r unfolding get_device_info_def Let_def c prod.case by (auto split: if_splits)
  moreover have "e = 0" if "\<forall>l v. fst (get_dev_info os l fd v) = 0" using that[rule_format, of "info_layout ctx" w] c by simp
  ultimately show "same_view k w w'" "driverMajorVersion ctx' = driverMajorVersion ctx" "(\<forall>l v. fst (get_dev_info os l fd v) = 0) \<longrightarrow> ret"
    using quiet_cases(5)[OF k c] by auto
qed

text \<open>What the objects of a client add: nothing but objects made through its descriptor.\<close>

definition adds_objects :: "('w, 'y) kernel_view_scheme \<Rightarrow> int \<Rightarrow> 'w \<Rightarrow> 'w \<Rightarrow> bool" where
  "adds_objects k fd w w' \<longleftrightarrow> fds k w' = fds k w \<and> gems k w' = gems k w \<and> objs k w \<subseteq> objs k w' \<and> (\<forall>x \<in> objs k w' - objs k w. fst x = fd)"

lemma adds_objects_trans: "adds_objects k fd w w' \<Longrightarrow> adds_objects k fd w' w'' \<Longrightarrow> adds_objects k fd w w''"
  by (auto simp: adds_objects_def)

lemma adds_objects_simple:
  "same_view k w w' \<Longrightarrow> adds_objects k fd w w'"
  "fds k w' = fds k w \<Longrightarrow> gems k w' = gems k w \<Longrightarrow> objs k w' = insert (fd, p, h) (objs k w) \<Longrightarrow> adds_objects k fd w w'"
  by (auto simp: adds_objects_def same_view_def)

lemma alloc_object_adds:
  assumes "kernel_ok major os k" "nv_alloc_object os fd major hr hp hn hc sz ps w = (ret, h, w')"
  shows "adds_objects k fd w w'" "ret \<longrightarrow> (fd, hp, h) \<in> objs k w'"
  using alloc_object_cases[OF assms] adds_objects_simple(1)[of k w w' fd] adds_objects_simple(2)[of k w' w fd hp h]
  by (metis insertI1)+

lemma client_objects_cases:
  assumes k: "kernel_ok (driverMajorVersion ctx) os k" and r: "alloc_client_objects os a b ctx w = (ret, ctx', w')"
  shows "adds_objects k a w w'" "driverMajorVersion ctx' = driverMajorVersion ctx" "ret \<longrightarrow> (a, clientObject ctx', deviceObject ctx') \<in> objs k w'"
proof -
  let ?m = "driverMajorVersion ctx"
  obtain r1 h1 w1 where 1: "nv_alloc_object os a ?m 0 0 (clientObject ctx) NV01_ROOT_CLIENT 0 NO_ALLOC_PARAMETERS w = (r1, h1, w1)" by (metis prod_cases3)
  obtain r2 w2 where 2: "nv_attach_gpus os a (gpu_id ctx) w1 = (r2, w2)" by force
  obtain r3 h3 w3 where 3: "nv_alloc_object os a ?m h1 h1 (deviceObject ctx) NV01_DEVICE_0 56 (NV0080_ALLOC_PARAMETERS h1) w2 = (r3, h3, w3)" by (metis prod_cases3)
  obtain r4 h4 w4 where 4: "nv_alloc_object os a ?m h1 h3 (subdeviceObject ctx) NV20_SUBDEVICE_0 4 NV2080_ALLOC_PARAMETERS w3 = (r4, h4, w4)" by (metis prod_cases3)
  obtain r5 w5 where 5: "nv0_register_fd os b a w4 = (r5, w5)" by force
  have e: "(ret, ctx', w') = (if \<not> r1 then (False, ctx\<lparr>clientObject := h1\<rparr>, w1)
      else if \<not> r2 then (False, ctx\<lparr>clientObject := h1\<rparr>, w2)
      else if \<not> r3 then (False, ctx\<lparr>clientObject := h1, deviceObject := h3\<rparr>, w3)
      else if \<not> r4 then (False, ctx\<lparr>clientObject := h1, deviceObject := h3, subdeviceObject := h4\<rparr>, w4)
      else (r5, ctx\<lparr>clientObject := h1, deviceObject := h3, subdeviceObject := h4\<rparr>, w5))"
    using r unfolding alloc_client_objects_def Let_def by (simp add: 1 2 3 4 5 cong: if_cong)
  note s1 = alloc_object_adds[OF k 1] and s3 = alloc_object_adds[OF k 3] and s4 = alloc_object_adds[OF k 4]
  note s2 = adds_objects_simple(1)[OF attach_cases[OF k 2], where fd = a]
  have "same_view k w4 w5" using 5 quiet_cases(4)[OF k] by (auto simp: nv0_register_fd_def split: prod.splits)
  note s5 = adds_objects_simple(1)[OF this, where fd = a]
  note t2 = adds_objects_trans[OF s1(1) s2] note t3 = adds_objects_trans[OF t2 s3(1)]
  note t4 = adds_objects_trans[OF t3 s4(1)] note t5 = adds_objects_trans[OF t4 s5]
  show "adds_objects k a w w'" using e s1(1) t2 t3 t4 t5 by (auto split: if_splits)
  show "driverMajorVersion ctx' = driverMajorVersion ctx" using e by (auto split: if_splits)
  have "objs k w3 \<subseteq> objs k w5" using adds_objects_trans[OF s4(1) s5] by (simp add: adds_objects_def)
  then show "ret \<longrightarrow> (a, clientObject ctx', deviceObject ctx') \<in> objs k w'" using e s3(2) by (auto split: if_splits)
qed

text \<open>Closing both devices gives back what was there before they were opened.\<close>

lemma close_devices_view:
  assumes k: "kernel_ok major os k" and w: "view_wf k w"
    and v: "a \<notin> fds k w" "b \<notin> fds k w" "fds k v = insert a (insert b (fds k w))" "gems k v = gems k w"
      "objs k w \<subseteq> objs k v" "\<forall>x \<in> objs k v - objs k w. fst x = a" "a \<noteq> - 1" "b \<noteq> - 1"
  shows "same_view k w (close_devices os a b v)"
proof -
  have "\<forall>x \<in> objs k w. fst x \<noteq> a \<and> fst x \<noteq> b" using w v(1,2) by (auto simp: view_wf_def)
  then have "{x \<in> objs k v. fst x \<noteq> a \<and> fst x \<noteq> b} = objs k w" using v(5,6) by auto
  moreover have "insert a (insert b (fds k w)) - {a} - {b} = fds k w" using v(1,2) by auto
  ultimately show ?thesis
    using v(3,4,7,8) by (simp add: close_devices_def same_view_def open_cases(3-5)[OF k])
qed

lemma init_nvdriver_cases:
  assumes r: "init_nvdriver os ctx drmFd w = Some (ok, ctx', w')" and k: "kernel_ok (driverMajorVersion ctx') os k" and w: "view_wf k w"
  shows "\<not> ok \<and> same_view k w w' \<or>
    (\<exists>a b. 0 < a \<and> 0 < b \<and> a \<noteq> b \<and> a \<notin> fds k w \<and> b \<notin> fds k w \<and> fds k w' = insert a (insert b (fds k w)) \<and> gems k w' = gems k w \<and>
       objs k w \<subseteq> objs k w' \<and> (\<forall>x \<in> objs k w' - objs k w. fst x = a) \<and>
       (if ok then nvctlFd ctx' = a \<and> nv0Fd ctx' = b \<and> ctx_drmFd ctx' = drmFd \<and> (a, clientObject ctx', deviceObject ctx') \<in> objs k w'
        else \<exists>l v. fst (get_dev_info os l drmFd v) \<noteq> 0))"
proof -
  obtain a w1 where 1: "os_open os ''/dev/nvidiactl'' w = (a, w1)" by force
  obtain b w2 where 2: "os_open os ''/dev/nvidia0'' w1 = (b, w2)" by force
  have o1: "a = - 1 \<and> same_view k w w1 \<or> 0 < a \<and> new_fd k a w w1"
    using open_cases(1)[OF k 1] w by (auto simp: new_fd_def view_wf_def less_le)
  then have w1: "view_wf k w1" using w by (auto simp: view_wf_def same_view_def new_fd_def)
  have o2: "b = - 1 \<and> same_view k w1 w2 \<or> 0 < b \<and> new_fd k b w1 w2"
    using open_cases(1)[OF k 2] w1 by (auto simp: new_fd_def view_wf_def less_le)
  show ?thesis
  proof (cases "a = - 1")
    case True
    then show ?thesis using r o1 by (simp add: init_nvdriver_def 1 close_devices_def)
  next
    case a: False
    show ?thesis
    proof (cases "b = - 1")
      case True
      have "\<forall>x \<in> objs k w. fst x \<noteq> a" using w o1 a by (auto simp: view_wf_def new_fd_def)
      then have "same_view k w (os_close os a w2)"
        using o1 o2 a True by (auto simp: same_view_def new_fd_def open_cases(3-5)[OF k])
      then show ?thesis using r a True by (simp add: init_nvdriver_def 1 2 close_devices_def)
    next
      case b: False
      have n: "0 < a" "0 < b" "a \<noteq> b" "a \<notin> fds k w" "b \<notin> fds k w" "fds k w2 = insert a (insert b (fds k w))"
          "objs k w2 = objs k w" "gems k w2 = gems k w"
        using o1 o2 a b by (auto simp: new_fd_def)
      then have w2: "view_wf k w2" using w by (auto simp: view_wf_def)
      obtain c3 w3 where 3: "read_versions os a ctx w2 = Some (c3, w3)"
        using r a b by (auto simp: init_nvdriver_def 1 2 bind_Some_iff)
      obtain r4 c4 w4 where 4: "get_device_info os drmFd c3 w3 = (r4, c4, w4)" by (metis prod_cases3)
      obtain r5 c5 w5 where 5: "alloc_client_objects os a b c4 w4 = (r5, c5, w5)" by (metis prod_cases3)
      have e: "(ok, ctx', w') = (if \<not> r4 then (False, c4, w4) else if \<not> r5 then (False, c5, close_devices os a b w5)
          else (True, c5\<lparr>ctx_drmFd := drmFd, nvctlFd := a, nv0Fd := b\<rparr>, w5))"
        using r a b by (simp add: init_nvdriver_def 1 2 3 4 5 Let_def split: if_splits)
      have s: "same_view k w2 w4" using read_versions_view[OF k w2 3] device_info_view(1)[OF k 4] by (rule same_view_trans)
      show ?thesis
      proof (cases r4)
        case False
        then have "\<exists>l v. fst (get_dev_info os l drmFd v) \<noteq> 0" using device_info_view(3)[OF k 4] by auto
        then show ?thesis using e False n s by (auto simp: same_view_def)
      next
        case True
        define fail where "fail = (\<not> r5)"
        have m: "driverMajorVersion ctx' = driverMajorVersion c5" using e True by (auto split: if_splits)
        have "driverMajorVersion c5 = driverMajorVersion c4"
          using 5 unfolding alloc_client_objects_def Let_def by (auto split: prod.splits if_splits)
        then have k4: "kernel_ok (driverMajorVersion c4) os k" using k m by simp
        note c = client_objects_cases[OF k4 5]
        have v: "fds k w5 = insert a (insert b (fds k w))" "gems k w5 = gems k w" "objs k w \<subseteq> objs k w5"
            "\<forall>x \<in> objs k w5 - objs k w. fst x = a"
          using c(1) s n by (auto simp: adds_objects_def same_view_def)
        have "same_view k w (close_devices os a b w5)"
          using close_devices_view[OF k w n(4,5) v] a b by simp
        then show ?thesis using e True n v c(3) by (cases r5) auto
      qed
    qed
  qed
qed

text \<open>Freeing an object, whether it fails or not, touches only objects made through the same descriptor.\<close>

definition drops_objects :: "('w, 'y) kernel_view_scheme \<Rightarrow> int \<Rightarrow> 'w \<Rightarrow> 'w \<Rightarrow> bool" where
  "drops_objects k fd w w' \<longleftrightarrow> fds k w' = fds k w \<and> gems k w' = gems k w \<and> objs k w' \<subseteq> objs k w \<and> {x \<in> objs k w. fst x \<noteq> fd} \<subseteq> objs k w'"

lemma drops_objects_trans: "drops_objects k fd w w' \<Longrightarrow> drops_objects k fd w' w'' \<Longrightarrow> drops_objects k fd w w''"
  by (auto simp: drops_objects_def)

lemma free_object_drops:
  assumes k: "kernel_ok major os k" and n: "nv_free_object os fd hr h w = (ret, w')"
  shows "drops_objects k fd w w'"
proof (cases "h = 0")
  case True
  then show ?thesis using n by (simp add: nv_free_object_def drops_objects_def)
next
  case False
  define a where "a = \<lparr>os00_hRoot = hr, os00_hObjectParent = 0, os00_hObjectOld = h, os00_status = 0\<rparr>"
  obtain r a' w1 where r: "rm_free os fd a w = (r, a', w1)" by (metis prod_cases3)
  have e: "w' = w1" using False n unfolding nv_free_object_def a_def[symmetric] Let_def r by simp
  have "free_law os k" using k by (simp add: kernel_ok_def)
  from this[unfolded free_law_def, rule_format, OF r] show ?thesis
    unfolding e by (auto simp: drops_objects_def same_view_def split: if_splits)
qed

lemma free_nvdriver_view:
  assumes k: "kernel_ok major os k" and p: "0 < nvctlFd ctx" "0 < ctx_drmFd ctx" "0 < nv0Fd ctx"
    and f: "free_nvdriver os ctx w = (ret, ctx', w')"
  shows "ctx' = zero_driver_context \<and> fds k w' = fds k w - {nvctlFd ctx, ctx_drmFd ctx, nv0Fd ctx} \<and> gems k w' = gems k w \<and>
    objs k w' = {x \<in> objs k w. fst x \<notin> {nvctlFd ctx, ctx_drmFd ctx, nv0Fd ctx}}"
proof -
  obtain r1 w1 where 1: "nv_free_object os (nvctlFd ctx) (clientObject ctx) (subdeviceObject ctx) w = (r1, w1)" by force
  obtain r2 w2 where 2: "nv_free_object os (nvctlFd ctx) (clientObject ctx) (deviceObject ctx) w1 = (r2, w2)" by force
  obtain r3 w3 where 3: "nv_free_object os (nvctlFd ctx) (clientObject ctx) (clientObject ctx) w2 = (r3, w3)" by force
  have d: "drops_objects k (nvctlFd ctx) w w3"
    using free_object_drops[OF k 1] free_object_drops[OF k 2] free_object_drops[OF k 3] by (blast intro: drops_objects_trans)
  have "ctx' = zero_driver_context \<and> w' = os_close os (nv0Fd ctx) (os_close os (ctx_drmFd ctx) (os_close os (nvctlFd ctx) w3))"
    using f p unfolding free_nvdriver_def Let_def by (simp add: 1 2 3)
  then show ?thesis using d by (auto simp: drops_objects_def open_cases(3-5)[OF k])
qed

text \<open>
  C13: opening and closing the device.  When the display driver answers the query for its device
  information, a failing \<^verbatim>\<open>init_nvdriver\<close> leaves descriptors and kernel objects as they were; a successful
  one yields a usable context, and \<^verbatim>\<open>free_nvdriver\<close> then closes exactly what it opened, and the display
  descriptor it was given, whether or not the single objects can be freed.
\<close>
theorem init_nvdriver_roundtrip:
  assumes r: "init_nvdriver os ctx drmFd w = Some (ok, ctx', w')"
    and k: "kernel_ok (driverMajorVersion ctx') os k" and w: "view_wf k w"
    and i: "\<forall>l v. fst (get_dev_info os l drmFd v) = 0" and drm: "0 < drmFd" "drmFd \<in> fds k w"
  shows "if ok then context_live k ctx' w' \<and> view_wf k w' \<and>
      (let (ret, c, w'') = free_nvdriver os ctx' w' in c = zero_driver_context \<and> fds k w'' = fds k w - {drmFd} \<and>
         gems k w'' = gems k w \<and> objs k w'' = {x \<in> objs k w. fst x \<noteq> drmFd})
    else same_view k w w'"
proof (cases ok)
  case False
  then show ?thesis using init_nvdriver_cases[OF r k w] i by auto
next
  case True
  then obtain a b where n: "0 < a" "0 < b" "a \<notin> fds k w" "b \<notin> fds k w" "fds k w' = insert a (insert b (fds k w))" "gems k w' = gems k w"
      "objs k w \<subseteq> objs k w'" "\<forall>x \<in> objs k w' - objs k w. fst x = a" "nvctlFd ctx' = a" "nv0Fd ctx' = b" "ctx_drmFd ctx' = drmFd"
      "(a, clientObject ctx', deviceObject ctx') \<in> objs k w'"
    using init_nvdriver_cases[OF r k w] by auto
  obtain ret c w'' where f: "free_nvdriver os ctx' w' = (ret, c, w'')" by (metis prod_cases3)
  have wf: "\<forall>x \<in> objs k w. fst x \<in> fds k w" using w by (simp add: view_wf_def)
  have "fds k w' - {a, drmFd, b} = fds k w - {drmFd}" using n(3-5) by auto
  moreover have "{x \<in> objs k w'. fst x \<notin> {a, drmFd, b}} = {x \<in> objs k w. fst x \<noteq> drmFd}"
    using n(3,4,7,8) wf by auto
  moreover have "context_live k ctx' w' \<and> view_wf k w'"
    using n(5,7-9,12) w by (auto simp: context_live_def view_wf_def)
  ultimately show ?thesis
    using True free_nvdriver_view[OF k _ _ _ f] n drm(1) unfolding f by (simp add: f)
qed

text \<open>
  Where the display driver refuses the query, both devices stay open; where the kernel refuses to name its
  version, the driver reads the version number through a NULL pointer.
\<close>

lemma init_nvdriver_info_leak:
  assumes r: "init_nvdriver os ctx drmFd w = Some (ok, ctx', w')" and k: "kernel_ok (driverMajorVersion ctx') os k" and w: "view_wf k w"
    and o: "\<forall>p v. fst (os_open os p v) \<noteq> - 1" and i: "\<forall>l v. fst (get_dev_info os l drmFd v) \<noteq> 0"
  shows "\<not> ok \<and> (\<exists>a b. a \<noteq> b \<and> {a, b} \<inter> fds k w = {} \<and> fds k w' = {a, b} \<union> fds k w)"
proof -
  obtain a w1 where 1: "os_open os ''/dev/nvidiactl'' w = (a, w1)" by force
  obtain b w2 where 2: "os_open os ''/dev/nvidia0'' w1 = (b, w2)" by force
  have ab: "a \<noteq> - 1" "b \<noteq> - 1" using o[rule_format, of _ w] o[rule_format, of _ w1] 1 2 by (metis fst_conv)+
  have n: "new_fd k a w w1" "new_fd k b w1 w2" using open_cases(1)[OF k 1] open_cases(1)[OF k 2] ab by auto
  then have w2: "view_wf k w2" using w by (auto simp: view_wf_def new_fd_def)
  obtain c3 w3 where 3: "read_versions os a ctx w2 = Some (c3, w3)"
    using r ab by (auto simp: init_nvdriver_def 1 2 bind_Some_iff)
  obtain e inf w4 where g: "get_dev_info os (info_layout c3) drmFd w3 = (e, inf, w4)" by (metis prod_cases3)
  then have 4: "get_device_info os drmFd c3 w3 = (False, c3, w4)"
    using i[rule_format, of "info_layout c3" w3] by (simp add: get_device_info_def)
  have "\<not> ok \<and> w' = w4" using r ab by (simp add: init_nvdriver_def 1 2 3 4 Let_def)
  moreover have "same_view k w2 w4"
    using read_versions_view[OF k w2 3] device_info_view(1)[OF k 4] by (rule same_view_trans)
  ultimately show ?thesis
    using n by (intro conjI exI[of _ a] exI[of _ b]) (auto simp: new_fd_def same_view_def)
qed

lemma init_nvdriver_version_stuck:
  assumes "\<forall>p v. fst (os_open os p v) \<noteq> - 1" "\<forall>fd v. fst (check_version os fd v) \<noteq> 0"
  shows "init_nvdriver os ctx drmFd w = None"
proof -
  obtain a w1 where 1: "os_open os ''/dev/nvidiactl'' w = (a, w1)" by force
  obtain b w2 where 2: "os_open os ''/dev/nvidia0'' w1 = (b, w2)" by force
  obtain e s y w3 where 3: "check_version os a w2 = (e, s, y, w3)" by (metis prod_cases4)
  have "a \<noteq> - 1" "b \<noteq> - 1" "e \<noteq> 0"
    using assms(1)[rule_format, of _ w] assms(1)[rule_format, of _ w1] assms(2)[rule_format, of a w2] 1 2 3 by (metis fst_conv)+
  then show ?thesis by (simp add: init_nvdriver_def 1 2 read_versions_def nv_get_versions_def 3)
qed

section \<open>Images\<close>

lemma log2_gobs_le: "log2_gobs_y h \<le> 4"
  by (simp add: log2_gobs_y_def)

lemma unat_gob_rows: "unat (push_bit (log2_gobs_y h) 8 :: u32) = 8 * 2 ^ log2_gobs_y h"
  by (auto simp: log2_gobs_y_def)

text \<open>The dimensions, as natural numbers: the rows are padded to 64 bytes and to whole blocks.\<close>

lemma image_dimensions:
  fixes w h :: u32 and channels bits :: u8
  defines "row \<equiv> unat w * (unat channels * (unat bits div 8))"
  assumes b: "row \<le> 2 ^ 16" "unat h \<le> 2 ^ 15" "unat w \<le> 2 ^ 16"
  shows "unat (ROUND_UP (w * (ucast channels * ucast (bits div 8))) 64 :: u32) = (row + 63) div 64 * 64"
    "unat (ROUND_UP h (push_bit (log2_gobs_y h) 8)) = (unat h + 8 * 2 ^ log2_gobs_y h - 1) div (8 * 2 ^ log2_gobs_y h) * (8 * 2 ^ log2_gobs_y h)"
    "(row + 63) div 64 * 64 \<le> 2 ^ 16" "(unat h + 8 * 2 ^ log2_gobs_y h - 1) div (8 * 2 ^ log2_gobs_y h) * (8 * 2 ^ log2_gobs_y h) < 2 ^ 15 + 128"
proof -
  have bp: "unat (ucast channels * ucast (bits div 8) :: u32) = unat channels * (unat bits div 8)"
  proof -
    have "unat channels < 256" "unat bits < 256" using unsigned_less[of channels] unsigned_less[of bits] by simp_all
    then have "unat channels * (unat bits div 8) \<le> 255 * 31" by (intro mult_mono) auto
    then show ?thesis by (simp add: unat_mult_lem[THEN iffD1] unat_div)
  qed
  have rw: "unat (w * (ucast channels * ucast (bits div 8)) :: u32) = row"
    using b(1) bp by (simp add: row_def unat_mult_lem[THEN iffD1])
  show 1: "unat (ROUND_UP (w * (ucast channels * ucast (bits div 8))) 64 :: u32) = (row + 63) div 64 * 64"
    using b(1) by (simp add: unat_ROUND_UP rw)
  have g: "(8::nat) * 2 ^ log2_gobs_y h \<le> 128" "0 < (8::nat) * 2 ^ log2_gobs_y h"
    using power_increasing[OF log2_gobs_le[of h], of "2::nat"] by auto
  show "unat (ROUND_UP h (push_bit (log2_gobs_y h) 8)) = (unat h + 8 * 2 ^ log2_gobs_y h - 1) div (8 * 2 ^ log2_gobs_y h) * (8 * 2 ^ log2_gobs_y h)"
    using b(2) g by (subst unat_ROUND_UP) (simp_all add: unat_gob_rows)
  have "(row + 63) div 64 \<le> 2 ^ 10" using b(1) by simp
  then show "(row + 63) div 64 * 64 \<le> 2 ^ 16" by simp
  show "(unat h + 8 * 2 ^ log2_gobs_y h - 1) div (8 * 2 ^ log2_gobs_y h) * (8 * 2 ^ log2_gobs_y h) < 2 ^ 15 + 128"
    using nat_round_up_bounds(2)[OF g(2), of "unat h"] b(2) g by linarith
qed

lemma gem_cases:
  assumes "kernel_ok major os k"
  shows "gem_import os fd i w = (r, g, w') \<Longrightarrow> if r \<noteq> 0 then same_view k w w'
         else g \<notin> gems k w \<and> fds k w' = fds k w \<and> objs k w' = objs k w \<and> gems k w' = insert g (gems k w)"
    and "prime_to_fd os fd g w = (r, p, w') \<Longrightarrow> if r \<noteq> 0 then same_view k w w' else new_fd k p w w'"
    and "gem_close os fd g w = (r, w') \<Longrightarrow> if r \<noteq> 0 then same_view k w w'
         else fds k w' = fds k w \<and> objs k w' = objs k w \<and> gems k w' = gems k w - {g}"
  using assms unfolding kernel_ok_def gem_law_def by blast+

text \<open>
  A failed export closes the memory descriptor, but the duplicate it made stays open, and once the import has
  succeeded so does the buffer handle.
\<close>

definition leaks :: "('w, 'y) kernel_view_scheme \<Rightarrow> 'w \<Rightarrow> 'w \<Rightarrow> bool" where
  "leaks k w w' \<longleftrightarrow> objs k w' = objs k w \<and> (\<exists>m. m \<notin> fds k w \<and> fds k w' = insert m (fds k w)) \<and>
     (gems k w' = gems k w \<or> (\<exists>g. g \<notin> gems k w \<and> gems k w' = insert g (gems k w)))"

lemma export_image_cases:
  assumes k: "kernel_ok major os k" and w: "view_wf k w" and m: "0 < memFd" "new_fd k memFd w w1"
    and r: "export_image os ctx pb lg sz memFd w1 = (e, w')"
  shows "case e of None \<Rightarrow> same_view k w w' \<or> leaks k w w'
    | Some (memFd2, primeFd) \<Rightarrow> 0 < memFd2 \<and> 0 < primeFd \<and> distinct [memFd, memFd2, primeFd] \<and> {memFd2, primeFd} \<inter> fds k w = {} \<and>
        fds k w' = {memFd, memFd2, primeFd} \<union> fds k w \<and> objs k w' = objs k w \<and> gems k w' = gems k w"
proof -
  obtain m2 w2 where 2: "os_dup os memFd w1 = (m2, w2)" by force
  define imp where "imp = \<lparr>imp_memFd = m2, imp_pitchInBlocks = pb, imp_log2GobsPerBlockY = of_nat lg,
              imp_mem_size = ROUND_UP sz 65536, imp_params_470 = (driverMajorVersion ctx = 470)\<rparr>"
  obtain r3 g w3 where 3: "gem_import os (ctx_drmFd ctx) imp w2 = (r3, g, w3)" by (metis prod_cases3)
  obtain r4 p w4 where 4: "prime_to_fd os (ctx_drmFd ctx) g w3 = (r4, p, w4)" by (metis prod_cases3)
  obtain r5 w5 where 5: "gem_close os (ctx_drmFd ctx) g w4 = (r5, w5)" by force
  define shut where "shut = os_close os memFd"
  have e: "(e, w') = (if m2 = - 1 then (None, shut w2) else if r3 \<noteq> 0 then (None, shut w3)
      else if r4 \<noteq> 0 then (None, shut w4)
      else if r5 \<noteq> 0 then (None, shut (if p > 0 then os_close os p w5 else w5))
      else (Some (m2, p), w5))"
    using r m(1) unfolding export_image_def Let_def by (simp add: 2 3[unfolded imp_def] 4 5 shut_def cong: if_cong)
  have o: "\<And>fd. fd \<notin> fds k w \<Longrightarrow> {x \<in> objs k w. fst x \<noteq> fd} = objs k w" using w by (auto simp: view_wf_def)
  have mn: "memFd \<notin> fds k w" "fds k w1 = insert memFd (fds k w)" "objs k w1 = objs k w" "gems k w1 = gems k w"
    using m(2) by (auto simp: new_fd_def)
  have z: "0 \<in> fds k w" using w by (simp add: view_wf_def)
  have "m2 = - 1 \<and> same_view k w1 w2 \<or> new_fd k m2 w1 w2" by (rule open_cases(2)[OF k 2])
  then consider (no) "m2 = - 1" "same_view k w1 w2"
    | (yes) "0 < m2" "m2 \<noteq> memFd" "m2 \<notin> fds k w" "fds k w2 = {memFd, m2} \<union> fds k w" "objs k w2 = objs k w" "gems k w2 = gems k w"
    using mn z by (fastforce simp: new_fd_def less_le)
  then show ?thesis
  proof cases
    case no
    then have "same_view k w w'" using e mn o by (auto simp: shut_def same_view_def open_cases(3-5)[OF k])
    then show ?thesis using e no by simp
  next
    case yes
    have leak: "leaks k w (shut v)" if "fds k v = {memFd, m2} \<union> fds k w" "objs k v = objs k w"
        "gems k v = gems k w \<or> g \<notin> gems k w \<and> gems k v = insert g (gems k w)" for v
      using that yes(2,3) mn(1) o by (auto simp: leaks_def shut_def open_cases(3-5)[OF k])
    note c3 = gem_cases(1)[OF k 3] note c4 = gem_cases(2)[OF k 4] note c5 = gem_cases(3)[OF k 5]
    show ?thesis
    proof (cases "r3 = 0 \<and> r4 = 0")
      case False
      then have "leaks k w w' \<and> e = None"
        using e c3 c4 yes leak[of w3] leak[of w4] by (auto simp: same_view_def split: if_splits)
      then show ?thesis by simp
    next
      case True
      then have v4: "0 < p" "p \<notin> {memFd, m2} \<union> fds k w" "fds k w4 = insert p ({memFd, m2} \<union> fds k w)" "objs k w4 = objs k w"
          "g \<notin> gems k w" "gems k w4 = insert g (gems k w)"
        using c3 c4 yes z by (auto simp: new_fd_def less_le)
      show ?thesis
      proof (cases "r5 = 0")
        case True
        then have "e = Some (m2, p)" "w' = w5" using e yes(1) \<open>r3 = 0 \<and> r4 = 0\<close> by auto
        then show ?thesis using c5 True v4 yes mn by (auto simp: insert_commute)
      next
        case False
        define v where "v = os_close os p w5"
        have "leaks k w (shut v)"
          by (rule leak) (use c5 False v4 o in \<open>auto simp: v_def same_view_def open_cases(3-5)[OF k]\<close>)
        moreover have "e = None" "w' = shut v" using e yes(1) False \<open>r3 = 0 \<and> r4 = 0\<close> v4(1) by (auto simp: v_def)
        ultimately show ?thesis by simp
      qed
    qed
  qed
qed

lemma alloc_image_cases:
  fixes w h fourcc :: u32 and channels bits :: u8
  defines "pitch \<equiv> ROUND_UP (w * (ucast channels * ucast (bits div 8))) 64"
  defines "sz \<equiv> pitch * ROUND_UP h (push_bit (log2_gobs_y h) 8)"
  assumes k: "kernel_ok (driverMajorVersion ctx) os k" "release_ok os" and v: "view_wf k s" "context_live k ctx s"
    and r: "alloc_image os ctx w h channels bits fourcc im s = (ok, im', s')"
  shows "if ok then img_width im' = w \<and> img_height im' = h \<and> img_pitch im' = pitch \<and> memorySize im' = ROUND_UP sz 65536 \<and>
      0 < nvFd im' \<and> 0 < nvFd2 im' \<and> 0 < img_drmFd im' \<and> distinct [nvFd im', nvFd2 im', img_drmFd im'] \<and>
      {nvFd im', nvFd2 im', img_drmFd im'} \<inter> fds k s = {} \<and> fds k s' = {nvFd im', nvFd2 im', img_drmFd im'} \<union> fds k s \<and>
      objs k s' = objs k s \<and> gems k s' = gems k s
    else im' = im \<and> (same_view k s s' \<or> leaks k s s')"
proof -
  obtain mo s1 where 1: "alloc_memory os ctx sz s = (mo, s1)" by force
  note m = alloc_memory_resources[OF k v, of sz, unfolded 1 prod.case]
  note u = 1[unfolded sz_def pitch_def]
  show ?thesis
  proof (cases mo)
    case None
    then show ?thesis using r m unfolding alloc_image_def Let_def by (simp add: u)
  next
    case (Some memFd)
    obtain e s2 where 2: "export_image os ctx (pitch div 64) (log2_gobs_y h) sz memFd s1 = (e, s2)" by force
    have n: "0 < memFd" "new_fd k memFd s s1" using m Some by auto
    note c = export_image_cases[OF k(1) v(1) n 2]
    note u2 = 2[unfolded sz_def pitch_def]
    show ?thesis
    proof (cases e)
      case None
      then show ?thesis using r c unfolding alloc_image_def Let_def by (simp add: u Some u2)
    next
      case (Some q)
      obtain m2 p where q: "q = (m2, p)" by force
      have "ok" "s' = s2" "img_width im' = w" "img_height im' = h" "img_pitch im' = pitch" "memorySize im' = ROUND_UP sz 65536"
          "nvFd im' = memFd" "nvFd2 im' = m2" "img_drmFd im' = p"
        using r unfolding alloc_image_def Let_def
        by (auto simp: u \<open>mo = Some memFd\<close> u2 Some q sz_def pitch_def)
      then show ?thesis using c n unfolding Some q by (auto simp: new_fd_def)
    qed
  qed
qed

text \<open>
  C39: the image behind a surface plane.  For rows of at most \<open>2 ^ 16\<close> bytes and at most \<open>2 ^ 15\<close> rows no size
  wraps around: the pitch is the row rounded up to 64 bytes, the rows are rounded up to whole blocks of 8 to 128
  rows, and the memory is whole pages of 64 KiB that hold all of them.
\<close>
theorem alloc_image_layout:
  fixes w h fourcc :: u32 and channels bits :: u8
  defines "row \<equiv> unat w * (unat channels * (unat bits div 8))"
  defines "blk \<equiv> 8 * 2 ^ log2_gobs_y h"
  assumes b: "row \<le> 2 ^ 16" "unat h \<le> 2 ^ 15" "unat w \<le> 2 ^ 16"
    and k: "kernel_ok (driverMajorVersion ctx) os k" "release_ok os" and v: "view_wf k s" "context_live k ctx s"
    and r: "alloc_image os ctx w h channels bits fourcc im s = (True, im', s')"
  shows "\<exists>rows. blk dvd rows \<and> unat h \<le> rows \<and> rows < unat h + blk \<and>
    64 dvd unat (img_pitch im') \<and> row \<le> unat (img_pitch im') \<and> unat (img_pitch im') < row + 64 \<and>
    65536 dvd unat (memorySize im') \<and> unat (img_pitch im') * rows \<le> unat (memorySize im') \<and>
    unat (memorySize im') < unat (img_pitch im') * rows + 65536"
proof -
  define rows where "rows = (unat h + blk - 1) div blk * blk"
  note c = alloc_image_cases[OF k v r, simplified]
  note d = image_dimensions[of w channels bits h, folded row_def blk_def, OF b, folded rows_def]
  have p: "unat (img_pitch im') = (row + 63) div 64 * 64" using c d(1) by simp
  have bpos: "0 < blk" by (simp add: blk_def)
  note rb = nat_round_up_bounds[OF bpos, of "unat h", folded rows_def]
  note pb = nat_round_up_bounds[of 64 row]
  have "unat (img_pitch im') * rows \<le> 2 ^ 16 * (2 ^ 15 + 128)" unfolding p using d(3,4) by (intro mult_mono) auto
  then have le: "unat (img_pitch im') * rows + 65535 < 2 ^ 32" by simp
  have sz: "unat (img_pitch im' * ROUND_UP h (push_bit (log2_gobs_y h) 8)) = unat (img_pitch im') * rows"
    using le d(2) by (simp add: unat_mult_lem[THEN iffD1])
  have mm: "memorySize im' = ROUND_UP (img_pitch im' * ROUND_UP h (push_bit (log2_gobs_y h) 8)) 65536"
    using c by simp
  have m: "unat (memorySize im') = (unat (img_pitch im') * rows + 65535) div 65536 * 65536"
    unfolding mm by (subst unat_ROUND_UP) (use le in \<open>simp_all add: sz\<close>)
  show ?thesis
  proof (intro exI[of _ rows] conjI)
    show "blk dvd rows" by (simp add: rows_def)
    show "unat h \<le> rows" "rows < unat h + blk" using rb bpos by auto
    show "64 dvd unat (img_pitch im')" "65536 dvd unat (memorySize im')" by (simp_all add: p m)
    show "row \<le> unat (img_pitch im')" "unat (img_pitch im') < row + 64" unfolding p using pb by auto
    show "unat (img_pitch im') * rows \<le> unat (memorySize im')" "unat (memorySize im') < unat (img_pitch im') * rows + 65536"
      unfolding m using nat_round_up_bounds[of 65536 "unat (img_pitch im') * rows"] by auto
  qed
qed

text \<open>
  C20: descriptors of an image.  A successful allocation opens exactly three descriptors, the memory, its
  duplicate and the exported buffer, and leaves no kernel object and no buffer handle behind.  A failed one
  leaves the image alone; it gives everything back when there is no memory or no duplicate, but a refused import or
  export leaves the duplicate open for good.
\<close>
theorem alloc_image_descriptors:
  assumes k: "kernel_ok (driverMajorVersion ctx) os k" "release_ok os" and v: "view_wf k s" "context_live k ctx s"
    and r: "alloc_image os ctx w h channels bits fourcc im s = (ok, im', s')"
  shows "if ok then distinct [nvFd im', nvFd2 im', img_drmFd im'] \<and>
      {nvFd im', nvFd2 im', img_drmFd im'} \<inter> fds k s = {} \<and> fds k s' = {nvFd im', nvFd2 im', img_drmFd im'} \<union> fds k s \<and>
      objs k s' = objs k s \<and> gems k s' = gems k s
    else im' = im \<and> (same_view k s s' \<or> leaks k s s')"
  using alloc_image_cases[OF k v r] by (simp split: if_splits)

section \<open>A small kernel\<close>

text \<open>
  A kernel of driver 560 whose calls succeed as long as a handle is left; with \<open>refuse\<close> it does not import
  memory into the display driver.
\<close>

record toy_kernel =
  t_fds :: "int list"
  t_objs :: "(int \<times> u32 \<times> u32) list"
  t_gems :: "u32 list"

definition toy_view :: "toy_kernel kernel_view" where
  "toy_view = \<lparr>fds = \<lambda>w. set (t_fds w), objs = \<lambda>w. set (t_objs w), gems = \<lambda>w. set (t_gems w)\<rparr>"

definition toy_open :: "toy_kernel \<Rightarrow> int \<times> toy_kernel" where
  "toy_open w = (let r = foldr max (t_fds w) 0 + 1 in (r, w\<lparr>t_fds := r # t_fds w\<rparr>))"

definition toy_alloc :: "int \<Rightarrow> NVOS64_PARAMETERS \<Rightarrow> toy_kernel \<Rightarrow> int \<times> NVOS64_PARAMETERS \<times> toy_kernel" where
  "toy_alloc fd a w =
     (let h = of_nat (length (t_objs w) + 1) in
      if h = 0 \<or> list_ex (\<lambda>(f, p, c). f = fd \<and> (p = h \<or> c = h)) (t_objs w) then (0, a\<lparr>os64_status := 0x1a\<rparr>, w)
      else (0, a\<lparr>os64_hObjectNew := h, os64_status := 0\<rparr>, w\<lparr>t_objs := (fd, os64_hObjectParent a, h) # t_objs w\<rparr>))"

definition toy_import :: "bool \<Rightarrow> toy_kernel \<Rightarrow> int \<times> u32 \<times> toy_kernel" where
  "toy_import refuse w =
     (let g = of_nat (length (t_gems w) + 1) in
      if refuse \<or> g \<in> set (t_gems w) then (- 1, 0, w) else (0, g, w\<lparr>t_gems := g # t_gems w\<rparr>))"

definition toy_os :: "bool \<Rightarrow> toy_kernel nv_os" where
  "toy_os refuse = \<lparr>os_open = \<lambda>p. toy_open,
     os_close = \<lambda>fd w. w\<lparr>t_fds := removeAll fd (t_fds w), t_objs := filter (\<lambda>x. fst x \<noteq> fd) (t_objs w)\<rparr>,
     os_dup = \<lambda>fd. toy_open, os_read = \<lambda>fd n w. (None, w),
     rm_alloc = \<lambda>fd n. toy_alloc fd,
     rm_free = \<lambda>fd a w. (0, a\<lparr>os00_status := 0\<rparr>, w\<lparr>t_objs := filter (\<lambda>x. fst x \<noteq> fd \<or> snd (snd x) \<noteq> os00_hObjectOld a) (t_objs w)\<rparr>),
     rm_control = \<lambda>fd a w. (0, a\<lparr>os54_status := 0\<rparr>, w), attach_gpus = \<lambda>fd g w. (0, w),
     check_version = \<lambda>fd w. (0, ''560.31.02'', 1, w), register_fd = \<lambda>fd c w. (0, w),
     get_dev_info = \<lambda>l fd w. (0, \<lparr>di_gpu_id = 1, di_generic_page_kind = 6, di_page_kind_generation = 2, di_sector_layout = 1\<rparr>, w),
     gem_import = \<lambda>fd i. toy_import refuse, prime_to_fd = \<lambda>fd g w. (let (p, w) = toy_open w in (0, p, w)),
     gem_close = \<lambda>fd g w. (0, w\<lparr>t_gems := removeAll g (t_gems w)\<rparr>),
     block_linear_2d = \<lambda>s g k h. 0x300000000606010 OR ucast h\<rparr>"

lemma foldr_max_bound: "x \<in> set xs \<Longrightarrow> x \<le> foldr max xs (0::int)"
  by (induction xs) auto

lemma foldr_max_nonneg: "0 \<le> foldr max xs (0::int)"
  by (induction xs) (auto simp: le_max_iff_disj)

lemma toy_open_new: "toy_open w = (r, w') \<Longrightarrow> new_fd toy_view r w w'"
proof -
  have "0 \<le> foldr max (t_fds w) 0" by (rule foldr_max_nonneg)
  moreover have "foldr max (t_fds w) 0 + 1 \<notin> set (t_fds w)" using foldr_max_bound[of "foldr max (t_fds w) 0 + 1" "t_fds w"] by auto
  ultimately show "toy_open w = (r, w') \<Longrightarrow> new_fd toy_view r w w'"
    by (auto simp: toy_open_def Let_def new_fd_def toy_view_def)
qed

lemma toy_kernel_ok: "kernel_ok 560 (toy_os refuse) toy_view" "release_ok (toy_os refuse)"
proof -
  have 1: "opens_ok (toy_os refuse) toy_view"
    unfolding opens_ok_def by (auto simp: toy_os_def dest: toy_open_new) (auto simp: toy_view_def)
  have 2: "alloc_law 560 (toy_os refuse) toy_view"
    unfolding alloc_law_def
    by (auto simp: toy_os_def toy_alloc_def toy_view_def Let_def nvos64_status_def mentions_def same_view_def list_ex_iff
        split: if_splits)
  have 3: "free_law (toy_os refuse) toy_view"
    unfolding free_law_def by (auto simp: toy_os_def toy_view_def)
  have 4: "quiet_calls (toy_os refuse) toy_view"
    unfolding quiet_calls_def by (simp add: toy_os_def)
  have 5: "gem_law (toy_os refuse) toy_view"
    unfolding gem_law_def
    by (auto simp: toy_os_def toy_import_def same_view_def Let_def dest: toy_open_new split: prod.splits if_splits)
      (auto simp: toy_view_def)
  show "kernel_ok 560 (toy_os refuse) toy_view" using 1 2 3 4 5 by (simp add: kernel_ok_def)
  show "release_ok (toy_os refuse)" by (simp add: release_ok_def toy_os_def)
qed

definition toy0 :: toy_kernel where
  "toy0 = \<lparr>t_fds = [0, 1, 2, 5], t_objs = [], t_gems = []\<rparr>"

definition toy_context :: NVDriverContext where
  "toy_context = \<lparr>nvctlFd = 6, nv0Fd = 7, ctx_drmFd = 5, clientObject = 1, deviceObject = 2, subdeviceObject = 3,
     driverMajorVersion = 560, driverMinorVersion = 31, gpu_id = 1, generic_page_kind = 6,
     page_kind_generation = 2, sector_layout = 1\<rparr>"

definition toy1 :: toy_kernel where
  "toy1 = \<lparr>t_fds = [7, 6, 0, 1, 2, 5], t_objs = [(6, 2, 3), (6, 1, 2), (6, 0, 1)], t_gems = []\<rparr>"

lemma toy_init: "init_nvdriver (toy_os refuse) zero_driver_context 5 toy0 = Some (True, toy_context, toy1)"
  unfolding toy_os_def by code_simp

definition zero_driver_image :: NVDriverImage where
  "zero_driver_image = \<lparr>nvFd = 0, nvFd2 = 0, img_drmFd = 0, img_width = 0, img_height = 0, img_mods = 0, memorySize = 0,
     img_offset = 0, img_pitch = 0, img_fourcc = 0\<rparr>"

lemma toy_alloc_image:
  "fst (alloc_image (toy_os False) toy_context 1920 1080 1 8 0x20203852 zero_driver_image toy1)"
  "\<not> fst (alloc_image (toy_os True) toy_context 1920 1080 1 8 0x20203852 zero_driver_image toy1)"
  unfolding toy_os_def by code_simp+

lemma toy_live: "view_wf toy_view toy0" "view_wf toy_view toy1" "context_live toy_view toy_context toy1"
  by (simp_all add: view_wf_def context_live_def toy_view_def toy0_def toy1_def toy_context_def)

theorem init_nvdriver_roundtrip_witness:
  "let (ret, c, w) = free_nvdriver (toy_os False) toy_context toy1
   in c = zero_driver_context \<and> fds toy_view w = {0, 1, 2} \<and> objs toy_view w = {}"
proof -
  have k: "kernel_ok (driverMajorVersion toy_context) (toy_os False) toy_view"
    using toy_kernel_ok(1) by (simp add: toy_context_def)
  have i: "\<forall>l v. fst (get_dev_info (toy_os False) l 5 v) = 0" by (simp add: toy_os_def)
  have p: "5 \<in> fds toy_view toy0" by (simp add: toy_view_def toy0_def)
  obtain ret c w where f: "free_nvdriver (toy_os False) toy_context toy1 = (ret, c, w)" by (metis prod_cases3)
  have "c = zero_driver_context \<and> fds toy_view w = fds toy_view toy0 - {5} \<and> objs toy_view w = {x \<in> objs toy_view toy0. fst x \<noteq> 5}"
    using init_nvdriver_roundtrip[OF toy_init k toy_live(1) i _ p] by (simp add: f)
  moreover have "fds toy_view toy0 - {5} = {0, 1, 2}" "objs toy_view toy0 = {}" by (auto simp: toy_view_def toy0_def)
  ultimately show ?thesis by (simp add: f)
qed

lemma toy_context_ok: "kernel_ok (driverMajorVersion toy_context) (toy_os refuse) toy_view"
  using toy_kernel_ok(1) by (simp add: toy_context_def)

theorem alloc_image_layout_witness:
  "\<exists>im s rows. alloc_image (toy_os False) toy_context 1920 1080 1 8 0x20203852 zero_driver_image toy1 = (True, im, s) \<and>
     128 dvd rows \<and> 1080 \<le> rows \<and> 1920 \<le> unat (img_pitch im) \<and> unat (img_pitch im) * rows \<le> unat (memorySize im)"
proof -
  obtain im s where r: "alloc_image (toy_os False) toy_context 1920 1080 1 8 0x20203852 zero_driver_image toy1 = (True, im, s)"
    using toy_alloc_image(1) by (metis prod.collapse)
  show ?thesis
    using alloc_image_layout[OF _ _ _ toy_context_ok toy_kernel_ok(2) toy_live(2,3) r] r by (auto simp: log2_gobs_y_def)
qed

theorem alloc_image_descriptors_witness:
  "\<exists>im s. alloc_image (toy_os True) toy_context 1920 1080 1 8 0x20203852 zero_driver_image toy1 = (False, im, s) \<and>
     im = zero_driver_image \<and> (same_view toy_view toy1 s \<or> leaks toy_view toy1 s)"
proof -
  obtain im s where r: "alloc_image (toy_os True) toy_context 1920 1080 1 8 0x20203852 zero_driver_image toy1 = (False, im, s)"
    using toy_alloc_image(2) by (metis prod.collapse)
  show ?thesis using alloc_image_descriptors[OF toy_context_ok toy_kernel_ok(2) toy_live(2,3) r] r by auto
qed

end
