(* ===== verification/Backends.thy ===== *)
theory Backends
  imports Pictures
begin

text \<open>
  What the two backends share, and the interface between the driver and a backend (\<^verbatim>\<open>NVBackend\<close> of
  \<^verbatim>\<open>src/src/vabackend.h\<close>), as far as surfaces and pictures use it: an invariant on the backend's own state, the
  call that takes the backing image from a surface and the call that exports a decoded frame.  What the entry points
  promise is proved once from the laws.
\<close>

section \<open>Shared parts\<close>

text \<open>Reading and replacing the backend's part of the driver.\<close>

abbreviation bk :: "('p, 'b) NVDriver_scheme \<Rightarrow> 'b" where
  "bk \<equiv> NVDriver.more"

definition with_bk :: "'b \<Rightarrow> ('p, 'b) NVDriver_scheme \<Rightarrow> ('p, 'b) NVDriver_scheme" where
  "with_bk b d = NVDriver.extend (NVDriver.truncate d) b"

lemma with_bk_simps [simp]:
  "bk (with_bk b d) = b" "heap (with_bk b d) = heap d" "objects (with_bk b d) = objects d"
  "NVDriver.truncate (with_bk b d) = NVDriver.truncate d" "with_bk b (with_bk c d) = with_bk b d" "with_bk (bk d) d = d"
  "get_surface (with_bk b d) = get_surface d" "put_obj a v (with_bk b d) = with_bk b (put_obj a v d)"
  by (simp_all add: with_bk_def NVDriver.extend_def NVDriver.truncate_def get_surface_def put_obj_def fun_eq_iff)

lemma put_obj_more: "bk (put_obj a v d) = bk d"
  by (simp add: put_obj_def)

record CUDA_MEMCPY2D =
  cp_srcDevice :: nat
  cp_srcY :: u32
  cp_srcPitch :: u32
  cp_dstArray :: addr
  cp_Height :: u32
  cp_WidthInBytes :: u32

text \<open>The codes of pixel formats (the constants of \<^verbatim>\<open>drm_fourcc.h\<close>).\<close>

definition fourcc_code :: "string \<Rightarrow> u32" where
  "fourcc_code s = of_nat (foldr (\<lambda>c acc. of_char c + 256 * acc) s 0)"

definition DRM_FORMAT_R8 :: u32 where "DRM_FORMAT_R8 = fourcc_code ''R8  ''"
definition DRM_FORMAT_RG88 :: u32 where "DRM_FORMAT_RG88 = fourcc_code ''RG88''"
definition DRM_FORMAT_R16 :: u32 where "DRM_FORMAT_R16 = fourcc_code ''R16 ''"
definition DRM_FORMAT_RG1616 :: u32 where "DRM_FORMAT_RG1616 = fourcc_code ''RG32''"

text \<open>Waking the waiters of the surface.\<close>

definition notify_resolved :: "addr \<Rightarrow> ('c, 's, 'z) drv \<Rightarrow> ('c, 's, 'z) drv option" where
  "notify_resolved sa d = do {
     d \<leftarrow> lock_surface sa d;
     s \<leftarrow> get_surface d sa;
     unlock_surface sa (put_obj sa (PSurface (s\<lparr>sf_status := VASurfaceReady, sf_resolving := False\<rparr>)) d)
   }"

lemma notify_resolved_spec:
  assumes "heap d sa = Some (PSurface s)" "\<not> sf_locked s"
  shows "notify_resolved sa d = Some (put_obj sa (PSurface (s\<lparr>sf_status := VASurfaceReady, sf_resolving := False\<rparr>)) d)"
proof -
  have u: "s\<lparr>sf_status := VASurfaceReady, sf_resolving := False, sf_locked := False\<rparr> = s\<lparr>sf_status := VASurfaceReady, sf_resolving := False\<rparr>"
    using assms(2) by (cases s) simp
  have "notify_resolved sa d = Some (put_obj sa (PSurface (s\<lparr>sf_status := VASurfaceReady, sf_resolving := False, sf_locked := False\<rparr>)) d)"
    using assms by (simp add: notify_resolved_def lock_surface_def unlock_surface_def get_iff_heap[symmetric] put_obj_twice)
  then show ?thesis unfolding u .
qed

text \<open>The descriptor of an exported surface: one object and one layer for each plane.\<close>

record prime_object =
  po_fd :: int
  po_size :: u32
  po_modifier :: u64

record prime_layer =
  pl_drm_format :: u32
  pl_num_planes :: u32
  pl_object_index :: nat
  pl_offset :: u32
  pl_pitch :: u32

record VADRMPRIMESurfaceDescriptor =
  pd_fourcc :: u32
  pd_width :: u32
  pd_height :: u32
  pd_num_objects :: nat
  pd_num_layers :: nat
  pd_objects :: "prime_object list"
  pd_layers :: "prime_layer list"

text \<open>
  The checks of a descriptor (\<^verbatim>\<open>src/src/backend-common.c\<close>): its driver by name, and its \<^verbatim>\<open>modeset\<close>
  parameter.  The two queries of the display driver are arguments.
\<close>

definition isNvidiaDrmFd :: "(int \<Rightarrow> 'w \<Rightarrow> int \<times> string \<times> 'w) \<Rightarrow> int \<Rightarrow> 'w \<Rightarrow> bool \<times> 'w" where
  "isNvidiaDrmFd drm_ver fd s =
     (if fd > 0 then let (ret, name, s) = drm_ver fd s in (\<not> (ret \<noteq> 0 \<or> take 10 name \<noteq> ''nvidia-drm''), s)
      else (False, s))"

definition checkModesetParameterFromFd :: "(int \<Rightarrow> 'w \<Rightarrow> int \<times> 'w) \<Rightarrow> int \<Rightarrow> 'w \<Rightarrow> bool \<times> 'w" where
  "checkModesetParameterFromFd get_cap fd s =
     (if fd > 0 then let (ret, s) = get_cap fd s in (ret = 0, s) else (True, s))"

section \<open>The interface\<close>

locale surface_backend =
  fixes I :: "'z \<Rightarrow> bool"
    and detach :: "addr \<Rightarrow> ('c, 's, 'z) drv \<Rightarrow> ('c, 's, 'z) drv option"
  assumes detach_law: "keeps_driver I (detach a)"
begin

lemma destroy_surfaces:
  assumes "surf_inv d" "distinct ids" "\<forall>i \<in> set ids. \<exists>a. view d i = Some (OBJECT_TYPE_SURFACE, a)" "I (NVDriver.more d)"
  shows "\<exists>d'. nvDestroySurfaces detach ids d = Some (VA_STATUS_SUCCESS, d') \<and> surf_inv d' \<and> I (NVDriver.more d') \<and>
     view d' = view d |` (- set ids)"
proof -
  have "\<forall>a. keeps_driver I (detach a)" using detach_law by blast
  from destroy_loop[OF assms(1-3) this assms(4)] show ?thesis by blast
qed

end

locale backend = surface_backend I detach
  for I :: "'z \<Rightarrow> bool" and detach :: "addr \<Rightarrow> ('c, 's, 'z) drv \<Rightarrow> ('c, 's, 'z) drv option" +
  fixes export :: "addr \<Rightarrow> nat \<Rightarrow> u32 \<Rightarrow> ('c, 's, 'z) drv \<Rightarrow> (bool \<times> ('c, 's, 'z) drv) option"
  assumes export_law: "export_ok I export"
begin

lemma picture_resolved:
  assumes "typed d" "view d cxid = Some (OBJECT_TYPE_CONTEXT, ca)" "heap d ca = Some (PContext ctx)" "cx_mode ctx = NV_CONTEXT_DECODE"
    "decoder ctx \<noteq> NULL" "ring_wf ctx" "ring_items ctx = []" "view d sid = Some (OBJECT_TYPE_SURFACE, renderTarget ctx)"
    "heap d (renderTarget ctx) = Some (PSurface s)" "\<not> sf_locked s" "\<forall>w. fst (cuCtxPushCurrent cu w)" "\<forall>w. fst (cuCtxPopCurrent cu w)"
    "I (NVDriver.more d)" "maps_frames cu"
  shows "\<exists>st d1 w1 d2 w2 s2. nvEndPicture cu seg_size d cxid w = Some (st, d1, w1) \<and>
    resolve_frame cu export ca d1 w1 = Some (d2, w2) \<and> heap d2 (renderTarget ctx) = Some (PSurface s2) \<and> \<not> sf_resolving s2 \<and>
    (st \<noteq> VA_STATUS_SUCCESS \<longrightarrow> decodeFailed s2) \<and> nvSyncSurface d2 sid = Some (VA_STATUS_SUCCESS, d2)"
  by (rule end_then_resolve[OF assms(1-12) export_law assms(13,14)])

end

end
