(* ===== verification/DirectBackend.thy ===== *)
theory DirectBackend
  imports NvDriver Backends
begin

text \<open>
  The direct backend (\<^verbatim>\<open>src/src/direct/direct-export-buf.c\<close>, \<^verbatim>\<open>src/src/backend-common.c\<close>): it gives a surface
  a backing image in device memory that CUDA writes and other processes can import.  The backend's own
  state, with the state of the kernel and of CUDA as its last field, is the extension of the driver's
  record; the surfaces stay in the driver's store, their \<^verbatim>\<open>backingImage\<close> pointers are a map.
\<close>

section \<open>State and interface\<close>

record BackingImage =
  bi_surface :: addr
  bi_arrays :: "addr list"
  bi_width :: u32
  bi_height :: u32
  bi_fds :: "int list"
  bi_offsets :: "u32 list"
  bi_strides :: "u32 list"
  bi_mods :: "u64 list"
  bi_sizes :: "u32 list"
  bi_extMem :: "addr list"
  bi_mipmaps :: "addr list"
  bi_format :: NVFormat

record 'w DirectState =
  backingImage :: "addr \<Rightarrow> addr"
  backings :: "addr \<rightharpoonup> BackingImage"
  nextBacking :: addr
  backingList :: "addr Array"
  driverContext :: NVDriverContext
  cudaGpuId :: int
  drmFd :: int
  world :: 'w

record 'w direct_api = "'w nv_os" +
  cuImportExternalMemory :: "int \<Rightarrow> u32 \<Rightarrow> 'w \<Rightarrow> addr option \<times> 'w"
  cuExternalMemoryGetMappedMipmappedArray :: "addr \<Rightarrow> u32 \<Rightarrow> u32 \<Rightarrow> bool \<Rightarrow> u32 \<Rightarrow> 'w \<Rightarrow> addr option \<times> 'w"
  cuMipmappedArrayGetLevel :: "addr \<Rightarrow> 'w \<Rightarrow> addr option \<times> 'w"
  cuArrayDestroy :: "addr \<Rightarrow> 'w \<Rightarrow> 'w"
  cuMipmappedArrayDestroy :: "addr \<Rightarrow> 'w \<Rightarrow> 'w"
  cuDestroyExternalMemory :: "addr \<Rightarrow> 'w \<Rightarrow> 'w"
  copy2d :: "bool \<Rightarrow> CUDA_MEMCPY2D \<Rightarrow> 'w \<Rightarrow> bool \<times> 'w"
  cuDeviceGetCount :: "'w \<Rightarrow> nat option \<times> 'w"
  cuDeviceGetUuid :: "nat \<Rightarrow> 'w \<Rightarrow> u8 list option \<times> 'w"
  drm_version :: "int \<Rightarrow> 'w \<Rightarrow> int \<times> string \<times> 'w"
  drm_get_cap :: "int \<Rightarrow> 'w \<Rightarrow> int \<times> 'w"
  calloc_ok :: bool

text \<open>The pixel formats of the planes and of the whole images (\<^verbatim>\<open>formatsInfo\<close>).\<close>

fun plane_fourccs :: "NVFormat \<Rightarrow> u32 list" where
  "plane_fourccs NV_FORMAT_NONE = []"
| "plane_fourccs NV_FORMAT_NV12 = [DRM_FORMAT_R8, DRM_FORMAT_RG88]"
| "plane_fourccs NV_FORMAT_P010 = [DRM_FORMAT_R16, DRM_FORMAT_RG1616]"
| "plane_fourccs NV_FORMAT_P012 = [DRM_FORMAT_R16, DRM_FORMAT_RG1616]"
| "plane_fourccs NV_FORMAT_P016 = [DRM_FORMAT_R16, DRM_FORMAT_RG1616]"
| "plane_fourccs NV_FORMAT_444P = [DRM_FORMAT_R8, DRM_FORMAT_R8, DRM_FORMAT_R8]"
| "plane_fourccs NV_FORMAT_Q416 = [DRM_FORMAT_R16, DRM_FORMAT_R16, DRM_FORMAT_R16]"

fun format_fourcc :: "NVFormat \<Rightarrow> u32" where
  "format_fourcc NV_FORMAT_NONE = 0"
| "format_fourcc NV_FORMAT_NV12 = fourcc_code ''NV12''"
| "format_fourcc NV_FORMAT_P010 = fourcc_code ''P010''"
| "format_fourcc NV_FORMAT_P012 = fourcc_code ''P012''"
| "format_fourcc NV_FORMAT_P016 = fourcc_code ''P016''"
| "format_fourcc NV_FORMAT_444P = fourcc_code ''YU24''"
| "format_fourcc NV_FORMAT_Q416 = 0"

text \<open>A plane's subsampling, channel count and pixel format; a format has as many planes as codes.\<close>

definition format_planes :: "NVFormat \<Rightarrow> (NVFormatPlane \<times> u32) list" where
  "format_planes f = zip (take (fi_numPlanes (formatsInfo f)) (planes (formatsInfo f))) (plane_fourccs f)"

definition plane_width :: "NVFormatPlane \<Rightarrow> u32 \<Rightarrow> u32" where
  "plane_width p w = drop_bit (ss_x (ss p)) w"

definition plane_height :: "NVFormatPlane \<Rightarrow> u32 \<Rightarrow> u32" where
  "plane_height p h = drop_bit (ss_y (ss p)) h"

section \<open>Allocation\<close>

definition backing_format :: "NVSurface \<Rightarrow> NVFormat" where
  "backing_format s = (case sf_format s of
       cudaVideoSurfaceFormat_P016 \<Rightarrow>
         if sf_bitDepth s = 10 then NV_FORMAT_P010 else if sf_bitDepth s = 12 then NV_FORMAT_P012 else NV_FORMAT_P016
     | cudaVideoSurfaceFormat_YUV444_16Bit \<Rightarrow> NV_FORMAT_Q416
     | cudaVideoSurfaceFormat_YUV444 \<Rightarrow> NV_FORMAT_444P
     | _ \<Rightarrow> NV_FORMAT_NV12)"

text \<open>One image per plane; the loop does not look at what \<^verbatim>\<open>alloc_image\<close> returns.\<close>

fun alloc_planes ::
  "('w, 'x) nv_os_scheme \<Rightarrow> NVDriverContext \<Rightarrow> u32 \<Rightarrow> u32 \<Rightarrow> u32 \<Rightarrow> (NVFormatPlane \<times> u32) list \<Rightarrow> 'w \<Rightarrow> NVDriverImage list \<times> 'w" where
  "alloc_planes os ctx w h bpc [] s = ([], s)"
| "alloc_planes os ctx w h bpc ((p, fourcc) # ps) s =
     (let (ok, im, s) = alloc_image os ctx (plane_width p w) (plane_height p h) (ucast (channelCount p)) (ucast (8 * bpc)) fourcc zero_driver_image s;
          (ims, s) = alloc_planes os ctx w h bpc ps s
      in (im # ims, s))"

text \<open>
  Importing one image: the result, the image, whose descriptors are gone once CUDA has the memory, and the
  handles of the memory, of the mipmap and of its first level.
\<close>

definition import_to_cuda ::
  "('w, 'x) direct_api_scheme \<Rightarrow> NVDriverImage \<Rightarrow> u32 \<Rightarrow> u32 \<Rightarrow> 'w \<Rightarrow> bool \<times> NVDriverImage \<times> (addr \<times> addr \<times> addr) \<times> 'w" where
  "import_to_cuda api im bpc channels s =
     (let (extMem, s) = cuImportExternalMemory api (nvFd im) (memorySize im) s in
      case extMem of
        None \<Rightarrow> (False, im, (NULL, NULL, NULL), s)
      | Some e \<Rightarrow>
        let s = os_close api (nvFd2 im) s;
            im' = im\<lparr>nvFd := 0, nvFd2 := 0\<rparr>;
            (mipmap, s) = cuExternalMemoryGetMappedMipmappedArray api e (img_width im) (img_height im) (bpc = 8) channels s
        in case mipmap of
          None \<Rightarrow> (False, im', (e, NULL, NULL), s)
        | Some m \<Rightarrow>
          let (level, s) = cuMipmappedArrayGetLevel api m s
          in case level of
            None \<Rightarrow> (False, im', (e, m, NULL), s)
          | Some l \<Rightarrow> (True, im', (e, m, l), s))"

fun import_planes ::
  "('w, 'x) direct_api_scheme \<Rightarrow> u32 \<Rightarrow> (NVDriverImage \<times> u32) list \<Rightarrow> 'w \<Rightarrow>
   bool \<times> NVDriverImage list \<times> (addr \<times> addr \<times> addr) list \<times> 'w" where
  "import_planes api bpc [] s = (True, [], [], s)"
| "import_planes api bpc ((im, channels) # xs) s =
     (let (ok, im, h, s) = import_to_cuda api im bpc channels s in
      if \<not> ok then (False, im # map fst xs, [h], s)
      else let (ok, ims, hs, s) = import_planes api bpc xs s in (ok, im # ims, h # hs, s))"

definition close_nonzero :: "('w, 'x) nv_os_scheme \<Rightarrow> int \<Rightarrow> 'w \<Rightarrow> 'w" where
  "close_nonzero os fd s = (if fd \<noteq> 0 then os_close os fd s else s)"

definition close_image :: "('w, 'x) nv_os_scheme \<Rightarrow> NVDriverImage \<Rightarrow> 'w \<Rightarrow> 'w" where
  "close_image os im s = close_nonzero os (img_drmFd im) (close_nonzero os (nvFd2 im) (close_nonzero os (nvFd im) s))"

text \<open>Arrays of a fixed length, the rest of which is zero.\<close>

definition padded :: "nat \<Rightarrow> 'b \<Rightarrow> 'b list \<Rightarrow> 'b list" where
  "padded n z xs = xs @ replicate (n - length xs) z"

definition direct_allocateBackingImage ::
  "('w, 'x) direct_api_scheme \<Rightarrow> NVDriverContext \<Rightarrow> NVSurface \<Rightarrow> 'w \<Rightarrow> BackingImage option \<times> 'w" where
  "direct_allocateBackingImage api ctx sf s =
     (let f = backing_format sf; ps = format_planes f;
          (ims, s) = alloc_planes api ctx (sf_width sf) (sf_height sf) (bppc (formatsInfo f)) ps s;
          (ok, ims, hs, s) = import_planes api (8 * bppc (formatsInfo f)) (zip ims (map (channelCount \<circ> fst) ps)) s
      in if \<not> ok then (None, fold (close_image api) ims s)
         else (Some \<lparr>bi_surface = NULL, bi_arrays = padded 3 NULL (map (snd \<circ> snd) hs),
                 bi_width = sf_width sf, bi_height = sf_height sf,
                 bi_fds = padded 4 0 (map img_drmFd ims), bi_offsets = replicate 4 0,
                 bi_strides = padded 4 0 (map img_pitch ims), bi_mods = padded 4 0 (map img_mods ims),
                 bi_sizes = padded 4 0 (map memorySize ims),
                 bi_extMem = padded 3 NULL (map fst hs), bi_mipmaps = padded 3 NULL (map (fst \<circ> snd) hs),
                 bi_format = f\<rparr>, s))"

section \<open>Destruction, attaching and detaching\<close>

definition destroy_handle :: "('w \<Rightarrow> 'w) \<Rightarrow> addr \<Rightarrow> 'w \<Rightarrow> 'w" where
  "destroy_handle f h s = (if h \<noteq> NULL then f s else s)"

definition destroy_plane :: "('w, 'x) direct_api_scheme \<Rightarrow> addr \<times> addr \<times> addr \<Rightarrow> 'w \<Rightarrow> 'w" where
  "destroy_plane api h s = (case h of (a, m, e) \<Rightarrow>
     destroy_handle (cuDestroyExternalMemory api e) e
       (destroy_handle (cuMipmappedArrayDestroy api m) m
         (destroy_handle (cuArrayDestroy api a) a s)))"

definition destroyBackingImage ::
  "('w, 'x) direct_api_scheme \<Rightarrow> addr \<Rightarrow> 'w DirectState \<Rightarrow> 'w DirectState option" where
  "destroyBackingImage api i st = do {
     img \<leftarrow> backings st i;
     let st = (if bi_surface img \<noteq> NULL then st\<lparr>backingImage := (backingImage st)(bi_surface img := NULL)\<rparr> else st);
     let s = fold (\<lambda>fd s. if fd > 0 then os_close api fd s else s) (bi_fds img) (world st);
     let s = fold (destroy_plane api)
       (take (fi_numPlanes (formatsInfo (bi_format img))) (zip (bi_arrays img) (zip (bi_mipmaps img) (bi_extMem img)))) s;
     Some (st\<lparr>world := s, backings := (backings st)(i := None)\<rparr>)
   }"

definition direct_attachBackingImageToSurface :: "addr \<Rightarrow> addr \<Rightarrow> 'w DirectState \<Rightarrow> 'w DirectState option" where
  "direct_attachBackingImageToSurface sa i st = do {
     img \<leftarrow> backings st i;
     Some (st\<lparr>backingImage := (backingImage st)(sa := i), backings := (backings st)(i \<mapsto> img\<lparr>bi_surface := sa\<rparr>)\<rparr>)
   }"

definition direct_detachBackingImageFromSurface ::
  "('w, 'x) direct_api_scheme \<Rightarrow> addr \<Rightarrow> ('c, 's, 'w DirectState) drv \<Rightarrow> ('c, 's, 'w DirectState) drv option" where
  "direct_detachBackingImageFromSurface api sa d =
     (if backingImage (bk d) sa = NULL then Some d
      else do {
        st \<leftarrow> destroyBackingImage api (backingImage (bk d) sa) (bk d);
        Some (with_bk (st\<lparr>backingImage := (backingImage st)(sa := NULL)\<rparr>) d)
      })"

text \<open>
  The loop over \<^verbatim>\<open>drv->images\<close> from its end: the index is unsigned, so it stops below 0 by wrapping.
\<close>

partial_function (option) destroyAll_loop ::
  "('w, 'x) direct_api_scheme \<Rightarrow> u32 \<Rightarrow> 'w DirectState \<Rightarrow> 'w DirectState option" where
  "destroyAll_loop api idx st =
     (if idx < arr_size (backingList st) then do {
        it \<leftarrow> get_element_at (backingList st) idx;
        i \<leftarrow> it;
        st \<leftarrow> destroyBackingImage api i st;
        arr \<leftarrow> remove_element_at (backingList st) idx;
        destroyAll_loop api (idx - 1) (st\<lparr>backingList := arr\<rparr>)
      }
      else Some st)"

definition direct_destroyAllBackingImage ::
  "('w, 'x) direct_api_scheme \<Rightarrow> 'w DirectState \<Rightarrow> 'w DirectState option" where
  "direct_destroyAllBackingImage api st = destroyAll_loop api (arr_size (backingList st) - 1) st"

section \<open>Filling and exporting\<close>

text \<open>
  The planes of a frame lie below each other in the decoder's buffer; all copies but the last are asynchronous.
  A failed copy is only logged.
\<close>

fun copy_planes ::
  "('w, 'x) direct_api_scheme \<Rightarrow> nat \<Rightarrow> u32 \<Rightarrow> u32 \<Rightarrow> u32 \<Rightarrow> u32 \<Rightarrow> (NVFormatPlane \<times> addr) list \<Rightarrow> u32 \<Rightarrow> 'w \<Rightarrow> 'w" where
  "copy_planes api ptr pitch bytes w h [] y s = s"
| "copy_planes api ptr pitch bytes w h ((p, arr) # ps) y s =
     (let cpy = \<lparr>cp_srcDevice = ptr, cp_srcY = y, cp_srcPitch = pitch, cp_dstArray = arr, cp_Height = plane_height p h,
            cp_WidthInBytes = plane_width p w * bytes * channelCount p\<rparr>;
          (ok, s) = copy2d api (ps \<noteq> []) cpy s
      in copy_planes api ptr pitch bytes w h ps (y + plane_height p h) s)"

definition image_planes :: "BackingImage \<Rightarrow> (NVFormatPlane \<times> addr) list" where
  "image_planes img = zip (take (fi_numPlanes (formatsInfo (bi_format img))) (planes (formatsInfo (bi_format img)))) (bi_arrays img)"

definition copyFrameToSurface ::
  "('w, 'x) direct_api_scheme \<Rightarrow> nat \<Rightarrow> addr \<Rightarrow> u32 \<Rightarrow> ('c, 's, 'w DirectState) drv \<Rightarrow> (bool \<times> ('c, 's, 'w DirectState) drv) option" where
  "copyFrameToSurface api ptr sa pitch d = do {
     img \<leftarrow> backings (bk d) (backingImage (bk d) sa);
     s \<leftarrow> get_surface d sa;
     let wld = copy_planes api ptr pitch (bppc (formatsInfo (bi_format img))) (sf_width s) (sf_height s) (image_planes img) 0 (world (bk d));
     d \<leftarrow> notify_resolved sa (with_bk ((bk d)\<lparr>world := wld\<rparr>) d);
     Some (True, d)
   }"

text \<open>The structure of a new backing image comes from \<^verbatim>\<open>calloc\<close>, whose result is not checked.\<close>

definition realise_backing ::
  "('w, 'x) direct_api_scheme \<Rightarrow> addr \<Rightarrow> NVSurface \<Rightarrow> 'w DirectState \<Rightarrow> (bool \<times> 'w DirectState) option" where
  "realise_backing api sa s st =
     (if backingImage st sa \<noteq> NULL then Some (True, st)
      else do {
        guard (calloc_ok api);
        let (res, wld) = direct_allocateBackingImage api (driverContext st) s (world st);
        let st = st\<lparr>world := wld\<rparr>;
        case res of
          None \<Rightarrow> Some (False, st)
        | Some img \<Rightarrow> do {
            let i = nextBacking st;
            st \<leftarrow> direct_attachBackingImageToSurface sa i (st\<lparr>backings := (backings st)(i \<mapsto> img), nextBacking := Suc i\<rparr>);
            Some (True, st)
          }
      })"

definition direct_realiseSurface ::
  "('w, 'x) direct_api_scheme \<Rightarrow> addr \<Rightarrow> ('c, 's, 'w DirectState) drv \<Rightarrow> (bool \<times> ('c, 's, 'w DirectState) drv) option" where
  "direct_realiseSurface api sa d = do {
     d \<leftarrow> lock_surface sa d;
     s \<leftarrow> get_surface d sa;
     (ok, st) \<leftarrow> realise_backing api sa s (bk d);
     d \<leftarrow> unlock_surface sa (with_bk st d);
     Some (ok, d)
   }"

definition direct_exportCudaPtr ::
  "('w, 'x) direct_api_scheme \<Rightarrow> addr \<Rightarrow> nat \<Rightarrow> u32 \<Rightarrow> ('c, 's, 'w DirectState) drv \<Rightarrow> (bool \<times> ('c, 's, 'w DirectState) drv) option" where
  "direct_exportCudaPtr api sa ptr pitch d = do {
     (ok, d) \<leftarrow> direct_realiseSurface api sa d;
     if \<not> ok then Some (False, d)
     else if ptr \<noteq> 0 then do { (r, d) \<leftarrow> copyFrameToSurface api ptr sa pitch d; Some (True, d) }
     else Some (True, d)
   }"

fun dup_objects :: "('w, 'x) nv_os_scheme \<Rightarrow> (int \<times> u32 \<times> u64) list \<Rightarrow> 'w \<Rightarrow> prime_object list \<times> 'w" where
  "dup_objects os [] s = ([], s)"
| "dup_objects os ((fd, sz, m) # xs) s =
     (let (r, s) = os_dup os fd s; (obs, s) = dup_objects os xs s
      in (\<lparr>po_fd = r, po_size = sz, po_modifier = m\<rparr> # obs, s))"

definition prime_layers :: "BackingImage \<Rightarrow> prime_layer list" where
  "prime_layers img = map (\<lambda>(i, f). \<lparr>pl_drm_format = f, pl_num_planes = 1, pl_object_index = i,
       pl_offset = bi_offsets img ! i, pl_pitch = bi_strides img ! i\<rparr>)
     (enumerate 0 (take (fi_numPlanes (formatsInfo (bi_format img))) (plane_fourccs (bi_format img))))"

definition direct_fillExportDescriptor ::
  "('w, 'x) direct_api_scheme \<Rightarrow> addr \<Rightarrow> ('c, 's, 'w DirectState) drv \<Rightarrow>
   (bool \<times> VADRMPRIMESurfaceDescriptor \<times> ('c, 's, 'w DirectState) drv) option" where
  "direct_fillExportDescriptor api sa d = do {
     img \<leftarrow> backings (bk d) (backingImage (bk d) sa);
     s \<leftarrow> get_surface d sa;
     let n = fi_numPlanes (formatsInfo (bi_format img));
         (obs, wld) = dup_objects api (take n (zip (bi_fds img) (zip (bi_sizes img) (bi_mods img)))) (world (bk d))
     in Some (True, \<lparr>pd_fourcc = format_fourcc (bi_format img), pd_width = sf_width s, pd_height = sf_height s,
          pd_num_objects = n, pd_num_layers = n, pd_objects = obs, pd_layers = prime_layers img\<rparr>, with_bk ((bk d)\<lparr>world := wld\<rparr>) d)
   }"

section \<open>Opening and releasing the exporter\<close>

definition usable_node :: "('w, 'x) direct_api_scheme \<Rightarrow> int \<Rightarrow> 'w \<Rightarrow> bool \<times> 'w" where
  "usable_node api fd s =
     (let (nv, s) = isNvidiaDrmFd (drm_version api) fd s in if nv then checkModesetParameterFromFd (drm_get_cap api) fd s else (False, s))"

fun decimal :: "nat \<Rightarrow> string" where
  "decimal n = (if n < 10 then [char_of (48 + n)] else decimal (n div 10) @ [char_of (48 + n mod 10)])"

definition render_node :: "nat \<Rightarrow> string" where
  "render_node n = take 19 (''/dev/dri/renderD'' @ decimal n)"

text \<open>
  The search for the render node of a GPU, with \<open>left\<close> more nodes after this one: a node that cannot be opened
  ends it, a node of another driver or of another GPU is closed and skipped, and after the last one the loop
  falls through with the descriptor it has just closed.
\<close>

fun search_nodes :: "('w, 'x) direct_api_scheme \<Rightarrow> int \<Rightarrow> nat \<Rightarrow> nat \<Rightarrow> int \<Rightarrow> 'w \<Rightarrow> int option \<times> 'w" where
  "search_nodes api nvdGpu left drmIdx nvIdx s =
     (let (fd, s) = os_open api (render_node drmIdx) s in
      if fd = - 1 then (None, s)
      else
        let (ok, s) = usable_node api fd s in
        if ok \<and> nvIdx = nvdGpu then (Some fd, s)
        else
          let s = os_close api fd s in
          case left of
            0 \<Rightarrow> (Some fd, s)
          | Suc n \<Rightarrow> search_nodes api nvdGpu n (drmIdx + 1) (if ok then nvIdx + 1 else nvIdx) s)"

fun find_gpu :: "('w, 'x) direct_api_scheme \<Rightarrow> u8 list \<Rightarrow> nat \<Rightarrow> nat \<Rightarrow> 'w \<Rightarrow> nat option \<times> 'w" where
  "find_gpu api drmUuid i 0 s = (None, s)"
| "find_gpu api drmUuid i (Suc n) s =
     (let (uuid, s) = cuDeviceGetUuid api i s in
      if uuid = Some drmUuid then (Some i, s) else find_gpu api drmUuid (i + 1) n s)"

text \<open>\<open>stack\<close> is what the uninitialised array of the caller holds.\<close>

definition findGPUIndexFromFd :: "('w, 'x) direct_api_scheme \<Rightarrow> u8 list \<Rightarrow> 'w DirectState \<Rightarrow> 'w DirectState option" where
  "findGPUIndexFromFd api stack st = do {
     (ok, answer, s) \<leftarrow> get_device_uuid api (driverContext st) (world st);
     let drmUuid = (case answer of Some u \<Rightarrow> u | None \<Rightarrow> stack);
         (count, s) = cuDeviceGetCount api s
     in Some (case count of
          None \<Rightarrow> st\<lparr>world := s\<rparr>
        | Some n \<Rightarrow>
          let (found, s) = find_gpu api drmUuid 0 n s
          in st\<lparr>world := s, cudaGpuId := (case found of Some i \<Rightarrow> int i | None \<Rightarrow> 0)\<rparr>)
   }"

text \<open>The descriptor the driver works on: one it found, or a duplicate of the one it was given.\<close>

definition open_drm :: "('w, 'x) direct_api_scheme \<Rightarrow> 'w DirectState \<Rightarrow> bool \<times> 'w DirectState" where
  "open_drm api st =
     (if drmFd st = - 1 then
        let (r, s) = search_nodes api (if cudaGpuId st = - 1 then 0 else cudaGpuId st) 15 128 0 (world st)
        in case r of None \<Rightarrow> (False, st\<lparr>world := s\<rparr>) | Some fd \<Rightarrow> (True, st\<lparr>world := s, drmFd := fd\<rparr>)
      else
        let (ok, s) = usable_node api (drmFd st) (world st)
        in if \<not> ok then (False, st\<lparr>world := s\<rparr>)
           else let (fd, s) = os_dup api (drmFd st) s in (True, st\<lparr>world := s, drmFd := fd\<rparr>))"

definition direct_initExporter ::
  "('w, 'x) direct_api_scheme \<Rightarrow> u8 list \<Rightarrow> ('c, 's, 'w DirectState) drv \<Rightarrow> (bool \<times> ('c, 's, 'w DirectState) drv) option" where
  "direct_initExporter api stack d =
     (let (ok, st) = open_drm api (bk d) in
      if \<not> ok then Some (False, with_bk st d)
      else do {
        (ret, ctx, s) \<leftarrow> init_nvdriver api (driverContext st) (drmFd st) (world st);
        st \<leftarrow> findGPUIndexFromFd api stack (st\<lparr>driverContext := ctx, world := s\<rparr>);
        Some (ret, (with_bk st d)\<lparr>supports16BitSurface := True, supports444Surface := True\<rparr>)
      })"

definition direct_releaseExporter :: "('w, 'x) direct_api_scheme \<Rightarrow> ('c, 's, 'w DirectState) drv \<Rightarrow> ('c, 's, 'w DirectState) drv" where
  "direct_releaseExporter api d =
     (let (r, ctx, s) = free_nvdriver api (driverContext (bk d)) (world (bk d))
      in with_bk ((bk d)\<lparr>driverContext := ctx, world := s\<rparr>) d)"

section \<open>What CUDA promises\<close>

text \<open>
  Importing takes the descriptor over, and refuses 0, which names no memory of the device; the other calls
  leave descriptors and kernel objects alone.
\<close>

definition cuda_ok :: "('w, 'x) direct_api_scheme \<Rightarrow> ('w, 'y) kernel_view_scheme \<Rightarrow> bool" where
  "cuda_ok api k \<longleftrightarrow>
     (\<forall>fd n s s'. cuImportExternalMemory api fd n s = (None, s') \<longrightarrow> same_view k s s') \<and>
     (\<forall>fd n s e s'. cuImportExternalMemory api fd n s = (Some e, s') \<longrightarrow>
        fd \<noteq> 0 \<and> fds k s' = fds k s - {fd} \<and> objs k s' = {x \<in> objs k s. fst x \<noteq> fd} \<and> gems k s' = gems k s) \<and>
     (\<forall>e w h b c s. same_view k s (snd (cuExternalMemoryGetMappedMipmappedArray api e w h b c s))) \<and>
     (\<forall>m s. same_view k s (snd (cuMipmappedArrayGetLevel api m s))) \<and>
     (\<forall>a s. same_view k s (cuArrayDestroy api a s)) \<and> (\<forall>m s. same_view k s (cuMipmappedArrayDestroy api m s)) \<and>
     (\<forall>e s. same_view k s (cuDestroyExternalMemory api e s)) \<and> (\<forall>l c s. same_view k s (snd (copy2d api l c s)))"

lemma cuda_cases:
  assumes "cuda_ok api k"
  shows "cuImportExternalMemory api fd n s = (None, s') \<Longrightarrow> same_view k s s'"
    and "cuImportExternalMemory api fd n s = (Some e, s') \<Longrightarrow>
      fd \<noteq> 0 \<and> fds k s' = fds k s - {fd} \<and> objs k s' = {x \<in> objs k s. fst x \<noteq> fd} \<and> gems k s' = gems k s"
    and "cuExternalMemoryGetMappedMipmappedArray api e w h b c s = (m, s') \<Longrightarrow> same_view k s s'"
    and "cuMipmappedArrayGetLevel api a s = (l, s') \<Longrightarrow> same_view k s s'"
    and "same_view k s (cuArrayDestroy api a s)" "same_view k s (cuMipmappedArrayDestroy api a s)"
    and "same_view k s (cuDestroyExternalMemory api a s)" "same_view k s (snd (copy2d api b1 cp s))"
proof -
  note c = assms[unfolded cuda_ok_def]
  note i1 = c[THEN conjunct1] and i2 = c[THEN conjunct2, THEN conjunct1] and q = c[THEN conjunct2, THEN conjunct2]
  show "cuImportExternalMemory api fd n s = (None, s') \<Longrightarrow> same_view k s s'" by (rule i1[rule_format])
  show "cuImportExternalMemory api fd n s = (Some e, s') \<Longrightarrow>
      fd \<noteq> 0 \<and> fds k s' = fds k s - {fd} \<and> objs k s' = {x \<in> objs k s. fst x \<noteq> fd} \<and> gems k s' = gems k s"
    by (rule i2[rule_format])
  show "same_view k s (cuArrayDestroy api a s)" "same_view k s (cuMipmappedArrayDestroy api a s)"
    "same_view k s (cuDestroyExternalMemory api a s)" "same_view k s (snd (copy2d api b1 cp s))"
    using q by simp_all
  have m: "same_view k s (snd (cuExternalMemoryGetMappedMipmappedArray api e w h b c s))" "same_view k s (snd (cuMipmappedArrayGetLevel api a s))"
    using q by simp_all
  show "cuExternalMemoryGetMappedMipmappedArray api e w h b c s = (m, s') \<Longrightarrow> same_view k s s'" using m(1) by simp
  show "cuMipmappedArrayGetLevel api a s = (l, s') \<Longrightarrow> same_view k s s'" using m(2) by simp
qed

text \<open>A step that closes no other descriptors than those of \<open>T\<close> and makes no kernel object.\<close>

definition touches :: "('w, 'y) kernel_view_scheme \<Rightarrow> int set \<Rightarrow> 'w \<Rightarrow> 'w \<Rightarrow> bool" where
  "touches k T s s' \<longleftrightarrow> fds k s - T \<subseteq> fds k s' \<and> objs k s' \<subseteq> objs k s \<and> {x \<in> objs k s. fst x \<notin> T} \<subseteq> objs k s'"

lemma touches_trans: "touches k T s s' \<Longrightarrow> touches k U s' s'' \<Longrightarrow> touches k (T \<union> U) s s''"
  by (auto simp: touches_def)

lemma touches_mono: "touches k T s s' \<Longrightarrow> T \<subseteq> U \<Longrightarrow> touches k U s s'"
  by (auto simp: touches_def)

lemma same_view_touches: "same_view k s s' \<Longrightarrow> touches k T s s'"
  by (auto simp: touches_def same_view_def)

lemma close_touches: "kernel_ok major os k \<Longrightarrow> touches k {fd} s (os_close os fd s)"
  by (auto simp: touches_def open_cases(3,4))

lemma touches_wf:
  assumes "touches k T s s'" "T \<inter> fds k s = {}" "view_wf k s"
  shows "fds k s \<subseteq> fds k s'" "objs k s' = objs k s" "view_wf k s'"
  using assms by (auto simp: touches_def view_wf_def)

definition image_fds :: "NVDriverImage \<Rightarrow> int list" where
  "image_fds im = [nvFd im, nvFd2 im, img_drmFd im]"

lemma image_fds_zero [simp]: "image_fds zero_driver_image = [0, 0, 0]" "nvFd zero_driver_image = 0"
  by (simp_all add: image_fds_def zero_driver_image_def)

section \<open>Allocating the planes\<close>

text \<open>
  The images of the planes are the zeroed one where the allocation failed; the others have three descriptors of
  their own each.
\<close>

lemma alloc_planes_spec:
  assumes k: "kernel_ok (driverMajorVersion ctx) os k" "release_ok os" and v: "view_wf k s" "context_live k ctx s"
    and r: "alloc_planes os ctx w h bpc ps s = (ims, s')"
  shows "length ims = length ps \<and> objs k s' = objs k s \<and> fds k s \<subseteq> fds k s' \<and> view_wf k s' \<and>
    (\<forall>im \<in> set ims. im = zero_driver_image \<or> (\<forall>fd \<in> set (image_fds im). 0 < fd) \<and> set (image_fds im) \<inter> fds k s = {}) \<and>
    ((\<forall>im \<in> set ims. nvFd im \<noteq> 0) \<longrightarrow> gems k s' = gems k s \<and> distinct (concat (map image_fds ims)) \<and>
       fds k s' = fds k s \<union> set (concat (map image_fds ims)))"
  using v r
proof (induction ps arbitrary: s s' ims)
  case Nil
  then show ?case by auto
next
  case (Cons pf ps)
  obtain p f where pf: "pf = (p, f)" by force
  obtain ok im s1 where a: "alloc_image os ctx (plane_width p w) (plane_height p h) (ucast (channelCount p)) (ucast (8 * bpc)) f
      zero_driver_image s = (ok, im, s1)" by (metis prod_cases3)
  obtain ims1 s2 where b: "alloc_planes os ctx w h bpc ps s1 = (ims1, s2)" by force
  have e: "ims = im # ims1" "s' = s2" using Cons.prems(3) by (simp_all add: pf a b)
  note c = alloc_image_cases[OF k Cons.prems(1,2) a]
  have s1: "fds k s \<subseteq> fds k s1 \<and> objs k s1 = objs k s"
    using c by (auto simp: same_view_def leaks_def split: if_splits)
  then have w1: "view_wf k s1" "context_live k ctx s1" using Cons.prems(1,2) by (auto simp: view_wf_def context_live_def)
  note i = Cons.IH[OF w1 b]
  have im: "im = zero_driver_image \<or> (\<forall>fd \<in> set (image_fds im). 0 < fd) \<and> set (image_fds im) \<inter> fds k s = {}"
    using c by (cases ok) (auto simp: image_fds_def)
  have all: "gems k s2 = gems k s \<and> distinct (concat (map image_fds ims)) \<and> fds k s2 = fds k s \<union> set (concat (map image_fds ims))"
    if g: "\<forall>im \<in> set ims. nvFd im \<noteq> 0"
  proof -
    have ok using g c e(1) by (cases ok) auto
    then have c1: "distinct (image_fds im)" "set (image_fds im) \<inter> fds k s = {}" "fds k s1 = set (image_fds im) \<union> fds k s" "gems k s1 = gems k s"
      using c by (auto simp: image_fds_def)
    have i1: "gems k s2 = gems k s1" "distinct (concat (map image_fds ims1))" "fds k s2 = fds k s1 \<union> set (concat (map image_fds ims1))"
      using i g e(1) by auto
    have "set (image_fds x) \<inter> fds k s1 = {}" if "x \<in> set ims1" for x
      using i that g e(1) by fastforce
    then have "set (image_fds im) \<inter> set (concat (map image_fds ims1)) = {}" using c1(3) by auto
    then show ?thesis using c1 i1 e by auto
  qed
  have ims1: "im = zero_driver_image \<or> (\<forall>fd \<in> set (image_fds im). 0 < fd) \<and> set (image_fds im) \<inter> fds k s = {}" if "im \<in> set ims1" for im
    using i s1 that by blast
  show ?case using i s1 im ims1 all e by auto
qed

section \<open>Importing the planes\<close>

definition taken_fds :: "NVDriverImage \<Rightarrow> int set" where
  "taken_fds im = (if nvFd im = 0 then {} else {nvFd im, nvFd2 im})"

lemma import_to_cuda_cases:
  assumes k: "kernel_ok major api k" and cu: "cuda_ok api k" and r: "import_to_cuda api im bpc ch s = (ok, im', h, s')"
  shows "touches k (taken_fds im) s s' \<and> set (image_fds im') \<subseteq> {0} \<union> set (image_fds im) \<and> (ok \<longrightarrow> nvFd im \<noteq> 0 \<and>
    fds k s' = fds k s - {nvFd im, nvFd2 im} \<and> gems k s' = gems k s \<and> im' = im\<lparr>nvFd := 0, nvFd2 := 0\<rparr>)"
proof -
  obtain e s1 where 1: "cuImportExternalMemory api (nvFd im) (memorySize im) s = (e, s1)" by force
  show ?thesis
  proof (cases e)
    case None
    then show ?thesis using r same_view_touches[OF cuda_cases(1)[OF cu 1[unfolded None]]]
      by (auto simp: import_to_cuda_def 1)
  next
    case (Some x)
    note i = cuda_cases(2)[OF cu 1[unfolded Some]]
    define s2 where "s2 = os_close api (nvFd2 im) s1"
    obtain m s3 where 3: "cuExternalMemoryGetMappedMipmappedArray api x (img_width im) (img_height im) (bpc = 8) ch s2 = (m, s3)" by force
    have s2: "touches k {nvFd im, nvFd2 im} s s2 \<and> fds k s2 = fds k s - {nvFd im, nvFd2 im} \<and> gems k s2 = gems k s"
      using i by (auto simp: s2_def touches_def open_cases(3-5)[OF k])
    have s3: "same_view k s2 s3" by (rule cuda_cases(3)[OF cu 3])
    obtain l s4 where 4: "cuMipmappedArrayGetLevel api (the m) s3 = (l, s4)" by force
    have s4: "same_view k s3 s4" by (rule cuda_cases(4)[OF cu 4])
    have "s' \<in> {s3, s4} \<and> im' = im\<lparr>nvFd := 0, nvFd2 := 0\<rparr>"
      using r 4 by (cases m; cases l) (auto simp: import_to_cuda_def 1 Some s2_def[symmetric] 3 Let_def)
    then show ?thesis using s2 s3 s4 i
      by (auto simp: image_fds_def taken_fds_def same_view_def touches_def)
  qed
qed

lemma import_planes_spec:
  assumes k: "kernel_ok major api k" and cu: "cuda_ok api k" and r: "import_planes api bpc xs s = (ok, ims, hs, s')"
  shows "touches k (\<Union>im \<in> fst ` set xs. taken_fds im) s s' \<and>
    (\<forall>im' \<in> set ims. set (image_fds im') \<subseteq> {0} \<union> (\<Union>im \<in> fst ` set xs. set (image_fds im))) \<and>
    (ok \<longrightarrow> (\<forall>im \<in> fst ` set xs. nvFd im \<noteq> 0) \<and> length hs = length xs \<and> gems k s' = gems k s \<and>
      fds k s' = fds k s - (\<Union>im \<in> fst ` set xs. {nvFd im, nvFd2 im}) \<and> ims = map (\<lambda>(im, c). im\<lparr>nvFd := 0, nvFd2 := 0\<rparr>) xs)"
  using r
proof (induction xs arbitrary: s s' ok ims hs)
  case Nil
  then show ?case by (auto simp: touches_def)
next
  case (Cons x xs)
  obtain im c where x: "x = (im, c)" by force
  obtain ok1 im1 h1 s1 where 1: "import_to_cuda api im bpc c s = (ok1, im1, h1, s1)" by (metis prod_cases4)
  note c1 = import_to_cuda_cases[OF k cu 1]
  show ?case
  proof (cases ok1)
    case False
    then have e: "ok = False" "ims = im1 # map fst xs" "s' = s1" using Cons.prems by (auto simp: x 1)
    have "touches k (\<Union>im \<in> fst ` set (x # xs). taken_fds im) s s'"
      unfolding e(3) by (rule touches_mono[OF c1[THEN conjunct1]]) (auto simp: x)
    then show ?thesis using c1 e by (auto simp: x)
  next
    case True
    obtain ok2 ims2 hs2 s2 where 2: "import_planes api bpc xs s1 = (ok2, ims2, hs2, s2)" by (metis prod_cases4)
    have e: "ok = ok2" "ims = im1 # ims2" "hs = h1 # hs2" "s' = s2" using Cons.prems True by (auto simp: x 1 2)
    note i = Cons.IH[OF 2]
    have "touches k (\<Union>im \<in> fst ` set (x # xs). taken_fds im) s s'"
      unfolding e(4) by (rule touches_mono[OF touches_trans[OF c1[THEN conjunct1] i[THEN conjunct1]]]) (auto simp: x)
    then show ?thesis using i c1 e True by (auto simp: x)
  qed
qed

lemma close_images_touch:
  assumes k: "kernel_ok major os k"
  shows "touches k (\<Union>im \<in> set ims. set (image_fds im) - {0}) s (fold (close_image os) ims s)"
proof (induction ims arbitrary: s)
  case Nil
  then show ?case by (simp add: touches_def)
next
  case (Cons im ims)
  have c: "touches k ({fd} - {0}) s (close_nonzero os fd s)" for fd s
    using close_touches[OF k, of fd s] by (auto simp: close_nonzero_def touches_def)
  have "touches k (set (image_fds im) - {0}) s (close_image os im s)"
    unfolding close_image_def
    by (rule touches_mono[OF touches_trans[OF touches_trans[OF c c] c]]) (auto simp: image_fds_def)
  from touches_trans[OF this Cons.IH] show ?case by simp
qed

text \<open>
  Allocating a backing image: on success the only new descriptors are those of the exported buffers, one for each
  plane; on failure no descriptor that was open is closed, and the kernel's objects stay.
\<close>

lemma allocate_spec:
  assumes k: "kernel_ok (driverMajorVersion ctx) api k" "release_ok api" and cu: "cuda_ok api k"
    and v: "view_wf k s" "context_live k ctx s" and r: "direct_allocateBackingImage api ctx sf s = (res, s')"
  shows "fds k s \<subseteq> fds k s' \<and> objs k s' = objs k s \<and> view_wf k s' \<and>
    (\<forall>img. res = Some img \<longrightarrow> gems k s' = gems k s \<and> bi_surface img = NULL \<and> bi_format img = backing_format sf \<and>
      (\<exists>ps. length ps = length (format_planes (backing_format sf)) \<and> distinct ps \<and> (\<forall>fd \<in> set ps. 0 < fd) \<and>
        set ps \<inter> fds k s = {} \<and> bi_fds img = padded 4 0 ps \<and> fds k s' = fds k s \<union> set ps))"
proof -
  let ?f = "backing_format sf" and ?ps = "format_planes (backing_format sf)"
  obtain ims s1 where 1: "alloc_planes api ctx (sf_width sf) (sf_height sf) (bppc (formatsInfo ?f)) ?ps s = (ims, s1)" by force
  let ?xs = "zip ims (map (channelCount \<circ> fst) ?ps)"
  obtain ok ims2 hs s2 where 2: "import_planes api (8 * bppc (formatsInfo ?f)) ?xs s1 = (ok, ims2, hs, s2)" by (metis prod_cases4)
  note a = alloc_planes_spec[OF k v 1]
  note i = import_planes_spec[OF k(1) cu 2]
  have xs: "map fst ?xs = ims" using a by simp
  then have sx: "fst ` set ?xs = set ims" by (metis set_map)
  show ?thesis
  proof (cases ok)
    case False
    then have e: "res = None" "s' = fold (close_image api) ims2 s2"
      using r by (auto simp: direct_allocateBackingImage_def 1 2 Let_def)
    let ?T = "(\<Union>im \<in> set ims. set (image_fds im)) - {0}"
    have "taken_fds im \<subseteq> ?T" if "im \<in> set ims" for im
      using a that by (fastforce simp: taken_fds_def image_fds_def)
    then have tk: "(\<Union>im \<in> set ims. taken_fds im) \<subseteq> ?T" by (rule UN_least)
    have t1: "touches k ?T s1 s2" by (rule touches_mono[OF i[THEN conjunct1, unfolded sx] tk])
    have fr: "(\<Union>im \<in> set ims2. set (image_fds im) - {0}) \<subseteq> ?T" using i[THEN conjunct2, THEN conjunct1] unfolding sx by blast
    have t2: "touches k ?T s2 s'" unfolding e(2) by (rule touches_mono[OF close_images_touch[OF k(1)] fr])
    have t0: "touches k {} s s1" using a by (simp add: touches_def)
    have t: "touches k ?T s s'" using touches_trans[OF t0 touches_trans[OF t1 t2]] by simp
    have "?T \<inter> fds k s = {}"
    proof -
      have "(set (image_fds im) - {0}) \<inter> fds k s = {}" if "im \<in> set ims" for im using a that by auto
      then show ?thesis by blast
    qed
    from touches_wf[OF t this v(1)] show ?thesis using e(1) by simp
  next
    case True
    define ps where "ps = map img_drmFd ims"
    define N where "N = (\<Union>im \<in> set ims. {nvFd im, nvFd2 im})"
    have nz: "\<forall>im \<in> set ims. nvFd im \<noteq> 0" and s2: "gems k s2 = gems k s1" "ims2 = map (\<lambda>(im, c). im\<lparr>nvFd := 0, nvFd2 := 0\<rparr>) ?xs"
        "fds k s2 = fds k s1 - N"
      using i True unfolding sx N_def by auto
    have pos: "0 < fd" "fd \<notin> fds k s" if "im \<in> set ims" "fd \<in> set (image_fds im)" for im fd
      using a nz that by fastforce+
    have al: "gems k s1 = gems k s" "distinct (concat (map image_fds ims))" "fds k s1 = fds k s \<union> set (concat (map image_fds ims))"
      using a nz by auto
    have "map img_drmFd ims2 = map img_drmFd (map fst ?xs)" unfolding s2(2) by (simp add: case_prod_beta')
    then have dm: "map img_drmFd ims2 = ps" unfolding xs ps_def .
    have dp: "distinct ps \<and> set ps \<inter> N = {}"
      using al(2) unfolding ps_def N_def by (induction ims) (auto simp: image_fds_def)
    have sp: "set (concat (map image_fds ims)) = set ps \<union> N"
      by (auto simp: ps_def N_def image_fds_def)
    have dj: "N \<inter> fds k s = {}" "set ps \<inter> fds k s = {}" "\<forall>fd \<in> set ps. 0 < fd"
    proof -
      have u: "set (concat (map image_fds ims)) = (\<Union>im \<in> set ims. set (image_fds im))" by simp
      have "set (concat (map image_fds ims)) \<inter> fds k s = {}" "\<forall>fd \<in> set (concat (map image_fds ims)). 0 < fd"
        unfolding u using pos by blast+
      then show "N \<inter> fds k s = {}" "set ps \<inter> fds k s = {}" "\<forall>fd \<in> set ps. 0 < fd"
        unfolding sp by blast+
    qed
    have f2: "fds k s2 = fds k s \<union> set ps" unfolding s2(3) al(3) sp using dp dj by blast
    have t1: "touches k N s1 s2"
      using i[THEN conjunct1] unfolding sx by (rule touches_mono) (auto simp: taken_fds_def N_def)
    have o: "objs k s2 = objs k s"
    proof -
      have "objs k s1 = objs k s" "view_wf k s1" using a by simp_all
      moreover have "{x \<in> objs k s1. fst x \<notin> N} = objs k s1"
        using v(1) dj(1) \<open>objs k s1 = objs k s\<close> by (auto simp: view_wf_def)
      ultimately show ?thesis using t1 by (auto simp: touches_def)
    qed
    have w: "view_wf k s2" using v(1) o f2 by (auto simp: view_wf_def)
    have ln: "length ps = length ?ps" using a by (simp add: ps_def)
    have e: "s' = s2" "\<And>img. res = Some img \<Longrightarrow> bi_surface img = NULL \<and> bi_format img = ?f \<and> bi_fds img = padded 4 0 ps"
      using r True dm by (auto simp: direct_allocateBackingImage_def 1 2 Let_def)
    show ?thesis using e f2 o w s2(1) al(1) dp dj ln by (intro conjI allI impI exI[of _ ps]) auto
  qed
qed


section \<open>Surfaces and their images\<close>

text \<open>
  Each image belongs to one surface and each surface points to its own image; the descriptors of different
  images are different, open, and not the one the client objects live in.
\<close>

definition open_fds :: "BackingImage \<Rightarrow> int set" where
  "open_fds img = {fd \<in> set (bi_fds img). 0 < fd}"

definition backing_inv :: "('w, 'y) kernel_view_scheme \<Rightarrow> 'w DirectState \<Rightarrow> bool" where
  "backing_inv k st \<longleftrightarrow> view_wf k (world st) \<and> context_live k (driverContext st) (world st) \<and>
     0 < nextBacking st \<and> (\<forall>i \<in> dom (backings st). 0 < i \<and> i < nextBacking st) \<and>
     (\<forall>sa i. i \<noteq> NULL \<longrightarrow> (backingImage st sa = i \<longleftrightarrow> (\<exists>img. backings st i = Some img \<and> bi_surface img = sa))) \<and>
     (\<forall>i img. backings st i = Some img \<longrightarrow> open_fds img \<subseteq> fds k (world st) - {nvctlFd (driverContext st)}) \<and>
     (\<forall>i j img img'. backings st i = Some img \<longrightarrow> backings st j = Some img' \<longrightarrow> i \<noteq> j \<longrightarrow> open_fds img \<inter> open_fds img' = {})"

text \<open>The laws a backend needs, for the driver version of the context, which does not change.\<close>

definition backend_ok :: "('w, 'x) direct_api_scheme \<Rightarrow> ('w, 'y) kernel_view_scheme \<Rightarrow> 'w DirectState \<Rightarrow> bool" where
  "backend_ok api k st \<longleftrightarrow> kernel_ok (driverMajorVersion (driverContext st)) api k \<and> release_ok api \<and> cuda_ok api k \<and>
     calloc_ok api \<and> backing_inv k st"

lemma same_view_wf:
  assumes "same_view k s s'"
  shows "view_wf k s' = view_wf k s" "context_live k ctx s' = context_live k ctx s"
  using assms by (auto simp: same_view_def view_wf_def context_live_def)

lemma backing_inv_world:
  assumes "backing_inv k st" "same_view k (world st) w"
  shows "backing_inv k (st\<lparr>world := w\<rparr>)"
  using assms(1) same_view_wf[OF assms(2)] assms(2) by (simp add: backing_inv_def same_view_def)

text \<open>Releasing the descriptors and the CUDA handles of an image.\<close>

lemma close_positive:
  assumes k: "kernel_ok major os k"
  shows "fds k (fold (\<lambda>fd s. if fd > 0 then os_close os fd s else s) xs s) = fds k s - {fd \<in> set xs. 0 < fd} \<and>
    objs k (fold (\<lambda>fd s. if fd > 0 then os_close os fd s else s) xs s) = {x \<in> objs k s. fst x \<notin> {fd \<in> set xs. 0 < fd}} \<and>
    gems k (fold (\<lambda>fd s. if fd > 0 then os_close os fd s else s) xs s) = gems k s"
  by (induction xs arbitrary: s) (auto simp: open_cases(3-5)[OF k])

lemma destroy_plane_view:
  assumes cu: "cuda_ok api k"
  shows "same_view k s (destroy_plane api h s)"
proof -
  obtain a m e where h: "h = (a, m, e)" by (metis prod_cases3)
  have d: "same_view k s (destroy_handle f x s)" if "\<And>s. same_view k s (f s)" for f x s
    using that by (simp add: destroy_handle_def)
  show ?thesis unfolding destroy_plane_def h prod.case
    by (rule same_view_trans[OF same_view_trans[OF d[OF cuda_cases(5)[OF cu]] d[OF cuda_cases(6)[OF cu]]] d[OF cuda_cases(7)[OF cu]]])
qed

lemma destroy_planes_view:
  assumes cu: "cuda_ok api k"
  shows "same_view k s (fold (destroy_plane api) hs s)"
  by (induction hs arbitrary: s) (auto intro: same_view_trans[OF destroy_plane_view[OF cu]])

text \<open>Detaching: the image of the surface is gone and exactly its descriptors are closed.\<close>

definition detached :: "('w, 'y) kernel_view_scheme \<Rightarrow> addr \<Rightarrow> 'w DirectState \<Rightarrow> 'w DirectState \<Rightarrow> bool" where
  "detached k sa st st' \<longleftrightarrow> backingImage st' = (backingImage st)(sa := NULL) \<and> driverContext st' = driverContext st \<and>
     backings st' = (backings st)(backingImage st sa := None) \<and>
     fds k (world st') = fds k (world st) - (case backings st (backingImage st sa) of Some img \<Rightarrow> open_fds img | None \<Rightarrow> {}) \<and>
     objs k (world st') = {x \<in> objs k (world st). fst x \<in> fds k (world st')} \<and> gems k (world st') = gems k (world st)"

lemma direct_detach_spec:
  assumes ok: "backend_ok api k (bk d)"
  shows "\<exists>st. direct_detachBackingImageFromSurface api sa d = Some (with_bk st d) \<and> backend_ok api k st \<and> detached k sa (bk d) st"
proof (cases "backingImage (bk d) sa = NULL")
  case True
  let ?st = "bk d"
  have i: "backing_inv k ?st" using ok by (simp add: backend_ok_def)
  then have "backings ?st NULL = None" "\<forall>x \<in> objs k (world ?st). fst x \<in> fds k (world ?st)"
    by (auto simp: backing_inv_def view_wf_def)
  then have "detached k sa ?st ?st" using True by (auto simp: detached_def fun_upd_idem)
  then show ?thesis using ok True
    by (intro exI[of _ ?st]) (simp add: direct_detachBackingImageFromSurface_def)
next
  case False
  let ?st = "bk d" and ?i = "backingImage (bk d) sa"
  have k: "kernel_ok (driverMajorVersion (driverContext ?st)) api k" and cu: "cuda_ok api k" and i: "backing_inv k ?st"
    using ok by (simp_all add: backend_ok_def)
  obtain img where img: "backings ?st ?i = Some img" "bi_surface img = sa"
    using i False unfolding backing_inv_def by blast
  define s1 where "s1 = fold (\<lambda>fd s. if fd > 0 then os_close api fd s else s) (bi_fds img) (world ?st)"
  define s2 where "s2 = fold (destroy_plane api)
       (take (fi_numPlanes (formatsInfo (bi_format img))) (zip (bi_arrays img) (zip (bi_mipmaps img) (bi_extMem img)))) s1"
  let ?st' = "?st\<lparr>world := s2, backings := (backings ?st)(?i := None), backingImage := (backingImage ?st)(sa := NULL)\<rparr>"
  have r: "direct_detachBackingImageFromSurface api sa d = Some (with_bk ?st' d)"
    using False img by (simp add: direct_detachBackingImageFromSurface_def destroyBackingImage_def Let_def s1_def[symmetric] s2_def[symmetric])
  have v: "fds k s2 = fds k (world ?st) - open_fds img" "gems k s2 = gems k (world ?st)"
      "objs k s2 = {x \<in> objs k (world ?st). fst x \<notin> open_fds img}"
    using destroy_planes_view[OF cu, of s1] close_positive[OF k, of "bi_fds img" "world ?st"]
    unfolding s2_def s1_def[symmetric] open_fds_def by (auto simp: same_view_def)
  have wf: "\<forall>x \<in> objs k (world ?st). fst x \<in> fds k (world ?st)" "0 \<in> fds k (world ?st)"
    using i by (simp_all add: backing_inv_def view_wf_def)
  have dt: "detached k sa ?st ?st'" using v img wf by (auto simp: detached_def)
  have nv: "nvctlFd (driverContext ?st) \<notin> open_fds img" using i img(1) unfolding backing_inv_def by blast
  have a1: "view_wf k s2" "context_live k (driverContext ?st) s2"
    using v wf nv i by (auto simp: view_wf_def context_live_def backing_inv_def open_fds_def)
  have a2: "\<forall>x j. j \<noteq> NULL \<longrightarrow> ((((backingImage ?st)(sa := NULL)) x = j) \<longleftrightarrow>
      (\<exists>y. ((backings ?st)(?i := None)) j = Some y \<and> bi_surface y = x))"
  proof (intro allI impI)
    fix x j :: addr
    assume j: "j \<noteq> NULL"
    have o: "(backingImage ?st x = j) \<longleftrightarrow> (\<exists>y. backings ?st j = Some y \<and> bi_surface y = x)" for x
      using i j unfolding backing_inv_def by blast
    show "(((backingImage ?st)(sa := NULL)) x = j) \<longleftrightarrow> (\<exists>y. ((backings ?st)(?i := None)) j = Some y \<and> bi_surface y = x)"
      using o[of x] o[of sa] img j by (cases "j = ?i"; cases "x = sa") auto
  qed
  have a3: "\<forall>j y. ((backings ?st)(?i := None)) j = Some y \<longrightarrow> open_fds y \<subseteq> fds k s2 - {nvctlFd (driverContext ?st)}"
  proof (intro allI impI)
    fix j y
    assume y: "((backings ?st)(?i := None)) j = Some y"
    then have j: "j \<noteq> ?i" "backings ?st j = Some y" by (auto split: if_splits)
    have "open_fds y \<inter> open_fds img = {}" "open_fds y \<subseteq> fds k (world ?st) - {nvctlFd (driverContext ?st)}"
      using i j img(1) unfolding backing_inv_def by blast+
    then show "open_fds y \<subseteq> fds k s2 - {nvctlFd (driverContext ?st)}" using v(1) by auto
  qed
  have "backing_inv k ?st'"
    using i a1 a2 a3 unfolding backing_inv_def by simp
  then have "backend_ok api k ?st'" using ok by (simp add: backend_ok_def)
  then show ?thesis using r dt by blast
qed

lemma direct_detach_keeps:
  "keeps_driver (backend_ok api k) (direct_detachBackingImageFromSurface api sa)"
  unfolding keeps_driver_def using direct_detach_spec by (metis with_bk_simps(1,4))

text \<open>
  Realising: either an image was already there, or there is a new one whose descriptors are the only new ones, or
  the call fails and leaves every descriptor and object in place.
\<close>

definition realised :: "('w, 'y) kernel_view_scheme \<Rightarrow> addr \<Rightarrow> NVSurface \<Rightarrow> bool \<Rightarrow> 'w DirectState \<Rightarrow> 'w DirectState \<Rightarrow> bool" where
  "realised k sa s ok st st' \<longleftrightarrow> driverContext st' = driverContext st \<and> objs k (world st') = objs k (world st) \<and>
     fds k (world st) \<subseteq> fds k (world st') \<and>
     (if backingImage st sa \<noteq> NULL then ok \<and> st' = st
      else if \<not> ok then backingImage st' = backingImage st \<and> backings st' = backings st
      else backings st (nextBacking st) = None \<and> backingImage st' = (backingImage st)(sa := nextBacking st) \<and> gems k (world st') = gems k (world st) \<and>
        (\<exists>img. backings st' = (backings st)(nextBacking st \<mapsto> img) \<and> bi_surface img = sa \<and> bi_format img = backing_format s \<and>
          card (open_fds img) = length (format_planes (backing_format s)) \<and>
          open_fds img \<inter> fds k (world st) = {} \<and> fds k (world st') = fds k (world st) \<union> open_fds img))"

lemma open_fds_padded:
  assumes "\<forall>fd \<in> set ps. 0 < fd" "bi_fds img = padded 4 0 ps"
  shows "open_fds img = set ps"
  using assms by (auto simp: open_fds_def padded_def)

lemma realise_backing_spec:
  assumes ok: "backend_ok api k st"
  shows "\<exists>r st'. realise_backing api sa s st = Some (r, st') \<and> backend_ok api k st' \<and> realised k sa s r st st'"
proof (cases "backingImage st sa = NULL")
  case False
  then show ?thesis using ok by (intro exI[of _ True] exI[of _ st]) (simp add: realise_backing_def realised_def)
next
  case True
  have k: "kernel_ok (driverMajorVersion (driverContext st)) api k" "release_ok api" and cu: "cuda_ok api k" and i: "backing_inv k st"
    and ca: "calloc_ok api"
    using ok by (simp_all add: backend_ok_def)
  have v: "view_wf k (world st)" "context_live k (driverContext st) (world st)" using i by (simp_all add: backing_inv_def)
  obtain res w where a: "direct_allocateBackingImage api (driverContext st) s (world st) = (res, w)" by force
  note al = allocate_spec[OF k cu v a]
  have lv: "context_live k (driverContext st) w" "view_wf k w" using al v(2) by (auto simp: context_live_def)
  show ?thesis
  proof (cases res)
    case None
    have "backing_inv k (st\<lparr>world := w\<rparr>)" using i al lv unfolding backing_inv_def by (simp, blast)
    then have "backend_ok api k (st\<lparr>world := w\<rparr>)" using ok by (simp add: backend_ok_def)
    then show ?thesis using True al None ca
      by (intro exI[of _ False] exI[of _ "st\<lparr>world := w\<rparr>"]) (simp add: realise_backing_def realised_def a)
  next
    case (Some img)
    let ?i = "nextBacking st" and ?img = "img\<lparr>bi_surface := sa\<rparr>"
    let ?st = "st\<lparr>world := w, backings := (backings st)(?i \<mapsto> ?img), nextBacking := Suc ?i, backingImage := (backingImage st)(sa := ?i)\<rparr>"
    obtain ps where ps: "length ps = length (format_planes (backing_format s))" "distinct ps" "\<forall>fd \<in> set ps. 0 < fd"
        "set ps \<inter> fds k (world st) = {}" "bi_fds img = padded 4 0 ps" "fds k w = fds k (world st) \<union> set ps"
      using al Some by blast
    have of: "open_fds ?img = set ps" using open_fds_padded[OF ps(3), of ?img] ps(5) by simp
    have fr: "backings st ?i = None" "0 < ?i" using i by (auto simp: backing_inv_def dom_def)
    have r: "realise_backing api sa s st = Some (True, ?st)"
      using True ca by (simp add: realise_backing_def a Some direct_attachBackingImageToSurface_def Let_def)
    have a2: "\<forall>x j. j \<noteq> NULL \<longrightarrow> ((((backingImage st)(sa := ?i)) x = j) \<longleftrightarrow> (\<exists>y. ((backings st)(?i \<mapsto> ?img)) j = Some y \<and> bi_surface y = x))"
    proof (intro allI impI)
      fix x j :: addr
      assume j: "j \<noteq> NULL"
      have o: "(backingImage st x = j) \<longleftrightarrow> (\<exists>y. backings st j = Some y \<and> bi_surface y = x)" for x
        using i j unfolding backing_inv_def by blast
      show "(((backingImage st)(sa := ?i)) x = j) \<longleftrightarrow> (\<exists>y. ((backings st)(?i \<mapsto> ?img)) j = Some y \<and> bi_surface y = x)"
        using o[of x] o[of sa] fr True j by (cases "j = ?i"; cases "x = sa") auto
    qed
    have new: "set ps \<inter> open_fds y = {}" if "backings st j = Some y" for j y
      using i that ps(4) unfolding backing_inv_def by blast
    have nv: "nvctlFd (driverContext st) \<notin> set ps" using v(2) ps(4) by (auto simp: context_live_def)
    have a3: "\<forall>j y. ((backings st)(?i \<mapsto> ?img)) j = Some y \<longrightarrow> open_fds y \<subseteq> fds k w - {nvctlFd (driverContext st)}"
      using i of nv ps(6) unfolding backing_inv_def by (simp, blast)
    have a4: "\<forall>j l y z. ((backings st)(?i \<mapsto> ?img)) j = Some y \<longrightarrow> ((backings st)(?i \<mapsto> ?img)) l = Some z \<longrightarrow> j \<noteq> l \<longrightarrow> open_fds y \<inter> open_fds z = {}"
      using i of new unfolding backing_inv_def by (auto split: if_splits)
    have "\<forall>j \<in> dom ((backings st)(?i \<mapsto> ?img)). 0 < j \<and> j < Suc ?i"
      using i fr(2) unfolding backing_inv_def by (auto simp: less_Suc_eq)
    then have "backing_inv k ?st" using a2 a3 a4 lv unfolding backing_inv_def by simp
    then have b: "backend_ok api k ?st" using ok by (simp add: backend_ok_def)
    have ex: "\<exists>y. (backings st)(?i \<mapsto> ?img) = (backings st)(?i \<mapsto> y) \<and> bi_surface y = sa \<and> bi_format y = backing_format s \<and>
        card (open_fds y) = length (format_planes (backing_format s)) \<and> open_fds y \<inter> fds k (world st) = {} \<and> fds k w = fds k (world st) \<union> open_fds y"
      using of ps(1,2,4,6) al Some by (intro exI[of _ ?img]) (simp add: distinct_card)
    have "gems k w = gems k (world st)" "objs k w = objs k (world st)" "fds k (world st) \<subseteq> fds k w" using al Some by simp_all
    then have "realised k sa s True st ?st" using True fr(1) ex by (simp add: realised_def)
    then show ?thesis using r b by blast
  qed
qed

lemma direct_realiseSurface_spec:
  assumes ok: "backend_ok api k (bk d)" and h: "heap d sa = Some (PSurface s)" "\<not> sf_locked s"
  shows "\<exists>r st. direct_realiseSurface api sa d = Some (r, with_bk st d) \<and> backend_ok api k st \<and> realised k sa (s\<lparr>sf_locked := True\<rparr>) r (bk d) st"
proof -
  let ?s = "s\<lparr>sf_locked := True\<rparr>" and ?d = "put_obj sa (PSurface (s\<lparr>sf_locked := True\<rparr>)) d"
  have b: "bk ?d = bk d" by (simp add: put_obj_def)
  obtain r st where c: "realise_backing api sa ?s (bk d) = Some (r, st)" "backend_ok api k st" "realised k sa ?s r (bk d) st"
    using realise_backing_spec[OF ok] by blast
  have u: "s\<lparr>sf_locked := False\<rparr> = s" using h(2) by (cases s) simp
  have "unlock_surface sa (with_bk st ?d) = Some (with_bk st (put_obj sa (PSurface s) ?d))"
    using u by (simp add: unlock_surface_def put_obj_twice)
  moreover have "put_obj sa (PSurface s) ?d = d" using h(1) by (simp add: put_obj_def fun_upd_idem)
  ultimately show ?thesis using c h b
    by (intro exI[of _ r] exI[of _ st]) (simp add: direct_realiseSurface_def lock_surface_def get_surface_def)
qed


section \<open>The direct backend as a backend\<close>

lemma copy_planes_view:
  assumes cu: "cuda_ok api k"
  shows "same_view k s (copy_planes api ptr pitch bytes w h ps y s)"
proof (induction ps arbitrary: y s)
  case Nil
  then show ?case by simp
next
  case (Cons x ps)
  obtain p arr where x: "x = (p, arr)" by force
  show ?case
    using same_view_trans[OF cuda_cases(8)[OF cu] Cons.IH] by (simp add: x case_prod_beta' Let_def)
qed

lemma copyFrameToSurface_spec:
  assumes ok: "backend_ok api k (bk d)" and h: "heap d sa = Some (PSurface s)" "\<not> sf_locked s" and b: "backingImage (bk d) sa \<noteq> NULL"
  shows "\<exists>w. same_view k (world (bk d)) w \<and> copyFrameToSurface api ptr sa pitch d =
    Some (True, with_bk ((bk d)\<lparr>world := w\<rparr>) (put_obj sa (PSurface (s\<lparr>sf_status := VASurfaceReady, sf_resolving := False\<rparr>)) d))"
proof -
  have "backing_inv k (bk d)" and cu: "cuda_ok api k" using ok by (simp_all add: backend_ok_def)
  then obtain img where img: "backings (bk d) (backingImage (bk d) sa) = Some img" using b unfolding backing_inv_def by blast
  define w where "w = copy_planes api ptr pitch (bppc (formatsInfo (bi_format img))) (sf_width s) (sf_height s) (image_planes img) 0 (world (bk d))"
  have "heap (with_bk ((bk d)\<lparr>world := w\<rparr>) d) sa = Some (PSurface s)" using h(1) by simp
  from notify_resolved_spec[OF this h(2)] have "copyFrameToSurface api ptr sa pitch d =
    Some (True, with_bk ((bk d)\<lparr>world := w\<rparr>) (put_obj sa (PSurface (s\<lparr>sf_status := VASurfaceReady, sf_resolving := False\<rparr>)) d))"
    using img h(1) by (simp add: copyFrameToSurface_def w_def[symmetric] get_surface_def)
  then show ?thesis using copy_planes_view[OF cu] w_def by blast
qed

lemma direct_export_spec:
  assumes ok: "backend_ok api k (bk d)" and h: "heap d sa = Some (PSurface s)" "\<not> sf_locked s" and p: "ptr \<noteq> 0"
  shows "\<exists>r st s'. direct_exportCudaPtr api sa ptr pitch d = Some (r, with_bk st (put_obj sa (PSurface s') d)) \<and>
    backend_ok api k st \<and> fds k (world (bk d)) \<subseteq> fds k (world st) \<and>
    (if r then backingImage st sa \<noteq> NULL \<and> s' = s\<lparr>sf_status := VASurfaceReady, sf_resolving := False\<rparr> else s' = s)"
proof -
  obtain r st where r: "direct_realiseSurface api sa d = Some (r, with_bk st d)" "backend_ok api k st"
      "realised k sa (s\<lparr>sf_locked := True\<rparr>) r (bk d) st"
    using direct_realiseSurface_spec[OF ok h] by blast
  have f: "fds k (world (bk d)) \<subseteq> fds k (world st)" using r(3) by (simp add: realised_def)
  show ?thesis
  proof (cases r)
    case False
    have "put_obj sa (PSurface s) d = d" using h(1) by (simp add: put_obj_def fun_upd_idem)
    then have "direct_exportCudaPtr api sa ptr pitch d = Some (False, with_bk st (put_obj sa (PSurface s) d))"
      using r(1) False by (simp add: direct_exportCudaPtr_def)
    then show ?thesis using r(2) f by (intro exI[of _ False] exI[of _ st] exI[of _ s]) simp
  next
    case True
    have "0 < nextBacking (bk d)" using ok by (simp add: backend_ok_def backing_inv_def)
    then have b: "backingImage st sa \<noteq> NULL" using r(3) True by (auto simp: realised_def split: if_splits)
    let ?d = "with_bk st d"
    have "backend_ok api k (bk ?d)" "heap ?d sa = Some (PSurface s)" "backingImage (bk ?d) sa \<noteq> NULL" using r(2) h(1) b by simp_all
    from copyFrameToSurface_spec[OF this(1,2) h(2) this(3), of ptr pitch]
    obtain w where w: "same_view k (world st) w" "copyFrameToSurface api ptr sa pitch ?d =
        Some (True, with_bk (st\<lparr>world := w\<rparr>) (put_obj sa (PSurface (s\<lparr>sf_status := VASurfaceReady, sf_resolving := False\<rparr>)) d))" by auto
    have "backend_ok api k (st\<lparr>world := w\<rparr>)" using r(2) backing_inv_world[OF _ w(1)] by (simp add: backend_ok_def)
    then show ?thesis using r(1) True p w f b
      by (intro exI[of _ True] exI[of _ "st\<lparr>world := w\<rparr>"] exI[of _ "s\<lparr>sf_status := VASurfaceReady, sf_resolving := False\<rparr>"])
        (simp add: direct_exportCudaPtr_def same_view_def)
  qed
qed

interpretation direct: backend "backend_ok api k" "direct_detachBackingImageFromSurface api" "direct_exportCudaPtr api" for api k
proof
  fix a
  show "keeps_driver (backend_ok api k) (direct_detachBackingImageFromSurface api a)" by (rule direct_detach_keeps)
next
  show "export_ok (backend_ok api k) (direct_exportCudaPtr api)"
    unfolding export_ok_def
  proof (intro allI impI)
    fix a p pitch d s
    assume a: "backend_ok api k (bk d)" "p \<noteq> (0 :: nat)" "heap d a = Some (PSurface s)" "\<not> sf_locked s"
    then obtain r st s' where e: "direct_exportCudaPtr api a p pitch d = Some (r, with_bk st (put_obj a (PSurface s') d))"
        "if r then backingImage st a \<noteq> NULL \<and> s' = s\<lparr>sf_status := VASurfaceReady, sf_resolving := False\<rparr> else s' = s"
      using direct_export_spec[OF a(1,3,4,2)] by blast
    then show "\<exists>ok s' d'. direct_exportCudaPtr api a p pitch d = Some (ok, d') \<and>
        NVDriver.truncate d' = NVDriver.truncate (put_obj a (PSurface s') d) \<and> \<not> sf_locked s' \<and> (ok \<longrightarrow> \<not> sf_resolving s') \<and>
        decodeFailed s' = decodeFailed s"
      using a(4) by (intro exI[of _ r] exI[of _ s'] exI[of _ "with_bk st (put_obj a (PSurface s') d)"]) (auto split: if_splits)
  qed
qed

section \<open>Properties\<close>

text \<open>
  The export of a decoded frame by the direct backend.  With a surface whose mutex is free the call returns
  and releases the mutex; of the driver's own state it changes the surface alone, and it keeps the bijection between
  surfaces and images with the descriptors they own.  When it succeeds the surface has an image, is ready, and no longer
  resolving; when it fails the surface is as before, and no descriptor that was open is closed.
\<close>
theorem direct_exportCudaPtr_resolves:
  assumes "backend_ok api k (bk d)" "heap d sa = Some (PSurface s)" "\<not> sf_locked s" "ptr \<noteq> 0"
  shows "\<exists>r st s'. direct_exportCudaPtr api sa ptr pitch d = Some (r, with_bk st (put_obj sa (PSurface s') d)) \<and>
    backend_ok api k st \<and> fds k (world (bk d)) \<subseteq> fds k (world st) \<and>
    (if r then backingImage st sa \<noteq> NULL \<and> s' = s\<lparr>sf_status := VASurfaceReady, sf_resolving := False\<rparr> else s' = s)"
  by (rule direct_export_spec[OF assms])

text \<open>
  C14: a surface's image costs nothing that detaching does not give back.  Realising a surface without an image opens one
  descriptor for each plane of its format; detaching afterwards returns and restores the open descriptors, the
  kernel's objects and buffer handles, and the images of all surfaces, with the driver's own state as it was.
\<close>
theorem direct_realise_detach:
  assumes ok: "backend_ok api k (bk d)" and h: "heap d sa = Some (PSurface s)" "\<not> sf_locked s"
    and n: "backingImage (bk d) sa = NULL" and r: "direct_realiseSurface api sa d = Some (True, d1)"
  shows "card (fds k (world (bk d1)) - fds k (world (bk d))) = length (format_planes (backing_format s)) \<and>
    (\<exists>st. direct_detachBackingImageFromSurface api sa d1 = Some (with_bk st d) \<and>
       fds k (world st) = fds k (world (bk d)) \<and> objs k (world st) = objs k (world (bk d)) \<and> gems k (world st) = gems k (world (bk d)) \<and>
       backings st = backings (bk d) \<and> backingImage st = backingImage (bk d))"
proof -
  obtain st where e: "d1 = with_bk st d" "backend_ok api k st" "realised k sa (s\<lparr>sf_locked := True\<rparr>) True (bk d) st"
    using direct_realiseSurface_spec[OF ok h] r by auto
  have fmt: "backing_format (s\<lparr>sf_locked := True\<rparr>) = backing_format s" by (simp add: backing_format_def)
  obtain img where img: "backings st = (backings (bk d))(nextBacking (bk d) \<mapsto> img)"
      "card (open_fds img) = length (format_planes (backing_format s))" "open_fds img \<inter> fds k (world (bk d)) = {}"
      "fds k (world st) = fds k (world (bk d)) \<union> open_fds img"
    using e(3) n fmt by (auto simp: realised_def)
  have z: "backings (bk d) (nextBacking (bk d)) = None" "backingImage st = (backingImage (bk d))(sa := nextBacking (bk d))"
      "gems k (world st) = gems k (world (bk d))" "objs k (world st) = objs k (world (bk d))"
    using e(3) n by (simp_all add: realised_def)
  have "backend_ok api k (bk d1)" using e by simp
  from direct_detach_spec[OF this, of sa] obtain st2 where t:
      "direct_detachBackingImageFromSurface api sa d1 = Some (with_bk st2 d1)" "detached k sa st st2" using e(1) by auto
  have f: "fds k (world st2) = fds k (world (bk d))" using t(2) img z(2) by (auto simp: detached_def)
  have w: "\<forall>x \<in> objs k (world (bk d)). fst x \<in> fds k (world (bk d))"
    using ok by (simp add: backend_ok_def backing_inv_def view_wf_def)
  have "fds k (world st) - fds k (world (bk d)) = open_fds img" using img(3,4) by blast
  then show ?thesis using t img(1,2) z f w e(1) n
    by (intro conjI exI[of _ st2]) (auto simp: detached_def fun_upd_idem)
qed


section \<open>Behaviours to know\<close>

text \<open>
  When the kernel answers the question for the identifier of the GPU, the answer is not looked at: which GPU is chosen
  depends on what the caller's stack holds.
\<close>

lemma findGPU_ignores_answer:
  assumes a: "nv_rm_control api (nvctlFd ctx) (clientObject ctx) (clientObject ctx) NV0000_CTRL_CMD_GPU_GET_UUID_FROM_GPU_ID 0
      (GET_UUID_FROM_GPU_ID_PARAMS (gpu_id ctx) uuid_format_flags (replicate 256 0)) (world st) = (True, params, s1)"
    and c: "driverContext st = ctx" "cuDeviceGetCount api s1 = (Some n, s2)" "find_gpu api stack 0 n s2 = (found, s3)"
  shows "findGPUIndexFromFd api stack st =
    Some (st\<lparr>world := s3, cudaGpuId := (case found of Some i \<Rightarrow> int i | None \<Rightarrow> 0)\<rparr>)"
  using c unfolding findGPUIndexFromFd_def get_device_uuid_def c(1) a Let_def by simp

text \<open>When every node of the search opens and none is usable, the search succeeds with a descriptor that is closed.\<close>

lemma search_nodes_falls_through:
  assumes "\<forall>p s. fst (os_open api p s) \<noteq> - 1" "\<forall>fd s. \<not> fst (usable_node api fd s)"
  shows "\<exists>fd s'. search_nodes api gpu left idx nv s = (Some fd, os_close api fd s')"
proof (induction "left" arbitrary: idx nv s)
  case 0
  obtain fd s1 where 1: "os_open api (render_node idx) s = (fd, s1)" by force
  obtain ok s2 where 2: "usable_node api fd s1 = (ok, s2)" by force
  have "fd \<noteq> - 1" "\<not> ok" using assms 1 2 by (metis fst_conv)+
  then show ?case by (auto simp: 1 2)
next
  case (Suc n)
  obtain fd s1 where 1: "os_open api (render_node idx) s = (fd, s1)" by force
  obtain ok s2 where 2: "usable_node api fd s1 = (ok, s2)" by force
  have "fd \<noteq> - 1" "\<not> ok" using assms 1 2 by (metis fst_conv)+
  then show ?case using Suc.IH[of "idx + 1" nv "os_close api fd s2"] by (simp add: 1 2)
qed

text \<open>The backend never enters an image into its list, so destroying all images destroys none.\<close>

lemma direct_destroyAll_nothing:
  "arr_size (backingList st) = 0 \<Longrightarrow> direct_destroyAllBackingImage api st = Some st"
  by (simp add: direct_destroyAllBackingImage_def destroyAll_loop.simps)

lemma realise_keeps_list:
  "realise_backing api sa s st = Some (r, st') \<Longrightarrow> backingList st' = backingList st"
  by (auto simp: realise_backing_def direct_attachBackingImageToSurface_def Let_def bind_Some_iff split: if_splits prod.splits option.splits)

section \<open>A backend over the small kernel\<close>

definition toy_direct :: "bool \<Rightarrow> toy_kernel direct_api" where
  "toy_direct refuse = \<lparr>os_open = os_open (toy_os refuse), os_close = os_close (toy_os refuse), os_dup = os_dup (toy_os refuse), os_read = os_read
     (toy_os refuse), rm_alloc = rm_alloc (toy_os refuse), rm_free = rm_free (toy_os refuse), rm_control = rm_control (toy_os
     refuse), attach_gpus = attach_gpus (toy_os refuse), check_version = check_version (toy_os refuse), register_fd = register_fd
     (toy_os refuse), get_dev_info = get_dev_info (toy_os refuse), gem_import = gem_import (toy_os refuse), prime_to_fd =
     prime_to_fd (toy_os refuse), gem_close = gem_close (toy_os refuse), block_linear_2d = block_linear_2d (toy_os refuse),
     cuImportExternalMemory = \<lambda>fd n w. if fd = 0 then (None, w) else (Some 1, os_close (toy_os refuse) fd w),
     cuExternalMemoryGetMappedMipmappedArray = \<lambda>e w h b c s. (Some 2, s), cuMipmappedArrayGetLevel = \<lambda>m s. (Some 3, s),
     cuArrayDestroy = \<lambda>a s. s, cuMipmappedArrayDestroy = \<lambda>m s. s, cuDestroyExternalMemory = \<lambda>e s. s,
     copy2d = \<lambda>l c s. (True, s), cuDeviceGetCount = \<lambda>s. (Some 1, s), cuDeviceGetUuid = \<lambda>i s. (None, s),
     drm_version = \<lambda>fd s. (0, ''nvidia-drm'', s), drm_get_cap = \<lambda>fd s. (0, s), calloc_ok = True\<rparr>"

definition toy_backend :: "toy_kernel DirectState" where
  "toy_backend = \<lparr>backingImage = \<lambda>_. NULL, backings = Map.empty, nextBacking = 1, backingList = empty_Array,
     driverContext = toy_context, cudaGpuId = 0, drmFd = 5, world = toy1\<rparr>"

lemma toy_direct_os:
  "os_open (toy_direct refuse) = os_open (toy_os refuse)" "os_close (toy_direct refuse) = os_close (toy_os refuse)"
  "os_dup (toy_direct refuse) = os_dup (toy_os refuse)" "os_read (toy_direct refuse) = os_read (toy_os refuse)"
  "rm_alloc (toy_direct refuse) = rm_alloc (toy_os refuse)" "rm_free (toy_direct refuse) = rm_free (toy_os refuse)"
  "rm_control (toy_direct refuse) = rm_control (toy_os refuse)" "attach_gpus (toy_direct refuse) = attach_gpus (toy_os refuse)"
  "check_version (toy_direct refuse) = check_version (toy_os refuse)" "register_fd (toy_direct refuse) = register_fd (toy_os refuse)"
  "get_dev_info (toy_direct refuse) = get_dev_info (toy_os refuse)" "gem_import (toy_direct refuse) = gem_import (toy_os refuse)"
  "block_linear_2d (toy_direct refuse) = block_linear_2d (toy_os refuse)"
  "prime_to_fd (toy_direct refuse) = prime_to_fd (toy_os refuse)" "gem_close (toy_direct refuse) = gem_close (toy_os refuse)"
  by (simp_all add: toy_direct_def)

lemma toy_backend_ok: "backend_ok (toy_direct refuse) toy_view toy_backend"
proof -
  have 1: "kernel_ok (driverMajorVersion toy_context) (toy_direct refuse) toy_view" "release_ok (toy_direct refuse)"
    using toy_context_ok[of refuse] toy_kernel_ok(2)[of refuse]
    by (simp_all add: kernel_ok_def opens_ok_def alloc_law_def free_law_def quiet_calls_def gem_law_def release_ok_def toy_direct_os)
  have 2: "cuda_ok (toy_direct refuse) toy_view"
    by (auto simp: cuda_ok_def toy_direct_def toy_os_def toy_view_def split: if_splits)
  have 3: "backing_inv toy_view toy_backend"
    using toy_live(2,3) by (simp add: backing_inv_def toy_backend_def)
  show ?thesis using 1 2 3 by (simp add: backend_ok_def toy_backend_def toy_direct_def)
qed

definition toy_session :: "((unit, slice_param) payload, toy_kernel DirectState) NVDriver_scheme" where
  "toy_session = NVDriver.extend decode_session toy_backend"

lemma toy_session_simps:
  "bk toy_session = toy_backend" "heap toy_session = heap decode_session" "typed toy_session = typed decode_session"
  "view toy_session = view decode_session"
  by (simp_all add: toy_session_def NVDriver.extend_def typed_def objtab_wf_def view_def table_def)

lemma toy_surface: "heap toy_session 1 = Some (PSurface example_surface)" "\<not> sf_locked example_surface"
  using decode_session_simps by (simp_all add: toy_session_simps example_simps)

theorem direct_exportCudaPtr_resolves_witness:
  "\<exists>r st s'. direct_exportCudaPtr (toy_direct True) 1 4096 64 toy_session = Some (r, with_bk st (put_obj 1 (PSurface s') toy_session)) \<and>
     backend_ok (toy_direct True) toy_view st"
proof -
  have "backend_ok (toy_direct True) toy_view (bk toy_session)" using toy_backend_ok by (simp add: toy_session_simps)
  from direct_exportCudaPtr_resolves[OF this toy_surface, of 4096 64] show ?thesis by auto
qed

lemma toy_calls1:
  "nv_alloc_object (toy_direct refuse) = nv_alloc_object (toy_os refuse)"
  "nv_free_object (toy_direct refuse) = nv_free_object (toy_os refuse)"
  "nv_attach_gpus (toy_direct refuse) = nv_attach_gpus (toy_os refuse)"
  "nv_rm_control (toy_direct refuse) = nv_rm_control (toy_os refuse)"
  "export_image (toy_direct refuse) = export_image (toy_os refuse)"
  unfolding nv_alloc_object_def[abs_def] nv_free_object_def[abs_def] nv_attach_gpus_def[abs_def] nv_rm_control_def[abs_def] export_image_def[abs_def]  toy_direct_os by (rule refl)+

lemma toy_calls2:
  "nv_export_object_to_fd (toy_direct refuse) = nv_export_object_to_fd (toy_os refuse)"
  "release_memory (toy_direct refuse) = release_memory (toy_os refuse)"
  unfolding nv_export_object_to_fd_def[abs_def] release_memory_def[abs_def] toy_calls1 toy_direct_os by (rule refl)+

lemma toy_calls3:
  "alloc_memory (toy_direct refuse) = alloc_memory (toy_os refuse)"
  unfolding alloc_memory_def[abs_def] toy_calls1 toy_calls2 toy_direct_os by (rule refl)+

lemma toy_alloc_direct:
  "alloc_image (toy_direct refuse) = alloc_image (toy_os refuse)"
  unfolding alloc_image_def[abs_def] toy_calls1 toy_calls3 toy_direct_os by (rule refl)+

definition toy2 :: toy_kernel where
  "toy2 = toy1\<lparr>t_fds := [10, 9, 8, 7, 6, 0, 1, 2, 5]\<rparr>"

lemma toy_luma:
  "nvFd (fst (snd (alloc_image (toy_os False) toy_context 16 16 1 8 f zero_driver_image toy1))) = 8"
  "snd (snd (alloc_image (toy_os False) toy_context 16 16 1 8 f zero_driver_image toy1)) = toy2"
  unfolding toy_os_def by code_simp+

lemma toy_chroma: "nvFd (fst (snd (alloc_image (toy_os False) toy_context 8 8 2 8 f zero_driver_image toy2))) = 11"
  unfolding toy_os_def by code_simp

lemma toy_import: "nvFd im \<noteq> 0 \<Longrightarrow> fst (import_to_cuda (toy_direct refuse) im bpc c s)"
  by (simp add: import_to_cuda_def toy_direct_def Let_def)

lemma toy_imports:
  "list_all (\<lambda>im. nvFd im \<noteq> 0) (map fst xs) \<Longrightarrow> fst (import_planes (toy_direct refuse) bpc xs s)"
proof (induction xs arbitrary: s)
  case (Cons x xs)
  obtain im c where x: "x = (im, c)" by force
  obtain ok im1 h s1 where 1: "import_to_cuda (toy_direct refuse) im bpc c s = (ok, im1, h, s1)" by (metis prod_cases4)
  obtain ok2 ims hs s2 where 2: "import_planes (toy_direct refuse) bpc xs s1 = (ok2, ims, hs, s2)" by (metis prod_cases4)
  have ok using toy_import[of im refuse bpc c s] Cons.prems by (simp add: x 1)
  moreover have ok2 using Cons.IH[of s1] Cons.prems by (simp add: x 2)
  ultimately show ?case by (simp add: x 1 2)
qed simp

lemma toy_allocates:
  "fst (direct_allocateBackingImage (toy_direct False) toy_context (example_surface\<lparr>sf_locked := True\<rparr>) toy1) \<noteq> None"
proof -
  have f: "backing_format (example_surface\<lparr>sf_locked := True\<rparr>) = NV_FORMAT_NV12" "sf_width (example_surface\<lparr>sf_locked := True\<rparr>) = 16"
      "sf_height (example_surface\<lparr>sf_locked := True\<rparr>) = 16" "bppc (formatsInfo NV_FORMAT_NV12) = 1"
      "format_planes NV_FORMAT_NV12 = [(luma_plane, DRM_FORMAT_R8), (chroma420_plane, DRM_FORMAT_RG88)]"
    by (simp_all add: backing_format_def example_simps format_planes_def)
  obtain o1 im1 s1 where 1: "alloc_image (toy_os False) toy_context 16 16 1 8 DRM_FORMAT_R8 zero_driver_image toy1 = (o1, im1, s1)"
    by (metis prod_cases3)
  obtain o2 im2 s2 where 2: "alloc_image (toy_os False) toy_context 8 8 2 8 DRM_FORMAT_RG88 zero_driver_image toy2 = (o2, im2, s2)"
    by (metis prod_cases3)
  have n: "nvFd im1 = 8" "s1 = toy2" "nvFd im2 = 11"
    using toy_luma[of DRM_FORMAT_R8] toy_chroma[of DRM_FORMAT_RG88] 1 2 by simp_all
  have d: "plane_width luma_plane 16 = 16" "plane_height luma_plane 16 = 16" "plane_width chroma420_plane 16 = 8"
      "plane_height chroma420_plane 16 = 8" "ucast (channelCount luma_plane) = (1 :: u8)" "ucast (channelCount chroma420_plane) = (2 :: u8)"
      "ucast (8 * 1 :: u32) = (8 :: u8)"
    by (simp_all add: plane_width_def plane_height_def luma_plane_def chroma420_plane_def)
  have p: "alloc_planes (toy_direct False) toy_context 16 16 1 [(luma_plane, DRM_FORMAT_R8), (chroma420_plane, DRM_FORMAT_RG88)] toy1 = ([im1, im2], s2)"
    unfolding alloc_planes.simps toy_alloc_direct d 1 n(2) prod.case Let_def 2 by simp
  let ?xs = "zip [im1, im2] (map (channelCount \<circ> fst) [(luma_plane, DRM_FORMAT_R8), (chroma420_plane, DRM_FORMAT_RG88)])"
  obtain ok ims hs s3 where i: "import_planes (toy_direct False) (8 * 1) ?xs s2 = (ok, ims, hs, s3)" by (metis prod_cases4)
  have ok using toy_imports[of ?xs False "8 * 1" s2] i n by simp
  then show ?thesis unfolding direct_allocateBackingImage_def f Let_def p prod.case i by simp
qed

theorem direct_realise_detach_witness:
  "\<exists>d1 st. direct_realiseSurface (toy_direct False) 1 toy_session = Some (True, d1) \<and>
     card (fds toy_view (world (bk d1)) - fds toy_view toy1) = 2 \<and>
     direct_detachBackingImageFromSurface (toy_direct False) 1 d1 = Some (with_bk st toy_session) \<and> fds toy_view (world st) = fds toy_view toy1"
proof -
  have ok: "backend_ok (toy_direct False) toy_view (bk toy_session)" using toy_backend_ok by (simp add: toy_session_simps)
  obtain img w where a: "direct_allocateBackingImage (toy_direct False) toy_context (example_surface\<lparr>sf_locked := True\<rparr>) toy1 = (Some img, w)"
    using toy_allocates by (metis not_Some_eq prod.collapse)
  obtain r st where r: "direct_realiseSurface (toy_direct False) 1 toy_session = Some (r, with_bk st toy_session)"
    using direct_realiseSurface_spec[OF ok toy_surface] by blast
  have c: "calloc_ok (toy_direct False)" using ok by (simp add: backend_ok_def)
  have r
    using r a toy_surface c unfolding direct_realiseSurface_def lock_surface_def
    by (auto simp: put_obj_more toy_session_simps(1) get_surface_def realise_backing_def toy_backend_def direct_attachBackingImageToSurface_def bind_Some_iff)
  then have r': "direct_realiseSurface (toy_direct False) 1 toy_session = Some (True, with_bk st toy_session)" using r by simp
  have n: "backingImage (bk toy_session) 1 = NULL" by (simp add: toy_session_simps toy_backend_def)
  have f: "length (format_planes (backing_format example_surface)) = 2"
    by (simp add: backing_format_def format_planes_def example_simps)
  show ?thesis using direct_realise_detach[OF ok toy_surface n r'] r' f by (auto simp: toy_session_simps toy_backend_def)
qed



end
