(* ===== verification/EglBackend.thy ===== *)
theory EglBackend
  imports Backends
begin

text \<open>
  The EGL backend (\<^verbatim>\<open>src/src/export-buf.c\<close>): backing images come out of an EGL stream that CUDA
  feeds, and a surface that is done with its image leaves it in a pool, the driver's list of images, for the next surface of
  the same size.  CUDA and EGL are a parameter with a state of its own; the queries about devices are plain functions.
\<close>

section \<open>State and interface\<close>

record EglImage =
  eb_surface :: addr
  eb_image :: addr
  eb_arrays :: "addr list"
  eb_width :: u32
  eb_height :: u32
  eb_fourcc :: u32
  eb_fds :: "int list"
  eb_offsets :: "u32 list"
  eb_strides :: "u32 list"
  eb_mods :: "u64 list"

record 'w EglState =
  eglBacking :: "addr \<Rightarrow> addr"
  eglImages :: "addr \<rightharpoonup> EglImage"
  nextImage :: addr
  imageList :: "addr Array"
  numFramesPresented :: int
  cuStreamConnection :: addr
  eglStream :: addr
  eglDisplay :: addr
  eglDevice :: addr
  useCorrectNV12Format :: bool
  eglGpuId :: int
  eglDrmFd :: int
  eglWorld :: 'w

datatype CUeglColorFormat = COLOR_UNSET | YUV420_SEMIPLANAR | YVU420_SEMIPLANAR | Y10V10U10_420_SEMIPLANAR

datatype CUarray_format = FORMAT_UNSET | UNSIGNED_INT8 | UNSIGNED_INT16

record CUDA_ARRAY3D_DESCRIPTOR =
  ad_Width :: u32
  ad_Height :: u32
  ad_NumChannels :: nat
  ad_Format :: CUarray_format

record CUeglFrame =
  fr_width :: u32
  fr_height :: u32
  fr_eglColorFormat :: CUeglColorFormat
  fr_cuFormat :: CUarray_format
  fr_pArray :: "addr list"

datatype egl_event = STREAM_IMAGE_ADD | STREAM_IMAGE_REMOVE addr | STREAM_IMAGE_AVAILABLE | STREAM_OTHER u32

record 'w egl_api =
  e_close :: "int \<Rightarrow> 'w \<Rightarrow> 'w"
  e_dup :: "int \<Rightarrow> 'w \<Rightarrow> int \<times> 'w"
  arrayCreate :: "CUDA_ARRAY3D_DESCRIPTOR \<Rightarrow> 'w \<Rightarrow> addr option \<times> 'w"
  arrayDestroy :: "addr \<Rightarrow> 'w \<Rightarrow> bool \<times> 'w"
  e_copy2d :: "bool \<Rightarrow> CUDA_MEMCPY2D \<Rightarrow> 'w \<Rightarrow> bool \<times> 'w"
  presentFrame :: "addr \<Rightarrow> CUeglFrame \<Rightarrow> 'w \<Rightarrow> bool \<times> 'w"
  returnFrame :: "addr \<Rightarrow> 'w \<Rightarrow> addr list option \<times> 'w"
  producerConnect :: "addr \<Rightarrow> 'w \<Rightarrow> addr option \<times> 'w"
  producerDisconnect :: "addr \<Rightarrow> 'w \<Rightarrow> bool \<times> 'w"
  eglInitialize :: "addr \<Rightarrow> 'w \<Rightarrow> bool \<times> 'w"
  createStream :: "addr \<Rightarrow> 'w \<Rightarrow> addr \<times> 'w"
  destroyStream :: "addr \<Rightarrow> addr \<Rightarrow> 'w \<Rightarrow> 'w"
  connectConsumer :: "addr \<Rightarrow> addr \<Rightarrow> 'w \<Rightarrow> bool \<times> 'w"
  queryEvent :: "addr \<Rightarrow> addr \<Rightarrow> 'w \<Rightarrow> egl_event option \<times> 'w"
  createImage :: "addr \<Rightarrow> addr \<Rightarrow> 'w \<Rightarrow> addr \<times> 'w"
  destroyImage :: "addr \<Rightarrow> addr \<Rightarrow> 'w \<Rightarrow> 'w"
  acquireImage :: "addr \<Rightarrow> addr \<Rightarrow> 'w \<Rightarrow> addr option \<times> 'w"
  exportQuery :: "addr \<Rightarrow> addr \<Rightarrow> 'w \<Rightarrow> (u32 \<times> u64 list) option \<times> 'w"
  exportDmabuf :: "addr \<Rightarrow> addr \<Rightarrow> 'w \<Rightarrow> (int list \<times> u32 list \<times> u32 list) option \<times> 'w"
  getPlatformDisplay :: "addr \<Rightarrow> 'w \<Rightarrow> addr \<times> 'w"
  queryDmaBufFormats :: "addr \<Rightarrow> 'w \<Rightarrow> u32 list option \<times> 'w"
  get_cap :: "int \<Rightarrow> 'w \<Rightarrow> int \<times> 'w"
  device_extensions :: bool
  queryDevices :: "addr list option"
  renderNodeFile :: "addr \<Rightarrow> string option"
  cudaDevice :: "addr \<Rightarrow> int option"
  minor_of_file :: "string \<Rightarrow> int"
  minor_of_fd :: "int \<Rightarrow> int"
  memory_left :: bool

definition DRM_FORMAT_NV12 :: u32 where "DRM_FORMAT_NV12 = fourcc_code ''NV12''"
definition DRM_FORMAT_NV21 :: u32 where "DRM_FORMAT_NV21 = fourcc_code ''NV21''"

section \<open>Connecting\<close>

text \<open>Taking back the frames that are still presented: it ends when CUDA has no more.\<close>

definition destroy_arrays :: "('w, 'x) egl_api_scheme \<Rightarrow> addr list \<Rightarrow> 'w \<Rightarrow> 'w" where
  "destroy_arrays api as s = fold (\<lambda>a s. if a \<noteq> NULL then snd (arrayDestroy api a s) else s) (take 3 as) s"

partial_function (option) return_frames :: "('w, 'x) egl_api_scheme \<Rightarrow> 'w EglState \<Rightarrow> 'w EglState option" where
  "return_frames api st =
     (let (r, s) = returnFrame api (cuStreamConnection st) (eglWorld st) in
      case r of
        None \<Rightarrow> Some (st\<lparr>eglWorld := s\<rparr>)
      | Some as \<Rightarrow> return_frames api (st\<lparr>numFramesPresented := numFramesPresented st - 1, eglWorld := destroy_arrays api as s\<rparr>))"

definition egl_releaseExporter :: "('w, 'x) egl_api_scheme \<Rightarrow> 'w EglState \<Rightarrow> 'w EglState option" where
  "egl_releaseExporter api st = do {
     st \<leftarrow> return_frames api st;
     let st = (if cuStreamConnection st \<noteq> NULL
               then st\<lparr>eglWorld := snd (producerDisconnect api (cuStreamConnection st) (eglWorld st))\<rparr> else st);
     Some (if eglDisplay st \<noteq> NULL then
             (if eglStream st \<noteq> NULL
              then st\<lparr>eglWorld := destroyStream api (eglDisplay st) (eglStream st) (eglWorld st), eglStream := NULL\<rparr> else st)
             \<lparr>eglDisplay := NULL\<rparr>
           else st)
   }"

definition reconnect :: "('w, 'x) egl_api_scheme \<Rightarrow> 'w EglState \<Rightarrow> bool \<times> 'w EglState" where
  "reconnect api st =
     (let (ok, s) = eglInitialize api (eglDisplay st) (eglWorld st);
          (ok, s) = (if cuStreamConnection st \<noteq> NULL then producerDisconnect api (cuStreamConnection st) s else (True, s))
      in if \<not> ok then (False, st\<lparr>eglWorld := s\<rparr>)
      else
        let s = (if eglStream st \<noteq> NULL then destroyStream api (eglDisplay st) (eglStream st) s else s);
            (stream, s) = createStream api (eglDisplay st) s;
            st = st\<lparr>numFramesPresented := 0, eglStream := stream\<rparr>
        in if stream = NULL then (False, st\<lparr>eglWorld := s\<rparr>)
        else
          let (ok, s) = connectConsumer api (eglDisplay st) stream s in
          if \<not> ok then (False, st\<lparr>eglWorld := s\<rparr>)
          else
            let (conn, s) = producerConnect api stream s in
            case conn of
              None \<Rightarrow> (False, st\<lparr>eglWorld := s\<rparr>)
            | Some c \<Rightarrow> (True, st\<lparr>cuStreamConnection := c, eglWorld := s\<rparr>))"

text \<open>
  The search for the EGL device.  A device is looked at when it has a render node and a CUDA number; it matches when its node
  has the minor number of the given descriptor, or its number is the one asked for, and the descriptor's driver has the
  \<^verbatim>\<open>modeset\<close> parameter.
\<close>

fun match_device ::
  "('w, 'x) egl_api_scheme \<Rightarrow> (string \<Rightarrow> int \<Rightarrow> bool) \<Rightarrow> int \<Rightarrow> addr list \<Rightarrow> 'w \<Rightarrow> (addr \<times> int) option \<times> 'w" where
  "match_device api wanted fd [] s = (None, s)"
| "match_device api wanted fd (dev # devs) s =
     (case (renderNodeFile api dev, cudaDevice api dev) of
        (Some node, Some num) \<Rightarrow>
          if \<not> wanted node num then match_device api wanted fd devs s
          else
            let (ok, s) = checkModesetParameterFromFd (get_cap api) fd s
            in if \<not> ok then match_device api wanted fd devs s else (Some (dev, num), s)
      | _ \<Rightarrow> match_device api wanted fd devs s)"

definition egl_findGPUIndexFromFd :: "('w, 'x) egl_api_scheme \<Rightarrow> 'w EglState \<Rightarrow> 'w EglState" where
  "egl_findGPUIndexFromFd api st =
     (if \<not> device_extensions api then st\<lparr>eglGpuId := 0\<rparr>
      else
        let gpu = (if eglGpuId st = - 1 \<and> eglDrmFd st = - 1 then 0 else eglGpuId st);
            wanted = (\<lambda>node num. if gpu = - 1 \<and> eglDrmFd st \<noteq> - 1 then minor_of_file api node = minor_of_fd api (eglDrmFd st)
                                  else gpu = num)
        in case queryDevices api of
          None \<Rightarrow> st\<lparr>eglGpuId := 0\<rparr>
        | Some devs \<Rightarrow>
          let (r, s) = match_device api wanted (eglDrmFd st) (take 8 devs) (eglWorld st)
          in case r of
            None \<Rightarrow> st\<lparr>eglGpuId := 0, eglWorld := s\<rparr>
          | Some (dev, num) \<Rightarrow> st\<lparr>eglDevice := dev, eglGpuId := num, eglWorld := s\<rparr>)"

text \<open>
  The last branch reads the formats the display exports; when it does not tell, the flags stay.  \<open>NULL\<close> is the argument that asks
  for the default display.
\<close>

definition egl_initExporter ::
  "('w, 'x) egl_api_scheme \<Rightarrow> ('c, 's, 'w EglState) drv \<Rightarrow> bool \<times> ('c, 's, 'w EglState) drv" where
  "egl_initExporter api d =
     (let st = egl_findGPUIndexFromFd api (bk d) in
      if eglDevice st = NULL then (False, with_bk st d)
      else
        let (dpy, s) = getPlatformDisplay api (eglDevice st) (eglWorld st);
            (dpy, s) = (if dpy = NULL then getPlatformDisplay api NULL s else (dpy, s));
            st = st\<lparr>eglDisplay := dpy, eglWorld := s\<rparr>
        in if dpy = NULL then (False, with_bk st d)
        else
          let (ok, s) = eglInitialize api dpy s in
          if \<not> ok then (False, with_bk (st\<lparr>eglWorld := s\<rparr>) d)
          else
            let (formats, s) = queryDmaBufFormats api dpy s;
                d = with_bk (st\<lparr>eglWorld := s\<rparr>) d
            in case formats of
              None \<Rightarrow> (True, d)
            | Some fs \<Rightarrow> (True, d\<lparr>supports16BitSurface := DRM_FORMAT_R16 \<in> set fs \<and> DRM_FORMAT_RG1616 \<in> set fs, supports444Surface := False\<rparr>))"

section \<open>Backing images\<close>

definition exportBackingImage :: "('w, 'x) egl_api_scheme \<Rightarrow> addr \<Rightarrow> EglImage \<Rightarrow> 'w \<Rightarrow> EglImage option \<times> 'w" where
  "exportBackingImage api dpy img s =
     (let (q, s) = exportQuery api dpy (eb_image img) s in
      case q of
        None \<Rightarrow> (None, s)
      | Some (fourcc, mods) \<Rightarrow>
        let (r, s) = exportDmabuf api dpy (eb_image img) s in
        case r of
          None \<Rightarrow> (None, s)
        | Some (dfds, dstrides, doffsets) \<Rightarrow>
          (Some (img\<lparr>eb_fourcc := fourcc, eb_mods := mods, eb_fds := dfds, eb_strides := dstrides, eb_offsets := doffsets\<rparr>), s))"

text \<open>The structure comes from \<^verbatim>\<open>calloc\<close>, whose result is not checked.\<close>

definition createBackingImage ::
  "('w, 'x) egl_api_scheme \<Rightarrow> u32 \<Rightarrow> u32 \<Rightarrow> addr \<Rightarrow> addr list \<Rightarrow> 'w EglState \<Rightarrow> (addr \<times> 'w EglState) option" where
  "createBackingImage api w h eimg arrays st = do {
     guard (memory_left api);
     let (r, s) = exportBackingImage api (eglDisplay st)
           \<lparr>eb_surface = NULL, eb_image = eimg, eb_arrays = take 2 arrays, eb_width = w, eb_height = h, eb_fourcc = 0,
            eb_fds = [0, 0, 0, 0], eb_offsets = [0, 0, 0, 0], eb_strides = [0, 0, 0, 0], eb_mods = [0, 0, 0, 0]\<rparr> (eglWorld st);
         st = st\<lparr>eglWorld := s\<rparr>
     in case r of
       None \<Rightarrow> Some (NULL, st)
     | Some img \<Rightarrow> Some (nextImage st, st\<lparr>eglImages := (eglImages st)(nextImage st \<mapsto> img), nextImage := Suc (nextImage st)\<rparr>)
   }"

text \<open>A failed destruction of an array returns early: the structure is not freed.\<close>

definition egl_destroyBackingImage :: "('w, 'x) egl_api_scheme \<Rightarrow> addr \<Rightarrow> 'w EglState \<Rightarrow> (bool \<times> 'w EglState) option" where
  "egl_destroyBackingImage api i st = do {
     img \<leftarrow> eglImages st i;
     let st = (if eb_surface img \<noteq> NULL then st\<lparr>eglBacking := (eglBacking st)(eb_surface img := NULL)\<rparr> else st);
         s = fold (\<lambda>fd s. if fd \<noteq> 0 then e_close api fd s else s) (take 4 (eb_fds img)) (eglWorld st);
         s = destroyImage api (eglDisplay st) (eb_image img) s;
         (ok, s) = arrayDestroy api (eb_arrays img ! 0) s
     in if \<not> ok then Some (False, st\<lparr>eglWorld := s\<rparr>)
        else
          let (ok, s) = arrayDestroy api (eb_arrays img ! 1) s
          in if \<not> ok then Some (False, st\<lparr>eglWorld := s\<rparr>)
             else Some (True, st\<lparr>eglWorld := s, eglImages := (eglImages st)(i := None)\<rparr>)
   }"

definition egl_attachBackingImageToSurface :: "addr \<Rightarrow> addr \<Rightarrow> 'w EglState \<Rightarrow> 'w EglState option" where
  "egl_attachBackingImageToSurface sa i st = do {
     img \<leftarrow> eglImages st i;
     Some (st\<lparr>eglBacking := (eglBacking st)(sa := i), eglImages := (eglImages st)(i \<mapsto> img\<lparr>eb_surface := sa\<rparr>)\<rparr>)
   }"

text \<open>The first image of the list with a property; every image on the way is dereferenced.\<close>

fun find_image :: "(addr \<rightharpoonup> EglImage) \<Rightarrow> (EglImage \<Rightarrow> bool) \<Rightarrow> addr option list \<Rightarrow> addr option option" where
  "find_image imgs P [] = Some None"
| "find_image imgs P (p # ps) = do {
     i \<leftarrow> p;
     img \<leftarrow> imgs i;
     if P img then Some (Some i) else find_image imgs P ps
   }"

definition egl_detachBackingImageFromSurface ::
  "('w, 'x) egl_api_scheme \<Rightarrow> addr \<Rightarrow> ('c, 's, 'w EglState) drv \<Rightarrow> ('c, 's, 'w EglState) drv option" where
  "egl_detachBackingImageFromSurface api sa d =
     (let st = bk d in
      if eglBacking st sa = NULL then Some d
      else do {
        img \<leftarrow> eglImages st (eglBacking st sa);
        st \<leftarrow> (if eb_fourcc img = DRM_FORMAT_NV21 then do {
                 (ok, st) \<leftarrow> egl_destroyBackingImage api (eglBacking st sa) st;
                 Some st
               }
               else do {
                 found \<leftarrow> find_image (eglImages st) (\<lambda>img. eb_surface img = sa) (arr_elems (imageList st));
                 case found of
                   None \<Rightarrow> Some st
                 | Some i \<Rightarrow> do {
                     img \<leftarrow> eglImages st i;
                     Some (st\<lparr>eglImages := (eglImages st)(i \<mapsto> img\<lparr>eb_surface := NULL\<rparr>)\<rparr>)
                   }
               });
        Some (with_bk (st\<lparr>eglBacking := (eglBacking st)(sa := NULL)\<rparr>) d)
      })"

text \<open>The loop over the list from its end; the index is unsigned and stops below 0 by wrapping.\<close>

partial_function (option) egl_destroyAll_loop :: "('w, 'x) egl_api_scheme \<Rightarrow> u32 \<Rightarrow> 'w EglState \<Rightarrow> 'w EglState option" where
  "egl_destroyAll_loop api idx st =
     (if idx < arr_size (imageList st) then do {
        it \<leftarrow> get_element_at (imageList st) idx;
        i \<leftarrow> it;
        (ok, st) \<leftarrow> egl_destroyBackingImage api i st;
        arr \<leftarrow> remove_element_at (imageList st) idx;
        egl_destroyAll_loop api (idx - 1) (st\<lparr>imageList := arr\<rparr>)
      }
      else Some st)"

definition egl_destroyAllBackingImage :: "('w, 'x) egl_api_scheme \<Rightarrow> 'w EglState \<Rightarrow> 'w EglState option" where
  "egl_destroyAllBackingImage api st = egl_destroyAll_loop api (arr_size (imageList st) - 1) st"

text \<open>A free image of the surface's size, attached to it; \<open>NULL\<close> when there is none.\<close>

definition findFreeBackingImage :: "addr \<Rightarrow> NVSurface \<Rightarrow> 'w EglState \<Rightarrow> (addr \<times> 'w EglState) option" where
  "findFreeBackingImage sa s st = do {
     found \<leftarrow> find_image (eglImages st) (\<lambda>img. eb_surface img = NULL \<and> eb_width img = sf_width s \<and> eb_height img = sf_height s)
       (arr_elems (imageList st));
     case found of
       None \<Rightarrow> Some (NULL, st)
     | Some i \<Rightarrow> do { st \<leftarrow> egl_attachBackingImageToSurface sa i st; Some (i, st) }
   }"

section \<open>Allocation\<close>

definition frame_format :: "bool \<Rightarrow> NVSurface \<Rightarrow> CUeglColorFormat \<times> CUarray_format" where
  "frame_format correct s = (case sf_format s of
       cudaVideoSurfaceFormat_NV12 \<Rightarrow> (if correct then YUV420_SEMIPLANAR else YVU420_SEMIPLANAR, UNSIGNED_INT8)
     | cudaVideoSurfaceFormat_P016 \<Rightarrow>
         (if sf_bitDepth s = 10 then Y10V10U10_420_SEMIPLANAR else if sf_bitDepth s = 12 then Y10V10U10_420_SEMIPLANAR else COLOR_UNSET, UNSIGNED_INT16)
     | _ \<Rightarrow> (COLOR_UNSET, FORMAT_UNSET))"

text \<open>
  One event of the stream.  The result tells whether the loop ends, and which image it would return; an image that
  was returned by an earlier event is forgotten.
\<close>

definition handle_event ::
  "('w, 'x) egl_api_scheme \<Rightarrow> NVSurface \<Rightarrow> addr list \<Rightarrow> egl_event \<Rightarrow> addr \<Rightarrow> 'w EglState \<Rightarrow> (bool \<times> addr \<times> 'w EglState) option" where
  "handle_event api s arrays ev ret st = (case ev of
       STREAM_IMAGE_ADD \<Rightarrow> Some (False, ret, st\<lparr>eglWorld := snd (createImage api (eglDisplay st) (eglStream st) (eglWorld st))\<rparr>)
     | STREAM_IMAGE_REMOVE aux \<Rightarrow> Some (False, ret, st\<lparr>eglWorld := destroyImage api (eglDisplay st) aux (eglWorld st)\<rparr>)
     | STREAM_IMAGE_AVAILABLE \<Rightarrow>
         (let (im, w) = acquireImage api (eglDisplay st) (eglStream st) (eglWorld st); st = st\<lparr>eglWorld := w\<rparr> in
          case im of
            None \<Rightarrow> Some (True, ret, st)
          | Some i \<Rightarrow> do { (ret, st) \<leftarrow> createBackingImage api (sf_width s) (sf_height s) i arrays st; Some (False, ret, st) })
     | STREAM_OTHER e \<Rightarrow> Some (False, ret, st))"

partial_function (option) event_loop ::
  "('w, 'x) egl_api_scheme \<Rightarrow> NVSurface \<Rightarrow> addr list \<Rightarrow> addr \<Rightarrow> 'w EglState \<Rightarrow> (addr \<times> 'w EglState) option" where
  "event_loop api s arrays ret st =
     (let (ev, w) = queryEvent api (eglDisplay st) (eglStream st) (eglWorld st) in
      case ev of
        None \<Rightarrow> Some (ret, st\<lparr>eglWorld := w\<rparr>)
      | Some e \<Rightarrow> do {
          (stop, ret, st) \<leftarrow> handle_event api s arrays e ret (st\<lparr>eglWorld := w\<rparr>);
          if stop then Some (ret, st) else event_loop api s arrays ret st
        })"

text \<open>Presenting a frame, with one attempt to connect again.\<close>

definition present :: "('w, 'x) egl_api_scheme \<Rightarrow> CUeglFrame \<Rightarrow> 'w EglState \<Rightarrow> bool \<times> 'w EglState" where
  "present api frame st =
     (let (ok, s) = presentFrame api (cuStreamConnection st) frame (eglWorld st); st = st\<lparr>eglWorld := s\<rparr> in
      if ok then (True, st)
      else let (ok, st) = reconnect api st in
        if \<not> ok then (False, st)
        else let (ok, s) = presentFrame api (cuStreamConnection st) frame (eglWorld st) in (ok, st\<lparr>eglWorld := s\<rparr>))"

definition egl_allocateBackingImage ::
  "('w, 'x) egl_api_scheme \<Rightarrow> NVSurface \<Rightarrow> 'w EglState \<Rightarrow> (addr \<times> 'w EglState) option" where
  "egl_allocateBackingImage api s st =
     (let (color, fmt) = frame_format (useCorrectNV12Format st) s;
          (a0, w) = arrayCreate api \<lparr>ad_Width = sf_width s, ad_Height = sf_height s, ad_NumChannels = 1, ad_Format = fmt\<rparr> (eglWorld st)
      in case a0 of
        None \<Rightarrow> Some (NULL, st\<lparr>eglWorld := w\<rparr>)
      | Some a0 \<Rightarrow>
        let (a1, w) = arrayCreate api \<lparr>ad_Width = drop_bit 1 (sf_width s), ad_Height = drop_bit 1 (sf_height s), ad_NumChannels = 2, ad_Format = fmt\<rparr> w
        in case a1 of
          None \<Rightarrow> Some (NULL, st\<lparr>eglWorld := w\<rparr>)
        | Some a1 \<Rightarrow>
          let (ok, st) = present api \<lparr>fr_width = sf_width s, fr_height = sf_height s, fr_eglColorFormat = color, fr_cuFormat = fmt,
                fr_pArray = [a0, a1, NULL]\<rparr> (st\<lparr>eglWorld := w\<rparr>)
          in if \<not> ok then Some (NULL, st) else event_loop api s [a0, a1, NULL] NULL st)"

section \<open>Realising, exporting\<close>

text \<open>
  The first image of a new kind may come out with the chroma swapped: it is destroyed, and the frame presented again in the
  other format.  The second attempt's image is dereferenced whether there is one or not.
\<close>

definition allocate_corrected ::
  "('w, 'x) egl_api_scheme \<Rightarrow> NVSurface \<Rightarrow> 'w EglState \<Rightarrow> (addr \<times> 'w EglState) option" where
  "allocate_corrected api s st = do {
     (i, st) \<leftarrow> egl_allocateBackingImage api s st;
     if i = NULL then Some (NULL, st)
     else do {
       img \<leftarrow> eglImages st i;
       if eb_fourcc img = DRM_FORMAT_NV21 then do {
         (ok, st) \<leftarrow> egl_destroyBackingImage api i st;
         (i, st) \<leftarrow> egl_allocateBackingImage api s (st\<lparr>useCorrectNV12Format := \<not> useCorrectNV12Format st\<rparr>);
         img \<leftarrow> eglImages st i;
         Some (i, st)
       }
       else Some (i, st)
     }
   }"

definition egl_realise :: "('w, 'x) egl_api_scheme \<Rightarrow> addr \<Rightarrow> NVSurface \<Rightarrow> 'w EglState \<Rightarrow> (bool \<times> 'w EglState) option" where
  "egl_realise api sa s st =
     (if eglBacking st sa \<noteq> NULL then Some (True, st)
      else do {
        (i, st) \<leftarrow> findFreeBackingImage sa s st;
        if i \<noteq> NULL then Some (True, st)
        else do {
          (i, st) \<leftarrow> allocate_corrected api s st;
          if i = NULL then Some (False, st)
          else do {
            st \<leftarrow> egl_attachBackingImageToSurface sa i st;
            arr \<leftarrow> add_element (imageList st) i;
            Some (True, st\<lparr>imageList := arr\<rparr>)
          }
        }
      })"

definition egl_realiseSurface ::
  "('w, 'x) egl_api_scheme \<Rightarrow> addr \<Rightarrow> ('c, 's, 'w EglState) drv \<Rightarrow> (bool \<times> ('c, 's, 'w EglState) drv) option" where
  "egl_realiseSurface api sa d = do {
     d \<leftarrow> lock_surface sa d;
     s \<leftarrow> get_surface d sa;
     (ok, st) \<leftarrow> egl_realise api sa s (bk d);
     d \<leftarrow> unlock_surface sa (with_bk st d);
     Some (ok, d)
   }"

definition egl_copyFrameToSurface ::
  "('w, 'x) egl_api_scheme \<Rightarrow> nat \<Rightarrow> addr \<Rightarrow> u32 \<Rightarrow> ('c, 's, 'w EglState) drv \<Rightarrow> (bool \<times> ('c, 's, 'w EglState) drv) option" where
  "egl_copyFrameToSurface api ptr sa pitch d = do {
     img \<leftarrow> eglImages (bk d) (eglBacking (bk d) sa);
     s \<leftarrow> get_surface d sa;
     let bpp = (if sf_format s = cudaVideoSurfaceFormat_NV12 then 1 else 2);
         (ok, w) = e_copy2d api True \<lparr>cp_srcDevice = ptr, cp_srcY = 0, cp_srcPitch = pitch, cp_dstArray = eb_arrays img ! 0,
           cp_Height = sf_height s, cp_WidthInBytes = sf_width s * bpp\<rparr> (eglWorld (bk d))
     in if \<not> ok then Some (False, with_bk ((bk d)\<lparr>eglWorld := w\<rparr>) d)
        else
          let (ok, w) = e_copy2d api False \<lparr>cp_srcDevice = ptr, cp_srcY = sf_height s, cp_srcPitch = pitch, cp_dstArray = eb_arrays img ! 1,
                cp_Height = drop_bit 1 (sf_height s), cp_WidthInBytes = sf_width s * bpp\<rparr> w;
              d = with_bk ((bk d)\<lparr>eglWorld := w\<rparr>) d
          in if \<not> ok then Some (False, d) else do { d \<leftarrow> notify_resolved sa d; Some (True, d) }
   }"

definition egl_exportCudaPtr ::
  "('w, 'x) egl_api_scheme \<Rightarrow> addr \<Rightarrow> nat \<Rightarrow> u32 \<Rightarrow> ('c, 's, 'w EglState) drv \<Rightarrow> (bool \<times> ('c, 's, 'w EglState) drv) option" where
  "egl_exportCudaPtr api sa ptr pitch d = do {
     (ok, d) \<leftarrow> egl_realiseSurface api sa d;
     if \<not> ok then Some (False, d)
     else if ptr \<noteq> 0 then egl_copyFrameToSurface api ptr sa pitch d
     else Some (True, d)
   }"

definition egl_object :: "int \<Rightarrow> u32 \<Rightarrow> u64 \<Rightarrow> prime_object" where
  "egl_object fd sz m = \<lparr>po_fd = fd, po_size = sz, po_modifier = m\<rparr>"

definition egl_layer :: "EglImage \<Rightarrow> u32 \<Rightarrow> nat \<Rightarrow> prime_layer" where
  "egl_layer img fmt i = \<lparr>pl_drm_format = fmt, pl_num_planes = 1, pl_object_index = i, pl_offset = eb_offsets img ! i, pl_pitch = eb_strides img ! i\<rparr>"

definition egl_fillExportDescriptor ::
  "('w, 'x) egl_api_scheme \<Rightarrow> addr \<Rightarrow> ('c, 's, 'w EglState) drv \<Rightarrow>
   (bool \<times> VADRMPRIMESurfaceDescriptor \<times> ('c, 's, 'w EglState) drv) option" where
  "egl_fillExportDescriptor api sa d = do {
     img \<leftarrow> eglImages (bk d) (eglBacking (bk d) sa);
     let nv12 = (eb_fourcc img = DRM_FORMAT_NV12); bpp = (if nv12 then 1 else 2);
         (f0, w) = e_dup api (eb_fds img ! 0) (eglWorld (bk d));
         (f1, w) = e_dup api (eb_fds img ! 1) w
     in Some (True, \<lparr>pd_fourcc = eb_fourcc img, pd_width = eb_width img, pd_height = eb_height img, pd_num_objects = 2, pd_num_layers = 2,
          pd_objects = [egl_object f0 (eb_width img * eb_height img * bpp) (eb_mods img ! 0),
                        egl_object f1 (eb_width img * drop_bit 1 (eb_height img) * bpp) (eb_mods img ! 1)],
          pd_layers = [egl_layer img (if nv12 then DRM_FORMAT_R8 else DRM_FORMAT_R16) 0,
                       egl_layer img (if nv12 then DRM_FORMAT_RG88 else DRM_FORMAT_RG1616) 1]\<rparr>, with_bk ((bk d)\<lparr>eglWorld := w\<rparr>) d)
   }"

section \<open>The pool\<close>

text \<open>The images of the list.\<close>

definition pool :: "'w EglState \<Rightarrow> addr list" where
  "pool st = map the (arr_elems (imageList st))"

text \<open>
  The list names each of its images once and none that is freed; a surface's image is in the list and belongs to
  that surface alone, and an image that belongs to a surface is the one the surface points to.
\<close>

definition fresh_images :: "'w EglState \<Rightarrow> bool" where
  "fresh_images st \<longleftrightarrow> 0 < nextImage st \<and> eglImages st NULL = None \<and> (\<forall>i \<ge> nextImage st. eglImages st i = None)"

definition egl_inv :: "'w EglState \<Rightarrow> bool" where
  "egl_inv st \<longleftrightarrow> fresh_images st \<and> arr_wf (imageList st) \<and> None \<notin> set (arr_elems (imageList st)) \<and>
     distinct (pool st) \<and> set (pool st) \<subseteq> dom (eglImages st) \<and> eglBacking st NULL = NULL \<and>
     (\<forall>sa. eglBacking st sa \<noteq> NULL \<longrightarrow>
        eglBacking st sa \<in> set (pool st) \<and> (\<exists>img. eglImages st (eglBacking st sa) = Some img \<and> eb_surface img = sa)) \<and>
     (\<forall>i \<in> set (pool st). \<forall>img. eglImages st i = Some img \<longrightarrow>
        eb_fourcc img \<noteq> DRM_FORMAT_NV21 \<and> (eb_surface img \<noteq> NULL \<longrightarrow> eglBacking st (eb_surface img) = i))"

lemma find_image_eq:
  assumes "None \<notin> set ps" "set (map the ps) \<subseteq> dom imgs"
  shows "find_image imgs P ps = Some (find (\<lambda>i. P (the (imgs i))) (map the ps))"
  using assms
proof (induction ps)
  case (Cons p ps)
  then obtain i where p: "p = Some i" by (cases p) auto
  then obtain img where "imgs i = Some img" using Cons.prems(2) by auto
  then show ?case using Cons p by simp
qed simp

lemma find_in_pool:
  assumes "egl_inv st"
  shows "find_image (eglImages st) P (arr_elems (imageList st)) = Some (find (\<lambda>i. P (the (eglImages st i))) (pool st))"
  using assms find_image_eq[of "arr_elems (imageList st)" "eglImages st" P] by (simp add: egl_inv_def pool_def)

lemma pool_simps [simp]:
  "pool (st\<lparr>eglBacking := b\<rparr>) = pool st" "pool (st\<lparr>eglImages := m\<rparr>) = pool st" "pool (st\<lparr>eglWorld := w\<rparr>) = pool st"
  by (simp_all add: pool_def)

text \<open>Giving an image of the list to a surface, and taking it back.\<close>

lemma egl_inv_parts:
  assumes "egl_inv st"
  shows "fresh_images st" "arr_wf (imageList st)" "None \<notin> set (arr_elems (imageList st))" "distinct (pool st)"
    "set (pool st) \<subseteq> dom (eglImages st)" "eglBacking st NULL = NULL"
    and "eglBacking st sa \<noteq> NULL \<Longrightarrow> eglBacking st sa \<in> set (pool st)"
    and "eglBacking st sa \<noteq> NULL \<Longrightarrow> \<exists>img. eglImages st (eglBacking st sa) = Some img \<and> eb_surface img = sa"
    and "i \<in> set (pool st) \<Longrightarrow> eglImages st i = Some img \<Longrightarrow> eb_fourcc img \<noteq> DRM_FORMAT_NV21"
    and "i \<in> set (pool st) \<Longrightarrow> eglImages st i = Some img \<Longrightarrow> eb_surface img \<noteq> NULL \<Longrightarrow> eglBacking st (eb_surface img) = i"
  using assms unfolding egl_inv_def by blast+

lemma fresh_bounds: "fresh_images st \<Longrightarrow> eglImages st i = Some img \<Longrightarrow> i \<noteq> NULL \<and> i < nextImage st"
  unfolding fresh_images_def by (metis not_le option.distinct(1))

text \<open>A change of one image of the list and of the surface it belongs to.\<close>

lemma egl_inv_change:
  assumes inv: "egl_inv st" and i: "i \<in> set (pool st)" "eb_fourcc img \<noteq> DRM_FORMAT_NV21" and sa: "sa \<noteq> NULL"
    and b: "b = i \<and> eb_surface img = sa \<or> b = NULL \<and> eb_surface img = NULL"
    and o: "\<And>x. x \<noteq> sa \<Longrightarrow> eglBacking st x \<noteq> i" "eglBacking st sa = NULL \<or> eglBacking st sa = i"
  shows "egl_inv (st\<lparr>eglBacking := (eglBacking st)(sa := b), eglImages := (eglImages st)(i \<mapsto> img)\<rparr>)"
proof -
  note p = egl_inv_parts[OF inv]
  have n: "i \<noteq> NULL" "i < nextImage st" using p(5) i(1) fresh_bounds[OF p(1), of i] by auto
  let ?B = "(eglBacking st)(sa := b)" and ?M = "(eglImages st)(i \<mapsto> img)"
  have c1: "?B x \<in> set (pool st) \<and> (\<exists>y. ?M (?B x) = Some y \<and> eb_surface y = x)" if "?B x \<noteq> NULL" for x
  proof (cases "x = sa")
    case True
    then show ?thesis using that b i(1) by auto
  next
    case False
    then show ?thesis using that p(7,8)[of x] o(1)[of x] by auto
  qed
  have c2: "eb_fourcc y \<noteq> DRM_FORMAT_NV21 \<and> (eb_surface y \<noteq> NULL \<longrightarrow> ?B (eb_surface y) = l)"
    if "l \<in> set (pool st)" "?M l = Some y" for l y
  proof (cases "l = i")
    case True
    then show ?thesis using that b i(2) sa by auto
  next
    case False
    then have y: "eglImages st l = Some y" using that(2) by simp
    have "l \<noteq> NULL" using fresh_bounds[OF p(1) y] by simp
    then have "eb_surface y \<noteq> sa" using p(10)[OF that(1) y] o(2) False sa by metis
    then show ?thesis using p(9,10)[OF that(1) y] by simp
  qed
  have "?M l = None" if "nextImage st \<le> l" for l using p(1) n(2) that unfolding fresh_images_def by simp
  then have "fresh_images (st\<lparr>eglBacking := ?B, eglImages := ?M\<rparr>)" using p(1) n(1) unfolding fresh_images_def by simp
  then show ?thesis using p(2-6) c1 c2 sa unfolding egl_inv_def by (simp add: subset_insertI2)
qed

lemma egl_inv_attach:
  assumes inv: "egl_inv st" and sa: "sa \<noteq> NULL" "eglBacking st sa = NULL" and i: "i \<in> set (pool st)" "eglImages st i = Some img" "eb_surface img = NULL"
  shows "egl_inv (st\<lparr>eglBacking := (eglBacking st)(sa := i), eglImages := (eglImages st)(i \<mapsto> img\<lparr>eb_surface := sa\<rparr>)\<rparr>)"
proof (rule egl_inv_change[OF inv i(1) _ sa(1)])
  note p = egl_inv_parts[OF inv]
  show "eb_fourcc (img\<lparr>eb_surface := sa\<rparr>) \<noteq> DRM_FORMAT_NV21" using p(9)[OF i(1,2)] by simp
  have n: "i \<noteq> NULL" using fresh_bounds[OF p(1) i(2)] by simp
  show "eglBacking st x \<noteq> i" if "x \<noteq> sa" for x
  proof
    assume x: "eglBacking st x = i"
    then have "eb_surface img = x" using p(8)[of x] n i(2) by auto
    then show False using x i(3) n p(6) by simp
  qed
qed (use sa(2) in simp_all)

lemma egl_inv_release:
  assumes inv: "egl_inv st" and i: "eglBacking st sa = i" "i \<noteq> NULL" "eglImages st i = Some img"
  shows "egl_inv (st\<lparr>eglBacking := (eglBacking st)(sa := NULL), eglImages := (eglImages st)(i \<mapsto> img\<lparr>eb_surface := NULL\<rparr>)\<rparr>)"
proof -
  note p = egl_inv_parts[OF inv]
  have "sa \<noteq> NULL" using p(6) i(1,2) by metis
  then have s: "i \<in> set (pool st)" "eb_surface img = sa" "sa \<noteq> NULL" using p(7,8)[of sa] i by auto
  have "eglBacking st x \<noteq> i" if "x \<noteq> sa" for x using p(8)[of x] i s that by auto
  then show ?thesis
    using p(9)[OF s(1) i(3)] i(1) by (intro egl_inv_change[OF inv s(1) _ s(3)]) auto
qed

lemma egl_detach_spec:
  assumes inv: "egl_inv (bk d)"
  shows "\<exists>st. egl_detachBackingImageFromSurface api sa d = Some (with_bk st d) \<and> egl_inv st \<and> eglBacking st = (eglBacking (bk d))(sa := NULL) \<and>
    eglWorld st = eglWorld (bk d) \<and> imageList st = imageList (bk d) \<and>
    eglImages st = (if eglBacking (bk d) sa = NULL then eglImages (bk d)
      else (eglImages (bk d))(eglBacking (bk d) sa \<mapsto> (the (eglImages (bk d) (eglBacking (bk d) sa)))\<lparr>eb_surface := NULL\<rparr>))"
proof (cases "eglBacking (bk d) sa = NULL")
  case True
  then show ?thesis using inv by (intro exI[of _ "bk d"]) (simp add: egl_detachBackingImageFromSurface_def fun_upd_idem)
next
  case False
  let ?st = "bk d" and ?i = "eglBacking (bk d) sa"
  obtain img where img: "eglImages ?st ?i = Some img" "eb_surface img = sa" "?i \<in> set (pool ?st)"
    using inv False unfolding egl_inv_def by blast
  have s: "sa \<noteq> NULL" using inv False unfolding egl_inv_def by metis
  have "eb_fourcc img \<noteq> DRM_FORMAT_NV21" using inv img(1,3) unfolding egl_inv_def by blast
  note s = s this
  have "find (\<lambda>i. eb_surface (the (eglImages ?st i)) = sa) (pool ?st) \<noteq> None"
    using img by (auto simp: find_None_iff)
  then obtain j where j: "find (\<lambda>i. eb_surface (the (eglImages ?st i)) = sa) (pool ?st) = Some j" by blast
  then have "j \<in> set (pool ?st)" "eb_surface (the (eglImages ?st j)) = sa"
    by (auto simp: find_Some_iff)
  then have ji: "j = ?i" using inv s(1) unfolding egl_inv_def by fastforce
  let ?st' = "?st\<lparr>eglBacking := (eglBacking ?st)(sa := NULL), eglImages := (eglImages ?st)(?i \<mapsto> img\<lparr>eb_surface := NULL\<rparr>)\<rparr>"
  have u: "?st\<lparr>eglImages := m, eglBacking := x\<rparr> = ?st\<lparr>eglBacking := x, eglImages := m\<rparr>" for m x by simp
  have "egl_detachBackingImageFromSurface api sa d = Some (with_bk ?st' d)"
    using False img(1) s(2) find_in_pool[OF inv, of "\<lambda>img. eb_surface img = sa"] j
    by (simp add: egl_detachBackingImageFromSurface_def ji Let_def u)
  then show ?thesis using egl_inv_release[OF inv refl False img(1)] img(1) False by (intro exI[of _ ?st']) simp
qed

interpretation egl: surface_backend egl_inv "egl_detachBackingImageFromSurface api" for api
proof
  fix a
  show "keeps_driver egl_inv (egl_detachBackingImageFromSurface api a)"
    unfolding keeps_driver_def using egl_detach_spec by (metis with_bk_simps(1,4))
qed

section \<open>Allocating an image\<close>

text \<open>
  What EGL promises: the queue of events of a stream is finite, nothing but presenting a frame puts an event in, and, as of the
  drivers that fixed it, no image is exported with the chroma swapped.
\<close>

definition egl_ok :: "('w, 'x) egl_api_scheme \<Rightarrow> ('w \<Rightarrow> nat) \<Rightarrow> bool" where
  "egl_ok api pending \<longleftrightarrow> memory_left api \<and>
     (\<forall>dpy str s e s'. queryEvent api dpy str s = (Some e, s') \<longrightarrow> pending s' < pending s) \<and>
     (\<forall>dpy str s. pending (snd (createImage api dpy str s)) \<le> pending s) \<and> (\<forall>dpy im s. pending (destroyImage api dpy im s) \<le> pending s) \<and>
     (\<forall>dpy str s. pending (snd (acquireImage api dpy str s)) \<le> pending s) \<and>
     (\<forall>dpy im s. pending (snd (exportQuery api dpy im s)) \<le> pending s) \<and> (\<forall>dpy im s. pending (snd (exportDmabuf api dpy im s)) \<le> pending s) \<and>
     (\<forall>dpy im s f m s'. exportQuery api dpy im s = (Some (f, m), s') \<longrightarrow> f \<noteq> DRM_FORMAT_NV21)"

text \<open>New images are free, of the surface's size and not swapped; everything else stays.\<close>

definition allocated :: "NVSurface \<Rightarrow> 'w EglState \<Rightarrow> 'w EglState \<Rightarrow> bool" where
  "allocated s st st' \<longleftrightarrow> eglBacking st' = eglBacking st \<and> imageList st' = imageList st \<and> nextImage st \<le> nextImage st' \<and>
     (\<forall>i < nextImage st. eglImages st' i = eglImages st i) \<and>
     (\<forall>i img. nextImage st \<le> i \<longrightarrow> eglImages st' i = Some img \<longrightarrow> i < nextImage st' \<and> eb_surface img = NULL \<and>
        eb_width img = sf_width s \<and> eb_height img = sf_height s \<and> eb_fourcc img \<noteq> DRM_FORMAT_NV21)"

lemma allocated_fresh: "fresh_images st \<Longrightarrow> allocated s st st' \<Longrightarrow> fresh_images st'"
proof -
  assume f: "fresh_images st" and a: "allocated s st st'"
  have "eglImages st' i = None" if "nextImage st' \<le> i" for i
  proof (rule ccontr)
    assume "eglImages st' i \<noteq> None"
    then obtain img where "eglImages st' i = Some img" by blast
    moreover have "nextImage st \<le> i" using a that unfolding allocated_def by simp
    ultimately show False using a that unfolding allocated_def by (meson not_le)
  qed
  then show ?thesis using f a unfolding fresh_images_def allocated_def by auto
qed

lemma allocated_trans:
  assumes "allocated s st st1" "allocated s st1 st2"
  shows "allocated s st st2"
proof -
  have "i < nextImage st2 \<and> eb_surface img = NULL \<and> eb_width img = sf_width s \<and> eb_height img = sf_height s \<and> eb_fourcc img \<noteq> DRM_FORMAT_NV21"
    if "nextImage st \<le> i" "eglImages st2 i = Some img" for i img
    using assms that unfolding allocated_def by (cases "i < nextImage st1") (auto simp: not_less)
  then show ?thesis using assms unfolding allocated_def by auto
qed

lemma allocated_step:
  assumes "fresh_images st" "eglBacking st' = eglBacking st" "imageList st' = imageList st" "nextImage st' = nextImage st" "eglImages st' = eglImages st"
  shows "allocated s st st'"
  using assms by (auto simp: allocated_def fresh_images_def)

lemma createBackingImage_spec:
  assumes e: "egl_ok api pending" and f: "fresh_images st"
  shows "\<exists>r st'. createBackingImage api (sf_width s) (sf_height s) im arrays st = Some (r, st') \<and> allocated s st st' \<and>
    pending (eglWorld st') \<le> pending (eglWorld st) \<and> (r \<noteq> NULL \<longrightarrow> r = nextImage st \<and> eglImages st' r \<noteq> None)"
proof -
  define img0 where "img0 = \<lparr>eb_surface = NULL, eb_image = im, eb_arrays = take 2 arrays, eb_width = sf_width s, eb_height = sf_height s, eb_fourcc = 0,
            eb_fds = [0, 0, 0, 0], eb_offsets = [0, 0, 0, 0], eb_strides = [0, 0, 0, 0], eb_mods = [0, 0, 0, 0 :: u64]\<rparr>"
  have i0: "eb_surface img0 = NULL" "eb_width img0 = sf_width s" "eb_height img0 = sf_height s" by (simp_all add: img0_def)
  obtain r w where x: "exportBackingImage api (eglDisplay st) img0 (eglWorld st) = (r, w)" by force
  obtain q1 w1 where q: "exportQuery api (eglDisplay st) (eb_image img0) (eglWorld st) = (q1, w1)" by force
  obtain q2 w2 where q2: "exportDmabuf api (eglDisplay st) (eb_image img0) w1 = (q2, w2)" by force
  have p: "pending w1 \<le> pending (eglWorld st)" "pending w2 \<le> pending w1"
    using e q q2 unfolding egl_ok_def by (metis snd_conv)+
  have qf: "f \<noteq> DRM_FORMAT_NV21" if "q1 = Some (f, m)" for f m
    using e q that unfolding egl_ok_def by blast
  have w: "pending w \<le> pending (eglWorld st)" and
      k: "r = Some img \<Longrightarrow> eb_surface img = NULL \<and> eb_width img = sf_width s \<and> eb_height img = sf_height s \<and> eb_fourcc img \<noteq> DRM_FORMAT_NV21" for img
    using x p i0 qf unfolding exportBackingImage_def q
    by (auto simp: q2 split: option.splits prod.splits)
  have m: "memory_left api" using e by (simp add: egl_ok_def)
  show ?thesis
  proof (cases r)
    case None
    then have "createBackingImage api (sf_width s) (sf_height s) im arrays st = Some (NULL, st\<lparr>eglWorld := w\<rparr>)"
      using m x by (simp add: createBackingImage_def img0_def[symmetric])
    then show ?thesis using w allocated_step[OF f] by (intro exI[of _ NULL] exI[of _ "st\<lparr>eglWorld := w\<rparr>"]) simp
  next
    case (Some img)
    let ?st = "st\<lparr>eglWorld := w, eglImages := (eglImages st)(nextImage st \<mapsto> img), nextImage := Suc (nextImage st)\<rparr>"
    have "createBackingImage api (sf_width s) (sf_height s) im arrays st = Some (nextImage st, ?st)"
      using m x Some by (simp add: createBackingImage_def img0_def[symmetric])
    moreover have "allocated s st ?st" using f k[OF Some] by (auto simp: allocated_def fresh_images_def)
    ultimately show ?thesis using w by (intro exI[of _ "nextImage st"] exI[of _ ?st]) simp
  qed
qed

text \<open>The loop over the events returns, with an image that an event of this call made, or with none.\<close>

definition new_or_none :: "'w EglState \<Rightarrow> addr \<Rightarrow> 'w EglState \<Rightarrow> bool" where
  "new_or_none st r st' \<longleftrightarrow> r \<noteq> NULL \<longrightarrow> nextImage st \<le> r \<and> eglImages st' r \<noteq> None"

lemma handle_event_spec:
  assumes e: "egl_ok api pending" and f: "fresh_images st"
  shows "\<exists>stop r st'. handle_event api s arrays ev ret st = Some (stop, r, st') \<and> allocated s st st' \<and>
    pending (eglWorld st') \<le> pending (eglWorld st) \<and> (r = ret \<or> new_or_none st r st')"
proof (cases ev)
  case STREAM_IMAGE_AVAILABLE
  obtain im w where a: "acquireImage api (eglDisplay st) (eglStream st) (eglWorld st) = (im, w)" by force
  have w: "pending w \<le> pending (eglWorld st)" using e a unfolding egl_ok_def by (metis snd_conv)
  have al: "allocated s st (st\<lparr>eglWorld := w\<rparr>)" by (rule allocated_step[OF f]) simp_all
  show ?thesis
  proof (cases im)
    case None
    then show ?thesis using STREAM_IMAGE_AVAILABLE a w al by (auto simp: handle_event_def)
  next
    case (Some i)
    have "fresh_images (st\<lparr>eglWorld := w\<rparr>)" using f by (simp add: fresh_images_def)
    from createBackingImage_spec[OF e this, of s i arrays] obtain r st' where c:
        "createBackingImage api (sf_width s) (sf_height s) i arrays (st\<lparr>eglWorld := w\<rparr>) = Some (r, st')" "allocated s (st\<lparr>eglWorld := w\<rparr>) st'"
        "pending (eglWorld st') \<le> pending w" "r \<noteq> NULL \<longrightarrow> r = nextImage st \<and> eglImages st' r \<noteq> None"
      by auto
    have "handle_event api s arrays ev ret st = Some (False, r, st')"
      using STREAM_IMAGE_AVAILABLE a Some c(1) by (simp add: handle_event_def)
    then show ?thesis using allocated_trans[OF al c(2)] c(3,4) w by (auto simp: new_or_none_def)
  qed
qed (use e allocated_step[OF f] in \<open>auto simp: handle_event_def egl_ok_def\<close>)

lemma event_loop_spec:
  assumes e: "egl_ok api pending" and f: "fresh_images st"
  shows "\<exists>r st'. event_loop api s arrays ret st = Some (r, st') \<and> allocated s st st' \<and> (r = ret \<or> new_or_none st r st')"
  using f
proof (induction "pending (eglWorld st)" arbitrary: st ret rule: less_induct)
  case less
  obtain ev w where q: "queryEvent api (eglDisplay st) (eglStream st) (eglWorld st) = (ev, w)" by force
  have al: "allocated s st (st\<lparr>eglWorld := w\<rparr>)" by (rule allocated_step[OF less.prems]) simp_all
  show ?case
  proof (cases ev)
    case None
    then show ?thesis using q al by (subst event_loop.simps) simp
  next
    case (Some x)
    have "queryEvent api (eglDisplay st) (eglStream st) (eglWorld st) = (Some x, w)" using q Some by simp
    then have lt: "pending w < pending (eglWorld st)" by (rule e[unfolded egl_ok_def, THEN conjunct2, THEN conjunct1, rule_format])
    have fw: "fresh_images (st\<lparr>eglWorld := w\<rparr>)" by (rule allocated_fresh[OF less.prems al])
    obtain stop r1 st1 where h: "handle_event api s arrays x ret (st\<lparr>eglWorld := w\<rparr>) = Some (stop, r1, st1)" "allocated s (st\<lparr>eglWorld := w\<rparr>) st1"
        "pending (eglWorld st1) \<le> pending w" "r1 = ret \<or> new_or_none st r1 st1"
      using handle_event_spec[OF e fw, of s arrays x ret] by (auto simp: new_or_none_def)
    have a1: "allocated s st st1" by (rule allocated_trans[OF al h(2)])
    show ?thesis
    proof (cases stop)
      case True
      then show ?thesis using q Some h(1,4) a1 by (subst event_loop.simps) simp
    next
      case False
      have "pending (eglWorld st1) < pending (eglWorld st)" using h(3) lt by simp
      from less.hyps[OF this allocated_fresh[OF less.prems a1]] obtain r2 st2 where i:
          "event_loop api s arrays r1 st1 = Some (r2, st2)" "allocated s st1 st2" "r2 = r1 \<or> new_or_none st1 r2 st2" by blast
      have keep: "eglImages st2 r1 \<noteq> None" if "new_or_none st r1 st1" "r1 \<noteq> NULL"
      proof -
        have "eglImages st1 r1 \<noteq> None" using that by (simp add: new_or_none_def)
        then have "r1 < nextImage st1" using fresh_bounds[OF allocated_fresh[OF less.prems a1]] by blast
        then show ?thesis using i(2) \<open>eglImages st1 r1 \<noteq> None\<close> by (simp add: allocated_def)
      qed
      have "nextImage st \<le> nextImage st1" using a1 by (simp add: allocated_def)
      then have "r2 = ret \<or> new_or_none st r2 st2"
        using i(3) h(4) keep unfolding new_or_none_def by auto
      moreover have "event_loop api s arrays ret st = Some (r2, st2)"
        using q Some h(1) i(1) False by (subst event_loop.simps) simp
      ultimately show ?thesis using allocated_trans[OF a1 i(2)] by blast
    qed
  qed
qed

lemma reconnect_keeps:
  assumes "reconnect api st = (ok, st')"
  shows "eglBacking st' = eglBacking st \<and> imageList st' = imageList st \<and> nextImage st' = nextImage st \<and> eglImages st' = eglImages st"
  using assms by (auto simp: reconnect_def Let_def split: prod.splits if_splits option.splits)

lemma present_keeps:
  assumes "present api frame st = (ok, st')"
  shows "eglBacking st' = eglBacking st \<and> imageList st' = imageList st \<and> nextImage st' = nextImage st \<and> eglImages st' = eglImages st"
proof -
  obtain ok1 w1 where 1: "presentFrame api (cuStreamConnection st) frame (eglWorld st) = (ok1, w1)" by force
  obtain ok2 st2 where 2: "reconnect api (st\<lparr>eglWorld := w1\<rparr>) = (ok2, st2)" by force
  obtain ok3 w3 where 3: "presentFrame api (cuStreamConnection st2) frame (eglWorld st2) = (ok3, w3)" by force
  have "st' \<in> {st\<lparr>eglWorld := w1\<rparr>, st2, st2\<lparr>eglWorld := w3\<rparr>}"
    using assms by (auto simp: present_def 1 2 3 Let_def split: if_splits)
  then show ?thesis using reconnect_keeps[OF 2] by auto
qed

lemma egl_allocate_spec:
  assumes e: "egl_ok api pending" and f: "fresh_images st"
  shows "\<exists>r st'. egl_allocateBackingImage api s st = Some (r, st') \<and> allocated s st st' \<and> new_or_none st r st'"
proof -
  obtain color fmt where c: "frame_format (useCorrectNV12Format st) s = (color, fmt)" by force
  obtain a0 w1 where 1: "arrayCreate api \<lparr>ad_Width = sf_width s, ad_Height = sf_height s, ad_NumChannels = 1, ad_Format = fmt\<rparr> (eglWorld st) = (a0, w1)"
    by force
  obtain a1 w2 where 2: "arrayCreate api \<lparr>ad_Width = drop_bit 1 (sf_width s), ad_Height = drop_bit 1 (sf_height s), ad_NumChannels = 2, ad_Format = fmt\<rparr> w1 = (a1, w2)"
    by force
  have none: ?thesis if "egl_allocateBackingImage api s st = Some (NULL, st\<lparr>eglWorld := w\<rparr>)" for w
    using that allocated_step[OF f] by (intro exI[of _ NULL] exI[of _ "st\<lparr>eglWorld := w\<rparr>"]) (simp add: new_or_none_def)
  show ?thesis
  proof (cases "a0 = None \<or> a1 = None")
    case True
    then have "\<exists>w. egl_allocateBackingImage api s st = Some (NULL, st\<lparr>eglWorld := w\<rparr>)"
    proof (cases a0)
      case None
      then show ?thesis unfolding egl_allocateBackingImage_def c Let_def prod.case 1 None option.case by blast
    next
      case (Some x)
      then have n: "a1 = None" using True by simp
      show ?thesis unfolding egl_allocateBackingImage_def c Let_def prod.case 1 Some option.case 2 n by blast
    qed
    then show ?thesis using none by blast
  next
    case False
    then obtain x y where xy: "a0 = Some x" "a1 = Some y" by (cases a0; cases a1) auto
    obtain ok st2 where p: "present api \<lparr>fr_width = sf_width s, fr_height = sf_height s, fr_eglColorFormat = color, fr_cuFormat = fmt,
                fr_pArray = [x, y, NULL]\<rparr> (st\<lparr>eglWorld := w2\<rparr>) = (ok, st2)" by force
    have al: "allocated s st st2" using present_keeps[OF p] by (intro allocated_step[OF f]) simp_all
    have r: "egl_allocateBackingImage api s st = (if \<not> ok then Some (NULL, st2) else event_loop api s [x, y, NULL] NULL st2)"
      unfolding egl_allocateBackingImage_def c Let_def prod.case 1 xy option.case 2 p by simp
    have n: "nextImage st2 = nextImage st" using present_keeps[OF p] by simp
    show ?thesis
    proof (cases ok)
      case False
      then show ?thesis using r al by (intro exI[of _ NULL] exI[of _ st2]) (simp add: new_or_none_def)
    next
      case True
      obtain r3 st3 where l: "event_loop api s [x, y, NULL] NULL st2 = Some (r3, st3)" "allocated s st2 st3" "r3 = NULL \<or> new_or_none st2 r3 st3"
        using event_loop_spec[OF e allocated_fresh[OF f al]] by blast
      then show ?thesis using r True allocated_trans[OF al l(2)] n
        by (intro exI[of _ r3] exI[of _ st3]) (auto simp: new_or_none_def)
    qed
  qed
qed

section \<open>Realising a surface\<close>

text \<open>Whatever happens, the pool keeps its images and only grows; a surface that was without an image has one when the call succeeds.\<close>

definition pool_step :: "addr \<Rightarrow> bool \<Rightarrow> 'w EglState \<Rightarrow> 'w EglState \<Rightarrow> bool" where
  "pool_step sa r st st' \<longleftrightarrow> (r \<longrightarrow> eglBacking st' sa \<noteq> NULL) \<and> (\<forall>x. x \<noteq> sa \<longrightarrow> eglBacking st' x = eglBacking st x) \<and>
     (\<exists>new. pool st' = pool st @ new \<and> length new \<le> 1)"

lemma egl_inv_allocated:
  assumes inv: "egl_inv st" and a: "allocated s st st'"
  shows "egl_inv st'" "pool st' = pool st"
proof -
  note p = egl_inv_parts[OF inv]
  show pl: "pool st' = pool st" using a by (simp add: pool_def allocated_def)
  have same: "eglImages st' i = eglImages st i" if "i \<in> set (pool st)" for i
    using p(5) that fresh_bounds[OF p(1), of i] a unfolding allocated_def by auto
  have b: "eglBacking st' = eglBacking st" "imageList st' = imageList st" using a by (simp_all add: allocated_def)
  have sub: "set (pool st) \<subseteq> dom (eglImages st')" using p(5) same by (auto simp: dom_def)
  have c1: "eglBacking st sa \<in> set (pool st) \<and> (\<exists>img. eglImages st' (eglBacking st sa) = Some img \<and> eb_surface img = sa)"
    if "eglBacking st sa \<noteq> NULL" for sa
    using p(7,8)[OF that] same by simp
  have c2: "eb_fourcc img \<noteq> DRM_FORMAT_NV21 \<and> (eb_surface img \<noteq> NULL \<longrightarrow> eglBacking st (eb_surface img) = i)"
    if "i \<in> set (pool st)" "eglImages st' i = Some img" for i img
    using p(9,10)[OF that(1)] that same[OF that(1)] by simp
  show "egl_inv st'" unfolding egl_inv_def b pl
    using allocated_fresh[OF p(1) a] p(2,3,4,6) sub c1 c2 by blast
qed

lemma egl_realise_spec:
  assumes e: "egl_ok api pending" and inv: "egl_inv st" and sa: "sa \<noteq> NULL" and room: "length (pool st) < 2 ^ 31"
  shows "\<exists>r st'. egl_realise api sa s st = Some (r, st') \<and> egl_inv st' \<and> pool_step sa r st st' \<and>
    ((\<exists>i \<in> set (pool st). \<exists>img. eglImages st i = Some img \<and> eb_surface img = NULL \<and> eb_width img = sf_width s \<and> eb_height img = sf_height s) \<longrightarrow>
       r \<and> eglWorld st' = eglWorld st \<and> pool st' = pool st)"
proof (cases "eglBacking st sa = NULL")
  case False
  then show ?thesis using inv
    by (intro exI[of _ True] exI[of _ st]) (simp add: egl_realise_def pool_step_def)
next
  case n: True
  note p = egl_inv_parts[OF inv]
  let ?P = "\<lambda>img. eb_surface img = NULL \<and> eb_width img = sf_width s \<and> eb_height img = sf_height s"
  let ?free = "\<exists>i \<in> set (pool st). \<exists>img. eglImages st i = Some img \<and> ?P img"
  note fi = find_in_pool[OF inv, of ?P]
  show ?thesis
  proof (cases "find (\<lambda>i. ?P (the (eglImages st i))) (pool st)")
    case (Some i)
    then have "i \<in> set (pool st)" "?P (the (eglImages st i))" by (auto simp: find_Some_iff)
    then obtain img where i: "i \<in> set (pool st)" "eglImages st i = Some img" "eb_surface img = NULL" using p(5) by fastforce
    let ?st = "st\<lparr>eglBacking := (eglBacking st)(sa := i), eglImages := (eglImages st)(i \<mapsto> img\<lparr>eb_surface := sa\<rparr>)\<rparr>"
    have "i \<noteq> NULL" using fresh_bounds[OF p(1) i(2)] by simp
    then have "egl_realise api sa s st = Some (True, ?st)"
      using n fi Some i(2) by (simp add: egl_realise_def findFreeBackingImage_def egl_attachBackingImageToSurface_def)
    moreover have "pool_step sa True st ?st" using \<open>i \<noteq> NULL\<close> by (simp add: pool_step_def)
    ultimately show ?thesis using egl_inv_attach[OF inv sa n i] by (intro exI[of _ True] exI[of _ ?st]) simp
  next
    case None
    have nf: "\<not> ?free"
    proof
      assume ?free
      then obtain i img where "i \<in> set (pool st)" "eglImages st i = Some img" "?P img" by blast
      then have "i \<in> set (pool st)" "?P (the (eglImages st i))" by simp_all
      then show False using None unfolding find_None_iff by blast
    qed
    obtain i st1 where a: "egl_allocateBackingImage api s st = Some (i, st1)" "allocated s st st1" "new_or_none st i st1"
      using egl_allocate_spec[OF e p(1)] by blast
    note inv1 = egl_inv_allocated[OF inv a(2)]
    have ff: "findFreeBackingImage sa s st = Some (NULL, st)" using fi None by (simp add: findFreeBackingImage_def)
    show ?thesis
    proof (cases "i = NULL")
      case True
      then have "egl_realise api sa s st = Some (False, st1)" using n ff a(1) by (simp add: egl_realise_def allocate_corrected_def)
      moreover have "pool_step sa False st st1" using a(2) inv1(2) by (simp add: pool_step_def allocated_def)
      ultimately show ?thesis using inv1(1) nf by blast
    next
      case False
      then obtain img where i: "nextImage st \<le> i" "eglImages st1 i = Some img" using a(3) by (auto simp: new_or_none_def)
      then have img: "eb_surface img = NULL" "eb_fourcc img \<noteq> DRM_FORMAT_NV21" using a(2) unfolding allocated_def by blast+
      have ac: "allocate_corrected api s st = Some (i, st1)" using a(1) False i(2) img(2) by (simp add: allocate_corrected_def)
      have il: "imageList st1 = imageList st" using a(2) by (simp add: allocated_def)
      have "length (arr_elems (imageList st)) < 2 ^ 31" using room by (simp add: pool_def)
      from add_element_spec[OF p(2) this, of i] obtain arr where
        arr: "add_element (imageList st) i = Some arr" "arr_wf arr" "arr_elems arr = arr_elems (imageList st) @ [Some i]" by blast
      have ni: "i \<notin> set (pool st)" using p(5) i(1) fresh_bounds[OF p(1), of i] by auto
      let ?st2 = "st1\<lparr>imageList := arr\<rparr>"
      have pl: "pool ?st2 = pool st @ [i]" using arr(3) by (simp add: pool_def)
      have inv2: "egl_inv ?st2"
      proof -
        note p1 = egl_inv_parts[OF inv1(1)]
        have "None \<notin> set (arr_elems arr)" using arr(3) p(3) by simp
        moreover have "distinct (pool ?st2)" using pl ni p(4) by simp
        moreover have "set (pool ?st2) \<subseteq> dom (eglImages st1)" using pl p1(5) inv1(2) i(2) by auto
        moreover have "eglBacking st1 x \<in> set (pool ?st2) \<and> (\<exists>y. eglImages st1 (eglBacking st1 x) = Some y \<and> eb_surface y = x)"
          if "eglBacking st1 x \<noteq> NULL" for x
          using p1(7,8)[OF that] inv1(2) pl by simp
        moreover have "eb_fourcc y \<noteq> DRM_FORMAT_NV21 \<and> (eb_surface y \<noteq> NULL \<longrightarrow> eglBacking st1 (eb_surface y) = j)"
          if "j \<in> set (pool ?st2)" "eglImages st1 j = Some y" for j y
          using p1(9,10)[of j y] inv1(2) that pl i(2) img by (cases "j = i") auto
        moreover have "fresh_images ?st2" using p1(1) by (simp add: fresh_images_def)
        ultimately show ?thesis using arr(2) p1(6) unfolding egl_inv_def by simp
      qed
      have n2: "eglBacking ?st2 sa = NULL" using n a(2) by (simp add: allocated_def)
      let ?st3 = "?st2\<lparr>eglBacking := (eglBacking ?st2)(sa := i), eglImages := (eglImages ?st2)(i \<mapsto> img\<lparr>eb_surface := sa\<rparr>)\<rparr>"
      have inv3: "egl_inv ?st3" by (rule egl_inv_attach[OF inv2 sa n2]) (use pl i(2) img(1) in simp_all)
      have u: "st1\<lparr>eglBacking := b, eglImages := m, imageList := arr\<rparr> = st1\<lparr>imageList := arr, eglBacking := b, eglImages := m\<rparr>" for b m by simp
      have r: "egl_realise api sa s st = Some (True, ?st3)"
        using n ff ac False i(2) il arr(1) by (simp add: egl_realise_def egl_attachBackingImageToSurface_def u)
      have "pool_step sa True st ?st3" using False pl a(2) by (simp add: pool_step_def allocated_def)
      then show ?thesis using r inv3 nf by blast
    qed
  qed
qed

lemma egl_realiseSurface_spec:
  assumes e: "egl_ok api pending" and inv: "egl_inv (bk d)" and sa: "sa \<noteq> NULL" and h: "heap d sa = Some (PSurface s)" "\<not> sf_locked s"
    and room: "length (pool (bk d)) < 2 ^ 31"
  shows "\<exists>r st. egl_realiseSurface api sa d = Some (r, with_bk st d) \<and> egl_inv st \<and> pool_step sa r (bk d) st \<and>
    ((\<exists>i \<in> set (pool (bk d)). \<exists>img. eglImages (bk d) i = Some img \<and> eb_surface img = NULL \<and> eb_width img = sf_width s \<and> eb_height img = sf_height s) \<longrightarrow>
       r \<and> eglWorld st = eglWorld (bk d) \<and> pool st = pool (bk d))"
proof -
  let ?s = "s\<lparr>sf_locked := True\<rparr>" and ?d = "put_obj sa (PSurface (s\<lparr>sf_locked := True\<rparr>)) d"
  obtain r st where c: "egl_realise api sa ?s (bk d) = Some (r, st)" "egl_inv st" "pool_step sa r (bk d) st"
      "(\<exists>i \<in> set (pool (bk d)). \<exists>img. eglImages (bk d) i = Some img \<and> eb_surface img = NULL \<and> eb_width img = sf_width s \<and> eb_height img = sf_height s) \<longrightarrow>
       r \<and> eglWorld st = eglWorld (bk d) \<and> pool st = pool (bk d)"
    using egl_realise_spec[OF e inv sa room, of ?s] by auto
  have u: "s\<lparr>sf_locked := False\<rparr> = s" using h(2) by (cases s) simp
  have "unlock_surface sa (with_bk st ?d) = Some (with_bk st (put_obj sa (PSurface s) ?d))"
    using u by (simp add: unlock_surface_def put_obj_twice)
  moreover have "put_obj sa (PSurface s) ?d = d" using h(1) by (simp add: put_obj_def fun_upd_idem)
  ultimately have "egl_realiseSurface api sa d = Some (r, with_bk st d)"
    using c(1) h by (simp add: egl_realiseSurface_def lock_surface_def get_surface_def put_obj_more)
  then show ?thesis using c by blast
qed

lemma egl_inv_world: "egl_inv st \<Longrightarrow> egl_inv (st\<lparr>eglWorld := w\<rparr>)"
  by (simp add: egl_inv_def fresh_images_def)

lemma egl_copy_spec:
  assumes inv: "egl_inv (bk d)" and b: "eglBacking (bk d) sa \<noteq> NULL" and h: "heap d sa = Some (PSurface s)" "\<not> sf_locked s"
  shows "\<exists>r w. egl_copyFrameToSurface api ptr sa pitch d = Some (r, with_bk ((bk d)\<lparr>eglWorld := w\<rparr>)
    (put_obj sa (PSurface (if r then s\<lparr>sf_status := VASurfaceReady, sf_resolving := False\<rparr> else s)) d))"
proof -
  obtain img where img: "eglImages (bk d) (eglBacking (bk d) sa) = Some img" using egl_inv_parts(8)[OF inv b] by blast
  define bpp :: u32 where "bpp = (if sf_format s = cudaVideoSurfaceFormat_NV12 then 1 else 2)"
  obtain ok1 w1 where 1: "e_copy2d api True \<lparr>cp_srcDevice = ptr, cp_srcY = 0, cp_srcPitch = pitch, cp_dstArray = eb_arrays img ! 0,
           cp_Height = sf_height s, cp_WidthInBytes = sf_width s * bpp\<rparr> (eglWorld (bk d)) = (ok1, w1)" by force
  obtain ok2 w2 where 2: "e_copy2d api False \<lparr>cp_srcDevice = ptr, cp_srcY = sf_height s, cp_srcPitch = pitch, cp_dstArray = eb_arrays img ! 1,
                cp_Height = drop_bit 1 (sf_height s), cp_WidthInBytes = sf_width s * bpp\<rparr> w1 = (ok2, w2)" by force
  have g: "get_surface d sa = Some s" using h(1) by (simp add: get_surface_def)
  have "put_obj sa (PSurface s) d = d" using h(1) by (simp add: put_obj_def fun_upd_idem)
  moreover have "heap (with_bk ((bk d)\<lparr>eglWorld := w2\<rparr>) d) sa = Some (PSurface s)" using h(1) by simp
  note n = notify_resolved_spec[OF this h(2)]
  have "egl_copyFrameToSurface api ptr sa pitch d =
      (if \<not> ok1 then Some (False, with_bk ((bk d)\<lparr>eglWorld := w1\<rparr>) d)
       else if \<not> ok2 then Some (False, with_bk ((bk d)\<lparr>eglWorld := w2\<rparr>) d)
       else Some (True, with_bk ((bk d)\<lparr>eglWorld := w2\<rparr>) (put_obj sa (PSurface (s\<lparr>sf_status := VASurfaceReady, sf_resolving := False\<rparr>)) d)))"
    unfolding egl_copyFrameToSurface_def img g bind.bind_lunit bpp_def[symmetric] Let_def 1 prod.case 2 n by simp
  ultimately show ?thesis by (cases ok1; cases ok2) auto
qed

section \<open>Properties\<close>

text \<open>
  C15: the export of a decoded frame by the EGL backend.  With fewer than \<open>2 ^ 31\<close> images in the pool, a stream whose
  queue of events is finite, and a driver that does not swap the chroma, the call returns with the surface's mutex released, and it
  keeps the invariant: no image belongs to two surfaces, and the pool names no image that is freed.  At most one image is added to the
  pool, and the surface is ready and no longer resolving when the call succeeds.
\<close>
theorem egl_exportCudaPtr_pool:
  assumes e: "egl_ok api pending" and inv: "egl_inv (bk d)" and sa: "sa \<noteq> NULL" and h: "heap d sa = Some (PSurface s)" "\<not> sf_locked s"
    and room: "length (pool (bk d)) < 2 ^ 31" and p: "ptr \<noteq> 0"
  shows "\<exists>r st s'. egl_exportCudaPtr api sa ptr pitch d = Some (r, with_bk st (put_obj sa (PSurface s') d)) \<and> egl_inv st \<and>
    (\<forall>x. x \<noteq> sa \<longrightarrow> eglBacking st x = eglBacking (bk d) x) \<and> length (pool st) \<le> length (pool (bk d)) + 1 \<and>
    (if r then eglBacking st sa \<noteq> NULL \<and> s' = s\<lparr>sf_status := VASurfaceReady, sf_resolving := False\<rparr> else s' = s)"
proof -
  obtain r st where r: "egl_realiseSurface api sa d = Some (r, with_bk st d)" "egl_inv st" "pool_step sa r (bk d) st"
    using egl_realiseSurface_spec[OF e inv sa h room] by blast
  have ps: "\<forall>x. x \<noteq> sa \<longrightarrow> eglBacking st x = eglBacking (bk d) x" "length (pool st) \<le> length (pool (bk d)) + 1" "r \<longrightarrow> eglBacking st sa \<noteq> NULL"
    using r(3) by (auto simp: pool_step_def)
  show ?thesis
  proof (cases r)
    case False
    have "put_obj sa (PSurface s) d = d" using h(1) by (simp add: put_obj_def fun_upd_idem)
    then have "egl_exportCudaPtr api sa ptr pitch d = Some (False, with_bk st (put_obj sa (PSurface s) d))"
      using r(1) False by (simp add: egl_exportCudaPtr_def)
    then show ?thesis using r(2) ps by (intro exI[of _ False] exI[of _ st] exI[of _ s]) simp
  next
    case True
    let ?d = "with_bk st d"
    obtain r2 w where c: "egl_copyFrameToSurface api ptr sa pitch ?d = Some (r2, with_bk (st\<lparr>eglWorld := w\<rparr>)
        (put_obj sa (PSurface (if r2 then s\<lparr>sf_status := VASurfaceReady, sf_resolving := False\<rparr> else s)) d))"
      using egl_copy_spec[of ?d sa s api ptr pitch] r(2) ps(3) True h by auto
    have "egl_exportCudaPtr api sa ptr pitch d = Some (r2, with_bk (st\<lparr>eglWorld := w\<rparr>)
        (put_obj sa (PSurface (if r2 then s\<lparr>sf_status := VASurfaceReady, sf_resolving := False\<rparr> else s)) d))"
      using r(1) True p c by (simp add: egl_exportCudaPtr_def)
    then show ?thesis using egl_inv_world[OF r(2), of w] ps True
      by (intro exI[of _ r2] exI[of _ "st\<lparr>eglWorld := w\<rparr>"] exI[of _ "if r2 then s\<lparr>sf_status := VASurfaceReady, sf_resolving := False\<rparr> else s"]) simp
  qed
qed


section \<open>Destroying the pool\<close>

lemma remove_last:
  assumes "arr_wf arr" "arr_elems arr = xs @ [x]"
  shows "\<exists>arr'. remove_element_at arr (arr_size arr - 1) = Some arr' \<and> arr_wf arr' \<and> arr_elems arr' = xs \<and>
    get_element_at arr (arr_size arr - 1) = Some x \<and> arr_size arr - 1 < arr_size arr \<and> arr_size arr' = arr_size arr - 1"
proof -
  have n: "unat (arr_size arr) = Suc (length xs)" using arr_wf_sizes(2)[OF assms(1)] assms(2) by simp
  then have pos: "0 < arr_size arr" by (simp add: word_less_nat_alt)
  have u: "unat (arr_size arr - 1) = length xs" using n pos by (simp add: unat_minus_one)
  obtain arr' where r: "remove_element_at arr (arr_size arr - 1) = Some arr'" "arr_wf arr'"
      "arr_elems arr' = (if unat (arr_size arr - 1) < length (arr_elems arr)
        then take (unat (arr_size arr - 1)) (arr_elems arr) @ drop (Suc (unat (arr_size arr - 1))) (arr_elems arr) else arr_elems arr)"
    using remove_element_at_spec[OF assms(1), of "arr_size arr - 1"] by blast
  have el: "arr_elems arr' = xs" using r(3) u assms(2) by simp
  have "get_element_at arr (arr_size arr - 1) = Some x"
    using get_element_at_spec[OF assms(1), of "arr_size arr - 1"] u assms(2) by (simp add: nth_append)
  moreover have "unat (arr_size arr') = unat (arr_size arr - 1)" using arr_wf_sizes(2)[OF r(2)] el u by simp
  moreover have "arr_size arr - 1 < arr_size arr" using n u by (simp add: word_less_nat_alt)
  ultimately show ?thesis using r(1,2) el by (intro exI[of _ arr']) (simp add: word_unat_eq_iff)
qed

lemma destroy_last:
  assumes inv: "egl_inv st" and pl: "pool st = is' @ [i]" and ok: "\<forall>a s. fst (arrayDestroy api a s)"
  shows "\<exists>st1 arr. egl_destroyBackingImage api i st = Some (True, st1) \<and> imageList st1 = imageList st \<and>
    arr_size (imageList st) - 1 < arr_size (imageList st) \<and> get_element_at (imageList st) (arr_size (imageList st) - 1) = Some (Some i) \<and>
    remove_element_at (imageList st) (arr_size (imageList st) - 1) = Some arr \<and> arr_size arr = arr_size (imageList st) - 1 \<and>
    egl_inv (st1\<lparr>imageList := arr\<rparr>) \<and> pool (st1\<lparr>imageList := arr\<rparr>) = is' \<and> eglImages st1 = (eglImages st)(i := None)"
proof -
  note p = egl_inv_parts[OF inv]
  have ii: "i \<in> set (pool st)" "i \<notin> set is'" "distinct is'" using pl p(4) by auto
  then obtain img where img: "eglImages st i = Some img" using p(5) by auto
  obtain xs where xs: "arr_elems (imageList st) = xs @ [Some i]" "map the xs = is'"
  proof -
    obtain ys y where e: "arr_elems (imageList st) = ys @ [y]" using pl unfolding pool_def by (metis append_is_Nil_conv list.map_disc_iff neq_Nil_conv rev_exhaust)
    then have "the y = i" "map the ys = is'" using pl by (simp_all add: pool_def)
    moreover obtain y' where "y = Some y'" using p(3) e by (cases y) auto
    ultimately show thesis using that e by auto
  qed
  obtain arr where arr: "remove_element_at (imageList st) (arr_size (imageList st) - 1) = Some arr" "arr_wf arr" "arr_elems arr = xs"
      "get_element_at (imageList st) (arr_size (imageList st) - 1) = Some (Some i)" "arr_size (imageList st) - 1 < arr_size (imageList st)"
      "arr_size arr = arr_size (imageList st) - 1"
    using remove_last[OF p(2) xs(1)] by blast
  define b where "b = (if eb_surface img \<noteq> NULL then (eglBacking st)(eb_surface img := NULL) else eglBacking st)"
  obtain w where d: "egl_destroyBackingImage api i st = Some (True, st\<lparr>eglBacking := b, eglWorld := w, eglImages := (eglImages st)(i := None)\<rparr>)"
  proof -
    define s0 where "s0 = destroyImage api (eglDisplay st) (eb_image img) (fold (\<lambda>fd s. if fd \<noteq> 0 then e_close api fd s else s) (take 4 (eb_fds img)) (eglWorld st))"
    obtain w1 where 1: "arrayDestroy api (eb_arrays img ! 0) s0 = (True, w1)" using ok by (metis prod.collapse)
    obtain w2 where 2: "arrayDestroy api (eb_arrays img ! 1) w1 = (True, w2)" using ok by (metis prod.collapse)
    have "egl_destroyBackingImage api i st = Some (True, st\<lparr>eglBacking := b, eglWorld := w2, eglImages := (eglImages st)(i := None)\<rparr>)"
      using 1 2 by (simp add: egl_destroyBackingImage_def img s0_def b_def)
    then show thesis by (rule that)
  qed
  let ?st = "st\<lparr>eglBacking := b, eglWorld := w, eglImages := (eglImages st)(i := None)\<rparr>"
  let ?st2 = "?st\<lparr>imageList := arr\<rparr>"
  have pl2: "pool ?st2 = is'" using arr(3) xs(2) by (simp add: pool_def)
  have bx: "b x = (if eglBacking st x = i then NULL else eglBacking st x)" for x
  proof -
    have "eglBacking st x = i \<Longrightarrow> eb_surface img = x"
      using p(8)[of x] img fresh_bounds[OF p(1) img] by auto
    moreover have "eb_surface img \<noteq> NULL \<Longrightarrow> eglBacking st (eb_surface img) = i" using p(10)[OF ii(1) img] .
    ultimately show ?thesis unfolding b_def by (cases "eglBacking st x = i") (auto simp: p(6))
  qed
  have sub: "set is' \<subseteq> dom ((eglImages st)(i := None))" using p(5) pl ii(2) by auto
  have c1: "b x \<in> set is' \<and> (\<exists>y. ((eglImages st)(i := None)) (b x) = Some y \<and> eb_surface y = x)" if "b x \<noteq> NULL" for x
    using that p(7,8)[of x] pl by (auto simp: bx split: if_splits)
  have c2: "eb_fourcc y \<noteq> DRM_FORMAT_NV21 \<and> (eb_surface y \<noteq> NULL \<longrightarrow> b (eb_surface y) = j)"
    if "j \<in> set is'" "((eglImages st)(i := None)) j = Some y" for j y
  proof -
    have ji: "j \<noteq> i" "j \<in> set (pool st)" using that(1) ii(2) pl by auto
    moreover have "eglImages st j = Some y" using that(2) ji(1) by simp
    ultimately show ?thesis using p(9,10)[of j y] by (auto simp: bx)
  qed
  have "fresh_images ?st2" using p(1) by (auto simp: fresh_images_def)
  moreover have "None \<notin> set xs" using p(3) xs(1) by simp
  moreover have "b NULL = NULL" by (simp add: bx p(6))
  ultimately have "egl_inv ?st2"
    using arr(2,3) ii(3) sub c1 c2 pl2 unfolding egl_inv_def by simp
  then show ?thesis using d arr pl2 by (intro exI[of _ ?st] exI[of _ arr]) simp
qed

lemma destroyAll_loop_spec:
  assumes ok: "\<forall>a s. fst (arrayDestroy api a s)" and inv: "egl_inv st"
  shows "\<exists>st'. egl_destroyAll_loop api (arr_size (imageList st) - 1) st = Some st' \<and> egl_inv st' \<and> pool st' = [] \<and>
    eglImages st' = eglImages st |` (- set (pool st))"
  using inv
proof (induction "length (pool st)" arbitrary: st)
  case 0
  note p = egl_inv_parts[OF 0(2)]
  have "arr_size (imageList st) = 0" using 0(1) arr_wf_sizes(2)[OF p(2)] by (simp add: pool_def unat_eq_0)
  then show ?case using 0 by (intro exI[of _ st]) (simp add: egl_destroyAll_loop.simps)
next
  case (Suc n)
  obtain is' i where pl: "pool st = is' @ [i]" using Suc(2) by (metis length_Suc_conv rev_exhaust list.simps(3))
  obtain st1 arr where d: "egl_destroyBackingImage api i st = Some (True, st1)" "imageList st1 = imageList st"
    "arr_size (imageList st) - 1 < arr_size (imageList st)" "get_element_at (imageList st) (arr_size (imageList st) - 1) = Some (Some i)"
    "remove_element_at (imageList st) (arr_size (imageList st) - 1) = Some arr" "arr_size arr = arr_size (imageList st) - 1"
    "egl_inv (st1\<lparr>imageList := arr\<rparr>)" "pool (st1\<lparr>imageList := arr\<rparr>) = is'" "eglImages st1 = (eglImages st)(i := None)"
    using destroy_last[OF Suc.prems pl ok] by (elim exE conjE) (rule that)
  have ln: "n = length (pool (st1\<lparr>imageList := arr\<rparr>))" using Suc(2) pl d(8) by simp
  obtain st' where l: "egl_destroyAll_loop api (arr_size arr - 1) (st1\<lparr>imageList := arr\<rparr>) = Some st'" "egl_inv st'" "pool st' = []"
      "eglImages st' = eglImages st1 |` (- set is')"
    using Suc(1)[OF ln d(7)] d(8) by auto
  have "egl_destroyAll_loop api (arr_size (imageList st) - 1) st = Some st'"
    using d(1-5) l(1) d(6) by (subst egl_destroyAll_loop.simps) simp
  moreover have "eglImages st' = eglImages st |` (- set (pool st))"
    unfolding l(4) d(9) pl by (auto simp: restrict_map_def fun_eq_iff)
  ultimately show ?case using l(2,3) by blast
qed

text \<open>
  C16: terminating the EGL backend empties the pool.  Provided CUDA destroys the arrays, the loop over the list ends although its
  unsigned index counts below zero: every image of the list is freed, once, no surface points to an image any more, and images outside
  the list are untouched.
\<close>
theorem egl_destroyAll_empties:
  assumes ok: "\<forall>a s. fst (arrayDestroy api a s)" and inv: "egl_inv st"
  shows "\<exists>st'. egl_destroyAllBackingImage api st = Some st' \<and> egl_inv st' \<and> arr_elems (imageList st') = [] \<and>
    eglImages st' = eglImages st |` (- set (pool st)) \<and> (\<forall>x. eglBacking st' x = NULL)"
proof -
  obtain st' where s: "egl_destroyAllBackingImage api st = Some st'" "egl_inv st'" "pool st' = []"
      "eglImages st' = eglImages st |` (- set (pool st))"
    using destroyAll_loop_spec[OF ok inv] unfolding egl_destroyAllBackingImage_def by blast
  have "\<forall>x. eglBacking st' x = NULL" using egl_inv_parts(7)[OF s(2)] s(3) by auto
  then show ?thesis using s by (auto simp: pool_def)
qed

section \<open>Behaviours to know\<close>

text \<open>The search for a free image looks at its size alone: an 8-bit image is reused for a 16-bit surface.\<close>

lemma findFreeBackingImage_ignores_format:
  "findFreeBackingImage sa (s\<lparr>sf_format := f, sf_bitDepth := b\<rparr>) st = findFreeBackingImage sa s st"
  by (simp add: findFreeBackingImage_def)

text \<open>
  An image with the chroma swapped is destroyed when its surface is detached, but it stays in the list: the next surface
  without an image is stuck on the freed image.
\<close>

lemma swapped_image_dangles:
  assumes "eglBacking (bk d) sa = i" "i \<noteq> NULL" "eglImages (bk d) i = Some img" "eb_fourcc img = DRM_FORMAT_NV21"
    "\<forall>a s. fst (arrayDestroy api a s)" "arr_elems (imageList (bk d)) = Some i # ps"
  shows "\<exists>d1. egl_detachBackingImageFromSurface api sa d = Some d1 \<and> findFreeBackingImage sb s (bk d1) = None"
proof -
  define s0 where "s0 = destroyImage api (eglDisplay (bk d)) (eb_image img)
    (fold (\<lambda>fd s. if fd \<noteq> 0 then e_close api fd s else s) (take 4 (eb_fds img)) (eglWorld (bk d)))"
  obtain w1 where 1: "arrayDestroy api (eb_arrays img ! 0) s0 = (True, w1)" using assms(5) by (metis prod.collapse)
  obtain w2 where 2: "arrayDestroy api (eb_arrays img ! 1) w1 = (True, w2)" using assms(5) by (metis prod.collapse)
  show ?thesis
    using assms(1-4,6) 1 2 by (simp add: egl_detachBackingImageFromSurface_def egl_destroyBackingImage_def s0_def Let_def findFreeBackingImage_def)
qed

text \<open>When the second attempt after a swapped image has no image, its result is dereferenced.\<close>

lemma second_attempt_stuck:
  assumes "egl_allocateBackingImage api s st = Some (i, st1)" "i \<noteq> NULL" "eglImages st1 i = Some img" "eb_fourcc img = DRM_FORMAT_NV21"
    "egl_destroyBackingImage api i st1 = Some (ok, st2)"
    "egl_allocateBackingImage api s (st2\<lparr>useCorrectNV12Format := \<not> useCorrectNV12Format st2\<rparr>) = Some (NULL, st3)" "eglImages st3 NULL = None"
  shows "allocate_corrected api s st = None"
  using assms by (simp add: allocate_corrected_def)

section \<open>A small EGL\<close>

text \<open>Its state is the number of events in the stream's queue; every call succeeds.\<close>

definition toy_egl :: "nat egl_api" where
  "toy_egl = \<lparr>e_close = \<lambda>fd w. w, e_dup = \<lambda>fd w. (40, w), arrayCreate = \<lambda>a w. (Some 5, w), arrayDestroy = \<lambda>a w. (True, w),
     e_copy2d = \<lambda>l c w. (True, w), presentFrame = \<lambda>c f w. (True, w + 1), returnFrame = \<lambda>c w. (None, w), producerConnect = \<lambda>s w. (Some 1, w),
     producerDisconnect = \<lambda>c w. (True, w), eglInitialize = \<lambda>d w. (True, w), createStream = \<lambda>d w. (1, w), destroyStream = \<lambda>d s w. w,
     connectConsumer = \<lambda>d s w. (True, w), queryEvent = \<lambda>d s w. if w = 0 then (None, w) else (Some STREAM_IMAGE_AVAILABLE, w - 1),
     createImage = \<lambda>d s w. (9, w), destroyImage = \<lambda>d i w. w, acquireImage = \<lambda>d s w. (Some 9, w),
     exportQuery = \<lambda>d i w. (Some (DRM_FORMAT_NV12, [0, 0, 0, 0]), w),
     exportDmabuf = \<lambda>d i w. (Some ([20, 21, 0, 0], [64, 64, 0, 0], [0, 0, 0, 0]), w), getPlatformDisplay = \<lambda>d w. (1, w),
     queryDmaBufFormats = \<lambda>d w. (Some [], w), get_cap = \<lambda>fd w. (0, w), device_extensions = True, queryDevices = Some [1],
     renderNodeFile = \<lambda>d. Some ''n'', cudaDevice = \<lambda>d. Some 0, minor_of_file = \<lambda>f. 128, minor_of_fd = \<lambda>f. 128, memory_left = True\<rparr>"

definition toy_pool :: "nat EglState" where
  "toy_pool = \<lparr>eglBacking = \<lambda>_. NULL, eglImages = Map.empty, nextImage = 1, imageList = empty_Array, numFramesPresented = 0,
     cuStreamConnection = 1, eglStream = 1, eglDisplay = 1, eglDevice = 1, useCorrectNV12Format = True, eglGpuId = 0, eglDrmFd = - 1, eglWorld = 0\<rparr>"

lemma NV12_not_NV21: "DRM_FORMAT_NV12 \<noteq> DRM_FORMAT_NV21"
  by (simp add: DRM_FORMAT_NV12_def DRM_FORMAT_NV21_def fourcc_code_def)

lemma toy_egl_ok: "egl_ok toy_egl id"
  using NV12_not_NV21 by (auto simp: egl_ok_def toy_egl_def split: if_splits)

lemma toy_pool_inv: "egl_inv toy_pool" "pool toy_pool = []"
  by (simp_all add: egl_inv_def fresh_images_def pool_def toy_pool_def)

definition egl_session :: "((unit, slice_param) payload, nat EglState) NVDriver_scheme" where
  "egl_session = NVDriver.extend decode_session toy_pool"

lemma egl_session_simps: "bk egl_session = toy_pool" "heap egl_session 1 = Some (PSurface example_surface)" "\<not> sf_locked example_surface"
  using decode_session_simps(4) by (simp_all add: egl_session_def NVDriver.extend_def example_simps)

theorem egl_exportCudaPtr_pool_witness:
  "\<exists>r st s'. egl_exportCudaPtr toy_egl 1 4096 64 egl_session = Some (r, with_bk st (put_obj 1 (PSurface s') egl_session)) \<and>
     egl_inv st \<and> length (pool st) \<le> 1"
proof -
  have "egl_inv (bk egl_session)" "length (pool (bk egl_session)) < 2 ^ 31" using toy_pool_inv by (simp_all add: egl_session_simps(1))
  from egl_exportCudaPtr_pool[OF toy_egl_ok this(1) _ egl_session_simps(2,3) this(2), of 4096 64]
  show ?thesis using toy_pool_inv(2) unfolding egl_session_simps(1) by auto
qed

text \<open>A pool of one image, which surface 2 holds.\<close>

definition one_image :: EglImage where
  "one_image = \<lparr>eb_surface = 2, eb_image = 9, eb_arrays = [5, 5], eb_width = 16, eb_height = 16, eb_fourcc = DRM_FORMAT_NV12, eb_fds = [20, 21, 0, 0],
     eb_offsets = [0, 0, 0, 0], eb_strides = [64, 64, 0, 0], eb_mods = [0, 0, 0, 0]\<rparr>"

definition one_pool :: "nat EglState" where
  "one_pool = toy_pool\<lparr>eglBacking := (\<lambda>_. NULL)(2 := 1), eglImages := [1 \<mapsto> one_image], nextImage := 2,
     imageList := \<lparr>arr_buf = Some 1 # replicate 15 None, arr_size = 1, arr_capacity = 16\<rparr>\<rparr>"

lemma one_pool_inv: "egl_inv one_pool" "pool one_pool = [1]"
  using NV12_not_NV21
  by (auto simp: egl_inv_def fresh_images_def pool_def one_pool_def toy_pool_def one_image_def arr_wf_def arr_elems_def)

definition pool_session :: "((unit, slice_param) payload, nat EglState) NVDriver_scheme" where
  "pool_session = with_bk one_pool egl_session"


theorem egl_destroyAll_empties_witness:
  "\<exists>st. egl_destroyAllBackingImage toy_egl one_pool = Some st \<and> eglImages st = Map.empty \<and> eglBacking st 2 = NULL"
proof -
  have "\<forall>a s. fst (arrayDestroy toy_egl a s)" by (simp add: toy_egl_def)
  from egl_destroyAll_empties[OF this one_pool_inv(1)] one_pool_inv(2) show ?thesis
    by (auto simp: one_pool_def restrict_map_def fun_eq_iff)
qed

end
