(* ===== verification/Startup.thy ===== *)
theory Startup
  imports DirectBackend EglBackend Contexts
begin

text \<open>
  The life of a driver (\<^verbatim>\<open>src/src/vabackend.c\<close>): the settings read from the environment when the library is loaded
  (\<open>init\<close>), opening a driver (\<open>__vaDriverInit_1_0\<close>) with the choice of the backend and the limit on instances, the
  export of a surface (\<open>nvExportSurfaceHandle\<close>) and closing a driver (\<open>nvTerminate\<close>, \<open>deleteAllObjects\<close>).
  A process may open and close several drivers; the counter of instances is shared by all.
\<close>

section \<open>Settings\<close>

type_synonym environment = "string \<Rightarrow> string option"

text \<open>
  \<^verbatim>\<open>strtoul\<close> to the base of ten: the number and the rest of the text, nothing when there are no digits.  A number
  out of range gives the largest one, a minus sign negates modulo \<open>2 ^ 64\<close>.
\<close>

definition is_digit :: "char \<Rightarrow> bool" where
  "is_digit c \<longleftrightarrow> digit_of c \<noteq> None"

fun skip_sign :: "string \<Rightarrow> bool \<times> string" where
  "skip_sign [] = (False, [])"
| "skip_sign (c # cs) = (if c = CHR ''-'' then (True, cs) else if c = CHR ''+'' then (False, cs) else (False, c # cs))"

definition strtoul :: "string \<Rightarrow> (u64 \<times> string) option" where
  "strtoul v =
     (let (neg, s) = skip_sign (dropWhile is_space v); n = digits_value 0 (takeWhile is_digit s)
      in if takeWhile is_digit s = [] then None
         else Some (if 2 ^ 64 \<le> n then - 1 else word_of_int (if neg then - n else n), dropWhile is_digit s))"

definition UINT32_MAX :: u32 where
  "UINT32_MAX = 0xFFFFFFFF"

definition parseEnvU32 :: "environment \<Rightarrow> string \<Rightarrow> u32 \<Rightarrow> u32" where
  "parseEnvU32 env name fallback =
     (case env name of
        None \<Rightarrow> fallback
      | Some v \<Rightarrow>
          if v = [] then fallback
          else case strtoul v of
            None \<Rightarrow> fallback
          | Some (parsed, rest) \<Rightarrow>
              if rest \<noteq> [] then fallback
              else if ucast UINT32_MAX < parsed then UINT32_MAX
              else ucast parsed)"

definition to_lower :: "char \<Rightarrow> char" where
  "to_lower c = (let n = of_char c :: nat in if 65 \<le> n \<and> n \<le> 90 then char_of (n + 32) else c)"

definition envFlagEnabled :: "environment \<Rightarrow> string \<Rightarrow> bool" where
  "envFlagEnabled env name =
     (case env name of
        None \<Rightarrow> False
      | Some v \<Rightarrow> v \<noteq> [] \<and> v \<noteq> ''0'' \<and> map to_lower v \<noteq> ''false'' \<and> map to_lower v \<noteq> ''no'')"

datatype backend_choice = EGL | DIRECT

record settings =
  set_gpu :: int
  max_instances :: u32
  set_backend :: backend_choice
  set_disableDecoder :: bool
  set_encStrictMode :: bool
  set_encForceIdrEvery :: u32
  set_encStartupIdrFrames :: u32
  set_encReconfigureMinMs :: u32
  set_encVisibleReconfigure :: bool
  cuda_loaded :: bool
  cuvid_loaded :: bool

definition backend_of :: "string option \<Rightarrow> backend_choice" where
  "backend_of v =
     (case v of None \<Rightarrow> DIRECT
      | Some s \<Rightarrow> if take 6 s = ''direct'' then DIRECT else if s = ''egl'' then EGL else DIRECT)"

text \<open>
  Loading the libraries, which is skipped when \<^verbatim>\<open>/proc/version\<close> cannot be read (a sandbox) unless forced.
  A number outside the range of \<^verbatim>\<open>int\<close> is undefined for \<^verbatim>\<open>atoi\<close>.
\<close>

definition load_functions :: "environment \<Rightarrow> bool \<Rightarrow> bool \<Rightarrow> bool \<Rightarrow> bool \<times> bool" where
  "load_functions env readable cuda_ret cuvid_ret =
     (if \<not> readable \<and> env ''NVD_FORCE_INIT'' = None then (False, False)
      else if \<not> cuda_ret then (False, False)
      else (True, cuvid_ret))"

definition init_library :: "environment \<Rightarrow> bool \<Rightarrow> bool \<Rightarrow> bool \<Rightarrow> settings option" where
  "init_library env readable cuda_ret cuvid_ret = do {
     g \<leftarrow> (case env ''NVD_GPU'' of None \<Rightarrow> Some (- 1) | Some v \<Rightarrow> atoi v);
     m \<leftarrow> (case env ''NVD_MAX_INSTANCES'' of None \<Rightarrow> Some 0 | Some v \<Rightarrow> atoi v);
     let (cu, cv) = load_functions env readable cuda_ret cuvid_ret;
     Some \<lparr>set_gpu = g, max_instances = word_of_int m, set_backend = backend_of (env ''NVD_BACKEND''),
       set_disableDecoder = envFlagEnabled env ''NVD_DISABLE_DECODER'',
       set_encStrictMode = (case env ''NVD_ENC_STRICT'' of None \<Rightarrow> False | Some v \<Rightarrow> v \<noteq> [] \<and> v \<noteq> ''0''),
       set_encForceIdrEvery = parseEnvU32 env ''NVD_ENC_FORCE_IDR_EVERY'' 0,
       set_encStartupIdrFrames = parseEnvU32 env ''NVD_ENC_STARTUP_IDR_FRAMES'' 16,
       set_encReconfigureMinMs = parseEnvU32 env ''NVD_ENC_RECONFIG_MIN_MS'' 800,
       set_encVisibleReconfigure = envFlagEnabled env ''NVD_ENC_VISIBLE_RECONFIG'',
       cuda_loaded = cu, cuvid_loaded = cv\<rparr>
   }"

section \<open>Backends as tables\<close>

text \<open>
  The calls of a backend that the life of a driver uses.  \<open>be_start\<close> is the zeroed part of the driver that
  belongs to the backend, with the device and the descriptor entered; what it keeps of the old value is the state of the
  libraries behind it.
\<close>

record ('c, 's, 'z) NVBackend =
  be_start :: "int \<Rightarrow> int \<Rightarrow> 'z \<Rightarrow> 'z"
  be_gpu :: "'z \<Rightarrow> int"
  initExporter :: "('c, 's, 'z) drv \<Rightarrow> (bool \<times> ('c, 's, 'z) drv) option"
  releaseExporter :: "('c, 's, 'z) drv \<Rightarrow> ('c, 's, 'z) drv option"
  destroyAllBackingImage :: "('c, 's, 'z) drv \<Rightarrow> ('c, 's, 'z) drv option"
  realiseSurface :: "addr \<Rightarrow> ('c, 's, 'z) drv \<Rightarrow> (bool \<times> ('c, 's, 'z) drv) option"
  fillExportDescriptor ::
    "addr \<Rightarrow> ('c, 's, 'z) drv \<Rightarrow> (bool \<times> VADRMPRIMESurfaceDescriptor \<times> ('c, 's, 'z) drv) option"

definition direct_start :: "int \<Rightarrow> int \<Rightarrow> 'w DirectState \<Rightarrow> 'w DirectState" where
  "direct_start g fd z = \<lparr>backingImage = \<lambda>_. NULL, backings = Map.empty, nextBacking = 1, backingList = empty_Array,
     driverContext = zero_driver_context, cudaGpuId = g, drmFd = fd, world = world z\<rparr>"

definition egl_start :: "int \<Rightarrow> int \<Rightarrow> 'w EglState \<Rightarrow> 'w EglState" where
  "egl_start g fd z = \<lparr>eglBacking = \<lambda>_. NULL, eglImages = Map.empty, nextImage = 1, imageList = empty_Array,
     numFramesPresented = 0, cuStreamConnection = NULL, eglStream = NULL, eglDisplay = NULL, eglDevice = NULL,
     useCorrectNV12Format = True, eglGpuId = g, eglDrmFd = fd, eglWorld = eglWorld z\<rparr>"

definition DIRECT_BACKEND :: "('w, 'x) direct_api_scheme \<Rightarrow> u8 list \<Rightarrow> ('c, 's, 'w DirectState) NVBackend" where
  "DIRECT_BACKEND api stack = \<lparr>be_start = direct_start, be_gpu = cudaGpuId, initExporter = direct_initExporter api stack,
     releaseExporter = \<lambda>d. Some (direct_releaseExporter api d),
     destroyAllBackingImage = \<lambda>d. do { st \<leftarrow> direct_destroyAllBackingImage api (bk d); Some (with_bk st d) },
     realiseSurface = direct_realiseSurface api, fillExportDescriptor = direct_fillExportDescriptor api\<rparr>"

definition EGL_BACKEND :: "('w, 'x) egl_api_scheme \<Rightarrow> ('c, 's, 'w EglState) NVBackend" where
  "EGL_BACKEND api = \<lparr>be_start = egl_start, be_gpu = eglGpuId, initExporter = \<lambda>d. Some (egl_initExporter api d),
     releaseExporter = \<lambda>d. do { st \<leftarrow> egl_releaseExporter api (bk d); Some (with_bk st d) },
     destroyAllBackingImage = \<lambda>d. do { st \<leftarrow> egl_destroyAllBackingImage api (bk d); Some (with_bk st d) },
     realiseSurface = egl_realiseSurface api, fillExportDescriptor = egl_fillExportDescriptor api\<rparr>"

section \<open>Opening a driver\<close>

text \<open>What else the driver's life asks of the system and of CUDA.\<close>

record 'w start_api =
  drmGetVersion :: "int \<Rightarrow> 'w \<Rightarrow> int \<times> string \<times> 'w"
  drmGetCap :: "int \<Rightarrow> 'w \<Rightarrow> int \<times> 'w"
  calloc_driver :: bool
  cuCtxCreate :: "int \<Rightarrow> 'w \<Rightarrow> addr option \<times> 'w"
  cuCtxDestroy :: "addr \<Rightarrow> 'w \<Rightarrow> bool \<times> 'w"
  dlopen :: "'w \<Rightarrow> addr \<times> 'w"
  dlsym :: "addr \<Rightarrow> 'w \<Rightarrow> bool \<times> 'w"
  dlclose :: "addr \<Rightarrow> 'w \<Rightarrow> 'w"
  createInstance :: "'w \<Rightarrow> NVENCSTATUS \<times> 'w"

text \<open>Loading the encoder library: whether it is available, and its handle.\<close>

definition loadNvencFunctions :: "('w, 'x) start_api_scheme \<Rightarrow> 'w \<Rightarrow> (bool \<times> addr) \<times> 'w" where
  "loadNvencFunctions sys w =
     (let (lib, w) = dlopen sys w in
      if lib = NULL then ((False, NULL), w)
      else let (found, w) = dlsym sys lib w in
      if \<not> found then ((False, NULL), dlclose sys lib w)
      else let (status, w) = createInstance sys w in
      if status \<noteq> NV_ENC_SUCCESS then ((False, NULL), dlclose sys lib w)
      else ((True, lib), w))"

text \<open>
  The descriptor the client passes (\<open>drm\<close>), used when no device was selected and when it is one of ours; \<open>- 1\<close> is
  none.  A descriptor of ours without mode setting refuses the driver.
\<close>

definition choose_drm_fd :: "settings \<Rightarrow> ('w, 'x) start_api_scheme \<Rightarrow> int option \<Rightarrow> 'w \<Rightarrow> int option \<times> 'w" where
  "choose_drm_fd S sys drm w =
     (let isDrm = (case drm of None \<Rightarrow> False | Some fd \<Rightarrow> 0 < fd);
          fd = (if set_gpu S = - 1 \<and> isDrm then the drm else - 1)
      in if fd = - 1 then (Some fd, w)
      else let (ours, w) = isNvidiaDrmFd (drmGetVersion sys) fd w in
      if \<not> ours then (Some (- 1), w)
      else let (modeset, w) = checkModesetParameterFromFd (drmGetCap sys) fd w in
      if \<not> modeset then (None, w) else (Some fd, w))"

text \<open>
  A driver that was handed to a client: the modelled driver, the CUDA context, the handle of the encoder library and the profiles.
\<close>

record ('c, 's, 'z) session =
  ses_drv :: "('c, 's, 'z) drv"
  cudaContext :: addr
  nvencLib :: addr
  profiles :: plist

definition new_driver :: "settings \<Rightarrow> 'z \<Rightarrow> ('c, 's, 'z) drv" where
  "new_driver S z = \<lparr>objects = empty_Array, nextObjId = 0, heap = Map.empty, nextAddr = 1, mem = Map.empty, nextBlk = 1,
     nvencAvailable = False, supports16BitSurface = False, supports444Surface = False,
     g_disableDecoder = set_disableDecoder S, g_encStrictMode = set_encStrictMode S,
     g_encForceIdrEvery = set_encForceIdrEvery S, g_encStartupIdrFrames = set_encStartupIdrFrames S,
     g_encReconfigureMinMs = set_encReconfigureMinMs S, g_encVisibleReconfigure = set_encVisibleReconfigure S, \<dots> = z\<rparr>"

text \<open>The limit on instances: \<open>None\<close> is busy, otherwise the new count.\<close>

definition admit :: "settings \<Rightarrow> u32 \<Rightarrow> u32 option" where
  "admit S n = (if 0 < max_instances S \<and> max_instances S \<le> n then None else Some (n + 1))"

text \<open>
  From a zeroed driver on: the exporter, the CUDA context, the encoder library and the profiles.  The result is the
  session, and what the backend holds at the end.
\<close>

definition start_driver ::
  "settings \<Rightarrow> ('w, 'x) start_api_scheme \<Rightarrow> 'w ctx_api \<Rightarrow> ('c, 's, 'z) NVBackend \<Rightarrow> caps_query \<Rightarrow>
   ('c, 's, 'z) drv \<Rightarrow> 'w \<Rightarrow> (VAStatus \<times> ('c, 's, 'z) session option \<times> 'z \<times> 'w) option" where
  "start_driver S sys api be caps d w = do {
     (ok, d) \<leftarrow> initExporter be d;
     if \<not> ok then Some (VA_STATUS_ERROR_OPERATION_FAILED, None, bk d, w)
     else let (c, w) = cuCtxCreate sys (be_gpu be (bk d)) w in
     case c of
       None \<Rightarrow> do { d \<leftarrow> releaseExporter be d; Some (VA_STATUS_ERROR_OPERATION_FAILED, None, bk d, w) }
     | Some cx \<Rightarrow> do {
         let ((available, lib), w) = loadNvencFunctions sys w;
         let d = d\<lparr>nvencAvailable := available\<rparr>;
         let (pushed, w) = cuCtxPushCurrent api w;
         let (popped, w) = (if pushed then cuCtxPopCurrent api w else (False, w));
         pl \<leftarrow> initProfiles caps pushed popped (supports16BitSurface d) (supports444Surface d) (set_disableDecoder S) available
                (replicate MAX_PROFILES VAProfileMPEG2Simple);
         Some (VA_STATUS_SUCCESS, Some \<lparr>ses_drv = d, cudaContext = cx, nvencLib = lib, profiles = pl\<rparr>, bk d, w)
       }
   }"

definition vaDriverInit_1_0 ::
  "settings \<Rightarrow> ('w, 'x) start_api_scheme \<Rightarrow> 'w ctx_api \<Rightarrow> ('c, 's, 'z) NVBackend \<Rightarrow> caps_query \<Rightarrow> int option \<Rightarrow> 'z \<Rightarrow>
   u32 \<Rightarrow> 'w \<Rightarrow> (VAStatus \<times> ('c, 's, 'z) session option \<times> 'z \<times> u32 \<times> 'w) option" where
  "vaDriverInit_1_0 S sys api be caps drm z n w =
     (let (fd, w) = choose_drm_fd S sys drm w in
      case fd of
        None \<Rightarrow> Some (VA_STATUS_ERROR_OPERATION_FAILED, None, z, n, w)
      | Some fd \<Rightarrow> (case admit S n of
          None \<Rightarrow> Some (VA_STATUS_ERROR_HW_BUSY, None, z, n, w)
        | Some n \<Rightarrow>
            if \<not> cuda_loaded S \<or> \<not> cuvid_loaded S then Some (VA_STATUS_ERROR_OPERATION_FAILED, None, z, n, w)
            else do {
              guard (calloc_driver sys);
              (st, ses, z, w) \<leftarrow> start_driver S sys api be caps (new_driver S (be_start be (set_gpu S) fd z)) w;
              Some (st, ses, z, n, w)
            }))"

section \<open>Exporting a surface\<close>

definition VA_SURFACE_ATTRIB_MEM_TYPE_DRM_PRIME_2 :: u32 where "VA_SURFACE_ATTRIB_MEM_TYPE_DRM_PRIME_2 = 0x40000000"
definition VA_EXPORT_SURFACE_SEPARATE_LAYERS :: u32 where "VA_EXPORT_SURFACE_SEPARATE_LAYERS = 4"

definition nvExportSurfaceHandle ::
  "'w ctx_api \<Rightarrow> ('c, 's, 'z) NVBackend \<Rightarrow> u32 \<Rightarrow> u32 \<Rightarrow> u32 \<Rightarrow> ('c, 's, 'z) drv \<Rightarrow> 'w \<Rightarrow>
   ((VAStatus \<times> VADRMPRIMESurfaceDescriptor option) \<times> ('c, 's, 'z) drv \<times> 'w) option" where
  "nvExportSurfaceHandle api be surface_id mtype flags d w =
     (if mtype AND VA_SURFACE_ATTRIB_MEM_TYPE_DRM_PRIME_2 = 0 then Some ((VA_STATUS_ERROR_UNSUPPORTED_MEMORY_TYPE, None), d, w)
      else if flags AND VA_EXPORT_SURFACE_SEPARATE_LAYERS = 0 then Some ((VA_STATUS_ERROR_INVALID_SURFACE, None), d, w)
      else do {
        sa \<leftarrow> getObjectPtr d OBJECT_TYPE_SURFACE surface_id;
        if sa = NULL then Some ((VA_STATUS_ERROR_INVALID_SURFACE, None), d, w)
        else do {
          let (ok, w) = cuCtxPushCurrent api w;
          if \<not> ok then Some ((VA_STATUS_ERROR_OPERATION_FAILED, None), d, w)
          else do {
            (ok, d) \<leftarrow> realiseSurface be sa d;
            if \<not> ok then Some ((VA_STATUS_ERROR_ALLOCATION_FAILED, None), d, w)
            else do {
              (_, desc, d) \<leftarrow> fillExportDescriptor be sa d;
              let (ok, w) = cuCtxPopCurrent api w;
              Some ((if ok then VA_STATUS_SUCCESS else VA_STATUS_ERROR_OPERATION_FAILED, Some desc), d, w)
            }
          }
        }
      })"

section \<open>Closing a driver\<close>

text \<open>What the loop over all objects releases of one object, before the object itself is deleted.\<close>

definition release_buffer :: "NVBuffer \<Rightarrow> ('c, 's, 'z) drv \<Rightarrow> ('c, 's, 'z) drv option" where
  "release_buffer b d = do {
     d \<leftarrow> (if b_ptr b \<noteq> NULL \<and> ownsPtr b then free_blk (b_ptr b) d else Some d);
     if codedData b \<noteq> NULL then free_blk (codedData b) d else Some d
   }"

definition release_object :: "'w ctx_api \<Rightarrow> Object_t \<Rightarrow> ('c, 's, 'z) drv \<Rightarrow> 'w \<Rightarrow> (('c, 's, 'z) drv \<times> 'w) option" where
  "release_object api ob d w =
     (case o_type ob of
        OBJECT_TYPE_CONTEXT \<Rightarrow> do { (ok, d, w) \<leftarrow> destroyContext api (o_obj ob) d w; Some (d, w) }
      | OBJECT_TYPE_BUFFER \<Rightarrow> do {
          b \<leftarrow> get_buffer d (o_obj ob);
          d \<leftarrow> release_buffer b d;
          Some (d, w)
        }
      | OBJECT_TYPE_SURFACE \<Rightarrow> do {
          s \<leftarrow> get_surface d (o_obj ob);
          if hostData s \<noteq> NULL
          then do { d \<leftarrow> free_blk (hostData s) d; Some (put_obj (o_obj ob) (PSurface (s\<lparr>hostData := NULL\<rparr>)) d, w) }
          else Some (d, w)
        }
      | _ \<Rightarrow> Some (d, w))"

definition deleteAllObjects :: "'w ctx_api \<Rightarrow> ('c, 's, 'z) drv \<Rightarrow> 'w \<Rightarrow> (('c, 's, 'z) drv \<times> 'w) option" where
  "deleteAllObjects api d w = deleteAllObjects_loop (release_object api) 0 d w"

text \<open>
  A failing CUDA call ends the call early, with what was not released left in the session; \<open>None\<close> for the session is a
  driver that was freed.
\<close>

definition nvTerminate ::
  "('w, 'x) start_api_scheme \<Rightarrow> 'w ctx_api \<Rightarrow> ('c, 's, 'z) NVBackend \<Rightarrow> ('c, 's, 'z) session \<Rightarrow> u32 \<Rightarrow> 'w \<Rightarrow>
   (VAStatus \<times> ('c, 's, 'z) session option \<times> ('c, 's, 'z) drv \<times> u32 \<times> 'w) option" where
  "nvTerminate sys api be ses n w =
     (let (ok, w) = cuCtxPushCurrent api w in
      if \<not> ok then Some (VA_STATUS_ERROR_OPERATION_FAILED, Some ses, ses_drv ses, n, w)
      else do {
        d \<leftarrow> destroyAllBackingImage be (ses_drv ses);
        (d, w) \<leftarrow> deleteAllObjects api d w;
        d \<leftarrow> releaseExporter be d;
        let (ok, w) = cuCtxPopCurrent api w;
        if \<not> ok then Some (VA_STATUS_ERROR_OPERATION_FAILED, Some (ses\<lparr>ses_drv := d\<rparr>), d, n, w)
        else do {
          let n = n - 1;
          let (ok, w) = cuCtxDestroy sys (cudaContext ses) w;
          if \<not> ok then Some (VA_STATUS_ERROR_OPERATION_FAILED, Some (ses\<lparr>ses_drv := d\<rparr>), d, n, w)
          else Some (VA_STATUS_SUCCESS, None, d, n, if nvencLib ses \<noteq> NULL then dlclose sys (nvencLib ses) w else w)
        }
      })"

section \<open>Processes\<close>

text \<open>
  What a process may do: open drivers, and close one of those it holds, in whatever state that is.  A state is the counter
  of instances and the number of drivers held.
\<close>

inductive process ::
  "settings \<Rightarrow> ('w, 'x) start_api_scheme \<Rightarrow> 'w ctx_api \<Rightarrow> ('c, 's, 'z) NVBackend \<Rightarrow> caps_query \<Rightarrow> u32 \<Rightarrow> nat \<Rightarrow> bool"
  for S sys api be caps where
  start: "process S sys api be caps 0 0"
| opened: "process S sys api be caps n k \<Longrightarrow> vaDriverInit_1_0 S sys api be caps drm z n w = Some (st, Some ses, z', n', w') \<Longrightarrow>
    process S sys api be caps n' (Suc k)"
| refused: "process S sys api be caps n k \<Longrightarrow> vaDriverInit_1_0 S sys api be caps drm z n w = Some (st, None, z', n', w') \<Longrightarrow>
    process S sys api be caps n' k"
| closed: "process S sys api be caps n (Suc k) \<Longrightarrow> nvTerminate sys api be ses n w = Some (st, r, d, n', w') \<Longrightarrow>
    process S sys api be caps n' k"

section \<open>Reading numbers\<close>

declare decimal.simps [simp del]

lemma digit_of_char [simp]: "k < 10 \<Longrightarrow> digit_of (char_of (48 + k)) = Some (int k)"
  by (simp add: digit_of_def)

lemma digits_value_append:
  "\<forall>c \<in> set xs. is_digit c \<Longrightarrow> digits_value a (xs @ ys) = digits_value (digits_value a xs) ys"
  by (induction xs arbitrary: a) (auto simp: is_digit_def)

lemma digits_decimal:
  "(\<forall>c \<in> set (decimal n). is_digit c) \<and> digits_value 0 (decimal n) = int n \<and> decimal n \<noteq> []"
proof (induction n rule: decimal.induct)
  case (1 n)
  show ?case
  proof (cases "n < 10")
    case True
    then show ?thesis by (simp add: decimal.simps[of n] is_digit_def)
  next
    case False
    note IH = 1[OF False]
    have "decimal n = decimal (n div 10) @ [char_of (48 + n mod 10)]"
      using False by (simp add: decimal.simps[of n])
    moreover have "is_digit (char_of (48 + n mod 10))" by (simp add: is_digit_def)
    moreover have "digits_value (int (n div 10)) [char_of (48 + n mod 10)] = int n"
    proof -
      have "10 * int (n div 10) + int (n mod 10) = int (10 * (n div 10) + n mod 10)"
        by (simp only: of_nat_add of_nat_mult of_nat_numeral)
      also have "10 * (n div 10) + n mod 10 = n" by (rule mult_div_mod_eq)
      finally show ?thesis by (simp only: digits_value.simps digit_of_char mod_less_divisor zero_less_numeral option.case)
    qed
    ultimately show ?thesis using IH digits_value_append[of "decimal (n div 10)" 0] by auto
  qed
qed

lemma digit_not_other: "is_digit c \<Longrightarrow> \<not> is_space c \<and> c \<noteq> CHR ''-'' \<and> c \<noteq> CHR ''+''"
  by (auto simp: is_digit_def is_space_def digit_of_def Let_def)

lemma strtoul_digits:
  assumes "\<forall>c \<in> set ds. is_digit c" "ds \<noteq> []" "rest = [] \<or> \<not> is_digit (hd rest)"
  shows "strtoul (ds @ rest) = Some (if 2 ^ 64 \<le> digits_value 0 ds then - 1 else word_of_int (digits_value 0 ds), rest)"
proof -
  obtain c cs where ds: "ds = c # cs" using assms(2) by (cases ds) auto
  then have c: "is_digit c" using assms(1) by simp
  have 1: "dropWhile is_space (ds @ rest) = ds @ rest" "skip_sign (ds @ rest) = (False, ds @ rest)"
    using digit_not_other[OF c] by (simp_all add: ds)
  have 2: "takeWhile is_digit (ds @ rest) = ds" "dropWhile is_digit (ds @ rest) = rest"
    using assms(1,3) by (cases rest; simp add: takeWhile_append dropWhile_append)+
  show ?thesis using assms(2) by (simp add: strtoul_def 1 2)
qed

lemma unsigned_limit:
  assumes "v = (if 2 ^ 64 \<le> int n then - 1 else word_of_int (int n) :: u64)"
  shows "(if ucast UINT32_MAX < v then UINT32_MAX else ucast v) = (of_nat (min n (2 ^ 32 - 1)) :: u32)"
proof (cases "2 ^ 64 \<le> int n")
  case True
  then show ?thesis using assms by (simp add: UINT32_MAX_def min_def)
next
  case False
  then have n: "n < 2 ^ 64" by simp
  have v: "v = of_nat n" using assms False by simp
  have u: "unat v = n" using n by (simp add: v unat_of_nat take_bit_nat_eq_self)
  have "ucast UINT32_MAX < v \<longleftrightarrow> 2 ^ 32 - 1 < n" by (simp add: word_less_nat_alt u UINT32_MAX_def)
  moreover have "ucast v = (of_nat n :: u32)" by (simp add: ucast_of_unat u)
  ultimately show ?thesis by (simp add: UINT32_MAX_def min_def)
qed

text \<open>
  C40: a number in a setting of the environment is read back.  Written in decimal it is taken as it is, and as the largest
  32-bit number when it is larger, however many digits it has; with anything behind the number the setting counts for nothing and
  the default is taken.
\<close>

theorem parseEnvU32_decimal:
  assumes "env name = Some (decimal n @ rest)" "rest = [] \<or> \<not> is_digit (hd rest)"
  shows "parseEnvU32 env name fallback = (if rest = [] then of_nat (min n (2 ^ 32 - 1)) else fallback)"
  using assms digits_decimal[of n] strtoul_digits[of "decimal n" rest] unsigned_limit[OF refl, of n]
  by (auto simp: parseEnvU32_def simp del: of_nat_min)

theorem parseEnvU32_decimal_witness:
  "parseEnvU32 [''N'' \<mapsto> decimal 99999999999] ''N'' 7 = 4294967295 \<and> parseEnvU32 [''N'' \<mapsto> decimal 12 @ ''x''] ''N'' 7 = 7"
  using parseEnvU32_decimal[of "[''N'' \<mapsto> decimal 99999999999]" "''N''" 99999999999 "[]" 7]
    parseEnvU32_decimal[of "[''N'' \<mapsto> decimal 12 @ ''x'']" "''N''" 12 "''x''" 7]
  by (simp add: is_digit_def digit_of_def)

section \<open>The counter of instances\<close>

lemma admit_Some: "admit S n = Some n' \<longleftrightarrow> n' = n + 1 \<and> (0 < max_instances S \<longrightarrow> n < max_instances S)"
  by (auto simp: admit_def)

text \<open>Opening counts an instance as soon as it is admitted, whatever happens then; closing counts it back only when it gets that far.\<close>

lemma init_counts:
  assumes "vaDriverInit_1_0 S sys api be caps drm z n w = Some (st, r, z', n', w')"
  shows "(n' = n \<and> r = None) \<or> admit S n = Some n'"
  using assms by (auto simp: vaDriverInit_1_0_def Let_def bind_Some_iff split: prod.splits option.splits if_splits)

lemma terminate_counts:
  assumes "nvTerminate sys api be ses n w = Some (st, r, d, n', w')"
  shows "n' = n \<or> n' = n - 1"
  using assms by (auto simp: nvTerminate_def Let_def bind_Some_iff case_prod_beta split: if_splits)

lemma admitted:
  assumes "admit S n = Some n'" "0 < max_instances S"
  shows "unat n' = Suc (unat n)" "unat n' \<le> unat (max_instances S)"
proof -
  have n: "n' = n + 1" "unat n < unat (max_instances S)" using assms by (auto simp: admit_Some word_less_nat_alt)
  moreover have "unat (max_instances S) < 2 ^ 32" using unsigned_less[of "max_instances S"] by simp
  ultimately show "unat n' = Suc (unat n)" using unat_add_bounded[of n 1] by simp
  then show "unat n' \<le> unat (max_instances S)" using n(2) by simp
qed

lemma start_not_busy: "start_driver S sys api be caps d w = Some (st, r, z, w') \<Longrightarrow> st \<noteq> VA_STATUS_ERROR_HW_BUSY"
  by (auto simp: start_driver_def Let_def bind_Some_iff split: prod.splits option.splits if_splits)

lemma busy_refused:
  "vaDriverInit_1_0 S sys api be caps drm z n w = Some (VA_STATUS_ERROR_HW_BUSY, r, z', n', w') \<Longrightarrow> admit S n = None"
  using start_not_busy
  by (fastforce simp: vaDriverInit_1_0_def Let_def bind_Some_iff split: prod.splits option.splits if_splits)

lemma process_counts:
  "process S sys api be caps n k \<Longrightarrow> 0 < max_instances S \<Longrightarrow> k \<le> unat n \<and> unat n \<le> unat (max_instances S)"
proof (induction rule: process.induct)
  case (opened n k drm z w st ses z' n' w')
  then have "admit S n = Some n'" using init_counts by fastforce
  from admitted[OF this opened.prems] opened.IH[OF opened.prems] show ?case by simp
next
  case (refused n k drm z w st z' n' w')
  from init_counts[OF refused.hyps(2)] show ?case using refused.IH[OF refused.prems] admitted[OF _ refused.prems] by fastforce
next
  case (closed n k ses w st r d n' w')
  from closed.IH[OF closed.prems] have "0 < unat n" by simp
  then have "unat (n - 1) = unat n - 1" by (simp add: unat_minus_one unat_gt_0)
  with terminate_counts[OF closed.hyps(2)] closed.IH[OF closed.prems] show ?case by auto
qed simp

text \<open>
  C10: with a limit on instances set, a process never holds more drivers than the limit allows, in whatever order drivers are
  opened, refused and closed and whatever the system and the libraries answer; the counter never passes the limit, and the
  next opening is answered with busy exactly when the counter has reached it.
\<close>

theorem process_bounded:
  assumes "process S sys api be caps n k" "0 < max_instances S" and c: "choose_drm_fd S sys drm w = (Some fd, w1)"
  shows "k \<le> unat (max_instances S) \<and> unat n \<le> unat (max_instances S) \<and>
    ((\<exists>r z' n' w'. vaDriverInit_1_0 S sys api be caps drm z n w = Some (VA_STATUS_ERROR_HW_BUSY, r, z', n', w')) \<longleftrightarrow> n = max_instances S)"
proof -
  note p = process_counts[OF assms(1,2)]
  have "vaDriverInit_1_0 S sys api be caps drm z n w = Some (VA_STATUS_ERROR_HW_BUSY, None, z, n, w1)" if "n = max_instances S"
    using that assms(2) by (simp add: vaDriverInit_1_0_def admit_def c)
  moreover have "n = max_instances S" if "vaDriverInit_1_0 S sys api be caps drm z n w = Some (VA_STATUS_ERROR_HW_BUSY, r, z', n', w')" for r z' n' w'
    using busy_refused[OF that] p by (simp add: admit_def word_le_nat_alt word_unat_eq_iff split: if_splits)
  ultimately show ?thesis using p by (meson le_trans)
qed

text \<open>
  An opening that fails after it was counted is never counted back: with the CUDA functions missing and a limit of one, the
  first opening fails and every other one finds the driver busy although no driver is open.
\<close>

lemma failed_opening_stays_counted:
  assumes "\<not> cuda_loaded S" "max_instances S = 1"
  shows "vaDriverInit_1_0 S sys api be caps None z 0 w = Some (VA_STATUS_ERROR_OPERATION_FAILED, None, z, 1, w)"
    "process S sys api be caps 1 0"
    "vaDriverInit_1_0 S sys api be caps None z 1 w = Some (VA_STATUS_ERROR_HW_BUSY, None, z, 1, w)"
proof -
  have c: "choose_drm_fd S sys None w = (Some (- 1), w)" for w by (simp add: choose_drm_fd_def)
  show 1: "vaDriverInit_1_0 S sys api be caps None z 0 w = Some (VA_STATUS_ERROR_OPERATION_FAILED, None, z, 1, w)" for z w
    using assms by (simp add: vaDriverInit_1_0_def c admit_def)
  show "process S sys api be caps 1 0" by (rule process.refused[OF process.start 1])
  show "vaDriverInit_1_0 S sys api be caps None z 1 w = Some (VA_STATUS_ERROR_HW_BUSY, None, z, 1, w)"
    using assms by (simp add: vaDriverInit_1_0_def c admit_def)
qed

section \<open>A started driver\<close>

text \<open>
  What opening and closing a driver need of a backend: it changes its own part of the driver and the two marks for formats,
  nothing else.
\<close>

definition rebacked :: "('p, 'z) NVDriver_scheme \<Rightarrow> ('p, 'z) NVDriver_scheme \<Rightarrow> bool" where
  "rebacked d d' \<longleftrightarrow> (\<exists>a b z. d' = with_bk z (d\<lparr>supports16BitSurface := a, supports444Surface := b\<rparr>))"

lemma rebacked_fields:
  assumes "rebacked d d'"
  shows "objects d' = objects d" "heap d' = heap d" "nextObjId d' = nextObjId d" "nextAddr d' = nextAddr d" "mem d' = mem d"
    "nextBlk d' = nextBlk d"
  using assms by (auto simp: rebacked_def with_bk_def NVDriver.extend_def NVDriver.truncate_def)

lemma with_bk_marks:
  "(with_bk z d)\<lparr>supports16BitSurface := a, supports444Surface := b\<rparr> = with_bk z (d\<lparr>supports16BitSurface := a, supports444Surface := b\<rparr>)"
  "d\<lparr>supports16BitSurface := supports16BitSurface d, supports444Surface := supports444Surface d\<rparr> = d"
  by (simp_all add: with_bk_def NVDriver.extend_def NVDriver.truncate_def)

lemma rebacked_intros [intro, simp]:
  "rebacked d (with_bk z d)" "rebacked d ((with_bk z d)\<lparr>supports16BitSurface := a, supports444Surface := b\<rparr>)"
  unfolding rebacked_def with_bk_marks(1) by (metis with_bk_marks(2), blast)

text \<open>The profiles of a driver are distinct and have entry points.\<close>

definition profiles_ok :: "settings \<Rightarrow> ('c, 's, 'z) session \<Rightarrow> bool" where
  "profiles_ok S s \<longleftrightarrow> (let (arr, n) = profiles s in distinct (take n arr) \<and>
     (\<forall>p \<in> set (take n arr). snd (nvQueryConfigEntrypoints (set_disableDecoder S) (nvencAvailable (ses_drv s)) p) \<noteq> []))"

locale driver_backend =
  fixes be :: "('c, 's, 'z) NVBackend"
  assumes init_law: "initExporter be d = Some (r, d') \<Longrightarrow> rebacked d d'"
    and release_law: "releaseExporter be d = Some d' \<Longrightarrow> rebacked d d'"
    and destroy_all_law: "destroyAllBackingImage be d = Some d' \<Longrightarrow> rebacked d d'"
begin

lemma start_spec:
  assumes i: "initExporter be (new_driver S z) = Some (ok, d1)"
    and r: "\<And>d. releaseExporter be d \<noteq> None"
  shows "\<exists>st ses z' w'. start_driver S sys api be caps (new_driver S z) w = Some (st, ses, z', w') \<and>
    (ses = None \<longleftrightarrow> st \<noteq> VA_STATUS_SUCCESS) \<and> (ses = None \<longleftrightarrow> \<not> ok \<or> fst (cuCtxCreate sys (be_gpu be (bk d1)) w) = None) \<and>
    (\<forall>s. ses = Some s \<longrightarrow> surf_inv (ses_drv s) \<and> table (ses_drv s) = [] \<and> bk (ses_drv s) = bk d1 \<and>
       (nvencAvailable (ses_drv s) \<longleftrightarrow> nvencLib s \<noteq> NULL) \<and>
       profiles_ok S s)"
proof (cases "\<not> ok \<or> fst (cuCtxCreate sys (be_gpu be (bk d1)) w) = None")
  case True
  obtain c w1 where c: "cuCtxCreate sys (be_gpu be (bk d1)) w = (c, w1)" by force
  obtain d2 where "releaseExporter be d1 = Some d2" using r by blast
  then show ?thesis using True i c by (auto simp: start_driver_def)
next
  case False
  then obtain cx w1 where c: "cuCtxCreate sys (be_gpu be (bk d1)) w = (Some cx, w1)" and ok: ok
    by (cases "cuCtxCreate sys (be_gpu be (bk d1)) w") auto
  obtain av lib w2 where l: "loadNvencFunctions sys w1 = ((av, lib), w2)" by (metis prod.collapse)
  obtain p w3 where p: "cuCtxPushCurrent api w2 = (p, w3)" by force
  obtain q w4 where q: "(if p then cuCtxPopCurrent api w3 else (False, w3)) = (q, w4)" by force
  obtain arr n where pl: "initProfiles caps p q (supports16BitSurface d1) (supports444Surface d1) (set_disableDecoder S) av
      (replicate MAX_PROFILES VAProfileMPEG2Simple) = Some (arr, n)" "distinct (take n arr)"
      "\<forall>x \<in> set (take n arr). snd (nvQueryConfigEntrypoints (set_disableDecoder S) av x) \<noteq> []"
    using profiles_after_init[of "replicate MAX_PROFILES VAProfileMPEG2Simple" caps p q _ _ "set_disableDecoder S" av] by fastforce
  have lb: "av \<longleftrightarrow> lib \<noteq> NULL"
    using l by (auto simp: loadNvencFunctions_def Let_def split: prod.splits if_splits)
  let ?d = "d1\<lparr>nvencAvailable := av\<rparr>"
  note f = rebacked_fields[OF init_law[OF i]]
  have "surf_inv ?d" "table ?d = []"
    using f by (simp_all add: surf_inv_def typed_def objtab_wf_def table_def new_driver_def live_def)
  moreover have "start_driver S sys api be caps (new_driver S z) w = Some (VA_STATUS_SUCCESS,
      Some \<lparr>ses_drv = ?d, cudaContext = cx, nvencLib = lib, profiles = (arr, n)\<rparr>, bk d1, w4)"
    using i ok c l p q pl(1) by (simp add: start_driver_def)
  ultimately show ?thesis using False pl lb by (auto simp: profiles_ok_def)
qed

end

interpretation direct_driver: driver_backend "DIRECT_BACKEND api stack" for api stack
proof
  show "initExporter (DIRECT_BACKEND api stack) d = Some (r, d') \<Longrightarrow> rebacked d d'" for d r d'
    by (auto simp: DIRECT_BACKEND_def direct_initExporter_def Let_def bind_Some_iff split: prod.splits if_splits)
  show "releaseExporter (DIRECT_BACKEND api stack) d = Some d' \<Longrightarrow> rebacked d d'" for d d'
    by (auto simp: DIRECT_BACKEND_def direct_releaseExporter_def split: prod.splits)
  show "destroyAllBackingImage (DIRECT_BACKEND api stack) d = Some d' \<Longrightarrow> rebacked d d'" for d d'
    by (auto simp: DIRECT_BACKEND_def bind_Some_iff)
qed

interpretation egl_driver: driver_backend "EGL_BACKEND api" for api
proof
  show "initExporter (EGL_BACKEND api) d = Some (r, d') \<Longrightarrow> rebacked d d'" for d r d'
    by (auto simp: EGL_BACKEND_def egl_initExporter_def Let_def split: prod.splits if_splits option.splits)
  show "releaseExporter (EGL_BACKEND api) d = Some d' \<Longrightarrow> rebacked d d'" for d d'
    by (auto simp: EGL_BACKEND_def bind_Some_iff)
  show "destroyAllBackingImage (EGL_BACKEND api) d = Some d' \<Longrightarrow> rebacked d d'" for d d'
    by (auto simp: EGL_BACKEND_def bind_Some_iff)
qed

section \<open>Opening with the direct backend\<close>

text \<open>Asking for the name and the abilities of a descriptor or of a device changes no descriptor and no object of the kernel.\<close>

definition queries_ok :: "('w, 'x) direct_api_scheme \<Rightarrow> ('w, 'y) kernel_view_scheme \<Rightarrow> bool" where
  "queries_ok api k \<longleftrightarrow>
     (\<forall>fd s. same_view k s (snd (snd (drm_version api fd s)))) \<and> (\<forall>fd s. same_view k s (snd (drm_get_cap api fd s))) \<and>
     (\<forall>s. same_view k s (snd (cuDeviceGetCount api s))) \<and> (\<forall>i s. same_view k s (snd (cuDeviceGetUuid api i s)))"

lemma queries:
  assumes "queries_ok api k"
  shows "drm_version api fd s = (r, v, s') \<Longrightarrow> same_view k s s'" "drm_get_cap api fd s = (c, s') \<Longrightarrow> same_view k s s'"
    "cuDeviceGetCount api s = (n, s') \<Longrightarrow> same_view k s s'" "cuDeviceGetUuid api i s = (u, s') \<Longrightarrow> same_view k s s'"
  using assms[unfolded queries_ok_def, THEN conjunct1, rule_format, of s fd]
    assms[unfolded queries_ok_def, THEN conjunct2, THEN conjunct1, rule_format, of s fd]
    assms[unfolded queries_ok_def, THEN conjunct2, THEN conjunct2, THEN conjunct1, rule_format, of s]
    assms[unfolded queries_ok_def, THEN conjunct2, THEN conjunct2, THEN conjunct2, rule_format, of s i] by simp_all

lemma usable_node_view:
  assumes "queries_ok api k" "usable_node api fd s = (r, s')"
  shows "same_view k s s'"
proof -
  obtain e v s1 where 1: "drm_version api fd s = (e, v, s1)" by (metis prod_cases3)
  obtain c s2 where 2: "drm_get_cap api fd s1 = (c, s2)" by force
  have "s' = s \<or> s' = s1 \<or> s' = s2"
    using assms(2) by (auto simp: usable_node_def isNvidiaDrmFd_def checkModesetParameterFromFd_def 1 2 split: if_splits)
  then show ?thesis using queries(1)[OF assms(1) 1] queries(2)[OF assms(1) 2] by (auto intro: same_view_trans)
qed

lemma find_gpu_view:
  "queries_ok api k \<Longrightarrow> find_gpu api u i n s = (r, s') \<Longrightarrow> same_view k s s'"
proof (induction n arbitrary: i s)
  case (Suc n)
  obtain v s1 where 1: "cuDeviceGetUuid api i s = (v, s1)" by force
  have v: "same_view k s s1" by (rule queries(4)[OF Suc.prems(1) 1])
  show ?case
  proof (cases "v = Some u")
    case True
    then show ?thesis using Suc.prems(2) v by (simp add: 1)
  next
    case False
    then have "find_gpu api u (i + 1) n s1 = (r, s')" using Suc.prems(2) by (simp add: 1)
    from same_view_trans[OF v Suc.IH[OF Suc.prems(1) this]] show ?thesis .
  qed
qed simp

lemma close_new_wf:
  assumes "kernel_ok major api k" "view_wf k s" "new_fd k fd s s1" "same_view k s1 s2"
  shows "view_wf k (os_close api fd s2)" "view_wf k s2"
proof -
  have "fd \<noteq> 0" "fds k s2 = insert fd (fds k s)" "objs k s2 = objs k s" using assms(2-4) by (auto simp: view_wf_def new_fd_def same_view_def)
  then show "view_wf k (os_close api fd s2)" "view_wf k s2"
    using assms(2) open_cases(3-5)[OF assms(1)] by (auto simp: view_wf_def)
qed

lemma search_nodes_view:
  "kernel_ok major api k \<Longrightarrow> queries_ok api k \<Longrightarrow> view_wf k s \<Longrightarrow> search_nodes api g left i j s = (r, s') \<Longrightarrow> view_wf k s'"
proof (induction left arbitrary: i j s)
  case 0
  note p = 0
  obtain fd s1 where 1: "os_open api (render_node i) s = (fd, s1)" by force
  obtain ok s2 where 2: "usable_node api fd s1 = (ok, s2)" by force
  note n = open_cases(1)[OF p(1) 1] and q = usable_node_view[OF p(2) 2]
  have f: "fd = - 1 \<Longrightarrow> view_wf k s1" using n p(3) by (auto simp: new_fd_def same_view_wf)
  have g: "fd \<noteq> - 1 \<Longrightarrow> view_wf k (os_close api fd s2) \<and> view_wf k s2" using n close_new_wf[OF p(1,3) _ q] by blast
  show ?case using p(4) f g by (auto simp: 1 2 Let_def split: if_splits)
next
  case (Suc left)
  note p = Suc.prems
  obtain fd s1 where 1: "os_open api (render_node i) s = (fd, s1)" by force
  obtain ok s2 where 2: "usable_node api fd s1 = (ok, s2)" by force
  note n = open_cases(1)[OF p(1) 1] and q = usable_node_view[OF p(2) 2]
  have f: "fd = - 1 \<Longrightarrow> view_wf k s1" using n p(3) by (auto simp: new_fd_def same_view_wf)
  have g: "fd \<noteq> - 1 \<Longrightarrow> view_wf k (os_close api fd s2) \<and> view_wf k s2" using n close_new_wf[OF p(1,3) _ q] by blast
  show ?case
  proof (cases "fd = - 1 \<or> ok \<and> j = g")
    case True
    then show ?thesis using p(4) f g by (auto simp: 1 2 Let_def split: if_splits)
  next
    case False
    then have "search_nodes api g (Suc left) i j s = search_nodes api g left (i + 1) (if ok then j + 1 else j) (os_close api fd s2)"
      by (subst search_nodes.simps) (auto simp: 1 2 Let_def simp del: search_nodes.simps)
    then have "search_nodes api g left (i + 1) (if ok then j + 1 else j) (os_close api fd s2) = (r, s')" using p(4) by simp
    then show ?thesis using Suc.IH[OF p(1,2)] g False by blast
  qed
qed

lemma open_drm_view:
  assumes k: "kernel_ok major api k" "queries_ok api k" and w: "view_wf k (world st)" and o: "open_drm api st = (ok, st')"
  shows "view_wf k (world st') \<and> st' = st\<lparr>world := world st', drmFd := drmFd st'\<rparr>"
proof (cases "drmFd st = - 1")
  case True
  obtain r s where s: "search_nodes api (if cudaGpuId st = - 1 then 0 else cudaGpuId st) 15 128 0 (world st) = (r, s)" by force
  then have "view_wf k s" using search_nodes_view[OF k w] by blast
  then show ?thesis using o True by (auto simp: open_drm_def s simp del: search_nodes.simps split: option.splits)
next
  case False
  obtain u s where u: "usable_node api (drmFd st) (world st) = (u, s)" by force
  obtain fd s2 where d: "os_dup api (drmFd st) s = (fd, s2)" by force
  have s: "view_wf k s" using usable_node_view[OF k(2) u] w by (simp add: same_view_wf)
  then have "view_wf k s2"
    using open_cases(2)[OF k(1) d] close_new_wf(2)[OF k(1) s _ same_view_refl] by (auto simp: same_view_wf)
  then show ?thesis using o False s by (auto simp: open_drm_def u d Let_def split: if_splits)
qed

lemma uuid_view:
  assumes k: "kernel_ok major api k" and u: "get_device_uuid api ctx s = Some (e, a, s')"
  shows "same_view k s s'"
proof -
  obtain ret ps s1 where r: "nv_rm_control api (nvctlFd ctx) (clientObject ctx) (clientObject ctx) NV0000_CTRL_CMD_GPU_GET_UUID_FROM_GPU_ID 0
      (GET_UUID_FROM_GPU_ID_PARAMS (gpu_id ctx) uuid_format_flags (replicate 256 0)) s = (ret, ps, s1)" by (metis prod_cases3)
  have "s' = s1" using u unfolding get_device_uuid_def r by (auto split: if_splits control_params.splits)
  moreover have "same_view k s s1" using r quiet_cases(6)[OF k] by (auto simp: nv_rm_control_def Let_def split: prod.splits if_splits)
  ultimately show ?thesis by simp
qed

lemma direct_init_ok:
  assumes i: "direct_initExporter api stack d = Some (True, d')" and b: "bk d = direct_start g fd z"
    and k: "kernel_ok (driverMajorVersion (driverContext (bk d'))) api k" "release_ok api" "cuda_ok api k" "calloc_ok api" "queries_ok api k"
    and w: "view_wf k (world z)"
  shows "backend_ok api k (bk d')"
proof -
  obtain st where o: "open_drm api (bk d) = (True, st)"
    using i by (auto simp: direct_initExporter_def split: prod.splits if_splits)
  then obtain ctx s st2 where n: "init_nvdriver api (driverContext st) (drmFd st) (world st) = Some (True, ctx, s)"
      "findGPUIndexFromFd api stack (st\<lparr>driverContext := ctx, world := s\<rparr>) = Some st2"
      "d' = (with_bk st2 d)\<lparr>supports16BitSurface := True, supports444Surface := True\<rparr>"
    using i by (auto simp: direct_initExporter_def bind_Some_iff)
  obtain e a s3 where u: "get_device_uuid api ctx s = Some (e, a, s3)"
    using n(2) by (auto simp: findGPUIndexFromFd_def bind_Some_iff)
  obtain c s4 where c: "cuDeviceGetCount api s3 = (c, s4)" by force
  obtain s5 gpu where st2: "st2 = st\<lparr>driverContext := ctx, world := s5, cudaGpuId := gpu\<rparr>" "same_view k s4 s5"
  proof (cases c)
    case None
    then have "st2 = st\<lparr>driverContext := ctx, world := s4\<rparr>" using n(2) by (simp add: findGPUIndexFromFd_def u c)
    also have "\<dots> = st\<lparr>driverContext := ctx, world := s4, cudaGpuId := cudaGpuId st\<rparr>" by simp
    finally have "st2 = st\<lparr>driverContext := ctx, world := s4, cudaGpuId := cudaGpuId st\<rparr>" .
    then show ?thesis by (rule that) simp
  next
    case (Some m)
    define drmUuid where "drmUuid = (case a of Some x \<Rightarrow> x | None \<Rightarrow> stack)"
    obtain f s5 where f: "find_gpu api drmUuid 0 m s4 = (f, s5)" by force
    then have "st2 = st\<lparr>driverContext := ctx, world := s5, cudaGpuId := (case f of Some i \<Rightarrow> int i | None \<Rightarrow> 0)\<rparr>"
      using n(2) Some by (simp add: findGPUIndexFromFd_def u c drmUuid_def[symmetric])
    then show ?thesis by (rule that) (rule find_gpu_view[OF k(5) f])
  qed
  have bk': "bk d' = st2" by (simp add: n(3) with_bk_marks)
  have kc: "kernel_ok (driverMajorVersion ctx) api k" using k(1) bk' st2(1) by simp
  have w0: "view_wf k (world st)" "st = (bk d)\<lparr>world := world st, drmFd := drmFd st\<rparr>"
    using open_drm_view[OF kc k(5) _ o] w b by (simp_all add: direct_start_def)
  have l: "view_wf k s" "context_live k ctx s"
    using init_nvdriver_cases[OF n(1) kc w0(1)] w0(1) by (auto simp: context_live_def view_wf_def)
  have sv: "same_view k s s5"
    by (rule same_view_trans[OF same_view_trans[OF uuid_view[OF kc u] queries(3)[OF k(5) c]] st2(2)])
  have f: "backings st = backings (bk d)" "backingImage st = backingImage (bk d)" "nextBacking st = nextBacking (bk d)"
    by (subst w0(2), simp)+
  have e: "backings st2 = Map.empty" "backingImage st2 = (\<lambda>_. NULL)" "nextBacking st2 = 1" "driverContext st2 = ctx" "world st2 = s5"
    using f b st2(1) by (simp_all add: direct_start_def)
  have "backing_inv k st2" unfolding backing_inv_def e using l same_view_wf[OF sv] by auto
  then show ?thesis using kc k(2-4) e(4) unfolding bk' by (simp add: backend_ok_def)
qed

text \<open>
  C17: opening a driver with the direct backend.  When the instance is admitted and the libraries are there, the call returns; it
  hands out a driver exactly when the device could be opened and CUDA made a context.  That driver has no objects, its
  host copies and the images of its backend satisfy the invariants the other entry points keep, the encoder is marked available
  exactly when its library stays loaded, and its profiles are distinct and have entry points.
\<close>

theorem vaDriverInit_direct:
  fixes d1 :: "('c, 's, 'w DirectState) drv"
  assumes c: "choose_drm_fd S sys drm w = (Some fd, w1)" "admit S n = Some n'" "cuda_loaded S" "cuvid_loaded S" "calloc_driver sys"
    and i: "direct_initExporter api stack (new_driver S (direct_start (set_gpu S) fd z)) = Some (ok, d1)"
    and k: "kernel_ok (driverMajorVersion (driverContext (bk d1))) api k" "release_ok api" "cuda_ok api k" "calloc_ok api" "queries_ok api k"
    and w: "view_wf k (world z)"
  shows "\<exists>st (ses :: ('c, 's, 'w DirectState) session option) z' w'. vaDriverInit_1_0 S sys capi (DIRECT_BACKEND api stack) caps drm z n w = Some (st, ses, z', n', w') \<and>
    (ses = None \<longleftrightarrow> st \<noteq> VA_STATUS_SUCCESS) \<and> (ses = None \<longleftrightarrow> \<not> ok \<or> fst (cuCtxCreate sys (cudaGpuId (bk d1)) w1) = None) \<and>
    (\<forall>s. ses = Some s \<longrightarrow> surf_inv (ses_drv s) \<and> table (ses_drv s) = [] \<and> backend_ok api k (bk (ses_drv s)) \<and>
       (nvencAvailable (ses_drv s) \<longleftrightarrow> nvencLib s \<noteq> NULL) \<and>
       profiles_ok S s)"
proof -
  have b: "be_start (DIRECT_BACKEND api stack) = direct_start" "be_gpu (DIRECT_BACKEND api stack) = cudaGpuId"
    "initExporter (DIRECT_BACKEND api stack) = direct_initExporter api stack"
    "\<And>d. releaseExporter (DIRECT_BACKEND api stack) d \<noteq> None" by (simp_all add: DIRECT_BACKEND_def)
  have ok: "backend_ok api k (bk d1)" if ok
    using direct_init_ok[OF _ _ k w, of stack _ "set_gpu S" fd] i that by (simp add: new_driver_def)
  have i': "initExporter (DIRECT_BACKEND api stack) (new_driver S (direct_start (set_gpu S) fd z)) = Some (ok, d1)"
    using i by (simp add: b(3))
  obtain st z' w' and ses :: "('c, 's, 'w DirectState) session option" where s: "start_driver S sys capi (DIRECT_BACKEND api stack) caps (new_driver S (direct_start (set_gpu S) fd z)) w1 =
      Some (st, ses, z', w')" "ses = None \<longleftrightarrow> st \<noteq> VA_STATUS_SUCCESS"
      "ses = None \<longleftrightarrow> \<not> ok \<or> fst (cuCtxCreate sys (cudaGpuId (bk d1)) w1) = None"
      "\<forall>s. ses = Some s \<longrightarrow> surf_inv (ses_drv s) \<and> table (ses_drv s) = [] \<and> bk (ses_drv s) = bk d1 \<and>
       (nvencAvailable (ses_drv s) \<longleftrightarrow> nvencLib s \<noteq> NULL) \<and>
       profiles_ok S s"
    using direct_driver.start_spec[OF i' b(4), of sys capi caps w1] unfolding b(2)
    by (elim exE conjE) (rule that; assumption)
  have r: "vaDriverInit_1_0 S sys capi (DIRECT_BACKEND api stack) caps drm z n w = Some (st, ses, z', n', w')"
    using c s(1) by (simp add: vaDriverInit_1_0_def b)
  have "backend_ok api k (bk (ses_drv s))" if "ses = Some s" for s
    using that s(3,4) ok by auto
  then show ?thesis using s(4)
    by (intro exI[of _ st] exI[of _ ses] exI[of _ z'] exI[of _ w'] conjI r s(2,3)) simp
qed

section \<open>What closing releases\<close>

text \<open>The blocks an object owns: those the closing loop frees with it.\<close>

fun owned :: "('c, 's) payload \<Rightarrow> addr list" where
  "owned (PBuffer b) = (if b_ptr b \<noteq> NULL \<and> ownsPtr b then [b_ptr b] else []) @ (if codedData b \<noteq> NULL then [codedData b] else [])"
| "owned (PSurface s) = (if hostData s \<noteq> NULL then [hostData s] else [])"
| "owned (PContext c) = (if cx_mode c = NV_CONTEXT_ENCODE \<and> encLastFrameData c \<noteq> NULL then [encLastFrameData c] else [])"
| "owned _ = []"

definition owned_by :: "('c, 's, 'z) drv \<Rightarrow> Object_t \<Rightarrow> addr list" where
  "owned_by d ob = (case heap d (o_obj ob) of None \<Rightarrow> [] | Some p \<Rightarrow> owned p)"

text \<open>Every block has one owner, and what is owned has not been freed.\<close>

definition owner_inv :: "('c, 's, 'z) drv \<Rightarrow> bool" where
  "owner_inv d \<longleftrightarrow> typed d \<and> distinct (concat (map (owned_by d) (table d))) \<and>
     (\<forall>ob \<in> set (table d). set (owned_by d ob) \<subseteq> dom (mem d))"

lemma distinct_concat_disjoint:
  "distinct (concat (map f xs)) \<Longrightarrow> x \<in> set xs \<Longrightarrow> y \<in> set xs \<Longrightarrow> x \<noteq> y \<Longrightarrow> set (f x) \<inter> set (f y) = {}"
  "distinct (concat (map f xs)) \<Longrightarrow> x \<in> set xs \<Longrightarrow> distinct (f x)"
  by (induction xs) auto

lemma restrict_UNIV: "m |` UNIV = m"
  by (simp add: restrict_map_def)

lemma put_obj_mem_field: "(put_obj a v d)\<lparr>mem := mem d\<rparr> = put_obj a v d"
  by (simp add: put_obj_def)

lemma free_live: "mem d a \<noteq> None \<Longrightarrow> free_blk a d = Some (if a = NULL then d else d\<lparr>mem := mem d |` (- {a})\<rparr>)"
  by (simp add: free_blk_def restrict_complement_singleton_eq)

lemma release_buffer_spec:
  assumes "distinct (owned (PBuffer b))" "set (owned (PBuffer b)) \<subseteq> dom (mem d)"
  shows "release_buffer b d = Some (d\<lparr>mem := mem d |` (- set (owned (PBuffer b)))\<rparr>)"
  using assms by (auto simp: release_buffer_def free_live restrict_UNIV domIff split: if_splits)

lemma destroyContext_spec:
  assumes cx: "heap d ca = Some (PContext ctx)" and f: "\<forall>w. fst (cuCtxPushCurrent api w)" "\<forall>w. fst (cuCtxPopCurrent api w)"
    and o: "set (owned (PContext ctx)) \<subseteq> dom (mem d)"
  shows "\<exists>ok w1 ctx1. destroyContext api ca d w =
    Some (ok, (put_obj ca (PContext ctx1) d)\<lparr>mem := mem d |` (- set (owned (PContext ctx)))\<rparr>, w1)"
proof -
  obtain w1 where p: "cuCtxPushCurrent api w = (True, w1)" using f(1) by (metis prod.collapse)
  have g: "get_context d ca = Some ctx" using cx by (simp add: get_iff_heap)
  show ?thesis
  proof (cases "cx_mode ctx = NV_CONTEXT_ENCODE")
    case True
    define r where "r = (if nvencEncoder ctx \<noteq> NULL
          then let (ctx, w) = nvencDestroyIoBuffers api (ctx, w1)
               in (ctx\<lparr>nvencEncoder := NULL\<rparr>, nvEncDestroyEncoder api (nvencEncoder ctx) w)
          else (ctx, w1))"
    obtain ctx1 w2 where c: "r = (ctx1, w2)" by force
    then have e: "encLastFrameData ctx1 = encLastFrameData ctx"
      by (auto simp: r_def nvencDestroyIoBuffers_def split: if_splits)
    note dc = destroyContext_def[of api ca d w, unfolded g p, simplified, folded r_def, unfolded c, simplified]
    obtain w3 where q: "cuCtxPopCurrent api w2 = (True, w3)" using f(2) by (metis prod.collapse)
    show ?thesis
    proof (cases "encLastFrameData ctx = NULL")
      case True
      have "mem d |` (- set (owned (PContext ctx))) = mem d" using True by (simp add: restrict_UNIV)
      then show ?thesis using True \<open>cx_mode ctx = NV_CONTEXT_ENCODE\<close>
        by (intro exI[of _ True] exI[of _ w3] exI[of _ ctx1]) (simp add: dc e q)
    next
      case False
      then have "free_blk (encLastFrameData ctx) (put_obj ca (PContext ctx1) d) =
          Some ((put_obj ca (PContext ctx1) d)\<lparr>mem := mem d |` (- {encLastFrameData ctx})\<rparr>)"
        using o True by (subst free_live) (auto simp: domIff)
      then show ?thesis using False True
        by (intro exI[of _ True] exI[of _ w3] exI[of _ "ctx1\<lparr>encLastFrameData := NULL\<rparr>"])
          (simp add: dc e q put_obj_def)
    qed
  next
    case False
    then have m: "cx_mode ctx = NV_CONTEXT_DECODE" by (cases "cx_mode ctx") auto
    let ?d = "put_obj ca (PContext (ctx\<lparr>exiting := True\<rparr>)) d"
    obtain j w2 where j: "pthread_timedjoin_np api w1 = (j, w2)" by force
    obtain c2 w3 where x: "(if j then resolve_exit api ca ?d w2 else Some (?d, w2)) = Some (put_obj ca (PContext c2) d, w3)"
      by (cases j; cases "decoder ctx = NULL") (auto simp: resolve_exit_def put_obj_twice)
    obtain w4 where q: "cuCtxPopCurrent api w3 = (True, w4)" using f(2) by (metis prod.collapse)
    have "mem d |` (- set (owned (PContext ctx))) = mem d" using False by (simp add: restrict_UNIV)
    then show ?thesis using m
      by (intro exI[of _ True] exI[of _ w4] exI[of _ "c2\<lparr>codecData := None, sliceOffsets := freeBuffer (sliceOffsets c2),
              bitstreamBuffer := freeBuffer (bitstreamBuffer c2)\<rparr>"])
        (simp add: destroyContext_def g p j x q put_obj_twice put_obj_mem_field Let_def)
  qed
qed

text \<open>One turn of the closing loop, before the object itself goes.\<close>

lemma release_object_spec:
  assumes t: "typed d" and ob: "ob \<in> set (table d)" and o: "distinct (owned_by d ob)" "set (owned_by d ob) \<subseteq> dom (mem d)"
    and f: "\<forall>w. fst (cuCtxPushCurrent api w)" "\<forall>w. fst (cuCtxPopCurrent api w)"
  shows "\<exists>d1 w1. release_object api ob d w = Some (d1, w1) \<and> typed d1 \<and> table d1 = table d \<and>
    (\<forall>a. a \<noteq> o_obj ob \<longrightarrow> heap d1 a = heap d a) \<and> mem d1 = mem d |` (- set (owned_by d ob))"
proof -
  have "heap d (o_obj ob) \<noteq> None" using t ob by (auto simp: typed_def objtab_wf_def list_all_iff)
  then obtain v where v: "heap d (o_obj ob) = Some v" "payload_type v = o_type ob"
    using t ob by (auto simp: typed_def)
  have ow: "owned_by d ob = owned v" by (simp add: owned_by_def v)
  show ?thesis
  proof (cases v)
    case (PConfig c)
    then show ?thesis using v t by (auto simp: release_object_def ow restrict_UNIV)
  next
    case (PImage i)
    then show ?thesis using v t by (auto simp: release_object_def ow restrict_UNIV)
  next
    case (PBuffer b)
    have "release_buffer b d = Some (d\<lparr>mem := mem d |` (- set (owned v))\<rparr>)"
      using o unfolding ow PBuffer by (rule release_buffer_spec)
    moreover have "get_buffer d (o_obj ob) = Some b" using v PBuffer by (simp add: get_iff_heap)
    moreover have "o_type ob = OBJECT_TYPE_BUFFER" using v PBuffer by simp
    ultimately show ?thesis using t by (simp add: release_object_def ow del: owned.simps)
  next
    case (PSurface s)
    have ty: "typed (put_obj (o_obj ob) (PSurface s') d)" for s' by (rule typed_put_obj[OF t v(1)]) (simp add: PSurface)
    have g: "get_surface d (o_obj ob) = Some s" and ty': "o_type ob = OBJECT_TYPE_SURFACE" using v PSurface by (simp_all add: get_iff_heap)
    show ?thesis
    proof (cases "hostData s = NULL")
      case True
      then show ?thesis using t g ty' by (simp add: release_object_def ow PSurface restrict_UNIV)
    next
      case False
      then have "free_blk (hostData s) d = Some (d\<lparr>mem := mem d |` (- {hostData s})\<rparr>)"
        using o PSurface by (subst free_live) (auto simp: ow domIff)
      then show ?thesis using False g ty' ty[of "s\<lparr>hostData := NULL\<rparr>"]
        by (simp add: release_object_def ow PSurface) (simp add: put_obj_def typed_def table_def objtab_wf_def)
    qed
  next
    case (PContext c)
    obtain ok w1 c1 where d: "destroyContext api (o_obj ob) d w =
        Some (ok, (put_obj (o_obj ob) (PContext c1) d)\<lparr>mem := mem d |` (- set (owned (PContext c)))\<rparr>, w1)"
      using destroyContext_spec[OF _ f, of d "o_obj ob" c w] v o(2) PContext by (auto simp: ow)
    have "typed (put_obj (o_obj ob) (PContext c1) d)" by (rule typed_put_obj[OF t v(1)]) (simp add: PContext)
    then show ?thesis using v PContext d by (simp add: release_object_def ow)
  qed
qed

text \<open>What is left after some objects of \<open>d0\<close> are gone: their blocks are free, the other objects are as they were.\<close>

definition closing :: "('c, 's, 'z) drv \<Rightarrow> ('c, 's, 'z) drv \<Rightarrow> bool" where
  "closing d0 d \<longleftrightarrow> typed d \<and> set (table d) \<subseteq> set (table d0) \<and> (\<forall>ob \<in> set (table d). heap d (o_obj ob) = heap d0 (o_obj ob)) \<and>
     mem d = mem d0 |` (- (\<Union>ob \<in> set (table d0) - set (table d). set (owned_by d0 ob)))"

lemma closing_start: "owner_inv d \<Longrightarrow> closing d d"
  by (simp add: closing_def owner_inv_def restrict_UNIV)

lemma closing_step:
  assumes o: "owner_inv d0" and c: "closing d0 d" and ob: "ob \<in> set (table d)"
    and f: "\<forall>w. fst (cuCtxPushCurrent api w)" "\<forall>w. fst (cuCtxPopCurrent api w)"
  shows "\<exists>d1 w1 d2. release_object api ob d w = Some (d1, w1) \<and> deleteObject d1 (o_id ob) = Some d2 \<and> closing d0 d2 \<and>
    table d2 = filter (\<lambda>x. o_id x \<noteq> o_id ob) (table d)"
proof -
  have t: "typed d" and sub: "set (table d) \<subseteq> set (table d0)" using c by (simp_all add: closing_def)
  have same: "owned_by d x = owned_by d0 x" if "x \<in> set (table d)" for x using c that by (simp add: closing_def owned_by_def)
  have dist: "distinct (concat (map (owned_by d0) (table d0)))" using o by (simp add: owner_inv_def)
  have ob0: "ob \<in> set (table d0)" using sub ob by blast
  have live: "set (owned_by d ob) \<subseteq> dom (mem d)"
  proof
    fix a assume a: "a \<in> set (owned_by d ob)"
    then have "a \<in> set (owned_by d0 ob)" using same[OF ob] by simp
    then have "a \<in> dom (mem d0)" "\<forall>x \<in> set (table d0) - set (table d). a \<notin> set (owned_by d0 x)"
      using o ob0 ob distinct_concat_disjoint(1)[OF dist ob0] by (auto simp: owner_inv_def)
    then show "a \<in> dom (mem d)" using c by (auto simp: closing_def restrict_map_def)
  qed
  obtain d1 w1 where r: "release_object api ob d w = Some (d1, w1)" "typed d1" "table d1 = table d"
      "\<forall>a. a \<noteq> o_obj ob \<longrightarrow> heap d1 a = heap d a" "mem d1 = mem d |` (- set (owned_by d ob))"
    using release_object_spec[OF t ob _ live f, of w] distinct_concat_disjoint(2)[OF dist ob0] unfolding same[OF ob] by blast
  have wf: "objtab_wf d1" "objtab_wf d" using r(2) t by (simp_all add: typed_def)
  obtain d2 arr where e: "deleteObject d1 (o_id ob) = Some d2" "objtab_wf d2" "table d2 = filter (\<lambda>x. o_id x \<noteq> o_id ob) (table d1)"
      "heap d2 = (case view d1 (o_id ob) of None \<Rightarrow> heap d1 | Some (t, a) \<Rightarrow> (heap d1)(a := None))"
      "d2 = d1\<lparr>objects := arr, heap := heap d2\<rparr>"
    using deleteObject_view[OF wf(1), of "o_id ob"] by blast
  have "view d1 (o_id ob) = Some (o_type ob, o_obj ob)"
    unfolding view_def r(3) using wf(2) ob by (intro map_of_is_SomeI) (auto simp: objtab_wf_def comp_def)
  then have h2: "heap d2 = (heap d1)(o_obj ob := None)" using e(4) by simp
  have tab: "set (table d2) = set (table d) - {ob}"
    using e(3) r(3) wf(2) ob by (auto simp: objtab_wf_def distinct_map inj_on_def)
  have other: "o_obj x \<noteq> o_obj ob" if "x \<in> set (table d2)" for x
    using that tab ob wf(2) by (auto simp: objtab_wf_def distinct_map inj_on_def)
  have "typed d2" using e(2) r(2) tab r(3) other h2 by (auto simp: typed_def)
  moreover have "\<forall>x \<in> set (table d2). heap d2 (o_obj x) = heap d0 (o_obj x)"
    using other h2 r(4) c tab by (auto simp: closing_def)
  moreover have "mem d2 = mem d1" by (subst e(5)) simp
  then have "mem d2 = mem d0 |` (- (\<Union>x \<in> set (table d0) - set (table d2). set (owned_by d0 x)))"
    using c r(5) same[OF ob] tab ob0 by (auto simp: closing_def fun_eq_iff restrict_map_def)
  ultimately have "closing d0 d2" using sub tab by (auto simp: closing_def)
  then show ?thesis using r(1) e(1,3) r(3) by auto
qed

lemma deleteAllObjects_half:
  assumes "owner_inv d" "\<forall>w. fst (cuCtxPushCurrent api w)" "\<forall>w. fst (cuCtxPopCurrent api w)"
  shows "\<exists>d' w'. deleteAllObjects api d w = Some (d', w') \<and> closing d d' \<and> table d' = odd_positions (table d)"
proof -
  have "\<exists>d1 w1 d2. release_object api ob x w = Some (d1, w1) \<and> deleteObject d1 (o_id ob) = Some d2 \<and> closing d d2 \<and>
      table d2 = filter (\<lambda>y. o_id y \<noteq> o_id ob) (table x)" if "closing d x" "ob \<in> set (table x)" for x ob w
    by (rule closing_step[OF assms(1) that assms(2,3)])
  moreover have "objtab_wf x" if "closing d x" for x using that by (simp add: closing_def typed_def)
  ultimately show ?thesis
    using deleteAllObjects_loop_alternates[where P = "closing d" and release = "release_object api" and d = d and idx = 0 and w = w]
      closing_start[OF assms(1)]
    unfolding deleteAllObjects_def by (metis append_self_conv2 drop0 take0)
qed

context driver_backend
begin

lemma owner_inv_rebacked:
  assumes "rebacked d d'"
  shows "owner_inv d' = owner_inv d" "table d' = table d" "owned_by d' = owned_by d"
proof -
  note f = rebacked_fields[OF assms]
  show t: "table d' = table d" by (simp add: table_def f)
  show b: "owned_by d' = owned_by d" by (simp add: owned_by_def f fun_eq_iff)
  have "typed d' = typed d" unfolding typed_def objtab_wf_def t f ..
  then show "owner_inv d' = owner_inv d" by (simp add: owner_inv_def t b f)
qed

lemma terminate_spec:
  assumes o: "owner_inv (ses_drv s)" and f: "\<forall>w. fst (cuCtxPushCurrent api w)" "\<forall>w. fst (cuCtxPopCurrent api w)"
    and d: "destroyAllBackingImage be (ses_drv s) \<noteq> None" "\<And>d. releaseExporter be d \<noteq> None"
  shows "\<exists>st r d' w'. nvTerminate sys api be s n w = Some (st, r, d', n - 1, w') \<and> (r = None \<longleftrightarrow> st = VA_STATUS_SUCCESS) \<and>
    table d' = odd_positions (table (ses_drv s)) \<and> (\<forall>ob \<in> set (table d'). owned_by d' ob = owned_by (ses_drv s) ob) \<and>
    mem d' = mem (ses_drv s) |` (- (\<Union>ob \<in> set (table (ses_drv s)) - set (table d'). set (owned_by (ses_drv s) ob)))"
proof -
  obtain w1 where p: "cuCtxPushCurrent api w = (True, w1)" using f(1) by (metis prod.collapse)
  obtain d1 where d1: "destroyAllBackingImage be (ses_drv s) = Some d1" using d(1) by blast
  note r1 = destroy_all_law[OF d1]
  obtain d2 w2 where d2: "deleteAllObjects api d1 w1 = Some (d2, w2)" "closing d1 d2" "table d2 = odd_positions (table d1)"
    using deleteAllObjects_half[OF _ f, of d1 w1] o owner_inv_rebacked(1)[OF r1] by blast
  obtain d3 where d3: "releaseExporter be d2 = Some d3" using d(2) by blast
  note r3 = release_law[OF d3]
  obtain w3 where q: "cuCtxPopCurrent api w2 = (True, w3)" using f(2) by (metis prod.collapse)
  obtain ok w4 where c: "cuCtxDestroy sys (cudaContext s) w3 = (ok, w4)" by force
  have m: "mem d3 = mem d2" "mem d1 = mem (ses_drv s)" using rebacked_fields(5)[OF r3] rebacked_fields(5)[OF r1] by auto
  have "table d3 = odd_positions (table (ses_drv s))" using d2(3) owner_inv_rebacked(2)[OF r3] owner_inv_rebacked(2)[OF r1] by simp
  moreover have "\<forall>ob \<in> set (table d3). owned_by d3 ob = owned_by (ses_drv s) ob"
    using d2(2) owner_inv_rebacked(2,3)[OF r3] owner_inv_rebacked(3)[OF r1] by (auto simp: closing_def owned_by_def fun_eq_iff)
  moreover have "mem d3 = mem (ses_drv s) |` (- (\<Union>ob \<in> set (table (ses_drv s)) - set (table d3). set (owned_by (ses_drv s) ob)))"
    using d2(2) unfolding closing_def m owner_inv_rebacked(2)[OF r3] owner_inv_rebacked(2,3)[OF r1] by blast
  moreover obtain st r w' where "nvTerminate sys api be s n w = Some (st, r, d3, n - 1, w')" "r = None \<longleftrightarrow> st = VA_STATUS_SUCCESS"
    by (cases ok) (auto simp: nvTerminate_def p d1 d2(1) d3 q c)
  ultimately show ?thesis by blast
qed

end

text \<open>
  C21: closing a driver of the direct backend frees no block twice and no block it does not own, and it counts the instance back.
  But the loop over the objects shortens the list it walks: it releases every second object only.  The others stay, with
  the blocks they own, when the driver itself is freed.
\<close>

theorem nvTerminate_direct:
  assumes "owner_inv (ses_drv s)" "arr_size (backingList (bk (ses_drv s))) = 0"
    "\<forall>w. fst (cuCtxPushCurrent capi w)" "\<forall>w. fst (cuCtxPopCurrent capi w)"
  shows "\<exists>st r d' w'. nvTerminate sys capi (DIRECT_BACKEND api stack) s n w = Some (st, r, d', n - 1, w') \<and>
    (r = None \<longleftrightarrow> st = VA_STATUS_SUCCESS) \<and> table d' = odd_positions (table (ses_drv s)) \<and>
    (\<forall>ob \<in> set (table d'). owned_by d' ob = owned_by (ses_drv s) ob) \<and>
    mem d' = mem (ses_drv s) |` (- (\<Union>ob \<in> set (table (ses_drv s)) - set (table d'). set (owned_by (ses_drv s) ob)))"
proof -
  have "destroyAllBackingImage (DIRECT_BACKEND api stack) (ses_drv s) \<noteq> None"
    using direct_destroyAll_nothing[OF assms(2), of api] by (simp add: DIRECT_BACKEND_def)
  moreover have "releaseExporter (DIRECT_BACKEND api stack) d \<noteq> None" for d by (simp add: DIRECT_BACKEND_def)
  ultimately show ?thesis by (rule direct_driver.terminate_spec[OF assms(1,3,4)])
qed

section \<open>Exporting with the direct backend\<close>

definition handed_out :: "prime_object list \<Rightarrow> int set" where
  "handed_out obs = {fd \<in> set (map po_fd obs). fd \<noteq> - 1}"

lemma dup_objects_spec:
  "kernel_ok major os k \<Longrightarrow> dup_objects os xs s = (obs, s') \<Longrightarrow>
     fds k s' = fds k s \<union> handed_out obs \<and> handed_out obs \<inter> fds k s = {} \<and> objs k s' = objs k s \<and> gems k s' = gems k s \<and>
     distinct (filter (\<lambda>fd. fd \<noteq> - 1) (map po_fd obs)) \<and> (\<forall>fd \<in> handed_out obs. 0 \<le> fd)"
proof (induction xs arbitrary: s obs)
  case Nil
  then show ?case by (simp add: handed_out_def)
next
  case (Cons x xs)
  obtain fd sz m where x: "x = (fd, sz, m)" by (metis prod_cases3)
  obtain r s1 where 1: "os_dup os fd s = (r, s1)" by force
  obtain obs2 where 2: "dup_objects os xs s1 = (obs2, s')" "obs = \<lparr>po_fd = r, po_size = sz, po_modifier = m\<rparr> # obs2"
    using Cons.prems(2) by (auto simp: x 1 split: prod.splits)
  note IH = Cons.IH[OF Cons.prems(1) 2(1)]
  have h: "handed_out obs = (if r = - 1 then {} else {r}) \<union> handed_out obs2" by (auto simp: handed_out_def 2(2))
  have r: "r = - 1 \<and> same_view k s s1 \<or> r \<noteq> - 1 \<and> new_fd k r s s1"
    using open_cases(2)[OF Cons.prems(1) 1] by (auto simp: new_fd_def)
  have d: "r \<noteq> - 1 \<Longrightarrow> r \<notin> set (map po_fd obs2)"
    using IH r by (auto simp: handed_out_def new_fd_def)
  from r show ?case
  proof
    assume "r = - 1 \<and> same_view k s s1"
    then show ?thesis using IH unfolding h by (simp add: 2(2) same_view_def)
  next
    assume n: "r \<noteq> - 1 \<and> new_fd k r s s1"
    then have "fds k s1 = insert r (fds k s)" "r \<notin> fds k s" "0 \<le> r" "objs k s1 = objs k s" "gems k s1 = gems k s"
      by (simp_all add: new_fd_def)
    then show ?thesis using IH n d unfolding h by (auto simp: 2(2))
  qed
qed

lemma backing_inv_grow:
  assumes i: "backing_inv k st" and g: "fds k (world st) \<subseteq> fds k w" "objs k w = objs k (world st)"
  shows "backing_inv k (st\<lparr>world := w\<rparr>)"
proof -
  have 1: "view_wf k w" "context_live k (driverContext st) w"
    using i g by (auto simp: backing_inv_def view_wf_def context_live_def)
  have 2: "\<forall>i img. backings st i = Some img \<longrightarrow> open_fds img \<subseteq> fds k w - {nvctlFd (driverContext st)}"
    using i g(1) unfolding backing_inv_def by blast
  show ?thesis using i 1 2 unfolding backing_inv_def by simp
qed

text \<open>
  C22: handing a surface out with the direct backend.  For a surface whose mutex is free the call returns and keeps the invariant
  of the backend, and of the driver's own state it changes nothing.  When the surface has or gets an image, the descriptor
  describes that image, and each descriptor in it is a new duplicate that belongs to no image of the driver, or \<open>- 1\<close>
  where duplicating failed, which nobody looks at; the CUDA context is pushed and popped.  When the
  image cannot be made, the call fails and leaves the CUDA context pushed.
\<close>

theorem nvExportSurfaceHandle_direct:
  assumes t: "typed d" "view d sid = Some (OBJECT_TYPE_SURFACE, sa)" "heap d sa = Some (PSurface s)" "\<not> sf_locked s"
    and ok: "backend_ok api k (bk d)" and p: "cuCtxPushCurrent capi w = (True, w1)" "cuCtxPopCurrent capi w1 = (True, w2)"
    and m: "mtype AND VA_SURFACE_ATTRIB_MEM_TYPE_DRM_PRIME_2 \<noteq> 0" "flags AND VA_EXPORT_SURFACE_SEPARATE_LAYERS \<noteq> 0"
  shows "\<exists>r z. backend_ok api k z \<and> (case r of
      None \<Rightarrow> nvExportSurfaceHandle capi (DIRECT_BACKEND api stack) sid mtype flags d w =
        Some ((VA_STATUS_ERROR_ALLOCATION_FAILED, None), with_bk z d, w1)
    | Some (img, desc) \<Rightarrow> nvExportSurfaceHandle capi (DIRECT_BACKEND api stack) sid mtype flags d w =
        Some ((VA_STATUS_SUCCESS, Some desc), with_bk z d, w2) \<and>
        backings z (backingImage z sa) = Some img \<and> pd_fourcc desc = format_fourcc (bi_format img) \<and>
        pd_width desc = sf_width s \<and> pd_height desc = sf_height s \<and>
        pd_num_objects desc = fi_numPlanes (formatsInfo (bi_format img)) \<and> pd_layers desc = prime_layers img \<and>
        distinct (filter (\<lambda>fd. fd \<noteq> - 1) (map po_fd (pd_objects desc))) \<and>
        handed_out (pd_objects desc) \<subseteq> fds k (world z) \<and> handed_out (pd_objects desc) \<inter> fds k (world (bk d)) = {} \<and>
        (\<forall>i img'. backings z i = Some img' \<longrightarrow> handed_out (pd_objects desc) \<inter> open_fds img' = {}))"
proof -
  have b: "realiseSurface (DIRECT_BACKEND api stack) = direct_realiseSurface api"
    "fillExportDescriptor (DIRECT_BACKEND api stack) = direct_fillExportDescriptor api" by (simp_all add: DIRECT_BACKEND_def)
  have g: "getObjectPtr d OBJECT_TYPE_SURFACE sid = Some sa" "sa \<noteq> NULL"
    using typed_get[OF t(1)] typed_view[OF t(1,2)] t(2) by auto
  obtain r st where e: "direct_realiseSurface api sa d = Some (r, with_bk st d)" "backend_ok api k st"
      "realised k sa (s\<lparr>sf_locked := True\<rparr>) r (bk d) st"
    using direct_realiseSurface_spec[OF ok t(3,4)] by blast
  show ?thesis
  proof (cases r)
    case False
    then show ?thesis using e(1,2) g p(1) m
      by (intro exI[of _ None] exI[of _ st]) (simp add: nvExportSurfaceHandle_def b)
  next
    case True
    have k: "kernel_ok (driverMajorVersion (driverContext st)) api k" and i: "backing_inv k st"
      using e(2) by (simp_all add: backend_ok_def)
    have "backingImage st sa \<noteq> NULL" using e(3) True ok by (auto simp: realised_def backend_ok_def backing_inv_def split: if_splits)
    then obtain img where img: "backings st (backingImage st sa) = Some img" using i unfolding backing_inv_def by blast
    let ?n = "fi_numPlanes (formatsInfo (bi_format img))"
    obtain obs wld where o: "dup_objects api (take ?n (zip (bi_fds img) (zip (bi_sizes img) (bi_mods img)))) (world st) = (obs, wld)" by force
    note du = dup_objects_spec[OF k o]
    let ?z = "st\<lparr>world := wld\<rparr>"
    have z: "backend_ok api k ?z" using e(2) backing_inv_grow[OF i, of wld] du by (simp add: backend_ok_def)
    have sub: "fds k (world (bk d)) \<subseteq> fds k (world st)" using e(3) by (simp add: realised_def)
    have own: "handed_out obs \<inter> open_fds img' = {}" if "backings st j = Some img'" for j img'
      using i that du unfolding backing_inv_def by blast
    have gs: "get_surface d sa = Some s" using t(3) by (simp add: get_iff_heap)
    define desc where "desc = \<lparr>pd_fourcc = format_fourcc (bi_format img), pd_width = sf_width s, pd_height = sf_height s,
          pd_num_objects = ?n, pd_num_layers = ?n, pd_objects = obs, pd_layers = prime_layers img\<rparr>"
    have "nvExportSurfaceHandle capi (DIRECT_BACKEND api stack) sid mtype flags d w = Some ((VA_STATUS_SUCCESS, Some desc), with_bk ?z d, w2)"
      using e(1) True g p m by (simp add: nvExportSurfaceHandle_def b direct_fillExportDescriptor_def img gs o desc_def Let_def)
    moreover have "handed_out obs \<subseteq> fds k wld" "handed_out obs \<inter> fds k (world (bk d)) = {}" using du sub by auto
    ultimately show ?thesis using z own img du
      by (intro exI[of _ "Some (img, desc)"] exI[of _ ?z]) (simp add: desc_def)
  qed
qed

section \<open>A small process\<close>

definition toy_settings :: settings where
  "toy_settings = \<lparr>set_gpu = - 1, max_instances = 1, set_backend = DIRECT, set_disableDecoder = False, set_encStrictMode = False,
     set_encForceIdrEvery = 0, set_encStartupIdrFrames = 16, set_encReconfigureMinMs = 800, set_encVisibleReconfigure = False,
     cuda_loaded = True, cuvid_loaded = True\<rparr>"

definition toy_sys :: "'w start_api" where
  "toy_sys = \<lparr>drmGetVersion = \<lambda>fd w. (0, ''nvidia-drm'', w), drmGetCap = \<lambda>fd w. (0, w), calloc_driver = True,
     cuCtxCreate = \<lambda>g w. (Some 1, w), cuCtxDestroy = \<lambda>c w. (True, w), dlopen = \<lambda>w. (4, w), dlsym = \<lambda>l w. (True, w),
     dlclose = \<lambda>l w. w, createInstance = \<lambda>w. (NV_ENC_SUCCESS, w)\<rparr>"

definition toy_driver :: "((unit, slice_param) payload, toy_kernel DirectState) NVDriver_scheme" where
  "toy_driver = new_driver toy_settings (direct_start (- 1) 5 (toy_backend\<lparr>world := toy0\<rparr>))"

lemma toy_starts:
  "map_option (\<lambda>(r, d). (r, driverMajorVersion (driverContext (bk d)), cudaGpuId (bk d)))
     (direct_initExporter (toy_direct False) [] toy_driver) = Some (True, 560, 0)"
  unfolding toy_driver_def toy_direct_def toy_os_def by code_simp

lemma toy_chooses: "choose_drm_fd toy_settings toy_sys (Some 5) w = (Some 5, w)"
  by (simp add: choose_drm_fd_def toy_settings_def toy_sys_def isNvidiaDrmFd_def checkModesetParameterFromFd_def)

lemma toy_laws:
  "kernel_ok 560 (toy_direct False) toy_view" "release_ok (toy_direct False)" "cuda_ok (toy_direct False) toy_view"
  "calloc_ok (toy_direct False)" "queries_ok (toy_direct False) toy_view"
proof -
  have "driverMajorVersion (driverContext toy_backend) = 560" by (simp add: toy_backend_def toy_context_def)
  then show "kernel_ok 560 (toy_direct False) toy_view" "release_ok (toy_direct False)" "cuda_ok (toy_direct False) toy_view"
    "calloc_ok (toy_direct False)"
    using toy_backend_ok[of False] by (simp_all add: backend_ok_def)
  show "queries_ok (toy_direct False) toy_view" by (simp add: queries_ok_def toy_direct_def)
qed

theorem vaDriverInit_direct_witness:
  "\<exists>ses z' w'. vaDriverInit_1_0 toy_settings toy_sys session_ctx_api (DIRECT_BACKEND (toy_direct False) []) (\<lambda>c d ch. None)
      (Some 5) (toy_backend\<lparr>world := toy0\<rparr>) 0 (zero_config, zero_init) =
        Some (VA_STATUS_SUCCESS, Some (ses :: (unit, slice_param, toy_kernel DirectState) session), z', 1, w') \<and>
     surf_inv (ses_drv ses) \<and> backend_ok (toy_direct False) toy_view (bk (ses_drv ses))"
proof -
  obtain d1 where d1: "direct_initExporter (toy_direct False) [] toy_driver = Some (True, d1)" "driverMajorVersion (driverContext (bk d1)) = 560"
    using toy_starts by auto
  have s: "admit toy_settings 0 = Some 1" "cuda_loaded toy_settings" "cuvid_loaded toy_settings" "calloc_driver toy_sys" "set_gpu toy_settings = - 1"
    by (simp_all add: admit_def toy_settings_def toy_sys_def)
  have i: "direct_initExporter (toy_direct False) [] (new_driver toy_settings (direct_start (set_gpu toy_settings) 5 (toy_backend\<lparr>world := toy0\<rparr>))) =
      Some (True, d1)" using d1(1) by (simp add: toy_driver_def s(5))
  have "view_wf toy_view (world (toy_backend\<lparr>world := toy0\<rparr>))" using toy_live(1) by simp
  from vaDriverInit_direct[where capi = session_ctx_api and caps = "\<lambda>c d ch. None" and w = "(zero_config, zero_init)",
      OF toy_chooses s(1-4) i _ toy_laws(2-5) this]
  show ?thesis using toy_laws(1) d1(2) by (fastforce simp: toy_sys_def)
qed

theorem process_bounded_witness:
  "\<exists>r z' n' w'. vaDriverInit_1_0 (toy_settings\<lparr>cuda_loaded := False\<rparr>) toy_sys session_ctx_api
      (DIRECT_BACKEND (toy_direct False) [] :: (unit, slice_param, toy_kernel DirectState) NVBackend)
      (\<lambda>c d ch. None) None toy_backend 1 (zero_config, zero_init) = Some (VA_STATUS_ERROR_HW_BUSY, r, z', n', w')"
proof -
  let ?S = "toy_settings\<lparr>cuda_loaded := False\<rparr>" and ?be = "DIRECT_BACKEND (toy_direct False) [] :: (unit, slice_param, toy_kernel DirectState) NVBackend"
  have c: "\<not> cuda_loaded ?S" "max_instances ?S = 1" "0 < max_instances ?S" by (simp_all add: toy_settings_def)
  have p: "process ?S toy_sys session_ctx_api ?be (\<lambda>c d ch. None) 1 0" by (rule failed_opening_stays_counted(2)[OF c(1,2)])
  have "choose_drm_fd ?S toy_sys None (zero_config, zero_init) = (Some (- 1), (zero_config, zero_init))" by (simp add: choose_drm_fd_def)
  from process_bounded[OF p c(3) this, of toy_backend] c(2) show ?thesis by simp
qed

text \<open>Two surfaces, each with a host copy: closing frees that of the first.\<close>

definition two_surfaces :: "(unit, slice_param, toy_kernel DirectState) session" where
  "two_surfaces = \<lparr>ses_drv = toy_session\<lparr>objects := \<lparr>arr_buf = [Some \<lparr>o_type = OBJECT_TYPE_SURFACE, o_id = 1, o_obj = 1\<rparr>,
       Some \<lparr>o_type = OBJECT_TYPE_SURFACE, o_id = 2, o_obj = 2\<rparr>] @ replicate 14 None, arr_size = 2, arr_capacity = 16\<rparr>, nextObjId := 2, nextAddr := 3,
     heap := [1 \<mapsto> PSurface (example_surface\<lparr>hostData := 1\<rparr>), 2 \<mapsto> PSurface (example_surface\<lparr>hostData := 2\<rparr>)],
     mem := [1 \<mapsto> [], 2 \<mapsto> []]\<rparr>, cudaContext = 1, nvencLib = NULL, profiles = ([], 0)\<rparr>"

theorem nvTerminate_direct_witness:
  "\<exists>st r d' w'. nvTerminate toy_sys session_ctx_api (DIRECT_BACKEND (toy_direct False) []) two_surfaces 1 (zero_config, zero_init) =
     Some (st, r, d', 0, w') \<and> map o_id (table d') = [2] \<and> mem d' 1 = None \<and> mem d' 2 = Some []"
proof -
  have o: "owner_inv (ses_drv two_surfaces)"
    by (simp add: owner_inv_def typed_def objtab_wf_def table_def owned_by_def two_surfaces_def VA_INVALID_ID_def arr_wf_def arr_elems_def)
  have b: "arr_size (backingList (bk (ses_drv two_surfaces))) = 0"
    by (simp add: two_surfaces_def toy_session_simps toy_backend_def empty_Array_def)
  have f: "\<forall>w. fst (cuCtxPushCurrent session_ctx_api w)" "\<forall>w. fst (cuCtxPopCurrent session_ctx_api w)"
    using session_ctx_api_ok(2) by (simp_all add: stack_works_def)
  from nvTerminate_direct[OF o b f, of toy_sys "toy_direct False" "[]" 1 "(zero_config, zero_init)"] obtain st r d' w'
    where n: "nvTerminate toy_sys session_ctx_api (DIRECT_BACKEND (toy_direct False) []) two_surfaces 1 (zero_config, zero_init) = Some (st, r, d', 0, w')"
      "table d' = odd_positions (table (ses_drv two_surfaces))"
      "mem d' = mem (ses_drv two_surfaces) |` (- (\<Union>ob \<in> set (table (ses_drv two_surfaces)) - set (table d'). set (owned_by (ses_drv two_surfaces) ob)))"
    by auto
  have t: "table (ses_drv two_surfaces) = [\<lparr>o_type = OBJECT_TYPE_SURFACE, o_id = 1, o_obj = 1\<rparr>, \<lparr>o_type = OBJECT_TYPE_SURFACE, o_id = 2, o_obj = 2\<rparr>]"
    by (simp add: table_def two_surfaces_def arr_elems_def)
  have g: "set (table (ses_drv two_surfaces)) - set (table d') = {\<lparr>o_type = OBJECT_TYPE_SURFACE, o_id = 1, o_obj = 1\<rparr>}"
    unfolding n(2) t by auto
  have "mem d' 1 = None \<and> mem d' 2 = Some []"
    unfolding n(3) g by (simp add: owned_by_def two_surfaces_def restrict_map_def)
  then show ?thesis using n(1,2) by (auto simp: t)
qed

theorem nvExportSurfaceHandle_direct_witness:
  "\<exists>r d' w'. nvExportSurfaceHandle session_ctx_api (DIRECT_BACKEND (toy_direct False) []) 1 0x40000000 4 toy_session (zero_config, zero_init) =
     Some (r, d', w') \<and> backend_ok (toy_direct False) toy_view (bk d')"
proof -
  obtain w1 where w1: "cuCtxPushCurrent session_ctx_api (zero_config, zero_init) = (True, w1)"
    using session_ctx_api_ok(2) by (metis stack_works_def prod.collapse)
  obtain w2 where w2: "cuCtxPopCurrent session_ctx_api w1 = (True, w2)"
    using session_ctx_api_ok(2) by (metis stack_works_def prod.collapse)
  have t: "typed toy_session" "view toy_session 1 = Some (OBJECT_TYPE_SURFACE, 1)" "backend_ok (toy_direct False) toy_view (bk toy_session)"
    using decode_session_simps(1,3) toy_backend_ok by (simp_all add: toy_session_simps)
  have m: "(0x40000000 :: u32) AND VA_SURFACE_ATTRIB_MEM_TYPE_DRM_PRIME_2 \<noteq> 0" "(4 :: u32) AND VA_EXPORT_SURFACE_SEPARATE_LAYERS \<noteq> 0"
    by (simp_all add: VA_SURFACE_ATTRIB_MEM_TYPE_DRM_PRIME_2_def VA_EXPORT_SURFACE_SEPARATE_LAYERS_def)
  from nvExportSurfaceHandle_direct[OF t(1,2) toy_surface t(3) w1 w2 m, of "[]"] show ?thesis by (fastforce split: option.splits)
qed

end
