(* ===== verification/Spec2Isabelle.thy ===== *)
theory Spec2Isabelle
  imports Jpeg Contexts Hevc H264 Mpeg2 Vc1 Mpeg4 Vp8 Vp9 Av1 DirectBackend EglBackend Startup
begin

text \<open>
  A verification library of the VA-API driver for NVIDIA hardware with NVENC encoding: a shared library that
  implements the entry points of VA-API on top of the decoder (NVDEC), the encoder (NVENC), CUDA and, for handing
  pictures to other processes, either EGL streams or the kernel's resource manager.

  \<^bold>\<open>The program.\<close>  A client opens the driver, asks which profiles it supports, creates a config, surfaces and a
  context, and then sends pictures: \<^verbatim>\<open>nvBeginPicture\<close> names the target surface, \<^verbatim>\<open>nvRenderPicture\<close> hands over buffers,
  \<^verbatim>\<open>nvEndPicture\<close> submits.  When decoding, the handlers of the context's codec turn the buffers into the
  decoder's parameters and one bitstream; the submitted surface goes into a ring, from which the resolve thread takes
  it, maps the decoded frame and lets the backend copy it into the surface's backing image.  When encoding, buffers
  change the settings of the session, the surface is copied into an input buffer of the encoder and the
  bitstream comes back in a coded buffer.  Images and derived images give the client access to the pixels.  All
  objects live in one table of identifiers.

  \<^bold>\<open>Theories.\<close>  In the order of import; all sources are below \<^verbatim>\<open>src/src/\<close>.

  \<^item> \<open>Prelude\<close>: words of the C types, stuck computations, \<^verbatim>\<open>ROUND_UP\<close>, shared facts.
  \<^item> \<open>CArray\<close> (\<^verbatim>\<open>list.c\<close>): the growable pointer array.  \<open>AppendBuffer\<close> (\<^verbatim>\<open>vabackend.c\<close>): the growable byte buffer.
  \<^item> \<open>Objects\<close> (\<^verbatim>\<open>vabackend.c\<close>, \<^verbatim>\<open>allocateObject\<close> to \<^verbatim>\<open>deleteAllObjects\<close>): identifiers, the store of object blocks.
  \<^item> \<open>Driver\<close> (\<^verbatim>\<open>vabackend.h\<close>): the structs of configs, contexts, surfaces, buffers and images; \<^verbatim>\<open>NVDriver\<close> is the
    object table extended by the raw memory and the flags of the driver; the table of formats.
  \<^item> \<open>RefPics\<close>, \<open>CodecCtx\<close>: what the codec handlers share: references to pictures, collection of slice data.
  \<^item> \<open>Hevc\<close>, \<open>H264\<close>, \<open>Mpeg2\<close>, \<open>Mpeg4\<close>, \<open>Vc1\<close>, \<open>Vp8\<close>, \<open>Vp9\<close>, \<open>Av1\<close>, \<open>Jpeg\<close>: one codec file each; \<open>Jpeg\<close> also rebuilds a
    complete JPEG stream from the tables and slices of the client.
  \<^item> \<open>Profiles\<close>, \<open>Config\<close>: the codec registry, the list of supported profiles, configurations and their attributes.
  \<^item> \<open>Surfaces\<close>, \<open>Buffers\<close>, \<open>Images\<close>: the entry points on these objects; the host copy of a surface and its layout.
  \<^item> \<open>SurfaceQueue\<close>, \<open>Pictures\<close>: the ring of surfaces, the three picture calls, one turn of the resolve thread.
  \<^item> \<open>Nvenc\<close>, \<open>EncodeFrame\<close>: the encoder's settings and the encode half of \<^verbatim>\<open>nvEndPicture\<close>.
  \<^item> \<open>Contexts\<close>: creating and destroying contexts of both modes.
  \<^item> \<open>NvDriver\<close> (\<^verbatim>\<open>direct/nv-driver.c\<close>): the resource manager calls, device memory, exportable images.
  \<^item> \<open>Backends\<close> (\<^verbatim>\<open>NVBackend\<close> in \<^verbatim>\<open>vabackend.h\<close>, \<^verbatim>\<open>backend-common.c\<close>): what the backends share and promise.
    \<open>DirectBackend\<close> (\<^verbatim>\<open>direct/direct-export-buf.c\<close>) and \<open>EglBackend\<close> (\<^verbatim>\<open>export-buf.c\<close>) are the two of them.
  \<^item> \<open>Startup\<close>: the settings of the environment, opening and closing a driver, exporting a surface.
\<close>

text \<open>
  \<^bold>\<open>Conventions.\<close>  A C function that can leave the defined part of the language (an access outside a block, a NULL
  or dangling pointer), wait for a mutex that it holds itself, or loop forever is a function into \<open>'a option\<close>;
  \<open>None\<close> is "stuck".  Loops that may not end (growth of arrays and buffers, the scan that deletes all objects or
  images, the EGL event loop) are partial functions into \<open>option\<close>, so their theorems say that they return.
  Status codes are values.  Objects are heap blocks with an address, so two pointers to one block alias;
  uninitialised bytes are \<open>None\<close>.  Sizes that wrap are words; positions inside a block are natural numbers, with
  the bounds that keep the products of the code from wrapping as hypotheses: \<open>2 ^ 16\<close> or less for extents of pictures,
  \<open>2 ^ 31\<close> for the counts of an array and \<open>2 ^ 62\<close> for the bytes of a buffer, far above what can be
  allocated; below them the growth by half never wraps, so the growing loops need no fuel.  The one counted search,
  \<open>search_nodes\<close>, has the sixteen nodes of the source's loop.

  \<^bold>\<open>Parameters.\<close>  What the driver calls and the repository does not contain is an argument: the success of an allocation, the
  capability query of the decoder, the encoder, decoder and CUDA libraries (the records \<open>nvenc_api\<close>,
  \<open>cuda_api\<close>, \<open>ctx_api\<close>, \<open>start_api\<close>), the system calls (\<open>nv_os\<close>), the libraries of the backends
  (\<open>direct_api\<close>, \<open>egl_api\<close>), \<^verbatim>\<open>qsort_r\<close>, the VP9 header parser of GStreamer, and the casts of a
  buffer's bytes to the structs of \<^verbatim>\<open>va.h\<close>.  Each works on a state of its own that the model hands on, so the order
  of the calls is part of what is proved.  A theorem that needs some behaviour of a parameter names it: \<open>sorts\<close>,
  \<open>kernel_ok\<close>, \<open>cuda_ok\<close>, \<open>egl_ok\<close>, \<open>parser_ok\<close>, \<open>gpu_ok\<close> and \<open>queries_ok\<close>; its witness gives a concrete function
  that has it.

  \<^bold>\<open>Interfaces.\<close>  \<open>pointer_array\<close>, \<open>byte_sink\<close>, \<open>object_table\<close> and \<open>fifo\<close> are the contracts of the
  containers, \<open>surface_backend\<close> and \<open>backend\<close> those of a backend towards surfaces and pictures,
  \<open>driver_backend\<close> that of a backend towards opening and closing.  Each is interpreted on the model of the code
  that provides it.  The EGL backend meets \<open>surface_backend\<close> only: a swapped chroma can make its export stuck.
\<close>

text \<open>
  \<^bold>\<open>What is shown.\<close>

  \<^item> Pictures: a submitted picture is queued and one turn of the resolve thread resolves its surface, with any backend
    that keeps its contract and with the direct backend in particular; the ring is a queue while at most
    15 surfaces wait; every picture of a context has its own index; an encoded frame ends in the coded buffer.
  \<^item> Codecs: the reference sets of HEVC in the order of the picture counts, the picture buffer of H.264, the frames of the skip
    mode of AV1 against their specification, scaling lists against the scan they undo, and the collected
    slices with their offsets.
  \<^item> JPEG: the rebuilt stream never leaves the block that was measured for it, a reader gets the parts back
    from it, and every table a scan uses is defined before.
  \<^item> Surfaces, buffers, images: layouts, the pixels a transfer changes and those it leaves, round trips, mutexes that are released.
  \<^item> Encoder: a setting reaches the encoder with the next frame that is allowed to reconfigure; the input buffer
    is the picture, with black around it, on both paths; a context that cannot be created leaves the
    table of identifiers as it was.
  \<^item> Backends and kernel: what is opened is closed, descriptors are neither lost nor closed twice, image layouts hold
    the planes, the pool of the EGL backend hands out each image once.
  \<^item> Life of a driver: the counter of instances stays below the limit, opening gives an empty table with the
    supported profiles, and closing works on every other object (a defect of the source, kept in the model).

  \<^bold>\<open>Not modelled.\<close>  Concurrency below the level of whole calls: mutexes other than that of a surface, the condition
  variables and the scheduling of the resolve thread; a turn of that thread is one step.  Log lines,
  health messages, hashes and dumps, which no state depends on.  Entry points that return a constant.  The loading of
  CUDA and NVDEC by their header libraries, the table of entry points and the library's unloading.
  The headers of the kernel interface hold declarations only; constants that the driver uses from them are entered where
  they are used, structs as far as their fields are read or written.
\<close>

end
